(* ===== verification/Prelude.thy ===== *)
theory Prelude
  imports Main "HOL-Library.Word"
begin

text \<open>
  What the component theories share: the machine integers of the C++ code
  (\<open>size_t\<close> as natural numbers below \<open>2 ^ 64\<close> with an explicit wrapping
  subtraction, \<open>int\<close> as integers with an explicit conversion, \<open>uint64_t\<close>
  as 64-bit words), the partial memory copies behind \<open>memcpy\<close>, and the
  list lemmas about them.
\<close>

section \<open>Collections of facts\<close>

named_theorems mem_simps \<open>rewriting of memory slices and splices\<close>
named_theorems inv_intros \<open>introduction rules for component invariants\<close>

section \<open>Machine integers\<close>

type_synonym byte = "8 word"
type_synonym u64 = "64 word"
type_synonym u32 = "32 word"

text \<open>The unsigned subtraction of \<open>size_t\<close>, which wraps around.\<close>

definition usub :: "nat \<Rightarrow> nat \<Rightarrow> nat" where
  "usub a b = (if b \<le> a then a - b else a + 2 ^ 64 - b)"

lemma usub_le [simp]: "b \<le> a \<Longrightarrow> usub a b = a - b"
  by (simp add: usub_def)

text \<open>The conversions \<open>int\<close> to \<open>size_t\<close> and \<open>size_t\<close> to \<open>int\<close>.\<close>

definition int_to_size :: "int \<Rightarrow> nat" where
  "int_to_size i = nat (i mod 2 ^ 64)"

definition size_to_int :: "nat \<Rightarrow> int" where
  "size_to_int n = signed_take_bit 31 (int n)"

lemma int_to_size_nonneg [simp]:
  "0 \<le> i \<Longrightarrow> i < 2 ^ 31 \<Longrightarrow> int_to_size i = nat i"
  by (simp add: int_to_size_def)

lemma size_to_int_small [simp]: "n < 2 ^ 31 \<Longrightarrow> size_to_int n = int n"
  unfolding size_to_int_def by (rule signed_take_bit_int_eq_self) auto

section \<open>Memory slices\<close>

text \<open>
  A buffer is a list of cells. \<open>slice\<close> reads \<open>n\<close> cells at an offset and
  \<open>splice\<close> overwrites cells at an offset; \<open>peek\<close> and \<open>poke\<close> are the same
  operations with the bounds check that \<open>memcpy\<close> leaves to its caller.
\<close>

definition slice :: "'a list \<Rightarrow> nat \<Rightarrow> nat \<Rightarrow> 'a list" where
  "slice xs off n = take n (drop off xs)"

definition splice :: "'a list \<Rightarrow> nat \<Rightarrow> 'a list \<Rightarrow> 'a list" where
  "splice xs off v = take off xs @ v @ drop (off + length v) xs"

definition peek :: "'a list \<Rightarrow> nat \<Rightarrow> nat \<Rightarrow> 'a list option" where
  "peek xs off n = (if off + n \<le> length xs then Some (slice xs off n) else None)"

definition poke :: "'a list \<Rightarrow> nat \<Rightarrow> 'a list \<Rightarrow> 'a list option" where
  "poke xs off v = (if off + length v \<le> length xs then Some (splice xs off v) else None)"

lemma peek_ok [simp]: "off + n \<le> length xs \<Longrightarrow> peek xs off n = Some (slice xs off n)"
  by (simp add: peek_def)

lemma poke_ok [simp]: "off + length v \<le> length xs \<Longrightarrow> poke xs off v = Some (splice xs off v)"
  by (simp add: poke_def)

lemma length_slice [simp]: "off + n \<le> length xs \<Longrightarrow> length (slice xs off n) = n"
  by (simp add: slice_def)

lemma length_splice [simp]: "off + length v \<le> length xs \<Longrightarrow> length (splice xs off v) = length xs"
  by (simp add: splice_def)

lemma slice_0 [simp]: "slice xs off 0 = []"
  by (simp add: slice_def)

lemma splice_Nil [simp]: "off \<le> length xs \<Longrightarrow> splice xs off [] = xs"
  by (simp add: splice_def)

lemma slice_full [mem_simps]: "slice xs 0 (length xs) = xs"
  by (simp add: slice_def)

lemma map_slice: "map f (slice xs off n) = slice (map f xs) off n"
  by (simp add: slice_def take_map drop_map)

lemma slice_append_mid [mem_simps]:
  "off + n \<le> length ys \<Longrightarrow> slice (xs @ ys @ zs) (length xs + off) n = slice ys off n"
  by (simp add: slice_def)

lemma splice_append_mid [mem_simps]:
  "off + length v \<le> length ys \<Longrightarrow>
     splice (xs @ ys @ zs) (length xs + off) v = xs @ splice ys off v @ zs"
  by (simp add: splice_def)

lemma slice_split:
  "off + (a + b) \<le> length xs \<Longrightarrow> slice xs off (a + b) = slice xs off a @ slice xs (off + a) b"
  by (simp add: slice_def take_add add.commute drop_drop)

lemma splice_splice:
  assumes "off + length u + length v \<le> length xs"
  shows "splice (splice xs off u) (off + length u) v = splice xs off (u @ v)"
  using assms by (simp add: splice_def ac_simps)

lemma take_splice_le [mem_simps]:
  "n \<le> off \<Longrightarrow> off \<le> length xs \<Longrightarrow> take n (splice xs off v) = take n xs"
  by (simp add: splice_def min_def)

lemma slice_splice_same [mem_simps]:
  "off + length v \<le> length xs \<Longrightarrow> slice (splice xs off v) off (length v) = v"
  by (simp add: slice_def splice_def)

lemma slice_splice_below:
  assumes "a + n \<le> off" "off \<le> length xs"
  shows "slice (splice xs off v) a n = slice xs a n"
proof -
  have "slice (splice xs off v) a n = drop a (take (a + n) (splice xs off v))"
    by (simp add: slice_def take_drop add.commute)
  also have "\<dots> = drop a (take (a + n) xs)"
    using assms by (simp add: take_splice_le)
  finally show ?thesis
    by (simp add: slice_def take_drop add.commute)
qed

section \<open>Blocks of one length\<close>

text \<open>A list of blocks that all have the same length, read as one flat memory.\<close>

lemma length_concat_blocks:
  "\<forall>b \<in> set bs. length b = n \<Longrightarrow> length (concat bs) = length bs * n"
  by (induction bs) auto

end
