(* ===== verification/ByteArray.thy ===== *)
theory ByteArray
  imports Prelude
begin

text \<open>
  The byte queue of \<^verbatim>\<open>src/src/bytearray.cc\<close> and \<^verbatim>\<open>src/include/bytearray.h\<close>:
  a singly linked list of equally sized blocks, a read cursor in its first block and a write
  cursor somewhere behind it; blocks that have been read are appended again at the end.
  The blocks live in an explicit heap, because the code rewires \<open>m_next\<close> pointers and
  hands out pointers into the blocks (the \<open>iovec\<close>s). A cell is \<open>None\<close> while the code
  has not initialised it. The loops are \<^theory_text>\<open>partial_function (option)\<close>: \<open>None\<close> is a
  loop that does not end, \<open>Inl\<close> an assertion failure or an invalid memory access. Sizes are natural
  numbers: \<open>m_capacity\<close> counts the bytes of blocks that have been allocated, and allocations succeed, so the
  \<open>size_t\<close> cannot wrap around; a negative \<open>int\<close> becomes the size that the conversion makes of it.
\<close>

section \<open>Data\<close>

type_synonym cell = "byte option"

record node =
  n_ptr :: "cell list"
  n_next :: "nat option"
  n_size :: nat

record bytearray =
  heap :: "nat \<Rightarrow> node option"
  fresh :: nat
  m_base_size :: nat
  m_capacity :: nat
  m_data_size :: nat
  m_write_index :: nat
  m_write_node :: "nat option"
  m_read_index :: nat
  m_read_node :: "nat option"
  m_end_node :: "nat option"

datatype ba_error = NullDeref | AssertFailed | OutOfBounds | UninitRead

text \<open>An \<open>iovec\<close>: the block and the offset that \<open>iov_base\<close> points at, and \<open>iov_len\<close>.\<close>

record iovec =
  iov_node :: nat
  iov_off :: nat
  iov_len :: nat

section \<open>Nodes and capacity\<close>

definition new_Node :: "nat \<Rightarrow> node" where
  "new_Node mSize = \<lparr>n_ptr = replicate mSize None, n_next = None, n_size = mSize\<rparr>"

definition set_next :: "(nat \<Rightarrow> node option) \<Rightarrow> nat option \<Rightarrow> nat option \<Rightarrow>
    ba_error + (nat \<Rightarrow> node option)" where
  "set_next h p q = (case p of None \<Rightarrow> Inl NullDeref
     | Some a \<Rightarrow> (case h a of None \<Rightarrow> Inl NullDeref
        | Some nd \<Rightarrow> Inr (h(a \<mapsto> nd\<lparr>n_next := q\<rparr>))))"

text \<open>The body of the loop of \<open>updateCapacity\<close>: a new block behind \<open>m_end_node\<close>.\<close>

definition append_node :: "bytearray \<Rightarrow> ba_error + bytearray" where
  "append_node s =
     (case set_next ((heap s)(fresh s \<mapsto> new_Node (m_base_size s))) (m_end_node s) (Some (fresh s)) of
        Inl e \<Rightarrow> Inl e
      | Inr h \<Rightarrow> Inr (s\<lparr>heap := h, fresh := Suc (fresh s), m_end_node := Some (fresh s),
                       m_capacity := m_capacity s + m_base_size s\<rparr>))"

partial_function (option) updateCapacity :: "nat \<Rightarrow> bytearray \<Rightarrow> (ba_error + bytearray) option" where
  "updateCapacity sz s =
     (if m_capacity s \<le> sz
      then (case append_node s of Inl e \<Rightarrow> Some (Inl e) | Inr s' \<Rightarrow> updateCapacity sz s')
      else Some (Inr s))"

definition ByteArray_new :: "nat \<Rightarrow> nat \<Rightarrow> (ba_error + bytearray) option" where
  "ByteArray_new mBaseSize mCapacity =
     updateCapacity mCapacity
       \<lparr>heap = [0 \<mapsto> new_Node mBaseSize], fresh = 1, m_base_size = mBaseSize,
        m_capacity = mBaseSize, m_data_size = 0, m_write_index = 0, m_write_node = Some 0,
        m_read_index = 0, m_read_node = Some 0, m_end_node = Some 0\<rparr>"

definition getCapacity :: "bytearray \<Rightarrow> nat" where "getCapacity s = m_capacity s"
definition getDataSize :: "bytearray \<Rightarrow> nat" where "getDataSize s = m_data_size s"
definition getBaseSize :: "bytearray \<Rightarrow> nat" where "getBaseSize s = m_base_size s"

text \<open>\<open>node->m_next = nullptr; m_end_node->m_next = node; m_end_node = node; m_capacity += \<dots>\<close>\<close>

definition deallocNode :: "bytearray \<Rightarrow> nat \<Rightarrow> ba_error + bytearray" where
  "deallocNode s a =
     (case set_next (heap s) (Some a) None of Inl e \<Rightarrow> Inl e
      | Inr h1 \<Rightarrow> (case set_next h1 (m_end_node s) (Some a) of Inl e \<Rightarrow> Inl e
        | Inr h2 \<Rightarrow> (case h2 a of None \<Rightarrow> Inl NullDeref
          | Some nd \<Rightarrow> Inr (s\<lparr>heap := h2, m_end_node := Some a,
                             m_capacity := m_capacity s + n_size nd\<rparr>))))"

section \<open>Writing\<close>

text \<open>\<open>memcpy(m_write_node->m_ptr + idx, buf + w_size, n)\<close>, skipped for a null \<open>buf\<close>.\<close>

definition copy_in :: "byte list option \<Rightarrow> nat \<Rightarrow> node \<Rightarrow> nat \<Rightarrow> nat \<Rightarrow> ba_error + node" where
  "copy_in buf w nd idx n =
     (case buf of None \<Rightarrow> Inr nd
      | Some bs \<Rightarrow> (case peek bs w n of None \<Rightarrow> Inl OutOfBounds
        | Some xs \<Rightarrow> (case poke (n_ptr nd) idx (map Some xs) of None \<Rightarrow> Inl OutOfBounds
          | Some p \<Rightarrow> Inr (nd\<lparr>n_ptr := p\<rparr>))))"

partial_function (option) write_loop ::
    "byte list option \<Rightarrow> bytearray \<Rightarrow> nat \<Rightarrow> nat \<Rightarrow> (ba_error + bytearray \<times> nat) option" where
  "write_loop buf s w_size sz =
     (if sz = 0 then Some (Inr (s, w_size)) else
      case m_write_node s of None \<Rightarrow> Some (Inl AssertFailed)
      | Some a \<Rightarrow> (case heap s a of None \<Rightarrow> Some (Inl NullDeref)
      | Some nd \<Rightarrow>
        let room = usub (m_base_size s) (m_write_index s) in
        if sz < room then
          (case copy_in buf w_size nd (m_write_index s) sz of Inl e \<Rightarrow> Some (Inl e)
           | Inr nd' \<Rightarrow> write_loop buf
               (s\<lparr>heap := (heap s)(a \<mapsto> nd'), m_write_index := m_write_index s + sz\<rparr>)
               (w_size + sz) 0)
        else
          (case copy_in buf w_size nd (m_write_index s) room of Inl e \<Rightarrow> Some (Inl e)
           | Inr nd' \<Rightarrow>
             (case n_next nd' of None \<Rightarrow> Some (Inl AssertFailed)
              | Some b \<Rightarrow> write_loop buf
                  (s\<lparr>heap := (heap s)(a \<mapsto> nd'), m_write_index := 0, m_write_node := Some b\<rparr>)
                  (w_size + room) (sz - room)))))"

text \<open>
  \<open>write(const char *, int)\<close>: the \<open>int\<close> is converted to \<open>size_t\<close> by the call of
  \<open>updateCapacity\<close>, while the loop condition \<open>sz > 0\<close> is the signed one.
\<close>

definition ba_write :: "bytearray \<Rightarrow> byte list option \<Rightarrow> int \<Rightarrow> (ba_error + bytearray \<times> nat) option" where
  "ba_write s buf sz =
     (case updateCapacity (int_to_size sz) s of
        None \<Rightarrow> None
      | Some (Inl e) \<Rightarrow> Some (Inl e)
      | Some (Inr s1) \<Rightarrow>
         (case write_loop buf s1 0 (nat sz) of
            None \<Rightarrow> None
          | Some (Inl e) \<Rightarrow> Some (Inl e)
          | Some (Inr (s2, w)) \<Rightarrow>
              Some (Inr (s2\<lparr>m_data_size := m_data_size s2 + w,
                            m_capacity := usub (m_capacity s2) w\<rparr>, w))))"

definition ba_write_string :: "bytearray \<Rightarrow> byte list \<Rightarrow> (ba_error + bytearray \<times> nat) option" where
  "ba_write_string s buf = ba_write s (Some buf) (size_to_int (length buf))"

definition updateNullWrite :: "bytearray \<Rightarrow> nat \<Rightarrow> (ba_error + bytearray \<times> nat) option" where
  "updateNullWrite s w_size = ba_write s None (size_to_int w_size)"

section \<open>Reading\<close>

text \<open>\<open>memcpy(buf + r_size, m_read_node->m_ptr + idx, n)\<close>, skipped for a null \<open>buf\<close>.\<close>

definition copy_out :: "cell list option \<Rightarrow> nat \<Rightarrow> node \<Rightarrow> nat \<Rightarrow> nat \<Rightarrow> ba_error + cell list option" where
  "copy_out buf r nd idx n =
     (case buf of None \<Rightarrow> Inr None
      | Some d \<Rightarrow> (case peek (n_ptr nd) idx n of None \<Rightarrow> Inl OutOfBounds
        | Some xs \<Rightarrow> (case poke d r xs of None \<Rightarrow> Inl OutOfBounds
          | Some d' \<Rightarrow> Inr (Some d'))))"

partial_function (option) read_loop ::
    "cell list option \<Rightarrow> bytearray \<Rightarrow> nat \<Rightarrow> nat \<Rightarrow>
       (ba_error + bytearray \<times> cell list option \<times> nat) option" where
  "read_loop buf s r_size sz =
     (if sz = 0 then Some (Inr (s, buf, r_size)) else
      case m_read_node s of None \<Rightarrow> Some (Inl NullDeref)
      | Some a \<Rightarrow> (case heap s a of None \<Rightarrow> Some (Inl NullDeref)
      | Some nd \<Rightarrow>
        let room = usub (m_base_size s) (m_read_index s) in
        if sz < room then
          (case copy_out buf r_size nd (m_read_index s) sz of Inl e \<Rightarrow> Some (Inl e)
           | Inr buf' \<Rightarrow> read_loop buf' (s\<lparr>m_read_index := m_read_index s + sz\<rparr>) (r_size + sz) 0)
        else
          (case copy_out buf r_size nd (m_read_index s) room of Inl e \<Rightarrow> Some (Inl e)
           | Inr buf' \<Rightarrow>
             (case deallocNode (s\<lparr>m_read_index := 0, m_read_node := n_next nd\<rparr>) a of
                Inl e \<Rightarrow> Some (Inl e)
              | Inr s' \<Rightarrow> read_loop buf' s' (r_size + room) (sz - room)))))"

text \<open>
  \<open>read(char *, int)\<close>: the comparison \<open>m_data_size > sz\<close> and the conditional are done
  in \<open>size_t\<close>, and the result is converted back to \<open>int\<close>.
\<close>

definition read_clamp :: "nat \<Rightarrow> int \<Rightarrow> int" where
  "read_clamp data_size sz =
     size_to_int (if int_to_size sz < data_size then int_to_size sz else data_size)"

definition ba_read :: "bytearray \<Rightarrow> cell list option \<Rightarrow> int \<Rightarrow>
    (ba_error + bytearray \<times> cell list option \<times> nat) option" where
  "ba_read s buf sz =
     (case read_loop buf s 0 (nat (read_clamp (m_data_size s) sz)) of
        None \<Rightarrow> None
      | Some (Inl e) \<Rightarrow> Some (Inl e)
      | Some (Inr (s1, buf1, r)) \<Rightarrow>
          Some (Inr (s1\<lparr>m_data_size := usub (m_data_size s1) r\<rparr>, buf1, r)))"

text \<open>
  \<open>std::string(buf.get(), 0, sz)\<close> converts the pointer to a temporary
  \<open>std::string\<close> first, which scans for a terminating zero byte.
\<close>

fun cstring :: "cell list \<Rightarrow> ba_error + byte list" where
  "cstring [] = Inl OutOfBounds"
| "cstring (None # cs) = Inl UninitRead"
| "cstring (Some b # cs) =
     (if b = 0 then Inr [] else case cstring cs of Inl e \<Rightarrow> Inl e | Inr bs \<Rightarrow> Inr (b # bs))"

definition ba_read_string :: "bytearray \<Rightarrow> nat \<Rightarrow> (ba_error + bytearray \<times> byte list) option" where
  "ba_read_string s sz =
     (case ba_read s (Some (replicate (Suc sz) None)) (size_to_int sz) of
        None \<Rightarrow> None
      | Some (Inl e) \<Rightarrow> Some (Inl e)
      | Some (Inr (s1, buf, r)) \<Rightarrow>
          (case buf of None \<Rightarrow> Some (Inl NullDeref)
           | Some cells \<Rightarrow> (case cstring cells of Inl e \<Rightarrow> Some (Inl e)
              | Inr bs \<Rightarrow> Some (Inr (s1, take sz bs)))))"

definition updateNullRead :: "bytearray \<Rightarrow> nat \<Rightarrow>
    (ba_error + bytearray \<times> cell list option \<times> nat) option" where
  "updateNullRead s r_size = ba_read s None (size_to_int r_size)"

section \<open>Scatter and gather buffers\<close>

text \<open>
  The loop of \<open>getWriteBuffers\<close>: it walks the blocks with local copies of the
  write cursor and collects one \<open>iovec\<close> per block.
\<close>

partial_function (option) write_buffers_loop ::
    "(nat \<Rightarrow> node option) \<Rightarrow> nat \<Rightarrow> nat option \<Rightarrow> nat \<Rightarrow> nat \<Rightarrow> iovec list \<Rightarrow>
       (ba_error + nat option \<times> nat \<times> iovec list) option" where
  "write_buffers_loop h base write_node write_index sz buffers =
     (if sz = 0 then Some (Inr (write_node, write_index, buffers)) else
      case write_node of None \<Rightarrow> Some (Inl NullDeref)
      | Some a \<Rightarrow> (case h a of None \<Rightarrow> Some (Inl NullDeref)
      | Some nd \<Rightarrow>
        let room = usub base write_index in
        if sz < room then
          write_buffers_loop h base write_node (write_index + sz) 0
            (buffers @ [\<lparr>iov_node = a, iov_off = write_index, iov_len = sz\<rparr>])
        else
          write_buffers_loop h base (n_next nd) 0 (sz - room)
            (buffers @ [\<lparr>iov_node = a, iov_off = write_index, iov_len = room\<rparr>])))"

definition getWriteBuffers :: "bytearray \<Rightarrow> nat \<Rightarrow> bool \<Rightarrow>
    (ba_error + bytearray \<times> iovec list \<times> nat) option" where
  "getWriteBuffers s sz is_update =
     (case updateCapacity sz s of
        None \<Rightarrow> None
      | Some (Inl e) \<Rightarrow> Some (Inl e)
      | Some (Inr s1) \<Rightarrow>
         (case write_buffers_loop (heap s1) (m_base_size s1) (m_write_node s1) (m_write_index s1) sz [] of
            None \<Rightarrow> None
          | Some (Inl e) \<Rightarrow> Some (Inl e)
          | Some (Inr (wn, wi, bufs)) \<Rightarrow>
              Some (Inr (if is_update
                         then s1\<lparr>m_write_node := wn, m_write_index := wi,
                                 m_data_size := m_data_size s1 + sz,
                                 m_capacity := usub (m_capacity s1) sz\<rparr>
                         else s1, bufs, sz))))"

text \<open>The loop of \<open>getReadBuffers\<close>; the blocks it leaves are recycled when \<open>is_update\<close>.\<close>

partial_function (option) read_buffers_loop ::
    "bool \<Rightarrow> bytearray \<Rightarrow> nat option \<Rightarrow> nat \<Rightarrow> nat \<Rightarrow> iovec list \<Rightarrow>
       (ba_error + bytearray \<times> nat option \<times> nat \<times> iovec list) option" where
  "read_buffers_loop is_update s read_node read_index sz buffers =
     (if sz = 0 then Some (Inr (s, read_node, read_index, buffers)) else
      case read_node of None \<Rightarrow> Some (Inl NullDeref)
      | Some a \<Rightarrow> (case heap s a of None \<Rightarrow> Some (Inl NullDeref)
      | Some nd \<Rightarrow>
        let room = usub (m_base_size s) read_index in
        if sz < room then
          read_buffers_loop is_update s read_node (read_index + sz) 0
            (buffers @ [\<lparr>iov_node = a, iov_off = read_index, iov_len = sz\<rparr>])
        else if is_update then
          (case deallocNode s a of Inl e \<Rightarrow> Some (Inl e)
           | Inr s' \<Rightarrow> read_buffers_loop is_update s' (n_next nd) 0 (sz - room)
               (buffers @ [\<lparr>iov_node = a, iov_off = read_index, iov_len = room\<rparr>]))
        else
          read_buffers_loop is_update s (n_next nd) 0 (sz - room)
            (buffers @ [\<lparr>iov_node = a, iov_off = read_index, iov_len = room\<rparr>])))"

definition getReadBuffers :: "bytearray \<Rightarrow> nat \<Rightarrow> bool \<Rightarrow>
    (ba_error + bytearray \<times> iovec list \<times> nat) option" where
  "getReadBuffers s sz is_update =
     (let n = (if sz < m_data_size s then sz else m_data_size s) in
      case read_buffers_loop is_update s (m_read_node s) (m_read_index s) n [] of
        None \<Rightarrow> None
      | Some (Inl e) \<Rightarrow> Some (Inl e)
      | Some (Inr (s1, rn, ri, bufs)) \<Rightarrow>
          Some (Inr (if is_update
                     then s1\<lparr>m_read_node := rn, m_read_index := ri,
                             m_data_size := usub (m_data_size s1) n\<rparr>
                     else s1, bufs, n)))"

text \<open>
  What the owner of the \<open>iovec\<close>s sees and does: \<open>gather\<close> reads the regions they point
  at and \<open>scatter\<close> fills them, in order, as \<open>readv\<close> does.
\<close>

definition iov_read :: "(nat \<Rightarrow> node option) \<Rightarrow> iovec \<Rightarrow> cell list" where
  "iov_read h v = (case h (iov_node v) of None \<Rightarrow> []
                   | Some nd \<Rightarrow> slice (n_ptr nd) (iov_off v) (iov_len v))"

definition gather :: "(nat \<Rightarrow> node option) \<Rightarrow> iovec list \<Rightarrow> cell list" where
  "gather h vs = concat (map (iov_read h) vs)"

definition iov_write :: "(nat \<Rightarrow> node option) \<Rightarrow> iovec \<Rightarrow> cell list \<Rightarrow> (nat \<Rightarrow> node option)" where
  "iov_write h v cs = (case h (iov_node v) of None \<Rightarrow> h
                       | Some nd \<Rightarrow> h(iov_node v \<mapsto> nd\<lparr>n_ptr := splice (n_ptr nd) (iov_off v) cs\<rparr>))"

fun scatter :: "(nat \<Rightarrow> node option) \<Rightarrow> iovec list \<Rightarrow> cell list \<Rightarrow> (nat \<Rightarrow> node option)" where
  "scatter h [] cs = h"
| "scatter h (v # vs) cs = scatter (iov_write h v (take (iov_len v) cs)) vs (drop (iov_len v) cs)"

section \<open>Destruction\<close>

text \<open>\<open>~ByteArray\<close> walks the list from \<open>m_read_node\<close> and deletes every block.\<close>

partial_function (option) delete_loop ::
    "(nat \<Rightarrow> node option) \<Rightarrow> nat option \<Rightarrow> (ba_error + (nat \<Rightarrow> node option)) option" where
  "delete_loop h it =
     (case it of None \<Rightarrow> Some (Inr h)
      | Some a \<Rightarrow> (case h a of None \<Rightarrow> Some (Inl NullDeref)
        | Some nd \<Rightarrow> delete_loop (h(a := None)) (n_next nd)))"

definition ByteArray_delete :: "bytearray \<Rightarrow> (ba_error + (nat \<Rightarrow> node option)) option" where
  "ByteArray_delete s = delete_loop (heap s) (m_read_node s)"

end
