(* ===== verification/ByteArray_Layout.thy ===== *)
theory ByteArray_Layout
  imports ByteArray
begin

text \<open>
  The representation invariant of the byte queue. \<open>lseg\<close> says that the \<open>m_next\<close>
  pointers run through a list of blocks; \<open>ba_layout s as k\<close> says that the heap consists of
  exactly the blocks \<open>as\<close>, linked from \<open>m_read_node\<close> to \<open>m_end_node\<close>, with the
  write cursor in the \<open>k\<close>-th of them; \<open>ba_inv\<close> adds what the counters mean. The
  blocks in order form one flat memory, in which both cursors have an absolute position.
\<close>

section \<open>Linked list segments\<close>

fun lseg :: "(nat \<Rightarrow> node option) \<Rightarrow> nat option \<Rightarrow> nat list \<Rightarrow> nat option \<Rightarrow> bool" where
  "lseg h p [] q \<longleftrightarrow> p = q"
| "lseg h p (a # as) q \<longleftrightarrow> p = Some a \<and> (\<exists>nd. h a = Some nd \<and> lseg h (n_next nd) as q)"

lemma lseg_append: "lseg h p (as @ bs) q \<longleftrightarrow> (\<exists>r. lseg h p as r \<and> lseg h r bs q)"
  by (induction as arbitrary: p) auto

lemma lseg_upd_notin [simp]: "a \<notin> set as \<Longrightarrow> lseg (h(a := v)) p as q = lseg h p as q"
  by (induction as arbitrary: p) auto

lemma lseg_upd_keep:
  "h a = Some nd \<Longrightarrow> n_next nd' = n_next nd \<Longrightarrow> lseg (h(a \<mapsto> nd')) p as q = lseg h p as q"
  by (induction as arbitrary: p) auto

lemma lseg_head: "lseg h p as q \<Longrightarrow> as \<noteq> [] \<Longrightarrow> p = Some (hd as)"
  by (cases as) auto

lemma lseg_mem: "lseg h p as q \<Longrightarrow> a \<in> set as \<Longrightarrow> \<exists>nd. h a = Some nd"
  by (induction as arbitrary: p) auto

text \<open>Appending a block: the last \<open>m_next\<close> is redirected.\<close>

lemma lseg_link:
  assumes "lseg h p (as @ [e]) None" "e \<notin> set as" "h e = Some nd"
  shows "lseg (h(e \<mapsto> nd\<lparr>n_next := Some b\<rparr>)) p (as @ [e]) (Some b)"
  using assms by (auto simp: lseg_append)

section \<open>Blocks and layout\<close>

definition block_ok :: "(nat \<Rightarrow> node option) \<Rightarrow> nat \<Rightarrow> nat \<Rightarrow> bool" where
  "block_ok h base a \<longleftrightarrow> (\<exists>nd. h a = Some nd \<and> length (n_ptr nd) = base \<and> n_size nd = base)"

definition block :: "(nat \<Rightarrow> node option) \<Rightarrow> nat \<Rightarrow> cell list" where
  "block h a = n_ptr (the (h a))"

definition flat :: "(nat \<Rightarrow> node option) \<Rightarrow> nat list \<Rightarrow> cell list" where
  "flat h as = concat (map (block h) as)"

definition ba_layout :: "bytearray \<Rightarrow> nat list \<Rightarrow> nat \<Rightarrow> bool" where
  "ba_layout s as k \<longleftrightarrow>
     0 < m_base_size s \<and> lseg (heap s) (m_read_node s) as None \<and> distinct as \<and> k < length as \<and>
     m_write_node s = Some (as ! k) \<and> m_end_node s = Some (last as) \<and>
     (\<forall>a \<in> set as. a < fresh s \<and> block_ok (heap s) (m_base_size s) a) \<and>
     dom (heap s) = set as \<and>
     m_write_index s < m_base_size s \<and> m_read_index s < m_base_size s"

text \<open>The absolute position of the write cursor.\<close>

definition wpos :: "bytearray \<Rightarrow> nat \<Rightarrow> nat" where
  "wpos s k = k * m_base_size s + m_write_index s"

definition ba_inv :: "bytearray \<Rightarrow> nat list \<Rightarrow> nat \<Rightarrow> bool" where
  "ba_inv s as k \<longleftrightarrow> ba_layout s as k \<and>
     m_read_index s + m_data_size s = wpos s k \<and>
     m_capacity s + wpos s k = length as * m_base_size s"

text \<open>The bytes that have been written and not yet read, in order.\<close>

definition ba_contents :: "bytearray \<Rightarrow> nat list \<Rightarrow> cell list" where
  "ba_contents s as = slice (flat (heap s) as) (m_read_index s) (m_data_size s)"

lemma block_okD: "block_ok h base a \<Longrightarrow> length (block h a) = base"
  by (auto simp: block_ok_def block_def)

lemma length_flat:
  assumes "\<forall>a \<in> set as. block_ok h base a"
  shows "length (flat h as) = length as * base"
proof -
  have "\<forall>b \<in> set (map (block h) as). length b = base"
    using assms by (auto dest: block_okD)
  from length_concat_blocks [OF this] show ?thesis by (simp add: flat_def)
qed

lemma flat_append [simp]: "flat h (as @ bs) = flat h as @ flat h bs"
  by (simp add: flat_def)

lemma flat_Nil [simp]: "flat h [] = []"
  by (simp add: flat_def)

lemma flat_Cons [simp]: "flat h (a # as) = block h a @ flat h as"
  by (simp add: flat_def)

lemma flat_upd_notin [simp]: "a \<notin> set as \<Longrightarrow> flat (h(a := v)) as = flat h as"
  unfolding flat_def by (rule arg_cong [of _ _ concat]) (auto simp: block_def)

lemma block_upd_same [simp]: "block (h(a \<mapsto> nd)) a = n_ptr nd"
  by (simp add: block_def)

lemma block_ok_upd:
  "block_ok h base a \<Longrightarrow> length (n_ptr nd) = base \<Longrightarrow> n_size nd = base \<Longrightarrow>
     block_ok (h(b \<mapsto> nd)) base a"
  by (auto simp: block_ok_def)

text \<open>The facts about the block under the write cursor that the loops use.\<close>

lemma ba_layout_write_block:
  assumes "ba_layout s as k"
  obtains pre a post nd where "as = pre @ a # post" "length pre = k"
    "m_write_node s = Some a" "heap s a = Some nd" "length (n_ptr nd) = m_base_size s"
    "n_size nd = m_base_size s" "n_next nd = (case post of [] \<Rightarrow> None | b # _ \<Rightarrow> Some b)"
    "a \<notin> set pre" "a \<notin> set post" "length (flat (heap s) pre) = k * m_base_size s"
proof -
  let ?a = "as ! k" and ?pre = "take k as" and ?post = "drop (Suc k) as"
  from assms have k: "k < length as" by (simp add: ba_layout_def)
  then have as: "as = ?pre @ ?a # ?post" by (rule id_take_nth_drop)
  from k have "block_ok (heap s) (m_base_size s) ?a"
    using assms by (auto simp: ba_layout_def)
  then obtain nd where nd: "heap s ?a = Some nd" "length (n_ptr nd) = m_base_size s"
      "n_size nd = m_base_size s" by (auto simp: block_ok_def)
  have "lseg (heap s) (m_read_node s) (?pre @ ?a # ?post) None"
    using assms as by (simp add: ba_layout_def)
  then have "lseg (heap s) (n_next nd) ?post None"
    using nd(1) by (auto simp: lseg_append)
  then have nxt: "n_next nd = (case ?post of [] \<Rightarrow> None | b # _ \<Rightarrow> Some b)"
    by (cases ?post) auto
  have "distinct (?pre @ ?a # ?post)"
    using assms as by (simp add: ba_layout_def)
  then have notin: "?a \<notin> set ?pre" "?a \<notin> set ?post" by auto
  have "\<forall>a \<in> set ?pre. block_ok (heap s) (m_base_size s) a"
    using assms by (auto simp: ba_layout_def dest: in_set_takeD)
  then have len: "length (flat (heap s) ?pre) = k * m_base_size s"
    using k by (simp add: length_flat)
  have wn: "m_write_node s = Some ?a" using assms by (simp add: ba_layout_def)
  show ?thesis
    using that [OF as _ wn nd nxt notin len] k by simp
qed

lemma ba_layout_length_flat:
  "ba_layout s as k \<Longrightarrow> length (flat (heap s) as) = length as * m_base_size s"
  by (rule length_flat) (simp add: ba_layout_def)

lemma ba_layout_wpos: "ba_layout s as k \<Longrightarrow> wpos s k < length as * m_base_size s"
proof -
  assume l: "ba_layout s as k"
  then have "Suc k \<le> length as" "m_write_index s < m_base_size s" by (auto simp: ba_layout_def)
  then have "k * m_base_size s + m_write_index s < Suc k * m_base_size s" by simp
  also have "\<dots> \<le> length as * m_base_size s"
    using \<open>Suc k \<le> length as\<close> by (rule mult_le_mono1)
  finally show ?thesis by (simp add: wpos_def)
qed

lemma ba_inv_capacity_pos: "ba_inv s as k \<Longrightarrow> 0 < m_capacity s"
  using ba_layout_wpos [of s as k] by (simp add: ba_inv_def)

section \<open>Overwriting cells of the write block\<close>

lemma ba_layout_splice:
  assumes l: "ba_layout s as k" and wn: "m_write_node s = Some a" and nd: "heap s a = Some nd"
    and len: "m_write_index s + length v \<le> m_base_size s"
  defines "nd' \<equiv> nd\<lparr>n_ptr := splice (n_ptr nd) (m_write_index s) v\<rparr>"
  shows "ba_layout (s\<lparr>heap := (heap s)(a \<mapsto> nd')\<rparr>) as k"
    and "flat ((heap s)(a \<mapsto> nd')) as = splice (flat (heap s) as) (wpos s k) v"
proof -
  obtain pre post where as: "as = pre @ a # post" "length pre = k"
      "a \<notin> set pre" "a \<notin> set post" "length (flat (heap s) pre) = k * m_base_size s"
    and p: "length (n_ptr nd) = m_base_size s" "n_size nd = m_base_size s"
    using ba_layout_write_block [OF l] wn nd by (metis option.inject)
  have nxt: "n_next nd' = n_next nd" "length (n_ptr nd') = m_base_size s" "n_size nd' = m_base_size s"
    using p len by (simp_all add: nd'_def)
  have seg: "lseg ((heap s)(a \<mapsto> nd')) p as q = lseg (heap s) p as q" for p q
    using nd nxt(1) by (intro lseg_upd_keep)
  show "ba_layout (s\<lparr>heap := (heap s)(a \<mapsto> nd')\<rparr>) as k"
    using l nd unfolding ba_layout_def by (auto simp: seg intro: block_ok_upd nxt)
  have old: "flat (heap s) as = flat (heap s) pre @ n_ptr nd @ flat (heap s) post"
    using nd by (simp add: as block_def)
  have "flat ((heap s)(a \<mapsto> nd')) as = flat (heap s) pre @ n_ptr nd' @ flat (heap s) post"
    using as(3,4) by (simp add: as(1))
  then show "flat ((heap s)(a \<mapsto> nd')) as = splice (flat (heap s) as) (wpos s k) v"
    using splice_append_mid [of "m_write_index s" v "n_ptr nd" "flat (heap s) pre" "flat (heap s) post"]
      len p as(5) by (simp add: nd'_def old wpos_def)
qed

section \<open>Moving the write cursor\<close>

lemma ba_layout_write_index [intro]:
  "ba_layout s as k \<Longrightarrow> i < m_base_size s \<Longrightarrow> ba_layout (s\<lparr>m_write_index := i\<rparr>) as k"
  by (simp add: ba_layout_def)

lemma ba_layout_next_block:
  "ba_layout s as k \<Longrightarrow> Suc k < length as \<Longrightarrow>
     ba_layout (s\<lparr>m_write_index := 0, m_write_node := Some (as ! Suc k)\<rparr>) as (Suc k)"
  by (simp add: ba_layout_def)

lemma ba_layout_counters [simp]:
  "ba_layout (s\<lparr>m_capacity := c\<rparr>) as k = ba_layout s as k"
  "ba_layout (s\<lparr>m_data_size := d\<rparr>) as k = ba_layout s as k"
  by (simp_all add: ba_layout_def)

end
