(* ===== verification/ByteArray_Write.thy ===== *)
theory ByteArray_Write
  imports ByteArray_Layout
begin

text \<open>
  Growth and writing: \<open>updateCapacity\<close> ends and leaves the contents alone, the write
  loop never leaves its blocks and overwrites exactly the cells behind the write cursor,
  and \<open>write\<close> appends the bytes to the contents.
\<close>

section \<open>updateCapacity\<close>

lemma append_node_inv:
  assumes i: "ba_inv s as k"
  obtains s' where "append_node s = Inr s'" "ba_inv s' (as @ [fresh s]) k"
    "flat (heap s') as = flat (heap s) as" "m_capacity s' = m_capacity s + m_base_size s"
    "m_base_size s' = m_base_size s" "m_data_size s' = m_data_size s"
    "m_read_index s' = m_read_index s" "m_write_index s' = m_write_index s"
proof -
  let ?b = "fresh s" and ?e = "last as"
  from i have l: "ba_layout s as k" by (simp add: ba_inv_def)
  then have ne: "as \<noteq> []" by (auto simp: ba_layout_def)
  then have e: "?e \<in> set as" by simp
  then obtain nd where nd: "heap s ?e = Some nd" "length (n_ptr nd) = m_base_size s"
      "n_size nd = m_base_size s" using l by (auto simp: ba_layout_def block_ok_def)
  have fresh: "?b \<notin> set as" using l by (auto simp: ba_layout_def)
  have eb: "?e \<noteq> ?b" using e fresh by metis
  define h where "h = (heap s)(?b \<mapsto> new_Node (m_base_size s), ?e \<mapsto> nd\<lparr>n_next := Some ?b\<rparr>)"
  define s' where "s' = s\<lparr>heap := h, fresh := Suc ?b, m_end_node := Some ?b,
                       m_capacity := m_capacity s + m_base_size s\<rparr>"
  have app: "append_node s = Inr s'"
    using l nd eb by (simp add: append_node_def set_next_def s'_def h_def ba_layout_def)
  have split: "as = butlast as @ [?e]" using ne by simp
  have dis: "?e \<notin> set (butlast as)"
    using l split by (metis ba_layout_def distinct_append disjoint_iff list.set_intros(1))
  have "lseg (heap s) (m_read_node s) (butlast as @ [?e]) None"
    using l split by (simp add: ba_layout_def)
  from lseg_link [OF this dis nd(1)]
  have "lseg ((heap s)(?e \<mapsto> nd\<lparr>n_next := Some ?b\<rparr>)) (m_read_node s) as (Some ?b)"
    using split by simp
  then have "lseg h (m_read_node s) as (Some ?b)"
    unfolding h_def fun_upd_twist [OF eb [symmetric]] using fresh by simp
  then have seg: "lseg h (m_read_node s) (as @ [?b]) None"
    using eb by (auto simp: lseg_append h_def new_Node_def)
  have blocks: "\<forall>a \<in> set (as @ [?b]). a < Suc ?b \<and> block_ok h (m_base_size s) a"
    using l nd eb by (auto simp: ba_layout_def h_def new_Node_def block_ok_def)
  have dom: "dom h = set (as @ [?b])"
    using l e by (auto simp: ba_layout_def h_def)
  have lay: "ba_layout s' (as @ [?b]) k"
    using l seg blocks dom fresh by (simp add: ba_layout_def s'_def nth_append)
  have fl: "flat h as = flat (heap s) as"
    unfolding flat_def using fresh nd(1)
    by (intro arg_cong [of _ _ concat] map_cong) (auto simp: h_def block_def)
  have "ba_inv s' (as @ [?b]) k"
    using i lay by (simp add: ba_inv_def s'_def wpos_def)
  with app fl show ?thesis by (intro that [of s']) (simp_all add: s'_def)
qed

text \<open>The blocks that exist are kept, and the free space exceeds the request afterwards.\<close>

lemma updateCapacity_inv:
  assumes "ba_inv s as k"
  shows "\<exists>s' new. updateCapacity n s = Some (Inr s') \<and> ba_inv s' (as @ new) k \<and>
    flat (heap s') as = flat (heap s) as \<and> n < m_capacity s' \<and> m_base_size s' = m_base_size s \<and>
    m_data_size s' = m_data_size s \<and> m_read_index s' = m_read_index s \<and>
    m_write_index s' = m_write_index s"
  using assms
proof (induction "Suc n - m_capacity s" arbitrary: s as rule: less_induct)
  case less
  show ?case
  proof (cases "m_capacity s \<le> n")
    case False
    then show ?thesis
      using less.prems by (intro exI [of _ s] exI [of _ "[]"]) (simp add: updateCapacity.simps)
  next
    case True
    obtain s1 where s1: "append_node s = Inr s1" "ba_inv s1 (as @ [fresh s]) k"
        "flat (heap s1) as = flat (heap s) as" "m_capacity s1 = m_capacity s + m_base_size s"
        "m_base_size s1 = m_base_size s" "m_data_size s1 = m_data_size s"
        "m_read_index s1 = m_read_index s" "m_write_index s1 = m_write_index s"
      using append_node_inv [OF less.prems] .
    have "0 < m_base_size s" using less.prems by (simp add: ba_inv_def ba_layout_def)
    then have "Suc n - m_capacity s1 < Suc n - m_capacity s" using True s1(4) by simp
    from less.hyps [OF this s1(2)] obtain s2 new where
      s2: "updateCapacity n s1 = Some (Inr s2)" "ba_inv s2 ((as @ [fresh s]) @ new) k"
        "flat (heap s2) (as @ [fresh s]) = flat (heap s1) (as @ [fresh s])" "n < m_capacity s2"
        "m_base_size s2 = m_base_size s1" "m_data_size s2 = m_data_size s1"
        "m_read_index s2 = m_read_index s1" "m_write_index s2 = m_write_index s1"
      by blast
    have oks: "\<forall>a \<in> set as. block_ok (heap s2) (m_base_size s) a"
        "\<forall>a \<in> set as. block_ok (heap s1) (m_base_size s) a"
      using s2(2,5) s1(2,5) by (auto simp: ba_inv_def ba_layout_def)
    have "length (flat (heap s2) as) = length (flat (heap s1) as)"
      using oks by (simp add: length_flat)
    then have "flat (heap s2) as = flat (heap s1) as" using s2(3) by simp
    then show ?thesis
      using True s1 s2
      by (intro exI [of _ s2] exI [of _ "[fresh s] @ new"]) (simp add: updateCapacity.simps)
  qed
qed

section \<open>The write loop\<close>

text \<open>The cells of a flat memory after writing \<open>n\<close> bytes of \<open>buf\<close> from offset \<open>w\<close> on.\<close>

definition put_cells :: "byte list option \<Rightarrow> nat \<Rightarrow> nat \<Rightarrow> nat \<Rightarrow> cell list \<Rightarrow> cell list" where
  "put_cells buf w n pos xs =
     (case buf of None \<Rightarrow> xs | Some bs \<Rightarrow> splice xs pos (map Some (slice bs w n)))"

text \<open>The fields that writing leaves alone.\<close>

definition same_frame :: "bytearray \<Rightarrow> bytearray \<Rightarrow> bool" where
  "same_frame s s' \<longleftrightarrow> m_base_size s' = m_base_size s \<and> m_capacity s' = m_capacity s \<and>
     m_data_size s' = m_data_size s \<and> m_read_index s' = m_read_index s \<and>
     m_read_node s' = m_read_node s \<and> m_end_node s' = m_end_node s"

lemma put_cells_put_cells:
  assumes "pos + (a + b) \<le> length xs" "\<And>bs. buf = Some bs \<Longrightarrow> w + (a + b) \<le> length bs"
  shows "put_cells buf (w + a) b (pos + a) (put_cells buf w a pos xs) = put_cells buf w (a + b) pos xs"
proof (cases buf)
  case (Some bs)
  then have w: "w + (a + b) \<le> length bs" using assms(2) by simp
  have "splice (splice xs pos (map Some (slice bs w a))) (pos + length (map Some (slice bs w a)))
          (map Some (slice bs (w + a) b)) =
        splice xs pos (map Some (slice bs w a) @ map Some (slice bs (w + a) b))"
    using assms(1) w by (intro splice_splice) simp
  then show ?thesis using w by (simp add: put_cells_def Some slice_split)
qed (simp add: put_cells_def)

lemma put_cells_0 [simp]: "pos \<le> length xs \<Longrightarrow> put_cells buf w 0 pos xs = xs"
  by (simp add: put_cells_def split: option.split)

text \<open>One \<open>memcpy\<close> into the write block.\<close>

lemma copy_in_step:
  assumes l: "ba_layout s as k" and wn: "m_write_node s = Some a" and nd: "heap s a = Some nd"
    and n: "m_write_index s + n \<le> m_base_size s" and buf: "\<And>bs. buf = Some bs \<Longrightarrow> w + n \<le> length bs"
  obtains nd' where "copy_in buf w nd (m_write_index s) n = Inr nd'" "n_next nd' = n_next nd"
    "ba_layout (s\<lparr>heap := (heap s)(a \<mapsto> nd')\<rparr>) as k"
    "flat ((heap s)(a \<mapsto> nd')) as = put_cells buf w n (wpos s k) (flat (heap s) as)"
proof (cases buf)
  case None
  have "(heap s)(a \<mapsto> nd) = heap s" using nd by auto
  then show ?thesis
    using that [of nd] l None by (simp add: copy_in_def put_cells_def)
next
  case (Some bs)
  then have w: "w + n \<le> length bs" using buf by simp
  have len: "length (n_ptr nd) = m_base_size s"
    using ba_layout_write_block [OF l] wn nd by (metis option.inject)
  let ?v = "map Some (slice bs w n)"
  have v: "m_write_index s + length ?v \<le> m_base_size s" using n w by simp
  show ?thesis
    using that [of "nd\<lparr>n_ptr := splice (n_ptr nd) (m_write_index s) ?v\<rparr>"]
      ba_layout_splice [OF l wn nd v] w v len
    by (simp add: copy_in_def put_cells_def Some)
qed

lemma write_loop_correct:
  assumes "ba_layout s as k" "wpos s k + sz < length as * m_base_size s"
    "\<And>bs. buf = Some bs \<Longrightarrow> w + sz \<le> length bs"
  shows "\<exists>s' k'. write_loop buf s w sz = Some (Inr (s', w + sz)) \<and> ba_layout s' as k' \<and>
    wpos s' k' = wpos s k + sz \<and> same_frame s s' \<and>
    flat (heap s') as = put_cells buf w sz (wpos s k) (flat (heap s) as)"
  using assms
proof (induction sz arbitrary: s k w rule: less_induct)
  case (less sz)
  have len: "length (flat (heap s) as) = length as * m_base_size s"
    using less.prems(1) by (rule ba_layout_length_flat)
  show ?case
  proof (cases "sz = 0")
    case True
    then show ?thesis
      using less.prems(1,2) len
      by (intro exI [of _ s] exI [of _ k]) (simp add: write_loop.simps same_frame_def)
  next
    case pos: False
    obtain pre a post nd where as: "as = pre @ a # post" "length pre = k"
        and a: "m_write_node s = Some a" "heap s a = Some nd"
        and nxt: "n_next nd = (case post of [] \<Rightarrow> None | b # _ \<Rightarrow> Some b)"
      using ba_layout_write_block [OF less.prems(1)] by metis
    have idx: "m_write_index s < m_base_size s" using less.prems(1) by (simp add: ba_layout_def)
    let ?room = "m_base_size s - m_write_index s"
    show ?thesis
    proof (cases "sz < ?room")
      case True
      then have n: "m_write_index s + sz \<le> m_base_size s" by simp
      obtain nd' where c: "copy_in buf w nd (m_write_index s) sz = Inr nd'"
          "ba_layout (s\<lparr>heap := (heap s)(a \<mapsto> nd')\<rparr>) as k"
          "flat ((heap s)(a \<mapsto> nd')) as = put_cells buf w sz (wpos s k) (flat (heap s) as)"
        using copy_in_step [OF less.prems(1) a n less.prems(3)] by metis
      let ?s = "s\<lparr>heap := (heap s)(a \<mapsto> nd'), m_write_index := m_write_index s + sz\<rparr>"
      have "write_loop buf s w sz = write_loop buf ?s (w + sz) 0"
        using pos a True idx c(1) by (subst write_loop.simps) (simp add: Let_def)
      also have "\<dots> = Some (Inr (?s, w + sz))" by (simp add: write_loop.simps)
      finally have run: "write_loop buf s w sz = Some (Inr (?s, w + sz))" .
      have "ba_layout ?s as k"
        using ba_layout_write_index [OF c(2), of "m_write_index s + sz"] True by simp
      with run c(3) show ?thesis
        by (intro exI [of _ ?s] exI [of _ k]) (simp add: wpos_def same_frame_def del: fun_upd_apply)
    next
      case False
      then have n: "m_write_index s + ?room \<le> m_base_size s" using idx by simp
      have wb: "\<And>bs. buf = Some bs \<Longrightarrow> w + ?room \<le> length bs"
        using less.prems(3) False by fastforce
      obtain nd' where c: "copy_in buf w nd (m_write_index s) ?room = Inr nd'" "n_next nd' = n_next nd"
          "ba_layout (s\<lparr>heap := (heap s)(a \<mapsto> nd')\<rparr>) as k"
          "flat ((heap s)(a \<mapsto> nd')) as = put_cells buf w ?room (wpos s k) (flat (heap s) as)"
        using copy_in_step [OF less.prems(1) a n wb] by metis
      have "Suc k * m_base_size s \<le> wpos s k + sz" using False idx by (simp add: wpos_def)
      then have "Suc k * m_base_size s < length as * m_base_size s" using less.prems(2) by linarith
      then have k: "Suc k < length as" by (metis mult_less_cancel2)
      then obtain b post' where b: "post = b # post'" using as by (cases post) auto
      have bk: "as ! Suc k = b" using as b by (simp add: nth_append)
      let ?s = "s\<lparr>heap := (heap s)(a \<mapsto> nd'), m_write_index := 0, m_write_node := Some b\<rparr>"
      have l: "ba_layout ?s as (Suc k)" using ba_layout_next_block [OF c(3) k] bk by simp
      have w': "wpos ?s (Suc k) = wpos s k + ?room" using idx by (simp add: wpos_def)
      have less': "sz - ?room < sz" using idx pos by simp
      have bound: "wpos ?s (Suc k) + (sz - ?room) < length as * m_base_size ?s"
        using less.prems(2) w' False by simp
      have bufs: "\<And>bs. buf = Some bs \<Longrightarrow> w + ?room + (sz - ?room) \<le> length bs"
        using less.prems(3) False by fastforce
      obtain s' k' where IH: "write_loop buf ?s (w + ?room) (sz - ?room) = Some (Inr (s', w + sz))"
          "ba_layout s' as k'" "wpos s' k' = wpos s k + sz" "same_frame ?s s'"
          "flat (heap s') as = put_cells buf (w + ?room) (sz - ?room) (wpos s k + ?room) (flat (heap ?s) as)"
        using less.IH [OF less' l bound bufs] False w' by (auto simp del: fun_upd_apply)
      have "write_loop buf s w sz = write_loop buf ?s (w + ?room) (sz - ?room)"
        using pos a False idx c(1,2) nxt b by (subst write_loop.simps) (simp add: Let_def)
      moreover have "flat (heap s') as = put_cells buf w sz (wpos s k) (flat (heap s) as)"
        using IH(5) c(4) put_cells_put_cells [of "wpos s k" ?room "sz - ?room" "flat (heap s) as" buf w]
          less.prems(2,3) len False by (simp del: fun_upd_apply)
      ultimately show ?thesis
        using IH by (intro exI [of _ s'] exI [of _ k']) (simp add: same_frame_def)
    qed
  qed
qed

section \<open>write\<close>

text \<open>
  The state after a successful write, for a buffer \<open>Some bs\<close> and for the null buffer of
  \<open>updateNullWrite\<close> at once: the contents grow by \<open>n\<close> cells, and these are the
  bytes of the buffer when there is one.
\<close>

lemma ba_write_correct:
  assumes i: "ba_inv s as k" and n: "n < 2 ^ 31" and buf: "\<And>bs. buf = Some bs \<Longrightarrow> n \<le> length bs"
  shows "\<exists>s' as' k' added. ba_write s buf (int n) = Some (Inr (s', n)) \<and> ba_inv s' as' k' \<and>
    m_base_size s' = m_base_size s \<and> ba_contents s' as' = ba_contents s as @ added \<and>
    length added = n \<and> (\<forall>bs. buf = Some bs \<longrightarrow> added = map Some (take n bs))"
proof -
  obtain s1 new where s1: "updateCapacity n s = Some (Inr s1)" "ba_inv s1 (as @ new) k"
      "flat (heap s1) as = flat (heap s) as" "n < m_capacity s1" "m_base_size s1 = m_base_size s"
      "m_data_size s1 = m_data_size s" "m_read_index s1 = m_read_index s"
      "m_write_index s1 = m_write_index s"
    using updateCapacity_inv [OF i] by metis
  let ?as = "as @ new"
  have l1: "ba_layout s1 ?as k" and cap: "m_capacity s1 + wpos s1 k = length ?as * m_base_size s1"
    and dat: "m_read_index s1 + m_data_size s1 = wpos s1 k"
    using s1(2) by (auto simp: ba_inv_def)
  have "wpos s1 k + n < length ?as * m_base_size s1" using cap s1(4) by linarith
  from write_loop_correct [OF l1 this, of buf 0] buf
  obtain s2 k2 where s2: "write_loop buf s1 0 n = Some (Inr (s2, n))" "ba_layout s2 ?as k2"
      "wpos s2 k2 = wpos s1 k + n" "same_frame s1 s2"
      "flat (heap s2) ?as = put_cells buf 0 n (wpos s1 k) (flat (heap s1) ?as)"
    by auto
  let ?s = "s2\<lparr>m_data_size := m_data_size s2 + n, m_capacity := m_capacity s2 - n\<rparr>"
  have run: "ba_write s buf (int n) = Some (Inr (?s, n))"
    using s1(1,4) s2(1,4) n by (simp add: ba_write_def same_frame_def)
  have inv: "ba_inv ?s ?as k2"
    using s2(2,3,4) cap dat s1(4) by (simp add: ba_inv_def same_frame_def wpos_def)
  have len: "length (flat (heap s1) ?as) = length ?as * m_base_size s1"
    by (rule ba_layout_length_flat [OF l1])
  let ?r = "m_read_index s" and ?d = "m_data_size s"
  have w: "?r + ?d = wpos s1 k" using dat s1(6,7) by simp
  have w_le: "wpos s1 k + n \<le> length (flat (heap s1) ?as)" using cap s1(4) len by linarith
  have lbuf: "length (put_cells buf 0 n (wpos s1 k) xs) = length xs" if "wpos s1 k + n \<le> length xs" for xs
    using that buf by (auto simp: put_cells_def split: option.split)
  have "ba_contents ?s ?as = slice (flat (heap s2) ?as) ?r (?d + n)"
    using s2(4) s1(6,7) by (simp add: ba_contents_def same_frame_def)
  also have "\<dots> = slice (flat (heap s2) ?as) ?r ?d @ slice (flat (heap s2) ?as) (?r + ?d) n"
    using s2(5) lbuf [OF w_le] w_le w by (intro slice_split) simp
  also have "slice (flat (heap s2) ?as) ?r ?d = slice (flat (heap s1) ?as) ?r ?d"
    using s2(5) w w_le
    by (auto simp: put_cells_def split: option.split intro!: slice_splice_below)
  also have "slice (flat (heap s1) ?as) ?r ?d = ba_contents s as"
  proof -
    have "?r + ?d \<le> length (flat (heap s) as)"
      using i ba_layout_length_flat [of s as k] ba_layout_wpos [of s as k] by (simp add: ba_inv_def)
    then show ?thesis by (simp add: ba_contents_def slice_def s1(3))
  qed
  finally have cont: "ba_contents ?s ?as = ba_contents s as @ slice (flat (heap s2) ?as) (?r + ?d) n" .
  have "slice (flat (heap s2) ?as) (?r + ?d) n = map Some (take n bs)" if "buf = Some bs" for bs
    using slice_splice_same [of "wpos s1 k" "map Some (take n bs)" "flat (heap s1) ?as"]
      s2(5) that buf w w_le by (simp add: put_cells_def slice_def)
  moreover have "length (slice (flat (heap s2) ?as) (?r + ?d) n) = n"
    using s2(5) lbuf [OF w_le] w_le w by simp
  ultimately show ?thesis
    using run inv cont s2(4) s1(5) by (intro exI [of _ ?s] exI [of _ ?as] exI [of _ k2])
      (auto simp: same_frame_def)
qed

end
