(* ===== verification/ByteArray_Read.thy ===== *)
theory ByteArray_Read
  imports ByteArray_Write
begin

text \<open>
  Reading: a block that has been read completely moves to the end of the list, so the list of
  blocks rotates while the unread contents stay what they were; \<open>read\<close> hands out the
  oldest bytes in order and removes them.
\<close>

section \<open>Recycling a block\<close>

lemma block_cong:
  "map_option n_ptr (h x) = map_option n_ptr (h' x) \<Longrightarrow> block h x = block h' x"
  by (cases "h x"; cases "h' x") (auto simp: block_def)

lemma flat_cong:
  "(\<And>x. map_option n_ptr (h x) = map_option n_ptr (h' x)) \<Longrightarrow> flat h as = flat h' as"
  unfolding flat_def by (intro arg_cong [of _ _ concat] map_cong refl block_cong)

lemma read_block:
  assumes "ba_layout s as k"
  obtains a rest nd where "as = a # rest" "m_read_node s = Some a" "heap s a = Some nd"
    "length (n_ptr nd) = m_base_size s" "n_size nd = m_base_size s"
    "lseg (heap s) (n_next nd) rest None" "a \<notin> set rest"
proof -
  from assms obtain a rest where as: "as = a # rest"
    by (cases as) (auto simp: ba_layout_def)
  with assms obtain nd where nd: "heap s a = Some nd" "length (n_ptr nd) = m_base_size s"
      "n_size nd = m_base_size s"
    by (auto simp: ba_layout_def block_ok_def)
  from assms as nd have "m_read_node s = Some a" "lseg (heap s) (n_next nd) rest None"
      "a \<notin> set rest" by (auto simp: ba_layout_def)
  with as nd that show ?thesis by blast
qed

lemma deallocNode_correct:
  assumes l: "ba_layout s (a # rest) k" and k: "0 < k" and nd: "heap s a = Some nd"
  obtains s' where "deallocNode s a = Inr s'"
    "ba_layout (s'\<lparr>m_read_node := n_next nd, m_read_index := 0\<rparr>) (rest @ [a]) (k - 1)"
    "m_capacity s' = m_capacity s + m_base_size s" "m_base_size s' = m_base_size s"
    "m_data_size s' = m_data_size s" "m_write_index s' = m_write_index s"
    "m_write_node s' = m_write_node s"
    "m_read_index s' = m_read_index s" "m_read_node s' = m_read_node s"
    "\<And>x. map_option n_ptr (heap s' x) = map_option n_ptr (heap s x)"
proof -
  have rest: "rest \<noteq> []" using l k by (auto simp: ba_layout_def)
  let ?e = "last rest"
  have e: "?e \<in> set rest" "a \<notin> set rest" using rest l by (auto simp: ba_layout_def)
  then have ea: "?e \<noteq> a" by metis
  have size: "n_size nd = m_base_size s" "length (n_ptr nd) = m_base_size s"
    using l nd by (auto simp: ba_layout_def block_ok_def)
  obtain en where en: "heap s ?e = Some en" "length (n_ptr en) = m_base_size s" "n_size en = m_base_size s"
    using l e(1) by (auto simp: ba_layout_def block_ok_def)
  have end_node: "m_end_node s = Some ?e" using l rest by (simp add: ba_layout_def)
  define h where "h = (heap s)(a \<mapsto> nd\<lparr>n_next := None\<rparr>, ?e \<mapsto> en\<lparr>n_next := Some a\<rparr>)"
  define s' where "s' = s\<lparr>heap := h, m_end_node := Some a, m_capacity := m_capacity s + m_base_size s\<rparr>"
  have run: "deallocNode s a = Inr s'"
    using nd en(1) ea end_node size by (simp add: deallocNode_def set_next_def s'_def h_def)
  have split: "rest = butlast rest @ [?e]" using rest by simp
  have dis: "?e \<notin> set (butlast rest)"
    using l split by (metis ba_layout_def distinct.simps(2) distinct_append disjoint_iff list.set_intros(1))
  have "lseg (heap s) (n_next nd) (butlast rest @ [?e]) None"
    using l nd split by (auto simp: ba_layout_def)
  then have "lseg ((heap s)(a \<mapsto> nd\<lparr>n_next := None\<rparr>)) (n_next nd) (butlast rest @ [?e]) None"
    using e(2) split by (metis lseg_upd_notin)
  moreover have "((heap s)(a \<mapsto> nd\<lparr>n_next := None\<rparr>)) ?e = Some en" using en ea by simp
  ultimately have "lseg h (n_next nd) (butlast rest @ [?e]) (Some a)"
    unfolding h_def using dis by (intro lseg_link) auto
  then have seg: "lseg h (n_next nd) (rest @ [a]) None"
    using split ea by (auto simp: lseg_append h_def)
  have blocks: "\<forall>x \<in> set (rest @ [a]). x < fresh s \<and> block_ok h (m_base_size s) x"
    using l nd en size by (auto simp: ba_layout_def h_def block_ok_def)
  have dom: "dom h = set (rest @ [a])"
    using l e(1) by (auto simp: ba_layout_def h_def)
  have wn: "m_write_node s = Some ((rest @ [a]) ! (k - 1))"
    using l k by (auto simp: ba_layout_def nth_append nth_Cons')
  have lay: "ba_layout (s'\<lparr>m_read_node := n_next nd, m_read_index := 0\<rparr>) (rest @ [a]) (k - 1)"
    using l k seg blocks dom wn by (auto simp: ba_layout_def s'_def)
  have "map_option n_ptr (h x) = map_option n_ptr (heap s x)" for x
    using nd en(1) by (auto simp: h_def)
  with run lay that [of s'] show ?thesis by (simp add: s'_def)
qed

section \<open>Consuming cells\<close>

text \<open>
  The states that reading passes through: \<open>ba_geo s as k d\<close> is \<^const>\<open>ba_inv\<close> with the
  number \<open>d\<close> of unread cells in place of \<open>m_data_size\<close>, which the code only
  adjusts after its loop.
\<close>

definition ba_geo :: "bytearray \<Rightarrow> nat list \<Rightarrow> nat \<Rightarrow> nat \<Rightarrow> bool" where
  "ba_geo s as k d \<longleftrightarrow> ba_layout s as k \<and> m_read_index s + d = wpos s k \<and>
     m_capacity s + wpos s k = length as * m_base_size s"

definition unread :: "bytearray \<Rightarrow> nat list \<Rightarrow> nat \<Rightarrow> cell list" where
  "unread s as d = slice (flat (heap s) as) (m_read_index s) d"

lemma ba_inv_geo: "ba_inv s as k \<longleftrightarrow> ba_geo s as k (m_data_size s)"
  by (auto simp: ba_inv_def ba_geo_def)

lemma ba_geo_data_size [simp]: "ba_geo (s\<lparr>m_data_size := x\<rparr>) as k d = ba_geo s as k d"
  by (simp add: ba_geo_def wpos_def)

lemma unread_data_size [simp]: "unread (s\<lparr>m_data_size := x\<rparr>) as d = unread s as d"
  by (simp add: unread_def)

lemma ba_contents_unread: "ba_contents s as = unread s as (m_data_size s)"
  by (simp add: ba_contents_def unread_def)

lemma ba_geo_bound: "ba_geo s as k d \<Longrightarrow> m_read_index s + d < length (flat (heap s) as)"
  using ba_layout_wpos [of s as k] ba_layout_length_flat [of s as k] by (simp add: ba_geo_def)

lemma length_unread [simp]: "ba_geo s as k d \<Longrightarrow> length (unread s as d) = d"
  using ba_geo_bound [of s as k d] by (simp add: unread_def)

lemma unread_split:
  assumes "ba_geo s as k d" "n \<le> d"
  shows "unread s as d = slice (flat (heap s) as) (m_read_index s) n @
    slice (flat (heap s) as) (m_read_index s + n) (d - n)"
  using slice_split [of "m_read_index s" n "d - n" "flat (heap s) as"] ba_geo_bound [OF assms(1)] assms(2)
  by (simp add: unread_def)

text \<open>Consuming part of the first block: the read index moves.\<close>

lemma consume_within:
  assumes g: "ba_geo s as k d" and n: "n \<le> d" "m_read_index s + n < m_base_size s"
  defines "s' \<equiv> s\<lparr>m_read_index := m_read_index s + n\<rparr>"
  shows "ba_geo s' as k (d - n)" "unread s' as (d - n) = drop n (unread s as d)"
    "unread s as n = take n (unread s as d)"
proof -
  show "ba_geo s' as k (d - n)"
    using g n by (auto simp: ba_geo_def ba_layout_def s'_def wpos_def)
  have len: "length (slice (flat (heap s) as) (m_read_index s) n) = n"
    using ba_geo_bound [OF g] n by simp
  show "unread s' as (d - n) = drop n (unread s as d)"
  proof -
    have "unread s' as (d - n) = slice (flat (heap s) as) (m_read_index s + n) (d - n)"
      by (simp add: unread_def s'_def)
    then show ?thesis using unread_split [OF g n(1)] len by simp
  qed
  show "unread s as n = take n (unread s as d)"
    using unread_split [OF g n(1)] len by (simp add: unread_def [of s as n])
qed

text \<open>Consuming the rest of the first block: it is recycled.\<close>

lemma consume_block:
  assumes g: "ba_geo s (a # rest) k d" and nd: "heap s a = Some nd"
    and n: "m_base_size s - m_read_index s \<le> d"
  obtains s' where "deallocNode s a = Inr s'"
    "ba_geo (s'\<lparr>m_read_node := n_next nd, m_read_index := 0\<rparr>) (rest @ [a]) (k - 1)
       (d - (m_base_size s - m_read_index s))"
    "unread (s'\<lparr>m_read_node := n_next nd, m_read_index := 0\<rparr>) (rest @ [a])
       (d - (m_base_size s - m_read_index s)) =
     drop (m_base_size s - m_read_index s) (unread s (a # rest) d)"
    "m_base_size s' = m_base_size s" "m_data_size s' = m_data_size s"
    "m_read_index s' = m_read_index s" "m_read_node s' = m_read_node s"
    "\<And>x. map_option n_ptr (heap s' x) = map_option n_ptr (heap s x)"
proof -
  let ?n = "m_base_size s - m_read_index s"
  from g have l: "ba_layout s (a # rest) k" and pos: "m_read_index s + d = wpos s k"
    and cap: "m_capacity s + wpos s k = Suc (length rest) * m_base_size s"
    by (auto simp: ba_geo_def)
  have idx: "m_read_index s < m_base_size s" "m_write_index s < m_base_size s"
    using l by (auto simp: ba_layout_def)
  have k: "0 < k"
  proof (rule ccontr)
    assume "\<not> 0 < k"
    then have "m_read_index s + d < m_base_size s" using pos idx by (simp add: wpos_def)
    with n idx show False by simp
  qed
  then obtain j where j: "k = Suc j" by (cases k) auto
  obtain s' where s': "deallocNode s a = Inr s'"
      "ba_layout (s'\<lparr>m_read_node := n_next nd, m_read_index := 0\<rparr>) (rest @ [a]) (k - 1)"
      "m_capacity s' = m_capacity s + m_base_size s" "m_base_size s' = m_base_size s"
      "m_data_size s' = m_data_size s" "m_write_index s' = m_write_index s"
      "m_read_index s' = m_read_index s" "m_read_node s' = m_read_node s"
      "\<And>x. map_option n_ptr (heap s' x) = map_option n_ptr (heap s x)"
    using deallocNode_correct [OF l k nd] by metis
  let ?s = "s'\<lparr>m_read_node := n_next nd, m_read_index := 0\<rparr>"
  have geo: "ba_geo ?s (rest @ [a]) (k - 1) (d - ?n)"
    using s' pos cap idx n j by (simp add: ba_geo_def wpos_def)
  have fl: "flat (heap s') as = flat (heap s) as" for as using s'(9) by (rule flat_cong)
  have blk: "length (block (heap s) a) = m_base_size s"
    using l by (auto simp: ba_layout_def dest: block_okD)
  have bound: "m_read_index s + d < length (flat (heap s) (a # rest))"
    by (rule ba_geo_bound [OF g])
  have "drop ?n (unread s (a # rest) d) = slice (flat (heap s) (a # rest)) (m_read_index s + ?n) (d - ?n)"
    using unread_split [OF g n] bound n by simp
  also have "\<dots> = slice (flat (heap s) rest) 0 (d - ?n)"
    using idx blk by (simp add: slice_def)
  also have "\<dots> = slice (flat (heap s') (rest @ [a])) 0 (d - ?n)"
    using bound n idx blk by (simp add: slice_def fl)
  finally have "unread ?s (rest @ [a]) (d - ?n) = drop ?n (unread s (a # rest) d)"
    by (simp add: unread_def)
  with s' geo that [of s'] show ?thesis by metis
qed

section \<open>The read loop\<close>

definition put_out :: "cell list option \<Rightarrow> nat \<Rightarrow> cell list \<Rightarrow> cell list option" where
  "put_out buf r xs = map_option (\<lambda>d. splice d r xs) buf"

lemma put_out_Nil: "(\<And>d. buf = Some d \<Longrightarrow> r \<le> length d) \<Longrightarrow> put_out buf r [] = buf"
  by (cases buf) (auto simp: put_out_def)

lemma put_out_put_out:
  "(\<And>d. buf = Some d \<Longrightarrow> r + length xs + length ys \<le> length d) \<Longrightarrow>
     put_out (put_out buf r xs) (r + length xs) ys = put_out buf r (xs @ ys)"
  by (cases buf) (auto simp: put_out_def splice_splice)

text \<open>The first \<open>n\<close> unread cells lie in the first block when it has that many left.\<close>

lemma unread_first_block:
  assumes g: "ba_geo s (a # rest) k d" and nd: "heap s a = Some nd"
    and n: "n \<le> d" "m_read_index s + n \<le> m_base_size s"
  shows "slice (n_ptr nd) (m_read_index s) n = take n (unread s (a # rest) d)"
    "length (n_ptr nd) = m_base_size s"
proof -
  show len: "length (n_ptr nd) = m_base_size s"
    using g nd by (auto simp: ba_geo_def ba_layout_def block_ok_def)
  have "take n (unread s (a # rest) d) = slice (flat (heap s) (a # rest)) (m_read_index s) n"
    using unread_split [OF g n(1)] ba_geo_bound [OF g] n(1) by simp
  then show "slice (n_ptr nd) (m_read_index s) n = take n (unread s (a # rest) d)"
    using n(2) len nd by (simp add: slice_def block_def)
qed

lemma copy_out_step:
  assumes g: "ba_geo s (a # rest) k d" and nd: "heap s a = Some nd"
    and n: "n \<le> d" "m_read_index s + n \<le> m_base_size s"
    and buf: "\<And>dst. buf = Some dst \<Longrightarrow> r + n \<le> length dst"
  shows "copy_out buf r nd (m_read_index s) n = Inr (put_out buf r (take n (unread s (a # rest) d)))"
  using unread_first_block [OF g nd n] n buf
  by (cases buf) (simp_all add: copy_out_def put_out_def length_unread [OF g] flip: unread_first_block(1))

lemma read_loop_correct:
  assumes "ba_geo s as k d" "sz \<le> d" "\<And>dst. buf = Some dst \<Longrightarrow> r + sz \<le> length dst"
  shows "\<exists>s' as' k'. read_loop buf s r sz =
      Some (Inr (s', put_out buf r (take sz (unread s as d)), r + sz)) \<and>
    ba_geo s' as' k' (d - sz) \<and> unread s' as' (d - sz) = drop sz (unread s as d) \<and>
    m_base_size s' = m_base_size s \<and> m_data_size s' = m_data_size s"
  using assms
proof (induction sz arbitrary: s as k d buf r rule: less_induct)
  case (less sz)
  note g = less.prems(1)
  show ?case
  proof (cases "sz = 0")
    case True
    then show ?thesis
      using g less.prems(3) by (intro exI [of _ s] exI [of _ as] exI [of _ k])
        (simp add: read_loop.simps put_out_Nil)
  next
    case pos: False
    from g have l: "ba_layout s as k" by (simp add: ba_geo_def)
    obtain a rest nd where as: "as = a # rest" and a: "m_read_node s = Some a" "heap s a = Some nd"
      using read_block [OF l] by metis
    have idx: "m_read_index s < m_base_size s" using l by (simp add: ba_layout_def)
    note g' = g [unfolded as]
    let ?room = "m_base_size s - m_read_index s" and ?u = "unread s as d"
    show ?thesis
    proof (cases "sz < ?room")
      case True
      let ?s = "s\<lparr>m_read_index := m_read_index s + sz\<rparr>"
      have c: "copy_out buf r nd (m_read_index s) sz = Inr (put_out buf r (take sz ?u))"
        using copy_out_step [OF g' a(2) less.prems(2) _ less.prems(3)] True as by simp
      have "read_loop buf s r sz = read_loop (put_out buf r (take sz ?u)) ?s (r + sz) 0"
        using pos a True idx c by (subst read_loop.simps) (simp add: Let_def)
      then have "read_loop buf s r sz = Some (Inr (?s, put_out buf r (take sz ?u), r + sz))"
        by (simp add: read_loop.simps)
      moreover have "m_read_index s + sz < m_base_size s" using True by simp
      note consume_within [OF g less.prems(2) this]
      ultimately show ?thesis
        by (intro exI [of _ ?s] exI [of _ as] exI [of _ k]) simp
    next
      case False
      then have room: "?room \<le> d" "?room \<le> sz" using less.prems(2) by simp_all
      have buf_room: "\<And>dst. buf = Some dst \<Longrightarrow> r + ?room \<le> length dst"
        using less.prems(3) room by fastforce
      have c: "copy_out buf r nd (m_read_index s) ?room = Inr (put_out buf r (take ?room ?u))"
        using copy_out_step [OF g' a(2) room(1) _ buf_room] idx as by simp
      obtain s1 where s1: "deallocNode s a = Inr s1"
          "ba_geo (s1\<lparr>m_read_node := n_next nd, m_read_index := 0\<rparr>) (rest @ [a]) (k - 1) (d - ?room)"
          "unread (s1\<lparr>m_read_node := n_next nd, m_read_index := 0\<rparr>) (rest @ [a]) (d - ?room) =
             drop ?room ?u"
          "m_base_size s1 = m_base_size s" "m_data_size s1 = m_data_size s"
        using consume_block [OF g' a(2) room(1)] as by metis
      let ?s = "s1\<lparr>m_read_node := n_next nd, m_read_index := 0\<rparr>"
      have dealloc: "deallocNode (s\<lparr>m_read_index := 0, m_read_node := n_next nd\<rparr>) a = Inr ?s"
        using s1(1) by (auto simp: deallocNode_def split: sum.splits option.splits)
      have "read_loop buf s r sz = read_loop (put_out buf r (take ?room ?u)) ?s (r + ?room) (sz - ?room)"
        using pos a False idx c dealloc by (subst read_loop.simps) (simp add: Let_def)
      moreover have "sz - ?room < sz" using idx pos by simp
      have bufs: "\<And>dst. put_out buf r (take ?room ?u) = Some dst \<Longrightarrow> r + ?room + (sz - ?room) \<le> length dst"
        using less.prems(3) room(2) length_unread [OF g] room(1) by (cases buf) (auto simp: put_out_def)
      have sz': "sz - ?room \<le> d - ?room" using less.prems(2) by (rule diff_le_mono)
      from less.IH [where buf = "put_out buf r (take ?room ?u)" and r = "r + ?room",
          OF \<open>sz - ?room < sz\<close> s1(2) sz' bufs]
      obtain s2 as2 k2 where IH: "read_loop (put_out buf r (take ?room ?u)) ?s (r + ?room) (sz - ?room) =
          Some (Inr (s2, put_out (put_out buf r (take ?room ?u)) (r + ?room)
            (take (sz - ?room) (unread ?s (rest @ [a]) (d - ?room))), r + ?room + (sz - ?room)))"
          "ba_geo s2 as2 k2 (d - ?room - (sz - ?room))"
          "unread s2 as2 (d - ?room - (sz - ?room)) = drop (sz - ?room) (unread ?s (rest @ [a]) (d - ?room))"
          "m_base_size s2 = m_base_size s" "m_data_size s2 = m_data_size s"
        using s1(4,5) by auto
      moreover have "put_out (put_out buf r (take ?room ?u)) (r + ?room) (take (sz - ?room) (drop ?room ?u)) =
          put_out buf r (take sz ?u)"
      proof -
        have t: "take sz ?u = take ?room ?u @ take (sz - ?room) (drop ?room ?u)"
          using room(2) by (metis le_add_diff_inverse take_add)
        have "length (take ?room ?u) = ?room" using length_unread [OF g] room(1) by simp
        then show ?thesis
          unfolding t using put_out_put_out [of buf r "take ?room ?u" "take (sz - ?room) (drop ?room ?u)"]
            less.prems(2,3) room length_unread [OF g] by fastforce
      qed
      ultimately show ?thesis
        using s1(3) room less.prems(2)
        by (intro exI [of _ s2] exI [of _ as2] exI [of _ k2]) (simp add: drop_drop)
    qed
  qed
qed

section \<open>read\<close>

lemma read_clamp_nat: "n < 2 ^ 31 \<Longrightarrow> read_clamp d (int n) = int (min n d)"
  by (auto simp: read_clamp_def)

lemma ba_read_correct:
  assumes i: "ba_inv s as k" and n: "n < 2 ^ 31" and buf: "\<And>dst. buf = Some dst \<Longrightarrow> n \<le> length dst"
  defines "m \<equiv> min n (m_data_size s)"
  shows "\<exists>s' as' k'. ba_read s buf (int n) =
      Some (Inr (s', put_out buf 0 (take m (ba_contents s as)), m)) \<and> ba_inv s' as' k' \<and>
    m_base_size s' = m_base_size s \<and> ba_contents s' as' = drop m (ba_contents s as)"
proof -
  have g: "ba_geo s as k (m_data_size s)" using i by (simp add: ba_inv_geo)
  have m: "m \<le> m_data_size s" "m \<le> n" by (simp_all add: m_def)
  have "\<And>dst. buf = Some dst \<Longrightarrow> 0 + m \<le> length dst" using buf m(2) by fastforce
  from read_loop_correct [where buf = buf and r = 0, OF g m(1) this]
  obtain s1 as1 k1 where s1: "read_loop buf s 0 m = Some (Inr (s1, put_out buf 0 (take m (ba_contents s as)), m))"
      "ba_geo s1 as1 k1 (m_data_size s - m)"
      "unread s1 as1 (m_data_size s - m) = drop m (ba_contents s as)"
      "m_base_size s1 = m_base_size s" "m_data_size s1 = m_data_size s"
    by (auto simp: ba_contents_unread)
  let ?s = "s1\<lparr>m_data_size := m_data_size s - m\<rparr>"
  have "ba_read s buf (int n) = Some (Inr (?s, put_out buf 0 (take m (ba_contents s as)), m))"
    using s1(1,5) m n by (simp add: ba_read_def read_clamp_nat flip: m_def)
  moreover have "ba_inv ?s as1 k1" using s1(2) by (simp add: ba_inv_geo)
  ultimately show ?thesis
    using s1 by (intro exI [of _ ?s] exI [of _ as1] exI [of _ k1]) (simp add: ba_contents_unread)
qed

end
