(* ===== verification/ByteArray_Buffers.thy ===== *)
theory ByteArray_Buffers
  imports ByteArray_Read
begin

text \<open>
  The scatter and gather interface. \<open>getWriteBuffers\<close> followed by filling the regions it
  hands out leaves exactly the state of \<open>write\<close>; the regions of \<open>getReadBuffers\<close>
  hold the oldest unread bytes, whether or not the read cursor is moved. The destructor frees
  every block.
\<close>

section \<open>getWriteBuffers and write\<close>

lemma slice_take_drop:
  "a \<le> n \<Longrightarrow> take a (slice xs off n) = slice xs off a"
  "drop a (slice xs off n) = slice xs (off + a) (n - a)"
  by (simp_all add: slice_def drop_take add.commute min_def)

text \<open>Both loops take the same turns, because filling a block leaves its \<open>m_next\<close> alone.\<close>

definition same_links :: "(nat \<Rightarrow> node option) \<Rightarrow> (nat \<Rightarrow> node option) \<Rightarrow> bool" where
  "same_links h h' \<longleftrightarrow> (\<forall>a. map_option n_next (h a) = map_option n_next (h' a))"

lemma same_links_step:
  "same_links h h' \<Longrightarrow> h' a = Some nd \<Longrightarrow> n_next nd' = n_next nd \<Longrightarrow> same_links h (h'(a \<mapsto> nd'))"
  by (auto simp: same_links_def)

lemma copy_in_Some:
  "copy_in (Some bs) w nd idx n = Inr nd' \<Longrightarrow> nd' = nd\<lparr>n_ptr := splice (n_ptr nd) idx (map Some (slice bs w n))\<rparr>"
  by (auto simp: copy_in_def peek_def poke_def split: option.splits if_splits)

lemma iov_write_block:
  "h a = Some nd \<Longrightarrow> iov_write h \<lparr>iov_node = a, iov_off = idx, iov_len = n\<rparr> cs =
     h(a \<mapsto> nd\<lparr>n_ptr := splice (n_ptr nd) idx cs\<rparr>)"
  by (simp add: iov_write_def)

definition write_sim :: "byte list option \<Rightarrow> bytearray \<Rightarrow> nat \<Rightarrow> nat \<Rightarrow> ba_error + bytearray \<times> nat \<Rightarrow> bool" where
  "write_sim buf s w sz r \<longleftrightarrow> (\<forall>bs s' w' h acc. buf = Some bs \<longrightarrow> r = Inr (s', w') \<longrightarrow> same_links h (heap s) \<longrightarrow>
     (\<exists>vs. write_buffers_loop h (m_base_size s) (m_write_node s) (m_write_index s) sz acc =
             Some (Inr (m_write_node s', m_write_index s', acc @ vs)) \<and>
           s' = s\<lparr>heap := scatter (heap s) vs (map Some (slice bs w sz)),
                  m_write_node := m_write_node s', m_write_index := m_write_index s'\<rparr>))"

lemma write_loop_sim: "write_loop buf s w sz = Some r \<Longrightarrow> write_sim buf s w sz r"
proof (rule write_loop.raw_induct [where P = write_sim])
  fix f :: "byte list option \<Rightarrow> bytearray \<Rightarrow> nat \<Rightarrow> nat \<Rightarrow> (ba_error + bytearray \<times> nat) option"
  fix buf s w_size sz r
  assume IH: "\<And>buf s w sz r. f buf s w sz = Some r \<Longrightarrow> write_sim buf s w sz r"
  assume eq: "(if sz = 0 then Some (Inr (s, w_size)) else
      case m_write_node s of None \<Rightarrow> Some (Inl AssertFailed)
      | Some a \<Rightarrow> (case heap s a of None \<Rightarrow> Some (Inl NullDeref)
      | Some nd \<Rightarrow>
        let room = usub (m_base_size s) (m_write_index s) in
        if sz < room then
          (case copy_in buf w_size nd (m_write_index s) sz of Inl e \<Rightarrow> Some (Inl e)
           | Inr nd' \<Rightarrow> f buf
               (s\<lparr>heap := (heap s)(a \<mapsto> nd'), m_write_index := m_write_index s + sz\<rparr>)
               (w_size + sz) 0)
        else
          (case copy_in buf w_size nd (m_write_index s) room of Inl e \<Rightarrow> Some (Inl e)
           | Inr nd' \<Rightarrow>
             (case n_next nd' of None \<Rightarrow> Some (Inl AssertFailed)
              | Some b \<Rightarrow> f buf
                  (s\<lparr>heap := (heap s)(a \<mapsto> nd'), m_write_index := 0, m_write_node := Some b\<rparr>)
                  (w_size + room) (sz - room))))) = Some r"
  show "write_sim buf s w_size sz r"
    unfolding write_sim_def
  proof (intro allI impI)
    fix bs s' w' h acc
    assume b: "buf = Some bs" and r: "r = Inr (s', w')" and links: "same_links h (heap s)"
    let ?idx = "m_write_index s" and ?room = "usub (m_base_size s) (m_write_index s)"
    show "\<exists>vs. write_buffers_loop h (m_base_size s) (m_write_node s) ?idx sz acc =
             Some (Inr (m_write_node s', m_write_index s', acc @ vs)) \<and>
           s' = s\<lparr>heap := scatter (heap s) vs (map Some (slice bs w_size sz)),
                  m_write_node := m_write_node s', m_write_index := m_write_index s'\<rparr>"
    proof (cases "sz = 0")
      case True
      with eq r show ?thesis
        by (intro exI [of _ "[]"]) (simp add: write_buffers_loop.simps)
    next
      case pos: False
      from eq r pos obtain a nd where a: "m_write_node s = Some a" "heap s a = Some nd"
        by (auto split: option.splits)
      obtain hd where hd: "h a = Some hd" "n_next hd = n_next nd"
        using links a(2) by (cases "h a") (auto simp: same_links_def dest: spec [of _ a])
      show ?thesis
      proof (cases "sz < ?room")
        case True
        from eq r pos a True obtain nd' where c: "copy_in buf w_size nd ?idx sz = Inr nd'"
          and run: "f buf (s\<lparr>heap := (heap s)(a \<mapsto> nd'), m_write_index := ?idx + sz\<rparr>) (w_size + sz) 0 = Some r"
          by (auto simp: Let_def split: sum.splits)
        note nd' = copy_in_Some [OF c [unfolded b]]
        let ?v = "\<lparr>iov_node = a, iov_off = ?idx, iov_len = sz\<rparr>"
        have l: "same_links h ((heap s)(a \<mapsto> nd'))"
          using same_links_step [OF links a(2)] nd' by simp
        have sc: "(heap s)(a \<mapsto> nd') = iov_write (heap s) ?v (map Some (slice bs w_size sz))"
          using a(2) nd' by (simp add: iov_write_block)
        have t: "take sz (map Some (slice bs w_size sz)) = map Some (slice bs w_size sz)"
          "drop sz (map Some (slice bs w_size sz)) = []"
          by (simp_all add: slice_def)
        from IH [OF run, unfolded write_sim_def, rule_format, OF b r, of h "acc @ [?v]"] l
        obtain vs where vs: "write_buffers_loop h (m_base_size s) (Some a) (?idx + sz) 0 (acc @ [?v]) =
             Some (Inr (m_write_node s', m_write_index s', (acc @ [?v]) @ vs))"
           "s' = s\<lparr>heap := scatter ((heap s)(a \<mapsto> nd')) vs [],
                  m_write_node := m_write_node s', m_write_index := m_write_index s'\<rparr>"
          using a(1) by (auto simp del: fun_upd_apply)
        have "write_buffers_loop h (m_base_size s) (m_write_node s) ?idx sz acc =
            Some (Inr (m_write_node s', m_write_index s', acc @ ?v # vs))"
          using pos a hd(1) True vs(1) by (subst write_buffers_loop.simps) (simp add: Let_def)
        moreover have "scatter (heap s) (?v # vs) (map Some (slice bs w_size sz)) =
            scatter ((heap s)(a \<mapsto> nd')) vs []"
          by (simp add: sc t)
        ultimately show ?thesis using vs(2) by (intro exI [of _ "?v # vs"]) (simp only:)
      next
        case False
        from eq r pos a False obtain nd' b' where c: "copy_in buf w_size nd ?idx ?room = Inr nd'"
          and nxt: "n_next nd' = Some b'"
          and run: "f buf (s\<lparr>heap := (heap s)(a \<mapsto> nd'), m_write_index := 0, m_write_node := Some b'\<rparr>)
             (w_size + ?room) (sz - ?room) = Some r"
          by (auto simp: Let_def split: sum.splits option.splits)
        note nd' = copy_in_Some [OF c [unfolded b]]
        let ?v = "\<lparr>iov_node = a, iov_off = ?idx, iov_len = ?room\<rparr>"
        have l: "same_links h ((heap s)(a \<mapsto> nd'))"
          using same_links_step [OF links a(2)] nd' by simp
        have sc: "(heap s)(a \<mapsto> nd') = iov_write (heap s) ?v (map Some (slice bs w_size ?room))"
          using a(2) nd' by (simp add: iov_write_block)
        have t: "take ?room (map Some (slice bs w_size sz)) = map Some (slice bs w_size ?room)"
          "drop ?room (map Some (slice bs w_size sz)) = map Some (slice bs (w_size + ?room) (sz - ?room))"
          using False by (simp_all add: take_map drop_map slice_take_drop)
        from IH [OF run, unfolded write_sim_def, rule_format, OF b r, of h "acc @ [?v]"] l
        obtain vs where vs: "write_buffers_loop h (m_base_size s) (Some b') 0 (sz - ?room) (acc @ [?v]) =
             Some (Inr (m_write_node s', m_write_index s', (acc @ [?v]) @ vs))"
           "s' = s\<lparr>heap := scatter ((heap s)(a \<mapsto> nd')) vs (map Some (slice bs (w_size + ?room) (sz - ?room))),
                  m_write_node := m_write_node s', m_write_index := m_write_index s'\<rparr>"
          by (auto simp del: fun_upd_apply)
        have "n_next hd = Some b'" using hd(2) nd' nxt by simp
        then have "write_buffers_loop h (m_base_size s) (m_write_node s) ?idx sz acc =
            Some (Inr (m_write_node s', m_write_index s', acc @ ?v # vs))"
          using pos a hd(1) False vs(1) by (subst write_buffers_loop.simps) (simp add: Let_def)
        moreover have "scatter (heap s) (?v # vs) (map Some (slice bs w_size sz)) =
            scatter ((heap s)(a \<mapsto> nd')) vs (map Some (slice bs (w_size + ?room) (sz - ?room)))"
          by (simp add: sc t)
        ultimately show ?thesis using vs(2) by (intro exI [of _ "?v # vs"]) (simp only:)
      qed
    qed
  qed
qed

text \<open>
  \<open>getWriteBuffers\<close> with \<open>is_update\<close> followed by filling the regions is \<open>write\<close>:
  the same blocks, the same cursors, the same counters.
\<close>

lemma getWriteBuffers_write:
  assumes i: "ba_inv s as k" and n: "n < 2 ^ 31" and buf: "n \<le> length bs"
  shows "\<exists>s1 vs s2. getWriteBuffers s n True = Some (Inr (s1, vs, n)) \<and>
    ba_write s (Some bs) (int n) = Some (Inr (s2, n)) \<and>
    s2 = s1\<lparr>heap := scatter (heap s1) vs (map Some (take n bs))\<rparr>"
proof -
  obtain s0 new where s0: "updateCapacity n s = Some (Inr s0)" "ba_inv s0 (as @ new) k" "n < m_capacity s0"
    using updateCapacity_inv [OF i] by metis
  have l: "ba_layout s0 (as @ new) k" "wpos s0 k + n < length (as @ new) * m_base_size s0"
    using s0(2,3) by (auto simp: ba_inv_def)
  obtain s' where s': "write_loop (Some bs) s0 0 n = Some (Inr (s', n))"
    using write_loop_correct [OF l, of "Some bs" 0] buf by auto
  have "same_links (heap s0) (heap s0)" by (simp add: same_links_def)
  with write_loop_sim [OF s', unfolded write_sim_def]
  obtain vs where vs: "write_buffers_loop (heap s0) (m_base_size s0) (m_write_node s0) (m_write_index s0) n [] =
        Some (Inr (m_write_node s', m_write_index s', vs))"
      "s' = s0\<lparr>heap := scatter (heap s0) vs (map Some (slice bs 0 n)),
                 m_write_node := m_write_node s', m_write_index := m_write_index s'\<rparr>"
    by (metis append_Nil)
  let ?s1 = "s0\<lparr>m_write_node := m_write_node s', m_write_index := m_write_index s',
                 m_data_size := m_data_size s0 + n, m_capacity := usub (m_capacity s0) n\<rparr>"
  have g: "getWriteBuffers s n True = Some (Inr (?s1, vs, n))"
    using s0(1) vs(1) by (simp add: getWriteBuffers_def)
  let ?s2 = "s'\<lparr>m_data_size := m_data_size s' + n, m_capacity := usub (m_capacity s') n\<rparr>"
  have w: "ba_write s (Some bs) (int n) = Some (Inr (?s2, n))"
    using s0(1) s' n by (simp add: ba_write_def)
  have "m_data_size s' = m_data_size s0" "m_capacity s' = m_capacity s0"
    by (subst vs(2), simp)+
  then have "?s2 = s0\<lparr>heap := scatter (heap s0) vs (map Some (slice bs 0 n)),
       m_write_node := m_write_node s', m_write_index := m_write_index s',
       m_data_size := m_data_size s0 + n, m_capacity := usub (m_capacity s0) n\<rparr>"
    by (subst vs(2)) simp
  also have "\<dots> = ?s1\<lparr>heap := scatter (heap ?s1) vs (map Some (take n bs))\<rparr>"
    by (simp add: slice_def)
  finally show ?thesis using g w by blast
qed

section \<open>getReadBuffers\<close>

lemma gather_Nil [simp]: "gather h [] = []"
  by (simp add: gather_def)

lemma gather_Cons [simp]: "gather h (v # vs) = iov_read h v @ gather h vs"
  by (simp add: gather_def)

lemma gather_cong:
  "(\<And>x. map_option n_ptr (h x) = map_option n_ptr (h' x)) \<Longrightarrow> gather h vs = gather h' vs"
proof (induction vs)
  case (Cons v vs)
  then have "map_option n_ptr (h (iov_node v)) = map_option n_ptr (h' (iov_node v))" by blast
  then have "iov_read h v = iov_read h' v"
    by (cases "h (iov_node v)"; cases "h' (iov_node v)") (auto simp: iov_read_def)
  then show ?case using Cons by simp
qed simp

text \<open>Without \<open>is_update\<close> the loop only looks at the list.\<close>

lemma read_buffers_peek:
  assumes "lseg (heap s) rn as None" "\<forall>a \<in> set as. block_ok (heap s) (m_base_size s) a"
    "ri < m_base_size s" "ri + sz < length as * m_base_size s"
  shows "\<exists>rn' ri' vs. read_buffers_loop False s rn ri sz acc = Some (Inr (s, rn', ri', acc @ vs)) \<and>
    gather (heap s) vs = slice (flat (heap s) as) ri sz"
  using assms
proof (induction sz arbitrary: rn as ri acc rule: less_induct)
  case (less sz)
  show ?case
  proof (cases "sz = 0")
    case True
    then show ?thesis by (auto simp: read_buffers_loop.simps)
  next
    case pos: False
    obtain a rest where as: "as = a # rest" using less.prems(4) by (cases as) auto
    obtain nd where nd: "rn = Some a" "heap s a = Some nd" "lseg (heap s) (n_next nd) rest None"
      using less.prems(1) as by auto
    have len: "length (n_ptr nd) = m_base_size s"
      using less.prems(2) as nd(2) by (auto simp: block_ok_def)
    have blk: "block (heap s) a = n_ptr nd" using nd(2) by (simp add: block_def)
    let ?room = "m_base_size s - ri"
    show ?thesis
    proof (cases "sz < ?room")
      case True
      let ?v = "\<lparr>iov_node = a, iov_off = ri, iov_len = sz\<rparr>"
      have "read_buffers_loop False s rn ri sz acc = Some (Inr (s, rn, ri + sz, acc @ [?v]))"
        using pos nd True less.prems(3)
        by (subst read_buffers_loop.simps) (simp add: Let_def read_buffers_loop.simps)
      moreover have "gather (heap s) [?v] = slice (flat (heap s) as) ri sz"
        using True len nd(2) by (simp add: iov_read_def as slice_def blk)
      ultimately show ?thesis by blast
    next
      case False
      let ?v = "\<lparr>iov_node = a, iov_off = ri, iov_len = ?room\<rparr>"
      have dec: "sz - ?room < sz" using less.prems(3) pos by simp
      have bound: "0 + (sz - ?room) < length rest * m_base_size s"
        using less.prems(3,4) False as by simp
      from less.IH [OF dec nd(3) _ _ bound, of "acc @ [?v]"] less.prems(2,3) as
      obtain rn' ri' vs where IH: "read_buffers_loop False s (n_next nd) 0 (sz - ?room) (acc @ [?v]) =
            Some (Inr (s, rn', ri', (acc @ [?v]) @ vs))"
          "gather (heap s) vs = slice (flat (heap s) rest) 0 (sz - ?room)"
        by auto
      have "read_buffers_loop False s rn ri sz acc = Some (Inr (s, rn', ri', acc @ ?v # vs))"
        using pos nd False less.prems(3) IH(1)
        by (subst read_buffers_loop.simps) (simp add: Let_def)
      moreover have "gather (heap s) (?v # vs) = slice (flat (heap s) as) ri sz"
        using IH(2) False less.prems(3) len nd(2) by (simp add: iov_read_def as slice_def blk)
      ultimately show ?thesis by blast
    qed
  qed
qed

text \<open>With \<open>is_update\<close> it recycles the blocks it leaves, as the loop of \<open>read\<close> does.\<close>

lemma read_buffers_consume:
  assumes "ba_geo (s\<lparr>m_read_node := rn, m_read_index := ri\<rparr>) as k d" "sz \<le> d"
  shows "\<exists>s' rn' ri' vs as' k'. read_buffers_loop True s rn ri sz acc = Some (Inr (s', rn', ri', acc @ vs)) \<and>
    ba_geo (s'\<lparr>m_read_node := rn', m_read_index := ri'\<rparr>) as' k' (d - sz) \<and>
    unread (s'\<lparr>m_read_node := rn', m_read_index := ri'\<rparr>) as' (d - sz) =
      drop sz (unread (s\<lparr>m_read_node := rn, m_read_index := ri\<rparr>) as d) \<and>
    m_base_size s' = m_base_size s \<and> m_data_size s' = m_data_size s \<and>
    (\<forall>x. map_option n_ptr (heap s' x) = map_option n_ptr (heap s x)) \<and>
    gather (heap s) vs = take sz (unread (s\<lparr>m_read_node := rn, m_read_index := ri\<rparr>) as d)"
  using assms
proof (induction sz arbitrary: s rn ri as k d acc rule: less_induct)
  case (less sz)
  let ?s = "s\<lparr>m_read_node := rn, m_read_index := ri\<rparr>"
  note g = less.prems(1)
  show ?case
  proof (cases "sz = 0")
    case True
    then show ?thesis using g
      by (intro exI [of _ s] exI [of _ rn] exI [of _ ri] exI [of _ "[]"] exI [of _ as] exI [of _ k])
        (simp add: read_buffers_loop.simps)
  next
    case pos: False
    from g have l: "ba_layout ?s as k" by (simp add: ba_geo_def)
    obtain a rest nd where as: "as = a # rest" and a: "rn = Some a" "heap s a = Some nd"
      by (rule read_block [OF l]) auto
    have idx: "ri < m_base_size s" using l by (simp add: ba_layout_def)
    note g' = g [unfolded as]
    have nd: "heap ?s a = Some nd" using a(2) by simp
    let ?room = "m_base_size s - ri" and ?u = "unread ?s as d"
    show ?thesis
    proof (cases "sz < ?room")
      case True
      let ?v = "\<lparr>iov_node = a, iov_off = ri, iov_len = sz\<rparr>"
      have run: "read_buffers_loop True s rn ri sz acc = Some (Inr (s, rn, ri + sz, acc @ [?v]))"
        using pos a True idx by (subst read_buffers_loop.simps) (simp add: Let_def read_buffers_loop.simps)
      have n: "m_read_index ?s + sz < m_base_size ?s" "m_read_index ?s + sz \<le> m_base_size ?s"
        using True by simp_all
      have "gather (heap s) [?v] = take sz ?u"
        using unread_first_block(1) [OF g' nd less.prems(2) n(2)] a(2) as by (simp add: iov_read_def)
      with run consume_within [OF g less.prems(2) n(1)] show ?thesis
        by (intro exI [of _ s] exI [of _ rn] exI [of _ "ri + sz"] exI [of _ "[?v]"] exI [of _ as] exI [of _ k])
          simp
    next
      case False
      let ?v = "\<lparr>iov_node = a, iov_off = ri, iov_len = ?room\<rparr>"
      have room: "m_base_size ?s - m_read_index ?s \<le> d" "?room \<le> d" "?room \<le> sz"
        using False less.prems(2) by simp_all
      obtain s0 where s0: "deallocNode ?s a = Inr s0"
          "ba_geo (s0\<lparr>m_read_node := n_next nd, m_read_index := 0\<rparr>) (rest @ [a]) (k - 1) (d - ?room)"
          "unread (s0\<lparr>m_read_node := n_next nd, m_read_index := 0\<rparr>) (rest @ [a]) (d - ?room) = drop ?room ?u"
          "m_base_size s0 = m_base_size s" "m_data_size s0 = m_data_size s"
          "\<And>x. map_option n_ptr (heap s0 x) = map_option n_ptr (heap s x)"
        using consume_block [OF g' nd room(1)] as by auto
      define s1 where "s1 = s0\<lparr>m_read_node := m_read_node s, m_read_index := m_read_index s\<rparr>"
      have dealloc: "deallocNode s a = Inr s1"
        using s0(1) by (auto simp: deallocNode_def s1_def split: sum.splits option.splits)
      let ?t = "s1\<lparr>m_read_node := n_next nd, m_read_index := 0\<rparr>"
      have t: "?t = s0\<lparr>m_read_node := n_next nd, m_read_index := 0\<rparr>" by (simp add: s1_def)
      have dec: "sz - ?room < sz" using idx pos by simp
      have sz': "sz - ?room \<le> d - ?room" using less.prems(2) by (rule diff_le_mono)
      have "ba_geo ?t (rest @ [a]) (k - 1) (d - ?room)" using s0(2) t by simp
      from less.IH [OF dec this sz', of "acc @ [?v]"]
      obtain s2 rn' ri' vs as2 k2 where IH:
          "read_buffers_loop True s1 (n_next nd) 0 (sz - ?room) (acc @ [?v]) =
             Some (Inr (s2, rn', ri', (acc @ [?v]) @ vs))"
          "ba_geo (s2\<lparr>m_read_node := rn', m_read_index := ri'\<rparr>) as2 k2 (d - ?room - (sz - ?room))"
          "unread (s2\<lparr>m_read_node := rn', m_read_index := ri'\<rparr>) as2 (d - ?room - (sz - ?room)) =
             drop (sz - ?room) (unread ?t (rest @ [a]) (d - ?room))"
          "m_base_size s2 = m_base_size s1" "m_data_size s2 = m_data_size s1"
          "\<forall>x. map_option n_ptr (heap s2 x) = map_option n_ptr (heap s1 x)"
          "gather (heap s1) vs = take (sz - ?room) (unread ?t (rest @ [a]) (d - ?room))"
        by blast
      have run: "read_buffers_loop True s rn ri sz acc = Some (Inr (s2, rn', ri', acc @ ?v # vs))"
        using pos a False idx dealloc IH(1) by (subst read_buffers_loop.simps) (simp add: Let_def)
      have fst: "iov_read (heap s) ?v = take ?room ?u"
        using unread_first_block(1) [OF g' nd room(1)] idx a(2) as by (simp add: iov_read_def)
      have "gather (heap s) vs = gather (heap s1) vs"
        using s0(6) by (intro gather_cong) (simp add: s1_def)
      then have "gather (heap s) (?v # vs) = take ?room ?u @ take (sz - ?room) (drop ?room ?u)"
        using fst IH(7) s0(3) t by simp
      also have "\<dots> = take sz ?u" using room(3) by (metis le_add_diff_inverse take_add)
      finally have gth: "gather (heap s) (?v # vs) = take sz ?u" .
      have "drop (sz - ?room) (drop ?room ?u) = drop sz ?u" "d - ?room - (sz - ?room) = d - sz"
        using room(3) by simp_all
      moreover have "\<forall>x. map_option n_ptr (heap s2 x) = map_option n_ptr (heap s x)"
        using IH(6) s0(6) by (simp add: s1_def)
      moreover have "m_base_size s2 = m_base_size s" "m_data_size s2 = m_data_size s"
        using IH(4,5) s0(4,5) by (simp_all add: s1_def)
      ultimately show ?thesis using run gth IH(2,3) s0(3) t
        by (intro exI [of _ s2] exI [of _ rn'] exI [of _ ri'] exI [of _ "?v # vs"] exI [of _ as2] exI [of _ k2])
          simp
    qed
  qed
qed

lemma getReadBuffers_peek:
  assumes i: "ba_inv s as k"
  shows "\<exists>vs. getReadBuffers s n False = Some (Inr (s, vs, min n (m_data_size s))) \<and>
    gather (heap s) vs = take n (ba_contents s as)"
proof -
  from i have l: "ba_layout s as k" "m_read_index s + m_data_size s = wpos s k" by (auto simp: ba_inv_def)
  have "m_read_index s + min n (m_data_size s) < length as * m_base_size s"
    using l(2) ba_layout_wpos [OF l(1)] by linarith
  with read_buffers_peek [of s "m_read_node s" as "m_read_index s" "min n (m_data_size s)" "[]"] l(1)
  obtain rn' ri' vs where vs: "read_buffers_loop False s (m_read_node s) (m_read_index s) (min n (m_data_size s)) [] =
        Some (Inr (s, rn', ri', vs))"
      "gather (heap s) vs = slice (flat (heap s) as) (m_read_index s) (min n (m_data_size s))"
    by (auto simp: ba_layout_def)
  moreover have "(if n < m_data_size s then n else m_data_size s) = min n (m_data_size s)" by simp
  ultimately show ?thesis
    by (intro exI [of _ vs]) (simp add: getReadBuffers_def ba_contents_def slice_def min_def)
qed

lemma getReadBuffers_consume:
  fixes n :: nat
  assumes i: "ba_inv s as k"
  defines "m \<equiv> min n (m_data_size s)"
  shows "\<exists>s' vs as' k'. getReadBuffers s n True = Some (Inr (s', vs, m)) \<and> ba_inv s' as' k' \<and>
    ba_contents s' as' = drop m (ba_contents s as) \<and>
    gather (heap s) vs = take m (ba_contents s as) \<and> gather (heap s') vs = take m (ba_contents s as)"
proof -
  have g: "ba_geo (s\<lparr>m_read_node := m_read_node s, m_read_index := m_read_index s\<rparr>) as k (m_data_size s)"
    using i by (simp add: ba_inv_geo)
  have m: "m \<le> m_data_size s" by (simp add: m_def)
  from read_buffers_consume [OF g m, of "[]"]
  obtain s1 rn ri vs as1 k1 where s1:
      "read_buffers_loop True s (m_read_node s) (m_read_index s) m [] = Some (Inr (s1, rn, ri, vs))"
      "ba_geo (s1\<lparr>m_read_node := rn, m_read_index := ri\<rparr>) as1 k1 (m_data_size s - m)"
      "unread (s1\<lparr>m_read_node := rn, m_read_index := ri\<rparr>) as1 (m_data_size s - m) = drop m (ba_contents s as)"
      "m_data_size s1 = m_data_size s" "\<forall>x. map_option n_ptr (heap s1 x) = map_option n_ptr (heap s x)"
      "gather (heap s) vs = take m (ba_contents s as)"
    by (auto simp: ba_contents_unread)
  let ?s = "s1\<lparr>m_read_node := rn, m_read_index := ri, m_data_size := m_data_size s - m\<rparr>"
  have "(if n < m_data_size s then n else m_data_size s) = m" by (simp add: m_def)
  then have "getReadBuffers s n True = Some (Inr (?s, vs, m))"
    using s1(1,4) m by (simp add: getReadBuffers_def)
  moreover have "ba_inv ?s as1 k1" using s1(2) by (simp add: ba_inv_geo)
  moreover have "gather (heap ?s) vs = gather (heap s) vs" using s1(5) by (intro gather_cong) simp
  ultimately show ?thesis
    using s1(3,6) by (intro exI [of _ ?s] exI [of _ vs] exI [of _ as1] exI [of _ k1]) (simp add: ba_contents_unread)
qed

section \<open>The destructor\<close>

lemma delete_loop_correct:
  "lseg h p as None \<Longrightarrow> distinct as \<Longrightarrow> delete_loop h p = Some (Inr (h |` (- set as)))"
proof (induction as arbitrary: h p)
  case Nil
  then show ?case by (simp add: delete_loop.simps restrict_map_def)
next
  case (Cons a as)
  from Cons.prems obtain nd where a: "p = Some a" "h a = Some nd" "lseg h (n_next nd) as None"
    by auto
  have "lseg (h(a := None)) (n_next nd) as None" using a(3) Cons.prems(2) by simp
  moreover have "distinct as" using Cons.prems(2) by simp
  ultimately have "delete_loop (h(a := None)) (n_next nd) = Some (Inr ((h(a := None)) |` (- set as)))"
    by (rule Cons.IH)
  moreover have "(h(a := None)) |` (- set as) = h |` (- set (a # as))"
    by (auto simp: restrict_map_def fun_eq_iff)
  ultimately show ?case using a by (subst delete_loop.simps) simp
qed

lemma ByteArray_delete_empty:
  assumes "ba_inv s as k"
  shows "ByteArray_delete s = Some (Inr Map.empty)"
proof -
  from assms have l: "lseg (heap s) (m_read_node s) as None" "distinct as" "dom (heap s) = set as"
    by (auto simp: ba_inv_def ba_layout_def)
  have "heap s |` (- set as) = Map.empty"
    using l(3) by (auto simp: restrict_map_def fun_eq_iff)
  then show ?thesis using delete_loop_correct [OF l(1,2)] by (simp add: ByteArray_delete_def)
qed

end
