(* ===== verification/ByteArray_Spec.thy ===== *)
theory ByteArray_Spec
  imports ByteArray_Buffers
begin

text \<open>
  What the byte queue promises. \<open>ba_rep s xs\<close> abstracts a state to the list of its unread
  cells; the locale \<open>byte_fifo\<close> is the contract of a bounded-request byte queue, with the
  stream law (bytes come out in the order they went in, none lost, none invented) proved
  once from the laws of the two operations; the model of \<open>write\<close> and \<open>read\<close> is an
  interpretation of it.
\<close>

section \<open>Abstraction\<close>

definition ba_rep :: "bytearray \<Rightarrow> cell list \<Rightarrow> bool" where
  "ba_rep s xs \<longleftrightarrow> (\<exists>as k. ba_inv s as k \<and> ba_contents s as = xs)"

lemma ba_rep_length: "ba_rep s xs \<Longrightarrow> length xs = m_data_size s"
  by (auto simp: ba_rep_def ba_contents_unread ba_inv_geo)

lemma ba_repI [inv_intros]: "ba_inv s as k \<Longrightarrow> ba_contents s as = xs \<Longrightarrow> ba_rep s xs"
  by (auto simp: ba_rep_def)

section \<open>The contract of a byte queue\<close>

datatype 'b fifo_op = Put "'b list" | Get nat

fun fifo_run :: "('s \<Rightarrow> 'b list \<Rightarrow> 's option) \<Rightarrow> ('s \<Rightarrow> nat \<Rightarrow> ('s \<times> 'c list) option) \<Rightarrow>
    's \<Rightarrow> 'b fifo_op list \<Rightarrow> ('s \<times> 'c list) option" where
  "fifo_run put get s [] = Some (s, [])"
| "fifo_run put get s (Put bs # ops) =
     (case put s bs of None \<Rightarrow> None | Some s' \<Rightarrow> fifo_run put get s' ops)"
| "fifo_run put get s (Get n # ops) =
     (case get s n of None \<Rightarrow> None
      | Some (s', out) \<Rightarrow> (case fifo_run put get s' ops of None \<Rightarrow> None
         | Some (s'', outs) \<Rightarrow> Some (s'', out @ outs)))"

fun op_input :: "'b fifo_op \<Rightarrow> 'b list" where
  "op_input (Put bs) = bs"
| "op_input (Get n) = []"

fun op_size :: "'b fifo_op \<Rightarrow> nat" where
  "op_size (Put bs) = length bs"
| "op_size (Get n) = n"

locale byte_fifo =
  fixes rep :: "'s \<Rightarrow> 'c list \<Rightarrow> bool"
    and put :: "'s \<Rightarrow> 'b list \<Rightarrow> 's option"
    and get :: "'s \<Rightarrow> nat \<Rightarrow> ('s \<times> 'c list) option"
    and emb :: "'b \<Rightarrow> 'c"
    and limit :: nat
  assumes put_law: "rep s xs \<Longrightarrow> length bs < limit \<Longrightarrow>
      \<exists>s'. put s bs = Some s' \<and> rep s' (xs @ map emb bs)"
    and get_law: "rep s xs \<Longrightarrow> n < limit \<Longrightarrow>
      \<exists>s'. get s n = Some (s', take n xs) \<and> rep s' (drop n xs)"
begin

lemma run_conserves:
  "rep s xs \<Longrightarrow> \<forall>p \<in> set ops. op_size p < limit \<Longrightarrow>
     \<exists>s' out ys. fifo_run put get s ops = Some (s', out) \<and> rep s' ys \<and>
       out @ ys = xs @ map emb (concat (map op_input ops))"
proof (induction ops arbitrary: s xs)
  case Nil
  then show ?case by auto
next
  case (Cons p ops)
  then have small: "\<forall>q \<in> set ops. op_size q < limit" by simp
  show ?case
  proof (cases p)
    case (Put bs)
    obtain s' where s': "put s bs = Some s'" "rep s' (xs @ map emb bs)"
      using put_law [OF Cons.prems(1), of bs] Cons.prems(2) Put by auto
    with Cons.IH [OF s'(2) small] Put show ?thesis by auto
  next
    case (Get n)
    obtain s' where s': "get s n = Some (s', take n xs)" "rep s' (drop n xs)"
      using get_law [OF Cons.prems(1), of n] Cons.prems(2) Get by auto
    from Cons.IH [OF s'(2) small] obtain s'' out ys where
      "fifo_run put get s' ops = Some (s'', out)" "rep s'' ys"
      "out @ ys = drop n xs @ map emb (concat (map op_input ops))" by auto
    with s'(1) Get show ?thesis
      by (intro exI [of _ s''] exI [of _ "take n xs @ out"] exI [of _ ys]) simp
  qed
qed

end

text \<open>A queue whose owner can also look at the first bytes without removing them.\<close>

locale peek_fifo = byte_fifo rep put get emb limit
  for rep :: "'s \<Rightarrow> 'c list \<Rightarrow> bool" and put :: "'s \<Rightarrow> 'b list \<Rightarrow> 's option"
    and get :: "'s \<Rightarrow> nat \<Rightarrow> ('s \<times> 'c list) option" and emb :: "'b \<Rightarrow> 'c" and limit :: nat +
  fixes peek :: "'s \<Rightarrow> nat \<Rightarrow> ('s \<times> 'c list) option"
  assumes peek_law: "rep s xs \<Longrightarrow> peek s n = Some (s, take n xs)"
begin

lemma peek_get:
  "rep s xs \<Longrightarrow> n < limit \<Longrightarrow> map_option snd (peek s n) = map_option snd (get s n)"
  using peek_law [of s xs n] get_law [of s xs n] by auto

end

section \<open>The model of ByteArray as a byte queue\<close>

definition ba_put :: "bytearray \<Rightarrow> byte list \<Rightarrow> bytearray option" where
  "ba_put s bs = (case ba_write s (Some bs) (int (length bs)) of
     Some (Inr (s', n)) \<Rightarrow> Some s' | _ \<Rightarrow> None)"

text \<open>A read into a fresh buffer of \<open>n\<close> cells, cut to the returned length.\<close>

definition ba_get :: "bytearray \<Rightarrow> nat \<Rightarrow> (bytearray \<times> cell list) option" where
  "ba_get s n = (case ba_read s (Some (replicate n None)) (int n) of
     Some (Inr (s', Some out, r)) \<Rightarrow> Some (s', take r out) | _ \<Rightarrow> None)"

definition ba_peek :: "bytearray \<Rightarrow> nat \<Rightarrow> (bytearray \<times> cell list) option" where
  "ba_peek s n = (case getReadBuffers s n False of
     Some (Inr (s', vs, m)) \<Rightarrow> Some (s', gather (heap s') vs) | _ \<Rightarrow> None)"

lemma ba_put_law:
  assumes "ba_rep s xs" "length bs < 2 ^ 31"
  shows "\<exists>s'. ba_put s bs = Some s' \<and> ba_rep s' (xs @ map Some bs)"
proof -
  from assms(1) obtain as k where i: "ba_inv s as k" "ba_contents s as = xs" by (auto simp: ba_rep_def)
  from ba_write_correct [OF i(1) assms(2), of "Some bs"] i(2) show ?thesis
    by (auto simp: ba_put_def intro: inv_intros)
qed

lemma ba_get_law:
  assumes "ba_rep s xs" "n < 2 ^ 31"
  shows "\<exists>s'. ba_get s n = Some (s', take n xs) \<and> ba_rep s' (drop n xs)"
proof -
  from assms(1) obtain as k where i: "ba_inv s as k" "ba_contents s as = xs" by (auto simp: ba_rep_def)
  let ?m = "min n (m_data_size s)"
  have len: "length xs = m_data_size s" by (rule ba_rep_length [OF assms(1)])
  obtain s' as' k' where s': "ba_read s (Some (replicate n None)) (int n) =
      Some (Inr (s', put_out (Some (replicate n None)) 0 (take ?m xs), ?m))"
      "ba_inv s' as' k'" "ba_contents s' as' = drop ?m xs"
    using ba_read_correct [OF i(1) assms(2), of "Some (replicate n None)"] i(2) by auto
  have "take ?m xs = take n xs" "drop ?m xs = drop n xs" using len by (auto simp: min_def)
  then have "ba_get s n = Some (s', take n xs)" "ba_rep s' (drop n xs)"
    using s' len by (auto simp: ba_get_def put_out_def splice_def intro: inv_intros)
  then show ?thesis by blast
qed

lemma ba_peek_law:
  assumes "ba_rep s xs"
  shows "ba_peek s n = Some (s, take n xs)"
proof -
  from assms obtain as k where i: "ba_inv s as k" "ba_contents s as = xs" by (auto simp: ba_rep_def)
  with getReadBuffers_peek [OF i(1), of n] show ?thesis by (auto simp: ba_peek_def)
qed

interpretation baf: byte_fifo ba_rep ba_put ba_get Some "2 ^ 31"
  by unfold_locales (rule ba_put_law ba_get_law; assumption)+

interpretation bap: peek_fifo ba_rep ba_put ba_get Some "2 ^ 31" ba_peek
  by unfold_locales (rule ba_peek_law)

section \<open>Construction\<close>

lemma ByteArray_new_rep:
  assumes "0 < b"
  shows "\<exists>s. ByteArray_new b c = Some (Inr s) \<and> ba_rep s [] \<and> m_base_size s = b \<and> c < m_capacity s"
proof -
  let ?s = "\<lparr>heap = [0 \<mapsto> new_Node b], fresh = 1, m_base_size = b,
        m_capacity = b, m_data_size = 0, m_write_index = 0, m_write_node = Some 0,
        m_read_index = 0, m_read_node = Some 0, m_end_node = Some 0\<rparr>"
  have "ba_inv ?s [0] 0"
    using assms by (simp add: ba_inv_def ba_layout_def wpos_def new_Node_def block_ok_def)
  from updateCapacity_inv [OF this, of c] obtain s new where
    s: "updateCapacity c ?s = Some (Inr s)" "ba_inv s ([0] @ new) 0" "c < m_capacity s"
      "m_base_size s = b" "m_data_size s = 0" by auto
  then have "ba_rep s []" by (auto intro!: inv_intros simp: ba_contents_def)
  with s show ?thesis by (auto simp: ByteArray_new_def)
qed

text \<open>With a block size of zero no block adds capacity, so the loop does not end.\<close>

lemma updateCapacity_zero:
  "updateCapacity n s = Some r \<Longrightarrow> m_base_size s = 0 \<longrightarrow> m_capacity s \<le> n \<longrightarrow> (\<exists>e. r = Inl e)"
proof (rule updateCapacity.raw_induct [where
      P = "\<lambda>n s r. m_base_size s = 0 \<longrightarrow> m_capacity s \<le> n \<longrightarrow> (\<exists>e. r = Inl e)"])
  fix f :: "nat \<Rightarrow> bytearray \<Rightarrow> (ba_error + bytearray) option" and n s r
  assume IH: "\<And>n s r. f n s = Some r \<Longrightarrow> m_base_size s = 0 \<longrightarrow> m_capacity s \<le> n \<longrightarrow> (\<exists>e. r = Inl e)"
  assume eq: "(if m_capacity s \<le> n
      then (case append_node s of Inl e \<Rightarrow> Some (Inl e) | Inr s' \<Rightarrow> f n s')
      else Some (Inr s)) = Some r"
  show "m_base_size s = 0 \<longrightarrow> m_capacity s \<le> n \<longrightarrow> (\<exists>e. r = Inl e)"
  proof (intro impI)
    assume a: "m_base_size s = 0" "m_capacity s \<le> n"
    show "\<exists>e. r = Inl e"
    proof (cases "append_node s")
      case (Inl e)
      with eq a show ?thesis by auto
    next
      case (Inr s')
      then have "m_base_size s' = 0" "m_capacity s' = m_capacity s"
        using a by (auto simp: append_node_def split: sum.splits)
      with IH [of n s' r] eq a Inr show ?thesis by simp
    qed
  qed
qed

lemma updateCapacity_no_error:
  "updateCapacity n s = Some r \<Longrightarrow> (\<exists>e. m_end_node s = Some e \<and> (e = fresh s \<or> heap s e \<noteq> None)) \<longrightarrow> (\<exists>s'. r = Inr s')"
proof (rule updateCapacity.raw_induct [where
      P = "\<lambda>n s r. (\<exists>e. m_end_node s = Some e \<and> (e = fresh s \<or> heap s e \<noteq> None)) \<longrightarrow> (\<exists>s'. r = Inr s')"])
  fix f :: "nat \<Rightarrow> bytearray \<Rightarrow> (ba_error + bytearray) option" and n s r
  assume IH: "\<And>n s r. f n s = Some r \<Longrightarrow>
     (\<exists>e. m_end_node s = Some e \<and> (e = fresh s \<or> heap s e \<noteq> None)) \<longrightarrow> (\<exists>s'. r = Inr s')"
  assume eq: "(if m_capacity s \<le> n
      then (case append_node s of Inl e \<Rightarrow> Some (Inl e) | Inr s' \<Rightarrow> f n s')
      else Some (Inr s)) = Some r"
  show "(\<exists>e. m_end_node s = Some e \<and> (e = fresh s \<or> heap s e \<noteq> None)) \<longrightarrow> (\<exists>s'. r = Inr s')"
  proof
    assume "\<exists>e. m_end_node s = Some e \<and> (e = fresh s \<or> heap s e \<noteq> None)"
    then obtain e where e: "m_end_node s = Some e" "e = fresh s \<or> heap s e \<noteq> None" by blast
    let ?h = "(heap s)(fresh s \<mapsto> new_Node (m_base_size s))"
    obtain nd where nd: "?h e = Some nd" using e by (cases "e = fresh s") auto
    let ?s = "s\<lparr>heap := ?h(e \<mapsto> nd\<lparr>n_next := Some (fresh s)\<rparr>), fresh := Suc (fresh s),
      m_end_node := Some (fresh s), m_capacity := m_capacity s + m_base_size s\<rparr>"
    have "append_node s = Inr ?s"
      using e(1) nd by (simp add: append_node_def set_next_def del: fun_upd_apply)
    moreover have "m_end_node ?s = Some (fresh s)" "heap ?s (fresh s) \<noteq> None" by simp_all
    ultimately have "\<exists>s'. append_node s = Inr s' \<and> m_end_node s' = Some (fresh s) \<and> heap s' (fresh s) \<noteq> None"
      by blast
    then obtain s' where "append_node s = Inr s'"
      "\<exists>e. m_end_node s' = Some e \<and> (e = fresh s' \<or> heap s' e \<noteq> None)"
      by blast
    then show "\<exists>s'. r = Inr s'" using eq IH [of n s' r] by (auto split: if_splits)
  qed
qed

text \<open>The loop stops within one block of the requested size.\<close>

lemma updateCapacity_bound:
  "updateCapacity n s = Some (Inr s') \<Longrightarrow> m_capacity s \<le> n + m_base_size s \<Longrightarrow> m_capacity s' \<le> n + m_base_size s"
proof -
  have "updateCapacity n s = Some r \<Longrightarrow> m_capacity s \<le> n + m_base_size s \<longrightarrow>
      (\<forall>s'. r = Inr s' \<longrightarrow> m_capacity s' \<le> n + m_base_size s)" for r
  proof (rule updateCapacity.raw_induct [where
        P = "\<lambda>n s r. m_capacity s \<le> n + m_base_size s \<longrightarrow> (\<forall>s'. r = Inr s' \<longrightarrow> m_capacity s' \<le> n + m_base_size s)"])
    fix f :: "nat \<Rightarrow> bytearray \<Rightarrow> (ba_error + bytearray) option" and n s r
    assume IH: "\<And>n s r. f n s = Some r \<Longrightarrow> m_capacity s \<le> n + m_base_size s \<longrightarrow>
        (\<forall>s'. r = Inr s' \<longrightarrow> m_capacity s' \<le> n + m_base_size s)"
    assume eq: "(if m_capacity s \<le> n
        then (case append_node s of Inl e \<Rightarrow> Some (Inl e) | Inr s' \<Rightarrow> f n s')
        else Some (Inr s)) = Some r"
    show "m_capacity s \<le> n + m_base_size s \<longrightarrow> (\<forall>s'. r = Inr s' \<longrightarrow> m_capacity s' \<le> n + m_base_size s)"
    proof (cases "m_capacity s \<le> n")
      case True
      show ?thesis
      proof (cases "append_node s")
        case (Inl e)
        with eq True show ?thesis by auto
      next
        case (Inr s')
        then have "m_base_size s' = m_base_size s" "m_capacity s' = m_capacity s + m_base_size s"
          by (auto simp: append_node_def split: sum.splits)
        with IH [of n s' r] eq True Inr show ?thesis by simp
      qed
    qed (use eq in auto)
  qed
  then show "updateCapacity n s = Some (Inr s') \<Longrightarrow> m_capacity s \<le> n + m_base_size s \<Longrightarrow> m_capacity s' \<le> n + m_base_size s"
    by blast
qed

lemma ByteArray_new_zero: "ByteArray_new 0 c = None"
proof (rule ccontr)
  assume "ByteArray_new 0 c \<noteq> None"
  then obtain r where r: "ByteArray_new 0 c = Some r" by blast
  from updateCapacity_zero [OF r [unfolded ByteArray_new_def]]
    updateCapacity_no_error [OF r [unfolded ByteArray_new_def]]
  show False by auto
qed

section \<open>Properties\<close>

text \<open>
  C39: With block size zero the constructor never ends, whatever the capacity is. With any other block
  size, and when the requested capacity and one block fit in \<open>size_t\<close>, it ends with an empty queue whose
  capacity exceeds the requested one, but by no more than one block; so \<open>m_capacity\<close> has not wrapped
  around. Allocations succeed.
\<close>

theorem ByteArray_new_ends:
  "ByteArray_new 0 c = None \<and>
   (0 < b \<and> c + b < 2 ^ 64 \<longrightarrow>
     (\<exists>s. ByteArray_new b c = Some (Inr s) \<and> ba_rep s [] \<and> c < getCapacity s \<and> getCapacity s \<le> c + b \<and>
       getDataSize s = 0))"
proof (intro conjI impI)
  show "ByteArray_new 0 c = None" by (rule ByteArray_new_zero)
  assume b: "0 < b \<and> c + b < 2 ^ 64"
  then obtain s where s: "ByteArray_new b c = Some (Inr s)" "ba_rep s []" "c < m_capacity s"
    using ByteArray_new_rep [of b c] by auto
  moreover have "m_capacity s \<le> c + b" using updateCapacity_bound [OF s(1) [unfolded ByteArray_new_def]] by simp
  ultimately show "\<exists>s. ByteArray_new b c = Some (Inr s) \<and> ba_rep s [] \<and> c < getCapacity s \<and> getCapacity s \<le> c + b \<and>
      getDataSize s = 0"
    using ba_rep_length [OF s(2)] by (auto simp: getCapacity_def getDataSize_def)
qed

theorem ByteArray_new_ends_witness:
  "ByteArray_new 0 5 = None \<and> (\<exists>s. ByteArray_new 2 5 = Some (Inr s) \<and> 5 < getCapacity s \<and> getCapacity s \<le> 7)"
  using ByteArray_new_ends [of 5 2] by auto

text \<open>
  C2: \<open>write\<close> of \<open>n\<close> bytes ends without a fault, returns \<open>n\<close>, appends exactly the
  first \<open>n\<close> bytes of the buffer to the unread contents and keeps the representation
  invariant, whatever block boundaries it crosses.
\<close>

theorem ba_write_appends:
  assumes "ba_rep s xs" and "n < 2 ^ 31" and "n \<le> length bs"
  shows "\<exists>s'. ba_write s (Some bs) (int n) = Some (Inr (s', n)) \<and> ba_rep s' (xs @ map Some (take n bs))"
proof -
  from assms(1) obtain as k where i: "ba_inv s as k" "ba_contents s as = xs" by (auto simp: ba_rep_def)
  from ba_write_correct [OF i(1) assms(2), of "Some bs"] assms(3) i(2) show ?thesis
    by (auto intro: inv_intros)
qed

theorem ba_write_appends_witness:
  "\<exists>s s'. ByteArray_new 2 0 = Some (Inr s) \<and>
     ba_write s (Some [7, 8, 9]) 3 = Some (Inr (s', 3)) \<and> ba_rep s' [Some 7, Some 8, Some 9]"
proof -
  obtain s where s: "ByteArray_new 2 0 = Some (Inr s)" "ba_rep s []"
    using ByteArray_new_rep [of 2 0] by auto
  from ba_write_appends [OF s(2), of 3 "[7, 8, 9]"] s(1) show ?thesis by auto
qed

text \<open>
  C3: \<open>read\<close> of up to \<open>n\<close> bytes ends without a fault, returns the smaller of
  \<open>n\<close> and the number of unread bytes, copies exactly the oldest unread bytes to the
  front of the buffer, and removes them from the contents.
\<close>

theorem ba_read_removes:
  assumes "ba_rep s xs" and "n < 2 ^ 31" and "n \<le> length dst"
  shows "\<exists>s'. ba_read s (Some dst) (int n) =
      Some (Inr (s', Some (take n xs @ drop (min n (length xs)) dst), min n (length xs))) \<and>
    ba_rep s' (drop n xs)"
proof -
  from assms(1) obtain as k where i: "ba_inv s as k" "ba_contents s as = xs" by (auto simp: ba_rep_def)
  have len: "m_data_size s = length xs" using ba_rep_length [OF assms(1)] by simp
  have t: "take (min n (length xs)) xs = take n xs" "drop (min n (length xs)) xs = drop n xs"
    by (auto simp: min_def)
  let ?m = "min n (length xs)"
  from ba_read_correct [OF i(1) assms(2), of "Some dst"] assms(3) i(2) len obtain s' as' k' where
    r: "ba_read s (Some dst) (int n) = Some (Inr (s', put_out (Some dst) 0 (take ?m xs), ?m))"
    and s': "ba_inv s' as' k'" "ba_contents s' as' = drop ?m xs" by auto
  have "put_out (Some dst) 0 (take ?m xs) = Some (take ?m xs @ drop ?m dst)"
    by (simp add: put_out_def splice_def min_def)
  moreover have "ba_rep s' (drop n xs)" using ba_repI [OF s'(1)] s'(2) t by simp
  ultimately show ?thesis using r t by auto
qed

theorem ba_read_removes_witness:
  "\<exists>s s1 s2. ByteArray_new 2 0 = Some (Inr s) \<and> ba_write s (Some [7, 8, 9]) 3 = Some (Inr (s1, 3)) \<and>
     ba_read s1 (Some [None, None]) 2 = Some (Inr (s2, Some [Some 7, Some 8], 2)) \<and> ba_rep s2 [Some 9]"
proof -
  obtain s where s: "ByteArray_new 2 0 = Some (Inr s)" "ba_rep s []"
    using ByteArray_new_rep [of 2 0] by auto
  obtain as k where i: "ba_inv s as k" "ba_contents s as = []" using s(2) by (auto simp: ba_rep_def)
  obtain s1 where s1: "ba_write s (Some [7, 8, 9]) 3 = Some (Inr (s1, 3))" "ba_rep s1 [Some 7, Some 8, Some 9]"
    using ba_write_correct [OF i(1), of 3 "Some [7, 8, 9]"] i(2) by (auto intro: inv_intros)
  from ba_read_removes [OF s1(2), of 2 "[None, None]"] s(1) s1(1) show ?thesis by auto
qed

text \<open>
  C1: Stream law. For every sequence of writes and reads (each below \<open>2 ^ 31\<close> bytes) on a
  ByteArray, all calls succeed, and what has been read out, followed by what is still unread, is
  what was there at the start followed by everything written, in order.
\<close>

theorem ba_stream_law:
  assumes "ba_rep s xs" and "\<forall>p \<in> set ops. op_size p < 2 ^ 31"
  shows "\<exists>s' out ys. fifo_run ba_put ba_get s ops = Some (s', out) \<and> ba_rep s' ys \<and>
    out @ ys = xs @ map Some (concat (map op_input ops))"
  using assms by (rule baf.run_conserves)

theorem ba_stream_law_witness:
  "\<exists>s s' out ys. ByteArray_new 2 0 = Some (Inr s) \<and>
     fifo_run ba_put ba_get s [Put [1, 2, 3], Get 2, Put [4], Get 1] = Some (s', out) \<and> ba_rep s' ys \<and>
     out @ ys = [Some 1, Some 2, Some 3, Some 4]"
proof -
  obtain s where s: "ByteArray_new 2 0 = Some (Inr s)" "ba_rep s []"
    using ByteArray_new_rep [of 2 0] by auto
  from ba_stream_law [OF s(2), of "[Put [1, 2, 3], Get 2, Put [4], Get 1]"] s(1) show ?thesis by auto
qed

text \<open>
  C14: Refinement of the scatter interface: \<open>getWriteBuffers\<close> with \<open>is_update\<close>, followed by
  filling the regions it returns with \<open>n\<close> bytes in order (as \<open>readv\<close> does), ends in
  exactly the state that \<open>write\<close> of these bytes ends in.
\<close>

theorem getWriteBuffers_is_write:
  assumes "ba_rep s xs" and "n < 2 ^ 31" and "n \<le> length bs"
  shows "\<exists>s1 vs. getWriteBuffers s n True = Some (Inr (s1, vs, n)) \<and>
    ba_write s (Some bs) (int n) =
      Some (Inr (s1\<lparr>heap := scatter (heap s1) vs (map Some (take n bs))\<rparr>, n))"
proof -
  from assms(1) obtain as k where i: "ba_inv s as k" by (auto simp: ba_rep_def)
  from getWriteBuffers_write [OF i assms(2,3)] show ?thesis by auto
qed

theorem getWriteBuffers_is_write_witness:
  "\<exists>s s1 vs. ByteArray_new 2 0 = Some (Inr s) \<and> getWriteBuffers s 3 True = Some (Inr (s1, vs, 3)) \<and>
    ba_write s (Some [7, 8, 9]) 3 =
      Some (Inr (s1\<lparr>heap := scatter (heap s1) vs [Some 7, Some 8, Some 9]\<rparr>, 3))"
proof -
  obtain s where s: "ByteArray_new 2 0 = Some (Inr s)" "ba_rep s []"
    using ByteArray_new_rep [of 2 0] by auto
  from getWriteBuffers_is_write [OF s(2), of 3 "[7, 8, 9]"] s(1) show ?thesis by auto
qed

text \<open>
  \<open>GetReadBuffers\<close> hands out regions that hold the oldest \<open>n\<close> unread bytes in order. Without
  \<open>is_update\<close> the queue does not change; with it the bytes are removed as \<open>read\<close> would, and
  the regions still hold them although their blocks have been recycled.
\<close>

theorem getReadBuffers_correct:
  assumes "ba_rep s xs"
  shows "(\<exists>vs. getReadBuffers s n False = Some (Inr (s, vs, min n (length xs))) \<and>
            gather (heap s) vs = take n xs) \<and>
         (\<exists>s' vs. getReadBuffers s n True = Some (Inr (s', vs, min n (length xs))) \<and>
            ba_rep s' (drop n xs) \<and> gather (heap s') vs = take n xs)"
proof -
  from assms obtain as k where i: "ba_inv s as k" "ba_contents s as = xs" by (auto simp: ba_rep_def)
  have len: "m_data_size s = length xs" using ba_rep_length [OF assms] by simp
  have t: "take (min n (length xs)) xs = take n xs" "drop (min n (length xs)) xs = drop n xs"
    by (auto simp: min_def)
  from getReadBuffers_peek [OF i(1), of n] getReadBuffers_consume [OF i(1), of n] i(2) len t
  show ?thesis by (auto intro: inv_intros)
qed

theorem getReadBuffers_correct_example:
  "\<exists>s s1 vs s2 ws. ByteArray_new 2 0 = Some (Inr s) \<and> ba_write s (Some [7, 8, 9]) 3 = Some (Inr (s1, 3)) \<and>
     getReadBuffers s1 5 False = Some (Inr (s1, vs, 3)) \<and> gather (heap s1) vs = [Some 7, Some 8, Some 9] \<and>
     getReadBuffers s1 5 True = Some (Inr (s2, ws, 3)) \<and> ba_rep s2 [] \<and>
     gather (heap s2) ws = [Some 7, Some 8, Some 9]"
proof -
  obtain s where s: "ByteArray_new 2 0 = Some (Inr s)" "ba_rep s []"
    using ByteArray_new_rep [of 2 0] by auto
  obtain as k where i: "ba_inv s as k" "ba_contents s as = []" using s(2) by (auto simp: ba_rep_def)
  obtain s1 where s1: "ba_write s (Some [7, 8, 9]) 3 = Some (Inr (s1, 3))" "ba_rep s1 [Some 7, Some 8, Some 9]"
    using ba_write_correct [OF i(1), of 3 "Some [7, 8, 9]"] i(2) by (auto intro: inv_intros)
  from getReadBuffers_correct [OF s1(2), of 5] s(1) s1(1) show ?thesis by auto
qed

text \<open>
  The destructor, which starts at the block under the read cursor, frees every block the
  ByteArray has allocated: no leak and no double free, in every reachable representation.
\<close>

theorem ByteArray_delete_frees_all:
  assumes "ba_rep s xs"
  shows "ByteArray_delete s = Some (Inr Map.empty)"
  using assms ByteArray_delete_empty by (auto simp: ba_rep_def)

theorem ByteArray_delete_frees_all_example:
  "\<exists>s. ByteArray_new 2 5 = Some (Inr s) \<and> ByteArray_delete s = Some (Inr Map.empty)"
proof -
  obtain s where s: "ByteArray_new 2 5 = Some (Inr s)" "ba_rep s []"
    using ByteArray_new_rep [of 2 5] by auto
  from ByteArray_delete_frees_all [OF s(2)] s(1) show ?thesis by auto
qed

text \<open>The string that \<open>std::string(buf.get(), 0, size)\<close> makes of partly filled cells.\<close>

lemma cstring_no_zero: "0 \<notin> set bs \<Longrightarrow> cstring (map Some bs @ None # cs) = Inl UninitRead"
  by (induction bs) auto

lemma cstring_zero: "0 \<notin> set bs \<Longrightarrow> cstring (map Some bs @ Some 0 # cs) = Inr bs"
  by (induction bs) auto

text \<open>
  \<open>Read(size_t)\<close> builds its result from a zero-terminated C string: unread bytes without
  a zero byte make it run into memory that was never initialised, and bytes with a zero are cut
  at the first one.
\<close>

theorem ba_read_string_needs_zero:
  assumes "ba_rep s (map Some bs)" and "n < 2 ^ 31"
  shows "(0 \<notin> set (take n bs) \<longrightarrow> ba_read_string s n = Some (Inl UninitRead)) \<and>
    (\<forall>us vs. take n bs = us @ 0 # vs \<longrightarrow> 0 \<notin> set us \<longrightarrow>
       (\<exists>s'. ba_read_string s n = Some (Inr (s', us)) \<and> ba_rep s' (map Some (drop n bs))))"
proof -
  from assms(1) obtain as k where i: "ba_inv s as k" "ba_contents s as = map Some bs" by (auto simp: ba_rep_def)
  have len: "m_data_size s = length bs" using ba_rep_length [OF assms(1)] by simp
  let ?buf = "replicate (Suc n) None"
  from ba_read_correct [OF i(1) assms(2), of "Some ?buf"] i(2) len obtain s' as' k' where
    r: "ba_read s (Some ?buf) (int n) = Some (Inr (s', put_out (Some ?buf) 0 (take (min n (length bs)) (map Some bs)), min n (length bs)))"
    and s': "ba_inv s' as' k'" "ba_contents s' as' = drop (min n (length bs)) (map Some bs)" by auto
  have d: "drop (min n (length bs)) (map Some bs) = map Some (drop n bs)"
    by (auto simp: min_def drop_map)
  have rep: "ba_rep s' (map Some (drop n bs))" using s' d by (auto intro: inv_intros)
  let ?pad = "replicate (n - length (take n bs)) None"
  have "put_out (Some ?buf) 0 (take (min n (length bs)) (map Some bs)) = Some (map Some (take n bs) @ None # ?pad)"
    by (auto simp: put_out_def splice_def take_map min_def simp flip: replicate_Suc)
  with r assms(2) have run: "ba_read_string s n =
      (case cstring (map Some (take n bs) @ None # ?pad) of Inl e \<Rightarrow> Some (Inl e)
       | Inr out \<Rightarrow> Some (Inr (s', take n out)))"
    by (simp add: ba_read_string_def)
  have "ba_read_string s n = Some (Inl UninitRead)" if "0 \<notin> set (take n bs)"
    using run cstring_no_zero [OF that] by simp
  moreover have "ba_read_string s n = Some (Inr (s', us))" if t: "take n bs = us @ 0 # vs" "0 \<notin> set us" for us vs
  proof -
    have "length us \<le> n" using arg_cong [OF t(1), of length] by simp
    then show ?thesis using run t cstring_zero [OF t(2), of "map Some vs @ None # ?pad"] by simp
  qed
  ultimately show ?thesis using rep by blast
qed

theorem ba_read_string_needs_zero_example:
  "\<exists>s s1. ByteArray_new 4 0 = Some (Inr s) \<and> ba_write s (Some [7, 8]) 2 = Some (Inr (s1, 2)) \<and>
     ba_read_string s1 2 = Some (Inl UninitRead)"
proof -
  obtain s where s: "ByteArray_new 4 0 = Some (Inr s)" "ba_rep s []"
    using ByteArray_new_rep [of 4 0] by auto
  obtain as k where i: "ba_inv s as k" "ba_contents s as = []" using s(2) by (auto simp: ba_rep_def)
  obtain s1 where s1: "ba_write s (Some [7, 8]) 2 = Some (Inr (s1, 2))" "ba_rep s1 (map Some [7, 8])"
    using ba_write_correct [OF i(1), of 2 "Some [7, 8]"] i(2) by (auto intro: inv_intros)
  have "0 \<notin> set (take 2 [7, 8 :: byte])" by simp
  with ba_read_string_needs_zero [OF s1(2), of 2] s(1) s1(1) show ?thesis by auto
qed

end
