(* ===== verification/StdOrdered.thy ===== *)
theory StdOrdered
  imports Prelude
begin

text \<open>
  The ordered containers of the C++ standard library, as far as the code uses them:
  \<^verbatim>\<open>std::set\<close> with a comparator (the timer queue of \<^verbatim>\<open>src/src/timer.cc\<close>) and
  \<^verbatim>\<open>std::map\<close> with a comparator (the header maps of \<^verbatim>\<open>src/include/http/http.h\<close>). Both
  are lists in comparator order; two elements are the same for the container when neither is less
  than the other. The comparator is a parameter. The locale \<open>strict_weak\<close> is the
  requirement the standard makes of it (a strict weak order), \<open>strict_total\<close> adds that
  different elements are comparable; the container laws are proved inside them, and every component
  that instantiates a container interprets one of them on its own comparator.
\<close>

section \<open>Operations\<close>

definition incomp :: "('a \<Rightarrow> 'a \<Rightarrow> bool) \<Rightarrow> 'a \<Rightarrow> 'a \<Rightarrow> bool" where
  "incomp lt x y \<longleftrightarrow> \<not> lt x y \<and> \<not> lt y x"

fun oset_insert :: "('a \<Rightarrow> 'a \<Rightarrow> bool) \<Rightarrow> 'a \<Rightarrow> 'a list \<Rightarrow> 'a list" where
  "oset_insert lt x [] = [x]"
| "oset_insert lt x (y # ys) =
     (if lt x y then x # y # ys
      else if lt y x then y # oset_insert lt x ys else y # ys)"

fun oset_find :: "('a \<Rightarrow> 'a \<Rightarrow> bool) \<Rightarrow> 'a \<Rightarrow> 'a list \<Rightarrow> 'a option" where
  "oset_find lt x [] = None"
| "oset_find lt x (y # ys) = (if incomp lt x y then Some y else oset_find lt x ys)"

text \<open>The elements before and from \<open>lower_bound(x)\<close> on.\<close>

definition oset_below :: "('a \<Rightarrow> 'a \<Rightarrow> bool) \<Rightarrow> 'a \<Rightarrow> 'a list \<Rightarrow> 'a list" where
  "oset_below lt x ys = takeWhile (\<lambda>y. lt y x) ys"

definition oset_from :: "('a \<Rightarrow> 'a \<Rightarrow> bool) \<Rightarrow> 'a \<Rightarrow> 'a list \<Rightarrow> 'a list" where
  "oset_from lt x ys = dropWhile (\<lambda>y. lt y x) ys"

text \<open>\<open>m[k] = v\<close>: an existing entry keeps its key.\<close>

fun omap_set :: "('k \<Rightarrow> 'k \<Rightarrow> bool) \<Rightarrow> 'k \<Rightarrow> 'v \<Rightarrow> ('k \<times> 'v) list \<Rightarrow> ('k \<times> 'v) list" where
  "omap_set lt k v [] = [(k, v)]"
| "omap_set lt k v ((k', v') # m) =
     (if lt k k' then (k, v) # (k', v') # m
      else if lt k' k then (k', v') # omap_set lt k v m else (k', v) # m)"

fun omap_find :: "('k \<Rightarrow> 'k \<Rightarrow> bool) \<Rightarrow> 'k \<Rightarrow> ('k \<times> 'v) list \<Rightarrow> 'v option" where
  "omap_find lt k [] = None"
| "omap_find lt k ((k', v') # m) = (if incomp lt k k' then Some v' else omap_find lt k m)"

fun omap_erase :: "('k \<Rightarrow> 'k \<Rightarrow> bool) \<Rightarrow> 'k \<Rightarrow> ('k \<times> 'v) list \<Rightarrow> ('k \<times> 'v) list" where
  "omap_erase lt k [] = []"
| "omap_erase lt k ((k', v') # m) = (if incomp lt k k' then m else (k', v') # omap_erase lt k m)"

text \<open>The keys of a map are updated like the elements of a set.\<close>

lemma keys_omap_set: "map fst (omap_set lt k v m) = oset_insert lt k (map fst m)"
  by (induction lt k v m rule: omap_set.induct) auto

section \<open>Laws under a strict weak order\<close>

locale strict_weak =
  fixes lt :: "'a \<Rightarrow> 'a \<Rightarrow> bool"
  assumes irrefl: "\<not> lt x x"
    and trans: "lt x y \<Longrightarrow> lt y z \<Longrightarrow> lt x z"
    and incomp_trans: "incomp lt x y \<Longrightarrow> incomp lt y z \<Longrightarrow> incomp lt x z"
begin

abbreviation ordered :: "'a list \<Rightarrow> bool" where
  "ordered \<equiv> sorted_wrt lt"

lemma incomp_refl: "incomp lt x x"
  by (simp add: incomp_def irrefl)

lemma incomp_sym: "incomp lt x y \<Longrightarrow> incomp lt y x"
  by (simp add: incomp_def)

lemma less_incomp_less: "lt x y \<Longrightarrow> incomp lt y z \<Longrightarrow> lt x z"
  using incomp_trans [of x z y] trans [of z x y] by (auto simp: incomp_def)

lemma incomp_less_less: "incomp lt x y \<Longrightarrow> lt y z \<Longrightarrow> lt x z"
  using incomp_trans [of y x z] trans [of y z x] by (auto simp: incomp_def)

lemma asym: "lt x y \<Longrightarrow> \<not> lt y x"
  using trans irrefl by blast

lemma set_insert_subset: "set (oset_insert lt x ys) \<subseteq> insert x (set ys)"
  by (induction ys) auto

lemma set_insert_superset: "set ys \<subseteq> set (oset_insert lt x ys)"
  by (induction ys) auto

lemma ordered_insert: "ordered ys \<Longrightarrow> ordered (oset_insert lt x ys)"
proof (induction ys)
  case (Cons y ys)
  then show ?case
    using set_insert_subset [of x ys] by (auto intro: trans)
qed simp

lemma below_from: "oset_below lt x ys @ oset_from lt x ys = ys"
  by (simp add: oset_below_def oset_from_def)

lemma below_less: "y \<in> set (oset_below lt x ys) \<Longrightarrow> lt y x"
  by (auto simp: oset_below_def dest: set_takeWhileD)

lemma from_not_less: "ordered ys \<Longrightarrow> y \<in> set (oset_from lt x ys) \<Longrightarrow> \<not> lt y x"
proof (induction ys)
  case (Cons z ys)
  then show ?case by (auto simp: oset_from_def split: if_splits dest: trans)
qed (simp add: oset_from_def)

text \<open>Maps: the keys of a map in this order are pairwise comparable.\<close>

abbreviation map_ordered :: "('a \<times> 'v) list \<Rightarrow> bool" where
  "map_ordered m \<equiv> sorted_wrt lt (map fst m)"

lemma map_ordered_set: "map_ordered m \<Longrightarrow> map_ordered (omap_set lt k v m)"
  by (simp add: keys_omap_set ordered_insert)

lemma keys_erase_subset: "set (omap_erase lt k m) \<subseteq> set m"
  by (induction m) (auto split: if_splits)

lemma map_ordered_erase: "map_ordered m \<Longrightarrow> map_ordered (omap_erase lt k m)"
proof (induction m)
  case (Cons p m)
  obtain k' v' where p: "p = (k', v')" by (cases p)
  show ?case
    using Cons keys_erase_subset [of k m] by (auto simp: p)
qed simp

lemma find_set_same: "map_ordered m \<Longrightarrow> incomp lt k k' \<Longrightarrow> omap_find lt k (omap_set lt k' v m) = Some v"
proof (induction m)
  case (Cons p m)
  obtain k'' v'' where p: "p = (k'', v'')" by (cases p)
  have "incomp lt k k''" if "incomp lt k' k''"
    using incomp_trans [OF Cons.prems(2) that] .
  moreover have "\<not> incomp lt k k''" if "lt k'' k'"
    using less_incomp_less [OF that incomp_sym [OF Cons.prems(2)]] by (simp add: incomp_def)
  ultimately show ?case
    using Cons by (auto simp: p incomp_def)
qed simp

lemma find_set_other: "\<not> incomp lt k k' \<Longrightarrow> omap_find lt k (omap_set lt k' v m) = omap_find lt k m"
proof (induction m)
  case (Cons p m)
  obtain k'' v'' where p: "p = (k'', v'')" by (cases p)
  have "\<not> incomp lt k k''" if "incomp lt k' k''"
    using Cons.prems incomp_trans [of k k'' k'] incomp_sym [OF that] by blast
  then show ?case
    using Cons by (auto simp: p incomp_def)
qed simp

lemma find_none: "map_ordered m \<Longrightarrow> \<forall>k' \<in> fst ` set m. lt k k' \<Longrightarrow> omap_find lt k m = None"
  by (induction m) (auto simp: incomp_def)

lemma find_cong: "incomp lt k k' \<Longrightarrow> omap_find lt k m = omap_find lt k' m"
proof (induction m)
  case (Cons p m)
  obtain k'' v'' where p: "p = (k'', v'')" by (cases p)
  have "incomp lt k k'' = incomp lt k' k''"
    using incomp_trans incomp_sym Cons.prems by blast
  then show ?case using Cons by (simp add: p)
qed simp

lemma find_erase_same:
  assumes "map_ordered m" "incomp lt k k'"
  shows "omap_find lt k (omap_erase lt k' m) = None"
  using assms
proof (induction m)
  case (Cons p m)
  obtain k'' v'' where p: "p = (k'', v'')" by (cases p)
  show ?case
  proof (cases "incomp lt k' k''")
    case True
    then have "incomp lt k k''" using incomp_trans [OF Cons.prems(2)] by blast
    then have "\<forall>x \<in> fst ` set m. lt k x"
      using Cons.prems(1) by (auto simp: p intro: incomp_less_less)
    then show ?thesis using True Cons.prems(1) by (simp add: p find_none)
  next
    case False
    then have "\<not> incomp lt k k''"
      using incomp_trans [of k' k k''] incomp_sym [OF Cons.prems(2)] by blast
    then show ?thesis using False Cons by (simp add: p)
  qed
qed simp

lemma find_erase_other: "\<not> incomp lt k k' \<Longrightarrow> omap_find lt k (omap_erase lt k' m) = omap_find lt k m"
proof (induction m)
  case (Cons p m)
  obtain k'' v'' where p: "p = (k'', v'')" by (cases p)
  have "\<not> incomp lt k k''" if "incomp lt k' k''"
    using Cons.prems incomp_trans [of k k'' k'] incomp_sym [OF that] by blast
  then show ?case using Cons by (auto simp: p)
qed simp

lemmas map_laws = find_set_same find_set_other find_erase_same find_erase_other

end

section \<open>Laws under a strict total order\<close>

locale strict_total = strict_weak +
  assumes total: "x \<noteq> y \<Longrightarrow> lt x y \<or> lt y x"
begin

lemma incomp_eq [simp]: "incomp lt x y \<longleftrightarrow> x = y"
  using total irrefl by (auto simp: incomp_def)

lemma set_insert [simp]: "set (oset_insert lt x ys) = insert x (set ys)"
  by (induction ys) (auto dest: total)

lemma distinct_ordered: "ordered ys \<Longrightarrow> distinct ys"
  by (induction ys) (auto simp: irrefl)

lemma insert_member: "ordered ys \<Longrightarrow> x \<in> set ys \<Longrightarrow> oset_insert lt x ys = ys"
  by (induction ys) (auto simp: irrefl dest: asym)

lemma find_member [simp]: "oset_find lt x ys = (if x \<in> set ys then Some x else None)"
  by (induction ys) auto

lemma hd_insert: "hd (oset_insert lt x ys) = x \<longleftrightarrow> (ys = [] \<or> \<not> lt (hd ys) x)"
  using asym irrefl by (cases ys) (auto dest: total)

lemma ordered_remove1: "ordered ys \<Longrightarrow> ordered (remove1 x ys)"
  by (induction ys) (auto dest: notin_set_remove1 set_remove1_subset [THEN subsetD])

text \<open>Two ordered lists with the same elements are the same list.\<close>

lemma ordered_unique: "ordered xs \<Longrightarrow> ordered ys \<Longrightarrow> set xs = set ys \<Longrightarrow> xs = ys"
proof (induction xs arbitrary: ys)
  case (Cons x xs)
  then obtain y ys' where ys: "ys = y # ys'" by (cases ys) auto
  have "x = y"
    using Cons.prems ys asym by (metis insert_iff list.set(2) sorted_wrt.simps(2))
  moreover have "x \<notin> set xs" "y \<notin> set ys'"
    using Cons.prems(1,2) ys by (auto simp: irrefl)
  ultimately have "set xs = set ys'" using Cons.prems(3) ys by auto
  then show ?case using Cons \<open>x = y\<close> ys by auto
qed simp

end

lemma sorted_wrt_cong_set:
  "sorted_wrt P xs \<Longrightarrow> (\<And>x y. x \<in> set xs \<Longrightarrow> y \<in> set xs \<Longrightarrow> P x y \<Longrightarrow> Q x y) \<Longrightarrow> sorted_wrt Q xs"
  by (induction xs) auto

end
