(* ===== verification/Timer.thy ===== *)
theory Timer
  imports StdOrdered
begin

text \<open>
  The timers of \<^verbatim>\<open>src/src/timer.cc\<close> and \<^verbatim>\<open>src/include/timer.h\<close>. Timer objects are
  shared between the manager and its clients, so they live in a store and are named by their
  address; the queue \<open>m_timers\<close> is the list of addresses in comparator order. Milliseconds are
  64-bit words with the wrap-around of \<open>uint64_t\<close>. The clock (\<open>GetCurrentMS\<close>) and the
  address that \<open>new\<close> returns are arguments. Each operation is modelled as the critical section
  that its lock makes of it; the call of \<open>onTimerInsertedAtFront\<close> is returned as a flag.
\<close>

section \<open>Data\<close>

text \<open>
  A callback is the user's function, or the binding of \<open>OnTimer\<close> that
  \<open>addConditionTimer\<close> makes of it and of a weak pointer.
\<close>

datatype 'cb callback = Direct 'cb | Guarded nat 'cb

record 'cb timer =
  t_recurring :: bool
  t_ms :: u64
  t_next :: u64
  t_cb :: "'cb callback option"

record 'cb timer_manager =
  tm_store :: "nat \<Rightarrow> 'cb timer option"
  m_timers :: "nat list"
  m_tickled :: bool
  m_previousTime :: u64

text \<open>\<open>m_timers.erase(m_timers.end())\<close> is undefined; so is following a dangling pointer.\<close>

datatype timer_error = EraseEnd | BadTimer

section \<open>The comparator\<close>

definition next_of :: "(nat \<Rightarrow> 'cb timer option) \<Rightarrow> nat \<Rightarrow> u64" where
  "next_of st a = (case st a of None \<Rightarrow> 0 | Some t \<Rightarrow> t_next t)"

text \<open>\<open>Timer::Comparator\<close>, on possibly null pointers.\<close>

fun Comparator :: "(nat \<Rightarrow> 'cb timer option) \<Rightarrow> nat option \<Rightarrow> nat option \<Rightarrow> bool" where
  "Comparator st None None = False"
| "Comparator st None (Some r) = True"
| "Comparator st (Some l) None = False"
| "Comparator st (Some l) (Some r) =
     (if next_of st l < next_of st r then True
      else if next_of st r < next_of st l then False
      else l < r)"

definition timer_lt :: "(nat \<Rightarrow> 'cb timer option) \<Rightarrow> nat \<Rightarrow> nat \<Rightarrow> bool" where
  "timer_lt st a b = Comparator st (Some a) (Some b)"

section \<open>Construction and insertion\<close>

definition TimerManager_new :: "u64 \<Rightarrow> 'cb timer_manager" where
  "TimerManager_new now = \<lparr>tm_store = Map.empty, m_timers = [], m_tickled = False, m_previousTime = now\<rparr>"

definition Timer_new :: "u64 \<Rightarrow> u64 \<Rightarrow> 'cb callback option \<Rightarrow> bool \<Rightarrow> 'cb timer" where
  "Timer_new now ms cb recurring = \<lparr>t_recurring = recurring, t_ms = ms, t_next = now + ms, t_cb = cb\<rparr>"

definition Timer_at :: "u64 \<Rightarrow> 'cb timer" where
  "Timer_at next_ms = \<lparr>t_recurring = False, t_ms = 0, t_next = next_ms, t_cb = None\<rparr>"

text \<open>
  \<open>TimerManager::addTimer(Timer::ptr, WriteLock&)\<close>: the flag says whether
  \<open>onTimerInsertedAtFront\<close> is called.
\<close>

definition insertTimer :: "'cb timer_manager \<Rightarrow> nat \<Rightarrow> 'cb timer_manager \<times> bool" where
  "insertTimer m val =
     (let ts = oset_insert (timer_lt (tm_store m)) val (m_timers m);
          at_front = (ts \<noteq> [] \<and> hd ts = val) \<and> \<not> m_tickled m
      in (m\<lparr>m_timers := ts, m_tickled := (if at_front then True else m_tickled m)\<rparr>, at_front))"

text \<open>\<open>addTimer(ms, cb, recurring)\<close>, with the address of the new object.\<close>

definition addTimer :: "'cb timer_manager \<Rightarrow> nat \<Rightarrow> u64 \<Rightarrow> u64 \<Rightarrow> 'cb callback option \<Rightarrow> bool \<Rightarrow>
    'cb timer_manager \<times> bool" where
  "addTimer m addr now ms cb recurring =
     insertTimer (m\<lparr>tm_store := (tm_store m)(addr \<mapsto> Timer_new now ms cb recurring)\<rparr>) addr"

text \<open>\<open>OnTimer\<close> and \<open>addConditionTimer\<close>.\<close>

fun run_callback :: "(nat \<Rightarrow> bool) \<Rightarrow> 'cb callback \<Rightarrow> 'cb list" where
  "run_callback alive (Direct cb) = [cb]"
| "run_callback alive (Guarded weak_cond cb) = (if alive weak_cond then [cb] else [])"

definition addConditionTimer :: "'cb timer_manager \<Rightarrow> nat \<Rightarrow> u64 \<Rightarrow> u64 \<Rightarrow> 'cb \<Rightarrow> nat \<Rightarrow> bool \<Rightarrow>
    'cb timer_manager \<times> bool" where
  "addConditionTimer m addr now ms cb weak_cond recurring =
     addTimer m addr now ms (Some (Guarded weak_cond cb)) recurring"

section \<open>Operations on a timer\<close>

definition cancel :: "'cb timer_manager \<Rightarrow> nat \<Rightarrow> timer_error + 'cb timer_manager \<times> bool" where
  "cancel m a =
     (case tm_store m a of None \<Rightarrow> Inl BadTimer
      | Some t \<Rightarrow>
        if t_cb t \<noteq> None then
          let st = (tm_store m)(a \<mapsto> t\<lparr>t_cb := None\<rparr>) in
          (case oset_find (timer_lt st) a (m_timers m) of
             None \<Rightarrow> Inl EraseEnd
           | Some b \<Rightarrow> Inr (m\<lparr>tm_store := st, m_timers := remove1 b (m_timers m)\<rparr>, True))
        else Inr (m, False))"

definition refresh :: "'cb timer_manager \<Rightarrow> nat \<Rightarrow> u64 \<Rightarrow> timer_error + 'cb timer_manager \<times> bool" where
  "refresh m a now =
     (case tm_store m a of None \<Rightarrow> Inl BadTimer
      | Some t \<Rightarrow>
        if t_cb t = None then Inr (m, False)
        else (case oset_find (timer_lt (tm_store m)) a (m_timers m) of
           None \<Rightarrow> Inr (m, False)
         | Some b \<Rightarrow>
            let ts = remove1 b (m_timers m);
                st = (tm_store m)(a \<mapsto> t\<lparr>t_next := now + t_ms t\<rparr>)
            in Inr (m\<lparr>tm_store := st, m_timers := oset_insert (timer_lt st) a ts\<rparr>, True)))"

text \<open>
  \<open>reset(ms, from_now)\<close>; the second flag is the call of \<open>onTimerInsertedAtFront\<close>. Its first test is made before the
  lock is taken, so other calls can come between the test and the part under the lock.
\<close>

definition reset_locked :: "'cb timer_manager \<Rightarrow> nat \<Rightarrow> u64 \<Rightarrow> u64 \<Rightarrow> bool \<Rightarrow>
    timer_error + 'cb timer_manager \<times> bool \<times> bool" where
  "reset_locked m a now ms from_now =
     (case tm_store m a of None \<Rightarrow> Inl BadTimer
      | Some t \<Rightarrow>
        if t_cb t = None then Inr (m, False, False)
        else (case oset_find (timer_lt (tm_store m)) a (m_timers m) of
           None \<Rightarrow> Inr (m, False, False)
         | Some b \<Rightarrow>
            let ts = remove1 b (m_timers m);
                start = (if from_now then now else t_next t - t_ms t);
                st = (tm_store m)(a \<mapsto> t\<lparr>t_ms := ms, t_next := start + ms\<rparr>);
                r = insertTimer (m\<lparr>tm_store := st, m_timers := ts\<rparr>) a
            in Inr (fst r, True, snd r)))"

definition reset :: "'cb timer_manager \<Rightarrow> nat \<Rightarrow> u64 \<Rightarrow> u64 \<Rightarrow> bool \<Rightarrow>
    timer_error + 'cb timer_manager \<times> bool \<times> bool" where
  "reset m a now ms from_now =
     (case tm_store m a of None \<Rightarrow> Inl BadTimer
      | Some t \<Rightarrow>
        if ms = t_ms t \<and> \<not> from_now then Inr (m, True, False)
        else reset_locked m a now ms from_now)"

section \<open>Expiry\<close>

definition hasTimer :: "'cb timer_manager \<Rightarrow> bool" where
  "hasTimer m \<longleftrightarrow> m_timers m \<noteq> []"

text \<open>\<open>getNextTimer\<close>: \<open>~0ull\<close> when there is no timer.\<close>

definition getNextTimer :: "'cb timer_manager \<Rightarrow> u64 \<Rightarrow> 'cb timer_manager \<times> u64" where
  "getNextTimer m now_ms =
     (m\<lparr>m_tickled := False\<rparr>,
      case m_timers m of [] \<Rightarrow> - 1
      | a # _ \<Rightarrow> if next_of (tm_store m) a \<le> now_ms then 0 else next_of (tm_store m) a - now_ms)"

definition detectClockRollover :: "'cb timer_manager \<Rightarrow> u64 \<Rightarrow> 'cb timer_manager \<times> bool" where
  "detectClockRollover m now_ms =
     (m\<lparr>m_previousTime := now_ms\<rparr>,
      now_ms < m_previousTime m \<and> now_ms < m_previousTime m - 60 * 60 * 1000)"

text \<open>
  The loop over the expired timers: it collects the callbacks, puts recurring timers back and
  clears the callback of the others.
\<close>

fun fire_all :: "u64 \<Rightarrow> nat list \<Rightarrow> 'cb timer_manager \<Rightarrow> 'cb timer_manager \<times> 'cb callback option list" where
  "fire_all now_ms [] m = (m, [])"
| "fire_all now_ms (a # as) m =
     (case tm_store m a of None \<Rightarrow> fire_all now_ms as m
      | Some t \<Rightarrow>
         let m' = (if t_recurring t
                   then let st = (tm_store m)(a \<mapsto> t\<lparr>t_next := now_ms + t_ms t\<rparr>)
                        in m\<lparr>tm_store := st, m_timers := oset_insert (timer_lt st) a (m_timers m)\<rparr>
                   else m\<lparr>tm_store := (tm_store m)(a \<mapsto> t\<lparr>t_cb := None\<rparr>)\<rparr>);
             r = fire_all now_ms as m'
         in (fst r, t_cb t # snd r))"

text \<open>
  The iterator \<open>it\<close>: \<open>end()\<close> after a rollover, else \<open>lower_bound(now_timer)\<close> moved on over
  the timers that are due exactly now. \<open>tmp\<close> is the address of \<open>now_timer\<close>, which takes part in
  the comparison.
\<close>

definition expired_prefix :: "'cb timer_manager \<Rightarrow> bool \<Rightarrow> u64 \<Rightarrow> nat \<Rightarrow> nat list \<times> nat list" where
  "expired_prefix m rollover now_ms tmp =
     (if rollover then (m_timers m, [])
      else let st = (tm_store m)(tmp \<mapsto> Timer_at now_ms);
               before = oset_below (timer_lt st) tmp (m_timers m);
               rest = oset_from (timer_lt st) tmp (m_timers m)
           in (before @ takeWhile (\<lambda>a. next_of (tm_store m) a = now_ms) rest,
               dropWhile (\<lambda>a. next_of (tm_store m) a = now_ms) rest))"

text \<open>The local vector \<open>expired\<close> of \<open>listExpiredCb\<close> and the timers that stay queued.\<close>

definition expired_split :: "'cb timer_manager \<Rightarrow> u64 \<Rightarrow> nat \<Rightarrow> nat list \<times> nat list" where
  "expired_split m now_ms tmp =
     (if m_timers m = [] then ([], [])
      else let rollover = snd (detectClockRollover m now_ms) in
        if \<not> rollover \<and> now_ms < next_of (tm_store m) (hd (m_timers m)) then ([], m_timers m)
        else expired_prefix m rollover now_ms tmp)"

definition listExpiredCb :: "'cb timer_manager \<Rightarrow> u64 \<Rightarrow> nat \<Rightarrow>
    'cb timer_manager \<times> 'cb callback option list" where
  "listExpiredCb m now_ms tmp =
     (if m_timers m = [] then (m, [])
      else let (expired, rest) = expired_split m now_ms tmp
           in fire_all now_ms expired (fst (detectClockRollover m now_ms)\<lparr>m_timers := rest\<rparr>))"

end
