(* ===== verification/Timer_Queue.thy ===== *)
theory Timer_Queue
  imports Timer
begin

text \<open>
  The timer queue as an ordered set: the comparator of \<^verbatim>\<open>src/src/timer.cc\<close> is a strict total
  order for every store, so the laws of ordered sets hold for it; the invariant of the manager says
  that the queue is in order and holds every timer that still has a callback; every operation keeps
  it, and the expiry loop does what the deadlines say.
\<close>

section \<open>The comparator is a strict total order\<close>

lemma timer_lt_iff:
  "timer_lt st a b \<longleftrightarrow> next_of st a < next_of st b \<or> next_of st a = next_of st b \<and> a < b"
  by (auto simp: timer_lt_def)

interpretation tl: strict_total "timer_lt st" for st :: "nat \<Rightarrow> 'cb timer option"
proof unfold_locales
  fix x y z :: nat
  show "\<not> timer_lt st x x" by (simp add: timer_lt_iff)
  show "timer_lt st x y \<Longrightarrow> timer_lt st y z \<Longrightarrow> timer_lt st x z"
    by (auto simp: timer_lt_iff)
  show "x \<noteq> y \<Longrightarrow> timer_lt st x y \<or> timer_lt st y x"
    by (auto simp: timer_lt_iff)
  show "incomp (timer_lt st) x y \<Longrightarrow> incomp (timer_lt st) y z \<Longrightarrow> incomp (timer_lt st) x z"
    by (auto simp: incomp_def timer_lt_iff)
qed

section \<open>The invariant\<close>

definition tm_inv :: "'cb timer_manager \<Rightarrow> bool" where
  "tm_inv m \<longleftrightarrow> sorted_wrt (timer_lt (tm_store m)) (m_timers m) \<and>
     (\<forall>a \<in> set (m_timers m). tm_store m a \<noteq> None) \<and>
     (\<forall>a t. tm_store m a = Some t \<longrightarrow> t_cb t \<noteq> None \<longrightarrow> a \<in> set (m_timers m))"

lemma tm_inv_flags [simp]:
  "tm_inv (m\<lparr>m_tickled := b\<rparr>) = tm_inv m" "tm_inv (m\<lparr>m_previousTime := p\<rparr>) = tm_inv m"
  by (simp_all add: tm_inv_def)

lemma tm_invD:
  assumes "tm_inv m"
  shows "sorted_wrt (timer_lt (tm_store m)) (m_timers m)" "distinct (m_timers m)"
    "a \<in> set (m_timers m) \<Longrightarrow> \<exists>t. tm_store m a = Some t"
    "tm_store m a = Some t \<Longrightarrow> t_cb t \<noteq> None \<Longrightarrow> a \<in> set (m_timers m)"
  using assms by (auto simp: tm_inv_def intro: tl.distinct_ordered)

text \<open>Changing timers outside a queue does not change its order.\<close>

lemma ordered_store_cong:
  assumes "sorted_wrt (timer_lt st) ts" "\<And>a. a \<in> set ts \<Longrightarrow> next_of st' a = next_of st a"
  shows "sorted_wrt (timer_lt st') ts"
  by (rule sorted_wrt_cong_set [OF assms(1)]) (simp add: timer_lt_iff assms(2))

lemma next_of_upd_other [simp]: "a \<noteq> b \<Longrightarrow> next_of (st(b := v)) a = next_of st a"
  by (simp add: next_of_def)

lemma next_of_upd_same [simp]: "next_of (st(a \<mapsto> t)) a = t_next t"
  by (simp add: next_of_def)

text \<open>Taking a timer out, giving it another deadline and putting it back.\<close>

lemma ordered_rekey:
  assumes "sorted_wrt (timer_lt st) ts" "distinct ts"
  shows "sorted_wrt (timer_lt (st(a \<mapsto> t))) (oset_insert (timer_lt (st(a \<mapsto> t))) a (remove1 a ts))"
proof (rule tl.ordered_insert, rule ordered_store_cong)
  show "sorted_wrt (timer_lt st) (remove1 a ts)" using assms(1) by (rule tl.ordered_remove1)
  show "next_of (st(a \<mapsto> t)) x = next_of st x" if "x \<in> set (remove1 a ts)" for x
    using that assms(2) by (cases "x = a") auto
qed

section \<open>Every operation keeps the invariant\<close>

lemma insertTimer_inv:
  assumes "sorted_wrt (timer_lt (tm_store m)) (m_timers m)" "\<forall>b \<in> set (m_timers m). tm_store m b \<noteq> None"
    "\<forall>b t. tm_store m b = Some t \<longrightarrow> t_cb t \<noteq> None \<longrightarrow> b = a \<or> b \<in> set (m_timers m)" "tm_store m a \<noteq> None"
  shows "tm_inv (fst (insertTimer m a))"
  using assms by (auto simp: tm_inv_def insertTimer_def Let_def intro: tl.ordered_insert)

lemma addTimer_inv:
  assumes "tm_inv m" "tm_store m addr = None"
  shows "tm_inv (fst (addTimer m addr now ms cb recurring))"
proof -
  have "addr \<notin> set (m_timers m)" using assms tm_invD(3) by fastforce
  moreover have "sorted_wrt (timer_lt ((tm_store m)(addr \<mapsto> Timer_new now ms cb recurring))) (m_timers m)"
    by (rule ordered_store_cong [OF tm_invD(1) [OF assms(1)]]) (use calculation in \<open>metis next_of_upd_other\<close>)
  ultimately show ?thesis
    unfolding addTimer_def using assms(1) by (intro insertTimer_inv) (auto simp: tm_inv_def)
qed

text \<open>On a manager that satisfies the invariant \<open>cancel\<close> always finds its timer.\<close>

lemma cancel_inv:
  assumes i: "tm_inv m" and t: "tm_store m a = Some t"
  shows "cancel m a = Inr (if t_cb t = None then (m, False)
      else (m\<lparr>tm_store := (tm_store m)(a \<mapsto> t\<lparr>t_cb := None\<rparr>), m_timers := remove1 a (m_timers m)\<rparr>, True))"
    and "tm_inv (m\<lparr>tm_store := (tm_store m)(a \<mapsto> t\<lparr>t_cb := None\<rparr>), m_timers := remove1 a (m_timers m)\<rparr>)"
proof -
  have "a \<in> set (m_timers m)" if "t_cb t \<noteq> None" using tm_invD(4) [OF i t that] .
  then show "cancel m a = Inr (if t_cb t = None then (m, False)
      else (m\<lparr>tm_store := (tm_store m)(a \<mapsto> t\<lparr>t_cb := None\<rparr>), m_timers := remove1 a (m_timers m)\<rparr>, True))"
    using t by (simp add: cancel_def Let_def)
  have "next_of ((tm_store m)(a \<mapsto> t\<lparr>t_cb := None\<rparr>)) x = next_of (tm_store m) x" for x
    using t by (cases "x = a") (simp_all add: next_of_def)
  then have "sorted_wrt (timer_lt ((tm_store m)(a \<mapsto> t\<lparr>t_cb := None\<rparr>))) (remove1 a (m_timers m))"
    by (intro ordered_store_cong [OF tl.ordered_remove1 [OF tm_invD(1) [OF i]]])
  with i show "tm_inv (m\<lparr>tm_store := (tm_store m)(a \<mapsto> t\<lparr>t_cb := None\<rparr>), m_timers := remove1 a (m_timers m)\<rparr>)"
    using tm_invD(2) [OF i] by (auto simp: tm_inv_def)
qed

lemma cancel_cases:
  assumes "tm_inv m" "cancel m a = Inr (m', b)"
  shows "tm_inv m'"
  using assms cancel_inv [OF assms(1), of a] by (cases "tm_store m a") (auto simp: cancel_def split: if_splits)

lemma rekey_inv:
  assumes i: "tm_inv m" and t: "tm_store m a = Some t" and a: "a \<in> set (m_timers m)"
  shows "tm_inv (m\<lparr>tm_store := (tm_store m)(a \<mapsto> t'),
    m_timers := oset_insert (timer_lt ((tm_store m)(a \<mapsto> t'))) a (remove1 a (m_timers m))\<rparr>)"
  using ordered_rekey [OF tm_invD(1,2) [OF i], of a t'] i a tm_invD(2) [OF i]
  by (auto simp: tm_inv_def)

lemma refresh_cases:
  assumes "tm_inv m" "refresh m a now = Inr (m', b)"
  shows "tm_inv m'"
proof (cases "tm_store m a")
  case None
  with assms(2) show ?thesis by (simp add: refresh_def)
next
  case (Some t)
  with assms rekey_inv [OF assms(1) Some, of "t\<lparr>t_next := now + t_ms t\<rparr>"] show ?thesis
    by (auto simp: refresh_def Let_def split: if_splits)
qed

lemma reset_locked_cases:
  assumes "tm_inv m" "reset_locked m a now ms from_now = Inr (m', b, c)"
  shows "tm_inv m'"
proof (cases "tm_store m a")
  case None
  with assms(2) show ?thesis by (simp add: reset_locked_def)
next
  case (Some t)
  let ?t = "t\<lparr>t_ms := ms, t_next := (if from_now then now else t_next t - t_ms t) + ms\<rparr>"
  from assms Some rekey_inv [OF assms(1) Some, of ?t] show ?thesis
    by (auto simp: reset_locked_def insertTimer_def Let_def split: if_splits)
qed

lemma reset_cases: "tm_inv m \<Longrightarrow> reset m a now ms from_now = Inr (m', b, c) \<Longrightarrow> tm_inv m'"
  using reset_locked_cases by (auto simp: reset_def split: option.splits if_splits)

section \<open>The expiry loop\<close>

definition fired :: "u64 \<Rightarrow> 'cb timer \<Rightarrow> 'cb timer" where
  "fired now_ms t = (if t_recurring t then t\<lparr>t_next := now_ms + t_ms t\<rparr> else t\<lparr>t_cb := None\<rparr>)"

definition is_recurring :: "'cb timer_manager \<Rightarrow> nat \<Rightarrow> bool" where
  "is_recurring m a = (case tm_store m a of None \<Rightarrow> False | Some t \<Rightarrow> t_recurring t)"

definition cb_of :: "'cb timer_manager \<Rightarrow> nat \<Rightarrow> 'cb callback option" where
  "cb_of m a = (case tm_store m a of None \<Rightarrow> None | Some t \<Rightarrow> t_cb t)"

lemma fire_all_correct:
  fixes now_ms :: u64
  assumes "distinct as" "\<forall>a \<in> set as. tm_store m a \<noteq> None" "set as \<inter> set (m_timers m) = {}"
    "sorted_wrt (timer_lt (tm_store m)) (m_timers m)"
  defines "r \<equiv> fire_all now_ms as m"
  shows "snd r = map (cb_of m) as \<and>
    tm_store (fst r) = (\<lambda>a. if a \<in> set as then map_option (fired now_ms) (tm_store m a) else tm_store m a) \<and>
    set (m_timers (fst r)) = set (m_timers m) \<union> {a \<in> set as. is_recurring m a} \<and>
    sorted_wrt (timer_lt (tm_store (fst r))) (m_timers (fst r)) \<and>
    m_tickled (fst r) = m_tickled m \<and> m_previousTime (fst r) = m_previousTime m"
  using assms(1-4) unfolding r_def
proof (induction as arbitrary: m)
  case (Cons a as)
  then obtain t where t: "tm_store m a = Some t" by auto
  have a: "a \<notin> set as" "a \<notin> set (m_timers m)" using Cons.prems by auto
  let ?st = "(tm_store m)(a \<mapsto> fired now_ms t)"
  let ?m = "m\<lparr>tm_store := ?st,
     m_timers := (if t_recurring t then oset_insert (timer_lt ?st) a (m_timers m) else m_timers m)\<rparr>"
  have step: "fire_all now_ms (a # as) m = (fst (fire_all now_ms as ?m), t_cb t # snd (fire_all now_ms as ?m))"
    by (simp add: t fired_def Let_def)
  have "sorted_wrt (timer_lt ?st) (m_timers m)"
    using Cons.prems(4) by (rule ordered_store_cong) (metis a(2) next_of_upd_other)
  then have o: "sorted_wrt (timer_lt (tm_store ?m)) (m_timers ?m)"
    by (auto intro: tl.ordered_insert)
  have "distinct as" "\<forall>b \<in> set as. tm_store ?m b \<noteq> None" "set as \<inter> set (m_timers ?m) = {}"
    using Cons.prems a by auto
  note IH = Cons.IH [OF this o]
  have same: "map (cb_of ?m) as = map (cb_of m) as" "{b \<in> set as. is_recurring ?m b} = {b \<in> set as. is_recurring m b}"
    using a(1) by (auto simp: cb_of_def is_recurring_def)
  have rec: "{b \<in> set (a # as). is_recurring m b} =
      (if t_recurring t then {a} else {}) \<union> {b \<in> set as. is_recurring m b}"
    using t by (auto simp: is_recurring_def)
  show ?case
  proof (intro conjI)
    show "snd (fire_all now_ms (a # as) m) = map (cb_of m) (a # as)"
    proof -
      have "snd (fire_all now_ms as ?m) = map (cb_of m) as" using IH same(1) by metis
      then show ?thesis unfolding step snd_conv using t by (simp add: cb_of_def)
    qed
    have "tm_store (fst (fire_all now_ms as ?m)) b =
        (if b \<in> set (a # as) then map_option (fired now_ms) (tm_store m b) else tm_store m b)" for b
      using IH a(1) t by auto
    then show "tm_store (fst (fire_all now_ms (a # as) m)) =
        (\<lambda>b. if b \<in> set (a # as) then map_option (fired now_ms) (tm_store m b) else tm_store m b)"
      unfolding step fst_conv by (rule ext)
    have "set (m_timers (fst (fire_all now_ms as ?m))) = set (m_timers ?m) \<union> {b \<in> set as. is_recurring m b}"
      using IH same(2) by metis
    then show "set (m_timers (fst (fire_all now_ms (a # as) m))) =
        set (m_timers m) \<union> {b \<in> set (a # as). is_recurring m b}"
      unfolding step fst_conv rec by auto
    show "sorted_wrt (timer_lt (tm_store (fst (fire_all now_ms (a # as) m)))) (m_timers (fst (fire_all now_ms (a # as) m)))"
      unfolding step fst_conv using IH by (elim conjE)
    show "m_tickled (fst (fire_all now_ms (a # as) m)) = m_tickled m"
      "m_previousTime (fst (fire_all now_ms (a # as) m)) = m_previousTime m"
      using IH unfolding step fst_conv by simp_all
  qed
qed auto

section \<open>Which timers expire\<close>

definition due :: "'cb timer_manager \<Rightarrow> u64 \<Rightarrow> nat \<Rightarrow> bool" where
  "due m now_ms a \<longleftrightarrow> next_of (tm_store m) a \<le> now_ms"

lemma filter_split:
  "(\<forall>a \<in> set P. p a) \<Longrightarrow> (\<forall>a \<in> set R. \<not> p a) \<Longrightarrow> filter p (P @ R) = P \<and> filter (Not \<circ> p) (P @ R) = R"
  by (auto simp: filter_empty_conv)

text \<open>
  The range from \<open>begin()\<close> to the iterator is the set of timers that are due, whatever the address
  of the temporary \<open>now_timer\<close> is.
\<close>

lemma expired_prefix_due:
  assumes i: "tm_inv m" and tmp: "tm_store m tmp = None"
  shows "expired_prefix m False now_ms tmp =
    (filter (due m now_ms) (m_timers m), filter (Not \<circ> due m now_ms) (m_timers m))"
proof -
  let ?st = "(tm_store m)(tmp \<mapsto> Timer_at now_ms)" and ?xs = "m_timers m"
  let ?B = "oset_below (timer_lt ?st) tmp ?xs" and ?F = "oset_from (timer_lt ?st) tmp ?xs"
  let ?eq = "\<lambda>a. next_of (tm_store m) a = now_ms"
  let ?P = "?B @ takeWhile ?eq ?F" and ?R = "dropWhile ?eq ?F"
  have split: "?P @ ?R = ?xs" by (simp add: tl.below_from)
  have notin: "tmp \<notin> set ?xs" using tm_invD(3) [OF i] tmp by fastforce
  have nxt: "next_of ?st a = next_of (tm_store m) a" if "a \<in> set ?xs" for a
    using that notin by (metis next_of_upd_other)
  have tmp_next: "next_of ?st tmp = now_ms" by (simp add: Timer_at_def)
  have ord: "sorted_wrt (timer_lt ?st) ?xs"
    using tm_invD(1) [OF i] nxt by (rule ordered_store_cong)
  have sub: "set ?B \<subseteq> set ?xs" "set ?F \<subseteq> set ?xs"
    by (metis set_append sup_ge1 sup_ge2 tl.below_from)+
  have B: "due m now_ms a" if "a \<in> set ?B" for a
    using tl.below_less [OF that] nxt [of a] sub(1) that tmp_next by (auto simp: due_def timer_lt_iff)
  have F: "now_ms \<le> next_of (tm_store m) a" if "a \<in> set ?F" for a
    using tl.from_not_less [OF ord that] nxt [of a] sub(2) that tmp_next by (auto simp: timer_lt_iff)
  have P: "\<forall>a \<in> set ?P. due m now_ms a"
    using B by (auto simp: due_def dest: set_takeWhileD)
  have R: "\<forall>a \<in> set ?R. \<not> due m now_ms a"
  proof (cases ?R)
    case (Cons b R')
    have "b \<in> set ?R" unfolding Cons by simp
    then have bF: "b \<in> set ?F" by (rule set_dropWhileD)
    have "?R \<noteq> []" unfolding Cons by simp
    from hd_dropWhile [OF this] have b: "next_of (tm_store m) b \<noteq> now_ms" unfolding Cons by simp
    then have gt: "now_ms < next_of (tm_store m) b" using F [OF bF] by simp
    have "sorted_wrt (timer_lt ?st) (?P @ b # R')" using ord split Cons by simp
    then have "\<forall>c \<in> set R'. timer_lt ?st b c" by (simp add: sorted_wrt_append)
    moreover have "c \<in> set ?xs" if "c \<in> set (b # R')" for c
      using that split Cons by (metis Un_iff set_append)
    ultimately have "\<forall>c \<in> set R'. next_of (tm_store m) b \<le> next_of (tm_store m) c"
      using nxt by (auto simp: timer_lt_iff)
    with gt show ?thesis unfolding Cons by (auto simp: due_def)
  next
    case Nil
    show ?thesis unfolding Nil by simp
  qed
  have "expired_prefix m False now_ms tmp = (?P, ?R)"
    by (simp add: expired_prefix_def Let_def)
  with filter_split [OF P R] split show ?thesis by metis
qed

definition rolls_over :: "'cb timer_manager \<Rightarrow> u64 \<Rightarrow> bool" where
  "rolls_over m now_ms = snd (detectClockRollover m now_ms)"

lemma expired_split_due:
  assumes i: "tm_inv m" and tmp: "tm_store m tmp = None" and r: "\<not> rolls_over m now_ms"
  shows "expired_split m now_ms tmp =
    (filter (due m now_ms) (m_timers m), filter (Not \<circ> due m now_ms) (m_timers m))"
proof (cases "m_timers m")
  case (Cons a as)
  show ?thesis
  proof (cases "now_ms < next_of (tm_store m) a")
    case True
    have "\<forall>b \<in> set as. next_of (tm_store m) a \<le> next_of (tm_store m) b"
      using tm_invD(1) [OF i] Cons by (auto simp: timer_lt_iff)
    with True have nd: "\<forall>b \<in> set (a # as). \<not> due m now_ms b" by (auto simp: due_def)
    then have "filter (due m now_ms) (m_timers m) = []" "filter (Not \<circ> due m now_ms) (m_timers m) = m_timers m"
      using Cons by (auto simp: filter_empty_conv)
    with True r Cons show ?thesis by (simp add: expired_split_def rolls_over_def)
  next
    case False
    with r Cons expired_prefix_due [OF i tmp, of now_ms] show ?thesis
      by (simp add: expired_split_def rolls_over_def)
  qed
qed (simp add: expired_split_def)

lemma expired_split_rollover:
  "rolls_over m now_ms \<Longrightarrow> expired_split m now_ms tmp = (m_timers m, [])"
  by (simp add: expired_split_def rolls_over_def expired_prefix_def)

text \<open>Both kinds of expiry split the queue into two ordered parts.\<close>

lemma expired_split_parts:
  assumes "tm_inv m" "tm_store m tmp = None" "expired_split m now_ms tmp = (E, R)"
  shows "set E \<union> set R = set (m_timers m)" "set E \<inter> set R = {}" "distinct E"
    "sorted_wrt (timer_lt (tm_store m)) E" "sorted_wrt (timer_lt (tm_store m)) R"
proof -
  have o: "sorted_wrt (timer_lt (tm_store m)) (filter p (m_timers m))" for p
    using tm_invD(1) [OF assms(1)] by (rule sorted_wrt_filter)
  have "E = filter (due m now_ms) (m_timers m) \<and> R = filter (Not \<circ> due m now_ms) (m_timers m) \<or>
      E = m_timers m \<and> R = []"
    using expired_split_due [OF assms(1,2), of now_ms] expired_split_rollover [of m now_ms tmp] assms(3)
    by (cases "rolls_over m now_ms") auto
  then show "set E \<union> set R = set (m_timers m)" "set E \<inter> set R = {}" "distinct E"
    "sorted_wrt (timer_lt (tm_store m)) E" "sorted_wrt (timer_lt (tm_store m)) R"
    using tm_invD(2) [OF assms(1)] tm_invD(1) [OF assms(1)] o by auto
qed

section \<open>listExpiredCb\<close>

lemma listExpiredCb_effect:
  fixes now_ms :: u64
  assumes i: "tm_inv m" and tmp: "tm_store m tmp = None" and E: "expired_split m now_ms tmp = (E, R)"
  defines "r \<equiv> listExpiredCb m now_ms tmp"
  shows "snd r = map (cb_of m) E" and
    "tm_store (fst r) = (\<lambda>a. if a \<in> set E then map_option (fired now_ms) (tm_store m a) else tm_store m a)" and
    "set (m_timers (fst r)) = set R \<union> {a \<in> set E. is_recurring m a}" and
    "tm_inv (fst r)"
proof -
  let ?m = "fst (detectClockRollover m now_ms)\<lparr>m_timers := R\<rparr>"
  note parts = expired_split_parts [OF i tmp E]
  have "\<forall>a \<in> set E. tm_store ?m a \<noteq> None" using parts(1) i by (auto simp: detectClockRollover_def tm_inv_def)
  from fire_all_correct [OF parts(3) this, of now_ms] parts
  have f: "snd (fire_all now_ms E ?m) = map (cb_of ?m) E"
    "tm_store (fst (fire_all now_ms E ?m)) = (\<lambda>a. if a \<in> set E then map_option (fired now_ms) (tm_store m a) else tm_store m a)"
    "set (m_timers (fst (fire_all now_ms E ?m))) = set R \<union> {a \<in> set E. is_recurring ?m a}"
    "sorted_wrt (timer_lt (tm_store (fst (fire_all now_ms E ?m)))) (m_timers (fst (fire_all now_ms E ?m)))"
    by (auto simp: detectClockRollover_def)
  have same: "cb_of ?m = cb_of m" "is_recurring ?m = is_recurring m"
    by (auto simp: cb_of_def is_recurring_def detectClockRollover_def)
  have r: "r = (if m_timers m = [] then (m, []) else fire_all now_ms E ?m)"
    unfolding r_def by (simp add: listExpiredCb_def E)
  have empty: "E = [] \<and> R = []" if "m_timers m = []" using parts(1) that by simp
  show 1: "snd r = map (cb_of m) E" using r f(1) same empty by auto
  show 2: "tm_store (fst r) = (\<lambda>a. if a \<in> set E then map_option (fired now_ms) (tm_store m a) else tm_store m a)"
    using r f(2) empty by auto
  show 3: "set (m_timers (fst r)) = set R \<union> {a \<in> set E. is_recurring m a}"
    using r f(3) same empty by auto
  have "sorted_wrt (timer_lt (tm_store (fst r))) (m_timers (fst r))"
    using r f(4) tm_invD(1) [OF i] by auto
  moreover have "tm_store (fst r) a \<noteq> None" if "a \<in> set (m_timers (fst r))" for a
    using that 2 3 parts(1) i by (auto simp: tm_inv_def)
  moreover have "a \<in> set (m_timers (fst r))" if live: "tm_store (fst r) a = Some t" "t_cb t \<noteq> None" for a t
  proof (cases "a \<in> set E")
    case True
    then obtain t0 where t0: "tm_store m a = Some t0" "t = fired now_ms t0"
      using live(1) fun_cong [OF 2, of a] True by (cases "tm_store m a") auto
    then have "t_recurring t0" using live(2) by (auto simp: fired_def split: if_splits)
    with True t0 3 show ?thesis by (simp add: is_recurring_def)
  next
    case False
    then have "a \<in> set (m_timers m)" using live 2 tm_invD(4) [OF i] by auto
    with False 3 parts(1) show ?thesis by auto
  qed
  ultimately show "tm_inv (fst r)" by (auto simp: tm_inv_def)
qed

end
