(* ===== verification/Timer_Spec.thy ===== *)
theory Timer_Spec
  imports Timer_Queue
begin

text \<open>
  What the timer manager promises. \<open>tm_step\<close> is one call by any client, with the list of
  timers whose callbacks it hands out; \<open>tm_run\<close> is a sequence of calls. The safety
  properties are invariants of these runs, the functional ones are equations about single calls.
  An address is never reused for a new timer while the store still knows it, as it is in the program
  while a client holds the \<open>shared_ptr\<close>.
\<close>

section \<open>Calls and runs\<close>

inductive tm_step :: "'cb timer_manager \<Rightarrow> nat list \<Rightarrow> 'cb timer_manager \<Rightarrow> bool" where
  step_add: "tm_store m addr = None \<Longrightarrow> tm_step m [] (fst (addTimer m addr now ms cb recurring))"
| step_cancel: "cancel m a = Inr (m', b) \<Longrightarrow> tm_step m [] m'"
| step_refresh: "refresh m a now = Inr (m', b) \<Longrightarrow> tm_step m [] m'"
| step_reset: "reset m a now ms from_now = Inr (m', b, c) \<Longrightarrow> tm_step m [] m'"
| step_reset_locked: "reset_locked m a now ms from_now = Inr (m', b, c) \<Longrightarrow> tm_step m [] m'"
| step_next: "tm_step m [] (fst (getNextTimer m now))"
| step_expire: "tm_store m tmp = None \<Longrightarrow> expired_split m now tmp = (E, R) \<Longrightarrow>
    tm_step m E (fst (listExpiredCb m now tmp))"

inductive tm_run :: "'cb timer_manager \<Rightarrow> nat list \<Rightarrow> 'cb timer_manager \<Rightarrow> bool" where
  run_nil: "tm_run m [] m"
| run_step: "tm_step m f m1 \<Longrightarrow> tm_run m1 g m2 \<Longrightarrow> tm_run m (f @ g) m2"

lemma tm_step_inv: "tm_step m f m' \<Longrightarrow> tm_inv m \<Longrightarrow> tm_inv m'"
proof (induction rule: tm_step.induct)
  case (step_expire m tmp now E R)
  then show ?case using listExpiredCb_effect(4) by blast
qed (auto intro: addTimer_inv cancel_cases refresh_cases reset_cases reset_locked_cases simp: getNextTimer_def)

lemma tm_run_inv: "tm_run m f m' \<Longrightarrow> tm_inv m \<Longrightarrow> tm_inv m'"
  by (induction rule: tm_run.induct) (auto dest: tm_step_inv)

lemma tm_inv_new: "tm_inv (TimerManager_new now)"
  by (simp add: tm_inv_def TimerManager_new_def)

section \<open>Timers without a callback stay out\<close>

definition dead :: "'cb timer_manager \<Rightarrow> nat \<Rightarrow> bool" where
  "dead m a \<longleftrightarrow> (\<exists>t. tm_store m a = Some t \<and> t_cb t = None) \<and> a \<notin> set (m_timers m)"

lemma dead_insert_other:
  "dead m a \<Longrightarrow> a \<noteq> b \<Longrightarrow> dead (fst (insertTimer (m\<lparr>tm_store := (tm_store m)(b \<mapsto> t), m_timers := ts\<rparr>) b)) a
     \<longleftrightarrow> a \<notin> set ts"
  by (auto simp: dead_def insertTimer_def Let_def)

lemma tm_step_dead: "tm_step m f m' \<Longrightarrow> tm_inv m \<Longrightarrow> dead m a \<Longrightarrow> dead m' a \<and> a \<notin> set f"
proof (induction rule: tm_step.induct)
  case (step_add m addr now ms cb recurring)
  then have "a \<noteq> addr" by (auto simp: dead_def)
  then show ?case using step_add by (auto simp: dead_def addTimer_def insertTimer_def Let_def)
next
  case (step_cancel m b m' r)
  then show ?case
    using cancel_inv(1) [OF step_cancel.prems(1), of b]
    by (cases "tm_store m b") (auto simp: cancel_def dead_def split: if_splits dest: notin_set_remove1)
next
  case (step_refresh m b now m' r)
  then show ?case
    by (auto simp: refresh_def dead_def Let_def split: option.splits if_splits dest: notin_set_remove1)
next
  case (step_reset m b now ms from_now m' r c)
  then show ?case
    by (auto simp: reset_def reset_locked_def dead_def insertTimer_def Let_def split: option.splits if_splits
        dest: notin_set_remove1)
next
  case (step_reset_locked m b now ms from_now m' r c)
  then show ?case
    by (auto simp: reset_locked_def dead_def insertTimer_def Let_def split: option.splits if_splits
        dest: notin_set_remove1)
next
  case (step_next m now)
  then show ?case by (simp add: getNextTimer_def dead_def)
next
  case (step_expire m tmp now E R)
  note eff = listExpiredCb_effect [OF step_expire.prems(1) step_expire.hyps]
  have "a \<notin> set E" "a \<notin> set R"
    using expired_split_parts(1) [OF step_expire.prems(1) step_expire.hyps] step_expire.prems(2)
    by (auto simp: dead_def)
  with eff(2,3) step_expire.prems(2) show ?case by (auto simp: dead_def)
qed

lemma tm_run_dead: "tm_run m f m' \<Longrightarrow> tm_inv m \<Longrightarrow> dead m a \<Longrightarrow> dead m' a \<and> a \<notin> set f"
proof (induction rule: tm_run.induct)
  case (run_step m f m1 g m2)
  then show ?case using tm_step_dead [of m f m1 a] tm_step_inv [of m f m1] by auto
qed simp

section \<open>Properties\<close>

text \<open>
  C31: Whatever sequence of calls is made on a new timer manager, the queue stays in deadline order,
  and cancelling any timer that exists never erases the end iterator: it succeeds, and returns
  whether the timer still had a callback.
\<close>

theorem timer_cancel_defined:
  assumes "tm_run (TimerManager_new t0) f m" and "tm_store m a = Some t"
  shows "tm_inv m \<and> (\<exists>m'. cancel m a = Inr (m', t_cb t \<noteq> None) \<and> tm_inv m')"
proof -
  have i: "tm_inv m" using tm_run_inv [OF assms(1) tm_inv_new] .
  from cancel_inv [OF i assms(2)] i show ?thesis by (cases "t_cb t = None") auto
qed

lemma example_run:
  "tm_run (TimerManager_new 0) [] (fst (addTimer (TimerManager_new 0) 1 10 5 (Some (Direct ())) False))"
  using run_step [OF step_add run_nil, of "TimerManager_new 0" 1 10 5 "Some (Direct ())" False]
  by (simp add: TimerManager_new_def)

theorem timer_cancel_defined_witness:
  "tm_inv (fst (addTimer (TimerManager_new 0) 1 10 5 (Some (Direct ())) False)) \<and>
   (\<exists>m'. cancel (fst (addTimer (TimerManager_new 0) 1 10 5 (Some (Direct ())) False)) 1 = Inr (m', True) \<and> tm_inv m')"
  using timer_cancel_defined [OF example_run, of 1 "Timer_new 10 5 (Some (Direct ())) False"]
  by (simp add: addTimer_def insertTimer_def Timer_new_def Let_def)

text \<open>
  C5: A timer that has been cancelled never fires again, whatever calls follow (its own
  \<open>refresh\<close> and \<open>reset\<close> included), and it never returns to the queue.
\<close>

theorem cancelled_timer_never_fires:
  assumes "tm_inv m" and "cancel m a = Inr (m1, True)" and "tm_run m1 f m2"
  shows "a \<notin> set f \<and> a \<notin> set (m_timers m2)"
proof -
  obtain t where t: "tm_store m a = Some t" using assms(2) by (cases "tm_store m a") (auto simp: cancel_def)
  then have "t_cb t \<noteq> None" using assms(2) by (auto simp: cancel_def split: if_splits)
  with cancel_inv [OF assms(1) t] assms(2)
  have m1: "m1 = m\<lparr>tm_store := (tm_store m)(a \<mapsto> t\<lparr>t_cb := None\<rparr>), m_timers := remove1 a (m_timers m)\<rparr>"
    "tm_inv m1" by auto
  then have "dead m1 a" using tm_invD(2) [OF assms(1)] by (simp add: dead_def)
  from tm_run_dead [OF assms(3) m1(2) this] show ?thesis by (auto simp: dead_def)
qed

theorem cancelled_timer_never_fires_witness:
  "\<exists>m1 m2. cancel (fst (addTimer (TimerManager_new 0) 1 10 5 (Some (Direct ())) False)) 1 = Inr (m1, True) \<and>
     m2 = fst (getNextTimer m1 20) \<and> 1 \<notin> set (m_timers m2)"
proof -
  let ?m = "fst (addTimer (TimerManager_new 0) 1 10 5 (Some (Direct ())) False)"
  have "tm_inv ?m" by (rule addTimer_inv) (auto simp: tm_inv_new, simp add: TimerManager_new_def)
  moreover obtain m1 where m1: "cancel ?m 1 = Inr (m1, True)"
    by (simp add: addTimer_def insertTimer_def Timer_new_def cancel_def Let_def TimerManager_new_def)
  moreover have "tm_run m1 ([] @ []) (fst (getNextTimer m1 20))" by (rule run_step [OF step_next run_nil])
  ultimately show ?thesis using cancelled_timer_never_fires [of ?m 1 m1] by blast
qed

text \<open>
  C4: Without a clock rollover \<open>listExpiredCb\<close> returns the callbacks of exactly the timers
  whose deadline is not after the current time, in the order of their deadlines; recurring ones are
  queued again one period after the current time, the others lose their callback and leave the queue,
  and no other timer changes. The address of the temporary timer it compares with does not matter.
\<close>

theorem listExpiredCb_exact:
  assumes "tm_inv m" and "tm_store m tmp = None" and "\<not> rolls_over m now_ms"
  shows "snd (listExpiredCb m now_ms tmp) = map (cb_of m) (filter (due m now_ms) (m_timers m)) \<and>
    tm_store (fst (listExpiredCb m now_ms tmp)) =
      (\<lambda>a. if a \<in> set (m_timers m) \<and> due m now_ms a then map_option (fired now_ms) (tm_store m a)
           else tm_store m a) \<and>
    set (m_timers (fst (listExpiredCb m now_ms tmp))) =
      {a \<in> set (m_timers m). \<not> due m now_ms a \<or> is_recurring m a} \<and>
    tm_inv (fst (listExpiredCb m now_ms tmp))"
proof -
  note eff = listExpiredCb_effect [OF assms(1,2) expired_split_due [OF assms]]
  show ?thesis using eff by (auto simp: fun_eq_iff)
qed

theorem listExpiredCb_exact_witness:
  "snd (listExpiredCb (fst (addTimer (TimerManager_new 0) 1 10 5 (Some (Direct ())) False)) 20 7) =
     map (cb_of (fst (addTimer (TimerManager_new 0) 1 10 5 (Some (Direct ())) False))) [1]"
proof -
  let ?m = "fst (addTimer (TimerManager_new 0) 1 10 5 (Some (Direct ())) False)"
  have "tm_inv ?m" by (rule addTimer_inv) (auto simp: tm_inv_new, simp add: TimerManager_new_def)
  moreover have "tm_store ?m 7 = None" "\<not> rolls_over ?m 20" "filter (due ?m 20) (m_timers ?m) = [1]"
    by (simp_all add: addTimer_def insertTimer_def Timer_new_def Let_def TimerManager_new_def
        rolls_over_def detectClockRollover_def due_def next_of_def)
  ultimately show ?thesis using listExpiredCb_exact [of ?m 7 20] by simp
qed

text \<open>
  C6: The delay that \<open>getNextTimer\<close> reports is exact. With timers in the queue, expiring once
  the clock has moved on by that delay fires at least one timer, and expiring earlier fires none.
\<close>

theorem getNextTimer_exact:
  assumes "tm_inv m" and "m_timers m \<noteq> []" and "getNextTimer m now_ms = (m1, d)"
    and "tm_store m tmp = None" and "now_ms \<le> later" and "\<not> rolls_over m later"
  shows "(unat now_ms + unat d \<le> unat later \<longrightarrow> snd (listExpiredCb m1 later tmp) \<noteq> []) \<and>
    (unat later < unat now_ms + unat d \<longrightarrow> snd (listExpiredCb m1 later tmp) = [])"
proof -
  have m1: "m1 = m\<lparr>m_tickled := False\<rparr>" using assms(3) by (simp add: getNextTimer_def)
  obtain a as where as: "m_timers m = a # as" using assms(2) by (cases "m_timers m") auto
  let ?n = "next_of (tm_store m) a"
  have d: "d = (if ?n \<le> now_ms then 0 else ?n - now_ms)"
    using assms(3) as by (simp add: getNextTimer_def)
  have "tm_inv m1" "tm_store m1 tmp = None" "\<not> rolls_over m1 later"
    using assms m1 by (simp_all add: rolls_over_def detectClockRollover_def)
  from listExpiredCb_exact [OF this]
  moreover have "due m1 later = due m later" by (auto simp: due_def fun_eq_iff m1)
  ultimately have cbs: "snd (listExpiredCb m1 later tmp) = map (cb_of m1) (filter (due m later) (m_timers m))"
    by (simp add: m1)
  have min: "\<forall>b \<in> set as. ?n \<le> next_of (tm_store m) b"
    using tm_invD(1) [OF assms(1)] as by (auto simp: timer_lt_iff)
  have sum: "unat now_ms + unat d = (if ?n \<le> now_ms then unat now_ms else unat ?n)"
    using d by (auto simp: unat_sub word_le_nat_alt)
  have "due m later a" if "unat now_ms + unat d \<le> unat later"
    using that sum assms(5) by (auto simp: due_def word_le_nat_alt split: if_splits)
  moreover have "\<not> due m later b" if l: "unat later < unat now_ms + unat d" and b: "b \<in> set (m_timers m)" for b
  proof -
    have "later < ?n" using l sum assms(5) by (auto simp: word_less_nat_alt word_le_nat_alt split: if_splits)
    moreover have "?n \<le> next_of (tm_store m) b" using b as min by auto
    ultimately show ?thesis by (auto simp: due_def)
  qed
  ultimately show ?thesis using cbs as by (auto simp: filter_empty_conv)
qed

theorem getNextTimer_exact_witness:
  "snd (getNextTimer (fst (addTimer (TimerManager_new 0) 1 10 5 (Some (Direct ())) False)) 12) = 3 \<and>
   snd (listExpiredCb (fst (getNextTimer (fst (addTimer (TimerManager_new 0) 1 10 5 (Some (Direct ())) False)) 12)) 15 7) \<noteq> []"
proof -
  let ?m = "fst (addTimer (TimerManager_new 0) 1 10 5 (Some (Direct ())) False)"
  have inv: "tm_inv ?m" by (rule addTimer_inv) (auto simp: tm_inv_new, simp add: TimerManager_new_def)
  have h: "m_timers ?m \<noteq> []" "tm_store ?m 7 = None" "\<not> rolls_over ?m 15" "snd (getNextTimer ?m 12) = 3"
    by (simp_all add: addTimer_def insertTimer_def Timer_new_def Let_def TimerManager_new_def
        rolls_over_def detectClockRollover_def getNextTimer_def next_of_def)
  from getNextTimer_exact [OF inv h(1) _ h(2) _ h(3), of 12 "fst (getNextTimer ?m 12)" "snd (getNextTimer ?m 12)"]
  show ?thesis using h(4) by simp
qed

text \<open>
  A one-shot timer fires at most once: after it has been handed out by an expiry it is in no
  later one, and it is not in the queue.
\<close>

theorem one_shot_fires_once:
  assumes "tm_inv m" and "tm_store m tmp = None" and "expired_split m now_ms tmp = (E, R)"
    and "a \<in> set E" and "\<not> is_recurring m a" and "tm_run (fst (listExpiredCb m now_ms tmp)) f m2"
  shows "a \<notin> set f \<and> a \<notin> set (m_timers m2)"
proof -
  note eff = listExpiredCb_effect [OF assms(1-3)]
  have a: "a \<in> set (m_timers m)" "a \<notin> set R"
    using expired_split_parts(1,2) [OF assms(1-3)] assms(4) by auto
  then obtain t where t: "tm_store m a = Some t" using tm_invD(3) [OF assms(1)] by blast
  then have "\<not> t_recurring t" using assms(5) by (simp add: is_recurring_def)
  then have "dead (fst (listExpiredCb m now_ms tmp)) a"
    using eff(2,3) a t assms(4,5) by (auto simp: dead_def fired_def)
  from tm_run_dead [OF assms(6) eff(4) this] show ?thesis by (auto simp: dead_def)
qed

theorem one_shot_fires_once_example:
  "\<exists>m2. m2 = fst (listExpiredCb (fst (addTimer (TimerManager_new 0) 1 10 5 (Some (Direct ())) False)) 20 7) \<and>
     1 \<notin> set (m_timers m2)"
proof -
  let ?m = "fst (addTimer (TimerManager_new 0) 1 10 5 (Some (Direct ())) False)"
  have inv: "tm_inv ?m" by (rule addTimer_inv) (auto simp: tm_inv_new, simp add: TimerManager_new_def)
  have h: "tm_store ?m 7 = None" "\<not> rolls_over ?m 20" "filter (due ?m 20) (m_timers ?m) = [1]" "\<not> is_recurring ?m 1"
    by (simp_all add: addTimer_def insertTimer_def Timer_new_def Let_def TimerManager_new_def
        rolls_over_def detectClockRollover_def due_def next_of_def is_recurring_def)
  have "expired_split ?m 20 7 = ([1], filter (Not \<circ> due ?m 20) (m_timers ?m))"
    using expired_split_due [OF inv h(1,2)] h(3) by simp
  from one_shot_fires_once [OF inv h(1) this _ h(4) run_nil] show ?thesis by auto
qed

text \<open>
  After a detected clock rollover every queued timer fires, due or not. The detection itself
  wraps around: when the previous time is less than one hour, any step back of the clock counts as a
  rollover, although the comment asks for more than an hour.
\<close>

theorem rollover_fires_everything:
  assumes "tm_inv m" and "tm_store m tmp = None" and "now_ms < m_previousTime m"
    and "m_previousTime m < 3600000"
  shows "snd (listExpiredCb m now_ms tmp) = map (cb_of m) (m_timers m)"
proof -
  have "now_ms < m_previousTime m - 60 * 60 * 1000"
  proof -
    have p: "unat (m_previousTime m) < 3600000" using assms(4) by (simp add: word_less_nat_alt)
    have "(60 * 60 * 1000 :: u64) = 3600000" by simp
    moreover have "unat (m_previousTime m - 3600000) = 2 ^ 64 + unat (m_previousTime m) - 3600000"
      using p by (simp add: unat_sub_if')
    moreover have "unat now_ms < 3600000" using assms(3) p by (simp add: word_less_nat_alt)
    ultimately show ?thesis by (simp add: word_less_nat_alt)
  qed
  then have "rolls_over m now_ms" using assms(3) by (simp add: rolls_over_def detectClockRollover_def)
  from listExpiredCb_effect(1) [OF assms(1,2) expired_split_rollover [OF this]] show ?thesis .
qed

theorem rollover_fires_everything_example:
  "snd (listExpiredCb (fst (addTimer (TimerManager_new 1000) 1 1000 500 (Some (Direct ())) False)) 999 7) =
     map (cb_of (fst (addTimer (TimerManager_new 1000) 1 1000 500 (Some (Direct ())) False))) [1]"
proof -
  let ?m = "fst (addTimer (TimerManager_new 1000) 1 1000 500 (Some (Direct ())) False)"
  have inv: "tm_inv ?m" by (rule addTimer_inv) (auto simp: tm_inv_new, simp add: TimerManager_new_def)
  have h: "tm_store ?m 7 = None" "m_previousTime ?m = 1000" "m_timers ?m = [1]"
    by (simp_all add: addTimer_def insertTimer_def Timer_new_def Let_def TimerManager_new_def)
  from rollover_fires_everything [OF inv h(1), of 999] h show ?thesis by simp
qed

text \<open>
  \<open>OnTimerInsertedAtFront\<close> is called for an added timer exactly when its deadline comes before
  (or, at a smaller address, together with) all queued ones and no notification is pending since the
  last \<open>getNextTimer\<close>; the pending flag is set with it.
\<close>

theorem addTimer_notifies:
  assumes "tm_inv m" and "tm_store m addr = None"
  shows "let (m', notified) = addTimer m addr now ms cb recurring in
    notified = (\<not> m_tickled m \<and>
      (\<forall>b \<in> set (m_timers m). now + ms < next_of (tm_store m) b \<or>
         now + ms = next_of (tm_store m) b \<and> addr < b)) \<and>
    m_tickled m' = (m_tickled m \<or> notified)"
proof -
  let ?st = "(tm_store m)(addr \<mapsto> Timer_new now ms cb recurring)"
  let ?ts = "oset_insert (timer_lt ?st) addr (m_timers m)"
  have notin: "addr \<notin> set (m_timers m)" using tm_invD(3) [OF assms(1)] assms(2) by fastforce
  have nxt: "next_of ?st b = next_of (tm_store m) b" if "b \<in> set (m_timers m)" for b
    using that notin by (metis next_of_upd_other)
  have ord: "sorted_wrt (timer_lt ?st) (m_timers m)"
    using tm_invD(1) [OF assms(1)] nxt by (rule ordered_store_cong)
  have lt: "timer_lt ?st addr b \<longleftrightarrow> now + ms < next_of (tm_store m) b \<or>
      now + ms = next_of (tm_store m) b \<and> addr < b" if "b \<in> set (m_timers m)" for b
    using nxt [OF that] by (simp add: timer_lt_iff Timer_new_def)
  have "?ts \<noteq> [] \<and> hd ?ts = addr \<longleftrightarrow> (\<forall>b \<in> set (m_timers m). timer_lt ?st addr b)"
  proof (cases "m_timers m")
    case (Cons c cs)
    have "hd ?ts = addr \<longleftrightarrow> timer_lt ?st addr c"
      using tl.hd_insert [of ?st addr "m_timers m"] Cons notin tl.total [of addr c ?st] tl.asym [of ?st addr c] by auto
    moreover have "\<forall>b \<in> set cs. timer_lt ?st c b" using ord Cons by simp
    moreover have "?ts \<noteq> []" using tl.set_insert [of ?st addr "m_timers m"] by fastforce
    moreover have "timer_lt ?st addr b" if "timer_lt ?st addr c" "timer_lt ?st c b" for b
      using that by (rule tl.trans)
    ultimately show ?thesis using Cons by (metis list.set_intros(1) set_ConsD)
  qed simp
  then have "?ts \<noteq> [] \<and> hd ?ts = addr \<longleftrightarrow> (\<forall>b \<in> set (m_timers m).
      now + ms < next_of (tm_store m) b \<or> now + ms = next_of (tm_store m) b \<and> addr < b)"
    using lt by blast
  then show ?thesis unfolding addTimer_def insertTimer_def Let_def by auto
qed

theorem addTimer_notifies_example:
  "snd (addTimer (TimerManager_new 0) 1 10 5 (Some (Direct ())) False)"
proof -
  have "tm_inv (TimerManager_new 0 :: unit timer_manager)" by (rule tm_inv_new)
  moreover have "tm_store (TimerManager_new 0 :: unit timer_manager) 1 = None" by (simp add: TimerManager_new_def)
  ultimately show ?thesis
    using addTimer_notifies [of "TimerManager_new 0 :: unit timer_manager" 1 10 5 "Some (Direct ())" False]
    by (simp add: case_prod_unfold Let_def TimerManager_new_def)
qed

end
