(* ===== verification/Fiber.thy ===== *)
theory Fiber
  imports Prelude
begin

text \<open>
  The fibers of \<^verbatim>\<open>src/src/fiber.cc\<close> and \<^verbatim>\<open>src/include/fiber.h\<close>, as one thread sees
  them: fiber objects in a store, the thread-local pointers \<open>t_fiber\<close> and \<open>t_threadFiber\<close>, the
  scheduler fiber that \<open>Scheduler::GetMainFiber\<close> returns, the two global counters, and the point
  where the processor runs. A context that \<open>getcontext\<close>, \<open>makecontext\<close> or \<open>swapcontext\<close>
  stores is a value: the entry of a main function, or the suspended execution of a stack. Stacks are
  named by the fiber that owns them. The body of a fiber is not modelled, only how it ends.
\<close>

section \<open>Data\<close>

text \<open>\<open>Fiber::State\<close>; \<open>TERM'\<close> is \<open>TERM\<close>, a keyword of the logic.\<close>

datatype State = INIT | HOLD | EXEC | TERM' | READY | EXCEPT

text \<open>The two functions a context can be made for.\<close>

datatype entry = MainFunc | CallerMainFunc

text \<open>
  \<open>Captured\<close> is a context that \<open>getcontext\<close> filled, \<open>Fresh\<close> one that \<open>makecontext\<close> made,
  \<open>Suspended s e\<close> one that \<open>swapcontext\<close> saved on the stack \<open>s\<close>; \<open>e\<close> says whether that was the
  last switch of a main function.
\<close>

datatype ucontext = Captured | Fresh entry | Suspended nat bool

record 'cb fiber =
  f_id :: u64
  f_stacksize :: u32
  f_state :: State
  f_ctx :: ucontext
  f_stack :: bool
  f_cb :: "'cb option"

text \<open>What the processor does after a switch: it enters a main function or goes on with a stack.\<close>

datatype control = Started nat entry | Resumed nat

primrec on_stack :: "control \<Rightarrow> nat" where
  "on_stack (Started a k) = a"
| "on_stack (Resumed a) = a"

record 'cb fibers =
  fb :: "nat \<Rightarrow> 'cb fiber option"
  s_fiber_id :: u64
  s_fiber_count :: u64
  t_fiber :: "nat option"
  t_threadFiber :: "nat option"
  main_fiber :: "nat option"
  cpu :: control

datatype fiber_error = FiberNull | FiberAssert | NeverReach | Recaptured

section \<open>Context switches\<close>

text \<open>Where a context leads when it is resumed; \<open>a\<close> is the fiber whose \<open>m_ctx\<close> it is.\<close>

fun resume :: "nat \<Rightarrow> ucontext \<Rightarrow> fiber_error + control" where
  "resume a Captured = Inl Recaptured"
| "resume a (Fresh k) = Inr (Started a k)"
| "resume a (Suspended s e) = (if e then Inl NeverReach else Inr (Resumed s))"

text \<open>
  \<open>swapcontext(&from->m_ctx, &to->m_ctx)\<close>; \<open>last\<close> marks the last switch of a main function.
  \<open>swapcontext\<close> succeeds, as it does unless memory is short.
\<close>

definition swapcontext :: "'cb fibers \<Rightarrow> nat \<Rightarrow> nat \<Rightarrow> bool \<Rightarrow> fiber_error + 'cb fibers" where
  "swapcontext w from to fin =
     (case fb w from of None \<Rightarrow> Inl FiberNull
      | Some f \<Rightarrow>
        let heap = (fb w)(from \<mapsto> f\<lparr>f_ctx := Suspended (on_stack (cpu w)) fin\<rparr>) in
        (case heap to of None \<Rightarrow> Inl FiberNull
         | Some t \<Rightarrow>
           (case resume to (f_ctx t) of Inl e \<Rightarrow> Inl e
            | Inr c \<Rightarrow> Inr (w\<lparr>fb := heap, cpu := c\<rparr>))))"

definition SetThis :: "'cb fibers \<Rightarrow> nat option \<Rightarrow> 'cb fibers" where
  "SetThis w f = w\<lparr>t_fiber := f\<rparr>"

section \<open>Construction and destruction\<close>

text \<open>\<open>Fiber()\<close>: the fiber of the code that already runs; it has no stack of its own.\<close>

definition Fiber_main :: "'cb fibers \<Rightarrow> nat \<Rightarrow> 'cb fibers" where
  "Fiber_main w a =
     SetThis (w\<lparr>fb := (fb w)(a \<mapsto> \<lparr>f_id = 0, f_stacksize = 0, f_state = EXEC, f_ctx = Captured,
                                    f_stack = False, f_cb = None\<rparr>),
               s_fiber_count := s_fiber_count w + 1\<rparr>) (Some a)"

text \<open>\<open>Fiber(cb, stacksize, use_caller)\<close>; \<open>dflt\<close> is the configured stack size.\<close>

definition Fiber_new :: "'cb fibers \<Rightarrow> nat \<Rightarrow> 'cb option \<Rightarrow> u64 \<Rightarrow> bool \<Rightarrow> u32 \<Rightarrow> 'cb fibers" where
  "Fiber_new w a cb stacksize use_caller dflt =
     w\<lparr>fb := (fb w)(a \<mapsto> \<lparr>f_id = s_fiber_id w + 1,
          f_stacksize = (if stacksize \<noteq> 0 then ucast stacksize else dflt),
          f_state = INIT, f_ctx = Fresh (if \<not> use_caller then MainFunc else CallerMainFunc),
          f_stack = True, f_cb = cb\<rparr>),
       s_fiber_id := s_fiber_id w + 1, s_fiber_count := s_fiber_count w + 1\<rparr>"

definition Fiber_delete :: "'cb fibers \<Rightarrow> nat \<Rightarrow> fiber_error + 'cb fibers" where
  "Fiber_delete w a =
     (case fb w a of None \<Rightarrow> Inl FiberNull
      | Some f \<Rightarrow>
        let w' = w\<lparr>s_fiber_count := s_fiber_count w - 1, fb := (fb w)(a := None)\<rparr> in
        if f_stack f then
          (if f_state f = TERM' \<or> f_state f = INIT \<or> f_state f = EXCEPT then Inr w' else Inl FiberAssert)
        else if f_cb f \<noteq> None then Inl FiberAssert
        else if f_state f \<noteq> EXEC then Inl FiberAssert
        else Inr (if t_fiber w = Some a then SetThis w' None else w'))"

definition Fiber_reset :: "'cb fibers \<Rightarrow> nat \<Rightarrow> 'cb option \<Rightarrow> fiber_error + 'cb fibers" where
  "Fiber_reset w a cb =
     (case fb w a of None \<Rightarrow> Inl FiberNull
      | Some f \<Rightarrow>
        if \<not> f_stack f then Inl FiberAssert
        else if \<not> (f_state f = TERM' \<or> f_state f = INIT \<or> f_state f = EXCEPT) then Inl FiberAssert
        else Inr (w\<lparr>fb := (fb w)(a \<mapsto> f\<lparr>f_cb := cb, f_ctx := Fresh MainFunc, f_state := INIT\<rparr>)\<rparr>))"

section \<open>Switching to a fiber and back\<close>

definition set_state :: "'cb fibers \<Rightarrow> nat \<Rightarrow> State \<Rightarrow> 'cb fibers" where
  "set_state w a s = w\<lparr>fb := (fb w)(a := map_option (\<lambda>f. f\<lparr>f_state := s\<rparr>) (fb w a))\<rparr>"

definition Fiber_call :: "'cb fibers \<Rightarrow> nat \<Rightarrow> fiber_error + 'cb fibers" where
  "Fiber_call w a =
     (case t_threadFiber w of None \<Rightarrow> Inl FiberNull
      | Some m \<Rightarrow> swapcontext (set_state (SetThis w (Some a)) a EXEC) m a False)"

definition Fiber_back :: "'cb fibers \<Rightarrow> nat \<Rightarrow> bool \<Rightarrow> fiber_error + 'cb fibers" where
  "Fiber_back w a fin =
     (case t_threadFiber w of None \<Rightarrow> Inl FiberNull
      | Some m \<Rightarrow> swapcontext (SetThis w (Some m)) a m fin)"

definition swapIn :: "'cb fibers \<Rightarrow> nat \<Rightarrow> fiber_error + 'cb fibers" where
  "swapIn w a =
     (case fb w a of None \<Rightarrow> Inl FiberNull
      | Some f \<Rightarrow>
        if f_state f = EXEC then Inl FiberAssert
        else (case main_fiber w of None \<Rightarrow> Inl FiberNull
              | Some m \<Rightarrow> swapcontext (set_state (SetThis w (Some a)) a EXEC) m a False))"

definition swapOut :: "'cb fibers \<Rightarrow> nat \<Rightarrow> bool \<Rightarrow> fiber_error + 'cb fibers" where
  "swapOut w a fin =
     (case main_fiber w of None \<Rightarrow> Inl FiberNull
      | Some m \<Rightarrow> swapcontext (SetThis w (Some m)) a m fin)"

text \<open>\<open>GetThis\<close>; \<open>fresh\<close> is the address of the main fiber if one has to be made.\<close>

definition GetThis :: "'cb fibers \<Rightarrow> nat \<Rightarrow> 'cb fibers \<times> nat" where
  "GetThis w fresh =
     (case t_fiber w of Some a \<Rightarrow> (w, a)
      | None \<Rightarrow> let w1 = Fiber_main w fresh in (w1\<lparr>t_threadFiber := Some fresh\<rparr>, fresh))"

definition GetFiberId :: "'cb fibers \<Rightarrow> u64" where
  "GetFiberId w = (case t_fiber w of None \<Rightarrow> 0
     | Some a \<Rightarrow> (case fb w a of None \<Rightarrow> 0 | Some f \<Rightarrow> f_id f))"

definition TotalFibers :: "'cb fibers \<Rightarrow> u64" where
  "TotalFibers w = s_fiber_count w"

definition YieldToHold :: "'cb fibers \<Rightarrow> nat \<Rightarrow> fiber_error + 'cb fibers" where
  "YieldToHold w fresh =
     (let (w1, a) = GetThis w fresh in
      case fb w1 a of None \<Rightarrow> Inl FiberNull
      | Some f \<Rightarrow> if f_state f = EXEC then swapOut w1 a False else Inl FiberAssert)"

section \<open>The main functions\<close>

text \<open>How the user's function ends; calling an empty function throws \<open>bad_function_call\<close>.\<close>

datatype outcome = Returns | Throws

definition finish :: "'cb fiber \<Rightarrow> outcome \<Rightarrow> 'cb fiber" where
  "finish f r =
     (if f_cb f \<noteq> None \<and> r = Returns then f\<lparr>f_cb := None, f_state := TERM'\<rparr>
      else f\<lparr>f_state := EXCEPT\<rparr>)"

text \<open>
  The rest of \<open>MainFunc\<close> and of \<open>CallerMainFunc\<close> after the user's function: the state, then the
  switch away from which the fiber must not come back.
\<close>

definition MainFunc_end :: "'cb fibers \<Rightarrow> nat \<Rightarrow> outcome \<Rightarrow> fiber_error + 'cb fibers" where
  "MainFunc_end w fresh r =
     (let (w1, a) = GetThis w fresh in
      case fb w1 a of None \<Rightarrow> Inl FiberNull
      | Some f \<Rightarrow> swapOut (w1\<lparr>fb := (fb w1)(a \<mapsto> finish f r)\<rparr>) a True)"

definition CallerMainFunc_end :: "'cb fibers \<Rightarrow> nat \<Rightarrow> outcome \<Rightarrow> fiber_error + 'cb fibers" where
  "CallerMainFunc_end w fresh r =
     (let (w1, a) = GetThis w fresh in
      case fb w1 a of None \<Rightarrow> Inl FiberNull
      | Some f \<Rightarrow> Fiber_back (w1\<lparr>fb := (fb w1)(a \<mapsto> finish f r)\<rparr>) a True)"

end
