(* ===== verification/Fiber_Spec.thy ===== *)
theory Fiber_Spec
  imports Fiber
begin

text \<open>
  What the fiber switches guarantee to the thread that uses them: \<open>t_fiber\<close> always names the fiber
  whose stack runs, a suspended fiber is resumed on its own stack, control comes back to the
  scheduler, a finished fiber must not be entered again, and the global counter counts the live fibers.
\<close>

section \<open>Switch lemmas\<close>

abbreviation saved :: "'cb fibers \<Rightarrow> nat \<Rightarrow> 'cb fiber \<Rightarrow> bool \<Rightarrow> nat \<Rightarrow> 'cb fiber option" where
  "saved w a f fin \<equiv> (fb w)(a \<mapsto> f\<lparr>f_ctx := Suspended (on_stack (cpu w)) fin\<rparr>)"

lemma swapcontext_Inr:
  assumes "swapcontext w from to fin = Inr w'"
  obtains f t c where "fb w from = Some f" "saved w from f fin to = Some t"
    "resume to (f_ctx t) = Inr c" "w' = w\<lparr>fb := saved w from f fin, cpu := c\<rparr>"
  using assms unfolding swapcontext_def Let_def
  by (simp del: fun_upd_apply split: option.splits sum.splits)

lemma resume_own: "resume a c = Inr k \<Longrightarrow> (\<And>s e. c = Suspended s e \<Longrightarrow> s = a) \<Longrightarrow> on_stack k = a"
  by (cases c) (auto split: if_splits)

lemma set_state_simps [simp]:
  "t_fiber (set_state w a s) = t_fiber w" "cpu (set_state w a s) = cpu w"
  "main_fiber (set_state w a s) = main_fiber w" "t_threadFiber (set_state w a s) = t_threadFiber w"
  "s_fiber_count (set_state w a s) = s_fiber_count w" "s_fiber_id (set_state w a s) = s_fiber_id w"
  by (simp_all add: set_state_def)

lemma SetThis_simps [simp]:
  "t_fiber (SetThis w f) = f" "cpu (SetThis w f) = cpu w" "fb (SetThis w f) = fb w"
  "main_fiber (SetThis w f) = main_fiber w" "t_threadFiber (SetThis w f) = t_threadFiber w"
  "s_fiber_count (SetThis w f) = s_fiber_count w" "s_fiber_id (SetThis w f) = s_fiber_id w"
  by (simp_all add: SetThis_def)

lemma fb_set_state: "fb (set_state w a s) b =
    (if b = a then map_option (\<lambda>f. f\<lparr>f_state := s\<rparr>) (fb w a) else fb w b)"
  by (simp add: set_state_def)

lemma dom_set_state [simp]: "dom (fb (set_state w a s)) = dom (fb w)"
  by (auto simp: fb_set_state split: if_splits)

section \<open>The invariant of a thread\<close>

definition own_ctx :: "'cb fibers \<Rightarrow> bool" where
  "own_ctx w \<longleftrightarrow> (\<forall>a f s e. fb w a = Some f \<longrightarrow> f_ctx f = Suspended s e \<longrightarrow> s = a)"

definition fiber_inv :: "'cb fibers \<Rightarrow> bool" where
  "fiber_inv w \<longleftrightarrow> own_ctx w \<and> finite (dom (fb w)) \<and>
     s_fiber_count w = of_nat (card (dom (fb w))) \<and>
     (case t_fiber w of None \<Rightarrow> t_threadFiber w = None
      | Some a \<Rightarrow> on_stack (cpu w) = a \<and> fb w a \<noteq> None)"

lemma fiber_invI:
  "own_ctx w \<Longrightarrow> finite (dom (fb w)) \<Longrightarrow> s_fiber_count w = of_nat (card (dom (fb w))) \<Longrightarrow>
    t_fiber w = Some a \<Longrightarrow> on_stack (cpu w) = a \<Longrightarrow> fb w a \<noteq> None \<Longrightarrow> fiber_inv w"
  by (simp add: fiber_inv_def)

lemma own_ctx_fb_cong:
  "(\<And>b. map_option f_ctx (fb w' b) = map_option f_ctx (fb w b)) \<Longrightarrow> own_ctx w' = own_ctx w"
proof -
  assume h: "\<And>b. map_option f_ctx (fb w' b) = map_option f_ctx (fb w b)"
  have "(\<exists>f. fb w' a = Some f \<and> f_ctx f = c) = (\<exists>f. fb w a = Some f \<and> f_ctx f = c)" for a c
    using h [of a] by (cases "fb w' a"; cases "fb w a") auto
  then show ?thesis unfolding own_ctx_def by blast
qed

lemma own_ctx_set_state [simp]: "own_ctx (set_state w a s) = own_ctx w"
  by (rule own_ctx_fb_cong) (simp add: fb_set_state option.map_comp comp_def)

lemma own_ctx_SetThis [simp]: "own_ctx (SetThis w f) = own_ctx w"
  by (simp add: own_ctx_def)

text \<open>The one switch lemma: \<open>from\<close> is the fiber that runs, and \<open>t_fiber\<close> is already the target.\<close>

lemma swapcontext_inv:
  assumes "swapcontext w from to fin = Inr w'" and "own_ctx w" and "on_stack (cpu w) = from"
  shows "own_ctx w'" "on_stack (cpu w') = to" "dom (fb w') = dom (fb w)" "to \<in> dom (fb w)"
    "t_fiber w' = t_fiber w" "s_fiber_count w' = s_fiber_count w" "t_threadFiber w' = t_threadFiber w"
    "main_fiber w' = main_fiber w"
proof -
  obtain f t c where f: "fb w from = Some f" and t: "saved w from f fin to = Some t"
    and c: "resume to (f_ctx t) = Inr c" and w': "w' = w\<lparr>fb := saved w from f fin, cpu := c\<rparr>"
    using assms(1) by (rule swapcontext_Inr)
  have own: "s = b" if "saved w from f fin b = Some g" "f_ctx g = Suspended s e" for b g s e
  proof (cases "b = from")
    case True
    with that assms(3) show ?thesis by auto
  next
    case False
    with that assms(2) show ?thesis unfolding own_ctx_def by simp
  qed
  then show "own_ctx w'" unfolding own_ctx_def w' by (simp del: fun_upd_apply)
  have "on_stack c = to" using c own [OF t] by (rule resume_own)
  then show "on_stack (cpu w') = to" by (simp add: w')
  show "dom (fb w') = dom (fb w)" using f w' by auto
  show "to \<in> dom (fb w)" using f t by (auto split: if_splits)
  show "t_fiber w' = t_fiber w" "s_fiber_count w' = s_fiber_count w" "t_threadFiber w' = t_threadFiber w"
    "main_fiber w' = main_fiber w" by (simp_all add: w')
qed

lemma switch_inv:
  assumes "fiber_inv w" and "t_fiber w = Some from"
    and "swapcontext w1 from to fin = Inr w'" and "own_ctx w1" and "cpu w1 = cpu w"
    and "dom (fb w1) = dom (fb w)" and "s_fiber_count w1 = s_fiber_count w" and "t_fiber w1 = Some to"
  shows "fiber_inv w'"
proof -
  have "on_stack (cpu w1) = from" using assms(1,2,5) by (simp add: fiber_inv_def)
  note sw = swapcontext_inv [OF assms(3,4) this]
  show ?thesis
    by (rule fiber_invI [of w' to]) (use sw assms in \<open>auto simp: fiber_inv_def\<close>)
qed

lemma swapIn_inv:
  assumes "fiber_inv w" and "t_fiber w = main_fiber w" and "swapIn w a = Inr w'"
  shows "fiber_inv w'"
proof -
  from assms(3) obtain m where m: "main_fiber w = Some m"
    "swapcontext (set_state (SetThis w (Some a)) a EXEC) m a False = Inr w'"
    by (auto simp: swapIn_def split: option.splits if_splits)
  show ?thesis
    by (rule switch_inv [OF assms(1) _ m(2)])
      (use assms(1,2) m(1) in \<open>auto simp: fiber_inv_def fb_set_state\<close>)
qed

lemma call_inv:
  assumes "fiber_inv w" and "t_fiber w = t_threadFiber w" and "Fiber_call w a = Inr w'"
  shows "fiber_inv w'"
proof -
  from assms(3) obtain m where m: "t_threadFiber w = Some m"
    "swapcontext (set_state (SetThis w (Some a)) a EXEC) m a False = Inr w'"
    by (auto simp: Fiber_call_def split: option.splits if_splits)
  show ?thesis
    by (rule switch_inv [OF assms(1) _ m(2)])
      (use assms(1,2) m(1) in \<open>auto simp: fiber_inv_def fb_set_state\<close>)
qed

lemma swapOut_inv:
  assumes "fiber_inv w" and "t_fiber w = Some a" and "swapOut w a fin = Inr w'"
  shows "fiber_inv w'"
proof -
  from assms(3) obtain m where m: "main_fiber w = Some m"
    "swapcontext (SetThis w (Some m)) a m fin = Inr w'"
    by (auto simp: swapOut_def split: option.splits)
  show ?thesis
    by (rule switch_inv [OF assms(1,2) m(2)]) (use assms(1) in \<open>auto simp: fiber_inv_def\<close>)
qed

lemma back_inv:
  assumes "fiber_inv w" and "t_fiber w = Some a" and "Fiber_back w a fin = Inr w'"
  shows "fiber_inv w'"
proof -
  from assms(3) obtain m where m: "t_threadFiber w = Some m"
    "swapcontext (SetThis w (Some m)) a m fin = Inr w'"
    by (auto simp: Fiber_back_def split: option.splits)
  show ?thesis
    by (rule switch_inv [OF assms(1,2) m(2)]) (use assms(1) in \<open>auto simp: fiber_inv_def\<close>)
qed

lemma GetThis_inv:
  assumes "fiber_inv w" and "fb w fresh = None" and "t_fiber w = None \<longrightarrow> on_stack (cpu w) = fresh"
  shows "fiber_inv (fst (GetThis w fresh))" "t_fiber (fst (GetThis w fresh)) = Some (snd (GetThis w fresh))"
  using assms by (auto simp: GetThis_def Fiber_main_def fiber_inv_def own_ctx_def Let_def domIff card_insert_if
      split: option.splits)

lemma GetThis_running [simp]: "t_fiber w = Some a \<Longrightarrow> GetThis w fresh = (w, a)"
  by (simp add: GetThis_def)

lemma update_inv:
  assumes "fiber_inv w" and "fb w a = Some f" and "\<And>s e. f_ctx g = Suspended s e \<Longrightarrow> s = a"
  shows "fiber_inv (w\<lparr>fb := (fb w)(a \<mapsto> g)\<rparr>)"
proof -
  have "insert a (dom (fb w)) = dom (fb w)" using assms(2) by auto
  then show ?thesis using assms by (auto simp: fiber_inv_def own_ctx_def split: option.splits)
qed

lemma inv_own: "fiber_inv w \<Longrightarrow> fb w a = Some f \<Longrightarrow> f_ctx f = Suspended s e \<Longrightarrow> s = a"
  by (auto simp: fiber_inv_def own_ctx_def)

lemma set_state_inv: "fiber_inv w \<Longrightarrow> fiber_inv (set_state w a s)"
  by (auto simp: fiber_inv_def fb_set_state split: option.splits)

section \<open>Runs of a thread\<close>

text \<open>A thread before it has used any fiber; \<open>a\<close> names its native stack.\<close>

definition thread_start :: "nat \<Rightarrow> 'cb fibers" where
  "thread_start a = \<lparr>fb = Map.empty, s_fiber_id = 0, s_fiber_count = 0, t_fiber = None,
     t_threadFiber = None, main_fiber = None, cpu = Resumed a\<rparr>"

text \<open>
  The calls of a thread, each from where the code makes it: \<open>swapIn\<close> from the fiber of the run loop,
  \<open>call\<close> from the thread's own fiber, the yields and ends from the fiber that runs. The main fiber
  of the scheduler is set by its constructor or by \<open>run\<close>; \<open>run\<close> also sets \<open>HOLD\<close>.
\<close>

inductive fiber_step :: "'cb fibers \<Rightarrow> 'cb fibers \<Rightarrow> bool" where
  step_get: "fb w fresh = None \<Longrightarrow> (t_fiber w = None \<longrightarrow> on_stack (cpu w) = fresh) \<Longrightarrow>
    fiber_step w (fst (GetThis w fresh))"
| step_main: "fiber_step w (w\<lparr>main_fiber := m\<rparr>)"
| step_new: "fb w a = None \<Longrightarrow> t_fiber w \<noteq> None \<Longrightarrow> fiber_step w (Fiber_new w a cb sz uc dflt)"
| step_in: "t_fiber w = main_fiber w \<Longrightarrow> swapIn w a = Inr w' \<Longrightarrow> fiber_step w w'"
| step_call: "t_fiber w = t_threadFiber w \<Longrightarrow> Fiber_call w a = Inr w' \<Longrightarrow> fiber_step w w'"
| step_yield: "t_fiber w \<noteq> None \<Longrightarrow> YieldToHold w fresh = Inr w' \<Longrightarrow> fiber_step w w'"
| step_end: "t_fiber w \<noteq> None \<Longrightarrow> MainFunc_end w fresh r = Inr w' \<Longrightarrow> fiber_step w w'"
| step_caller_end: "t_fiber w \<noteq> None \<Longrightarrow> CallerMainFunc_end w fresh r = Inr w' \<Longrightarrow> fiber_step w w'"
| step_hold: "fiber_step w (set_state w a HOLD)"
| step_reset: "Fiber_reset w a cb = Inr w' \<Longrightarrow> fiber_step w w'"
| step_delete: "t_fiber w \<noteq> Some a \<Longrightarrow> Fiber_delete w a = Inr w' \<Longrightarrow> fiber_step w w'"

lemma Fiber_new_inv:
  assumes "fiber_inv w" and "fb w a = None" and "t_fiber w \<noteq> None"
  shows "fiber_inv (Fiber_new w a cb sz uc dflt)"
proof -
  have "a \<notin> dom (fb w)" using assms(2) by (simp add: domIff)
  then show ?thesis using assms
    by (auto simp: fiber_inv_def own_ctx_def Fiber_new_def split: option.splits)
qed

lemma Fiber_delete_inv:
  assumes "fiber_inv w" and "t_fiber w \<noteq> Some a" and "Fiber_delete w a = Inr w'"
  shows "fiber_inv w'"
proof -
  have w': "w' = w\<lparr>s_fiber_count := s_fiber_count w - 1, fb := (fb w)(a := None)\<rparr>" and a: "a \<in> dom (fb w)"
    using assms(2,3) by (auto simp: Fiber_delete_def Let_def split: option.splits if_splits)
  have "card (dom (fb w)) = Suc (card (dom (fb w) - {a}))"
    using assms(1) a card_Suc_Diff1 [of "dom (fb w)" a] by (simp only: fiber_inv_def)
  then show ?thesis using assms(1,2) by (auto simp: w' fiber_inv_def own_ctx_def split: option.splits)
qed

lemma Fiber_reset_inv:
  assumes "fiber_inv w" and "Fiber_reset w a cb = Inr w'"
  shows "fiber_inv w'"
proof -
  obtain f where f: "fb w a = Some f"
    "w' = w\<lparr>fb := (fb w)(a \<mapsto> f\<lparr>f_cb := cb, f_ctx := Fresh MainFunc, f_state := INIT\<rparr>)\<rparr>"
    using assms(2) by (auto simp: Fiber_reset_def split: option.splits if_splits)
  show ?thesis unfolding f(2) by (rule update_inv [OF assms(1) f(1)]) simp
qed

lemma finish_simps [simp]: "f_ctx (finish f r) = f_ctx f" "f_stack (finish f r) = f_stack f"
  by (simp_all add: finish_def)

lemma fiber_step_inv: "fiber_step w w' \<Longrightarrow> fiber_inv w \<Longrightarrow> fiber_inv w'"
proof (induction rule: fiber_step.induct)
  case (step_get w fresh)
  then show ?case by (intro GetThis_inv)
next
  case (step_main w m)
  then show ?case by (cases "t_fiber w") (simp_all add: fiber_inv_def own_ctx_def)
next
  case (step_yield w fresh w')
  then obtain a where a: "t_fiber w = Some a" by blast
  with step_yield.hyps have "swapOut w a False = Inr w'"
    by (auto simp: YieldToHold_def split: option.splits if_splits)
  with step_yield.prems a show ?case by (rule swapOut_inv)
next
  case (step_end w fresh r w')
  then obtain a f where a: "t_fiber w = Some a" "fb w a = Some f"
    "swapOut (w\<lparr>fb := (fb w)(a \<mapsto> finish f r)\<rparr>) a True = Inr w'"
    by (auto simp: MainFunc_end_def split: option.splits)
  have "fiber_inv (w\<lparr>fb := (fb w)(a \<mapsto> finish f r)\<rparr>)"
    using step_end.prems a(2) inv_own [OF step_end.prems a(2)] by (intro update_inv) auto
  from swapOut_inv [OF this _ a(3)] a(1) show ?case by simp
next
  case (step_caller_end w fresh r w')
  then obtain a f where a: "t_fiber w = Some a" "fb w a = Some f"
    "Fiber_back (w\<lparr>fb := (fb w)(a \<mapsto> finish f r)\<rparr>) a True = Inr w'"
    by (auto simp: CallerMainFunc_end_def split: option.splits)
  have "fiber_inv (w\<lparr>fb := (fb w)(a \<mapsto> finish f r)\<rparr>)"
    using step_caller_end.prems a(2) inv_own [OF step_caller_end.prems a(2)] by (intro update_inv) auto
  from back_inv [OF this _ a(3)] a(1) show ?case by simp
qed (auto intro: Fiber_new_inv swapIn_inv call_inv set_state_inv Fiber_reset_inv Fiber_delete_inv)

lemma thread_start_inv: "fiber_inv (thread_start a)"
  by (simp add: fiber_inv_def own_ctx_def thread_start_def)

lemma fiber_run_inv: "rtranclp fiber_step (thread_start a) w \<Longrightarrow> fiber_inv w"
  by (induction rule: rtranclp_induct) (auto intro: thread_start_inv fiber_step_inv)

section \<open>Properties\<close>

text \<open>
  C33: In every run of a thread, the fiber that \<open>GetThis\<close> returns is the one whose stack the
  processor uses; a context that a switch saved is resumed on its own fiber's stack; and the global
  counter is the number of live fibers.
\<close>

theorem current_fiber_runs:
  assumes "rtranclp fiber_step (thread_start n) w"
  shows "(\<forall>a. t_fiber w = Some a \<longrightarrow> on_stack (cpu w) = a \<and> fb w a \<noteq> None) \<and>
    (\<forall>a f s e. fb w a = Some f \<longrightarrow> f_ctx f = Suspended s e \<longrightarrow> s = a) \<and>
    TotalFibers w = of_nat (card (dom (fb w)))"
  using fiber_run_inv [OF assms] by (auto simp: fiber_inv_def own_ctx_def TotalFibers_def)

lemma example_thread:
  "rtranclp fiber_step (thread_start 1)
     (Fiber_new (fst (GetThis (thread_start 1) 1)) 2 (Some ()) 0 False 1024)"
proof -
  have "fiber_step (thread_start 1 :: unit fibers) (fst (GetThis (thread_start 1) 1))"
    by (rule step_get) (simp_all add: thread_start_def)
  moreover have "fiber_step (fst (GetThis (thread_start 1) 1))
      (Fiber_new (fst (GetThis (thread_start 1) 1)) 2 (Some ()) 0 False 1024)"
    by (rule step_new) (simp_all add: GetThis_def Fiber_main_def SetThis_def Let_def thread_start_def)
  ultimately show ?thesis by (meson converse_rtranclp_into_rtranclp r_into_rtranclp)
qed

theorem current_fiber_runs_witness:
  "t_fiber (Fiber_new (fst (GetThis (thread_start 1) 1)) 2 (Some ()) 0 False 1024) = Some 1 \<and>
   TotalFibers (Fiber_new (fst (GetThis (thread_start 1) 1)) 2 (Some ()) 0 False 1024) = 2"
proof -
  have "dom (fb (Fiber_new (fst (GetThis (thread_start 1) 1)) 2 (Some ()) 0 False 1024)) = {1, 2}"
    by (auto simp: Fiber_new_def GetThis_def Fiber_main_def thread_start_def Let_def split: if_splits)
  moreover have "t_fiber (Fiber_new (fst (GetThis (thread_start 1) 1)) 2 (Some ()) 0 False 1024) = Some 1"
    by (simp add: Fiber_new_def GetThis_def Fiber_main_def thread_start_def Let_def)
  ultimately show ?thesis using current_fiber_runs [OF example_thread] by simp
qed

text \<open>
  C7: A scheduler that switches to a fiber that is not executing gets control back, on its own
  stack and as the current fiber, when the fiber yields and when it ends. A fiber that yielded with
  \<open>YieldToHold\<close> is still in state \<open>EXEC\<close>, not in \<open>HOLD\<close> as its comment has it, and keeps its callback; one that
  ended is in state \<open>TERM\<close>, or in \<open>EXCEPT\<close> after an exception or with an empty callback. Nothing keeps
  the scheduler from switching to an ended fiber again: the switch is made and the fiber goes on behind its last
  switch, where the assert "never reach" fails.
\<close>

theorem swapIn_comes_back:
  assumes "main_fiber w = Some m" and "on_stack (cpu w) = m" and "fb w m = Some fm"
    and "fb w a = Some f" and "a \<noteq> m" and "f_state f \<noteq> EXEC"
    and "f_ctx f = Fresh MainFunc \<or> f_ctx f = Suspended a False"
  shows "\<exists>w1. swapIn w a = Inr w1 \<and> t_fiber w1 = Some a \<and> on_stack (cpu w1) = a \<and>
    (\<exists>w2. YieldToHold w1 fresh = Inr w2 \<and> cpu w2 = Resumed m \<and> t_fiber w2 = Some m \<and>
       fb w2 a = Some (f\<lparr>f_state := EXEC, f_ctx := Suspended a False\<rparr>)) \<and>
    (\<exists>w3. MainFunc_end w1 fresh r = Inr w3 \<and> cpu w3 = Resumed m \<and> t_fiber w3 = Some m \<and>
       map_option f_state (fb w3 a) = Some (if f_cb f \<noteq> None \<and> r = Returns then TERM' else EXCEPT) \<and>
       swapIn w3 a = Inl NeverReach)"
proof -
  let ?w1 = "w\<lparr>fb := (fb w)(a \<mapsto> f\<lparr>f_state := EXEC\<rparr>, m \<mapsto> fm\<lparr>f_ctx := Suspended m False\<rparr>),
    t_fiber := Some a, cpu := (if f_ctx f = Fresh MainFunc then Started a MainFunc else Resumed a)\<rparr>"
  have "swapIn w a = Inr ?w1"
    using assms by (auto simp: swapIn_def swapcontext_def set_state_def SetThis_def)
  then show ?thesis using assms
    by (auto simp: YieldToHold_def MainFunc_end_def swapOut_def swapcontext_def SetThis_def
        set_state_def finish_def swapIn_def fun_upd_twist)
qed

definition example_fibers :: "unit fibers" where
  "example_fibers = \<lparr>fb = [3 \<mapsto> \<lparr>f_id = 0, f_stacksize = 0, f_state = EXEC, f_ctx = Captured,
       f_stack = False, f_cb = None\<rparr>,
       2 \<mapsto> \<lparr>f_id = 1, f_stacksize = 64, f_state = INIT, f_ctx = Fresh MainFunc, f_stack = True,
       f_cb = Some ()\<rparr>],
     s_fiber_id = 1, s_fiber_count = 2, t_fiber = Some 3, t_threadFiber = Some 3, main_fiber = Some 3,
     cpu = Resumed 3\<rparr>"

theorem swapIn_comes_back_witness:
  "\<exists>w1 w3. swapIn example_fibers 2 = Inr w1 \<and> MainFunc_end w1 9 Returns = Inr w3 \<and>
     cpu w3 = Resumed 3 \<and> map_option f_state (fb w3 2) = Some TERM'"
proof -
  have h: "main_fiber example_fibers = Some 3" "on_stack (cpu example_fibers) = 3"
    "\<exists>fm. fb example_fibers 3 = Some fm" "\<exists>f. fb example_fibers 2 = Some f \<and> f_state f \<noteq> EXEC \<and>
       f_ctx f = Fresh MainFunc \<and> f_cb f \<noteq> None"
    by (simp_all add: example_fibers_def)
  then obtain fm f where f: "fb example_fibers 3 = Some fm" "fb example_fibers 2 = Some f"
    "f_state f \<noteq> EXEC" "f_ctx f = Fresh MainFunc" "f_cb f \<noteq> None" by blast
  show ?thesis
    using swapIn_comes_back [OF h(1,2) f(1,2) _ f(3), of 9 Returns] f(4,5) by auto
qed

end
