(* ===== verification/Scheduler.thy ===== *)
theory Scheduler
  imports Fiber
begin

text \<open>
  The scheduler of \<^verbatim>\<open>src/src/scheduler.cc\<close> and \<^verbatim>\<open>src/include/scheduler.h\<close>: its state and
  operations, the body of the loop of \<open>run\<close> in the pieces between which other threads can act, and a
  machine that interleaves the loops of several threads over one queue. User code is visible only in
  what it does to the scheduler: it yields, it ends, and it schedules tasks.
\<close>

section \<open>Data\<close>

record 'cb task =
  ft_fiber :: "nat option"
  ft_cb :: "'cb option"
  ft_thread :: int

definition null_task :: "'cb task" where
  "null_task = \<lparr>ft_fiber = None, ft_cb = None, ft_thread = -1\<rparr>"

definition fiber_task :: "nat \<Rightarrow> int \<Rightarrow> 'cb task" where
  "fiber_task f thr = \<lparr>ft_fiber = Some f, ft_cb = None, ft_thread = thr\<rparr>"

definition cb_task :: "'cb option \<Rightarrow> int \<Rightarrow> 'cb task" where
  "cb_task cb thr = \<lparr>ft_fiber = None, ft_cb = cb, ft_thread = thr\<rparr>"

record 'cb scheduler =
  m_fibers :: "'cb task list"
  m_threads :: "int list"
  m_threadIds :: "int list"
  m_rootFiber :: "nat option"
  m_threadCount :: nat
  m_activeThreadCount :: u64
  m_idleThreadCount :: u64
  m_stopping :: bool
  m_autoStop :: bool
  m_rootThread :: int

datatype sched_error = SchedAssert | SwapAssert | DeadFiber | NoFiber

section \<open>Construction, start and stop\<close>

text \<open>
  \<open>Scheduler(threads, use_caller, name)\<close> on the thread \<open>me\<close>; \<open>root\<close> is the address of the root fiber
  and \<open>has_sched\<close> says whether the thread already has a scheduler.
\<close>

definition Scheduler_new :: "nat \<Rightarrow> bool \<Rightarrow> int \<Rightarrow> nat \<Rightarrow> bool \<Rightarrow> sched_error + 'cb scheduler" where
  "Scheduler_new threads use_caller me root has_sched =
     (if \<not> 0 < threads then Inl SchedAssert
      else if use_caller \<and> has_sched then Inl SchedAssert
      else Inr \<lparr>m_fibers = [], m_threads = [],
             m_threadIds = (if use_caller then [me] else []),
             m_rootFiber = (if use_caller then Some root else None),
             m_threadCount = (if use_caller then threads - 1 else threads),
             m_activeThreadCount = 0, m_idleThreadCount = 0, m_stopping = True, m_autoStop = False,
             m_rootThread = (if use_caller then me else -1)\<rparr>)"

text \<open>\<open>start\<close>; \<open>ids\<close> are the identifiers of the threads it makes.\<close>

definition start :: "'cb scheduler \<Rightarrow> int list \<Rightarrow> sched_error + 'cb scheduler" where
  "start s ids =
     (if \<not> m_stopping s then Inr s
      else if m_threads s \<noteq> [] then Inl SchedAssert
      else Inr (s\<lparr>m_stopping := False, m_threads := take (m_threadCount s) ids,
                  m_threadIds := m_threadIds s @ take (m_threadCount s) ids\<rparr>))"

definition stopping :: "'cb scheduler \<Rightarrow> bool" where
  "stopping s \<longleftrightarrow> m_autoStop s \<and> m_stopping s \<and> m_fibers s = [] \<and> m_activeThreadCount s = 0"

text \<open>
  \<open>stop\<close> up to the call of the root fiber: it returns at once, or it wakes the workers \<open>n\<close> times and
  then runs the root fiber if the flag says so. \<open>virt\<close> is the virtual \<open>stopping()\<close>, \<open>here\<close> says whether
  \<open>GetThis() == this\<close>.
\<close>

datatype stop_plan = StopReturn | StopGo nat bool

definition stop :: "('cb scheduler \<Rightarrow> bool) \<Rightarrow> (nat \<Rightarrow> State) \<Rightarrow> bool \<Rightarrow> 'cb scheduler \<Rightarrow>
    sched_error + 'cb scheduler \<times> stop_plan" where
  "stop virt st here s =
     (let s1 = s\<lparr>m_autoStop := True\<rparr>;
          idle_root = (case m_rootFiber s of None \<Rightarrow> False
             | Some r \<Rightarrow> m_threadCount s = 0 \<and> (st r = TERM' \<or> st r = INIT));
          s2 = (if idle_root then s1\<lparr>m_stopping := True\<rparr> else s1)
      in if idle_root \<and> virt s2 then Inr (s2, StopReturn)
         else if m_rootThread s \<noteq> -1 \<and> \<not> here then Inl SchedAssert
         else if m_rootThread s = -1 \<and> here then Inl SchedAssert
         else let s3 = s2\<lparr>m_stopping := True\<rparr>
              in Inr (s3, StopGo (m_threadCount s + (if m_rootFiber s \<noteq> None then 1 else 0))
                                 (m_rootFiber s \<noteq> None \<and> \<not> virt s3)))"

text \<open>The end of \<open>stop\<close>: the threads to join.\<close>

definition stop_join :: "'cb scheduler \<Rightarrow> 'cb scheduler \<times> int list" where
  "stop_join s = (s\<lparr>m_threads := []\<rparr>, m_threads s)"

section \<open>Scheduling\<close>

text \<open>The flags returned say whether \<open>tickle()\<close> is called.\<close>

definition scheduleNoLock :: "'cb scheduler \<Rightarrow> 'cb task \<Rightarrow> 'cb scheduler \<times> bool" where
  "scheduleNoLock s ft =
     (let need_tickle = (m_fibers s = [])
      in (if ft_fiber ft \<noteq> None \<or> ft_cb ft \<noteq> None then s\<lparr>m_fibers := m_fibers s @ [ft]\<rparr> else s,
          need_tickle))"

definition schedule :: "'cb scheduler \<Rightarrow> 'cb task \<Rightarrow> 'cb scheduler \<times> bool" where
  "schedule s ft = scheduleNoLock s ft"

fun schedule_range :: "'cb scheduler \<Rightarrow> 'cb task list \<Rightarrow> bool \<Rightarrow> 'cb scheduler \<times> bool" where
  "schedule_range s [] need_tickle = (s, need_tickle)"
| "schedule_range s (ft # fts) need_tickle =
     (let (s1, n) = scheduleNoLock s ft in schedule_range s1 fts (n \<or> need_tickle))"

definition hasIdleThreads :: "'cb scheduler \<Rightarrow> bool" where
  "hasIdleThreads s \<longleftrightarrow> 0 < m_idleThreadCount s"

section \<open>The loop of run\<close>

text \<open>
  The scan of the queue under the lock: the task taken with the queue left, and whether a task of
  another thread was passed over.
\<close>

fun scan :: "(nat \<Rightarrow> State) \<Rightarrow> int \<Rightarrow> 'cb task list \<Rightarrow>
    sched_error + ('cb task \<times> 'cb task list) option \<times> bool" where
  "scan st me [] = Inr (None, False)"
| "scan st me (t # ts) =
     (if ft_thread t \<noteq> -1 \<and> ft_thread t \<noteq> me then
        (case scan st me ts of Inl e \<Rightarrow> Inl e
         | Inr (r, _) \<Rightarrow> Inr (map_option (\<lambda>(x, rest). (x, t # rest)) r, True))
      else if ft_fiber t = None \<and> ft_cb t = None then Inl SchedAssert
      else if (case ft_fiber t of None \<Rightarrow> False | Some f \<Rightarrow> st f = EXEC) then
        (case scan st me ts of Inl e \<Rightarrow> Inl e
         | Inr (r, tk) \<Rightarrow> Inr (map_option (\<lambda>(x, rest). (x, t # rest)) r, tk))
      else Inr (Some (t, ts), False))"

text \<open>The critical section: the new \<open>ft\<close>, \<open>is_active\<close> and \<open>tickle_me\<close>.\<close>

definition take_task :: "'cb scheduler \<Rightarrow> (nat \<Rightarrow> State) \<Rightarrow> int \<Rightarrow>
    sched_error + 'cb scheduler \<times> 'cb task \<times> bool \<times> bool" where
  "take_task s st me =
     (case scan st me (m_fibers s) of Inl e \<Rightarrow> Inl e
      | Inr (None, tickle_me) \<Rightarrow> Inr (s, null_task, False, tickle_me)
      | Inr (Some (ft, rest), tickle_me) \<Rightarrow>
          Inr (s\<lparr>m_fibers := rest, m_activeThreadCount := m_activeThreadCount s + 1\<rparr>, ft, True, tickle_me))"

text \<open>The choice that the loop makes with the task.\<close>

datatype 'cb action = SwapFiber nat | RunCb 'cb | NextRound | LeaveLoop | SwapIdle

definition dispatch :: "(nat \<Rightarrow> State) \<Rightarrow> 'cb task \<Rightarrow> bool \<Rightarrow> State \<Rightarrow> 'cb action" where
  "dispatch st ft is_active idle_state =
     (case ft_fiber ft of
        Some f \<Rightarrow> if st f \<noteq> TERM' \<or> st f \<noteq> EXCEPT then SwapFiber f
                  else (case ft_cb ft of Some c \<Rightarrow> RunCb c | None \<Rightarrow> NextRound)
      | None \<Rightarrow> (case ft_cb ft of
          Some c \<Rightarrow> RunCb c
        | None \<Rightarrow> if is_active then NextRound
                  else if idle_state = TERM' then LeaveLoop else SwapIdle))"

section \<open>The interleaving of several threads\<close>

text \<open>
  Where a thread is in the loop. \<open>Left\<close> and \<open>Mark\<close> are the points after the switch back, before
  \<open>--m_activeThreadCount\<close> and before the state of the fiber is looked at.
\<close>

datatype 'cb pc = AtLoop | Chosen "'cb task" bool bool
  | InFiber nat | LeftFiber nat | MarkFiber nat
  | InCb nat | LeftCb nat | MarkCb nat
  | InIdle | LeftIdle | MarkIdle | Gone

text \<open>
  The state of all threads. \<open>w_queued\<close>, \<open>w_started\<close> and \<open>w_rounds\<close> only record what has happened: the
  tasks that were put into the queue, the tasks that were started and by which thread, and the number
  of idle rounds. \<open>w_next\<close> is the next free address of a fiber.
\<close>

record 'cb world =
  w_s :: "'cb scheduler"
  w_st :: "nat \<Rightarrow> State option"
  w_next :: nat
  w_ids :: "int list"
  w_pc :: "int \<Rightarrow> 'cb pc"
  w_idle :: "int \<Rightarrow> nat"
  w_cbf :: "int \<Rightarrow> nat option"
  w_queued :: "'cb task list"
  w_started :: "(int \<times> 'cb task) list"
  w_rounds :: nat

definition st_of :: "'cb world \<Rightarrow> nat \<Rightarrow> State" where
  "st_of w f = (case w_st w f of None \<Rightarrow> TERM' | Some s \<Rightarrow> s)"

definition goto :: "'cb world \<Rightarrow> int \<Rightarrow> 'cb pc \<Rightarrow> 'cb world" where
  "goto w th p = w\<lparr>w_pc := (w_pc w)(th := p)\<rparr>"

text \<open>\<open>swapIn\<close> as the scheduler sees it: the assert, the fiber that has ended, the new state.\<close>

definition enter :: "'cb world \<Rightarrow> nat \<Rightarrow> sched_error + 'cb world" where
  "enter w f =
     (case w_st w f of None \<Rightarrow> Inl NoFiber
      | Some s \<Rightarrow> if s = EXEC then Inl SwapAssert
                  else if s = TERM' \<or> s = EXCEPT then Inl DeadFiber
                  else Inr (w\<lparr>w_st := (w_st w)(f \<mapsto> EXEC)\<rparr>))"

text \<open>Putting a task into the queue, with the record of what was queued.\<close>

definition enqueue :: "'cb world \<Rightarrow> 'cb task \<Rightarrow> 'cb world" where
  "enqueue w ft =
     (if ft_fiber ft \<noteq> None \<or> ft_cb ft \<noteq> None
      then w\<lparr>w_s := fst (schedule (w_s w) ft), w_queued := w_queued w @ [ft]\<rparr> else w)"

text \<open>The fiber for a callback: \<open>cb_fiber->reset(ft.cb)\<close> or a new one.\<close>

definition cb_fiber :: "'cb world \<Rightarrow> int \<Rightarrow> sched_error + 'cb world \<times> nat" where
  "cb_fiber w th =
     (case w_cbf w th of
        Some g \<Rightarrow> (case w_st w g of None \<Rightarrow> Inl NoFiber
          | Some s \<Rightarrow> if s = TERM' \<or> s = INIT \<or> s = EXCEPT
                      then Inr (w\<lparr>w_st := (w_st w)(g \<mapsto> INIT)\<rparr>, g) else Inl SchedAssert)
      | None \<Rightarrow> Inr (w\<lparr>w_st := (w_st w)(w_next w \<mapsto> INIT), w_next := Suc (w_next w),
                       w_cbf := (w_cbf w)(th \<mapsto> w_next w)\<rparr>, w_next w))"

text \<open>What follows the switch back from a fiber, from a callback's fiber and from the idle fiber.\<close>

definition after_fiber :: "'cb world \<Rightarrow> nat \<Rightarrow> 'cb world" where
  "after_fiber w f =
     (if st_of w f = READY then enqueue w (fiber_task f (-1))
      else if st_of w f \<noteq> TERM' \<and> st_of w f \<noteq> EXCEPT then w\<lparr>w_st := (w_st w)(f \<mapsto> HOLD)\<rparr>
      else w)"

definition after_cb :: "'cb world \<Rightarrow> int \<Rightarrow> nat \<Rightarrow> 'cb world" where
  "after_cb w th g =
     (if st_of w g = READY then (enqueue w (fiber_task g (-1)))\<lparr>w_cbf := (w_cbf w)(th := None)\<rparr>
      else if st_of w g = EXCEPT \<or> st_of w g = TERM' then w\<lparr>w_st := (w_st w)(g \<mapsto> INIT)\<rparr>
      else w\<lparr>w_st := (w_st w)(g \<mapsto> HOLD), w_cbf := (w_cbf w)(th := None)\<rparr>)"

definition after_idle :: "'cb world \<Rightarrow> nat \<Rightarrow> 'cb world" where
  "after_idle w f =
     (if st_of w f \<noteq> TERM' \<and> st_of w f \<noteq> EXCEPT then w\<lparr>w_st := (w_st w)(f \<mapsto> HOLD)\<rparr> else w)"

definition sub_active :: "'cb world \<Rightarrow> 'cb world" where
  "sub_active w = w\<lparr>w_s := (w_s w)\<lparr>m_activeThreadCount := m_activeThreadCount (w_s w) - 1\<rparr>\<rparr>"

definition sub_idle :: "'cb world \<Rightarrow> 'cb world" where
  "sub_idle w = w\<lparr>w_s := (w_s w)\<lparr>m_idleThreadCount := m_idleThreadCount (w_s w) - 1\<rparr>,
                  w_rounds := Suc (w_rounds w)\<rparr>"

text \<open>One action of a thread with a chosen task.\<close>

definition act_chosen :: "'cb world \<Rightarrow> int \<Rightarrow> 'cb task \<Rightarrow> bool \<Rightarrow> sched_error + 'cb world" where
  "act_chosen w th ft is_active =
     (case dispatch (st_of w) ft is_active (st_of w (w_idle w th)) of
        SwapFiber f \<Rightarrow> (case enter w f of Inl e \<Rightarrow> Inl e
          | Inr w1 \<Rightarrow> Inr (goto (w1\<lparr>w_started := w_started w @ [(th, ft)]\<rparr>) th (InFiber f)))
      | RunCb c \<Rightarrow> (case cb_fiber w th of Inl e \<Rightarrow> Inl e
          | Inr (w1, g) \<Rightarrow> (case enter w1 g of Inl e \<Rightarrow> Inl e
             | Inr w2 \<Rightarrow> Inr (goto (w2\<lparr>w_started := w_started w @ [(th, ft)]\<rparr>) th (InCb g))))
      | NextRound \<Rightarrow> Inr (goto (if is_active then sub_active w else w) th AtLoop)
      | LeaveLoop \<Rightarrow> Inr (goto w th Gone)
      | SwapIdle \<Rightarrow> (case enter w (w_idle w th) of Inl e \<Rightarrow> Inl e | Inr w1 \<Rightarrow> Inr (goto w1 th InIdle)))"

text \<open>The next action of the thread \<open>th\<close>; in a fiber it is up to the user's code.\<close>

definition act :: "'cb world \<Rightarrow> int \<Rightarrow> sched_error + 'cb world" where
  "act w th =
     (case w_pc w th of
        AtLoop \<Rightarrow> (case take_task (w_s w) (st_of w) th of Inl e \<Rightarrow> Inl e
          | Inr (s, ft, is_active, tickle_me) \<Rightarrow> Inr (goto (w\<lparr>w_s := s\<rparr>) th (Chosen ft is_active tickle_me)))
      | Chosen ft is_active _ \<Rightarrow> act_chosen w th ft is_active
      | InFiber _ \<Rightarrow> Inr w
      | LeftFiber f \<Rightarrow> Inr (goto (sub_active w) th (MarkFiber f))
      | MarkFiber f \<Rightarrow> Inr (goto (after_fiber w f) th AtLoop)
      | InCb _ \<Rightarrow> Inr w
      | LeftCb g \<Rightarrow> Inr (goto (sub_active w) th (MarkCb g))
      | MarkCb g \<Rightarrow> Inr (goto (after_cb w th g) th AtLoop)
      | InIdle \<Rightarrow> Inr (goto (if stopping (w_s w)
                            then w\<lparr>w_st := (w_st w)(w_idle w th \<mapsto> TERM')\<rparr> else w) th LeftIdle)
      | LeftIdle \<Rightarrow> Inr (goto (sub_idle w) th MarkIdle)
      | MarkIdle \<Rightarrow> Inr (goto (after_idle w (w_idle w th)) th AtLoop)
      | Gone \<Rightarrow> Inr w)"

text \<open>
  The events of the machine: an action of a thread, and what user code does: the fiber that runs on a
  thread yields or ends (normally or by an exception), a fiber is made, a task is scheduled, and the
  scheduler is asked to stop.
\<close>

datatype 'cb event = Act int | Yields int | Ends int bool | NewFiber | Schedules "'cb task" | AskStop

definition leave :: "'cb world \<Rightarrow> int \<Rightarrow> 'cb world" where
  "leave w th =
     (case w_pc w th of InFiber f \<Rightarrow> goto w th (LeftFiber f) | InCb g \<Rightarrow> goto w th (LeftCb g) | _ \<Rightarrow> w)"

definition end_state :: "'cb world \<Rightarrow> int \<Rightarrow> bool \<Rightarrow> 'cb world" where
  "end_state w th ok =
     (let v = (if ok then TERM' else EXCEPT) in
      case w_pc w th of InFiber f \<Rightarrow> w\<lparr>w_st := (w_st w)(f \<mapsto> v)\<rparr>
      | InCb g \<Rightarrow> w\<lparr>w_st := (w_st w)(g \<mapsto> v)\<rparr> | _ \<Rightarrow> w)"

fun step :: "'cb world \<Rightarrow> 'cb event \<Rightarrow> sched_error + 'cb world" where
  "step w (Act th) = (if th \<in> set (w_ids w) then act w th else Inr w)"
| "step w (Yields th) = Inr (leave w th)"
| "step w (Ends th ok) = Inr (leave (end_state w th ok) th)"
| "step w NewFiber = Inr (w\<lparr>w_st := (w_st w)(w_next w \<mapsto> INIT), w_next := Suc (w_next w)\<rparr>)"
| "step w (Schedules ft) = Inr (enqueue w ft)"
| "step w AskStop = Inr (w\<lparr>w_s := (w_s w)\<lparr>m_autoStop := True, m_stopping := True\<rparr>\<rparr>)"

text \<open>The threads at the start of \<open>run\<close>, each with its idle fiber.\<close>

definition world_start :: "'cb scheduler \<Rightarrow> int list \<Rightarrow> 'cb world" where
  "world_start s ids =
     \<lparr>w_s = s, w_st = (\<lambda>f. if f < length ids then Some INIT else None), w_next = length ids,
      w_ids = ids, w_pc = (\<lambda>th. if th \<in> set ids then AtLoop else Gone),
      w_idle = (\<lambda>th. length (takeWhile (\<lambda>i. i \<noteq> th) ids)), w_cbf = (\<lambda>_. None),
      w_queued = [], w_started = [], w_rounds = 0\<rparr>"


section \<open>Destruction\<close>

text \<open>The destructor; the result says whether the thread loses its scheduler.\<close>

definition Scheduler_delete :: "bool \<Rightarrow> 'cb scheduler \<Rightarrow> sched_error + bool" where
  "Scheduler_delete here s = (if \<not> m_stopping s then Inl SchedAssert else Inr here)"

end
