(* ===== verification/Scheduler_Inv.thy ===== *)
theory Scheduler_Inv
  imports Scheduler
begin

text \<open>
  The invariant of the interleaved scheduler threads: every fiber has one place (parked, queued, taken
  by a thread, on the stack of a thread, kept as a spare or idle fiber of a thread), the state of the
  fiber fits the place, and the queue holds no fiber twice.
\<close>

section \<open>The scan of the queue\<close>

definition eligible :: "(nat \<Rightarrow> State) \<Rightarrow> int \<Rightarrow> 'cb task \<Rightarrow> bool" where
  "eligible st me t \<longleftrightarrow> (ft_thread t = -1 \<or> ft_thread t = me) \<and>
     (case ft_fiber t of None \<Rightarrow> True | Some f \<Rightarrow> st f \<noteq> EXEC)"

definition task_ok :: "'cb task \<Rightarrow> bool" where
  "task_ok t \<longleftrightarrow> (ft_fiber t = None) \<noteq> (ft_cb t = None)"

definition chosen_ok :: "'cb task \<Rightarrow> bool \<Rightarrow> bool" where
  "chosen_ok ft a \<longleftrightarrow> (if a then task_ok ft else ft = null_task)"

lemma scan_None:
  "scan st me ts = Inr (None, tk) \<Longrightarrow> \<forall>t \<in> set ts. \<not> eligible st me t"
proof (induction ts arbitrary: tk)
  case (Cons x xs)
  then obtain k where "scan st me xs = Inr (None, k)"
    by (auto split: if_splits sum.splits option.splits)
  moreover have "\<not> eligible st me x"
    using Cons.prems by (auto simp: eligible_def split: if_splits option.splits)
  ultimately show ?case using Cons.IH by simp
qed simp

lemma scan_Some:
  "scan st me ts = Inr (Some (t, rest), tk) \<Longrightarrow>
    \<exists>pre post. ts = pre @ t # post \<and> rest = pre @ post \<and> eligible st me t \<and>
      (\<forall>x \<in> set pre. \<not> eligible st me x) \<and> (tk \<longleftrightarrow> (\<exists>x \<in> set pre. ft_thread x \<noteq> -1 \<and> ft_thread x \<noteq> me))"
proof (induction ts arbitrary: rest tk)
  case (Cons x xs)
  show ?case
  proof (cases "eligible st me x")
    case True
    then have "x = t \<and> rest = xs \<and> \<not> tk" using Cons.prems
      by (auto simp: eligible_def split: if_splits option.splits)
    then show ?thesis using True by (intro exI [of _ "[]"] exI [of _ xs]) auto
  next
    case False
    then obtain r tk' where r: "scan st me xs = Inr (Some (t, r), tk')" "rest = x # r"
      "tk = (if ft_thread x \<noteq> -1 \<and> ft_thread x \<noteq> me then True else tk')"
      using Cons.prems by (auto simp: eligible_def split: if_splits option.splits sum.splits)
    from Cons.IH [OF r(1)] obtain pre post where
      "xs = pre @ t # post \<and> r = pre @ post \<and> eligible st me t \<and> (\<forall>y \<in> set pre. \<not> eligible st me y) \<and>
        (tk' \<longleftrightarrow> (\<exists>y \<in> set pre. ft_thread y \<noteq> -1 \<and> ft_thread y \<noteq> me))" by blast
    then show ?thesis using r False by (intro exI [of _ "x # pre"] exI [of _ post]) auto
  qed
qed simp

lemma scan_ok: "\<forall>t \<in> set ts. task_ok t \<Longrightarrow> \<exists>r. scan st me ts = Inr r"
  by (induction ts) (auto simp: task_ok_def split: option.splits sum.splits)

section \<open>Places\<close>

datatype place = Nowhere | Parked | Queued | Taken int | On int bool | Spare int | Idle int

fun place_ok :: "place \<Rightarrow> State option \<Rightarrow> bool" where
  "place_ok Nowhere s = (s = None)"
| "place_ok Parked s = (s \<noteq> None \<and> s \<noteq> Some EXEC \<and> s \<noteq> Some READY)"
| "place_ok Queued s = (s = Some INIT \<or> s = Some HOLD)"
| "place_ok (Taken th) s = (s = Some INIT \<or> s = Some HOLD)"
| "place_ok (On th q) s = (s = Some EXEC \<or> \<not> q \<and> (s = Some TERM' \<or> s = Some EXCEPT))"
| "place_ok (Spare th) s = (s = Some INIT)"
| "place_ok (Idle th) s = (s = Some INIT \<or> s = Some HOLD \<or> s = Some EXEC \<or> s = Some TERM')"

fun stack_fiber :: "'cb pc \<Rightarrow> nat option" where
  "stack_fiber (InFiber f) = Some f"
| "stack_fiber (LeftFiber f) = Some f"
| "stack_fiber (MarkFiber f) = Some f"
| "stack_fiber (InCb f) = Some f"
| "stack_fiber (LeftCb f) = Some f"
| "stack_fiber (MarkCb f) = Some f"
| "stack_fiber _ = None"

fun taken_fiber :: "'cb pc \<Rightarrow> nat option" where
  "taken_fiber (Chosen ft a k) = ft_fiber ft"
| "taken_fiber _ = None"

fun cb_pc :: "'cb pc \<Rightarrow> nat option" where
  "cb_pc (InCb f) = Some f"
| "cb_pc (LeftCb f) = Some f"
| "cb_pc (MarkCb f) = Some f"
| "cb_pc _ = None"

fun idle_ok :: "'cb pc \<Rightarrow> State option \<Rightarrow> bool" where
  "idle_ok InIdle s = (s = Some EXEC)"
| "idle_ok LeftIdle s = (s = Some EXEC \<or> s = Some TERM')"
| "idle_ok MarkIdle s = (s = Some EXEC \<or> s = Some TERM')"
| "idle_ok _ s = (s = Some INIT \<or> s = Some HOLD \<or> s = Some TERM')"

definition qfibers :: "'cb scheduler \<Rightarrow> nat list" where
  "qfibers s = List.map_filter ft_fiber (m_fibers s)"

definition sched_inv :: "'cb world \<Rightarrow> (nat \<Rightarrow> place) \<Rightarrow> bool" where
  "sched_inv w pl \<longleftrightarrow>
     (\<forall>f. place_ok (pl f) (w_st w f)) \<and>
     (\<forall>f. w_next w \<le> f \<longrightarrow> pl f = Nowhere) \<and>
     (\<forall>th f. stack_fiber (w_pc w th) = Some f \<longleftrightarrow> (\<exists>q. pl f = On th q)) \<and>
     (\<forall>th f. taken_fiber (w_pc w th) = Some f \<longleftrightarrow> pl f = Taken th) \<and>
     (\<forall>f. f \<in> set (qfibers (w_s w)) \<longleftrightarrow> pl f = Queued \<or> (\<exists>th. pl f = On th True)) \<and>
     distinct (qfibers (w_s w)) \<and>
     (\<forall>th f. pl f = Idle th \<longleftrightarrow> th \<in> set (w_ids w) \<and> f = w_idle w th) \<and>
     (\<forall>th. th \<in> set (w_ids w) \<longrightarrow> idle_ok (w_pc w th) (w_st w (w_idle w th))) \<and>
     (\<forall>th g. w_cbf w th = Some g \<longleftrightarrow> pl g = Spare th \<or> cb_pc (w_pc w th) = Some g) \<and>
     (\<forall>th f. w_pc w th = InFiber f \<or> w_pc w th = InCb f \<longrightarrow> w_st w f = Some EXEC) \<and>
     (\<forall>t \<in> set (m_fibers (w_s w)). task_ok t) \<and>
     (\<forall>th ft a k. w_pc w th = Chosen ft a k \<longrightarrow> chosen_ok ft a) \<and>
     (\<forall>th. th \<notin> set (w_ids w) \<longrightarrow> w_pc w th = Gone \<and> w_cbf w th = None)"

lemma sched_invI:
  assumes "\<And>f. place_ok (pl f) (w_st w f)" and "\<And>f. w_next w \<le> f \<Longrightarrow> pl f = Nowhere"
    and "\<And>th f. stack_fiber (w_pc w th) = Some f \<longleftrightarrow> (\<exists>q. pl f = On th q)"
    and "\<And>th f. taken_fiber (w_pc w th) = Some f \<longleftrightarrow> pl f = Taken th"
    and "\<And>f. f \<in> set (qfibers (w_s w)) \<longleftrightarrow> pl f = Queued \<or> (\<exists>th. pl f = On th True)"
    and "distinct (qfibers (w_s w))"
    and "\<And>th f. pl f = Idle th \<longleftrightarrow> th \<in> set (w_ids w) \<and> f = w_idle w th"
    and "\<And>th. th \<in> set (w_ids w) \<Longrightarrow> idle_ok (w_pc w th) (w_st w (w_idle w th))"
    and "\<And>th g. w_cbf w th = Some g \<longleftrightarrow> pl g = Spare th \<or> cb_pc (w_pc w th) = Some g"
    and "\<And>th f. w_pc w th = InFiber f \<or> w_pc w th = InCb f \<Longrightarrow> w_st w f = Some EXEC"
    and "\<And>t. t \<in> set (m_fibers (w_s w)) \<Longrightarrow> task_ok t"
    and "\<And>th ft a k. w_pc w th = Chosen ft a k \<Longrightarrow> chosen_ok ft a"
    and "\<And>th. th \<notin> set (w_ids w) \<Longrightarrow> w_pc w th = Gone \<and> w_cbf w th = None"
  shows "sched_inv w pl"
  unfolding sched_inv_def using assms by blast

lemma sched_invD:
  assumes "sched_inv w pl"
  shows "place_ok (pl f) (w_st w f)"
    "w_next w \<le> f \<Longrightarrow> pl f = Nowhere"
    "stack_fiber (w_pc w th) = Some f \<longleftrightarrow> (\<exists>q. pl f = On th q)"
    "taken_fiber (w_pc w th) = Some f \<longleftrightarrow> pl f = Taken th"
    "f \<in> set (qfibers (w_s w)) \<longleftrightarrow> pl f = Queued \<or> (\<exists>th. pl f = On th True)"
    "distinct (qfibers (w_s w))"
    "pl f = Idle th \<longleftrightarrow> th \<in> set (w_ids w) \<and> f = w_idle w th"
    "th \<in> set (w_ids w) \<Longrightarrow> idle_ok (w_pc w th) (w_st w (w_idle w th))"
    "w_cbf w th = Some g \<longleftrightarrow> pl g = Spare th \<or> cb_pc (w_pc w th) = Some g"
    "w_pc w th = InFiber f \<or> w_pc w th = InCb f \<Longrightarrow> w_st w f = Some EXEC"
    "t \<in> set (m_fibers (w_s w)) \<Longrightarrow> task_ok t"
    "w_pc w th = Chosen ft a k \<Longrightarrow> chosen_ok ft a"
    "th \<notin> set (w_ids w) \<Longrightarrow> w_pc w th = Gone \<and> w_cbf w th = None"
proof -
  note inv = assms [unfolded sched_inv_def]
  show "place_ok (pl f) (w_st w f)" using inv by (elim conjE) blast
  show "w_next w \<le> f \<Longrightarrow> pl f = Nowhere" using inv by (elim conjE) blast
  show "stack_fiber (w_pc w th) = Some f \<longleftrightarrow> (\<exists>q. pl f = On th q)" using inv by (elim conjE) blast
  show "taken_fiber (w_pc w th) = Some f \<longleftrightarrow> pl f = Taken th" using inv by (elim conjE) blast
  show "f \<in> set (qfibers (w_s w)) \<longleftrightarrow> pl f = Queued \<or> (\<exists>th. pl f = On th True)" using inv by (elim conjE) blast
  show "distinct (qfibers (w_s w))" using inv by (elim conjE) blast
  show "pl f = Idle th \<longleftrightarrow> th \<in> set (w_ids w) \<and> f = w_idle w th" using inv by (elim conjE) blast
  show "th \<in> set (w_ids w) \<Longrightarrow> idle_ok (w_pc w th) (w_st w (w_idle w th))" using inv by (elim conjE) blast
  show "w_cbf w th = Some g \<longleftrightarrow> pl g = Spare th \<or> cb_pc (w_pc w th) = Some g" using inv by (elim conjE) blast
  show "w_pc w th = InFiber f \<or> w_pc w th = InCb f \<Longrightarrow> w_st w f = Some EXEC" using inv by (elim conjE) blast
  show "t \<in> set (m_fibers (w_s w)) \<Longrightarrow> task_ok t" using inv by (elim conjE) blast
  have "\<forall>th ft a k. w_pc w th = Chosen ft a k \<longrightarrow> chosen_ok ft a" using inv by (elim conjE)
  then show "w_pc w th = Chosen ft a k \<Longrightarrow> chosen_ok ft a" by iprover
  have "\<forall>th. th \<notin> set (w_ids w) \<longrightarrow> w_pc w th = Gone \<and> w_cbf w th = None" using inv by (elim conjE)
  then show "th \<notin> set (w_ids w) \<Longrightarrow> w_pc w th = Gone \<and> w_cbf w th = None" by iprover
qed

section \<open>Changing one thread and one fiber\<close>

text \<open>
  The workhorse: thread \<open>th\<close> goes to \<open>p\<close>, fiber \<open>f\<close> goes to the place \<open>P\<close> with state \<open>v\<close>, and the
  queue stays. The conditions only speak of \<open>th\<close> and \<open>f\<close>.
\<close>

lemma move_inv:
  assumes inv: "sched_inv w pl"
    and w': "w_st w' = (w_st w)(f := v)" "w_next w' = w_next w" "w_ids w' = w_ids w"
      "w_pc w' = (w_pc w)(th := p)" "w_idle w' = w_idle w" "m_fibers (w_s w') = m_fibers (w_s w)"
    and th: "th \<in> set (w_ids w)"
    and pl: "place_ok P v" "v \<noteq> None" "pl f \<noteq> Nowhere"
    and self: "\<And>g. stack_fiber p = Some g \<longleftrightarrow> (\<exists>q. (pl(f := P)) g = On th q)"
      "\<And>g. taken_fiber p = Some g \<longleftrightarrow> (pl(f := P)) g = Taken th"
      "\<And>g. w_cbf w' th = Some g \<longleftrightarrow> (pl(f := P)) g = Spare th \<or> cb_pc p = Some g"
    and others: "\<And>t. t \<noteq> th \<Longrightarrow> w_cbf w' t = w_cbf w t"
      "\<And>t q. t \<noteq> th \<Longrightarrow> pl f \<noteq> On t q \<and> P \<noteq> On t q"
      "\<And>t. t \<noteq> th \<Longrightarrow> pl f \<noteq> Taken t \<and> P \<noteq> Taken t"
      "\<And>t. t \<noteq> th \<Longrightarrow> pl f \<noteq> Spare t \<and> P \<noteq> Spare t"
      "\<And>t. t \<noteq> th \<Longrightarrow> pl f \<noteq> Idle t"
      "\<And>t. pl f = Idle t \<longleftrightarrow> P = Idle t"
    and queue: "(pl f = Queued \<or> (\<exists>t. pl f = On t True)) \<longleftrightarrow> (P = Queued \<or> (\<exists>t. P = On t True))"
    and idle: "idle_ok p (if f = w_idle w th then v else w_st w (w_idle w th))"
    and run: "\<And>g. p = InFiber g \<or> p = InCb g \<Longrightarrow> ((w_st w)(f := v)) g = Some EXEC"
    and chosen: "\<And>ft a k. p = Chosen ft a k \<Longrightarrow> chosen_ok ft a"
  shows "sched_inv w' (pl(f := P))"
proof (rule sched_invI)
  fix g t
  show "place_ok ((pl(f := P)) g) (w_st w' g)" using sched_invD(1) [OF inv, of g] pl w'(1) by simp
  show "w_next w' \<le> g \<Longrightarrow> (pl(f := P)) g = Nowhere" using sched_invD(2) [OF inv, of g] pl(3) w'(2) by auto
  show "stack_fiber (w_pc w' t) = Some g \<longleftrightarrow> (\<exists>q. (pl(f := P)) g = On t q)"
    using sched_invD(3) [OF inv, of t g] self(1) others(2) [of t] w'(4) by (cases "t = th") auto
  show "taken_fiber (w_pc w' t) = Some g \<longleftrightarrow> (pl(f := P)) g = Taken t"
    using sched_invD(4) [OF inv, of t g] self(2) others(3) [of t] w'(4) by (cases "t = th") auto
  have qf: "qfibers (w_s w') = qfibers (w_s w)" using w'(6) by (simp add: qfibers_def)
  show "g \<in> set (qfibers (w_s w')) \<longleftrightarrow> (pl(f := P)) g = Queued \<or> (\<exists>th. (pl(f := P)) g = On th True)"
    using sched_invD(5) [OF inv, of g] queue qf by auto
  show "distinct (qfibers (w_s w'))" using sched_invD(6) [OF inv] qf by simp
  show "(pl(f := P)) g = Idle t \<longleftrightarrow> t \<in> set (w_ids w') \<and> g = w_idle w' t"
    using sched_invD(7) [OF inv, of g t] others(6) [of t] w'(3,5) by auto
  show "t \<in> set (w_ids w') \<Longrightarrow> idle_ok (w_pc w' t) (w_st w' (w_idle w' t))"
    using sched_invD(7) [OF inv, of f t] sched_invD(8) [OF inv, of t] others(5) [of t] idle w' by (cases "t = th") auto
  show "w_cbf w' t = Some g \<longleftrightarrow> (pl(f := P)) g = Spare t \<or> cb_pc (w_pc w' t) = Some g"
    using sched_invD(9) [OF inv, of t g] self(3) others(1,4) [of t] w'(4) by (cases "t = th") auto
  show "w_pc w' t = InFiber g \<or> w_pc w' t = InCb g \<Longrightarrow> w_st w' g = Some EXEC"
    using sched_invD(3) [OF inv, of t g] sched_invD(10) [OF inv, of t g] run others(2) [of t] w'(1,4)
    by (cases "t = th") auto
  show "t' \<in> set (m_fibers (w_s w')) \<Longrightarrow> task_ok t'" for t' using sched_invD(11) [OF inv] w'(6) by simp
  show "w_pc w' t = Chosen ft a k \<Longrightarrow> chosen_ok ft a" for ft a k
    using sched_invD(12) [OF inv, of t ft a k] chosen w'(4) by (cases "t = th") auto
  show "t \<notin> set (w_ids w') \<Longrightarrow> w_pc w' t = Gone \<and> w_cbf w' t = None"
    using sched_invD(13) [OF inv, of t] w'(3,4) th others(1) [of t] by auto
qed

text \<open>A thread goes to a point where it holds the same fibers, and no fiber moves.\<close>

lemma keep_inv:
  assumes inv: "sched_inv w pl"
    and w': "w_st w' = w_st w" "w_next w' = w_next w" "w_ids w' = w_ids w"
      "w_pc w' = (w_pc w)(th := p)" "w_idle w' = w_idle w" "w_cbf w' = w_cbf w"
      "qfibers (w_s w') = qfibers (w_s w)"
    and p: "stack_fiber p = stack_fiber (w_pc w th)" "taken_fiber p = taken_fiber (w_pc w th)"
      "cb_pc p = cb_pc (w_pc w th)"
      "th \<in> set (w_ids w) \<Longrightarrow> idle_ok p (w_st w (w_idle w th))"
      "\<And>g. p = InFiber g \<or> p = InCb g \<Longrightarrow> w_st w g = Some EXEC"
      "\<And>ft a k. p = Chosen ft a k \<Longrightarrow> chosen_ok ft a"
      "th \<notin> set (w_ids w) \<Longrightarrow> p = Gone"
    and q: "\<And>t. t \<in> set (m_fibers (w_s w')) \<Longrightarrow> task_ok t"
  shows "sched_inv w' pl"
proof (rule sched_invI)
  fix g t
  show "place_ok (pl g) (w_st w' g)" using sched_invD(1) [OF inv] w'(1) by simp
  show "w_next w' \<le> g \<Longrightarrow> pl g = Nowhere" using sched_invD(2) [OF inv] w'(2) by simp
  show "stack_fiber (w_pc w' t) = Some g \<longleftrightarrow> (\<exists>q. pl g = On t q)"
    using sched_invD(3) [OF inv, of t g] w'(4) p(1) by (cases "t = th") auto
  show "taken_fiber (w_pc w' t) = Some g \<longleftrightarrow> pl g = Taken t"
    using sched_invD(4) [OF inv, of t g] w'(4) p(2) by (cases "t = th") auto
  show "g \<in> set (qfibers (w_s w')) \<longleftrightarrow> pl g = Queued \<or> (\<exists>th. pl g = On th True)"
    using sched_invD(5) [OF inv] w'(7) by simp
  show "distinct (qfibers (w_s w'))" using sched_invD(6) [OF inv] w'(7) by simp
  show "pl g = Idle t \<longleftrightarrow> t \<in> set (w_ids w') \<and> g = w_idle w' t"
    using sched_invD(7) [OF inv] w'(3,5) by simp
  show "t \<in> set (w_ids w') \<Longrightarrow> idle_ok (w_pc w' t) (w_st w' (w_idle w' t))"
    using sched_invD(8) [OF inv, of t] w' p(4) by (cases "t = th") auto
  show "w_cbf w' t = Some g \<longleftrightarrow> pl g = Spare t \<or> cb_pc (w_pc w' t) = Some g"
    using sched_invD(9) [OF inv, of t g] w'(4,6) p(3) by (cases "t = th") auto
  show "w_pc w' t = InFiber g \<or> w_pc w' t = InCb g \<Longrightarrow> w_st w' g = Some EXEC"
    using sched_invD(10) [OF inv, of t g] w'(1,4) p(5) by (cases "t = th") auto
  show "t' \<in> set (m_fibers (w_s w')) \<Longrightarrow> task_ok t'" for t' by (rule q)
  show "w_pc w' t = Chosen ft a k \<Longrightarrow> chosen_ok ft a" for ft a k
    using sched_invD(12) [OF inv, of t ft a k] w'(4) p(6) by (cases "t = th") auto
  show "t \<notin> set (w_ids w') \<Longrightarrow> w_pc w' t = Gone \<and> w_cbf w' t = None"
    using sched_invD(13) [OF inv, of t] w'(3,4,6) p(7) by (cases "t = th") auto
qed

section \<open>Changing the queue\<close>

lemma map_filter_append: "List.map_filter f (xs @ ys) = List.map_filter f xs @ List.map_filter f ys"
  by (simp add: List.map_filter_def)

lemma qfibers_append: "m_fibers s = xs @ ys \<Longrightarrow> qfibers s = List.map_filter ft_fiber xs @ List.map_filter ft_fiber ys"
  by (simp add: qfibers_def map_filter_append)

text \<open>A thread at the loop head takes the task \<open>t\<close> out of the queue.\<close>

lemma take_inv:
  assumes inv: "sched_inv w pl" and th: "th \<in> set (w_ids w)" and pc: "w_pc w th = AtLoop"
    and q: "m_fibers (w_s w) = pre @ t # post" and el: "eligible (st_of w) th t"
    and s: "m_fibers s = pre @ post"
  shows "sched_inv (goto (w\<lparr>w_s := s\<rparr>) th (Chosen t True k))
    (case ft_fiber t of None \<Rightarrow> pl | Some f \<Rightarrow> pl(f := Taken th))"
proof -
  have tok: "task_ok t" using sched_invD(11) [OF inv, of t] q by simp
  let ?w = "goto (w\<lparr>w_s := s\<rparr>) th (Chosen t True k)"
  have q1: "qfibers (w_s w) = List.map_filter ft_fiber pre @
      (case ft_fiber t of None \<Rightarrow> [] | Some f \<Rightarrow> [f]) @ List.map_filter ft_fiber post"
    using qfibers_append [OF q] by (auto simp: map_filter_simps split: option.splits)
  have q2: "qfibers s = List.map_filter ft_fiber pre @ List.map_filter ft_fiber post"
    using qfibers_append [OF s] .
  show ?thesis
  proof (cases "ft_fiber t")
    case None
    have "sched_inv ?w pl"
      by (rule keep_inv [OF inv, where th = th]) (use sched_invD(8) [OF inv th] sched_invD(11) [OF inv]
        None pc q1 q2 tok q s th in \<open>auto simp: goto_def chosen_ok_def\<close>)
    then show ?thesis using None by simp
  next
    case (Some f)
    have fq: "f \<in> set (qfibers (w_s w))" using q1 Some by simp
    have "st_of w f \<noteq> EXEC" using el Some by (simp add: eligible_def)
    then have pf: "pl f = Queued"
      using sched_invD(5) [OF inv, of f] sched_invD(1) [OF inv, of f] fq by (auto simp: st_of_def)
    have nf: "f \<notin> set (qfibers s)" using sched_invD(6) [OF inv] q1 q2 Some by auto
    have gq: "g \<in> set (qfibers s) \<longleftrightarrow> g \<noteq> f \<and> g \<in> set (qfibers (w_s w))" for g
      using q1 q2 Some nf by auto
    have "sched_inv ?w (pl(f := Taken th))"
    proof (rule sched_invI)
      fix g h
      show "place_ok ((pl(f := Taken th)) g) (w_st ?w g)"
        using sched_invD(1) [OF inv, of g] pf by (auto simp: goto_def)
      show "w_next ?w \<le> g \<Longrightarrow> (pl(f := Taken th)) g = Nowhere"
        using sched_invD(2) [OF inv, of g] pf by (auto simp: goto_def)
      show "stack_fiber (w_pc ?w h) = Some g \<longleftrightarrow> (\<exists>q. (pl(f := Taken th)) g = On h q)"
        using sched_invD(3) [OF inv, of h g] pf pc by (auto simp: goto_def)
      show "taken_fiber (w_pc ?w h) = Some g \<longleftrightarrow> (pl(f := Taken th)) g = Taken h"
        using sched_invD(4) [OF inv, of h g] pf pc Some by (auto simp: goto_def)
      show "g \<in> set (qfibers (w_s ?w)) \<longleftrightarrow> (pl(f := Taken th)) g = Queued \<or> (\<exists>h. (pl(f := Taken th)) g = On h True)"
        using sched_invD(5) [OF inv, of g] gq by (auto simp: goto_def)
      show "distinct (qfibers (w_s ?w))" using sched_invD(6) [OF inv] q1 q2 Some by (simp add: goto_def)
      show "(pl(f := Taken th)) g = Idle h \<longleftrightarrow> h \<in> set (w_ids ?w) \<and> g = w_idle ?w h"
        using sched_invD(7) [OF inv, of g h] pf by (auto simp: goto_def)
      show "h \<in> set (w_ids ?w) \<Longrightarrow> idle_ok (w_pc ?w h) (w_st ?w (w_idle ?w h))"
        using sched_invD(8) [OF inv, of h] pc by (auto simp: goto_def)
      show "w_cbf ?w h = Some g \<longleftrightarrow> (pl(f := Taken th)) g = Spare h \<or> cb_pc (w_pc ?w h) = Some g"
        using sched_invD(9) [OF inv, of h g] pf pc by (auto simp: goto_def)
      show "w_pc ?w h = InFiber g \<or> w_pc ?w h = InCb g \<Longrightarrow> w_st ?w g = Some EXEC"
        using sched_invD(10) [OF inv, of h g] by (auto simp: goto_def split: if_splits)
      show "t' \<in> set (m_fibers (w_s ?w)) \<Longrightarrow> task_ok t'" for t'
        using sched_invD(11) [OF inv, of t'] q s by (auto simp: goto_def)
      show "w_pc ?w h = Chosen ft a k' \<Longrightarrow> chosen_ok ft a" for ft a k'
        using sched_invD(12) [OF inv, of h ft a k'] tok by (auto simp: goto_def chosen_ok_def split: if_splits)
      show "h \<notin> set (w_ids ?w) \<Longrightarrow> w_pc ?w h = Gone \<and> w_cbf ?w h = None"
        using sched_invD(13) [OF inv, of h] th by (auto simp: goto_def)
    qed
    then show ?thesis using Some by simp
  qed
qed

section \<open>The discipline of the users of the scheduler\<close>

text \<open>
  A fiber may be scheduled when it is alive, not already queued, not just taken by a thread, and not
  one of the scheduler's own idle and spare fibers. A fiber must not end while it is queued.
\<close>

definition schedulable :: "'cb world \<Rightarrow> nat \<Rightarrow> bool" where
  "schedulable w f \<longleftrightarrow> (w_st w f = Some INIT \<or> w_st w f = Some HOLD \<or> w_st w f = Some EXEC) \<and>
     f \<notin> set (qfibers (w_s w)) \<and>
     (\<forall>th \<in> set (w_ids w). taken_fiber (w_pc w th) \<noteq> Some f \<and> w_idle w th \<noteq> f \<and>
        (w_cbf w th = Some f \<longrightarrow> cb_pc (w_pc w th) = Some f))"

fun allowed :: "'cb world \<Rightarrow> 'cb event \<Rightarrow> bool" where
  "allowed w (Ends th ok) =
     (case stack_fiber (w_pc w th) of None \<Rightarrow> True | Some f \<Rightarrow> f \<notin> set (qfibers (w_s w)))"
| "allowed w (Schedules ft) =
     (case ft_fiber ft of None \<Rightarrow> True | Some f \<Rightarrow> ft_cb ft = None \<and> schedulable w f)"
| "allowed w _ = True"

definition queue_place :: "place \<Rightarrow> place" where
  "queue_place p = (case p of On th q \<Rightarrow> On th True | _ \<Rightarrow> Queued)"

lemma enqueue_simps [simp]:
  "w_st (enqueue w ft) = w_st w" "w_next (enqueue w ft) = w_next w" "w_ids (enqueue w ft) = w_ids w"
  "w_pc (enqueue w ft) = w_pc w" "w_idle (enqueue w ft) = w_idle w" "w_cbf (enqueue w ft) = w_cbf w"
  "w_started (enqueue w ft) = w_started w"
  by (simp_all add: enqueue_def)

lemma m_fibers_enqueue: "m_fibers (w_s (enqueue w ft)) =
    (if ft_fiber ft \<noteq> None \<or> ft_cb ft \<noteq> None then m_fibers (w_s w) @ [ft] else m_fibers (w_s w))"
  by (simp add: enqueue_def schedule_def scheduleNoLock_def Let_def)

lemma qfibers_enqueue: "qfibers (w_s (enqueue w ft)) =
    qfibers (w_s w) @ (case ft_fiber ft of None \<Rightarrow> [] | Some f \<Rightarrow> [f])"
  by (auto simp: m_fibers_enqueue qfibers_def map_filter_append List.map_filter_simps split: option.splits)

lemma schedulable_place:
  assumes inv: "sched_inv w pl" and f: "schedulable w f"
  shows "pl f = Parked \<and> (w_st w f = Some INIT \<or> w_st w f = Some HOLD) \<or>
    (\<exists>th. pl f = On th False) \<and> w_st w f = Some EXEC"
proof (cases "pl f")
  case Nowhere
  then show ?thesis using sched_invD(1) [OF inv, of f] f by (simp add: schedulable_def)
next
  case Parked
  then show ?thesis using sched_invD(1) [OF inv, of f] f by (auto simp: schedulable_def)
next
  case Queued
  then show ?thesis using sched_invD(5) [OF inv, of f] f by (simp add: schedulable_def)
next
  case (Taken th)
  then have "taken_fiber (w_pc w th) = Some f" using sched_invD(4) [OF inv] by simp
  moreover have "th \<in> set (w_ids w)" using calculation sched_invD(13) [OF inv, of th] by fastforce
  ultimately show ?thesis using f by (simp add: schedulable_def)
next
  case (On th q)
  then show ?thesis using sched_invD(1) [OF inv, of f] sched_invD(5) [OF inv, of f] f
    by (cases q) (auto simp: schedulable_def)
next
  case (Spare th)
  then have c: "w_cbf w th = Some f" using sched_invD(9) [OF inv] by simp
  have "cb_pc (w_pc w th) \<noteq> Some f" using Spare sched_invD(3) [OF inv, of th f] by (cases "w_pc w th") auto
  moreover have "th \<in> set (w_ids w)" using c sched_invD(13) [OF inv, of th] by fastforce
  ultimately show ?thesis using f c by (simp add: schedulable_def)
next
  case (Idle th)
  then show ?thesis using sched_invD(7) [OF inv, of f th] f by (auto simp: schedulable_def)
qed

lemma pc_keep:
  assumes inv: "sched_inv w pl"
    and w': "w_st w' = w_st w" "w_next w' = w_next w" "w_ids w' = w_ids w"
      "w_pc w' = w_pc w" "w_idle w' = w_idle w" "w_cbf w' = w_cbf w"
      "qfibers (w_s w') = qfibers (w_s w)"
    and q: "\<And>t. t \<in> set (m_fibers (w_s w')) \<Longrightarrow> task_ok t"
  shows "sched_inv w' pl"
  by (rule keep_inv [OF inv w'(1-3), where th = 0 and p = "w_pc w 0"])
    (use w' q sched_invD [OF inv] in auto)

lemma enqueue_fiber_inv:
  assumes inv: "sched_inv w pl" and f: "schedulable w f" and ft: "ft_fiber ft = Some f" "ft_cb ft = None"
  shows "sched_inv (enqueue w ft) (pl(f := queue_place (pl f)))"
proof (rule sched_invI)
  note place = schedulable_place [OF inv f]
  have nq: "f \<notin> set (qfibers (w_s w))" using f by (simp add: schedulable_def)
  let ?w = "enqueue w ft" and ?P = "queue_place (pl f)"
  fix g t
  show "place_ok ((pl(f := ?P)) g) (w_st ?w g)"
    using sched_invD(1) [OF inv, of g] place by (auto simp: queue_place_def)
  show "w_next ?w \<le> g \<Longrightarrow> (pl(f := ?P)) g = Nowhere"
    using sched_invD(2) [OF inv, of g] place by auto
  show "stack_fiber (w_pc ?w t) = Some g \<longleftrightarrow> (\<exists>q. (pl(f := ?P)) g = On t q)"
    using sched_invD(3) [OF inv, of t g] place by (auto simp: queue_place_def)
  show "taken_fiber (w_pc ?w t) = Some g \<longleftrightarrow> (pl(f := ?P)) g = Taken t"
    using sched_invD(4) [OF inv, of t g] place by (auto simp: queue_place_def)
  show "g \<in> set (qfibers (w_s ?w)) \<longleftrightarrow> (pl(f := ?P)) g = Queued \<or> (\<exists>h. (pl(f := ?P)) g = On h True)"
    using sched_invD(5) [OF inv, of g] place ft by (auto simp: queue_place_def qfibers_enqueue)
  show "distinct (qfibers (w_s ?w))" using sched_invD(6) [OF inv] nq ft by (simp add: qfibers_enqueue)
  show "(pl(f := ?P)) g = Idle t \<longleftrightarrow> t \<in> set (w_ids ?w) \<and> g = w_idle ?w t"
    using sched_invD(7) [OF inv, of g t] place by (auto simp: queue_place_def)
  show "t \<in> set (w_ids ?w) \<Longrightarrow> idle_ok (w_pc ?w t) (w_st ?w (w_idle ?w t))"
    using sched_invD(8) [OF inv, of t] by simp
  show "w_cbf ?w t = Some g \<longleftrightarrow> (pl(f := ?P)) g = Spare t \<or> cb_pc (w_pc ?w t) = Some g"
    using sched_invD(9) [OF inv, of t g] place by (auto simp: queue_place_def)
  show "w_pc ?w t = InFiber g \<or> w_pc ?w t = InCb g \<Longrightarrow> w_st ?w g = Some EXEC"
    using sched_invD(10) [OF inv, of t g] by simp
  show "t' \<in> set (m_fibers (w_s ?w)) \<Longrightarrow> task_ok t'" for t'
    using sched_invD(11) [OF inv, of t'] ft by (auto simp: m_fibers_enqueue task_ok_def)
  show "w_pc ?w t = Chosen ft' a k \<Longrightarrow> chosen_ok ft' a" for ft' a k
    using sched_invD(12) [OF inv, of t ft' a k] by simp
  show "t \<notin> set (w_ids ?w) \<Longrightarrow> w_pc ?w t = Gone \<and> w_cbf ?w t = None"
    using sched_invD(13) [OF inv, of t] by simp
qed

lemma enqueue_cb_inv:
  assumes inv: "sched_inv w pl" and ft: "ft_fiber ft = None"
  shows "sched_inv (enqueue w ft) pl"
  by (rule pc_keep [OF inv]) (use ft sched_invD(11) [OF inv] in
    \<open>auto simp: qfibers_enqueue m_fibers_enqueue task_ok_def split: if_splits\<close>)

lemma new_fiber_inv:
  assumes inv: "sched_inv w pl"
  shows "sched_inv (w\<lparr>w_st := (w_st w)(w_next w \<mapsto> INIT), w_next := Suc (w_next w)\<rparr>) (pl(w_next w := Parked))"
    (is "sched_inv ?w ?pl")
proof (rule sched_invI)
  fix g t
  have nw: "pl (w_next w) = Nowhere" using sched_invD(2) [OF inv] by simp
  show "place_ok (?pl g) (w_st ?w g)" using sched_invD(1) [OF inv, of g] by simp
  show "w_next ?w \<le> g \<Longrightarrow> ?pl g = Nowhere" using sched_invD(2) [OF inv, of g] by simp
  show "stack_fiber (w_pc ?w t) = Some g \<longleftrightarrow> (\<exists>q. ?pl g = On t q)"
    using sched_invD(3) [OF inv, of t g] nw by auto
  show "taken_fiber (w_pc ?w t) = Some g \<longleftrightarrow> ?pl g = Taken t"
    using sched_invD(4) [OF inv, of t g] nw by auto
  show "g \<in> set (qfibers (w_s ?w)) \<longleftrightarrow> ?pl g = Queued \<or> (\<exists>h. ?pl g = On h True)"
    using sched_invD(5) [OF inv, of g] nw by auto
  show "distinct (qfibers (w_s ?w))" using sched_invD(6) [OF inv] by simp
  show "?pl g = Idle t \<longleftrightarrow> t \<in> set (w_ids ?w) \<and> g = w_idle ?w t"
    using sched_invD(7) [OF inv, of g t] nw by auto
  show "t \<in> set (w_ids ?w) \<Longrightarrow> idle_ok (w_pc ?w t) (w_st ?w (w_idle ?w t))"
    using sched_invD(8) [OF inv, of t] sched_invD(7) [OF inv, of "w_next w" t] nw by auto
  show "w_cbf ?w t = Some g \<longleftrightarrow> ?pl g = Spare t \<or> cb_pc (w_pc ?w t) = Some g"
    using sched_invD(9) [OF inv, of t g] nw by auto
  show "w_pc ?w t = InFiber g \<or> w_pc ?w t = InCb g \<Longrightarrow> w_st ?w g = Some EXEC"
    using sched_invD(10) [OF inv, of t g] sched_invD(1) [OF inv, of "w_next w"] nw by auto
  show "t' \<in> set (m_fibers (w_s ?w)) \<Longrightarrow> task_ok t'" for t' using sched_invD(11) [OF inv, of t'] by simp
  show "w_pc ?w t = Chosen ft a k \<Longrightarrow> chosen_ok ft a" for ft a k
    using sched_invD(12) [OF inv, of t ft a k] by simp
  show "t \<notin> set (w_ids ?w) \<Longrightarrow> w_pc ?w t = Gone \<and> w_cbf ?w t = None"
    using sched_invD(13) [OF inv, of t] by simp
qed

end
