(* ===== verification/Scheduler_Steps.thy ===== *)
theory Scheduler_Steps
  imports Scheduler_Inv
begin

text \<open>
  Every event of the scheduler machine keeps the invariant and runs into no assert, as long as the
  users of the scheduler keep to the discipline.
\<close>

lemma goto_simps [simp]:
  "w_st (goto w th p) = w_st w" "w_next (goto w th p) = w_next w" "w_ids (goto w th p) = w_ids w"
  "w_pc (goto w th p) = (w_pc w)(th := p)" "w_idle (goto w th p) = w_idle w" "w_cbf (goto w th p) = w_cbf w"
  "w_s (goto w th p) = w_s w" "w_queued (goto w th p) = w_queued w" "w_started (goto w th p) = w_started w"
  "w_rounds (goto w th p) = w_rounds w"
  by (simp_all add: goto_def)

lemma sub_simps [simp]:
  "w_st (sub_active w) = w_st w" "w_next (sub_active w) = w_next w" "w_ids (sub_active w) = w_ids w"
  "w_pc (sub_active w) = w_pc w" "w_idle (sub_active w) = w_idle w" "w_cbf (sub_active w) = w_cbf w"
  "m_fibers (w_s (sub_active w)) = m_fibers (w_s w)" "w_queued (sub_active w) = w_queued w"
  "w_started (sub_active w) = w_started w"
  "w_st (sub_idle w) = w_st w" "w_next (sub_idle w) = w_next w" "w_ids (sub_idle w) = w_ids w"
  "w_pc (sub_idle w) = w_pc w" "w_idle (sub_idle w) = w_idle w" "w_cbf (sub_idle w) = w_cbf w"
  "m_fibers (w_s (sub_idle w)) = m_fibers (w_s w)" "w_queued (sub_idle w) = w_queued w"
  "w_started (sub_idle w) = w_started w"
  "qfibers (w_s (sub_active w)) = qfibers (w_s w)" "qfibers (w_s (sub_idle w)) = qfibers (w_s w)"
  by (simp_all add: sub_active_def sub_idle_def qfibers_def)

lemma take_task_inv:
  assumes inv: "sched_inv w pl" and th: "th \<in> set (w_ids w)" and pc: "w_pc w th = AtLoop"
  shows "\<exists>s ft a k pl'. take_task (w_s w) (st_of w) th = Inr (s, ft, a, k) \<and>
    sched_inv (goto (w\<lparr>w_s := s\<rparr>) th (Chosen ft a k)) pl'"
proof -
  obtain r tk where sc: "scan (st_of w) th (m_fibers (w_s w)) = Inr (r, tk)"
    using scan_ok sched_invD(11) [OF inv] by (metis surj_pair)
  show ?thesis
  proof (cases r)
    case None
    then have "take_task (w_s w) (st_of w) th = Inr (w_s w, null_task, False, tk)"
      using sc by (simp add: take_task_def)
    moreover have "sched_inv (goto (w\<lparr>w_s := w_s w\<rparr>) th (Chosen null_task False tk)) pl"
      by (rule keep_inv [OF inv, where th = th]) (use sched_invD(8) [OF inv th] sched_invD(11) [OF inv] pc th in
        \<open>auto simp: chosen_ok_def null_task_def\<close>)
    ultimately show ?thesis by blast
  next
    case (Some x)
    then obtain t rest where x: "r = Some (t, rest)" by (cases x) auto
    let ?s = "(w_s w)\<lparr>m_fibers := rest, m_activeThreadCount := m_activeThreadCount (w_s w) + 1\<rparr>"
    from scan_Some sc x obtain pre post where
      q: "m_fibers (w_s w) = pre @ t # post" "rest = pre @ post" "eligible (st_of w) th t" by blast
    have "take_task (w_s w) (st_of w) th = Inr (?s, t, True, tk)"
      using sc x by (simp add: take_task_def)
    moreover have "m_fibers ?s = pre @ post" using q by simp
    ultimately show ?thesis using take_inv [OF inv th pc q(1,3), of ?s tk] by blast
  qed
qed

section \<open>Entering a fiber\<close>

lemma enter_taken:
  assumes inv: "sched_inv w pl" and th: "th \<in> set (w_ids w)"
    and pc: "w_pc w th = Chosen ft a k" and f: "ft_fiber ft = Some f"
  shows "\<exists>w1. enter w f = Inr w1 \<and>
    sched_inv (goto (w1\<lparr>w_started := l\<rparr>) th (InFiber f)) (pl(f := On th False))"
proof -
  have pf: "pl f = Taken th" using sched_invD(4) [OF inv, of th f] pc f by simp
  then have st: "w_st w f = Some INIT \<or> w_st w f = Some HOLD" using sched_invD(1) [OF inv, of f] by simp
  have en: "enter w f = Inr (w\<lparr>w_st := (w_st w)(f \<mapsto> EXEC)\<rparr>)" using st by (auto simp: enter_def)
  have ni: "f \<noteq> w_idle w th" using sched_invD(7) [OF inv, of f th] pf th by auto
  have "sched_inv (goto (w\<lparr>w_st := (w_st w)(f \<mapsto> EXEC), w_started := l\<rparr>) th (InFiber f)) (pl(f := On th False))"
  proof (rule move_inv [OF inv _ _ _ _ _ _ th])
    show "\<And>g. stack_fiber (InFiber f) = Some g \<longleftrightarrow> (\<exists>q. (pl(f := On th False)) g = On th q)"
      using sched_invD(3) [OF inv, of th] pc by auto
    show "taken_fiber (InFiber f) = Some g \<longleftrightarrow> (pl(f := On th False)) g = Taken th" for g
      using sched_invD(4) [OF inv, of th g] pc f by auto
    show "w_cbf (goto (w\<lparr>w_st := (w_st w)(f \<mapsto> EXEC), w_started := l\<rparr>) th (InFiber f)) th = Some g \<longleftrightarrow>
        (pl(f := On th False)) g = Spare th \<or> cb_pc (InFiber f) = Some g" for g
      using sched_invD(9) [OF inv, of th g] pc pf by auto
  qed (use pf ni pc sched_invD(8) [OF inv th] in auto)
  then show ?thesis using en by auto
qed

lemma cb_inv:
  assumes inv: "sched_inv w pl" and th: "th \<in> set (w_ids w)" and pc: "w_pc w th = Chosen ft a k"
    and ft: "ft_fiber ft = None" and pg: "pl g = Parked \<or> pl g = Spare th" and st: "w_st w g = Some INIT"
    and cbf: "\<And>g'. pl g' = Spare th \<Longrightarrow> g' = g"
    and w': "w_st w' = (w_st w)(g \<mapsto> EXEC)" "w_next w' = w_next w" "w_ids w' = w_ids w"
      "w_pc w' = (w_pc w)(th := InCb g)" "w_idle w' = w_idle w" "m_fibers (w_s w') = m_fibers (w_s w)"
      "w_cbf w' = (w_cbf w)(th \<mapsto> g)"
  shows "sched_inv w' (pl(g := On th False))"
proof (rule move_inv [OF inv w'(1-6) th])
  show "\<And>h. stack_fiber (InCb g) = Some h \<longleftrightarrow> (\<exists>q. (pl(g := On th False)) h = On th q)"
    using sched_invD(3) [OF inv, of th] pc by auto
  show "\<And>h. taken_fiber (InCb g) = Some h \<longleftrightarrow> (pl(g := On th False)) h = Taken th"
    using sched_invD(4) [OF inv, of th] pc ft by auto
  show "w_cbf w' th = Some h \<longleftrightarrow> (pl(g := On th False)) h = Spare th \<or> cb_pc (InCb g) = Some h" for h
    using w'(7) cbf by auto
  have "g \<noteq> w_idle w th" using sched_invD(7) [OF inv, of g th] pg th by auto
  then show "idle_ok (InCb g) (if g = w_idle w th then Some EXEC else w_st w (w_idle w th))"
    using sched_invD(8) [OF inv th] pc by simp
qed (use pg w'(7) in auto)

lemma enter_cb:
  assumes inv: "sched_inv w pl" and th: "th \<in> set (w_ids w)" and pc: "w_pc w th = Chosen ft a k"
    and ft: "ft_fiber ft = None"
  shows "\<exists>w1 g w2 pl'. cb_fiber w th = Inr (w1, g) \<and> enter w1 g = Inr w2 \<and>
    sched_inv (goto (w2\<lparr>w_started := l\<rparr>) th (InCb g)) pl'"
proof (cases "w_cbf w th")
  case (Some g)
  then have pg: "pl g = Spare th" using sched_invD(9) [OF inv, of th g] pc by simp
  then have st: "w_st w g = Some INIT" using sched_invD(1) [OF inv, of g] by simp
  have one: "g' = g" if "pl g' = Spare th" for g' using sched_invD(9) [OF inv, of th g'] that Some by simp
  have cb: "cb_fiber w th = Inr (w\<lparr>w_st := (w_st w)(g \<mapsto> INIT)\<rparr>, g)"
    using Some st by (simp add: cb_fiber_def)
  have en: "enter (w\<lparr>w_st := (w_st w)(g \<mapsto> INIT)\<rparr>) g = Inr (w\<lparr>w_st := (w_st w)(g \<mapsto> EXEC)\<rparr>)"
    by (simp add: enter_def)
  have "sched_inv (goto (w\<lparr>w_st := (w_st w)(g \<mapsto> EXEC), w_started := l\<rparr>) th (InCb g)) (pl(g := On th False))"
    by (rule cb_inv [OF inv th pc ft _ st one]) (use pg Some in auto)
  then show ?thesis using cb en by auto
next
  case None
  let ?g = "w_next w"
  let ?w1 = "w\<lparr>w_st := (w_st w)(?g \<mapsto> INIT), w_next := Suc ?g\<rparr>"
  have cb: "cb_fiber w th = Inr (?w1\<lparr>w_cbf := (w_cbf w)(th \<mapsto> ?g)\<rparr>, ?g)"
    using None by (simp add: cb_fiber_def)
  have en: "enter (?w1\<lparr>w_cbf := (w_cbf w)(th \<mapsto> ?g)\<rparr>) ?g =
      Inr (?w1\<lparr>w_cbf := (w_cbf w)(th \<mapsto> ?g), w_st := (w_st w)(?g \<mapsto> EXEC)\<rparr>)"
    by (simp add: enter_def)
  have none: "\<not> pl g' = Spare th" for g' using sched_invD(9) [OF inv, of th g'] None by simp
  note inv1 = new_fiber_inv [OF inv]
  have "sched_inv (goto (?w1\<lparr>w_cbf := (w_cbf w)(th \<mapsto> ?g), w_st := (w_st w)(?g \<mapsto> EXEC), w_started := l\<rparr>) th (InCb ?g))
      ((pl(?g := Parked))(?g := On th False))"
    by (rule cb_inv [OF inv1 _ _ ft]) (use th pc none in \<open>auto split: if_splits\<close>)
  then show ?thesis using cb en by auto
qed

lemma enter_idle:
  assumes inv: "sched_inv w pl" and th: "th \<in> set (w_ids w)" and pc: "w_pc w th = Chosen null_task False k"
    and nt: "st_of w (w_idle w th) \<noteq> TERM'"
  shows "\<exists>w1. enter w (w_idle w th) = Inr w1 \<and> sched_inv (goto w1 th InIdle) pl"
proof -
  let ?f = "w_idle w th"
  have pf: "pl ?f = Idle th" using sched_invD(7) [OF inv, of ?f th] th by simp
  have st: "w_st w ?f = Some INIT \<or> w_st w ?f = Some HOLD"
    using sched_invD(8) [OF inv th] pc nt by (auto simp: st_of_def)
  then have en: "enter w ?f = Inr (w\<lparr>w_st := (w_st w)(?f \<mapsto> EXEC)\<rparr>)" by (auto simp: enter_def)
  have "sched_inv (goto (w\<lparr>w_st := (w_st w)(?f \<mapsto> EXEC)\<rparr>) th InIdle) (pl(?f := Idle th))"
  proof (rule move_inv [OF inv _ _ _ _ _ _ th])
    show "\<And>g. stack_fiber InIdle = Some g \<longleftrightarrow> (\<exists>q. (pl(?f := Idle th)) g = On th q)"
      using sched_invD(3) [OF inv, of th] pc by auto
    show "\<And>g. taken_fiber InIdle = Some g \<longleftrightarrow> (pl(?f := Idle th)) g = Taken th"
      using sched_invD(4) [OF inv, of th] pc by (auto simp: null_task_def)
    show "w_cbf (goto (w\<lparr>w_st := (w_st w)(?f \<mapsto> EXEC)\<rparr>) th InIdle) th = Some g \<longleftrightarrow>
        (pl(?f := Idle th)) g = Spare th \<or> cb_pc InIdle = Some g" for g
      using sched_invD(9) [OF inv, of th g] pc pf by auto
  qed (use pf in auto)
  moreover have "pl(?f := Idle th) = pl" using pf by auto
  ultimately show ?thesis using en by auto
qed

section \<open>After a switch back\<close>

lemma not_ready: "sched_inv w pl \<Longrightarrow> w_st w f \<noteq> None \<Longrightarrow> w_st w f \<noteq> Some READY"
  using sched_invD(1) [of w pl f] by (cases "pl f") auto

lemma mark_fiber_inv:
  assumes inv: "sched_inv w pl" and th: "th \<in> set (w_ids w)" and pc: "w_pc w th = MarkFiber f"
  shows "\<exists>pl'. sched_inv (goto (after_fiber w f) th AtLoop) pl'"
proof -
  obtain q where q: "pl f = On th q" using sched_invD(3) [OF inv, of th f] pc by auto
  obtain v where v: "w_st w f = Some v" "v = EXEC \<or> \<not> q \<and> (v = TERM' \<or> v = EXCEPT)"
    using sched_invD(1) [OF inv, of f] q by auto
  let ?v = "if v = EXEC then HOLD else v" and ?P = "if q then Queued else Parked"
  have w': "after_fiber w f = w\<lparr>w_st := (w_st w)(f \<mapsto> ?v)\<rparr>"
    using v by (auto simp: after_fiber_def st_of_def fun_upd_idem)
  have ni: "f \<noteq> w_idle w th" using sched_invD(7) [OF inv, of f th] q th by auto
  have "sched_inv (goto (after_fiber w f) th AtLoop) (pl(f := ?P))"
    unfolding w'
  proof (rule move_inv [OF inv _ _ _ _ _ _ th])
    show "stack_fiber AtLoop = Some g \<longleftrightarrow> (\<exists>q. (pl(f := ?P)) g = On th q)" for g
      using sched_invD(3) [OF inv, of th g] pc by auto
    show "taken_fiber AtLoop = Some g \<longleftrightarrow> (pl(f := ?P)) g = Taken th" for g
      using sched_invD(4) [OF inv, of th g] pc by auto
    show "w_cbf (goto (w\<lparr>w_st := (w_st w)(f \<mapsto> ?v)\<rparr>) th AtLoop) th = Some g \<longleftrightarrow>
        (pl(f := ?P)) g = Spare th \<or> cb_pc AtLoop = Some g" for g
      using sched_invD(9) [OF inv, of th g] pc q by auto
  qed (use q v ni pc sched_invD(8) [OF inv th] in auto)
  then show ?thesis by blast
qed

lemma mark_cb_inv:
  assumes inv: "sched_inv w pl" and th: "th \<in> set (w_ids w)" and pc: "w_pc w th = MarkCb f"
  shows "\<exists>pl'. sched_inv (goto (after_cb w th f) th AtLoop) pl'"
proof -
  obtain q where q: "pl f = On th q" using sched_invD(3) [OF inv, of th f] pc by auto
  obtain v where v: "w_st w f = Some v" "v = EXEC \<or> \<not> q \<and> (v = TERM' \<or> v = EXCEPT)"
    using sched_invD(1) [OF inv, of f] q by auto
  have cbf: "w_cbf w th = Some f" using sched_invD(9) [OF inv, of th f] pc by simp
  have ns: "pl g \<noteq> Spare th" for g using sched_invD(9) [OF inv, of th g] cbf q by auto
  let ?v = "if v = EXEC then HOLD else INIT"
  let ?P = "if v = EXEC then (if q then Queued else Parked) else Spare th"
  let ?c = "if v = EXEC then None else Some f"
  have w': "after_cb w th f = w\<lparr>w_st := (w_st w)(f \<mapsto> ?v), w_cbf := (w_cbf w)(th := ?c)\<rparr>"
    using v cbf by (auto simp: after_cb_def st_of_def fun_upd_idem)
  have ni: "f \<noteq> w_idle w th" using sched_invD(7) [OF inv, of f th] q th by auto
  have "sched_inv (goto (after_cb w th f) th AtLoop) (pl(f := ?P))"
    unfolding w'
  proof (rule move_inv [OF inv _ _ _ _ _ _ th])
    show "stack_fiber AtLoop = Some g \<longleftrightarrow> (\<exists>q. (pl(f := ?P)) g = On th q)" for g
      using sched_invD(3) [OF inv, of th g] pc by auto
    show "taken_fiber AtLoop = Some g \<longleftrightarrow> (pl(f := ?P)) g = Taken th" for g
      using sched_invD(4) [OF inv, of th g] pc by auto
    show "w_cbf (goto (w\<lparr>w_st := (w_st w)(f \<mapsto> ?v), w_cbf := (w_cbf w)(th := ?c)\<rparr>) th AtLoop) th = Some g \<longleftrightarrow>
        (pl(f := ?P)) g = Spare th \<or> cb_pc AtLoop = Some g" for g
      using ns [of g] by auto
  qed (use q v ni pc sched_invD(8) [OF inv th] in auto)
  then show ?thesis by blast
qed

lemma idle_move:
  assumes inv: "sched_inv w pl" and th: "th \<in> set (w_ids w)"
    and pc: "w_pc w th = InIdle \<or> w_pc w th = LeftIdle \<or> w_pc w th = MarkIdle"
    and p: "p = LeftIdle \<or> p = MarkIdle \<or> p = AtLoop" "idle_ok p (Some v)"
  shows "sched_inv (goto (w\<lparr>w_st := (w_st w)(w_idle w th \<mapsto> v)\<rparr>) th p) pl"
proof -
  let ?f = "w_idle w th"
  have pf: "pl ?f = Idle th" using sched_invD(7) [OF inv, of ?f th] th by simp
  have "sched_inv (goto (w\<lparr>w_st := (w_st w)(?f \<mapsto> v)\<rparr>) th p) (pl(?f := Idle th))"
  proof (rule move_inv [OF inv _ _ _ _ _ _ th])
    show "stack_fiber p = Some g \<longleftrightarrow> (\<exists>q. (pl(?f := Idle th)) g = On th q)" for g
      using sched_invD(3) [OF inv, of th g] pc p by auto
    show "taken_fiber p = Some g \<longleftrightarrow> (pl(?f := Idle th)) g = Taken th" for g
      using sched_invD(4) [OF inv, of th g] pc p by auto
    show "w_cbf (goto (w\<lparr>w_st := (w_st w)(?f \<mapsto> v)\<rparr>) th p) th = Some g \<longleftrightarrow>
        (pl(?f := Idle th)) g = Spare th \<or> cb_pc p = Some g" for g
      using sched_invD(9) [OF inv, of th g] pc p pf by auto
  qed (use pf p in auto)
  moreover have "pl(?f := Idle th) = pl" using pf by auto
  ultimately show ?thesis by simp
qed

lemma mark_idle_inv:
  assumes inv: "sched_inv w pl" and th: "th \<in> set (w_ids w)" and pc: "w_pc w th = MarkIdle"
  shows "sched_inv (goto (after_idle w (w_idle w th)) th AtLoop) pl"
proof -
  obtain v where v: "w_st w (w_idle w th) = Some v" "v = EXEC \<or> v = TERM'"
    using sched_invD(8) [OF inv th] pc by auto
  have "after_idle w (w_idle w th) = w\<lparr>w_st := (w_st w)(w_idle w th \<mapsto> (if v = EXEC then HOLD else TERM'))\<rparr>"
    using v by (auto simp: after_idle_def st_of_def fun_upd_idem)
  then show ?thesis using idle_move [OF inv th, of AtLoop "if v = EXEC then HOLD else TERM'"] pc by simp
qed

section \<open>Every event\<close>

lemma act_chosen_inv:
  assumes inv: "sched_inv w pl" and th: "th \<in> set (w_ids w)" and pc: "w_pc w th = Chosen ft a k"
  shows "\<exists>w' pl'. act_chosen w th ft a = Inr w' \<and> sched_inv w' pl'"
proof (cases "ft_fiber ft")
  case (Some f)
  have d: "dispatch (st_of w) ft a (st_of w (w_idle w th)) = SwapFiber f" using Some by (simp add: dispatch_def)
  show ?thesis
    using enter_taken [OF inv th pc Some, of "w_started w @ [(th, ft)]"] by (auto simp: act_chosen_def d)
next
  case None
  note ch = sched_invD(12) [OF inv pc]
  show ?thesis
  proof (cases a)
    case True
    then obtain c where c: "ft_cb ft = Some c" using ch None by (auto simp: chosen_ok_def task_ok_def)
    then have d: "dispatch (st_of w) ft a (st_of w (w_idle w th)) = RunCb c" using None by (simp add: dispatch_def)
    show ?thesis
      using enter_cb [OF inv th pc None, of "w_started w @ [(th, ft)]"] by (auto simp: act_chosen_def d)
  next
    case False
    then have ft: "ft = null_task" using ch by (simp add: chosen_ok_def)
    show ?thesis
    proof (cases "st_of w (w_idle w th) = TERM'")
      case True
      then have d: "dispatch (st_of w) ft a (st_of w (w_idle w th)) = LeaveLoop"
        using False ft by (simp add: dispatch_def null_task_def)
      have "sched_inv (goto w th Gone) pl"
        by (rule keep_inv [OF inv, where th = th]) (use sched_invD(8) [OF inv th] sched_invD(11) [OF inv] pc ft in
          \<open>auto simp: null_task_def\<close>)
      then show ?thesis by (auto simp: act_chosen_def d)
    next
      case nt: False
      then have d: "dispatch (st_of w) ft a (st_of w (w_idle w th)) = SwapIdle"
        using False ft by (simp add: dispatch_def null_task_def)
      have "w_pc w th = Chosen null_task False k" using pc ft False by simp
      from enter_idle [OF inv th this nt] show ?thesis by (auto simp: act_chosen_def d)
    qed
  qed
qed

lemma act_inv:
  assumes inv: "sched_inv w pl" and th: "th \<in> set (w_ids w)"
  shows "\<exists>w' pl'. act w th = Inr w' \<and> sched_inv w' pl'"
proof (cases "w_pc w th")
  case AtLoop
  from take_task_inv [OF inv th AtLoop] show ?thesis using AtLoop by (fastforce simp: act_def)
next
  case (Chosen ft a k)
  from act_chosen_inv [OF inv th Chosen] show ?thesis using Chosen by (simp add: act_def)
next
  case (LeftFiber f)
  have "sched_inv (goto (sub_active w) th (MarkFiber f)) pl"
    by (rule keep_inv [OF inv, where th = th]) (use sched_invD(8) [OF inv th] sched_invD(11) [OF inv] LeftFiber th in auto)
  then show ?thesis using LeftFiber by (auto simp: act_def)
next
  case (MarkFiber f)
  from mark_fiber_inv [OF inv th MarkFiber] show ?thesis using MarkFiber by (auto simp: act_def)
next
  case (LeftCb f)
  have "sched_inv (goto (sub_active w) th (MarkCb f)) pl"
    by (rule keep_inv [OF inv, where th = th]) (use sched_invD(8) [OF inv th] sched_invD(11) [OF inv] LeftCb th in auto)
  then show ?thesis using LeftCb by (auto simp: act_def)
next
  case (MarkCb f)
  from mark_cb_inv [OF inv th MarkCb] show ?thesis using MarkCb by (auto simp: act_def)
next
  case InIdle
  have "sched_inv (goto w th LeftIdle) pl"
    by (rule keep_inv [OF inv, where th = th]) (use sched_invD(8) [OF inv th] sched_invD(11) [OF inv] InIdle th in auto)
  then show ?thesis using InIdle idle_move [OF inv th, of LeftIdle "TERM'"] by (auto simp: act_def)
next
  case LeftIdle
  have "sched_inv (goto (sub_idle w) th MarkIdle) pl"
    by (rule keep_inv [OF inv, where th = th]) (use sched_invD(8) [OF inv th] sched_invD(11) [OF inv] LeftIdle th in auto)
  then show ?thesis using LeftIdle by (auto simp: act_def)
next
  case MarkIdle
  from mark_idle_inv [OF inv th MarkIdle] show ?thesis using MarkIdle by (auto simp: act_def)
qed (use inv in \<open>auto simp: act_def\<close>)

lemma leave_inv:
  assumes inv: "sched_inv w pl" shows "sched_inv (leave w th) pl"
proof (cases "w_pc w th")
  case (InFiber f)
  then have "th \<in> set (w_ids w)" using sched_invD(13) [OF inv, of th] by fastforce
  then have "sched_inv (goto w th (LeftFiber f)) pl"
    by (intro keep_inv [OF inv, where th = th]) (use sched_invD(8) [OF inv, of th] sched_invD(11) [OF inv] InFiber in auto)
  then show ?thesis using InFiber by (simp add: leave_def)
next
  case (InCb f)
  then have "th \<in> set (w_ids w)" using sched_invD(13) [OF inv, of th] by fastforce
  then have "sched_inv (goto w th (LeftCb f)) pl"
    by (intro keep_inv [OF inv, where th = th]) (use sched_invD(8) [OF inv, of th] sched_invD(11) [OF inv] InCb in auto)
  then show ?thesis using InCb by (simp add: leave_def)
qed (use inv in \<open>simp_all add: leave_def\<close>)

lemma ends_inv:
  assumes inv: "sched_inv w pl" and f: "w_pc w th = InFiber f \<and> p = LeftFiber f \<or> w_pc w th = InCb f \<and> p = LeftCb f"
    and nq: "f \<notin> set (qfibers (w_s w))" and v: "v = TERM' \<or> v = EXCEPT"
  shows "sched_inv (goto (w\<lparr>w_st := (w_st w)(f \<mapsto> v)\<rparr>) th p) pl"
proof -
  have th: "th \<in> set (w_ids w)" using f sched_invD(13) [OF inv, of th] by fastforce
  obtain q where "pl f = On th q" using sched_invD(3) [OF inv, of th f] f by auto
  then have q: "pl f = On th False" using sched_invD(5) [OF inv, of f] nq by (cases q) auto
  have ni: "f \<noteq> w_idle w th" using sched_invD(7) [OF inv, of f th] q th by auto
  have "sched_inv (goto (w\<lparr>w_st := (w_st w)(f \<mapsto> v)\<rparr>) th p) (pl(f := On th False))"
  proof (rule move_inv [OF inv _ _ _ _ _ _ th])
    show "stack_fiber p = Some g \<longleftrightarrow> (\<exists>q. (pl(f := On th False)) g = On th q)" for g
      using sched_invD(3) [OF inv, of th g] f q by auto
    show "taken_fiber p = Some g \<longleftrightarrow> (pl(f := On th False)) g = Taken th" for g
      using sched_invD(4) [OF inv, of th g] f q by auto
    show "w_cbf (goto (w\<lparr>w_st := (w_st w)(f \<mapsto> v)\<rparr>) th p) th = Some g \<longleftrightarrow>
        (pl(f := On th False)) g = Spare th \<or> cb_pc p = Some g" for g
      using sched_invD(9) [OF inv, of th g] f q by auto
  qed (use q v ni f sched_invD(8) [OF inv th] in auto)
  moreover have "pl(f := On th False) = pl" using q by auto
  ultimately show ?thesis by simp
qed

lemma step_inv:
  assumes inv: "sched_inv w pl" and al: "allowed w ev"
  shows "\<exists>w' pl'. step w ev = Inr w' \<and> sched_inv w' pl'"
proof (cases ev)
  case (Act th)
  then show ?thesis using act_inv [OF inv, of th] inv by (cases "th \<in> set (w_ids w)") auto
next
  case (Yields th)
  then show ?thesis using leave_inv [OF inv] by auto
next
  case (Ends th ok)
  show ?thesis
  proof (cases "w_pc w th")
    case (InFiber f)
    then have "sched_inv (leave (end_state w th ok) th) pl"
      using ends_inv [OF inv, of th f "LeftFiber f" "if ok then TERM' else EXCEPT"] al Ends
      by (simp add: leave_def end_state_def)
    then show ?thesis using Ends by auto
  next
    case (InCb f)
    then have "sched_inv (leave (end_state w th ok) th) pl"
      using ends_inv [OF inv, of th f "LeftCb f" "if ok then TERM' else EXCEPT"] al Ends
      by (simp add: leave_def end_state_def)
    then show ?thesis using Ends by auto
  qed (use inv Ends in \<open>auto simp: leave_def end_state_def\<close>)
next
  case NewFiber
  then show ?thesis using new_fiber_inv [OF inv] by auto
next
  case (Schedules ft)
  then show ?thesis using al enqueue_cb_inv [OF inv, of ft] enqueue_fiber_inv [OF inv, of _ ft]
    by (cases "ft_fiber ft") auto
next
  case AskStop
  have "sched_inv (w\<lparr>w_s := (w_s w)\<lparr>m_autoStop := True, m_stopping := True\<rparr>\<rparr>) pl"
    by (rule pc_keep [OF inv]) (use sched_invD(11) [OF inv] in \<open>auto simp: qfibers_def\<close>)
  then show ?thesis using AskStop by auto
qed

end
