(* ===== verification/Scheduler_Spec.thy ===== *)
theory Scheduler_Spec
  imports Scheduler_Steps "HOL-Library.Multiset"
begin

text \<open>
  What the scheduler promises over whole runs of its threads: no fiber on two threads, no assert hit,
  no task lost or run twice, tasks only on their own thread, and a stop only when nothing is left.
  The last properties show where the code breaks these promises.
\<close>

section \<open>Runs\<close>

fun run :: "'cb world \<Rightarrow> 'cb event list \<Rightarrow> sched_error + 'cb world" where
  "run w [] = Inr w"
| "run w (ev # evs) = (case step w ev of Inl e \<Rightarrow> Inl e | Inr w1 \<Rightarrow> run w1 evs)"

fun disciplined :: "'cb world \<Rightarrow> 'cb event list \<Rightarrow> bool" where
  "disciplined w [] = True"
| "disciplined w (ev # evs) \<longleftrightarrow> allowed w ev \<and>
     (case step w ev of Inl e \<Rightarrow> True | Inr w1 \<Rightarrow> disciplined w1 evs)"

definition fresh_scheduler :: "'cb scheduler \<Rightarrow> bool" where
  "fresh_scheduler s \<longleftrightarrow> m_fibers s = [] \<and> m_activeThreadCount s = 0 \<and> m_idleThreadCount s = 0"

lemma run_induct_inv:
  assumes "run w evs = Inr w'" and "disciplined w evs" and "P w"
    and "\<And>v ev v'. P v \<Longrightarrow> allowed v ev \<Longrightarrow> step v ev = Inr v' \<Longrightarrow> P v'"
  shows "P w'"
  using assms(1-3)
proof (induction evs arbitrary: w)
  case (Cons ev evs)
  then obtain w1 where "step w ev = Inr w1" "run w1 evs = Inr w'" "disciplined w1 evs" "allowed w ev"
    by (auto split: sum.splits)
  then show ?case using Cons.IH [of w1] Cons.prems(3) assms(4) by blast
qed simp

lemma run_inv:
  assumes "sched_inv w pl" and "disciplined w evs"
  shows "\<exists>w' pl'. run w evs = Inr w' \<and> sched_inv w' pl'"
  using assms
proof (induction evs arbitrary: w pl)
  case (Cons ev evs)
  then obtain w1 pl1 where s: "step w ev = Inr w1" "sched_inv w1 pl1"
    using step_inv [of w pl ev] by auto
  moreover have "disciplined w1 evs" using Cons.prems(2) s(1) by simp
  ultimately show ?case using Cons.IH by simp
qed auto

lemma position_inj:
  "x \<in> set xs \<Longrightarrow> y \<in> set xs \<Longrightarrow> length (takeWhile (\<lambda>i. i \<noteq> x) xs) = length (takeWhile (\<lambda>i. i \<noteq> y) xs) \<Longrightarrow> x = y"
  by (induction xs) (auto split: if_splits)

lemma position_less: "x \<in> set xs \<Longrightarrow> length (takeWhile (\<lambda>i. i \<noteq> x) xs) < length xs"
  by (induction xs) auto

lemma start_inv:
  assumes "fresh_scheduler s" and "distinct ids"
  shows "sched_inv (world_start s ids)
    (\<lambda>f. if f < length ids then Idle (ids ! f) else Nowhere)"
proof -
  have nth: "x \<in> set ids \<Longrightarrow> ids ! length (takeWhile (\<lambda>i. i \<noteq> x) ids) = x" for x
    using nth_length_takeWhile [of "\<lambda>i. i \<noteq> x" ids] position_less [of x ids] by simp
  have pos: "f < length ids \<Longrightarrow> length (takeWhile (\<lambda>i. i \<noteq> ids ! f) ids) = f" for f
    using nth [of "ids ! f"] nth_eq_iff_index_eq [OF assms(2)] position_less [of "ids ! f" ids] by simp
  have idle: "(if f < length ids then Idle (ids ! f) else Nowhere) = Idle th \<longleftrightarrow>
      th \<in> set ids \<and> f = length (takeWhile (\<lambda>i. i \<noteq> th) ids)" for f th
    using nth pos position_less [of th ids] by auto
  show ?thesis
  proof (rule sched_invI)
    fix f th
    show "(if f < length ids then Idle (ids ! f) else Nowhere) = Idle th \<longleftrightarrow>
        th \<in> set (w_ids (world_start s ids)) \<and> f = w_idle (world_start s ids) th"
      using idle by (simp add: world_start_def)
    show "th \<in> set (w_ids (world_start s ids)) \<Longrightarrow>
        idle_ok (w_pc (world_start s ids) th) (w_st (world_start s ids) (w_idle (world_start s ids) th))"
      using position_less [of th ids] by (simp add: world_start_def)
  qed (use assms(1) in \<open>auto simp: world_start_def fresh_scheduler_def qfibers_def List.map_filter_def split: if_splits\<close>)
qed

section \<open>The count of active threads\<close>

fun busy :: "'cb pc \<Rightarrow> bool" where
  "busy (Chosen ft a k) = a"
| "busy (InFiber f) = True"
| "busy (LeftFiber f) = True"
| "busy (InCb f) = True"
| "busy (LeftCb f) = True"
| "busy _ = False"

definition busy_count :: "'cb world \<Rightarrow> nat" where
  "busy_count w = length (filter (\<lambda>th. busy (w_pc w th)) (w_ids w))"

lemma filter_update:
  assumes "distinct xs" and "x \<in> set xs"
  shows "length (filter (\<lambda>y. P ((f(x := v)) y)) xs) + of_bool (P (f x)) =
    length (filter (\<lambda>y. P (f y)) xs) + of_bool (P v)"
  using assms
proof (induction xs)
  case (Cons y ys)
  show ?case
  proof (cases "y = x")
    case True
    then have "filter (\<lambda>y. P ((f(x := v)) y)) ys = filter (\<lambda>y. P (f y)) ys"
      using Cons.prems(1) by (intro filter_cong) auto
    then show ?thesis using True by simp
  qed (use Cons in auto)
qed simp

section \<open>The account of the tasks\<close>

fun pc_task :: "'cb pc \<Rightarrow> 'cb task list" where
  "pc_task (Chosen ft a k) = (if a then [ft] else [])"
| "pc_task _ = []"

definition taken_tasks :: "'cb world \<Rightarrow> 'cb task list" where
  "taken_tasks w = concat (map (\<lambda>th. pc_task (w_pc w th)) (w_ids w))"

lemma concat_update:
  assumes "distinct xs" and "x \<in> set xs"
  shows "mset (concat (map (\<lambda>y. g ((f(x := v)) y)) xs)) + mset (g (f x)) =
    mset (concat (map (\<lambda>y. g (f y)) xs)) + mset (g v)"
  using assms
proof (induction xs)
  case (Cons y ys)
  show ?case
  proof (cases "y = x")
    case True
    have "concat (map (\<lambda>z. g (if z = x then v else f z)) ys) = concat (map (\<lambda>z. g (f z)) ys)"
      by (rule arg_cong [of _ _ concat], rule map_cong) (use Cons.prems(1) True in auto)
    then show ?thesis using True by simp
  qed (use Cons in \<open>auto simp: ac_simps\<close>)
qed simp

definition on_own :: "int \<Rightarrow> 'cb task \<Rightarrow> bool" where
  "on_own th ft \<longleftrightarrow> ft_thread ft = -1 \<or> ft_thread ft = th"

text \<open>
  The active count is the number of busy threads; the queued tasks are those in the queue, those a
  thread has just taken, and those started; tasks are taken and started on their own thread; and the
  idle count is the negated number of idle rounds.
\<close>

definition account :: "'cb world \<Rightarrow> bool" where
  "account w \<longleftrightarrow> distinct (w_ids w) \<and>
     m_activeThreadCount (w_s w) = of_nat (busy_count w) \<and>
     mset (w_queued w) = mset (m_fibers (w_s w)) + mset (taken_tasks w) + mset (map snd (w_started w)) \<and>
     (\<forall>th. \<forall>ft \<in> set (pc_task (w_pc w th)). on_own th ft) \<and>
     (\<forall>(th, ft) \<in> set (w_started w). on_own th ft) \<and>
     m_idleThreadCount (w_s w) = - of_nat (w_rounds w)"

lemma mset_balance:
  fixes q f x s :: "'a multiset"
  assumes "q' + f + x + s = q + f' + p + s'" and "t' + x = t + p" and "q = f + t + s"
  shows "q' = f' + t' + s'"
proof -
  have "q' + (f + x + s) = (f' + s') + (t + p) + (f + s)" using assms(1,3) by (simp add: ac_simps)
  then have "q' + (f + x + s) = (f' + t' + s') + (f + x + s)" using assms(2) by (simp add: ac_simps)
  then show ?thesis by simp
qed

text \<open>What a change of one thread's position needs to keep the account.\<close>

lemma account_move:
  assumes acc: "account w" and th: "th \<in> set (w_ids w)"
    and w': "w_ids w' = w_ids w" "w_pc w' = (w_pc w)(th := p)"
      "m_activeThreadCount (w_s w') + of_bool (busy (w_pc w th)) = m_activeThreadCount (w_s w) + of_bool (busy p)"
      "mset (w_queued w') + mset (m_fibers (w_s w)) + mset (pc_task (w_pc w th)) + mset (map snd (w_started w)) =
       mset (w_queued w) + mset (m_fibers (w_s w')) + mset (pc_task p) + mset (map snd (w_started w'))"
      "\<forall>ft \<in> set (pc_task p). on_own th ft" "\<forall>(t, ft) \<in> set (w_started w'). on_own t ft"
      "m_idleThreadCount (w_s w') = - of_nat (w_rounds w')"
  shows "account w'"
proof -
  have d: "distinct (w_ids w)" using acc by (simp add: account_def)
  have b: "busy_count w' + of_bool (busy (w_pc w th)) = busy_count w + of_bool (busy p)"
    using filter_update [OF d th, of busy "w_pc w" p] w' by (simp add: busy_count_def)
  have "m_activeThreadCount (w_s w') = of_nat (busy_count w')"
  proof -
    have "m_activeThreadCount (w_s w') + of_bool (busy (w_pc w th)) =
        of_nat (busy_count w' + of_bool (busy (w_pc w th)))"
      using w'(3) acc b by (simp add: account_def)
    then show ?thesis by simp
  qed
  moreover have "mset (taken_tasks w') + mset (pc_task (w_pc w th)) = mset (taken_tasks w) + mset (pc_task p)"
    using concat_update [OF d th, of pc_task "w_pc w" p] w' by (simp add: taken_tasks_def)
  then have "mset (w_queued w') = mset (m_fibers (w_s w')) + mset (taken_tasks w') + mset (map snd (w_started w'))"
    by (rule mset_balance [OF w'(4)]) (use acc in \<open>simp add: account_def\<close>)
  moreover have "\<forall>t. \<forall>ft \<in> set (pc_task (w_pc w' t)). on_own t ft"
    using acc w'(2,5) by (auto simp: account_def)
  ultimately show ?thesis using acc w' by (simp add: account_def)
qed

lemma account_simps [simp]:
  "m_activeThreadCount (w_s (sub_active w)) = m_activeThreadCount (w_s w) - 1"
  "m_idleThreadCount (w_s (sub_active w)) = m_idleThreadCount (w_s w)"
  "m_activeThreadCount (w_s (sub_idle w)) = m_activeThreadCount (w_s w)"
  "m_idleThreadCount (w_s (sub_idle w)) = m_idleThreadCount (w_s w) - 1"
  "w_rounds (sub_active w) = w_rounds w" "w_rounds (sub_idle w) = Suc (w_rounds w)"
  "m_activeThreadCount (w_s (enqueue w ft)) = m_activeThreadCount (w_s w)"
  "m_idleThreadCount (w_s (enqueue w ft)) = m_idleThreadCount (w_s w)"
  "w_rounds (enqueue w ft) = w_rounds w"
  by (simp_all add: sub_active_def sub_idle_def enqueue_def schedule_def scheduleNoLock_def Let_def)

lemma queued_enqueue: "mset (w_queued (enqueue w ft)) + mset (m_fibers (w_s w)) =
    mset (w_queued w) + mset (m_fibers (w_s (enqueue w ft)))"
  by (auto simp: enqueue_def schedule_def scheduleNoLock_def Let_def)

lemma accountD:
  assumes "account w"
  shows "\<forall>(t, ft) \<in> set (w_started w). on_own t ft" "ft \<in> set (pc_task (w_pc w th)) \<Longrightarrow> on_own th ft"
    "m_idleThreadCount (w_s w) = - of_nat (w_rounds w)"
  using assms by (auto simp: account_def)

lemma take_account:
  assumes acc: "account w" and th: "th \<in> set (w_ids w)" and pc: "w_pc w th = AtLoop"
    and t: "take_task (w_s w) (st_of w) th = Inr (s, ft, a, k)"
  shows "account (goto (w\<lparr>w_s := s\<rparr>) th (Chosen ft a k))"
proof -
  obtain r tk where sc: "scan (st_of w) th (m_fibers (w_s w)) = Inr (r, tk)"
    using t by (auto simp: take_task_def split: sum.splits)
  show ?thesis
  proof (cases r)
    case None
    then have "s = w_s w" "\<not> a" using sc t by (auto simp: take_task_def)
    then show ?thesis
      by (intro account_move [OF acc th]) (use pc accountD [OF acc] in auto)
  next
    case (Some x)
    then obtain u rest where x: "r = Some (u, rest)" by (cases x) auto
    with scan_Some sc obtain pre post where q: "m_fibers (w_s w) = pre @ u # post" "rest = pre @ post"
      "eligible (st_of w) th u" by blast
    have s: "s = (w_s w)\<lparr>m_fibers := rest, m_activeThreadCount := m_activeThreadCount (w_s w) + 1\<rparr>"
      "ft = u" "a" using sc x t by (auto simp: take_task_def)
    show ?thesis
      by (intro account_move [OF acc th])
        (use pc accountD [OF acc] q s in \<open>auto simp: eligible_def on_own_def\<close>)
  qed
qed

lemma enter_effect: "enter w f = Inr w1 \<Longrightarrow> w_s w1 = w_s w \<and> w_ids w1 = w_ids w \<and> w_pc w1 = w_pc w \<and>
    w_queued w1 = w_queued w \<and> w_started w1 = w_started w \<and> w_rounds w1 = w_rounds w"
  by (auto simp: enter_def split: option.splits if_splits)

lemma cb_fiber_effect: "cb_fiber w th = Inr (w1, g) \<Longrightarrow> w_s w1 = w_s w \<and> w_ids w1 = w_ids w \<and> w_pc w1 = w_pc w \<and>
    w_queued w1 = w_queued w \<and> w_started w1 = w_started w \<and> w_rounds w1 = w_rounds w"
  by (auto simp: cb_fiber_def split: option.splits if_splits)

lemma chosen_account:
  assumes acc: "account w" and th: "th \<in> set (w_ids w)" and pc: "w_pc w th = Chosen ft a k"
    and ok: "chosen_ok ft a" and r: "act_chosen w th ft a = Inr w'"
  shows "account w'"
proof (cases "ft_fiber ft")
  case (Some f)
  then have a: "a" using ok by (auto simp: chosen_ok_def null_task_def split: if_splits)
  from Some r obtain w1 where w1: "enter w f = Inr w1" "w' = goto (w1\<lparr>w_started := w_started w @ [(th, ft)]\<rparr>) th (InFiber f)"
    by (auto simp: act_chosen_def dispatch_def split: sum.splits)
  show ?thesis
    by (intro account_move [OF acc th, of _ "InFiber f"])
      (use enter_effect [OF w1(1)] w1(2) a pc accountD [OF acc] in auto)
next
  case None
  show ?thesis
  proof (cases a)
    case True
    then obtain c where "ft_cb ft = Some c" using ok None by (auto simp: chosen_ok_def task_ok_def)
    with None r obtain w1 g w2 where w: "cb_fiber w th = Inr (w1, g)" "enter w1 g = Inr w2"
      "w' = goto (w2\<lparr>w_started := w_started w @ [(th, ft)]\<rparr>) th (InCb g)"
      by (auto simp: act_chosen_def dispatch_def split: sum.splits)
    show ?thesis
      by (intro account_move [OF acc th, of _ "InCb g"])
        (use enter_effect [OF w(2)] cb_fiber_effect [OF w(1)] w(3) True pc accountD [OF acc] in auto)
  next
    case False
    then have "ft_cb ft = None" using ok by (simp add: chosen_ok_def null_task_def)
    with None False r obtain w1 p where w: "w' = goto w1 th p" "w1 = w \<or> enter w (w_idle w th) = Inr w1"
      "p = Gone \<or> p = InIdle"
      by (auto simp: act_chosen_def dispatch_def split: sum.splits if_splits)
    have "w_s w1 = w_s w \<and> w_ids w1 = w_ids w \<and> w_pc w1 = w_pc w \<and>
        w_queued w1 = w_queued w \<and> w_started w1 = w_started w \<and> w_rounds w1 = w_rounds w"
      using w(2) enter_effect by blast
    then show ?thesis
      by (intro account_move [OF acc th, of _ p]) (use w False pc accountD [OF acc] in auto)
  qed
qed

lemma after_effect:
  "w_ids (after_fiber w f) = w_ids w" "w_pc (after_fiber w f) = w_pc w" "w_started (after_fiber w f) = w_started w"
  "w_rounds (after_fiber w f) = w_rounds w"
  "m_activeThreadCount (w_s (after_fiber w f)) = m_activeThreadCount (w_s w)"
  "m_idleThreadCount (w_s (after_fiber w f)) = m_idleThreadCount (w_s w)"
  "mset (w_queued (after_fiber w f)) + mset (m_fibers (w_s w)) = mset (w_queued w) + mset (m_fibers (w_s (after_fiber w f)))"
  "w_ids (after_cb w th f) = w_ids w" "w_pc (after_cb w th f) = w_pc w" "w_started (after_cb w th f) = w_started w"
  "w_rounds (after_cb w th f) = w_rounds w"
  "m_activeThreadCount (w_s (after_cb w th f)) = m_activeThreadCount (w_s w)"
  "m_idleThreadCount (w_s (after_cb w th f)) = m_idleThreadCount (w_s w)"
  "mset (w_queued (after_cb w th f)) + mset (m_fibers (w_s w)) = mset (w_queued w) + mset (m_fibers (w_s (after_cb w th f)))"
  "w_s (after_idle w f) = w_s w" "w_ids (after_idle w f) = w_ids w" "w_pc (after_idle w f) = w_pc w"
  "w_queued (after_idle w f) = w_queued w" "w_started (after_idle w f) = w_started w" "w_rounds (after_idle w f) = w_rounds w"
  using queued_enqueue [of w "fiber_task f (-1)"] by (simp_all add: after_fiber_def after_cb_def after_idle_def)

lemma act_account:
  assumes acc: "account w" and th: "th \<in> set (w_ids w)" and inv: "sched_inv w pl" and r: "act w th = Inr w'"
  shows "account w'"
proof (cases "w_pc w th")
  case AtLoop
  with r obtain s ft a k where "take_task (w_s w) (st_of w) th = Inr (s, ft, a, k)"
    "w' = goto (w\<lparr>w_s := s\<rparr>) th (Chosen ft a k)" by (auto simp: act_def split: sum.splits)
  then show ?thesis using take_account [OF acc th AtLoop] by simp
next
  case (Chosen ft a k)
  then show ?thesis using chosen_account [OF acc th Chosen sched_invD(12) [OF inv Chosen]] r by (simp add: act_def)
next
  case (LeftFiber f)
  then have w': "w' = goto (sub_active w) th (MarkFiber f)" using r by (simp add: act_def)
  show ?thesis unfolding w'
    by (intro account_move [OF acc th]) (use LeftFiber accountD [OF acc] in \<open>auto simp: ac_simps\<close>)
next
  case (MarkFiber f)
  then have w': "w' = goto (after_fiber w f) th AtLoop" using r by (simp add: act_def)
  show ?thesis unfolding w'
    by (intro account_move [OF acc th]) (use MarkFiber accountD [OF acc] after_effect(7) [of w f] in
      \<open>auto simp: ac_simps after_effect(1-6)\<close>)
next
  case (LeftCb f)
  then have w': "w' = goto (sub_active w) th (MarkCb f)" using r by (simp add: act_def)
  show ?thesis unfolding w'
    by (intro account_move [OF acc th]) (use LeftCb accountD [OF acc] in \<open>auto simp: ac_simps\<close>)
next
  case (MarkCb f)
  then have w': "w' = goto (after_cb w th f) th AtLoop" using r by (simp add: act_def)
  show ?thesis unfolding w'
    by (intro account_move [OF acc th]) (use MarkCb accountD [OF acc] after_effect(14) [of w th f] in
      \<open>auto simp: ac_simps after_effect(8-13)\<close>)
next
  case InIdle
  then obtain st where w': "w' = goto (w\<lparr>w_st := st\<rparr>) th LeftIdle" using r
    using that [of "w_st w"] by (cases "stopping (w_s w)") (auto simp: act_def)
  show ?thesis unfolding w'
    by (intro account_move [OF acc th]) (use InIdle accountD [OF acc] in auto)
next
  case LeftIdle
  then have w': "w' = goto (sub_idle w) th MarkIdle" using r by (simp add: act_def)
  show ?thesis unfolding w'
    by (intro account_move [OF acc th]) (use LeftIdle accountD [OF acc] in auto)
next
  case MarkIdle
  then have w': "w' = goto (after_idle w (w_idle w th)) th AtLoop" using r by (simp add: act_def)
  show ?thesis unfolding w'
    by (intro account_move [OF acc th]) (use MarkIdle accountD [OF acc] in \<open>auto simp: after_effect(15-20)\<close>)
qed (use acc r in \<open>auto simp: act_def\<close>)

lemma account_other:
  assumes "account w" and "w_ids w' = w_ids w" and "w_pc w' = w_pc w"
    and "m_activeThreadCount (w_s w') = m_activeThreadCount (w_s w)"
    and "mset (w_queued w') + mset (m_fibers (w_s w)) = mset (w_queued w) + mset (m_fibers (w_s w'))"
    and "w_started w' = w_started w" and "m_idleThreadCount (w_s w') = m_idleThreadCount (w_s w)"
    and "w_rounds w' = w_rounds w"
  shows "account w'"
proof -
  have "mset (w_queued w') = mset (m_fibers (w_s w')) + mset (taken_tasks w) + mset (map snd (w_started w))"
    by (rule mset_balance [where x = "{#}" and p = "{#}" and f = "mset (m_fibers (w_s w))"
          and q = "mset (w_queued w)" and t = "mset (taken_tasks w)" and s = "mset (map snd (w_started w))"])
      (use assms(1,5) in \<open>simp_all add: account_def ac_simps\<close>)
  then show ?thesis using assms by (simp add: account_def busy_count_def taken_tasks_def)
qed

lemma leave_account:
  assumes acc: "account w" and inv: "\<And>th. th \<notin> set (w_ids w) \<Longrightarrow> w_pc w th = Gone"
  shows "account (leave w th)"
proof (cases "w_pc w th")
  case (InFiber f)
  then have th: "th \<in> set (w_ids w)" using inv [of th] by fastforce
  show ?thesis
    by (rule account_move [OF acc th, of _ "LeftFiber f"]) (use InFiber accountD [OF acc] in \<open>auto simp: leave_def\<close>)
next
  case (InCb f)
  then have th: "th \<in> set (w_ids w)" using inv [of th] by fastforce
  show ?thesis
    by (rule account_move [OF acc th, of _ "LeftCb f"]) (use InCb accountD [OF acc] in \<open>auto simp: leave_def\<close>)
qed (use acc in \<open>simp_all add: leave_def\<close>)

lemma step_account:
  assumes acc: "account w" and inv: "sched_inv w pl" and r: "step w ev = Inr w'"
  shows "account w'"
proof (cases ev)
  case (Act th)
  then show ?thesis using act_account [OF acc _ inv] acc r by (cases "th \<in> set (w_ids w)") auto
next
  case (Yields th)
  have "account (leave w th)" by (rule leave_account [OF acc]) (use sched_invD(13) [OF inv] in blast)
  then show ?thesis using r Yields by simp
next
  case (Ends th ok)
  have es: "w_ids (end_state w th ok) = w_ids w" "w_pc (end_state w th ok) = w_pc w"
    "w_s (end_state w th ok) = w_s w" "w_queued (end_state w th ok) = w_queued w"
    "w_started (end_state w th ok) = w_started w" "w_rounds (end_state w th ok) = w_rounds w"
    by (simp_all add: end_state_def Let_def split: pc.splits)
  have "account (end_state w th ok)" by (rule account_other [OF acc]) (simp_all add: es)
  then have "account (leave (end_state w th ok) th)"
    by (rule leave_account) (use sched_invD(13) [OF inv] es in auto)
  then show ?thesis using r Ends by simp
next
  case (Schedules ft)
  then have "w' = enqueue w ft" using r by simp
  then show ?thesis using queued_enqueue [of w ft] by (auto intro!: account_other [OF acc])
qed (use r acc in \<open>auto intro!: account_other [OF acc]\<close>)

lemma start_account:
  "fresh_scheduler s \<Longrightarrow> distinct ids \<Longrightarrow> account (world_start s ids)"
  by (auto simp: account_def world_start_def fresh_scheduler_def busy_count_def taken_tasks_def filter_empty_conv)

lemma run_account:
  assumes "fresh_scheduler s" and "distinct ids" and "disciplined (world_start s ids) evs"
    and "run (world_start s ids) evs = Inr w"
  shows "account w \<and> (\<exists>pl. sched_inv w pl)"
proof (rule run_induct_inv [where P = "\<lambda>w. account w \<and> (\<exists>pl. sched_inv w pl)", OF assms(4,3)])
  show "account (world_start s ids) \<and> (\<exists>pl. sched_inv (world_start s ids) pl)"
    using start_inv [OF assms(1,2)] start_account [OF assms(1,2)] by blast
  show "account v' \<and> (\<exists>pl. sched_inv v' pl)"
    if h: "account v \<and> (\<exists>pl. sched_inv v pl)" "allowed v ev" "step v ev = Inr v'" for v ev v'
  proof -
    from h(1) obtain pl where pl: "sched_inv v pl" by blast
    show ?thesis using step_account [OF _ pl h(3)] step_inv [OF pl h(2)] h(1,3) by auto
  qed
qed

lemma act_ids: "act w th = Inr w' \<Longrightarrow> w_ids w' = w_ids w"
  by (auto simp: act_def act_chosen_def after_effect dest!: enter_effect cb_fiber_effect
      split: pc.splits sum.splits action.splits)

lemma step_ids: "step w ev = Inr w' \<Longrightarrow> w_ids w' = w_ids w"
  by (cases ev) (auto simp: leave_def end_state_def Let_def act_ids split: if_splits pc.splits)

section \<open>Properties\<close>

definition yields :: "sched_error + 'cb world \<Rightarrow> ('cb world \<Rightarrow> bool) \<Rightarrow> bool" where
  "yields r P = (case r of Inl e \<Rightarrow> False | Inr w \<Rightarrow> P w)"

definition fails :: "sched_error + 'cb world \<Rightarrow> sched_error \<Rightarrow> bool" where
  "fails r e = (case r of Inl e' \<Rightarrow> e' = e | Inr w \<Rightarrow> False)"

lemma yieldsD: "yields r P \<Longrightarrow> \<exists>w. r = Inr w \<and> P w"
  by (auto simp: yields_def split: sum.splits)

text \<open>A scheduler of two workers and a run of it that starts a callback and a fiber of thread 2.\<close>

definition example_scheduler :: "unit scheduler" where
  "example_scheduler = \<lparr>m_fibers = [], m_threads = [1, 2], m_threadIds = [1, 2], m_rootFiber = None,
     m_threadCount = 2, m_activeThreadCount = 0, m_idleThreadCount = 0, m_stopping = False,
     m_autoStop = False, m_rootThread = -1\<rparr>"

definition example_events :: "unit event list" where
  "example_events = [NewFiber, Schedules (fiber_task 2 2), Schedules (cb_task (Some ()) (-1)),
     Act 1, Act 2, Act 1, Act 2, Schedules (fiber_task 2 (-1)), Yields 2, Ends 1 True, Act 2, Act 1, Act 2, Act 1,
     Act 1, Act 1, Ends 1 True, Act 1, Act 1]"

lemma example_ok: "fresh_scheduler example_scheduler" "distinct [1, 2 :: int]"
  "disciplined (world_start example_scheduler [1, 2]) example_events"
  by (simp_all add: fresh_scheduler_def example_scheduler_def) code_simp

text \<open>
  C8: As long as users keep to the discipline, no run of any number of threads hits an assert of the
  scheduler or enters a finished fiber, no fiber is ever on the stacks of two threads, and no thread
  has taken from the queue a fiber that is on the stack of another.
\<close>

theorem scheduler_exclusive:
  assumes "fresh_scheduler s" and "distinct ids" and "disciplined (world_start s ids) evs"
  shows "\<exists>w. run (world_start s ids) evs = Inr w \<and>
    (\<forall>th th' f. stack_fiber (w_pc w th) = Some f \<longrightarrow>
       (stack_fiber (w_pc w th') = Some f \<longrightarrow> th' = th) \<and> taken_fiber (w_pc w th') \<noteq> Some f)"
proof -
  obtain w pl where w: "run (world_start s ids) evs = Inr w" "sched_inv w pl"
    using run_inv [OF start_inv [OF assms(1,2)] assms(3)] by blast
  have "(stack_fiber (w_pc w th') = Some f \<longrightarrow> th' = th) \<and> taken_fiber (w_pc w th') \<noteq> Some f"
    if f: "stack_fiber (w_pc w th) = Some f" for th th' f
    using f sched_invD(3) [OF w(2), of th f] sched_invD(3) [OF w(2), of th' f] sched_invD(4) [OF w(2), of th' f]
    by auto
  then show ?thesis using w(1) by blast
qed

theorem scheduler_exclusive_witness:
  "\<exists>w. run (world_start example_scheduler [1, 2]) example_events = Inr w"
  using scheduler_exclusive [OF example_ok] by blast

text \<open>
  C9: No task is lost and none runs twice: at every moment the tasks that were put into the queue are
  those still in it, those a thread has just taken, and those that were started; and a task for a
  given thread is started by that thread only.
\<close>

theorem tasks_conserved:
  assumes "fresh_scheduler s" and "distinct ids" and "disciplined (world_start s ids) evs"
    and "run (world_start s ids) evs = Inr w"
  shows "mset (w_queued w) = mset (m_fibers (w_s w)) + mset (taken_tasks w) + mset (map snd (w_started w)) \<and>
    (\<forall>(th, ft) \<in> set (w_started w). ft_thread ft = -1 \<or> ft_thread ft = th)"
  using run_account [OF assms] by (auto simp: account_def on_own_def)

theorem tasks_conserved_witness:
  "\<exists>w. run (world_start example_scheduler [1, 2]) example_events = Inr w \<and>
     mset (w_queued w) = mset (m_fibers (w_s w)) + mset (taken_tasks w) + mset (map snd (w_started w))"
proof -
  have "\<exists>w. run (world_start example_scheduler [1, 2]) example_events = Inr w"
    using run_inv [OF start_inv [OF example_ok(1,2)] example_ok(3)] by blast
  then show ?thesis using tasks_conserved [OF example_ok] by blast
qed

text \<open>
  C10: When \<open>stopping()\<close> answers yes, the queue is empty, no thread runs or holds a task, and every
  task that was ever queued has been started.
\<close>

theorem stopping_means_done:
  assumes "fresh_scheduler s" and "distinct ids" and "disciplined (world_start s ids) evs"
    and "run (world_start s ids) evs = Inr w" and "length ids < 2 ^ 64" and "stopping (w_s w)"
  shows "m_fibers (w_s w) = [] \<and> (\<forall>th \<in> set (w_ids w). \<not> busy (w_pc w th)) \<and>
    mset (w_queued w) = mset (map snd (w_started w))"
proof -
  have acc: "account w" using run_account [OF assms(1-4)] by blast
  have ids: "w_ids w = ids"
  proof (rule run_induct_inv [OF assms(4,3), where P = "\<lambda>w. w_ids w = ids"])
    show "w_ids (world_start s ids) = ids" by (simp add: world_start_def)
  qed (use step_ids in blast)
  have b: "m_activeThreadCount (w_s w) = of_nat (busy_count w)" using acc by (simp add: account_def)
  have "busy_count w \<le> length ids" by (simp add: busy_count_def ids)
  then have "unat (of_nat (busy_count w) :: u64) = busy_count w" using assms(5) by (simp add: unat_of_nat)
  then have "busy_count w = 0" using assms(6) b by (simp add: stopping_def)
  then have nb: "\<forall>th \<in> set (w_ids w). \<not> busy (w_pc w th)" by (simp add: busy_count_def filter_empty_conv)
  have "pc_task (w_pc w th) = []" if "th \<in> set (w_ids w)" for th
    using nb that by (cases "w_pc w th") auto
  then have "taken_tasks w = []" by (simp add: taken_tasks_def)
  then show ?thesis using acc assms(6) nb by (simp add: account_def stopping_def)
qed

definition example_stop_events :: "unit event list" where
  "example_stop_events = example_events @ [Act 2, Act 2, Act 2, Yields 2, Act 2, Act 2, Act 2, Act 2, Act 1, Act 1,
     Ends 2 True, Act 2, Act 2, AskStop]"

lemma example_stop: "disciplined (world_start example_scheduler [1, 2]) example_stop_events"
  "yields (run (world_start example_scheduler [1, 2]) example_stop_events) (\<lambda>w. stopping (w_s w))"
  by code_simp+

theorem stopping_means_done_witness:
  "\<exists>w. run (world_start example_scheduler [1, 2]) example_stop_events = Inr w \<and>
     mset (w_queued w) = mset (map snd (w_started w))"
proof -
  obtain w where "run (world_start example_scheduler [1, 2]) example_stop_events = Inr w" "stopping (w_s w)"
    using yieldsD [OF example_stop(2)] by blast
  then show ?thesis using stopping_means_done [OF example_ok(1,2) example_stop(1)] by fastforce
qed

text \<open>
  The taken task is the first one of the queue that this thread may run and whose fiber does not
  execute elsewhere; the order of the others is kept, one more thread is active, and other threads are
  tickled exactly when a task of another thread was passed over. When there is none, nothing is taken
  and the scheduler stays as it is.
\<close>

theorem take_task_first:
  assumes "take_task s st me = Inr (s', ft, is_active, tickle_me)"
  shows "(if is_active then \<exists>pre post. m_fibers s = pre @ ft # post \<and> m_fibers s' = pre @ post \<and>
        eligible st me ft \<and> (\<forall>x \<in> set pre. \<not> eligible st me x) \<and>
        (tickle_me \<longleftrightarrow> (\<exists>x \<in> set pre. ft_thread x \<noteq> -1 \<and> ft_thread x \<noteq> me)) \<and>
        m_activeThreadCount s' = m_activeThreadCount s + 1
      else s' = s \<and> ft = null_task \<and> (\<forall>x \<in> set (m_fibers s). \<not> eligible st me x))"
proof -
  obtain r tk where sc: "scan st me (m_fibers s) = Inr (r, tk)"
    using assms by (auto simp: take_task_def split: sum.splits)
  show ?thesis
  proof (cases r)
    case None
    then show ?thesis using assms sc scan_None [of st me "m_fibers s" tk] by (auto simp: take_task_def)
  next
    case (Some x)
    then obtain t rest where x: "r = Some (t, rest)" by (cases x) auto
    then have "s' = s\<lparr>m_fibers := rest, m_activeThreadCount := m_activeThreadCount s + 1\<rparr> \<and>
        ft = t \<and> is_active \<and> tickle_me = tk" using assms sc by (auto simp: take_task_def)
    then show ?thesis using scan_Some [of st me "m_fibers s" t rest tk] sc x by auto
  qed
qed

theorem take_task_first_example:
  "\<exists>pre post. m_fibers (example_scheduler\<lparr>m_fibers := [fiber_task 2 2, fiber_task 3 1]\<rparr>) = pre @ fiber_task 3 1 # post"
proof -
  have "\<exists>s'. take_task (example_scheduler\<lparr>m_fibers := [fiber_task 2 2, fiber_task 3 1]\<rparr>) (\<lambda>_. INIT) 1 =
      Inr (s', fiber_task 3 1, True, True)"
    by (simp add: take_task_def fiber_task_def example_scheduler_def)
  then show ?thesis using take_task_first by fastforce
qed

text \<open>
  The idle count never goes up: after any number of idle rounds it is the negated number modulo
  \<open>2 ^ 64\<close>, so from the first round on \<open>HasIdleThreads()\<close> answers yes, also when no thread is idle.
\<close>

theorem idle_count_wraps:
  assumes "fresh_scheduler s" and "distinct ids" and "disciplined (world_start s ids) evs"
    and "run (world_start s ids) evs = Inr w"
  shows "m_idleThreadCount (w_s w) = - of_nat (w_rounds w) \<and>
    (0 < w_rounds w \<and> w_rounds w < 2 ^ 64 \<longrightarrow> hasIdleThreads (w_s w))"
proof -
  have i: "m_idleThreadCount (w_s w) = - of_nat (w_rounds w)"
    using run_account [OF assms] by (simp add: account_def)
  have "(of_nat (w_rounds w) :: u64) \<noteq> 0" if "0 < w_rounds w" "w_rounds w < 2 ^ 64"
  proof
    assume "(of_nat (w_rounds w) :: u64) = 0"
    then have "unat (of_nat (w_rounds w) :: u64) = 0" by simp
    then show False using that by (simp add: unat_of_nat)
  qed
  then show ?thesis using i by (simp add: hasIdleThreads_def word_gt_0)
qed

lemma example_idle:
  "disciplined (world_start example_scheduler [1, 2]) [Act 1, Act 1, Act 1, Act 1, Act 1]"
  "yields (run (world_start example_scheduler [1, 2]) [Act 1, Act 1, Act 1, Act 1, Act 1]) (\<lambda>w. w_rounds w = 1)"
  by code_simp+

theorem idle_count_wraps_example:
  "\<exists>w. run (world_start example_scheduler [1, 2]) [Act 1, Act 1, Act 1, Act 1, Act 1] = Inr w \<and>
     hasIdleThreads (w_s w)"
  using idle_count_wraps [OF example_ok(1,2) example_idle(1)] yieldsD [OF example_idle(2)] by fastforce

text \<open>
  C34: Without the discipline the promises fail, in every state of the scheduler. The state of a fiber is looked
  at under the lock but set only later in \<open>swapIn\<close>: when the queue begins with a fiber twice, one that waits and
  that any thread may run, two threads that look for work one after the other both take it, the first enters it and
  the second hits the assert. And when the queue begins with a fiber that has ended, however it got there, a thread
  takes it and enters it once more, because the guard \<open>state != TERM || state != EXCEPT\<close> always holds.
\<close>

theorem double_schedule_fails:
  assumes th: "i \<in> set (w_ids w)" "j \<in> set (w_ids w)" "i \<noteq> j" "w_pc w i = AtLoop" "w_pc w j = AtLoop"
    and f: "w_st w f = Some s" "s \<noteq> EXEC" and q: "m_fibers (w_s w) = fiber_task f (-1) # ts"
  shows "if s = TERM' \<or> s = EXCEPT then run w [Act i, Act i] = Inl DeadFiber
    else (\<forall>us. ts = fiber_task f (-1) # us \<longrightarrow>
      (\<exists>w'. run w [Act i, Act j, Act i] = Inr w' \<and> w_pc w' i = InFiber f) \<and>
      run w [Act i, Act j, Act i, Act j] = Inl SwapAssert)"
proof -
  note eval = act_def act_chosen_def take_task_def dispatch_def enter_def goto_def fiber_task_def st_of_def
  show ?thesis
  proof (cases "s = TERM' \<or> s = EXCEPT")
    case True
    then show ?thesis using th f q by (auto simp: eval)
  next
    case False
    then show ?thesis using th f q by (auto simp: eval)
  qed
qed

lemma double_schedule_fails_witness:
  "(\<exists>w. run (world_start example_scheduler [1, 2]) [NewFiber, Schedules (fiber_task 2 (-1)), Schedules (fiber_task 2 (-1))] = Inr w \<and>
     run w [Act 1, Act 2, Act 1, Act 2] = Inl SwapAssert) \<and>
   (\<exists>w. run (world_start example_scheduler [1, 2])
      [NewFiber, Schedules (fiber_task 2 (-1)), Schedules (fiber_task 2 (-1)), Act 1, Act 1, Ends 1 True, Act 1, Act 1] = Inr w \<and>
     run w [Act 1, Act 1] = Inl DeadFiber)"
proof -
  have a: "yields (run (world_start example_scheduler [1, 2]) [NewFiber, Schedules (fiber_task 2 (-1)), Schedules (fiber_task 2 (-1))])
    (\<lambda>w. w_ids w = [1, 2] \<and> w_pc w 1 = AtLoop \<and> w_pc w 2 = AtLoop \<and> w_st w 2 = Some INIT \<and>
      m_fibers (w_s w) = [fiber_task 2 (-1), fiber_task 2 (-1)])" by code_simp
  have b: "yields (run (world_start example_scheduler [1, 2])
      [NewFiber, Schedules (fiber_task 2 (-1)), Schedules (fiber_task 2 (-1)), Act 1, Act 1, Ends 1 True, Act 1, Act 1])
    (\<lambda>w. w_ids w = [1, 2] \<and> w_pc w 1 = AtLoop \<and> w_pc w 2 = AtLoop \<and> w_st w 2 = Some TERM' \<and>
      m_fibers (w_s w) = [fiber_task 2 (-1)])" by code_simp
  obtain u where u: "run (world_start example_scheduler [1, 2]) [NewFiber, Schedules (fiber_task 2 (-1)), Schedules (fiber_task 2 (-1))] = Inr u"
    "w_ids u = [1, 2]" "w_pc u 1 = AtLoop" "w_pc u 2 = AtLoop" "w_st u 2 = Some INIT" "m_fibers (w_s u) = [fiber_task 2 (-1), fiber_task 2 (-1)]"
    using yieldsD [OF a] by blast
  obtain v where v: "run (world_start example_scheduler [1, 2])
      [NewFiber, Schedules (fiber_task 2 (-1)), Schedules (fiber_task 2 (-1)), Act 1, Act 1, Ends 1 True, Act 1, Act 1] = Inr v"
    "w_ids v = [1, 2]" "w_pc v 1 = AtLoop" "w_pc v 2 = AtLoop" "w_st v 2 = Some TERM'" "m_fibers (w_s v) = [fiber_task 2 (-1)]"
    using yieldsD [OF b] by blast
  have "run u [Act 1, Act 2, Act 1, Act 2] = Inl SwapAssert"
    using double_schedule_fails [of 1 u 2 2 INIT "[fiber_task 2 (-1)]"] u by (simp del: run.simps)
  moreover have "run v [Act 1, Act 1] = Inl DeadFiber"
    using double_schedule_fails [of 1 v 2 2 "TERM'" "[]"] v by (simp del: run.simps)
  ultimately show ?thesis using u(1) v(1) by blast
qed

end
