(* ===== verification/IOManager.thy ===== *)
theory IOManager
  imports Scheduler Timer
begin

text \<open>
  The I/O manager of \<^verbatim>\<open>src/src/iomanager.cc\<close> and \<^verbatim>\<open>src/include/iomanager.h\<close>: a scheduler and a
  timer manager joined by a table of file descriptor contexts and an epoll instance. Event masks are
  32-bit words as in \<open>epoll_event\<close>. The system call \<open>epoll_ctl\<close> is a parameter that maps a state of the
  kernel to its next state, or to \<open>None\<close> when the call fails; what \<open>epoll_wait\<close> reports is an argument.
  Each operation is modelled as the critical section that the mutex of its context makes of it;
  \<open>addEvent\<close> is given in its three critical sections.
\<close>

unbundle bit_operations_syntax

section \<open>Data\<close>

abbreviation "READ \<equiv> (0x1 :: u32)"
abbreviation "WRITE \<equiv> (0x4 :: u32)"
abbreviation "EPOLLIN \<equiv> (0x1 :: u32)"
abbreviation "EPOLLOUT \<equiv> (0x4 :: u32)"
abbreviation "EPOLLERR \<equiv> (0x8 :: u32)"
abbreviation "EPOLLHUP \<equiv> (0x10 :: u32)"
abbreviation "EPOLLET \<equiv> (0x80000000 :: u32)"

datatype epoll_op = CTL_ADD | CTL_MOD | CTL_DEL

text \<open>\<open>EventContext\<close>: whether a scheduler is set, the waiting fiber or the callback.\<close>

record 'cb event_context =
  ec_scheduler :: bool
  ec_fiber :: "nat option"
  ec_cb :: "'cb callback option"

definition no_context :: "'cb event_context" where
  "no_context = \<lparr>ec_scheduler = False, ec_fiber = None, ec_cb = None\<rparr>"

record 'cb fd_context =
  fc_read :: "'cb event_context"
  fc_write :: "'cb event_context"
  fc_fd :: nat
  fc_events :: u32

definition new_context :: "nat \<Rightarrow> 'cb fd_context" where
  "new_context i = \<lparr>fc_read = no_context, fc_write = no_context, fc_fd = i, fc_events = 0\<rparr>"

record ('cb, 'k) iomanager =
  io_sched :: "'cb callback scheduler"
  io_timers :: "'cb timer_manager"
  io_kernel :: 'k
  io_pipe :: nat
  m_pendingEventCount :: u64
  m_fdContexts :: "'cb fd_context list"

datatype io_error = IoAssert | IoNull | IoBounds | IoCut

type_synonym 'k epoll_ctl = "'k \<Rightarrow> epoll_op \<Rightarrow> nat \<Rightarrow> u32 \<Rightarrow> 'k option"

section \<open>Waking the scheduler\<close>

text \<open>\<open>tickle\<close>: a byte into the pipe, unless a thread is said to be idle.\<close>

definition tickle :: "('cb, 'k) iomanager \<Rightarrow> ('cb, 'k) iomanager" where
  "tickle io = (if hasIdleThreads (io_sched io) then io else io\<lparr>io_pipe := Suc (io_pipe io)\<rparr>)"

definition onTimerInsertedAtFront :: "('cb, 'k) iomanager \<Rightarrow> ('cb, 'k) iomanager" where
  "onTimerInsertedAtFront io = tickle io"

text \<open>\<open>Scheduler::schedule\<close> with the virtual \<open>tickle\<close> of the I/O manager.\<close>

definition io_schedule :: "('cb, 'k) iomanager \<Rightarrow> 'cb callback task \<Rightarrow> ('cb, 'k) iomanager" where
  "io_schedule io ft =
     (let (s, need_tickle) = schedule (io_sched io) ft; io1 = io\<lparr>io_sched := s\<rparr>
      in if need_tickle then tickle io1 else io1)"

definition io_schedule_range :: "('cb, 'k) iomanager \<Rightarrow> 'cb callback task list \<Rightarrow> ('cb, 'k) iomanager" where
  "io_schedule_range io fts =
     (let (s, need_tickle) = schedule_range (io_sched io) fts False; io1 = io\<lparr>io_sched := s\<rparr>
      in if need_tickle then tickle io1 else io1)"

section \<open>Contexts\<close>

definition getContext :: "'cb fd_context \<Rightarrow> u32 \<Rightarrow> io_error + 'cb event_context" where
  "getContext c event = (if event = READ then Inr (fc_read c)
     else if event = WRITE then Inr (fc_write c) else Inl IoAssert)"

definition setContext :: "'cb fd_context \<Rightarrow> u32 \<Rightarrow> 'cb event_context \<Rightarrow> 'cb fd_context" where
  "setContext c event ec = (if event = READ then c\<lparr>fc_read := ec\<rparr> else c\<lparr>fc_write := ec\<rparr>)"

definition resetContext :: "'cb event_context \<Rightarrow> 'cb event_context" where
  "resetContext ec = ec\<lparr>ec_scheduler := False, ec_fiber := None, ec_cb := None\<rparr>"

text \<open>
  \<open>triggerEvent\<close> on a context: the task for the scheduler, whose constructor takes the callback or
  the fiber out of the event context, and the context without the event.
\<close>

definition triggerEvent :: "'cb fd_context \<Rightarrow> u32 \<Rightarrow> io_error + 'cb fd_context \<times> 'cb callback task" where
  "triggerEvent c event =
     (if fc_events c AND event = 0 then Inl IoAssert
      else let c1 = c\<lparr>fc_events := fc_events c AND NOT event\<rparr> in
      case getContext c1 event of Inl e \<Rightarrow> Inl e
      | Inr ec \<Rightarrow>
        if \<not> ec_scheduler ec then Inl IoNull
        else if ec_cb ec \<noteq> None
        then Inr (setContext c1 event (ec\<lparr>ec_cb := None, ec_scheduler := False\<rparr>), cb_task (ec_cb ec) (-1))
        else Inr (setContext c1 event (ec\<lparr>ec_fiber := None, ec_scheduler := False\<rparr>),
                  \<lparr>ft_fiber = ec_fiber ec, ft_cb = None, ft_thread = -1\<rparr>))"

text \<open>\<open>contextResize\<close>: \<open>vector::resize\<close> cuts off or appends null pointers, which are then filled.\<close>

definition contextResize :: "'cb fd_context list \<Rightarrow> nat \<Rightarrow> 'cb fd_context list" where
  "contextResize cs n = take n cs @ map new_context [length cs..<n]"

section \<open>Construction\<close>

text \<open>
  The constructor after \<open>epoll_create\<close> and \<open>pipe\<close>; \<open>k\<close> is the kernel with the pipe registered,
  \<open>ids\<close> the threads that \<open>start\<close> makes.
\<close>

definition IOManager_new :: "nat \<Rightarrow> bool \<Rightarrow> int \<Rightarrow> nat \<Rightarrow> bool \<Rightarrow> u64 \<Rightarrow> 'k \<Rightarrow> int list \<Rightarrow>
    sched_error + ('cb, 'k) iomanager" where
  "IOManager_new threads use_caller me root has_sched now k ids =
     (case Scheduler_new threads use_caller me root has_sched of Inl e \<Rightarrow> Inl e
      | Inr s0 \<Rightarrow> (case start s0 ids of Inl e \<Rightarrow> Inl e
        | Inr s \<Rightarrow> Inr \<lparr>io_sched = s, io_timers = TimerManager_new now, io_kernel = k, io_pipe = 0,
                      m_pendingEventCount = 0, m_fdContexts = contextResize [] 32\<rparr>))"

section \<open>Adding and removing events\<close>

definition fd_lookup :: "('cb, 'k) iomanager \<Rightarrow> int \<Rightarrow> io_error + nat" where
  "fd_lookup io fd = (if 0 \<le> fd \<and> nat fd < length (m_fdContexts io) then Inr (nat fd) else Inl IoBounds)"

definition put_context :: "('cb, 'k) iomanager \<Rightarrow> nat \<Rightarrow> 'cb fd_context \<Rightarrow> ('cb, 'k) iomanager" where
  "put_context io i c = io\<lparr>m_fdContexts := (m_fdContexts io)[i := c]\<rparr>"

text \<open>
  \<open>addEvent\<close> takes three locks one after the other, and other threads run in between: the size of the table
  is read under the read lock, which gives the context or tells that the table has to grow; the growth under the
  write lock does not look at the size again, and its size is the double \<open>fd * 1.5\<close> cut to an integer; the rest
  is the critical section of the context.
\<close>

definition addEvent_look :: "('cb, 'k) iomanager \<Rightarrow> int \<Rightarrow> io_error + nat option" where
  "addEvent_look io fd =
     (if int (length (m_fdContexts io)) > fd then map_sum id Some (fd_lookup io fd) else Inr None)"

definition addEvent_grow :: "('cb, 'k) iomanager \<Rightarrow> int \<Rightarrow> io_error + ('cb, 'k) iomanager \<times> nat" where
  "addEvent_grow io fd =
     (let io1 = io\<lparr>m_fdContexts := contextResize (m_fdContexts io) (nat (3 * fd div 2))\<rparr>
      in map_sum id (Pair io1) (fd_lookup io1 fd))"

text \<open>
  The section of the context \<open>i\<close>: \<open>this_sched\<close> says whether the thread has a scheduler, \<open>cur\<close> is the running
  fiber and \<open>cur_exec\<close> says whether its state is \<open>EXEC\<close>. The result is 0 or -1.
\<close>

definition addEvent_on :: "'k epoll_ctl \<Rightarrow> ('cb, 'k) iomanager \<Rightarrow> nat \<Rightarrow> u32 \<Rightarrow> 'cb callback option \<Rightarrow> bool \<Rightarrow>
    nat \<Rightarrow> bool \<Rightarrow> io_error + ('cb, 'k) iomanager \<times> int" where
  "addEvent_on ctl io i event cb this_sched cur cur_exec =
     (let c = m_fdContexts io ! i in
        if fc_events c AND event \<noteq> 0 then Inl IoAssert
        else
          let op = (if fc_events c \<noteq> 0 then CTL_MOD else CTL_ADD) in
          (case ctl (io_kernel io) op i (EPOLLET OR fc_events c OR event) of
             None \<Rightarrow> Inr (io, -1)
           | Some k \<Rightarrow>
             let c1 = c\<lparr>fc_events := fc_events c OR event\<rparr> in
             (case getContext c1 event of Inl e \<Rightarrow> Inl e
              | Inr ec \<Rightarrow>
                if ec_scheduler ec \<or> ec_fiber ec \<noteq> None \<or> ec_cb ec \<noteq> None then Inl IoAssert
                else if cb = None \<and> \<not> cur_exec then Inl IoAssert
                else
                  let ec1 = (if cb \<noteq> None then ec\<lparr>ec_scheduler := this_sched, ec_cb := cb\<rparr>
                             else ec\<lparr>ec_scheduler := this_sched, ec_fiber := Some cur\<rparr>)
                  in Inr ((put_context io i (setContext c1 event ec1))
                            \<lparr>io_kernel := k, m_pendingEventCount := m_pendingEventCount io + 1\<rparr>, 0))))"

text \<open>The whole call, when no other thread changes the table meanwhile.\<close>

definition addEvent :: "'k epoll_ctl \<Rightarrow> ('cb, 'k) iomanager \<Rightarrow> int \<Rightarrow> u32 \<Rightarrow> 'cb callback option \<Rightarrow> bool \<Rightarrow>
    nat \<Rightarrow> bool \<Rightarrow> io_error + ('cb, 'k) iomanager \<times> int" where
  "addEvent ctl io fd event cb this_sched cur cur_exec =
     (case addEvent_look io fd of Inl e \<Rightarrow> Inl e
      | Inr (Some i) \<Rightarrow> addEvent_on ctl io i event cb this_sched cur cur_exec
      | Inr None \<Rightarrow> (case addEvent_grow io fd of Inl e \<Rightarrow> Inl e
          | Inr (io1, i) \<Rightarrow> addEvent_on ctl io1 i event cb this_sched cur cur_exec))"

definition delEvent :: "'k epoll_ctl \<Rightarrow> ('cb, 'k) iomanager \<Rightarrow> int \<Rightarrow> u32 \<Rightarrow>
    io_error + ('cb, 'k) iomanager \<times> bool" where
  "delEvent ctl io fd event =
     (if int (length (m_fdContexts io)) \<le> fd then Inr (io, False)
      else case fd_lookup io fd of Inl e \<Rightarrow> Inl e
      | Inr i \<Rightarrow>
        let c = m_fdContexts io ! i in
        if fc_events c AND event = 0 then Inr (io, False)
        else
          let new_events = fc_events c AND NOT event;
              op = (if new_events \<noteq> 0 then CTL_MOD else CTL_DEL) in
          (case ctl (io_kernel io) op i (EPOLLET OR new_events) of
             None \<Rightarrow> Inr (io, False)
           | Some k \<Rightarrow>
             let c1 = c\<lparr>fc_events := new_events\<rparr> in
             (case getContext c1 event of Inl e \<Rightarrow> Inl e
              | Inr ec \<Rightarrow>
                Inr ((put_context io i (setContext c1 event (resetContext ec)))
                       \<lparr>io_kernel := k, m_pendingEventCount := m_pendingEventCount io - 1\<rparr>, True))))"

text \<open>One call of \<open>triggerEvent\<close> on the context \<open>i\<close>, with the decrement that follows it.\<close>

definition fire :: "('cb, 'k) iomanager \<Rightarrow> nat \<Rightarrow> u32 \<Rightarrow> io_error + ('cb, 'k) iomanager" where
  "fire io i event =
     (case triggerEvent (m_fdContexts io ! i) event of Inl e \<Rightarrow> Inl e
      | Inr (c, ft) \<Rightarrow>
        let io1 = io_schedule (put_context io i c) ft
        in Inr (io1\<lparr>m_pendingEventCount := m_pendingEventCount io1 - 1\<rparr>))"

definition fire_if :: "bool \<Rightarrow> nat \<Rightarrow> u32 \<Rightarrow> ('cb, 'k) iomanager \<Rightarrow> io_error + ('cb, 'k) iomanager" where
  "fire_if b i event io = (if b then fire io i event else Inr io)"

definition cancelEvent :: "'k epoll_ctl \<Rightarrow> ('cb, 'k) iomanager \<Rightarrow> int \<Rightarrow> u32 \<Rightarrow>
    io_error + ('cb, 'k) iomanager \<times> bool" where
  "cancelEvent ctl io fd event =
     (if int (length (m_fdContexts io)) \<le> fd then Inr (io, False)
      else case fd_lookup io fd of Inl e \<Rightarrow> Inl e
      | Inr i \<Rightarrow>
        let c = m_fdContexts io ! i in
        if fc_events c AND event = 0 then Inr (io, False)
        else
          let new_events = fc_events c AND NOT event;
              op = (if new_events \<noteq> 0 then CTL_MOD else CTL_DEL) in
          (case ctl (io_kernel io) op i (EPOLLET OR new_events) of
             None \<Rightarrow> Inr (io, False)
           | Some k \<Rightarrow>
             (case fire (io\<lparr>io_kernel := k\<rparr>) i event of Inl e \<Rightarrow> Inl e | Inr io1 \<Rightarrow> Inr (io1, True))))"

text \<open>Two calls of \<open>triggerEvent\<close> in a row, each under its own condition.\<close>

definition fire_both :: "('cb fd_context \<Rightarrow> bool) \<Rightarrow> ('cb fd_context \<Rightarrow> bool) \<Rightarrow> nat \<Rightarrow> ('cb, 'k) iomanager \<Rightarrow>
    io_error + ('cb, 'k) iomanager" where
  "fire_both r w i io =
     (case fire_if (r (m_fdContexts io ! i)) i READ io of Inl e \<Rightarrow> Inl e
      | Inr io1 \<Rightarrow> fire_if (w (m_fdContexts io1 ! i)) i WRITE io1)"

definition cancelAll :: "'k epoll_ctl \<Rightarrow> ('cb, 'k) iomanager \<Rightarrow> int \<Rightarrow>
    io_error + ('cb, 'k) iomanager \<times> bool" where
  "cancelAll ctl io fd =
     (if int (length (m_fdContexts io)) \<le> fd then Inr (io, False)
      else case fd_lookup io fd of Inl e \<Rightarrow> Inl e
      | Inr i \<Rightarrow>
        let c = m_fdContexts io ! i in
        if fc_events c = 0 then Inr (io, False)
        else (case ctl (io_kernel io) CTL_DEL i 0 of
             None \<Rightarrow> Inr (io, False)
           | Some k \<Rightarrow>
             (case fire_both (\<lambda>c. fc_events c AND READ \<noteq> 0) (\<lambda>c. fc_events c AND WRITE \<noteq> 0) i
                     (io\<lparr>io_kernel := k\<rparr>) of Inl e \<Rightarrow> Inl e
              | Inr io1 \<Rightarrow> if fc_events (m_fdContexts io1 ! i) = 0 then Inr (io1, True) else Inl IoAssert)))"

section \<open>The idle loop\<close>

text \<open>\<open>stopping(timeout)\<close>: the answer and the time to the next timer.\<close>

definition io_stopping :: "('cb, 'k) iomanager \<Rightarrow> u64 \<Rightarrow> ('cb, 'k) iomanager \<times> bool \<times> u64" where
  "io_stopping io now =
     (let (tm, timeout) = getNextTimer (io_timers io) now
      in (io\<lparr>io_timers := tm\<rparr>,
          timeout = -1 \<and> m_pendingEventCount io = 0 \<and> stopping (io_sched io), timeout))"

text \<open>The timeout of \<open>epoll_wait\<close>, with the conversions of \<open>uint64_t\<close> to \<open>int\<close> as they are written.\<close>

definition to_int :: "u64 \<Rightarrow> int" where
  "to_int t = sint (ucast t :: u32)"

definition epoll_timeout :: "u64 \<Rightarrow> int" where
  "epoll_timeout next_timeout =
     (let t = (if next_timeout \<noteq> -1 then (if to_int next_timeout > 3000 then 3000 else next_timeout) else 3000)
      in to_int t)"

text \<open>What \<open>epoll_wait\<close> reports: the pipe, or a context with its flags.\<close>

datatype ready = PipeReady | FdReady nat u32

definition handle_ready :: "'k epoll_ctl \<Rightarrow> ('cb, 'k) iomanager \<Rightarrow> ready \<Rightarrow> io_error + ('cb, 'k) iomanager" where
  "handle_ready ctl io ev =
     (case ev of PipeReady \<Rightarrow> Inr (io\<lparr>io_pipe := 0\<rparr>)
      | FdReady i flags0 \<Rightarrow>
        let c = m_fdContexts io ! i;
            flags = (if flags0 AND (EPOLLERR OR EPOLLHUP) \<noteq> 0 then flags0 OR EPOLLIN OR EPOLLOUT else flags0);
            real_events = (if flags AND EPOLLIN \<noteq> 0 then READ else 0) OR (if flags AND EPOLLOUT \<noteq> 0 then WRITE else 0)
        in if fc_events c AND real_events = 0 then Inr io
        else
          let left_events = fc_events c AND NOT real_events;
              op = (if left_events \<noteq> 0 then CTL_MOD else CTL_DEL) in
          (case ctl (io_kernel io) op (fc_fd c) (EPOLLET OR left_events) of
             None \<Rightarrow> Inr io
           | Some k \<Rightarrow> fire_both (\<lambda>_. real_events AND READ \<noteq> 0) (\<lambda>_. real_events AND WRITE \<noteq> 0) i (io\<lparr>io_kernel := k\<rparr>)))"

fun handle_all :: "'k epoll_ctl \<Rightarrow> ('cb, 'k) iomanager \<Rightarrow> ready list \<Rightarrow> io_error + ('cb, 'k) iomanager" where
  "handle_all ctl io [] = Inr io"
| "handle_all ctl io (ev # evs) = (case handle_ready ctl io ev of Inl e \<Rightarrow> Inl e | Inr io1 \<Rightarrow> handle_all ctl io1 evs)"

text \<open>
  One round of the loop of \<open>idle\<close> after \<open>epoll_wait\<close>: the expired timers become tasks, then the
  reported events are handled. \<open>None\<close> as the result means that the loop has ended.
\<close>

definition idle_round :: "'k epoll_ctl \<Rightarrow> ('cb, 'k) iomanager \<Rightarrow> u64 \<Rightarrow> u64 \<Rightarrow> nat \<Rightarrow> ready list \<Rightarrow>
    io_error + ('cb, 'k) iomanager option" where
  "idle_round ctl io now1 now2 tmp evs =
     (let (io1, stop_now, timeout) = io_stopping io now1 in
      if stop_now then Inr None
      else
        let (tm, cbs) = listExpiredCb (io_timers io1) now2 tmp;
            io2 = io1\<lparr>io_timers := tm\<rparr>;
            io3 = (if cbs \<noteq> [] then io_schedule_range io2 (map (\<lambda>c. cb_task c (-1)) cbs) else io2)
        in (case handle_all ctl io3 evs of Inl e \<Rightarrow> Inl e | Inr io4 \<Rightarrow> Inr (Some io4)))"

text \<open>\<open>addTimer\<close> and \<open>addConditionTimer\<close> of the manager, with the notification.\<close>

definition io_addTimer :: "('cb, 'k) iomanager \<Rightarrow> nat \<Rightarrow> u64 \<Rightarrow> u64 \<Rightarrow> 'cb callback option \<Rightarrow> bool \<Rightarrow> ('cb, 'k) iomanager" where
  "io_addTimer io addr now ms cb recurring =
     (let (tm, notify) = addTimer (io_timers io) addr now ms cb recurring; io1 = io\<lparr>io_timers := tm\<rparr>
      in if notify then onTimerInsertedAtFront io1 else io1)"

definition io_addConditionTimer :: "('cb, 'k) iomanager \<Rightarrow> nat \<Rightarrow> u64 \<Rightarrow> u64 \<Rightarrow> 'cb \<Rightarrow> nat \<Rightarrow> bool \<Rightarrow> ('cb, 'k) iomanager" where
  "io_addConditionTimer io addr now ms cb weak_cond recurring =
     io_addTimer io addr now ms (Some (Guarded weak_cond cb)) recurring"


section \<open>Stopping and destruction\<close>

text \<open>
  \<open>stop\<close> with the virtual \<open>stopping\<close> and \<open>tickle\<close>; the former looks at the timers, which is done exactly when
  there is a root fiber.
\<close>

definition io_stop :: "(nat \<Rightarrow> State) \<Rightarrow> bool \<Rightarrow> u64 \<Rightarrow> ('cb, 'k) iomanager \<Rightarrow> sched_error + ('cb, 'k) iomanager \<times> stop_plan" where
  "io_stop st here now io =
     (case stop (\<lambda>s. fst (snd (io_stopping (io\<lparr>io_sched := s\<rparr>) now))) st here (io_sched io) of
        Inl e \<Rightarrow> Inl e
      | Inr (s, plan) \<Rightarrow>
          let io1 = io\<lparr>io_sched := s\<rparr>;
              io2 = (case plan of StopReturn \<Rightarrow> io1 | StopGo n _ \<Rightarrow> (tickle ^^ n) io1)
          in Inr (if m_rootFiber s \<noteq> None then fst (io_stopping io2 now) else io2, plan))"

text \<open>The destructor from the point where the root fiber has returned: the threads are joined, the contexts freed.\<close>

definition IOManager_delete :: "bool \<Rightarrow> ('cb, 'k) iomanager \<Rightarrow> sched_error + ('cb, 'k) iomanager \<times> bool" where
  "IOManager_delete here io =
     (let io1 = io\<lparr>io_sched := fst (stop_join (io_sched io)), io_pipe := 0, m_fdContexts := []\<rparr>
      in (case Scheduler_delete here (io_sched io1) of Inl e \<Rightarrow> Inl e | Inr cleared \<Rightarrow> Inr (io1, cleared)))"

lemma tickle_sched [simp]: "io_sched (tickle io) = io_sched io"
  by (simp add: tickle_def)

lemma tickles_sched [simp]: "io_sched ((tickle ^^ n) io) = io_sched io"
  by (induction n) simp_all

lemma io_stopping_sched [simp]: "io_sched (fst (io_stopping io now)) = io_sched io"
  by (simp add: io_stopping_def split: prod.splits)

text \<open>After a stop the assert of the base class holds: the destructor ends.\<close>

lemma delete_after_stop:
  assumes "io_stop st here now io = Inr (io1, plan)"
  shows "\<exists>io2. IOManager_delete here io1 = Inr (io2, here) \<and> m_fdContexts io2 = [] \<and> m_threads (io_sched io2) = []"
proof -
  have "m_stopping (io_sched io1)"
    using assms by (auto simp: io_stop_def stop_def Let_def split: sum.splits prod.splits stop_plan.splits if_splits option.splits)
  then show ?thesis by (simp add: IOManager_delete_def Scheduler_delete_def stop_join_def)
qed

end
