(* ===== verification/IOManager_Inv.thy ===== *)
theory IOManager_Inv
  imports IOManager
begin

text \<open>
  The invariant of the event table: an event bit is set exactly when its event context holds a
  scheduler and one waiter, the pending count is the number of set bits, and the kernel watches exactly
  the registered events. Every operation keeps it.
\<close>

section \<open>Contexts\<close>

definition ec_ok :: "bool \<Rightarrow> 'cb event_context \<Rightarrow> bool" where
  "ec_ok b ec \<longleftrightarrow> (if b then ec_scheduler ec \<and> (ec_fiber ec = None) \<noteq> (ec_cb ec = None) else ec = no_context)"

definition ctx_ok :: "nat \<Rightarrow> 'cb fd_context \<Rightarrow> bool" where
  "ctx_ok i c \<longleftrightarrow> fc_fd c = i \<and> fc_events c \<in> {0, READ, WRITE, READ OR WRITE} \<and>
     ec_ok (fc_events c AND READ \<noteq> 0) (fc_read c) \<and> ec_ok (fc_events c AND WRITE \<noteq> 0) (fc_write c)"

definition ev_count :: "'cb fd_context \<Rightarrow> nat" where
  "ev_count c = of_bool (fc_events c AND READ \<noteq> 0) + of_bool (fc_events c AND WRITE \<noteq> 0)"

definition io_inv :: "('cb, 'k) iomanager \<Rightarrow> bool" where
  "io_inv io \<longleftrightarrow> (\<forall>i < length (m_fdContexts io). ctx_ok i (m_fdContexts io ! i)) \<and>
     m_pendingEventCount io = of_nat (sum_list (map ev_count (m_fdContexts io))) \<and>
     32 \<le> length (m_fdContexts io)"

text \<open>The task that a registered event makes.\<close>

definition task_of :: "'cb event_context \<Rightarrow> 'cb callback task" where
  "task_of ec = (if ec_cb ec \<noteq> None then cb_task (ec_cb ec) (-1)
     else \<lparr>ft_fiber = ec_fiber ec, ft_cb = None, ft_thread = -1\<rparr>)"

definition ctx_of :: "'cb fd_context \<Rightarrow> u32 \<Rightarrow> 'cb event_context" where
  "ctx_of c event = (if event = READ then fc_read c else fc_write c)"

definition without :: "'cb fd_context \<Rightarrow> u32 \<Rightarrow> 'cb fd_context" where
  "without c event = setContext (c\<lparr>fc_events := fc_events c AND NOT event\<rparr>) event no_context"

lemma ctx_okD: "ctx_ok i c \<Longrightarrow> fc_events c = 0 \<or> fc_events c = 1 \<or> fc_events c = 4 \<or> fc_events c = 5"
  by (auto simp: ctx_ok_def)

lemma new_context_ok [simp]: "ctx_ok i (new_context i)" "ev_count (new_context i) = 0"
  "fc_events (new_context i) = 0"
  by (simp_all add: ctx_ok_def new_context_def ec_ok_def ev_count_def)

lemma triggerEvent_ok:
  assumes "ctx_ok i c" and "event = READ \<or> event = WRITE"
  shows "triggerEvent c event =
    (if fc_events c AND event = 0 then Inl IoAssert else Inr (without c event, task_of (ctx_of c event)))"
  using assms(2) ctx_okD [OF assms(1)] assms(1)
  by (auto simp: triggerEvent_def ctx_ok_def ec_ok_def getContext_def setContext_def without_def
      task_of_def ctx_of_def no_context_def Let_def)

lemma without_ok:
  assumes "ctx_ok i c" and "event = READ \<or> event = WRITE" and "fc_events c AND event \<noteq> 0"
  shows "ctx_ok i (without c event)" "ev_count c = Suc (ev_count (without c event))"
    "fc_events (without c event) = fc_events c AND NOT event"
  using assms(2,3) ctx_okD [OF assms(1)] assms(1)
  by (auto simp: ctx_ok_def ec_ok_def setContext_def without_def ev_count_def no_context_def)

section \<open>Scheduling keeps the table\<close>

lemma io_schedule_simps [simp]:
  "m_fdContexts (io_schedule io ft) = m_fdContexts io" "io_kernel (io_schedule io ft) = io_kernel io"
  "m_pendingEventCount (io_schedule io ft) = m_pendingEventCount io"
  "io_timers (io_schedule io ft) = io_timers io"
  by (simp_all add: io_schedule_def tickle_def split_beta Let_def)

lemma io_schedule_queue: "m_fibers (io_sched (io_schedule io ft)) =
    m_fibers (io_sched io) @ (if ft_fiber ft \<noteq> None \<or> ft_cb ft \<noteq> None then [ft] else [])"
  by (simp add: io_schedule_def tickle_def split_beta Let_def schedule_def scheduleNoLock_def)

lemma io_schedule_range_simps [simp]:
  "m_fdContexts (io_schedule_range io fts) = m_fdContexts io" "io_kernel (io_schedule_range io fts) = io_kernel io"
  "m_pendingEventCount (io_schedule_range io fts) = m_pendingEventCount io"
  by (simp_all add: io_schedule_range_def tickle_def split_beta Let_def)

lemma put_context_simps [simp]:
  "m_fdContexts (put_context io i c) = (m_fdContexts io)[i := c]" "io_kernel (put_context io i c) = io_kernel io"
  "m_pendingEventCount (put_context io i c) = m_pendingEventCount io" "io_sched (put_context io i c) = io_sched io"
  "io_timers (put_context io i c) = io_timers io"
  by (simp_all add: put_context_def)

lemma io_invD: "io_inv io \<Longrightarrow> i < length (m_fdContexts io) \<Longrightarrow> ctx_ok i (m_fdContexts io ! i)"
  by (simp add: io_inv_def)

lemma sum_update: "i < length xs \<Longrightarrow> sum_list (map f (xs[i := c])) + f (xs ! i) = sum_list (map f xs) + (f c :: nat)"
  by (induction xs arbitrary: i) (auto split: nat.splits)

text \<open>Replacing one context, with the pending count moved along.\<close>

lemma io_inv_put:
  assumes inv: "io_inv io" and i: "i < length (m_fdContexts io)" and c: "ctx_ok i c"
    and io': "m_fdContexts io' = (m_fdContexts io)[i := c]"
    and p: "m_pendingEventCount io' + of_nat (ev_count (m_fdContexts io ! i)) =
      m_pendingEventCount io + of_nat (ev_count c)"
  shows "io_inv io'"
proof -
  have "(of_nat (sum_list (map ev_count (m_fdContexts io')) + ev_count (m_fdContexts io ! i)) :: u64) =
      of_nat (sum_list (map ev_count (m_fdContexts io)) + ev_count c)"
    using sum_update [OF i, of ev_count c] io' by simp
  then have "m_pendingEventCount io' = of_nat (sum_list (map ev_count (m_fdContexts io')))"
    using p inv by (simp add: io_inv_def) (metis add_right_cancel)
  moreover have "ctx_ok j (m_fdContexts io' ! j)" if "j < length (m_fdContexts io')" for j
    using that inv c io' by (cases "j = i") (auto simp: io_inv_def)
  ultimately show ?thesis using inv io' by (simp add: io_inv_def)
qed

section \<open>The kernel\<close>

text \<open>
  The documented behaviour of a successful \<open>epoll_ctl\<close>; \<open>view\<close> reads the watched events of a
  descriptor.
\<close>

definition epoll_laws :: "'k epoll_ctl \<Rightarrow> ('k \<Rightarrow> nat \<Rightarrow> u32 option) \<Rightarrow> bool" where
  "epoll_laws ctl view \<longleftrightarrow> (\<forall>k op i ev k'. ctl k op i ev = Some k' \<longrightarrow>
     view k' = (view k)(i := (if op = CTL_DEL then None else Some ev)))"

definition watched :: "('cb, 'k) iomanager \<Rightarrow> nat \<Rightarrow> u32 option" where
  "watched io i = (if i < length (m_fdContexts io) \<and> fc_events (m_fdContexts io ! i) \<noteq> 0
     then Some (EPOLLET OR fc_events (m_fdContexts io ! i)) else None)"

text \<open>In step with the kernel, the read end \<open>p\<close> of the pipe apart.\<close>

definition in_sync :: "('k \<Rightarrow> nat \<Rightarrow> u32 option) \<Rightarrow> nat \<Rightarrow> ('cb, 'k) iomanager \<Rightarrow> bool" where
  "in_sync view p io \<longleftrightarrow> (\<forall>i. i \<noteq> p \<longrightarrow> view (io_kernel io) i = watched io i)"

lemma in_sync_put:
  assumes s: "in_sync view p io" and l: "epoll_laws ctl view" and i: "i < length (m_fdContexts io)"
    and k: "ctl (io_kernel io) op i (EPOLLET OR ev) = Some k \<or> (op = CTL_DEL \<and> ctl (io_kernel io) op i v = Some k)"
    and op: "op = CTL_DEL \<longleftrightarrow> ev = 0"
    and io': "io_kernel io' = k" "m_fdContexts io' = (m_fdContexts io)[i := c]" "fc_events c = ev"
  shows "in_sync view p io'"
proof -
  have "view k = (view (io_kernel io))(i := (if ev = 0 then None else Some (EPOLLET OR ev)))"
    using k
  proof
    assume "ctl (io_kernel io) op i (EPOLLET OR ev) = Some k"
    then show ?thesis using l op unfolding epoll_laws_def by (auto simp del: fun_upd_apply)
  next
    assume "op = CTL_DEL \<and> ctl (io_kernel io) op i v = Some k"
    then show ?thesis using l op unfolding epoll_laws_def by (auto simp del: fun_upd_apply)
  qed
  then have v: "view (io_kernel io') j =
      (if j = i then (if ev = 0 then None else Some (EPOLLET OR ev)) else view (io_kernel io) j)" for j
    using io'(1) by simp
  have "watched io' j = (if j = i then (if ev = 0 then None else Some (EPOLLET OR ev)) else watched io j)" for j
    using i io'(2,3) by (simp add: watched_def)
  then show ?thesis using s v by (simp add: in_sync_def)
qed

section \<open>Firing events\<close>

definition fired_io :: "('cb, 'k) iomanager \<Rightarrow> nat \<Rightarrow> u32 \<Rightarrow> ('cb, 'k) iomanager" where
  "fired_io io i event = (let c = m_fdContexts io ! i;
     io1 = io_schedule (put_context io i (without c event)) (task_of (ctx_of c event))
     in io1\<lparr>m_pendingEventCount := m_pendingEventCount io1 - 1\<rparr>)"

lemma fired_simps [simp]:
  "m_fdContexts (fired_io io i event) = (m_fdContexts io)[i := without (m_fdContexts io ! i) event]"
  "io_kernel (fired_io io i event) = io_kernel io"
  "m_pendingEventCount (fired_io io i event) = m_pendingEventCount io - 1"
  by (simp_all add: fired_io_def Let_def)

lemma fire_ok:
  assumes "io_inv io" and "i < length (m_fdContexts io)" and "event = READ \<or> event = WRITE"
  shows "fire io i event =
    (if fc_events (m_fdContexts io ! i) AND event = 0 then Inl IoAssert else Inr (fired_io io i event))"
  using triggerEvent_ok [OF io_invD [OF assms(1,2)] assms(3)]
  by (simp add: fire_def fired_io_def Let_def)

lemma fired_inv:
  assumes inv: "io_inv io" and i: "i < length (m_fdContexts io)" and ev: "event = READ \<or> event = WRITE"
    and set: "fc_events (m_fdContexts io ! i) AND event \<noteq> 0"
  shows "io_inv (fired_io io i event)"
proof -
  note w = without_ok [OF io_invD [OF inv i] ev set]
  show ?thesis by (rule io_inv_put [OF inv i w(1)]) (simp_all add: w(2))
qed

lemma task_of_ok:
  assumes "ctx_ok i c" and "event = READ \<or> event = WRITE" and "fc_events c AND event \<noteq> 0"
  shows "ft_fiber (task_of (ctx_of c event)) \<noteq> None \<or> ft_cb (task_of (ctx_of c event)) \<noteq> None"
  using assms by (auto simp: ctx_ok_def ec_ok_def task_of_def ctx_of_def cb_task_def)

lemma fired_queue:
  assumes "io_inv io" and "i < length (m_fdContexts io)" and "event = READ \<or> event = WRITE"
    and "fc_events (m_fdContexts io ! i) AND event \<noteq> 0"
  shows "m_fibers (io_sched (fired_io io i event)) =
    m_fibers (io_sched io) @ [task_of (ctx_of (m_fdContexts io ! i) event)]"
  using task_of_ok [OF io_invD [OF assms(1,2)] assms(3,4)]
  by (simp add: fired_io_def Let_def io_schedule_queue)

text \<open>The tasks of the registered events among a mask, in the order in which they are fired.\<close>

definition waiting :: "'cb fd_context \<Rightarrow> u32 \<Rightarrow> 'cb callback task list" where
  "waiting c m = (if m AND READ \<noteq> 0 then [task_of (fc_read c)] else []) @
     (if m AND WRITE \<noteq> 0 then [task_of (fc_write c)] else [])"

definition strip :: "'cb fd_context \<Rightarrow> u32 \<Rightarrow> 'cb fd_context" where
  "strip c m = (let c1 = (if m AND READ \<noteq> 0 then without c READ else c)
     in if m AND WRITE \<noteq> 0 then without c1 WRITE else c1)"

lemma without_other [simp]:
  "fc_write (without c READ) = fc_write c" "fc_read (without c WRITE) = fc_read c"
  "fc_events (without c event) = fc_events c AND NOT event" "fc_fd (without c event) = fc_fd c"
  by (simp_all add: without_def setContext_def)

lemma mask_values: "m = 0 \<or> m = 1 \<or> m = 4 \<or> m = (5 :: u32) \<Longrightarrow>
    (m AND 1 \<noteq> 0 \<longleftrightarrow> m = 1 \<or> m = 5) \<and> (m AND 4 \<noteq> 0 \<longleftrightarrow> m = 4 \<or> m = 5)"
  by auto

text \<open>Firing a mask on a context: an assert fails exactly when the mask has an unregistered event.\<close>

lemma fire_mask:
  assumes inv: "io_inv io" and i: "i < length (m_fdContexts io)"
    and m: "m = 0 \<or> m = 1 \<or> m = 4 \<or> m = (5 :: u32)"
    and r: "r (m_fdContexts io ! i) \<longleftrightarrow> m AND READ \<noteq> 0"
    and w: "\<And>c. c = m_fdContexts io ! i \<or> c = without (m_fdContexts io ! i) READ \<Longrightarrow> w c \<longleftrightarrow> m AND WRITE \<noteq> 0"
  shows "if m AND NOT (fc_events (m_fdContexts io ! i)) \<noteq> 0 then fire_both r w i io = Inl IoAssert
    else \<exists>io'. fire_both r w i io = Inr io' \<and> io_inv io' \<and> io_kernel io' = io_kernel io \<and>
      m_fdContexts io' = (m_fdContexts io)[i := strip (m_fdContexts io ! i) m] \<and>
      m_fibers (io_sched io') = m_fibers (io_sched io) @ waiting (m_fdContexts io ! i) m"
proof -
  let ?c = "m_fdContexts io ! i"
  note c = io_invD [OF inv i]
  have e: "fc_events ?c = 0 \<or> fc_events ?c = 1 \<or> fc_events ?c = 4 \<or> fc_events ?c = 5" by (rule ctx_okD [OF c])
  let ?io1 = "if m AND READ \<noteq> 0 then fired_io io i READ else io"
  have one: "fire_if (r ?c) i READ io = (if m AND READ \<noteq> 0 \<and> fc_events ?c AND READ = 0 then Inl IoAssert else Inr ?io1)"
    using fire_ok [OF inv i, of READ] r by (simp add: fire_if_def)
  show ?thesis
  proof (cases "m AND READ \<noteq> 0 \<and> fc_events ?c AND READ = 0")
    case True
    then have "m AND NOT (fc_events ?c) \<noteq> 0" using m e by auto
    then show ?thesis using one True by (simp add: fire_both_def)
  next
    case ok: False
    have inv1: "io_inv ?io1" using fired_inv [OF inv i, of READ] inv ok by auto
    have i1: "i < length (m_fdContexts ?io1)" using i by simp
    have c1: "m_fdContexts ?io1 ! i = (if m AND READ \<noteq> 0 then without ?c READ else ?c)" using i by simp
    have w1: "w (m_fdContexts ?io1 ! i) \<longleftrightarrow> m AND WRITE \<noteq> 0" using w c1 by auto
    have e1: "fc_events (m_fdContexts ?io1 ! i) AND WRITE = fc_events ?c AND WRITE" using c1 e by auto
    have q1: "m_fibers (io_sched ?io1) = m_fibers (io_sched io) @ (if m AND READ \<noteq> 0 then [task_of (fc_read ?c)] else [])"
      using fired_queue [OF inv i, of READ] ok by (auto simp: ctx_of_def)
    have both: "fire_both r w i io = (if m AND WRITE \<noteq> 0 \<and> fc_events ?c AND WRITE = 0 then Inl IoAssert
        else Inr (if m AND WRITE \<noteq> 0 then fired_io ?io1 i WRITE else ?io1))"
      using one ok fire_ok [OF inv1 i1, of WRITE] w1 e1 by (auto simp: fire_both_def fire_if_def)
    show ?thesis
    proof (cases "m AND WRITE \<noteq> 0 \<and> fc_events ?c AND WRITE = 0")
      case True
      then have "m AND NOT (fc_events ?c) \<noteq> 0" using m e by auto
      then show ?thesis using both True by simp
    next
      case okw: False
      have n: "m AND NOT (fc_events ?c) = 0" using ok okw m e by auto
      let ?io2 = "if m AND WRITE \<noteq> 0 then fired_io ?io1 i WRITE else ?io1"
      have "io_inv ?io2" using fired_inv [OF inv1 i1, of WRITE] inv1 okw e1 by (cases "m AND WRITE \<noteq> 0") auto
      moreover have "m_fibers (io_sched ?io2) = m_fibers (io_sched io) @ waiting ?c m"
      proof (cases "m AND WRITE \<noteq> 0")
        case True
        then have "m_fibers (io_sched ?io2) = m_fibers (io_sched ?io1) @ [task_of (fc_write (m_fdContexts ?io1 ! i))]"
          using fired_queue [OF inv1 i1, of WRITE] okw e1 by (simp add: ctx_of_def del: fired_simps)
        also have "fc_write (m_fdContexts ?io1 ! i) = fc_write ?c" using c1 by simp
        finally show ?thesis using q1 True by (simp add: waiting_def)
      qed (use q1 in \<open>simp add: waiting_def\<close>)
      moreover have "m_fdContexts ?io2 = (m_fdContexts io)[i := strip ?c m]" using i by (auto simp: strip_def)
      moreover have "fire_both r w i io = Inr ?io2" unfolding both if_not_P [OF okw] by (rule refl)
      moreover have "io_kernel ?io2 = io_kernel io" by simp
      ultimately have "\<exists>io'. fire_both r w i io = Inr io' \<and> io_inv io' \<and> io_kernel io' = io_kernel io \<and>
        m_fdContexts io' = (m_fdContexts io)[i := strip ?c m] \<and>
        m_fibers (io_sched io') = m_fibers (io_sched io) @ waiting ?c m" by blast
      then show ?thesis using n by (simp only: if_False simp_thms)
    qed
  qed
qed

section \<open>The operations\<close>

lemma kernel_inv [simp]: "io_inv (io\<lparr>io_kernel := k\<rparr>) = io_inv io"
  by (simp add: io_inv_def)

lemma kernel_simps:
  "m_fdContexts (io\<lparr>io_kernel := k\<rparr>) = m_fdContexts io" "io_sched (io\<lparr>io_kernel := k\<rparr>) = io_sched io"
  "io_kernel (io\<lparr>io_kernel := k\<rparr>) = k"
  by simp_all

lemma strip_events: "m = 0 \<or> m = 1 \<or> m = 4 \<or> m = (5 :: u32) \<Longrightarrow>
    fc_events c = 0 \<or> fc_events c = 1 \<or> fc_events c = 4 \<or> fc_events c = 5 \<Longrightarrow>
    fc_events (strip c m) = fc_events c AND NOT m"
  by (auto simp: strip_def Let_def)

text \<open>What one round of \<open>epoll_wait\<close> reports for a context, cut to the two events.\<close>

definition real_events :: "u32 \<Rightarrow> u32" where
  "real_events flags0 =
     (let flags = (if flags0 AND (EPOLLERR OR EPOLLHUP) \<noteq> 0 then flags0 OR EPOLLIN OR EPOLLOUT else flags0)
      in (if flags AND EPOLLIN \<noteq> 0 then READ else 0) OR (if flags AND EPOLLOUT \<noteq> 0 then WRITE else 0))"

lemma real_events_values: "real_events f = 0 \<or> real_events f = 1 \<or> real_events f = 4 \<or> real_events f = 5"
  by (simp add: real_events_def Let_def)

lemma handle_ready_unfold:
  assumes "io_inv io" and "i < length (m_fdContexts io)"
  shows "handle_ready ctl io (FdReady i flags) =
    (let c = m_fdContexts io ! i; m = real_events flags; left = fc_events c AND NOT m in
     if fc_events c AND m = 0 then Inr io
     else (case ctl (io_kernel io) (if left \<noteq> 0 then CTL_MOD else CTL_DEL) i (EPOLLET OR left) of
        None \<Rightarrow> Inr io
      | Some k \<Rightarrow> fire_both (\<lambda>_. m AND READ \<noteq> 0) (\<lambda>_. m AND WRITE \<noteq> 0) i (io\<lparr>io_kernel := k\<rparr>)))"
  using io_invD [OF assms] by (simp add: handle_ready_def real_events_def Let_def ctx_ok_def)

lemma handle_ready_ok:
  assumes inv: "io_inv io" and i: "i < length (m_fdContexts io)"
    and hit: "fc_events (m_fdContexts io ! i) AND real_events flags \<noteq> 0"
    and k: "ctl (io_kernel io)
      (if fc_events (m_fdContexts io ! i) AND NOT (real_events flags) \<noteq> 0 then CTL_MOD else CTL_DEL) i
      (EPOLLET OR fc_events (m_fdContexts io ! i) AND NOT (real_events flags)) = Some k"
  shows "if real_events flags AND NOT (fc_events (m_fdContexts io ! i)) \<noteq> 0
    then handle_ready ctl io (FdReady i flags) = Inl IoAssert
    else \<exists>io'. handle_ready ctl io (FdReady i flags) = Inr io' \<and> io_inv io' \<and> io_kernel io' = k \<and>
      m_fdContexts io' = (m_fdContexts io)[i := strip (m_fdContexts io ! i) (real_events flags)] \<and>
      m_fibers (io_sched io') = m_fibers (io_sched io) @ waiting (m_fdContexts io ! i) (real_events flags)"
proof -
  let ?m = "real_events flags"
  have "handle_ready ctl io (FdReady i flags) =
      fire_both (\<lambda>_. ?m AND READ \<noteq> 0) (\<lambda>_. ?m AND WRITE \<noteq> 0) i (io\<lparr>io_kernel := k\<rparr>)"
    using handle_ready_unfold [OF inv i, of ctl flags] hit k by (simp add: Let_def)
  moreover have "io_inv (io\<lparr>io_kernel := k\<rparr>)" "i < length (m_fdContexts (io\<lparr>io_kernel := k\<rparr>))" using inv i by simp_all
  note fm = fire_mask [OF this real_events_values [of flags] refl refl, unfolded kernel_simps]
  ultimately show ?thesis using fm by (simp only:)
qed

lemma handle_ready_inv:
  assumes inv: "io_inv io" and i: "i < length (m_fdContexts io)"
    and r: "handle_ready ctl io (FdReady i flags) = Inr io'"
    and l: "epoll_laws ctl view" and s: "in_sync view p io"
  shows "io_inv io' \<and> in_sync view p io'"
proof -
  let ?c = "m_fdContexts io ! i" and ?m = "real_events flags"
  let ?left = "fc_events ?c AND NOT ?m"
  let ?call = "ctl (io_kernel io) (if ?left \<noteq> 0 then CTL_MOD else CTL_DEL) i (EPOLLET OR ?left)"
  show ?thesis
  proof (cases "fc_events ?c AND ?m = 0 \<or> ?call = None")
    case True
    then have "handle_ready ctl io (FdReady i flags) = Inr io"
      by (elim disjE) (simp_all add: handle_ready_unfold [OF inv i] Let_def del: if_split)
    then have "io' = io" using r by simp
    then show ?thesis using inv s by simp
  next
    case False
    then obtain k where k: "?call = Some k" and hit: "fc_events ?c AND ?m \<noteq> 0" by auto
    have "\<not> ?m AND NOT (fc_events ?c) \<noteq> 0 \<and> io_inv io' \<and> io_kernel io' = k \<and> m_fdContexts io' = (m_fdContexts io)[i := strip ?c ?m]"
      using handle_ready_ok [where ctl = ctl and k = k, OF inv i hit k] r by (auto split: if_splits)
    moreover have "fc_events (strip ?c ?m) = ?left"
      using strip_events [OF real_events_values ctx_okD [OF io_invD [OF inv i]]] .
    ultimately show ?thesis
      using in_sync_put [OF s l i, of "if ?left \<noteq> 0 then CTL_MOD else CTL_DEL" ?left k 0 io' "strip ?c ?m"] k
      by auto
  qed
qed

lemma fd_lookupD: "fd_lookup io fd = Inr i \<Longrightarrow> i < length (m_fdContexts io) \<and> fd = int i"
  by (auto simp: fd_lookup_def split: if_splits)

lemma cancelEvent_ok:
  assumes inv: "io_inv io" and ev: "event = READ \<or> event = WRITE"
    and r: "cancelEvent ctl io fd event = Inr (io', b)"
  shows "if b then \<exists>i k. fd = int i \<and> i < length (m_fdContexts io) \<and> fc_events (m_fdContexts io ! i) AND event \<noteq> 0 \<and>
      ctl (io_kernel io) (if fc_events (m_fdContexts io ! i) AND NOT event \<noteq> 0 then CTL_MOD else CTL_DEL) i
        (EPOLLET OR (fc_events (m_fdContexts io ! i) AND NOT event)) = Some k \<and>
      io' = fired_io (io\<lparr>io_kernel := k\<rparr>) i event
    else io' = io"
  using r fire_ok [of "io\<lparr>io_kernel := k\<rparr>" _ event for k] inv ev
  by (auto simp: cancelEvent_def Let_def dest!: fd_lookupD split: if_splits sum.splits option.splits)

lemma cancelEvent_inv:
  assumes inv: "io_inv io" and ev: "event = READ \<or> event = WRITE"
    and r: "cancelEvent ctl io fd event = Inr (io', b)"
    and l: "epoll_laws ctl view" and s: "in_sync view p io"
  shows "io_inv io' \<and> in_sync view p io'"
proof (cases b)
  case True
  then obtain i k where i: "i < length (m_fdContexts io)" and set: "fc_events (m_fdContexts io ! i) AND event \<noteq> 0"
    and k: "ctl (io_kernel io) (if fc_events (m_fdContexts io ! i) AND NOT event \<noteq> 0 then CTL_MOD else CTL_DEL) i
        (EPOLLET OR (fc_events (m_fdContexts io ! i) AND NOT event)) = Some k"
    and io': "io' = fired_io (io\<lparr>io_kernel := k\<rparr>) i event"
    using cancelEvent_ok [OF inv ev r] by auto
  have "io_inv io'" using fired_inv [of "io\<lparr>io_kernel := k\<rparr>" i event] inv i ev set io' by simp
  moreover have "in_sync view p io'"
    by (rule in_sync_put [OF s l i, of "if fc_events (m_fdContexts io ! i) AND NOT event \<noteq> 0 then CTL_MOD else CTL_DEL"
          "fc_events (m_fdContexts io ! i) AND NOT event" k 0 io'
          "without (m_fdContexts io ! i) event"]) (use k io' in auto)
  ultimately show ?thesis by simp
next
  case False
  then show ?thesis using cancelEvent_ok [OF inv ev r] inv s by simp
qed

lemma resetContext_no: "resetContext ec = no_context"
  by (cases ec) (simp add: resetContext_def no_context_def)

lemma delEvent_ok:
  assumes inv: "io_inv io" and ev: "event = READ \<or> event = WRITE"
    and r: "delEvent ctl io fd event = Inr (io', b)"
  shows "if b then \<exists>i k. fd = int i \<and> i < length (m_fdContexts io) \<and> fc_events (m_fdContexts io ! i) AND event \<noteq> 0 \<and>
      ctl (io_kernel io) (if fc_events (m_fdContexts io ! i) AND NOT event \<noteq> 0 then CTL_MOD else CTL_DEL) i
        (EPOLLET OR (fc_events (m_fdContexts io ! i) AND NOT event)) = Some k \<and>
      io' = (put_context io i (without (m_fdContexts io ! i) event))
        \<lparr>io_kernel := k, m_pendingEventCount := m_pendingEventCount io - 1\<rparr>
    else io' = io"
  using r ev
  by (auto simp: delEvent_def Let_def getContext_def without_def resetContext_no
      dest!: fd_lookupD split: if_splits sum.splits option.splits)

lemma delEvent_inv:
  assumes inv: "io_inv io" and ev: "event = READ \<or> event = WRITE"
    and r: "delEvent ctl io fd event = Inr (io', b)"
    and l: "epoll_laws ctl view" and s: "in_sync view p io"
  shows "io_inv io' \<and> in_sync view p io'"
proof (cases b)
  case True
  then obtain i k where i: "i < length (m_fdContexts io)" and set: "fc_events (m_fdContexts io ! i) AND event \<noteq> 0"
    and k: "ctl (io_kernel io) (if fc_events (m_fdContexts io ! i) AND NOT event \<noteq> 0 then CTL_MOD else CTL_DEL) i
        (EPOLLET OR (fc_events (m_fdContexts io ! i) AND NOT event)) = Some k"
    and io': "io' = (put_context io i (without (m_fdContexts io ! i) event))
        \<lparr>io_kernel := k, m_pendingEventCount := m_pendingEventCount io - 1\<rparr>"
    using delEvent_ok [OF inv ev r] by auto
  note w = without_ok [OF io_invD [OF inv i] ev set]
  have "io_inv io'" by (rule io_inv_put [OF inv i w(1)]) (simp_all add: io' w(2))
  moreover have "in_sync view p io'"
    by (rule in_sync_put [OF s l i, of "if fc_events (m_fdContexts io ! i) AND NOT event \<noteq> 0 then CTL_MOD else CTL_DEL"
          "fc_events (m_fdContexts io ! i) AND NOT event" k 0 io' "without (m_fdContexts io ! i) event"])
      (use k io' in auto)
  ultimately show ?thesis by simp
next
  case False
  then show ?thesis using delEvent_ok [OF inv ev r] inv s by simp
qed

lemma cancelAll_ok:
  assumes inv: "io_inv io" and i: "i < length (m_fdContexts io)"
    and e: "fc_events (m_fdContexts io ! i) \<noteq> 0" and k: "ctl (io_kernel io) CTL_DEL i 0 = Some k"
  shows "\<exists>io'. cancelAll ctl io (int i) = Inr (io', True) \<and> io_inv io' \<and> io_kernel io' = k \<and>
    m_fdContexts io' = (m_fdContexts io)[i := strip (m_fdContexts io ! i) (fc_events (m_fdContexts io ! i))] \<and>
    m_fibers (io_sched io') = m_fibers (io_sched io) @ waiting (m_fdContexts io ! i) (fc_events (m_fdContexts io ! i))"
proof -
  let ?c = "m_fdContexts io ! i"
  let ?m = "fc_events ?c"
  have m: "?m = 0 \<or> ?m = 1 \<or> ?m = 4 \<or> ?m = 5" by (rule ctx_okD [OF io_invD [OF inv i]])
  have pre: "io_inv (io\<lparr>io_kernel := k\<rparr>)" "i < length (m_fdContexts (io\<lparr>io_kernel := k\<rparr>))" using inv i by simp_all
  have w: "fc_events c AND WRITE \<noteq> 0 \<longleftrightarrow> ?m AND WRITE \<noteq> 0" if "c = ?c \<or> c = without ?c READ" for c
    using that m by auto
  have "fire_both (\<lambda>c. fc_events c AND READ \<noteq> 0) (\<lambda>c. fc_events c AND WRITE \<noteq> 0) i (io\<lparr>io_kernel := k\<rparr>) = Inr io1 \<and> P io1
      \<Longrightarrow> True" for io1 P by simp
  note fm = fire_mask [OF pre m, of "\<lambda>c. fc_events c AND READ \<noteq> 0" "\<lambda>c. fc_events c AND WRITE \<noteq> 0", unfolded kernel_simps,
      OF refl w]
  have n: "?m AND NOT ?m = 0" by simp
  from fm obtain io1 where f: "fire_both (\<lambda>c. fc_events c AND READ \<noteq> 0) (\<lambda>c. fc_events c AND WRITE \<noteq> 0) i
        (io\<lparr>io_kernel := k\<rparr>) = Inr io1" "io_inv io1" "io_kernel io1 = k"
      "m_fdContexts io1 = (m_fdContexts io)[i := strip ?c ?m]"
      "m_fibers (io_sched io1) = m_fibers (io_sched io) @ waiting ?c ?m"
    by (auto simp: n)
  have "fc_events (m_fdContexts io1 ! i) = 0" using f(4) i strip_events [OF m m] by simp
  then show ?thesis using f i e k by (simp add: cancelAll_def fd_lookup_def Let_def)
qed

lemma cancelAll_cases:
  assumes inv: "io_inv io" and r: "cancelAll ctl io fd = Inr (io', b)"
  shows "(b = False \<and> io' = io) \<or> (\<exists>i k. fd = int i \<and> i < length (m_fdContexts io) \<and>
    fc_events (m_fdContexts io ! i) \<noteq> 0 \<and> ctl (io_kernel io) CTL_DEL i 0 = Some k)"
  using r by (auto simp: cancelAll_def Let_def dest!: fd_lookupD split: if_splits sum.splits option.splits)

lemma cancelAll_inv:
  assumes inv: "io_inv io" and r: "cancelAll ctl io fd = Inr (io', b)"
    and l: "epoll_laws ctl view" and s: "in_sync view p io"
  shows "io_inv io' \<and> in_sync view p io'"
  using cancelAll_cases [OF inv r]
proof
  assume "\<exists>i k. fd = int i \<and> i < length (m_fdContexts io) \<and>
    fc_events (m_fdContexts io ! i) \<noteq> 0 \<and> ctl (io_kernel io) CTL_DEL i 0 = Some k"
  then obtain i k where i: "fd = int i" "i < length (m_fdContexts io)" "fc_events (m_fdContexts io ! i) \<noteq> 0"
    "ctl (io_kernel io) CTL_DEL i 0 = Some k" by blast
  let ?c = "m_fdContexts io ! i"
  have m: "fc_events ?c = 0 \<or> fc_events ?c = 1 \<or> fc_events ?c = 4 \<or> fc_events ?c = 5"
    by (rule ctx_okD [OF io_invD [OF inv i(2)]])
  have io': "io_inv io'" "io_kernel io' = k" "m_fdContexts io' = (m_fdContexts io)[i := strip ?c (fc_events ?c)]"
    using cancelAll_ok [where ctl = ctl, OF inv i(2-4)] r i(1) by auto
  have "fc_events (strip ?c (fc_events ?c)) = 0" using strip_events [OF m m] by simp
  then have "in_sync view p io'"
    using in_sync_put [OF s l i(2), of CTL_DEL 0 k 0 io' "strip ?c (fc_events ?c)"] i(4) io' by simp
  then show ?thesis using io' by simp
qed (use inv s in simp)

section \<open>Growing the table\<close>

lemma length_contextResize [simp]: "length (contextResize cs n) = n"
  by (simp add: contextResize_def)

lemma nth_contextResize: "length cs \<le> n \<Longrightarrow> i < n \<Longrightarrow>
    contextResize cs n ! i = (if i < length cs then cs ! i else new_context i)"
  by (simp add: contextResize_def nth_append)

lemma grow_bound: "32 \<le> l \<Longrightarrow> int l \<le> fd \<Longrightarrow> l \<le> nat (3 * fd div 2) \<and> nat fd < nat (3 * fd div 2)"
  by linarith

text \<open>A growth that does not cut the table keeps all of it.\<close>

lemma grow_inv:
  assumes inv: "io_inv io" and len: "length (m_fdContexts io) \<le> nat (3 * fd div 2)" and fd: "32 \<le> fd"
    and r: "addEvent_grow io fd = Inr (io1, i)"
  shows "io_inv io1 \<and> in_sync view p io1 = in_sync view p io \<and> fd = int i \<and> i < length (m_fdContexts io1) \<and>
    length (m_fdContexts io) \<le> length (m_fdContexts io1)"
proof -
  let ?n = "nat (3 * fd div 2)"
  have io1: "m_fdContexts io1 = contextResize (m_fdContexts io) ?n" "io_kernel io1 = io_kernel io"
    "m_pendingEventCount io1 = m_pendingEventCount io" "fd_lookup io1 fd = Inr i"
    using r by (auto simp: addEvent_grow_def Let_def map_sum_def split: sum.splits)
  note n = nth_contextResize [OF len]
  have "sum_list (map ev_count (contextResize (m_fdContexts io) ?n)) = sum_list (map ev_count (m_fdContexts io))"
    using len by (simp add: contextResize_def comp_def)
  moreover have "ctx_ok j (contextResize (m_fdContexts io) ?n ! j)" if "j < ?n" for j
    using n [OF that] inv by (simp add: io_inv_def)
  ultimately have "io_inv io1" using inv fd by (simp add: io_inv_def io1)
  moreover have "watched io1 j = watched io j" for j
    using len n [of j] by (auto simp: watched_def io1 split: if_splits)
  moreover have "length (m_fdContexts io) \<le> length (m_fdContexts io1)" using len by (simp add: io1(1))
  ultimately show ?thesis using fd_lookupD [OF io1(4)] io1(2) by (simp add: in_sync_def)
qed

section \<open>Adding an event\<close>

definition with_event :: "'cb fd_context \<Rightarrow> u32 \<Rightarrow> 'cb callback option \<Rightarrow> nat \<Rightarrow> 'cb fd_context" where
  "with_event c event cb cur = setContext (c\<lparr>fc_events := fc_events c OR event\<rparr>) event
     (if cb \<noteq> None then \<lparr>ec_scheduler = True, ec_fiber = None, ec_cb = cb\<rparr>
      else \<lparr>ec_scheduler = True, ec_fiber = Some cur, ec_cb = None\<rparr>)"

lemma with_event_ok:
  assumes "ctx_ok i c" and "event = READ \<or> event = WRITE" and "fc_events c AND event = 0"
  shows "ctx_ok i (with_event c event cb cur)" "ev_count (with_event c event cb cur) = Suc (ev_count c)"
    "fc_events (with_event c event cb cur) = fc_events c OR event"
  using assms(2,3) ctx_okD [OF assms(1)] assms(1)
  by (auto simp: ctx_ok_def ec_ok_def setContext_def with_event_def ev_count_def no_context_def)

lemma addEvent_on_ok:
  assumes inv: "io_inv io" and i: "i < length (m_fdContexts io)" and ev: "event = READ \<or> event = WRITE"
    and cb: "cb \<noteq> None \<or> cur_exec"
  shows "addEvent_on ctl io i event cb True cur cur_exec =
    (let c = m_fdContexts io ! i in
     if fc_events c AND event \<noteq> 0 then Inl IoAssert
     else case ctl (io_kernel io) (if fc_events c \<noteq> 0 then CTL_MOD else CTL_ADD) i (EPOLLET OR fc_events c OR event) of
       None \<Rightarrow> Inr (io, -1)
     | Some k \<Rightarrow> Inr ((put_context io i (with_event c event cb cur))
         \<lparr>io_kernel := k, m_pendingEventCount := m_pendingEventCount io + 1\<rparr>, 0))"
proof -
  let ?c = "m_fdContexts io ! i"
  have c: "ctx_ok i ?c" by (rule io_invD [OF inv i])
  have e: "fc_events ?c = 0 \<or> fc_events ?c = 1 \<or> fc_events ?c = 4 \<or> fc_events ?c = 5" by (rule ctx_okD [OF c])
  have free: "getContext (?c\<lparr>fc_events := v\<rparr>) event = Inr no_context" if "fc_events ?c AND event = 0" for v
    using that c ev by (auto simp: getContext_def ctx_ok_def ec_ok_def)
  show ?thesis
    using cb free by (auto simp: addEvent_on_def Let_def with_event_def no_context_def split: option.splits)
qed

text \<open>Without a callback the running fiber must be \<open>EXEC\<close>; otherwise an assert fails.\<close>

lemma addEvent_on_inv:
  assumes inv: "io_inv io" and i: "i < length (m_fdContexts io)" and ev: "event = READ \<or> event = WRITE"
    and r: "addEvent_on ctl io i event cb True cur cur_exec = Inr (io', n)"
    and l: "epoll_laws ctl view" and s: "in_sync view p io"
  shows "io_inv io' \<and> in_sync view p io' \<and> length (m_fdContexts io') = length (m_fdContexts io)"
proof (cases "cb \<noteq> None \<or> cur_exec")
  case cb: True
  let ?c = "m_fdContexts io ! i"
  let ?op = "if fc_events ?c \<noteq> 0 then CTL_MOD else CTL_ADD"
  have ad: "fc_events ?c AND event = 0" and cases: "ctl (io_kernel io) ?op i (EPOLLET OR fc_events ?c OR event) = None \<and> io' = io \<or>
     (\<exists>k. ctl (io_kernel io) ?op i (EPOLLET OR fc_events ?c OR event) = Some k \<and>
       io' = (put_context io i (with_event ?c event cb cur))\<lparr>io_kernel := k, m_pendingEventCount := m_pendingEventCount io + 1\<rparr>)"
    using r unfolding addEvent_on_ok [OF inv i ev cb, of ctl cur] Let_def by (auto simp del: if_split split: if_split_asm option.split_asm)
  from cases show ?thesis
  proof
    assume "\<exists>k. ctl (io_kernel io) ?op i (EPOLLET OR fc_events ?c OR event) = Some k \<and>
       io' = (put_context io i (with_event ?c event cb cur))\<lparr>io_kernel := k, m_pendingEventCount := m_pendingEventCount io + 1\<rparr>"
    then obtain k where k: "ctl (io_kernel io) ?op i (EPOLLET OR (fc_events ?c OR event)) = Some k"
      and io': "io' = (put_context io i (with_event ?c event cb cur))\<lparr>io_kernel := k, m_pendingEventCount := m_pendingEventCount io + 1\<rparr>"
      by (auto simp: or.assoc)
    note w = with_event_ok [OF io_invD [OF inv i] ev ad, of cb cur]
    have "io_inv io'" by (rule io_inv_put [OF inv i w(1)]) (simp_all add: io' w(2))
    moreover have "fc_events ?c OR event \<noteq> 0" using ctx_okD [OF io_invD [OF inv i]] ev by auto
    then have "in_sync view p io'"
      using in_sync_put [of view p io ctl i ?op "fc_events ?c OR event" k 0 io' "with_event ?c event cb cur"]
        s k w(3) l i by (auto simp: io')
    ultimately show ?thesis by (simp add: io')
  qed (use inv s in simp)
next
  case False
  then have "io' = io" using r by (auto simp: addEvent_on_def Let_def split: if_splits option.splits sum.splits)
  then show ?thesis using inv s by simp
qed

end
