(* ===== verification/IOManager_Spec.thy ===== *)
theory IOManager_Spec
  imports IOManager_Inv
begin

text \<open>
  What the I/O manager promises: over any interleaving of the operations and of the steps of \<open>addEvent\<close> in
  which no growth cuts the table, the event table, the pending count and the kernel agree; a growth that does
  cut it loses events; a reported event wakes exactly its waiters; a cancelled waiter is woken once; and the
  timeout of \<open>epoll_wait\<close> is bounded as long as the next timer is near.
\<close>

section \<open>Runs\<close>

text \<open>
  A call of \<open>addEvent\<close> with its arguments, and the calls that are between two of their steps: per thread the
  call with the context it has found, or with none when it has seen that the table must grow.
\<close>

record 'cb add_call =
  a_fd :: int
  a_event :: u32
  a_cb :: "'cb callback option"
  a_sched :: bool
  a_cur :: nat
  a_exec :: bool

type_synonym ('cb, 'k) io_world = "('cb, 'k) iomanager \<times> (nat \<Rightarrow> ('cb add_call \<times> nat option) option)"

datatype 'cb io_op = AddLook nat "'cb add_call" | AddGrow nat | AddOn nat | DelEvent int u32 | CancelEvent int u32
  | CancelAll int | Ready nat u32 | Task "'cb callback task"

text \<open>
  A step that its thread cannot make changes nothing; \<open>epoll_wait\<close> reports only contexts of the table. A
  thread whose context has been cut off the table goes on with an object that nothing else reaches: the run
  ends there with \<open>IoCut\<close>.
\<close>

fun io_step :: "'k epoll_ctl \<Rightarrow> ('cb, 'k) io_world \<Rightarrow> 'cb io_op \<Rightarrow> io_error + ('cb, 'k) io_world" where
  "io_step ctl (io, cs) (AddLook t a) =
     (if cs t \<noteq> None then Inr (io, cs) else map_sum id (\<lambda>found. (io, cs(t \<mapsto> (a, found)))) (addEvent_look io (a_fd a)))"
| "io_step ctl (io, cs) (AddGrow t) =
     (case cs t of
        Some (a, None) \<Rightarrow> map_sum id (\<lambda>(io1, i). (io1, cs(t \<mapsto> (a, Some i)))) (addEvent_grow io (a_fd a))
      | _ \<Rightarrow> Inr (io, cs))"
| "io_step ctl (io, cs) (AddOn t) =
     (case cs t of
        Some (a, Some i) \<Rightarrow>
          if length (m_fdContexts io) \<le> i then Inl IoCut
          else map_sum id (\<lambda>(io1, rt). (io1, cs(t := None)))
            (addEvent_on ctl io i (a_event a) (a_cb a) (a_sched a) (a_cur a) (a_exec a))
      | _ \<Rightarrow> Inr (io, cs))"
| "io_step ctl (io, cs) (DelEvent fd event) = map_sum id (\<lambda>(io1, b). (io1, cs)) (delEvent ctl io fd event)"
| "io_step ctl (io, cs) (CancelEvent fd event) = map_sum id (\<lambda>(io1, b). (io1, cs)) (cancelEvent ctl io fd event)"
| "io_step ctl (io, cs) (CancelAll fd) = map_sum id (\<lambda>(io1, b). (io1, cs)) (cancelAll ctl io fd)"
| "io_step ctl (io, cs) (Ready i flags) =
     (if i < length (m_fdContexts io) then map_sum id (\<lambda>io1. (io1, cs)) (handle_ready ctl io (FdReady i flags))
      else Inr (io, cs))"
| "io_step ctl (io, cs) (Task ft) = Inr (io_schedule io ft, cs)"

fun io_run :: "'k epoll_ctl \<Rightarrow> ('cb, 'k) io_world \<Rightarrow> 'cb io_op list \<Rightarrow> io_error + ('cb, 'k) io_world" where
  "io_run ctl w [] = Inr w"
| "io_run ctl w (op # ops) = (case io_step ctl w op of Inl e \<Rightarrow> Inl e | Inr w1 \<Rightarrow> io_run ctl w1 ops)"

text \<open>The growth of a thread that has looked at the table before another one has made it larger than it will.\<close>

fun cuts :: "('cb, 'k) io_world \<Rightarrow> 'cb io_op \<Rightarrow> bool" where
  "cuts (io, cs) (AddGrow t) \<longleftrightarrow>
     (case cs t of Some (a, None) \<Rightarrow> nat (3 * a_fd a div 2) < length (m_fdContexts io) | _ \<Rightarrow> False)"
| "cuts w _ \<longleftrightarrow> False"

fun never_cuts :: "'k epoll_ctl \<Rightarrow> ('cb, 'k) io_world \<Rightarrow> 'cb io_op list \<Rightarrow> bool" where
  "never_cuts ctl w [] \<longleftrightarrow> True"
| "never_cuts ctl w (op # ops) \<longleftrightarrow>
     \<not> cuts w op \<and> (case io_step ctl w op of Inl e \<Rightarrow> True | Inr w1 \<Rightarrow> never_cuts ctl w1 ops)"

text \<open>Operations are called with one of the two events, and events are added by threads that have a scheduler.\<close>

fun op_ok :: "'cb io_op \<Rightarrow> bool" where
  "op_ok (AddLook t a) \<longleftrightarrow> a_sched a \<and> (a_event a = READ \<or> a_event a = WRITE)"
| "op_ok (DelEvent fd event) \<longleftrightarrow> event = READ \<or> event = WRITE"
| "op_ok (CancelEvent fd event) \<longleftrightarrow> event = READ \<or> event = WRITE"
| "op_ok _ = True"

text \<open>What is known of a call between two of its steps.\<close>

definition call_ok :: "('cb, 'k) iomanager \<Rightarrow> 'cb add_call \<times> nat option \<Rightarrow> bool" where
  "call_ok io c \<longleftrightarrow> (case c of (a, found) \<Rightarrow> a_sched a \<and> (a_event a = READ \<or> a_event a = WRITE) \<and>
     (case found of None \<Rightarrow> 32 \<le> a_fd a | Some i \<Rightarrow> i < length (m_fdContexts io)))"

definition calls_ok :: "('cb, 'k) io_world \<Rightarrow> bool" where
  "calls_ok w \<longleftrightarrow> (\<forall>t c. snd w t = Some c \<longrightarrow> call_ok (fst w) c)"

lemma call_ok_longer: "call_ok io c \<Longrightarrow> length (m_fdContexts io) \<le> length (m_fdContexts io1) \<Longrightarrow> call_ok io1 c"
  by (auto simp: call_ok_def split: option.splits)

lemma calls_ok_longer: "calls_ok (io, cs) \<Longrightarrow> length (m_fdContexts io) \<le> length (m_fdContexts io1) \<Longrightarrow> calls_ok (io1, cs)"
  unfolding calls_ok_def using call_ok_longer by fastforce

lemma calls_ok_update: "calls_ok (io, cs) \<Longrightarrow> (\<forall>c. x = Some c \<longrightarrow> call_ok io c) \<Longrightarrow> calls_ok (io, cs(t := x))"
  unfolding calls_ok_def by simp

lemma map_sum_Inr: "map_sum id f x = Inr y \<longleftrightarrow> (\<exists>z. x = Inr z \<and> y = f z)"
  by (cases x) auto

lemma addEvent_look_ok:
  assumes "addEvent_look io fd = Inr found" and "32 \<le> length (m_fdContexts io)"
  shows "case found of None \<Rightarrow> 32 \<le> fd | Some i \<Rightarrow> i < length (m_fdContexts io)"
  using assms by (auto simp: addEvent_look_def map_sum_Inr dest!: fd_lookupD split: if_splits option.splits)

lemma fire_length: "fire io i event = Inr io1 \<Longrightarrow> length (m_fdContexts io1) = length (m_fdContexts io)"
  by (auto simp: fire_def Let_def split: sum.splits)

lemma fire_both_length: "fire_both r w i io = Inr io1 \<Longrightarrow> length (m_fdContexts io1) = length (m_fdContexts io)"
  by (auto simp: fire_both_def fire_if_def dest!: fire_length split: sum.splits if_splits)

lemma op_lengths:
  "delEvent ctl io fd event = Inr (io1, b) \<Longrightarrow> length (m_fdContexts io1) = length (m_fdContexts io)"
  "cancelEvent ctl io fd event = Inr (io1, b) \<Longrightarrow> length (m_fdContexts io1) = length (m_fdContexts io)"
  "cancelAll ctl io fd = Inr (io1, b) \<Longrightarrow> length (m_fdContexts io1) = length (m_fdContexts io)"
  "handle_ready ctl io (FdReady i flags) = Inr io1 \<Longrightarrow> length (m_fdContexts io1) = length (m_fdContexts io)"
proof -
  show "delEvent ctl io fd event = Inr (io1, b) \<Longrightarrow> length (m_fdContexts io1) = length (m_fdContexts io)"
    by (auto simp: delEvent_def Let_def split: sum.splits option.splits if_splits)
  show "cancelEvent ctl io fd event = Inr (io1, b) \<Longrightarrow> length (m_fdContexts io1) = length (m_fdContexts io)"
    by (auto simp: cancelEvent_def Let_def dest!: fire_length split: sum.splits option.splits if_splits)
  show "cancelAll ctl io fd = Inr (io1, b) \<Longrightarrow> length (m_fdContexts io1) = length (m_fdContexts io)"
    by (auto simp: cancelAll_def Let_def dest!: fire_both_length split: sum.splits option.splits if_splits)
  show "handle_ready ctl io (FdReady i flags) = Inr io1 \<Longrightarrow> length (m_fdContexts io1) = length (m_fdContexts io)"
    by (auto simp: handle_ready_def Let_def dest!: fire_both_length split: sum.splits option.splits if_splits)
qed

text \<open>The steps keep the invariant, a cutting growth apart.\<close>

lemma io_step_inv:
  assumes inv: "io_inv io" and ok: "op_ok op" and st: "io_step ctl (io, cs) op = Inr (io', cs')"
    and l: "epoll_laws ctl view" and s: "in_sync view p io" and c: "calls_ok (io, cs)" and u: "\<not> cuts (io, cs) op"
  shows "io_inv io' \<and> in_sync view p io' \<and> calls_ok (io', cs')"
proof (cases op)
  case (AddLook t a)
  then show ?thesis
    using st ok inv s c addEvent_look_ok [of io "a_fd a"]
    by (auto simp: map_sum_Inr io_inv_def call_ok_def intro!: calls_ok_update split: if_splits)
next
  case (AddGrow t)
  show ?thesis
  proof (cases "\<exists>a. cs t = Some (a, None)")
    case True
    then obtain a i where a: "cs t = Some (a, None)" "addEvent_grow io (a_fd a) = Inr (io', i)" "cs' = cs(t \<mapsto> (a, Some i))"
      using st AddGrow by (auto simp: map_sum_Inr)
    have k: "call_ok io (a, None)" using c a(1) by (simp add: calls_ok_def)
    then have "32 \<le> a_fd a" "length (m_fdContexts io) \<le> nat (3 * a_fd a div 2)"
      using u a(1) AddGrow by (simp_all add: call_ok_def)
    note g = grow_inv [OF inv this(2,1) a(2), of view p]
    have "call_ok io' (a, Some i)" using k g by (simp add: call_ok_def)
    then show ?thesis using g s c a(3) calls_ok_longer [of io cs io'] by (auto intro: calls_ok_update)
  next
    case False
    then have "io' = io \<and> cs' = cs" using st AddGrow by (auto split: option.splits)
    then show ?thesis using inv s c by simp
  qed
next
  case (AddOn t)
  show ?thesis
  proof (cases "\<exists>a i. cs t = Some (a, Some i)")
    case True
    then obtain a i rt where a: "cs t = Some (a, Some i)" "i < length (m_fdContexts io)" "cs' = cs(t := None)"
        "addEvent_on ctl io i (a_event a) (a_cb a) (a_sched a) (a_cur a) (a_exec a) = Inr (io', rt)"
      using st AddOn by (auto simp: map_sum_Inr split: if_splits)
    have "call_ok io (a, Some i)" using c a(1) by (simp add: calls_ok_def)
    then have e: "a_sched a = True" "a_event a = READ \<or> a_event a = WRITE" by (simp_all add: call_ok_def)
    note n = addEvent_on_inv [OF inv a(2) e(2) a(4) [unfolded e(1)] l s]
    then show ?thesis using calls_ok_longer [OF c, of io'] a(3) by (auto intro: calls_ok_update)
  next
    case False
    then have "io' = io \<and> cs' = cs" using st AddOn by (auto split: option.splits)
    then show ?thesis using inv s c by simp
  qed
next
  case (DelEvent fd event)
  then obtain b where b: "delEvent ctl io fd event = Inr (io', b)" "cs' = cs" using st by (auto simp: map_sum_Inr)
  then show ?thesis using delEvent_inv [OF inv _ b(1) l s] op_lengths(1) [OF b(1)] calls_ok_longer [OF c, of io'] DelEvent ok by simp
next
  case (CancelEvent fd event)
  then obtain b where b: "cancelEvent ctl io fd event = Inr (io', b)" "cs' = cs" using st by (auto simp: map_sum_Inr)
  then show ?thesis using cancelEvent_inv [OF inv _ b(1) l s] op_lengths(2) [OF b(1)] calls_ok_longer [OF c, of io'] CancelEvent ok by simp
next
  case (CancelAll fd)
  then obtain b where b: "cancelAll ctl io fd = Inr (io', b)" "cs' = cs" using st by (auto simp: map_sum_Inr)
  then show ?thesis using cancelAll_inv [OF inv b(1) l s] op_lengths(3) [OF b(1)] calls_ok_longer [OF c, of io'] by simp
next
  case (Ready i flags)
  show ?thesis
  proof (cases "i < length (m_fdContexts io)")
    case True
    then have b: "handle_ready ctl io (FdReady i flags) = Inr io'" "cs' = cs" using st Ready by (auto simp: map_sum_Inr)
    then show ?thesis using handle_ready_inv [OF inv True b(1) l s] op_lengths(4) [OF b(1)] calls_ok_longer [OF c, of io'] by simp
  qed (use inv s c st Ready in auto)
next
  case (Task ft)
  then have "io' = io_schedule io ft" "cs' = cs" using st by simp_all
  then show ?thesis using inv s calls_ok_longer [OF c, of io'] by (simp add: io_inv_def in_sync_def watched_def)
qed

lemma io_run_inv:
  "io_run ctl (io, cs) ops = Inr (io', cs') \<Longrightarrow> list_all op_ok ops \<Longrightarrow> never_cuts ctl (io, cs) ops \<Longrightarrow> epoll_laws ctl view \<Longrightarrow>
    io_inv io \<Longrightarrow> in_sync view p io \<Longrightarrow> calls_ok (io, cs) \<Longrightarrow> io_inv io' \<and> in_sync view p io'"
proof (induction ops arbitrary: io cs)
  case (Cons op ops)
  then obtain io1 cs1 where s: "io_step ctl (io, cs) op = Inr (io1, cs1)" "io_run ctl (io1, cs1) ops = Inr (io', cs')"
    by (auto split: sum.splits)
  have "io_inv io1 \<and> in_sync view p io1 \<and> calls_ok (io1, cs1)"
    using io_step_inv [OF Cons.prems(5) _ s(1) Cons.prems(4,6,7)] Cons.prems(2,3) by simp
  then show ?case using Cons.IH [OF s(2)] Cons.prems(2,3,4) s(1) by simp
qed simp

text \<open>A call whose steps no other thread separates is \<open>addEvent\<close>, and it does not cut the table.\<close>

lemma addEvent_steps:
  assumes "cs t = None"
  shows "io_run ctl (io, cs) [AddLook t a, AddGrow t, AddOn t] = map_sum id (\<lambda>(io1, rt). (io1, cs))
    (addEvent ctl io (a_fd a) (a_event a) (a_cb a) (a_sched a) (a_cur a) (a_exec a))"
proof -
  have i: "i < length (m_fdContexts io)" if "addEvent_look io fd = Inr (Some i)" for fd i
    using that by (auto simp: addEvent_look_def map_sum_Inr dest!: fd_lookupD split: if_splits)
  have j: "j < length (m_fdContexts io1)" if "addEvent_grow io fd = Inr (io1, j)" for fd j io1
    using that by (auto simp: addEvent_grow_def Let_def map_sum_Inr dest!: fd_lookupD)
  have u: "cs(t := None) = cs" using assms by auto
  show ?thesis
    using assms u by (auto simp: addEvent_def map_sum_def not_le dest!: i j split: sum.splits option.splits)
qed

lemma addEvent_steps_never_cut:
  assumes "io_inv io" and "cs t = None"
  shows "never_cuts ctl (io, cs) [AddLook t a, AddGrow t, AddOn t]"
proof -
  have "\<not> nat (3 * a_fd a div 2) < length (m_fdContexts io)" if "addEvent_look io (a_fd a) = Inr None"
    using that grow_bound [of "length (m_fdContexts io)" "a_fd a"] assms(1)
    by (auto simp: addEvent_look_def io_inv_def map_sum_def split: if_splits sum.splits)
  then show ?thesis using assms(2) by (auto simp: map_sum_def split: sum.splits option.splits)
qed

lemma IOManager_new_inv:
  assumes "IOManager_new threads use_caller me root has_sched now k ids = Inr io"
    and "\<And>i. i \<noteq> p \<Longrightarrow> view k i = None"
  shows "io_inv io \<and> in_sync view p io"
proof -
  have io: "m_fdContexts io = contextResize [] 32" "m_pendingEventCount io = 0" "io_kernel io = k"
    using assms(1) by (auto simp: IOManager_new_def split: sum.splits)
  have n: "contextResize [] 32 ! i = (new_context i :: 'a fd_context)" if "i < 32" for i
    using nth_contextResize [of "[] :: 'a fd_context list" 32 i] that by simp
  have s: "sum_list (map ev_count (contextResize [] 32 :: 'a fd_context list)) = 0"
    by (simp add: contextResize_def comp_def)
  have "io_inv io" unfolding io_inv_def io s by (simp add: n)
  moreover have "in_sync view p io" using assms(2) by (auto simp: in_sync_def watched_def io n)
  ultimately show ?thesis by simp
qed

text \<open>A kernel that follows the documentation and never fails.\<close>

definition plain_ctl :: "(nat \<Rightarrow> u32 option) epoll_ctl" where
  "plain_ctl k op i ev = Some (k(i := (if op = CTL_DEL then None else Some ev)))"

lemma plain_ctl_laws: "epoll_laws plain_ctl (\<lambda>k. k)"
  by (simp add: epoll_laws_def plain_ctl_def)

definition example_io :: "(unit, nat \<Rightarrow> u32 option) iomanager" where
  "example_io = (case IOManager_new 2 False 0 0 False 0 (\<lambda>_. None) [1, 2] of Inr io \<Rightarrow> io)"

lemma example_io_new:
  "IOManager_new 2 False 0 0 False 0 (\<lambda>_. None) [1, 2] = Inr example_io"
  by (simp add: example_io_def IOManager_new_def Scheduler_new_def start_def)

section \<open>Properties\<close>

definition add_call :: "int \<Rightarrow> u32 \<Rightarrow> 'cb callback option \<Rightarrow> nat \<Rightarrow> 'cb add_call" where
  "add_call fd event cb cur = \<lparr>a_fd = fd, a_event = event, a_cb = cb, a_sched = True, a_cur = cur, a_exec = True\<rparr>"

lemmas run_simps = example_io_def IOManager_new_def Scheduler_new_def start_def addEvent_look_def addEvent_grow_def
  addEvent_on_def fd_lookup_def plain_ctl_def getContext_def setContext_def put_context_def no_context_def
  nth_contextResize new_context_def cancelEvent_def fire_def triggerEvent_def add_call_def

text \<open>
  C11: Threads add, delete and cancel events, handle reported ones and schedule tasks; the three critical
  sections of \<open>addEvent\<close> are separate steps, so any number of calls can be between two of them. Under three
  conditions - \<open>epoll_ctl\<close> does what it documents, events are added by threads that have a scheduler, and no thread
  grows the table by less than another one has meanwhile - the state is sound after any run on a new
  manager: an event bit of a context is set exactly when its event context holds the scheduler and one waiter, and
  otherwise the event context is empty; the pending count is the number of set bits; and, the pipe apart, the
  kernel watches exactly the registered events of each descriptor.
\<close>

theorem event_table_sound:
  assumes "epoll_laws ctl view" and "IOManager_new threads use_caller me root has_sched now k ids = Inr io0"
    and "\<And>i. i \<noteq> p \<Longrightarrow> view k i = None"
    and "io_run ctl (io0, \<lambda>_. None) ops = Inr (io, cs)" and "list_all op_ok ops"
    and "never_cuts ctl (io0, \<lambda>_. None) ops"
  shows "(\<forall>i < length (m_fdContexts io). let c = m_fdContexts io ! i in
      ec_ok (fc_events c AND READ \<noteq> 0) (fc_read c) \<and> ec_ok (fc_events c AND WRITE \<noteq> 0) (fc_write c) \<and>
      fc_events c AND NOT (READ OR WRITE) = 0) \<and>
    m_pendingEventCount io = of_nat (sum_list (map ev_count (m_fdContexts io))) \<and>
    (\<forall>i. i \<noteq> p \<longrightarrow> view (io_kernel io) i = watched io i)"
proof -
  have r: "io_inv io \<and> in_sync view p io"
    using io_run_inv [OF assms(4-6,1), where p = p] IOManager_new_inv [where view = view and p = p, OF assms(2,3)]
    by (simp add: calls_ok_def)
  have "fc_events c AND NOT (READ OR WRITE) = 0" if "ctx_ok i c" for i and c :: "'a fd_context"
    using ctx_okD [OF that] by auto
  then show ?thesis using r by (fastforce simp: io_inv_def in_sync_def ctx_ok_def Let_def)
qed

text \<open>Two threads add events on descriptor 40 at the same time, both growing the table; one event is cancelled.\<close>

abbreviation "example_ops \<equiv> [AddLook 1 (add_call 40 READ None 7), AddLook 2 (add_call 40 WRITE (Some (Direct ())) 8),
  AddGrow 2, AddOn 2, AddGrow 1, AddOn 1, CancelEvent 40 READ]"

theorem event_table_sound_witness:
  "\<exists>io cs. io_run plain_ctl (example_io, \<lambda>_. None) example_ops = Inr (io, cs) \<and>
     (\<forall>i. i \<noteq> 99 \<longrightarrow> io_kernel io i = watched io i)"
proof -
  have ex: "\<exists>io cs. io_run plain_ctl (example_io, \<lambda>_. None) example_ops = Inr (io, cs)"
    "never_cuts plain_ctl (example_io, \<lambda>_. None) example_ops"
    by (simp_all add: run_simps Let_def)
  have ok: "list_all op_ok example_ops" by (simp add: add_call_def)
  show ?thesis
    using event_table_sound [OF plain_ctl_laws example_io_new, of 99 example_ops] ex ok by fastforce
qed

text \<open>An event that a thread without a scheduler adds brings the process down when it is reported.\<close>

lemma no_scheduler_crashes:
  assumes "io_inv io" and "i < length (m_fdContexts io)" and "event = READ \<or> event = WRITE"
    and "fc_events (m_fdContexts io ! i) AND event = 0"
    and "ctl (io_kernel io) (if fc_events (m_fdContexts io ! i) \<noteq> 0 then CTL_MOD else CTL_ADD) i
      (EPOLLET OR fc_events (m_fdContexts io ! i) OR event) = Some k"
  shows "\<exists>io'. addEvent_on ctl io i event cb False cur True = Inr (io', 0) \<and> fire io' i event = Inl IoNull"
proof -
  have "ctx_of (m_fdContexts io ! i) event = no_context"
    using io_invD [OF assms(1,2)] assms(3,4) by (auto simp: ctx_ok_def ec_ok_def ctx_of_def)
  moreover have "(fc_events (m_fdContexts io ! i) OR event) AND event \<noteq> 0" using assms(3) by (auto simp: word_ao_dist)
  ultimately show ?thesis
    using assms(2-5) by (auto simp: addEvent_on_def Let_def getContext_def setContext_def ctx_of_def no_context_def
        fire_def triggerEvent_def)
qed




text \<open>
  C36: When the reported events of a context include a registered one and the kernel accepts the change,
  the waiters of exactly the reported events are put into the queue, reads before writes, and the other
  registered events stay. But when a reported event is not registered while another one is, an assert
  fails: an error or hang-up counts as both events, so it brings the process down when the descriptor
  waits for one of them only.
\<close>

theorem ready_wakes_waiters:
  assumes "io_inv io" and "i < length (m_fdContexts io)"
    and "fc_events (m_fdContexts io ! i) AND real_events flags \<noteq> 0"
    and "ctl (io_kernel io)
      (if fc_events (m_fdContexts io ! i) AND NOT (real_events flags) \<noteq> 0 then CTL_MOD else CTL_DEL) i
      (EPOLLET OR fc_events (m_fdContexts io ! i) AND NOT (real_events flags)) = Some k"
  shows "if real_events flags AND NOT (fc_events (m_fdContexts io ! i)) \<noteq> 0
    then handle_ready ctl io (FdReady i flags) = Inl IoAssert
    else \<exists>io'. handle_ready ctl io (FdReady i flags) = Inr io' \<and> io_inv io' \<and>
      m_fibers (io_sched io') = m_fibers (io_sched io) @ waiting (m_fdContexts io ! i) (real_events flags) \<and>
      fc_events (m_fdContexts io' ! i) = fc_events (m_fdContexts io ! i) AND NOT (real_events flags) \<and>
      (\<forall>j. j \<noteq> i \<longrightarrow> m_fdContexts io' ! j = m_fdContexts io ! j)"
  using handle_ready_ok [where ctl = ctl and k = k, OF assms] assms(2)
    strip_events [OF real_events_values ctx_okD [OF io_invD [OF assms(1,2)]], of flags]
  by (auto split: if_splits)

definition reading_io :: "(unit, nat \<Rightarrow> u32 option) iomanager" where
  "reading_io = (case addEvent plain_ctl example_io 3 READ None True 7 True of Inr (io, _) \<Rightarrow> io)"

lemma reading_io_run: "addEvent plain_ctl example_io 3 READ None True 7 True = Inr (reading_io, 0)"
  "fc_events (m_fdContexts reading_io ! 3) = READ" "length (m_fdContexts reading_io) = 32"
  by (simp_all add: reading_io_def run_simps addEvent_def)

lemma reading_io_inv: "io_inv reading_io"
proof -
  note new = IOManager_new_inv [OF example_io_new, of 99 "\<lambda>k. k"]
  have "addEvent_look example_io 3 = Inr (Some 3)" by (simp add: run_simps)
  then have "addEvent_on plain_ctl example_io 3 READ None True 7 True = Inr (reading_io, 0)"
    using reading_io_run(1) by (simp add: addEvent_def)
  then show ?thesis
    using addEvent_on_inv [of example_io 3 READ plain_ctl None 7 True reading_io 0 "\<lambda>k. k" 99] new plain_ctl_laws
    by (auto simp: io_inv_def)
qed

theorem ready_wakes_waiters_witness:
  "handle_ready plain_ctl reading_io (FdReady 3 (EPOLLIN OR EPOLLHUP)) = Inl IoAssert \<and>
   (\<exists>io. handle_ready plain_ctl reading_io (FdReady 3 EPOLLIN) = Inr io \<and>
      m_fibers (io_sched io) = m_fibers (io_sched reading_io) @ waiting (m_fdContexts reading_io ! 3) READ)"
proof -
  have r: "real_events (EPOLLIN OR EPOLLHUP) = 5" "real_events EPOLLIN = 1" by (simp_all add: real_events_def)
  show ?thesis
    using ready_wakes_waiters [OF reading_io_inv, of 3 "EPOLLIN OR EPOLLHUP" plain_ctl]
      ready_wakes_waiters [OF reading_io_inv, of 3 EPOLLIN plain_ctl] reading_io_run(2,3) r
    by (auto simp: plain_ctl_def)
qed

text \<open>
  A successful \<open>CancelEvent\<close> puts the waiter of the event, and nothing else, at the end of the
  queue and clears its event context, so cancelling the event again changes nothing and answers no: a
  waiter is woken once.
\<close>

theorem cancelled_waiter_woken_once:
  assumes "io_inv io" and "event = READ \<or> event = WRITE" and "cancelEvent ctl io fd event = Inr (io', True)"
  shows "m_fibers (io_sched io') = m_fibers (io_sched io) @ [task_of (ctx_of (m_fdContexts io ! nat fd) event)] \<and>
    ctx_of (m_fdContexts io' ! nat fd) event = no_context \<and>
    m_pendingEventCount io' = m_pendingEventCount io - 1 \<and>
    cancelEvent ctl io' fd event = Inr (io', False)"
proof -
  obtain i k where i: "fd = int i" "i < length (m_fdContexts io)" and set: "fc_events (m_fdContexts io ! i) AND event \<noteq> 0"
    and io': "io' = fired_io (io\<lparr>io_kernel := k\<rparr>) i event"
    using cancelEvent_ok [OF assms] by auto
  have q: "m_fibers (io_sched io') = m_fibers (io_sched io) @ [task_of (ctx_of (m_fdContexts io ! i) event)]"
    using fired_queue [of "io\<lparr>io_kernel := k\<rparr>" i event] assms(1,2) i set io' by simp
  have c: "m_fdContexts io' ! i = without (m_fdContexts io ! i) event" using i io' by simp
  then have z: "fc_events (m_fdContexts io' ! i) AND event = 0"
    using assms(2) ctx_okD [OF io_invD [OF assms(1) i(2)]] by auto
  have "cancelEvent ctl io' fd event = Inr (io', False)"
    using z i io' by (simp add: cancelEvent_def fd_lookup_def)
  moreover have "ctx_of (m_fdContexts io' ! i) event = no_context"
    using c assms(2) by (auto simp: ctx_of_def without_def setContext_def)
  ultimately show ?thesis using q i(1) io' by simp
qed

theorem cancelled_waiter_woken_once_example:
  "\<exists>io. cancelEvent plain_ctl reading_io 3 READ = Inr (io, True) \<and>
     cancelEvent plain_ctl io 3 READ = Inr (io, False)"
proof -
  have "\<exists>io. cancelEvent plain_ctl reading_io 3 READ = Inr (io, True)"
    using fire_ok [of "reading_io\<lparr>io_kernel := k\<rparr>" 3 READ for k] reading_io_inv reading_io_run(2,3)
    by (simp add: cancelEvent_def fd_lookup_def plain_ctl_def Let_def)
  then show ?thesis using cancelled_waiter_woken_once [OF reading_io_inv] by blast
qed

text \<open>
  With no timer, or with the next timer less than \<open>2 ^ 31\<close> milliseconds away, \<open>Epoll_wait\<close> gets
  the time to the timer, three seconds at most. With a timer further away the conversion to \<open>int\<close> can
  make the timeout negative, which means to wait without a limit.
\<close>

theorem epoll_timeout_bounds:
  "epoll_timeout (- 1) = 3000 \<and>
   (\<forall>t. unat t < 2 ^ 31 \<longrightarrow> epoll_timeout t = min (int (unat t)) 3000) \<and>
   epoll_timeout (2 ^ 31) = - (2 ^ 31)"
proof (intro conjI allI impI)
  show "epoll_timeout (- 1) = 3000" "epoll_timeout (2 ^ 31) = - (2 ^ 31)"
    by (simp_all add: epoll_timeout_def to_int_def)
  show "epoll_timeout t = min (int (unat t)) 3000" if t: "unat t < 2 ^ 31" for t
  proof -
    have i: "to_int t = int (unat t)"
    proof -
      have "sint (ucast t :: u32) = signed_take_bit 31 (uint t)"
        by (simp add: sint_uint unsigned_ucast_eq signed_take_bit_take_bit)
      also have "\<dots> = uint t"
      proof (rule signed_take_bit_int_eq_self)
        have "- (2 ^ 31) \<le> (0 :: int)" "0 \<le> uint t" by simp_all
        then show "- (2 ^ 31) \<le> uint t" by (rule order_trans)
        have "unat t < 2147483648" using t by simp
        then have "int (unat t) < 2147483648" by linarith
        then show "uint t < 2 ^ 31" by simp
      qed
      finally show ?thesis by (simp add: to_int_def)
    qed
    have "t \<noteq> - 1" using t by (auto simp: unsigned_minus_1_eq_mask mask_eq_exp_minus_1)
    then show ?thesis using i by (simp add: epoll_timeout_def to_int_def)
  qed
qed

theorem epoll_timeout_bounds_example: "epoll_timeout 1200 = 1200"
  using epoll_timeout_bounds by simp

end
