(* ===== verification/Ragel.thy ===== *)
theory Ragel
  imports Prelude
begin

text \<open>
  The shape of the state machines that Ragel generates for this repository: \<open>case N:\<close> blocks that test
  the character and jump to \<open>trM\<close> (actions, then a state) or to \<open>stM\<close> (a state). A block is the list of
  the ranges of characters with their labels; a character in no range goes to the error state \<open>st0\<close>.
  Characters are \<open>char\<close> values, so they are signed. A machine is kept as a list of chunks, each with the
  blocks and the transitions of a stretch of the generated file.
\<close>

section \<open>Tables\<close>

datatype label = Tr int | St int

text \<open>A block: its number, whether it tests \<open>_widec\<close> instead of the character, and its ranges.\<close>

type_synonym block = "int \<times> bool \<times> (int \<times> int \<times> label) list"

text \<open>A chunk: the first and last number of its blocks, the blocks, the transitions \<open>tr\<close>.\<close>

type_synonym 'a chunk = "int \<times> int \<times> block list \<times> (int \<times> 'a list \<times> int) list"

fun find_range :: "(int \<times> int \<times> label) list \<Rightarrow> int \<Rightarrow> label option" where
  "find_range [] c = None"
| "find_range ((lo, hi, l) # rs) c = (if lo \<le> c \<and> c \<le> hi then Some l else find_range rs c)"

fun find_block :: "block list \<Rightarrow> int \<Rightarrow> (bool \<times> (int \<times> int \<times> label) list) option" where
  "find_block [] n = None"
| "find_block ((m, w, rs) # bs) n = (if m = n then Some (w, rs) else find_block bs n)"

fun find_state :: "'a chunk list \<Rightarrow> int \<Rightarrow> (bool \<times> (int \<times> int \<times> label) list) option" where
  "find_state [] n = None"
| "find_state ((lo, hi, bs, trs) # cks) n =
     (if lo \<le> n \<and> n \<le> hi then find_block bs n else find_state cks n)"

fun find_in :: "(int \<times> 'a list \<times> int) list \<Rightarrow> int \<Rightarrow> ('a list \<times> int) option" where
  "find_in [] n = None"
| "find_in ((m, as, t) # ts) n = (if m = n then Some (as, t) else find_in ts n)"

fun find_tr :: "'a chunk list \<Rightarrow> int \<Rightarrow> ('a list \<times> int) option" where
  "find_tr [] n = None"
| "find_tr ((lo, hi, bs, trs) # cks) n =
     (case find_in trs n of Some r \<Rightarrow> Some r | None \<Rightarrow> find_tr cks n)"

definition target :: "'a chunk list \<Rightarrow> label \<Rightarrow> ('a list \<times> int) option" where
  "target cks l = (case l of St n \<Rightarrow> Some ([], n) | Tr n \<Rightarrow> find_tr cks n)"

text \<open>The \<open>_widec\<close> of a character: 94, 123 and 125 are moved up, further with \<open>uri_relaxed\<close>.\<close>

definition widec :: "bool \<Rightarrow> int \<Rightarrow> int" where
  "widec relaxed c = (if c = 94 \<or> c = 123 \<or> c = 125 then 128 + (c - (-128)) + (if relaxed then 256 else 0) else c)"

datatype 'a move = NoState | Reject | Move "'a list" int

definition move :: "'a chunk list \<Rightarrow> bool \<Rightarrow> int \<Rightarrow> int \<Rightarrow> 'a move" where
  "move cks relaxed n c =
     (case find_state cks n of None \<Rightarrow> NoState
      | Some (w, rs) \<Rightarrow>
        (case find_range rs (if w then widec relaxed c else c) of None \<Rightarrow> Reject
         | Some l \<Rightarrow> (case target cks l of None \<Rightarrow> Reject | Some (as, t) \<Rightarrow> Move as t)))"

section \<open>Checking a table\<close>

text \<open>
  A check over all labels of all blocks, and what it gives for every move: this is how a fact about
  all inputs is reduced to an evaluation of the table. \<open>ts\<close> are all transitions in one list.
\<close>

definition all_trs :: "'a chunk list \<Rightarrow> (int \<times> 'a list \<times> int) list" where
  "all_trs cks = concat (map (\<lambda>(lo, hi, bs, trs). trs) cks)"

lemma find_in_append: "find_in (xs @ ys) n = (case find_in xs n of Some r \<Rightarrow> Some r | None \<Rightarrow> find_in ys n)"
  by (induction xs n rule: find_in.induct) auto

lemma find_tr_all: "find_tr cks n = find_in (all_trs cks) n"
  by (induction cks n rule: find_tr.induct) (auto simp: all_trs_def find_in_append split: option.splits)

fun label_ok :: "(int \<Rightarrow> int \<Rightarrow> int \<Rightarrow> 'a list \<Rightarrow> int \<Rightarrow> bool) \<Rightarrow> (int \<times> 'a list \<times> int) list \<Rightarrow> int \<Rightarrow>
    int \<times> int \<times> label \<Rightarrow> bool" where
  "label_ok P ts n (lo, hi, St t) = P n lo hi [] t"
| "label_ok P ts n (lo, hi, Tr m) = (case find_in ts m of None \<Rightarrow> True | Some (as, t) \<Rightarrow> P n lo hi as t)"

fun block_ok :: "(int \<Rightarrow> int \<Rightarrow> int \<Rightarrow> 'a list \<Rightarrow> int \<Rightarrow> bool) \<Rightarrow> (int \<times> 'a list \<times> int) list \<Rightarrow> block \<Rightarrow> bool" where
  "block_ok P ts (n, w, rs) = list_all (label_ok P ts n) rs"

fun chunk_ok :: "(int \<Rightarrow> int \<Rightarrow> int \<Rightarrow> 'a list \<Rightarrow> int \<Rightarrow> bool) \<Rightarrow> (int \<times> 'a list \<times> int) list \<Rightarrow> 'a chunk \<Rightarrow> bool" where
  "chunk_ok P ts (lo, hi, bs, trs) = list_all (block_ok P ts) bs"

lemma find_range_mem: "find_range rs c = Some l \<Longrightarrow> \<exists>lo hi. (lo, hi, l) \<in> set rs \<and> lo \<le> c \<and> c \<le> hi"
  by (induction rs c rule: find_range.induct) (auto split: if_splits)

lemma find_block_mem: "find_block bs n = Some (w, rs) \<Longrightarrow> (n, w, rs) \<in> set bs"
  by (induction bs n rule: find_block.induct) (auto split: if_splits)

lemma find_state_mem: "find_state cks n = Some (w, rs) \<Longrightarrow> \<exists>lo hi bs trs. (lo, hi, bs, trs) \<in> set cks \<and> (n, w, rs) \<in> set bs"
  by (induction cks n rule: find_state.induct) (auto split: if_splits dest: find_block_mem)

lemma table_okD:
  assumes "list_all (chunk_ok P ts) cks" and "all_trs cks = ts" and "move cks relaxed n c = Move as t"
  shows "\<exists>lo hi w. P n lo hi as t \<and> lo \<le> (if w then widec relaxed c else c) \<and> (if w then widec relaxed c else c) \<le> hi"
proof -
  obtain w rs where s: "find_state cks n = Some (w, rs)"
    using assms(3) by (auto simp: move_def split: option.splits)
  then obtain l where l: "find_range rs (if w then widec relaxed c else c) = Some l" "target cks l = Some (as, t)"
    using assms(3) by (auto simp: move_def split: option.splits)
  obtain lo hi where r: "(lo, hi, l) \<in> set rs" "lo \<le> (if w then widec relaxed c else c)" "(if w then widec relaxed c else c) \<le> hi"
    using find_range_mem [OF l(1)] by blast
  obtain clo chi bs trs where b: "(clo, chi, bs, trs) \<in> set cks" "(n, w, rs) \<in> set bs"
    using find_state_mem [OF s] by blast
  have "block_ok P ts (n, w, rs)" using assms(1) b by (fastforce simp: list_all_iff)
  then have "label_ok P ts n (lo, hi, l)" using r(1) by (auto simp: list_all_iff)
  then have "P n lo hi as t" using l(2) by (cases l) (auto simp: target_def find_tr_all assms(2))
  then show ?thesis using r by blast
qed

section \<open>Classes of characters\<close>

text \<open>A class of characters as a list of ranges, and the label that a block has for a whole range.\<close>

definition in_ranges :: "(int \<times> int) list \<Rightarrow> int \<Rightarrow> bool" where
  "in_ranges R c \<longleftrightarrow> list_ex (\<lambda>(lo, hi). lo \<le> c \<and> c \<le> hi) R"

fun range_label :: "(int \<times> int \<times> label) list \<Rightarrow> int \<Rightarrow> int \<Rightarrow> label option" where
  "range_label [] lo hi = None"
| "range_label ((a, b, l) # rs) lo hi =
     (if a \<le> lo \<and> hi \<le> b then Some l else if b < lo \<or> hi < a then range_label rs lo hi else None)"

lemma range_label_find: "range_label rs lo hi = Some l \<Longrightarrow> lo \<le> c \<Longrightarrow> c \<le> hi \<Longrightarrow> find_range rs c = Some l"
  by (induction rs lo hi rule: range_label.induct) (auto split: if_splits)

definition class_to :: "'a chunk list \<Rightarrow> (int \<times> int \<times> label) list \<Rightarrow> (int \<times> int) list \<Rightarrow> 'a list \<times> int \<Rightarrow> bool" where
  "class_to cks rs R r \<longleftrightarrow>
     list_all (\<lambda>(lo, hi). case range_label rs lo hi of None \<Rightarrow> False | Some l \<Rightarrow> target cks l = Some r) R"

lemma class_move:
  assumes "find_state cks n = Some (w, rs)" and "class_to cks rs R (as, t)" and "in_ranges R c"
    and "w \<longrightarrow> c \<noteq> 94 \<and> c \<noteq> 123 \<and> c \<noteq> 125"
  shows "move cks relaxed n c = Move as t"
proof -
  obtain lo hi l where "(lo, hi) \<in> set R" "lo \<le> c" "c \<le> hi" "range_label rs lo hi = Some l" "target cks l = Some (as, t)"
    using assms(2,3) by (fastforce simp: in_ranges_def class_to_def list_ex_iff list_all_iff split: option.splits)
  then show ?thesis using assms(1,4) range_label_find by (simp add: move_def widec_def)
qed

section \<open>Running a machine\<close>

text \<open>
  What the loops around the tables have in common, whatever their actions do to the state \<open>'s\<close>. \<open>acts\<close>
  gives an error or the state, events and, if an action leaves the loop, the control state it sets.
\<close>

locale machine_loop =
  fixes table :: "'a chunk list" and relaxed :: "'s \<Rightarrow> bool" and first_eof :: int
    and acts :: "nat \<Rightarrow> 'a list \<Rightarrow> 's \<Rightarrow> 'x + 's \<times> 'e list \<times> int option"
    and loop :: "'s \<Rightarrow> int \<Rightarrow> nat \<Rightarrow> int list \<Rightarrow> 'x + 's \<times> 'e list \<times> int \<times> nat"
  assumes loop_Nil: "loop s cs p [] = Inr (s, [], cs, p)"
    and loop_Cons: "loop s cs p (c # rest) =
      (case move table (relaxed s) cs c of NoState \<Rightarrow> Inr (s, [], first_eof, p) | Reject \<Rightarrow> Inr (s, [], 0, p)
       | Move as t \<Rightarrow> (case acts p as s of Inl e \<Rightarrow> Inl e
         | Inr (s1, evs, Some n) \<Rightarrow> Inr (s1, evs, n, Suc p)
         | Inr (s1, evs, None) \<Rightarrow> (case loop s1 t (Suc p) rest of Inl e \<Rightarrow> Inl e
           | Inr (s2, evs2, cs2, p2) \<Rightarrow> Inr (s2, evs @ evs2, cs2, p2))))"
    and acts_Nil: "acts p [] s = Inr (s, [], None)"
begin

lemma loop_move:
  "move table (relaxed s) cs c = Move as t \<Longrightarrow> acts p as s = Inr (s1, evs, None) \<Longrightarrow>
    loop s1 t (Suc p) rest = Inr (s2, evs2, cs2, p2) \<Longrightarrow>
    loop s cs p (c # rest) = Inr (s2, evs @ evs2, cs2, p2)"
  by (simp add: loop_Cons)

lemma loop_leave:
  "move table (relaxed s) cs c = Move as t \<Longrightarrow> acts p as s = Inr (s1, evs, Some n) \<Longrightarrow>
    loop s cs p (c # rest) = Inr (s1, evs, n, Suc p)"
  by (simp add: loop_Cons)

text \<open>Characters on which a state stays, without actions, are skipped.\<close>

lemma loop_stay:
  "\<forall>c\<in>set xs. move table (relaxed s) n c = Move [] n \<Longrightarrow> loop s n p (xs @ ys) = loop s n (p + length xs) ys"
proof (induction xs arbitrary: p)
  case (Cons c xs)
  then show ?case
    by (simp add: loop_Cons acts_Nil) (simp split: sum.split)
qed simp

text \<open>An invariant of state and position that every move keeps, over the rest of a buffer.\<close>

lemma loop_inv:
  assumes inv: "I cs p s" and rest: "drop p buf = xs" and p: "p \<le> length buf"
    and step: "\<And>n p s as t. I n p s \<Longrightarrow> p < length buf \<Longrightarrow> move table (relaxed s) n (buf ! p) = Move as t \<Longrightarrow>
      (case acts p as s of Inl e \<Rightarrow> X e | Inr (s1, evs, None) \<Rightarrow> list_all E evs \<and> I t (Suc p) s1
       | Inr (s1, evs, Some k) \<Rightarrow> list_all E evs \<and> F k (Suc p) s1)"
    and stop: "\<And>n p s m. I n p s \<Longrightarrow> m = n \<and> p = length buf \<or> m = 0 \<or> m = first_eof \<Longrightarrow> F m p s"
  shows "case loop s cs p xs of Inl e \<Rightarrow> X e
    | Inr (s', evs, m, p') \<Rightarrow> list_all E evs \<and> F m p' s' \<and> p \<le> p' \<and> p' \<le> length buf"
  using inv rest p
proof (induction xs arbitrary: s cs p)
  case Nil
  then show ?case using stop [OF Nil(1)] by (simp add: loop_Nil)
next
  case (Cons c xs)
  have lt: "p < length buf" using Cons.prems(2) by (metis drop_all list.discI not_less)
  have c: "buf ! p = c" "drop (Suc p) buf = xs" using Cons.prems(2) lt by (simp_all add: Cons_nth_drop_Suc [symmetric])
  show ?case
  proof (cases "move table (relaxed s) cs c")
    case (Move as t)
    have st: "case acts p as s of Inl e \<Rightarrow> X e | Inr (s1, evs, None) \<Rightarrow> list_all E evs \<and> I t (Suc p) s1
       | Inr (s1, evs, Some k) \<Rightarrow> list_all E evs \<and> F k (Suc p) s1"
      using step [OF Cons.prems(1) lt] Move c(1) by simp
    show ?thesis
    proof (cases "acts p as s")
      case (Inl e)
      then show ?thesis using st Move by (simp add: loop_Cons)
    next
      case (Inr r)
      obtain s1 evs k where r: "r = (s1, evs, k)" by (cases r)
      show ?thesis
      proof (cases k)
        case None
        then have "I t (Suc p) s1" and e: "list_all E evs" using st Inr r by auto
        from Cons.IH [OF this(1) c(2)] lt
        show ?thesis using Move Inr r None e by (auto simp: loop_Cons split: sum.splits)
      next
        case (Some m)
        then show ?thesis using st Inr r Move lt by (simp add: loop_Cons)
      qed
    qed
  qed (use stop [OF Cons.prems(1)] lt in \<open>simp_all add: loop_Cons\<close>)
qed

end

end
