(* ===== verification/Http11_Table.thy ===== *)
theory Http11_Table
  imports Ragel
begin

text \<open>
  The state machine of \<^verbatim>\<open>src/src/http-parser/http11_parser.cc\<close>, block by block, in the order of the
  file. The actions are named as in \<^verbatim>\<open>src/include/http-parser/http11_parser.rl\<close>; \<open>Done n\<close> ends with
  \<open>{p++; cs = n; goto _out;}\<close>.
\<close>

datatype h11_action = Mark | StartField | WriteField | StartValue | WriteValue | RequestMethod | RequestUri
  | Fragment | StartQuery | QueryString | HttpVersion | RequestPath | XmlSent | JsonSent | Done int

definition h11_1 :: "h11_action chunk" where
  "h11_1 = (1, 3,
    [(1, False, [(48, 57, Tr 0), (60, 60, Tr 2), (64, 64, Tr 3), (65, 90, Tr 0)]),
     (2, False, [(32, 32, Tr 4), (48, 57, St 175), (65, 90, St 175)]),
     (3, True, [(32, 32, Tr 6), (33, 33, Tr 7), (35, 35, Tr 8), (36, 36, Tr 7), (37, 37, Tr 9),
       (38, 46, Tr 7), (47, 47, Tr 10), (48, 57, Tr 7), (59, 59, Tr 7), (61, 61, Tr 7), (63, 63, Tr 11),
       (64, 64, Tr 7), (65, 90, Tr 12), (95, 95, Tr 7), (97, 122, Tr 12), (126, 126, Tr 7), (606, 606, Tr 7),
       (635, 635, Tr 7), (637, 637, Tr 7)])],
    [(0, [Mark], 2),
     (4, [RequestMethod], 3)])"

definition h11_2 :: "h11_action chunk" where
  "h11_2 = (4, 12,
    [(4, False, [(72, 72, Tr 13)]),
     (5, False, [(84, 84, St 6)]),
     (6, False, [(84, 84, St 7)]),
     (7, False, [(80, 80, St 8)]),
     (8, False, [(47, 47, St 9)]),
     (9, False, [(49, 49, St 10)]),
     (10, False, [(46, 46, St 11)]),
     (11, False, [(48, 49, St 12)]),
     (12, False, [(10, 10, Tr 21), (13, 13, Tr 22)])],
    [(6, [Mark, RequestPath, RequestUri], 4),
     (37, [RequestPath, RequestUri], 4),
     (44, [Mark, Fragment], 4),
     (47, [Fragment], 4),
     (54, [StartQuery, QueryString, RequestUri], 4),
     (58, [QueryString, RequestUri], 4),
     (13, [Mark], 5)])"

definition h11_3 :: "h11_action chunk" where
  "h11_3 = (13, 16,
    [(13, False, [(1, 8, Tr 23), (10, 10, Tr 24), (11, 12, Tr 23), (13, 13, Tr 25), (14, 31, Tr 23),
       (33, 33, Tr 23), (35, 39, Tr 23), (42, 43, Tr 23), (45, 46, Tr 23), (48, 57, Tr 23), (65, 90, Tr 23),
       (94, 122, Tr 23), (124, 124, Tr 23), (126, 126, Tr 23)]),
     (14, False, [(1, 8, St 14), (10, 31, St 14), (33, 33, St 14), (35, 39, St 14), (42, 43, St 14),
       (45, 46, St 14), (48, 57, St 14), (58, 58, Tr 27), (65, 90, St 14), (94, 122, St 14), (124, 124, St 14),
       (126, 126, St 14)]),
     (15, False, [((-128), (-1), Tr 28), (1, 8, Tr 28), (9, 9, Tr 29), (10, 10, Tr 30), (11, 12, Tr 28),
       (13, 13, Tr 31), (14, 31, Tr 28), (32, 32, Tr 29), (33, 126, Tr 28)]),
     (16, False, [((-128), (-1), St 16), (1, 9, St 16), (10, 10, Tr 33), (11, 12, St 16), (13, 13, Tr 34),
       (14, 126, St 16)])],
    [(21, [HttpVersion], 13),
     (30, [StartValue, WriteValue], 13),
     (33, [WriteValue], 13),
     (23, [StartField], 14),
     (27, [WriteField], 15),
     (29, [StartValue], 15),
     (28, [StartValue], 16)])"

definition h11_4 :: "h11_action chunk" where
  "h11_4 = (17, 17,
    [(17, False, [(10, 10, St 13)])],
    [(22, [HttpVersion], 17),
     (31, [StartValue, WriteValue], 17),
     (34, [WriteValue], 17)])"

definition h11_5 :: "h11_action chunk" where
  "h11_5 = (348, 348,
    [(348, False, [(1, 8, St 14), (10, 31, St 14), (33, 33, St 14), (35, 39, St 14), (42, 43, St 14),
       (45, 46, St 14), (48, 57, St 14), (58, 58, Tr 27), (65, 90, St 14), (94, 122, St 14), (124, 124, St 14),
       (126, 126, St 14)])],
    [(24, [StartField, Done 348], 348),
     (36, [Done 348], 348)])"

definition h11_6 :: "h11_action chunk" where
  "h11_6 = (18, 19,
    [(18, False, [(1, 8, St 14), (10, 10, Tr 36), (11, 31, St 14), (33, 33, St 14), (35, 39, St 14),
       (42, 43, St 14), (45, 46, St 14), (48, 57, St 14), (58, 58, Tr 27), (65, 90, St 14), (94, 122, St 14),
       (124, 124, St 14), (126, 126, St 14)]),
     (19, True, [(32, 32, Tr 37), (33, 33, St 19), (35, 35, Tr 39), (36, 36, St 19), (37, 37, St 24),
       (38, 46, St 19), (47, 47, St 26), (48, 57, St 19), (59, 59, St 19), (61, 61, St 19), (63, 63, Tr 42),
       (64, 90, St 19), (95, 95, St 19), (97, 122, St 19), (126, 126, St 19), (606, 606, St 19),
       (635, 635, St 19), (637, 637, St 19)])],
    [(25, [StartField], 18),
     (7, [Mark], 19)])"

definition h11_7 :: "h11_action chunk" where
  "h11_7 = (20, 20,
    [(20, True, [((-128), (-1), Tr 43), (32, 32, Tr 44), (33, 33, Tr 43), (36, 36, Tr 43), (37, 37, Tr 45),
       (38, 59, Tr 43), (61, 61, Tr 43), (63, 90, Tr 43), (95, 95, Tr 43), (97, 122, Tr 43), (126, 126, Tr 43),
       (606, 606, Tr 43), (635, 635, Tr 43), (637, 637, Tr 43)])],
    [(8, [Mark, RequestPath, RequestUri], 20),
     (39, [RequestPath, RequestUri], 20),
     (55, [StartQuery, QueryString, RequestUri], 20),
     (59, [QueryString, RequestUri], 20)])"

definition h11_8 :: "h11_action chunk" where
  "h11_8 = (21, 25,
    [(21, True, [((-128), (-1), St 21), (32, 32, Tr 47), (33, 33, St 21), (36, 36, St 21), (37, 37, St 22),
       (38, 59, St 21), (61, 61, St 21), (63, 90, St 21), (95, 95, St 21), (97, 122, St 21), (126, 126, St 21),
       (606, 606, St 21), (635, 635, St 21), (637, 637, St 21)]),
     (22, False, [(48, 57, St 23), (65, 70, St 23), (97, 102, St 23)]),
     (23, False, [(48, 57, St 21), (65, 70, St 21), (97, 102, St 21)]),
     (24, False, [(48, 57, St 25), (65, 70, St 25), (97, 102, St 25)]),
     (25, False, [(48, 57, St 19), (65, 70, St 19), (97, 102, St 19)])],
    [(43, [Mark], 21),
     (45, [Mark], 22),
     (9, [Mark], 24)])"

definition h11_9 :: "h11_action chunk" where
  "h11_9 = (26, 28,
    [(26, True, [((-128), (-1), St 26), (32, 32, Tr 37), (33, 33, St 26), (35, 35, Tr 39), (36, 36, St 26),
       (37, 37, St 27), (38, 59, St 26), (61, 61, St 26), (63, 63, Tr 42), (64, 90, St 26), (95, 95, St 26),
       (97, 122, St 26), (126, 126, St 26), (606, 606, St 26), (635, 635, St 26), (637, 637, St 26)]),
     (27, False, [(48, 57, St 28), (65, 70, St 28), (97, 102, St 28)]),
     (28, False, [(48, 57, St 26), (65, 70, St 26), (97, 102, St 26)])],
    [(203, [Mark], 26),
     (204, [Mark], 27)])"

definition h11_10 :: "h11_action chunk" where
  "h11_10 = (29, 31,
    [(29, True, [((-128), (-1), Tr 53), (32, 32, Tr 54), (33, 33, Tr 53), (35, 35, Tr 55), (36, 36, Tr 53),
       (37, 37, Tr 56), (38, 59, Tr 53), (61, 61, Tr 53), (63, 90, Tr 53), (95, 95, Tr 53), (97, 122, Tr 53),
       (126, 126, Tr 53), (606, 606, Tr 53), (635, 635, Tr 53), (637, 637, Tr 53)]),
     (30, True, [((-128), (-1), St 30), (32, 32, Tr 58), (33, 33, St 30), (35, 35, Tr 59), (36, 36, St 30),
       (37, 37, St 31), (38, 59, St 30), (61, 61, St 30), (63, 90, St 30), (95, 95, St 30), (97, 122, St 30),
       (126, 126, St 30), (606, 606, St 30), (635, 635, St 30), (637, 637, St 30)]),
     (31, False, [(48, 57, St 32), (65, 70, St 32), (97, 102, St 32)])],
    [(11, [Mark, RequestPath], 29),
     (42, [RequestPath], 29),
     (53, [StartQuery], 30),
     (56, [StartQuery], 31)])"

definition h11_11 :: "h11_action chunk" where
  "h11_11 = (32, 34,
    [(32, False, [(48, 57, St 30), (65, 70, St 30), (97, 102, St 30)]),
     (33, True, [((-128), (-1), St 26), (32, 32, Tr 37), (33, 33, St 26), (35, 35, Tr 39), (36, 36, St 26),
       (37, 37, St 27), (38, 46, St 26), (47, 47, St 34), (48, 59, St 26), (61, 61, St 26), (63, 63, Tr 42),
       (64, 90, St 26), (95, 95, St 26), (97, 122, St 26), (126, 126, St 26), (606, 606, St 26),
       (635, 635, St 26), (637, 637, St 26)]),
     (34, True, [(32, 32, Tr 37), (33, 33, St 35), (35, 35, Tr 39), (36, 36, St 35), (37, 37, St 36),
       (38, 46, St 35), (47, 47, St 26), (48, 57, St 35), (58, 58, St 38), (59, 59, St 35), (61, 61, St 35),
       (63, 63, Tr 42), (64, 64, St 42), (65, 90, St 35), (91, 91, St 47), (95, 95, St 35), (97, 122, St 35),
       (126, 126, St 35), (606, 606, St 35), (635, 635, St 35), (637, 637, St 35)])],
    [(10, [Mark], 33)])"

definition h11_12 :: "h11_action chunk" where
  "h11_12 = (35, 38,
    [(35, True, [(32, 32, Tr 37), (33, 33, St 35), (35, 35, Tr 39), (36, 36, St 35), (37, 37, St 36),
       (38, 46, St 35), (47, 47, St 26), (48, 57, St 35), (58, 58, St 38), (59, 59, St 35), (61, 61, St 35),
       (63, 63, Tr 42), (64, 64, St 42), (65, 90, St 35), (95, 95, St 35), (97, 122, St 35), (126, 126, St 35),
       (606, 606, St 35), (635, 635, St 35), (637, 637, St 35)]),
     (36, False, [(48, 57, St 37), (65, 70, St 37), (97, 102, St 37)]),
     (37, False, [(48, 57, St 35), (65, 70, St 35), (97, 102, St 35)]),
     (38, True, [(32, 32, Tr 37), (33, 33, St 39), (35, 35, Tr 39), (36, 36, St 39), (37, 37, St 40),
       (38, 46, St 39), (47, 47, St 26), (48, 57, St 38), (58, 59, St 39), (61, 61, St 39), (63, 63, Tr 42),
       (64, 64, St 42), (65, 90, St 39), (95, 95, St 39), (97, 122, St 39), (126, 126, St 39),
       (606, 606, St 39), (635, 635, St 39), (637, 637, St 39)])],
    [])"

definition h11_13 :: "h11_action chunk" where
  "h11_13 = (39, 42,
    [(39, True, [(33, 33, St 39), (36, 36, St 39), (37, 37, St 40), (38, 46, St 39), (48, 59, St 39),
       (61, 61, St 39), (64, 64, St 42), (65, 90, St 39), (95, 95, St 39), (97, 122, St 39), (126, 126, St 39),
       (606, 606, St 39), (635, 635, St 39), (637, 637, St 39)]),
     (40, False, [(48, 57, St 41), (65, 70, St 41), (97, 102, St 41)]),
     (41, False, [(48, 57, St 39), (65, 70, St 39), (97, 102, St 39)]),
     (42, True, [(32, 32, Tr 37), (33, 33, St 43), (35, 35, Tr 39), (36, 36, St 43), (37, 37, St 44),
       (38, 46, St 43), (47, 47, St 26), (48, 57, St 43), (58, 58, St 46), (59, 59, St 43), (61, 61, St 43),
       (63, 63, Tr 42), (65, 90, St 43), (91, 91, St 47), (95, 95, St 43), (97, 122, St 43), (126, 126, St 43),
       (606, 606, St 43), (635, 635, St 43), (637, 637, St 43)])],
    [])"

definition h11_14 :: "h11_action chunk" where
  "h11_14 = (43, 50,
    [(43, True, [(32, 32, Tr 37), (33, 33, St 43), (35, 35, Tr 39), (36, 36, St 43), (37, 37, St 44),
       (38, 46, St 43), (47, 47, St 26), (48, 57, St 43), (58, 58, St 46), (59, 59, St 43), (61, 61, St 43),
       (63, 63, Tr 42), (65, 90, St 43), (95, 95, St 43), (97, 122, St 43), (126, 126, St 43),
       (606, 606, St 43), (635, 635, St 43), (637, 637, St 43)]),
     (44, False, [(48, 57, St 45), (65, 70, St 45), (97, 102, St 45)]),
     (45, False, [(48, 57, St 43), (65, 70, St 43), (97, 102, St 43)]),
     (46, False, [(32, 32, Tr 37), (35, 35, Tr 39), (47, 47, St 26), (48, 57, St 46), (63, 63, Tr 42)]),
     (47, False, [(6, 6, St 48), (48, 57, St 91), (58, 58, St 167), (65, 70, St 91), (97, 102, St 91),
       (118, 118, St 169)]),
     (48, False, [(48, 57, St 49), (65, 70, St 49), (97, 102, St 49)]),
     (49, False, [(48, 57, St 50), (58, 58, St 53), (65, 70, St 50), (97, 102, St 50)]),
     (50, False, [(48, 57, St 51), (58, 58, St 53), (65, 70, St 51), (97, 102, St 51)])],
    [])"

definition h11_15 :: "h11_action chunk" where
  "h11_15 = (51, 64,
    [(51, False, [(48, 57, St 52), (58, 58, St 53), (65, 70, St 52), (97, 102, St 52)]),
     (52, False, [(58, 58, St 53)]),
     (53, False, [(48, 48, St 54), (49, 49, St 84), (50, 50, St 87), (51, 57, St 54), (65, 70, St 90),
       (97, 102, St 90)]),
     (54, False, [(46, 46, St 55), (48, 57, St 77), (58, 58, St 80), (65, 70, St 77), (97, 102, St 77)]),
     (55, False, [(48, 48, St 56), (49, 49, St 72), (50, 50, St 74), (51, 57, St 56)]),
     (56, False, [(46, 46, St 57)]),
     (57, False, [(48, 48, St 58), (49, 49, St 67), (50, 50, St 69), (51, 57, St 58)]),
     (58, False, [(46, 46, St 59)]),
     (59, False, [(48, 48, St 60), (49, 49, St 62), (50, 50, St 64), (51, 57, St 60)]),
     (60, False, [(93, 93, St 61)]),
     (61, False, [(32, 32, Tr 37), (35, 35, Tr 39), (47, 47, St 26), (58, 58, St 46), (63, 63, Tr 42)]),
     (62, False, [(48, 57, St 63), (93, 93, St 61)]),
     (63, False, [(48, 57, St 60), (93, 93, St 61)]),
     (64, False, [(48, 48, St 65), (53, 53, St 66), (93, 93, St 61)])],
    [])"

definition h11_16 :: "h11_action chunk" where
  "h11_16 = (65, 80,
    [(65, False, [(48, 57, St 60)]),
     (66, False, [(48, 48, St 60)]),
     (67, False, [(46, 46, St 59), (48, 57, St 68)]),
     (68, False, [(46, 46, St 59), (48, 57, St 58)]),
     (69, False, [(46, 46, St 59), (48, 48, St 70), (53, 53, St 71)]),
     (70, False, [(48, 57, St 58)]),
     (71, False, [(48, 48, St 58)]),
     (72, False, [(46, 46, St 57), (48, 57, St 73)]),
     (73, False, [(46, 46, St 57), (48, 57, St 56)]),
     (74, False, [(46, 46, St 57), (48, 48, St 75), (53, 53, St 76)]),
     (75, False, [(48, 57, St 56)]),
     (76, False, [(48, 48, St 56)]),
     (77, False, [(48, 57, St 78), (58, 58, St 80), (65, 70, St 78), (97, 102, St 78)]),
     (78, False, [(48, 57, St 79), (58, 58, St 80), (65, 70, St 79), (97, 102, St 79)]),
     (79, False, [(58, 58, St 80)]),
     (80, False, [(48, 57, St 81), (65, 70, St 81), (97, 102, St 81)])],
    [])"

definition h11_17 :: "h11_action chunk" where
  "h11_17 = (81, 89,
    [(81, False, [(48, 57, St 82), (65, 70, St 82), (93, 93, St 61), (97, 102, St 82)]),
     (82, False, [(48, 57, St 83), (65, 70, St 83), (93, 93, St 61), (97, 102, St 83)]),
     (83, False, [(48, 57, St 60), (65, 70, St 60), (93, 93, St 61), (97, 102, St 60)]),
     (84, False, [(46, 46, St 55), (48, 57, St 85), (58, 58, St 80), (65, 70, St 77), (97, 102, St 77)]),
     (85, False, [(46, 46, St 55), (48, 57, St 86), (58, 58, St 80), (65, 70, St 78), (97, 102, St 78)]),
     (86, False, [(46, 46, St 55), (48, 57, St 79), (58, 58, St 80), (65, 70, St 79), (97, 102, St 79)]),
     (87, False, [(46, 46, St 55), (48, 48, St 88), (49, 52, St 77), (53, 53, St 89), (54, 57, St 77),
       (58, 58, St 80), (65, 70, St 77), (97, 102, St 77)]),
     (88, False, [(48, 57, St 86), (58, 58, St 80), (65, 70, St 78), (97, 102, St 78)]),
     (89, False, [(48, 48, St 86), (49, 57, St 78), (58, 58, St 80), (65, 70, St 78), (97, 102, St 78)])],
    [])"

definition h11_18 :: "h11_action chunk" where
  "h11_18 = (90, 100,
    [(90, False, [(48, 57, St 77), (58, 58, St 80), (65, 70, St 77), (97, 102, St 77)]),
     (91, False, [(48, 57, St 92), (58, 58, St 95), (65, 70, St 92), (97, 102, St 92)]),
     (92, False, [(48, 57, St 93), (58, 58, St 95), (65, 70, St 93), (97, 102, St 93)]),
     (93, False, [(48, 57, St 94), (58, 58, St 95), (65, 70, St 94), (97, 102, St 94)]),
     (94, False, [(58, 58, St 95)]),
     (95, False, [(48, 57, St 96), (58, 58, St 166), (65, 70, St 96), (97, 102, St 96)]),
     (96, False, [(48, 57, St 97), (58, 58, St 100), (65, 70, St 97), (97, 102, St 97)]),
     (97, False, [(48, 57, St 98), (58, 58, St 100), (65, 70, St 98), (97, 102, St 98)]),
     (98, False, [(48, 57, St 99), (58, 58, St 100), (65, 70, St 99), (97, 102, St 99)]),
     (99, False, [(58, 58, St 100)]),
     (100, False, [(48, 57, St 101), (58, 58, St 165), (65, 70, St 101), (97, 102, St 101)])],
    [])"

definition h11_19 :: "h11_action chunk" where
  "h11_19 = (101, 111,
    [(101, False, [(48, 57, St 102), (58, 58, St 105), (65, 70, St 102), (97, 102, St 102)]),
     (102, False, [(48, 57, St 103), (58, 58, St 105), (65, 70, St 103), (97, 102, St 103)]),
     (103, False, [(48, 57, St 104), (58, 58, St 105), (65, 70, St 104), (97, 102, St 104)]),
     (104, False, [(58, 58, St 105)]),
     (105, False, [(48, 57, St 106), (58, 58, St 164), (65, 70, St 106), (97, 102, St 106)]),
     (106, False, [(48, 57, St 107), (58, 58, St 110), (65, 70, St 107), (97, 102, St 107)]),
     (107, False, [(48, 57, St 108), (58, 58, St 110), (65, 70, St 108), (97, 102, St 108)]),
     (108, False, [(48, 57, St 109), (58, 58, St 110), (65, 70, St 109), (97, 102, St 109)]),
     (109, False, [(58, 58, St 110)]),
     (110, False, [(48, 57, St 111), (58, 58, St 163), (65, 70, St 111), (97, 102, St 111)]),
     (111, False, [(48, 57, St 112), (58, 58, St 115), (65, 70, St 112), (97, 102, St 112)])],
    [])"

definition h11_20 :: "h11_action chunk" where
  "h11_20 = (112, 122,
    [(112, False, [(48, 57, St 113), (58, 58, St 115), (65, 70, St 113), (97, 102, St 113)]),
     (113, False, [(48, 57, St 114), (58, 58, St 115), (65, 70, St 114), (97, 102, St 114)]),
     (114, False, [(58, 58, St 115)]),
     (115, False, [(48, 57, St 116), (58, 58, St 151), (65, 70, St 116), (97, 102, St 116)]),
     (116, False, [(48, 57, St 117), (58, 58, St 120), (65, 70, St 117), (97, 102, St 117)]),
     (117, False, [(48, 57, St 118), (58, 58, St 120), (65, 70, St 118), (97, 102, St 118)]),
     (118, False, [(48, 57, St 119), (58, 58, St 120), (65, 70, St 119), (97, 102, St 119)]),
     (119, False, [(58, 58, St 120)]),
     (120, False, [(48, 57, St 121), (58, 58, St 150), (65, 70, St 121), (97, 102, St 121)]),
     (121, False, [(48, 57, St 122), (58, 58, St 125), (65, 70, St 122), (97, 102, St 122)]),
     (122, False, [(48, 57, St 123), (58, 58, St 125), (65, 70, St 123), (97, 102, St 123)])],
    [])"

definition h11_21 :: "h11_action chunk" where
  "h11_21 = (123, 131,
    [(123, False, [(48, 57, St 124), (58, 58, St 125), (65, 70, St 124), (97, 102, St 124)]),
     (124, False, [(58, 58, St 125)]),
     (125, False, [(48, 57, St 121), (58, 58, St 126), (65, 70, St 121), (97, 102, St 121)]),
     (126, False, [(2, 3, St 48), (48, 48, St 127), (49, 49, St 143), (50, 50, St 146), (51, 57, St 127),
       (65, 70, St 149), (93, 93, St 61), (97, 102, St 149)]),
     (127, False, [(46, 46, St 55), (48, 57, St 128), (58, 58, St 131), (65, 70, St 128), (93, 93, St 61),
       (97, 102, St 128)]),
     (128, False, [(48, 57, St 129), (58, 58, St 131), (65, 70, St 129), (93, 93, St 61), (97, 102, St 129)]),
     (129, False, [(48, 57, St 130), (58, 58, St 131), (65, 70, St 130), (93, 93, St 61), (97, 102, St 130)]),
     (130, False, [(58, 58, St 131), (93, 93, St 61)]),
     (131, False, [(48, 48, St 132), (49, 49, St 136), (50, 50, St 139), (51, 57, St 132), (65, 70, St 142),
       (97, 102, St 142)])],
    [])"

definition h11_22 :: "h11_action chunk" where
  "h11_22 = (132, 139,
    [(132, False, [(46, 46, St 55), (48, 57, St 133), (58, 58, St 80), (65, 70, St 133), (93, 93, St 61),
       (97, 102, St 133)]),
     (133, False, [(48, 57, St 134), (58, 58, St 80), (65, 70, St 134), (93, 93, St 61), (97, 102, St 134)]),
     (134, False, [(48, 57, St 135), (58, 58, St 80), (65, 70, St 135), (93, 93, St 61), (97, 102, St 135)]),
     (135, False, [(58, 58, St 80), (93, 93, St 61)]),
     (136, False, [(46, 46, St 55), (48, 57, St 137), (58, 58, St 80), (65, 70, St 133), (93, 93, St 61),
       (97, 102, St 133)]),
     (137, False, [(46, 46, St 55), (48, 57, St 138), (58, 58, St 80), (65, 70, St 134), (93, 93, St 61),
       (97, 102, St 134)]),
     (138, False, [(46, 46, St 55), (48, 57, St 135), (58, 58, St 80), (65, 70, St 135), (93, 93, St 61),
       (97, 102, St 135)]),
     (139, False, [(46, 46, St 55), (48, 48, St 140), (49, 52, St 133), (53, 53, St 141), (54, 57, St 133),
       (58, 58, St 80), (65, 70, St 133), (93, 93, St 61), (97, 102, St 133)])],
    [])"

definition h11_23 :: "h11_action chunk" where
  "h11_23 = (140, 147,
    [(140, False, [(48, 57, St 138), (58, 58, St 80), (65, 70, St 134), (93, 93, St 61), (97, 102, St 134)]),
     (141, False, [(48, 48, St 138), (49, 57, St 134), (58, 58, St 80), (65, 70, St 134), (93, 93, St 61),
       (97, 102, St 134)]),
     (142, False, [(48, 57, St 133), (58, 58, St 80), (65, 70, St 133), (93, 93, St 61), (97, 102, St 133)]),
     (143, False, [(46, 46, St 55), (48, 57, St 144), (58, 58, St 131), (65, 70, St 128), (93, 93, St 61),
       (97, 102, St 128)]),
     (144, False, [(46, 46, St 55), (48, 57, St 145), (58, 58, St 131), (65, 70, St 129), (93, 93, St 61),
       (97, 102, St 129)]),
     (145, False, [(46, 46, St 55), (48, 57, St 130), (58, 58, St 131), (65, 70, St 130), (93, 93, St 61),
       (97, 102, St 130)]),
     (146, False, [(46, 46, St 55), (48, 48, St 147), (49, 52, St 128), (53, 53, St 148), (54, 57, St 128),
       (58, 58, St 131), (65, 70, St 128), (93, 93, St 61), (97, 102, St 128)]),
     (147, False, [(48, 57, St 145), (58, 58, St 131), (65, 70, St 129), (93, 93, St 61), (97, 102, St 129)])],
    [])"

definition h11_24 :: "h11_action chunk" where
  "h11_24 = (148, 156,
    [(148, False, [(48, 48, St 145), (49, 57, St 129), (58, 58, St 131), (65, 70, St 129), (93, 93, St 61),
       (97, 102, St 129)]),
     (149, False, [(48, 57, St 128), (58, 58, St 131), (65, 70, St 128), (93, 93, St 61), (97, 102, St 128)]),
     (150, False, [(2, 3, St 48), (48, 48, St 127), (49, 49, St 143), (50, 50, St 146), (51, 57, St 127),
       (65, 70, St 149), (97, 102, St 149)]),
     (151, False, [(2, 3, St 48), (48, 48, St 152), (49, 49, St 156), (50, 50, St 159), (51, 57, St 152),
       (65, 70, St 162), (97, 102, St 162)]),
     (152, False, [(46, 46, St 55), (48, 57, St 153), (58, 58, St 131), (65, 70, St 153), (97, 102, St 153)]),
     (153, False, [(48, 57, St 154), (58, 58, St 131), (65, 70, St 154), (97, 102, St 154)]),
     (154, False, [(48, 57, St 155), (58, 58, St 131), (65, 70, St 155), (97, 102, St 155)]),
     (155, False, [(58, 58, St 131)]),
     (156, False, [(46, 46, St 55), (48, 57, St 157), (58, 58, St 131), (65, 70, St 153), (97, 102, St 153)])],
    [])"

definition h11_25 :: "h11_action chunk" where
  "h11_25 = (157, 167,
    [(157, False, [(46, 46, St 55), (48, 57, St 158), (58, 58, St 131), (65, 70, St 154), (97, 102, St 154)]),
     (158, False, [(46, 46, St 55), (48, 57, St 155), (58, 58, St 131), (65, 70, St 155), (97, 102, St 155)]),
     (159, False, [(46, 46, St 55), (48, 48, St 160), (49, 52, St 153), (53, 53, St 161), (54, 57, St 153),
       (58, 58, St 131), (65, 70, St 153), (97, 102, St 153)]),
     (160, False, [(48, 57, St 158), (58, 58, St 131), (65, 70, St 154), (97, 102, St 154)]),
     (161, False, [(48, 48, St 158), (49, 57, St 154), (58, 58, St 131), (65, 70, St 154),
       (97, 102, St 154)]),
     (162, False, [(48, 57, St 153), (58, 58, St 131), (65, 70, St 153), (97, 102, St 153)]),
     (163, False, [(2, 3, St 48), (48, 57, St 49), (65, 70, St 49), (97, 102, St 49)]),
     (164, False, [(2, 3, St 48)]),
     (165, False, [(3, 3, St 48)]),
     (166, False, [(4, 4, St 48)]),
     (167, False, [(58, 58, St 168)])],
    [])"

definition h11_26 :: "h11_action chunk" where
  "h11_26 = (168, 172,
    [(168, False, [(2, 5, St 48), (48, 48, St 127), (49, 49, St 143), (50, 50, St 146), (51, 57, St 127),
       (65, 70, St 149), (93, 93, St 61), (97, 102, St 149)]),
     (169, False, [(48, 57, St 170), (65, 70, St 170), (97, 102, St 170)]),
     (170, False, [(46, 46, St 171), (48, 57, St 170), (65, 70, St 170), (97, 102, St 170)]),
     (171, True, [(33, 33, St 172), (36, 36, St 172), (38, 46, St 172), (48, 59, St 172), (61, 61, St 172),
       (65, 90, St 172), (95, 95, St 172), (97, 122, St 172), (126, 126, St 172), (606, 606, St 172),
       (635, 635, St 172), (637, 637, St 172)]),
     (172, True, [(33, 33, St 172), (36, 36, St 172), (38, 46, St 172), (48, 59, St 172), (61, 61, St 172),
       (65, 90, St 172), (93, 93, St 61), (95, 95, St 172), (97, 122, St 172), (126, 126, St 172),
       (606, 606, St 172), (635, 635, St 172), (637, 637, St 172)])],
    [])"

definition h11_27 :: "h11_action chunk" where
  "h11_27 = (173, 177,
    [(173, True, [(32, 32, Tr 37), (33, 33, St 19), (35, 35, Tr 39), (36, 36, St 19), (37, 37, St 24),
       (38, 42, St 19), (43, 43, St 173), (44, 44, St 19), (45, 46, St 173), (47, 47, St 26), (48, 57, St 173),
       (58, 58, St 174), (59, 59, St 19), (61, 61, St 19), (63, 63, Tr 42), (64, 64, St 19), (65, 90, St 173),
       (95, 95, St 19), (97, 122, St 173), (126, 126, St 19), (606, 606, St 19), (635, 635, St 19),
       (637, 637, St 19)]),
     (174, True, [((-128), (-1), Tr 203), (32, 32, Tr 6), (33, 33, Tr 203), (35, 35, Tr 8), (36, 36, Tr 203),
       (37, 37, Tr 204), (38, 46, Tr 203), (47, 47, Tr 10), (48, 59, Tr 203), (61, 61, Tr 203),
       (63, 63, Tr 11), (64, 90, Tr 203), (95, 95, Tr 203), (97, 122, Tr 203), (126, 126, Tr 203),
       (606, 606, Tr 203), (635, 635, Tr 203), (637, 637, Tr 203)]),
     (175, False, [(32, 32, Tr 4), (48, 57, St 176), (65, 90, St 176)]),
     (176, False, [(32, 32, Tr 4), (48, 57, St 177), (65, 90, St 177)]),
     (177, False, [(32, 32, Tr 4), (48, 57, St 178), (65, 90, St 178)])],
    [(12, [Mark], 173)])"

definition h11_28 :: "h11_action chunk" where
  "h11_28 = (178, 189,
    [(178, False, [(32, 32, Tr 4), (48, 57, St 179), (65, 90, St 179)]),
     (179, False, [(32, 32, Tr 4), (48, 57, St 180), (65, 90, St 180)]),
     (180, False, [(32, 32, Tr 4), (48, 57, St 181), (65, 90, St 181)]),
     (181, False, [(32, 32, Tr 4), (48, 57, St 182), (65, 90, St 182)]),
     (182, False, [(32, 32, Tr 4), (48, 57, St 183), (65, 90, St 183)]),
     (183, False, [(32, 32, Tr 4), (48, 57, St 184), (65, 90, St 184)]),
     (184, False, [(32, 32, Tr 4), (48, 57, St 185), (65, 90, St 185)]),
     (185, False, [(32, 32, Tr 4), (48, 57, St 186), (65, 90, St 186)]),
     (186, False, [(32, 32, Tr 4), (48, 57, St 187), (65, 90, St 187)]),
     (187, False, [(32, 32, Tr 4), (48, 57, St 188), (65, 90, St 188)]),
     (188, False, [(32, 32, Tr 4), (48, 57, St 189), (65, 90, St 189)]),
     (189, False, [(32, 32, Tr 4), (48, 57, St 190), (65, 90, St 190)])],
    [])"

definition h11_29 :: "h11_action chunk" where
  "h11_29 = (190, 197,
    [(190, False, [(32, 32, Tr 4), (48, 57, St 191), (65, 90, St 191)]),
     (191, False, [(32, 32, Tr 4), (48, 57, St 192), (65, 90, St 192)]),
     (192, False, [(32, 32, Tr 4), (48, 57, St 193), (65, 90, St 193)]),
     (193, False, [(32, 32, Tr 4)]),
     (194, False, [(45, 46, St 195), (48, 57, St 195), (65, 90, St 195), (97, 122, St 195)]),
     (195, False, [(9, 13, Tr 224), (32, 32, Tr 224), (45, 46, St 195), (47, 47, Tr 224), (48, 57, St 195),
       (62, 62, Tr 224), (65, 90, St 195), (97, 122, St 195)]),
     (196, False, [((-128), 61, St 196), (62, 62, St 197), (63, 127, St 196)]),
     (197, False, [((-128), (-1), St 196), (0, 0, Tr 227), (1, 61, St 196), (62, 62, St 197),
       (63, 127, St 196)])],
    [(2, [Mark], 194),
     (224, [RequestPath], 196)])"

definition h11_30 :: "h11_action chunk" where
  "h11_30 = (349, 349,
    [(349, False, [])],
    [(227, [XmlSent, Done 349], 349),
     (235, [JsonSent, Done 349], 349)])"

definition h11_31 :: "h11_action chunk" where
  "h11_31 = (198, 203,
    [(198, True, [(32, 32, Tr 228), (33, 33, St 202), (36, 36, St 202), (37, 37, St 203), (38, 46, St 202),
       (47, 47, St 208), (48, 57, St 202), (59, 59, St 202), (61, 61, St 202), (64, 90, St 202),
       (95, 95, St 202), (97, 122, St 202), (126, 126, St 202), (606, 606, St 202), (635, 635, St 202),
       (637, 637, St 202)]),
     (199, False, [(123, 123, Tr 232)]),
     (200, False, [((-128), 124, St 200), (125, 125, St 201), (126, 127, St 200)]),
     (201, False, [((-128), (-1), St 200), (0, 0, Tr 235), (1, 124, St 200), (125, 125, St 201),
       (126, 127, St 200)]),
     (202, True, [(32, 32, Tr 228), (33, 33, St 202), (36, 36, St 202), (37, 37, St 203), (38, 46, St 202),
       (47, 47, St 205), (48, 57, St 202), (59, 59, St 202), (61, 61, St 202), (64, 90, St 202),
       (95, 95, St 202), (97, 122, St 202), (126, 126, St 202), (606, 606, St 202), (635, 635, St 202),
       (637, 637, St 202)]),
     (203, False, [(48, 57, St 204), (65, 70, St 204), (97, 102, St 204)])],
    [(3, [Mark], 198),
     (228, [RequestPath], 199),
     (232, [Mark], 200)])"

definition h11_32 :: "h11_action chunk" where
  "h11_32 = (204, 208,
    [(204, False, [(48, 57, St 202), (65, 70, St 202), (97, 102, St 202)]),
     (205, True, [((-128), (-1), St 205), (32, 32, Tr 228), (33, 33, St 205), (36, 36, St 205),
       (37, 37, St 206), (38, 59, St 205), (61, 61, St 205), (64, 90, St 205), (95, 95, St 205),
       (97, 122, St 205), (126, 126, St 205), (606, 606, St 205), (635, 635, St 205), (637, 637, St 205)]),
     (206, False, [(48, 57, St 207), (65, 70, St 207), (97, 102, St 207)]),
     (207, False, [(48, 57, St 205), (65, 70, St 205), (97, 102, St 205)]),
     (208, True, [((-128), (-1), St 205), (32, 32, Tr 228), (33, 33, St 205), (36, 36, St 205),
       (37, 37, St 206), (38, 46, St 205), (47, 47, St 209), (48, 59, St 205), (61, 61, St 205),
       (64, 90, St 205), (95, 95, St 205), (97, 122, St 205), (126, 126, St 205), (606, 606, St 205),
       (635, 635, St 205), (637, 637, St 205)])],
    [])"

definition h11_33 :: "h11_action chunk" where
  "h11_33 = (209, 212,
    [(209, True, [(32, 32, Tr 228), (33, 33, St 210), (36, 36, St 210), (37, 37, St 211), (38, 46, St 210),
       (47, 47, St 205), (48, 57, St 210), (58, 58, St 213), (59, 59, St 210), (61, 61, St 210),
       (64, 64, St 217), (65, 90, St 210), (91, 91, St 222), (95, 95, St 210), (97, 122, St 210),
       (126, 126, St 210), (606, 606, St 210), (635, 635, St 210), (637, 637, St 210)]),
     (210, True, [(32, 32, Tr 228), (33, 33, St 210), (36, 36, St 210), (37, 37, St 211), (38, 46, St 210),
       (47, 47, St 205), (48, 57, St 210), (58, 58, St 213), (59, 59, St 210), (61, 61, St 210),
       (64, 64, St 217), (65, 90, St 210), (95, 95, St 210), (97, 122, St 210), (126, 126, St 210),
       (606, 606, St 210), (635, 635, St 210), (637, 637, St 210)]),
     (211, False, [(48, 57, St 212), (65, 70, St 212), (97, 102, St 212)]),
     (212, False, [(48, 57, St 210), (65, 70, St 210), (97, 102, St 210)])],
    [])"

definition h11_34 :: "h11_action chunk" where
  "h11_34 = (213, 216,
    [(213, True, [(32, 32, Tr 228), (33, 33, St 214), (36, 36, St 214), (37, 37, St 215), (38, 46, St 214),
       (47, 47, St 205), (48, 57, St 213), (58, 59, St 214), (61, 61, St 214), (64, 64, St 217),
       (65, 90, St 214), (95, 95, St 214), (97, 122, St 214), (126, 126, St 214), (606, 606, St 214),
       (635, 635, St 214), (637, 637, St 214)]),
     (214, True, [(33, 33, St 214), (36, 36, St 214), (37, 37, St 215), (38, 46, St 214), (48, 59, St 214),
       (61, 61, St 214), (64, 64, St 217), (65, 90, St 214), (95, 95, St 214), (97, 122, St 214),
       (126, 126, St 214), (606, 606, St 214), (635, 635, St 214), (637, 637, St 214)]),
     (215, False, [(48, 57, St 216), (65, 70, St 216), (97, 102, St 216)]),
     (216, False, [(48, 57, St 214), (65, 70, St 214), (97, 102, St 214)])],
    [])"

definition h11_35 :: "h11_action chunk" where
  "h11_35 = (217, 222,
    [(217, True, [(32, 32, Tr 228), (33, 33, St 218), (36, 36, St 218), (37, 37, St 219), (38, 46, St 218),
       (47, 47, St 205), (48, 57, St 218), (58, 58, St 221), (59, 59, St 218), (61, 61, St 218),
       (65, 90, St 218), (91, 91, St 222), (95, 95, St 218), (97, 122, St 218), (126, 126, St 218),
       (606, 606, St 218), (635, 635, St 218), (637, 637, St 218)]),
     (218, True, [(32, 32, Tr 228), (33, 33, St 218), (36, 36, St 218), (37, 37, St 219), (38, 46, St 218),
       (47, 47, St 205), (48, 57, St 218), (58, 58, St 221), (59, 59, St 218), (61, 61, St 218),
       (65, 90, St 218), (95, 95, St 218), (97, 122, St 218), (126, 126, St 218), (606, 606, St 218),
       (635, 635, St 218), (637, 637, St 218)]),
     (219, False, [(48, 57, St 220), (65, 70, St 220), (97, 102, St 220)]),
     (220, False, [(48, 57, St 218), (65, 70, St 218), (97, 102, St 218)]),
     (221, False, [(32, 32, Tr 228), (47, 47, St 205), (48, 57, St 221)]),
     (222, False, [(6, 6, St 223), (48, 57, St 266), (58, 58, St 342), (65, 70, St 266), (97, 102, St 266),
       (118, 118, St 344)])],
    [])"

definition h11_36 :: "h11_action chunk" where
  "h11_36 = (223, 234,
    [(223, False, [(48, 57, St 224), (65, 70, St 224), (97, 102, St 224)]),
     (224, False, [(48, 57, St 225), (58, 58, St 228), (65, 70, St 225), (97, 102, St 225)]),
     (225, False, [(48, 57, St 226), (58, 58, St 228), (65, 70, St 226), (97, 102, St 226)]),
     (226, False, [(48, 57, St 227), (58, 58, St 228), (65, 70, St 227), (97, 102, St 227)]),
     (227, False, [(58, 58, St 228)]),
     (228, False, [(48, 48, St 229), (49, 49, St 259), (50, 50, St 262), (51, 57, St 229), (65, 70, St 265),
       (97, 102, St 265)]),
     (229, False, [(46, 46, St 230), (48, 57, St 252), (58, 58, St 255), (65, 70, St 252),
       (97, 102, St 252)]),
     (230, False, [(48, 48, St 231), (49, 49, St 247), (50, 50, St 249), (51, 57, St 231)]),
     (231, False, [(46, 46, St 232)]),
     (232, False, [(48, 48, St 233), (49, 49, St 242), (50, 50, St 244), (51, 57, St 233)]),
     (233, False, [(46, 46, St 234)]),
     (234, False, [(48, 48, St 235), (49, 49, St 237), (50, 50, St 239), (51, 57, St 235)])],
    [])"

definition h11_37 :: "h11_action chunk" where
  "h11_37 = (235, 251,
    [(235, False, [(93, 93, St 236)]),
     (236, False, [(32, 32, Tr 228), (47, 47, St 205), (58, 58, St 221)]),
     (237, False, [(48, 57, St 238), (93, 93, St 236)]),
     (238, False, [(48, 57, St 235), (93, 93, St 236)]),
     (239, False, [(48, 48, St 240), (53, 53, St 241), (93, 93, St 236)]),
     (240, False, [(48, 57, St 235)]),
     (241, False, [(48, 48, St 235)]),
     (242, False, [(46, 46, St 234), (48, 57, St 243)]),
     (243, False, [(46, 46, St 234), (48, 57, St 233)]),
     (244, False, [(46, 46, St 234), (48, 48, St 245), (53, 53, St 246)]),
     (245, False, [(48, 57, St 233)]),
     (246, False, [(48, 48, St 233)]),
     (247, False, [(46, 46, St 232), (48, 57, St 248)]),
     (248, False, [(46, 46, St 232), (48, 57, St 231)]),
     (249, False, [(46, 46, St 232), (48, 48, St 250), (53, 53, St 251)]),
     (250, False, [(48, 57, St 231)]),
     (251, False, [(48, 48, St 231)])],
    [])"

definition h11_38 :: "h11_action chunk" where
  "h11_38 = (252, 261,
    [(252, False, [(48, 57, St 253), (58, 58, St 255), (65, 70, St 253), (97, 102, St 253)]),
     (253, False, [(48, 57, St 254), (58, 58, St 255), (65, 70, St 254), (97, 102, St 254)]),
     (254, False, [(58, 58, St 255)]),
     (255, False, [(48, 57, St 256), (65, 70, St 256), (97, 102, St 256)]),
     (256, False, [(48, 57, St 257), (65, 70, St 257), (93, 93, St 236), (97, 102, St 257)]),
     (257, False, [(48, 57, St 258), (65, 70, St 258), (93, 93, St 236), (97, 102, St 258)]),
     (258, False, [(48, 57, St 235), (65, 70, St 235), (93, 93, St 236), (97, 102, St 235)]),
     (259, False, [(46, 46, St 230), (48, 57, St 260), (58, 58, St 255), (65, 70, St 252),
       (97, 102, St 252)]),
     (260, False, [(46, 46, St 230), (48, 57, St 261), (58, 58, St 255), (65, 70, St 253),
       (97, 102, St 253)]),
     (261, False, [(46, 46, St 230), (48, 57, St 254), (58, 58, St 255), (65, 70, St 254),
       (97, 102, St 254)])],
    [])"

definition h11_39 :: "h11_action chunk" where
  "h11_39 = (262, 271,
    [(262, False, [(46, 46, St 230), (48, 48, St 263), (49, 52, St 252), (53, 53, St 264), (54, 57, St 252),
       (58, 58, St 255), (65, 70, St 252), (97, 102, St 252)]),
     (263, False, [(48, 57, St 261), (58, 58, St 255), (65, 70, St 253), (97, 102, St 253)]),
     (264, False, [(48, 48, St 261), (49, 57, St 253), (58, 58, St 255), (65, 70, St 253),
       (97, 102, St 253)]),
     (265, False, [(48, 57, St 252), (58, 58, St 255), (65, 70, St 252), (97, 102, St 252)]),
     (266, False, [(48, 57, St 267), (58, 58, St 270), (65, 70, St 267), (97, 102, St 267)]),
     (267, False, [(48, 57, St 268), (58, 58, St 270), (65, 70, St 268), (97, 102, St 268)]),
     (268, False, [(48, 57, St 269), (58, 58, St 270), (65, 70, St 269), (97, 102, St 269)]),
     (269, False, [(58, 58, St 270)]),
     (270, False, [(48, 57, St 271), (58, 58, St 341), (65, 70, St 271), (97, 102, St 271)]),
     (271, False, [(48, 57, St 272), (58, 58, St 275), (65, 70, St 272), (97, 102, St 272)])],
    [])"

definition h11_40 :: "h11_action chunk" where
  "h11_40 = (272, 282,
    [(272, False, [(48, 57, St 273), (58, 58, St 275), (65, 70, St 273), (97, 102, St 273)]),
     (273, False, [(48, 57, St 274), (58, 58, St 275), (65, 70, St 274), (97, 102, St 274)]),
     (274, False, [(58, 58, St 275)]),
     (275, False, [(48, 57, St 276), (58, 58, St 340), (65, 70, St 276), (97, 102, St 276)]),
     (276, False, [(48, 57, St 277), (58, 58, St 280), (65, 70, St 277), (97, 102, St 277)]),
     (277, False, [(48, 57, St 278), (58, 58, St 280), (65, 70, St 278), (97, 102, St 278)]),
     (278, False, [(48, 57, St 279), (58, 58, St 280), (65, 70, St 279), (97, 102, St 279)]),
     (279, False, [(58, 58, St 280)]),
     (280, False, [(48, 57, St 281), (58, 58, St 339), (65, 70, St 281), (97, 102, St 281)]),
     (281, False, [(48, 57, St 282), (58, 58, St 285), (65, 70, St 282), (97, 102, St 282)]),
     (282, False, [(48, 57, St 283), (58, 58, St 285), (65, 70, St 283), (97, 102, St 283)])],
    [])"

definition h11_41 :: "h11_action chunk" where
  "h11_41 = (283, 293,
    [(283, False, [(48, 57, St 284), (58, 58, St 285), (65, 70, St 284), (97, 102, St 284)]),
     (284, False, [(58, 58, St 285)]),
     (285, False, [(48, 57, St 286), (58, 58, St 338), (65, 70, St 286), (97, 102, St 286)]),
     (286, False, [(48, 57, St 287), (58, 58, St 290), (65, 70, St 287), (97, 102, St 287)]),
     (287, False, [(48, 57, St 288), (58, 58, St 290), (65, 70, St 288), (97, 102, St 288)]),
     (288, False, [(48, 57, St 289), (58, 58, St 290), (65, 70, St 289), (97, 102, St 289)]),
     (289, False, [(58, 58, St 290)]),
     (290, False, [(48, 57, St 291), (58, 58, St 326), (65, 70, St 291), (97, 102, St 291)]),
     (291, False, [(48, 57, St 292), (58, 58, St 295), (65, 70, St 292), (97, 102, St 292)]),
     (292, False, [(48, 57, St 293), (58, 58, St 295), (65, 70, St 293), (97, 102, St 293)]),
     (293, False, [(48, 57, St 294), (58, 58, St 295), (65, 70, St 294), (97, 102, St 294)])],
    [])"

definition h11_42 :: "h11_action chunk" where
  "h11_42 = (294, 303,
    [(294, False, [(58, 58, St 295)]),
     (295, False, [(48, 57, St 296), (58, 58, St 325), (65, 70, St 296), (97, 102, St 296)]),
     (296, False, [(48, 57, St 297), (58, 58, St 300), (65, 70, St 297), (97, 102, St 297)]),
     (297, False, [(48, 57, St 298), (58, 58, St 300), (65, 70, St 298), (97, 102, St 298)]),
     (298, False, [(48, 57, St 299), (58, 58, St 300), (65, 70, St 299), (97, 102, St 299)]),
     (299, False, [(58, 58, St 300)]),
     (300, False, [(48, 57, St 296), (58, 58, St 301), (65, 70, St 296), (97, 102, St 296)]),
     (301, False, [(2, 3, St 223), (48, 48, St 302), (49, 49, St 318), (50, 50, St 321), (51, 57, St 302),
       (65, 70, St 324), (93, 93, St 236), (97, 102, St 324)]),
     (302, False, [(46, 46, St 230), (48, 57, St 303), (58, 58, St 306), (65, 70, St 303), (93, 93, St 236),
       (97, 102, St 303)]),
     (303, False, [(48, 57, St 304), (58, 58, St 306), (65, 70, St 304), (93, 93, St 236),
       (97, 102, St 304)])],
    [])"

definition h11_43 :: "h11_action chunk" where
  "h11_43 = (304, 312,
    [(304, False, [(48, 57, St 305), (58, 58, St 306), (65, 70, St 305), (93, 93, St 236),
       (97, 102, St 305)]),
     (305, False, [(58, 58, St 306), (93, 93, St 236)]),
     (306, False, [(48, 48, St 307), (49, 49, St 311), (50, 50, St 314), (51, 57, St 307), (65, 70, St 317),
       (97, 102, St 317)]),
     (307, False, [(46, 46, St 230), (48, 57, St 308), (58, 58, St 255), (65, 70, St 308), (93, 93, St 236),
       (97, 102, St 308)]),
     (308, False, [(48, 57, St 309), (58, 58, St 255), (65, 70, St 309), (93, 93, St 236),
       (97, 102, St 309)]),
     (309, False, [(48, 57, St 310), (58, 58, St 255), (65, 70, St 310), (93, 93, St 236),
       (97, 102, St 310)]),
     (310, False, [(58, 58, St 255), (93, 93, St 236)]),
     (311, False, [(46, 46, St 230), (48, 57, St 312), (58, 58, St 255), (65, 70, St 308), (93, 93, St 236),
       (97, 102, St 308)]),
     (312, False, [(46, 46, St 230), (48, 57, St 313), (58, 58, St 255), (65, 70, St 309), (93, 93, St 236),
       (97, 102, St 309)])],
    [])"

definition h11_44 :: "h11_action chunk" where
  "h11_44 = (313, 320,
    [(313, False, [(46, 46, St 230), (48, 57, St 310), (58, 58, St 255), (65, 70, St 310), (93, 93, St 236),
       (97, 102, St 310)]),
     (314, False, [(46, 46, St 230), (48, 48, St 315), (49, 52, St 308), (53, 53, St 316), (54, 57, St 308),
       (58, 58, St 255), (65, 70, St 308), (93, 93, St 236), (97, 102, St 308)]),
     (315, False, [(48, 57, St 313), (58, 58, St 255), (65, 70, St 309), (93, 93, St 236),
       (97, 102, St 309)]),
     (316, False, [(48, 48, St 313), (49, 57, St 309), (58, 58, St 255), (65, 70, St 309), (93, 93, St 236),
       (97, 102, St 309)]),
     (317, False, [(48, 57, St 308), (58, 58, St 255), (65, 70, St 308), (93, 93, St 236),
       (97, 102, St 308)]),
     (318, False, [(46, 46, St 230), (48, 57, St 319), (58, 58, St 306), (65, 70, St 303), (93, 93, St 236),
       (97, 102, St 303)]),
     (319, False, [(46, 46, St 230), (48, 57, St 320), (58, 58, St 306), (65, 70, St 304), (93, 93, St 236),
       (97, 102, St 304)]),
     (320, False, [(46, 46, St 230), (48, 57, St 305), (58, 58, St 306), (65, 70, St 305), (93, 93, St 236),
       (97, 102, St 305)])],
    [])"

definition h11_45 :: "h11_action chunk" where
  "h11_45 = (321, 328,
    [(321, False, [(46, 46, St 230), (48, 48, St 322), (49, 52, St 303), (53, 53, St 323), (54, 57, St 303),
       (58, 58, St 306), (65, 70, St 303), (93, 93, St 236), (97, 102, St 303)]),
     (322, False, [(48, 57, St 320), (58, 58, St 306), (65, 70, St 304), (93, 93, St 236),
       (97, 102, St 304)]),
     (323, False, [(48, 48, St 320), (49, 57, St 304), (58, 58, St 306), (65, 70, St 304), (93, 93, St 236),
       (97, 102, St 304)]),
     (324, False, [(48, 57, St 303), (58, 58, St 306), (65, 70, St 303), (93, 93, St 236),
       (97, 102, St 303)]),
     (325, False, [(2, 3, St 223), (48, 48, St 302), (49, 49, St 318), (50, 50, St 321), (51, 57, St 302),
       (65, 70, St 324), (97, 102, St 324)]),
     (326, False, [(2, 3, St 223), (48, 48, St 327), (49, 49, St 331), (50, 50, St 334), (51, 57, St 327),
       (65, 70, St 337), (97, 102, St 337)]),
     (327, False, [(46, 46, St 230), (48, 57, St 328), (58, 58, St 306), (65, 70, St 328),
       (97, 102, St 328)]),
     (328, False, [(48, 57, St 329), (58, 58, St 306), (65, 70, St 329), (97, 102, St 329)])],
    [])"

definition h11_46 :: "h11_action chunk" where
  "h11_46 = (329, 337,
    [(329, False, [(48, 57, St 330), (58, 58, St 306), (65, 70, St 330), (97, 102, St 330)]),
     (330, False, [(58, 58, St 306)]),
     (331, False, [(46, 46, St 230), (48, 57, St 332), (58, 58, St 306), (65, 70, St 328),
       (97, 102, St 328)]),
     (332, False, [(46, 46, St 230), (48, 57, St 333), (58, 58, St 306), (65, 70, St 329),
       (97, 102, St 329)]),
     (333, False, [(46, 46, St 230), (48, 57, St 330), (58, 58, St 306), (65, 70, St 330),
       (97, 102, St 330)]),
     (334, False, [(46, 46, St 230), (48, 48, St 335), (49, 52, St 328), (53, 53, St 336), (54, 57, St 328),
       (58, 58, St 306), (65, 70, St 328), (97, 102, St 328)]),
     (335, False, [(48, 57, St 333), (58, 58, St 306), (65, 70, St 329), (97, 102, St 329)]),
     (336, False, [(48, 48, St 333), (49, 57, St 329), (58, 58, St 306), (65, 70, St 329),
       (97, 102, St 329)]),
     (337, False, [(48, 57, St 328), (58, 58, St 306), (65, 70, St 328), (97, 102, St 328)])],
    [])"

definition h11_47 :: "h11_action chunk" where
  "h11_47 = (338, 346,
    [(338, False, [(2, 3, St 223), (48, 57, St 224), (65, 70, St 224), (97, 102, St 224)]),
     (339, False, [(2, 3, St 223)]),
     (340, False, [(3, 3, St 223)]),
     (341, False, [(4, 4, St 223)]),
     (342, False, [(58, 58, St 343)]),
     (343, False, [(2, 5, St 223), (48, 48, St 302), (49, 49, St 318), (50, 50, St 321), (51, 57, St 302),
       (65, 70, St 324), (93, 93, St 236), (97, 102, St 324)]),
     (344, False, [(48, 57, St 345), (65, 70, St 345), (97, 102, St 345)]),
     (345, False, [(46, 46, St 346), (48, 57, St 345), (65, 70, St 345), (97, 102, St 345)]),
     (346, True, [(33, 33, St 347), (36, 36, St 347), (38, 46, St 347), (48, 59, St 347), (61, 61, St 347),
       (65, 90, St 347), (95, 95, St 347), (97, 122, St 347), (126, 126, St 347), (606, 606, St 347),
       (635, 635, St 347), (637, 637, St 347)])],
    [])"

definition h11_48 :: "h11_action chunk" where
  "h11_48 = (347, 347,
    [(347, True, [(33, 33, St 347), (36, 36, St 347), (38, 46, St 347), (48, 59, St 347), (61, 61, St 347),
       (65, 90, St 347), (93, 93, St 236), (95, 95, St 347), (97, 122, St 347), (126, 126, St 347),
       (606, 606, St 347), (635, 635, St 347), (637, 637, St 347)])],
    [])"

text \<open>The whole machine, and its transitions in one list.\<close>

definition h11 :: "h11_action chunk list" where
  "h11 = [h11_1, h11_2, h11_3, h11_4, h11_5, h11_6, h11_7, h11_8, h11_9, h11_10, h11_11, h11_12, h11_13,
     h11_14, h11_15, h11_16, h11_17, h11_18, h11_19, h11_20, h11_21, h11_22, h11_23, h11_24, h11_25,
     h11_26, h11_27, h11_28, h11_29, h11_30, h11_31, h11_32, h11_33, h11_34, h11_35, h11_36, h11_37,
     h11_38, h11_39, h11_40, h11_41, h11_42, h11_43, h11_44, h11_45, h11_46, h11_47, h11_48]"

definition h11_trs :: "(int \<times> h11_action list \<times> int) list" where
  "h11_trs = [(0, [Mark], 2),
     (4, [RequestMethod], 3),
     (6, [Mark, RequestPath, RequestUri], 4),
     (37, [RequestPath, RequestUri], 4),
     (44, [Mark, Fragment], 4),
     (47, [Fragment], 4),
     (54, [StartQuery, QueryString, RequestUri], 4),
     (58, [QueryString, RequestUri], 4),
     (13, [Mark], 5),
     (21, [HttpVersion], 13),
     (30, [StartValue, WriteValue], 13),
     (33, [WriteValue], 13),
     (23, [StartField], 14),
     (27, [WriteField], 15),
     (29, [StartValue], 15),
     (28, [StartValue], 16),
     (22, [HttpVersion], 17),
     (31, [StartValue, WriteValue], 17),
     (34, [WriteValue], 17),
     (24, [StartField, Done 348], 348),
     (36, [Done 348], 348),
     (25, [StartField], 18),
     (7, [Mark], 19),
     (8, [Mark, RequestPath, RequestUri], 20),
     (39, [RequestPath, RequestUri], 20),
     (55, [StartQuery, QueryString, RequestUri], 20),
     (59, [QueryString, RequestUri], 20),
     (43, [Mark], 21),
     (45, [Mark], 22),
     (9, [Mark], 24),
     (203, [Mark], 26),
     (204, [Mark], 27),
     (11, [Mark, RequestPath], 29),
     (42, [RequestPath], 29),
     (53, [StartQuery], 30),
     (56, [StartQuery], 31),
     (10, [Mark], 33),
     (12, [Mark], 173),
     (2, [Mark], 194),
     (224, [RequestPath], 196),
     (227, [XmlSent, Done 349], 349),
     (235, [JsonSent, Done 349], 349),
     (3, [Mark], 198),
     (228, [RequestPath], 199),
     (232, [Mark], 200)]"

lemmas h11_defs =
  h11_def h11_1_def h11_2_def h11_3_def h11_4_def h11_5_def h11_6_def h11_7_def h11_8_def h11_9_def
  h11_10_def h11_11_def h11_12_def h11_13_def h11_14_def h11_15_def h11_16_def h11_17_def h11_18_def
  h11_19_def h11_20_def h11_21_def h11_22_def h11_23_def h11_24_def h11_25_def h11_26_def h11_27_def
  h11_28_def h11_29_def h11_30_def h11_31_def h11_32_def h11_33_def h11_34_def h11_35_def h11_36_def
  h11_37_def h11_38_def h11_39_def h11_40_def h11_41_def h11_42_def h11_43_def h11_44_def h11_45_def
  h11_46_def h11_47_def h11_48_def

end
