(* ===== verification/Http11.thy ===== *)
theory Http11
  imports Http11_Table
begin

text \<open>
  The request parser of \<^verbatim>\<open>src/src/http-parser/http11_parser.cc\<close> around its state machine: the parser
  record, the actions, the loop over the characters and the four functions of its interface. Pointers
  into the buffer are offsets. All callbacks are set, as \<open>HttpRequestParser\<close> sets them; a call is an
  event with the offset and length it is given.
\<close>

section \<open>Data\<close>

record http_parser =
  h_cs :: int
  h_body_start :: nat
  h_content_len :: int
  h_nread :: nat
  h_mark :: nat
  h_field_start :: nat
  h_field_len :: nat
  h_query_start :: nat
  h_xml_sent :: int
  h_json_sent :: int
  h_uri_relaxed :: int

datatype element = Method | Uri | FragmentE | Path | Query | Version | HeaderDone

text \<open>A callback: the element with its offset and length, or a field with those of name and value.\<close>

datatype event = Element element nat nat | Field nat nat nat nat

datatype h11_error = H11Assert

definition http_parser_init :: "http_parser \<Rightarrow> http_parser" where
  "http_parser_init parser = parser\<lparr>h_cs := 1, h_body_start := 0, h_content_len := 0, h_mark := 0,
     h_nread := 0, h_field_len := 0, h_field_start := 0, h_xml_sent := 0, h_json_sent := 0\<rparr>"

section \<open>Actions\<close>

text \<open>\<open>LEN(AT, FPC)\<close>: unsigned, so it wraps around when the mark lies behind.\<close>

definition LEN :: "nat \<Rightarrow> nat \<Rightarrow> nat" where
  "LEN at fpc = usub fpc at"

text \<open>An action at the character \<open>p\<close> of a buffer of \<open>pe\<close> characters.\<close>

fun h11_act :: "nat \<Rightarrow> nat \<Rightarrow> h11_action \<Rightarrow> http_parser \<Rightarrow> http_parser \<times> event list" where
  "h11_act pe p Mark s = (s\<lparr>h_mark := p\<rparr>, [])"
| "h11_act pe p StartField s = (s\<lparr>h_field_start := p\<rparr>, [])"
| "h11_act pe p WriteField s = (s\<lparr>h_field_len := LEN (h_field_start s) p\<rparr>, [])"
| "h11_act pe p StartValue s = (s\<lparr>h_mark := p\<rparr>, [])"
| "h11_act pe p WriteValue s = (s, [Field (h_field_start s) (h_field_len s) (h_mark s) (LEN (h_mark s) p)])"
| "h11_act pe p RequestMethod s = (s, [Element Method (h_mark s) (LEN (h_mark s) p)])"
| "h11_act pe p RequestUri s = (s, [Element Uri (h_mark s) (LEN (h_mark s) p)])"
| "h11_act pe p Fragment s = (s, [Element FragmentE (h_mark s) (LEN (h_mark s) p)])"
| "h11_act pe p StartQuery s = (s\<lparr>h_query_start := p\<rparr>, [])"
| "h11_act pe p QueryString s = (s, [Element Query (h_query_start s) (LEN (h_query_start s) p)])"
| "h11_act pe p HttpVersion s = (s, [Element Version (h_mark s) (LEN (h_mark s) p)])"
| "h11_act pe p RequestPath s = (s, [Element Path (h_mark s) (LEN (h_mark s) p)])"
| "h11_act pe p XmlSent s = (s\<lparr>h_xml_sent := 1\<rparr>, [])"
| "h11_act pe p JsonSent s = (s\<lparr>h_json_sent := 1\<rparr>, [])"
| "h11_act pe p (Done n) s =
     (if h_xml_sent s \<noteq> 0 \<or> h_json_sent s \<noteq> 0
      then (s\<lparr>h_body_start := h_mark s, h_content_len := size_to_int (usub p (h_mark s) + 1)\<rparr>, [])
      else (s\<lparr>h_body_start := p + 1\<rparr>, [Element HeaderDone (p + 1) (pe - p - 1)]))"

text \<open>The actions of a transition, up to a \<open>Done\<close>, with the state that it leaves with.\<close>

fun h11_acts :: "nat \<Rightarrow> nat \<Rightarrow> h11_action list \<Rightarrow> http_parser \<Rightarrow> http_parser \<times> event list \<times> int option" where
  "h11_acts pe p [] s = (s, [], None)"
| "h11_acts pe p (a # as) s =
     (let (s1, ev) = h11_act pe p a s in
      case a of Done n \<Rightarrow> (s1, ev, Some n)
      | _ \<Rightarrow> (let (s2, evs, r) = h11_acts pe p as s1 in (s2, ev @ evs, r)))"

section \<open>Execution\<close>

text \<open>
  The loop over the characters that are left: parser, events, the local \<open>cs\<close> and \<open>p\<close>. A state without a
  block falls through the \<open>switch\<close> to \<open>_test_eof2\<close>.
\<close>

fun h11_loop :: "nat \<Rightarrow> http_parser \<Rightarrow> int \<Rightarrow> nat \<Rightarrow> int list \<Rightarrow> http_parser \<times> event list \<times> int \<times> nat" where
  "h11_loop pe s cs p [] = (s, [], cs, p)"
| "h11_loop pe s cs p (c # rest) =
     (case move h11 (h_uri_relaxed s \<noteq> 0) cs c of
        NoState \<Rightarrow> (s, [], 2, p)
      | Reject \<Rightarrow> (s, [], 0, p)
      | Move as t \<Rightarrow>
          (let (s1, evs, r) = h11_acts pe p as s in
           case r of Some n \<Rightarrow> (s1, evs, n, Suc p)
           | None \<Rightarrow> (let (s2, evs2, cs2, p2) = h11_loop pe s1 t (Suc p) rest in (s2, evs @ evs2, cs2, p2))))"

definition http_parser_execute :: "http_parser \<Rightarrow> byte list \<Rightarrow> nat \<Rightarrow> h11_error + http_parser \<times> event list \<times> nat" where
  "http_parser_execute parser0 buffer off =
     (let len = length buffer in
      if len = 0 then Inr (parser0, [], 0)
      else
        let parser = parser0\<lparr>h_nread := 0, h_mark := 0, h_field_len := 0, h_field_start := 0\<rparr> in
        if \<not> off \<le> len then Inl H11Assert
        else if int (len - off) \<noteq> size_to_int len - size_to_int off then Inl H11Assert
        else
          let (s, evs, cs, p) = h11_loop len parser (h_cs parser) off (map sint (drop off buffer));
              s1 = (if h_cs s \<noteq> 0 then s\<lparr>h_cs := cs\<rparr> else s);
              s2 = s1\<lparr>h_nread := h_nread s1 + (p - off)\<rparr>
          in if h_nread s2 \<le> len \<and> h_body_start s2 \<le> len \<and> h_mark s2 < len \<and> h_field_len s2 \<le> len \<and>
                h_field_start s2 < len
             then Inr (s2, evs, h_nread s2) else Inl H11Assert)"

definition http_parser_has_error :: "http_parser \<Rightarrow> bool" where
  "http_parser_has_error parser \<longleftrightarrow> h_cs parser = 0"

definition http_parser_is_finished :: "http_parser \<Rightarrow> bool" where
  "http_parser_is_finished parser \<longleftrightarrow> 348 \<le> h_cs parser"

definition http_parser_finish :: "http_parser \<Rightarrow> int" where
  "http_parser_finish parser =
     (if http_parser_has_error parser then -1 else if http_parser_is_finished parser then 1 else 0)"

end
