(* ===== verification/Http11_Spec.thy ===== *)
theory Http11_Spec
  imports Http11
begin

text \<open>
  What holds of the request parser for every input: callbacks get slices of the buffer, the asserts at
  the end of a call do not fail, the control state does not depend on how the input is cut into calls,
  and a finished parser has just read the end of a header. The facts about all states are evaluations
  of checks over the table.
\<close>

section \<open>Checks over the table\<close>

text \<open>
  The data flow of the offsets. In the states 30 to 32 a query has started; in all states but 14, 18 and
  348 the name of the last field ends before the current character.
\<close>

definition in_query :: "int \<Rightarrow> bool" where
  "in_query n \<longleftrightarrow> 30 \<le> n \<and> n \<le> 32"

definition field_closed :: "int \<Rightarrow> bool" where
  "field_closed n \<longleftrightarrow> n \<noteq> 14 \<and> n \<noteq> 18 \<and> n \<noteq> 348"

fun flow :: "h11_action list \<Rightarrow> bool \<Rightarrow> bool \<Rightarrow> (bool \<times> bool) option" where
  "flow [] q f = Some (q, f)"
| "flow (StartQuery # as) q f = flow as True f"
| "flow (QueryString # as) q f = (if q then flow as q f else None)"
| "flow (StartField # as) q f = flow as q False"
| "flow (WriteField # as) q f = flow as q True"
| "flow (WriteValue # as) q f = (if f then flow as q f else None)"
| "flow (_ # as) q f = flow as q f"

definition flow_ok :: "int \<Rightarrow> int \<Rightarrow> int \<Rightarrow> h11_action list \<Rightarrow> int \<Rightarrow> bool" where
  "flow_ok n lo hi as t = (case flow as (in_query n) (field_closed n) of None \<Rightarrow> False
     | Some (q, f) \<Rightarrow> (in_query t \<longrightarrow> q) \<and> (field_closed t \<longrightarrow> f))"

text \<open>Which characters lead into the states before the end, and into the end.\<close>

fun done_of :: "h11_action list \<Rightarrow> int option" where
  "done_of [] = None"
| "done_of (Done n # as) = Some n"
| "done_of (_ # as) = done_of as"

definition end_ok :: "int \<Rightarrow> int \<Rightarrow> int \<Rightarrow> h11_action list \<Rightarrow> int \<Rightarrow> bool" where
  "end_ok n lo hi as t \<longleftrightarrow> (t = 13 \<longrightarrow> lo = 10 \<and> hi = 10) \<and> (t = 18 \<longrightarrow> n = 13 \<and> lo = 13 \<and> hi = 13) \<and>
     (case done_of as of None \<Rightarrow> t < 348
      | Some m \<Rightarrow> m = t \<and> 348 \<le> t \<and> ((n = 13 \<or> n = 18) \<and> lo = 10 \<and> hi = 10 \<or> lo = 0 \<and> hi = 0))"

lemma h11_all_trs: "all_trs h11 = h11_trs"
  by (simp add: all_trs_def h11_defs h11_trs_def)

lemma h11_flow: "list_all (chunk_ok flow_ok h11_trs) h11"
  by code_simp

lemma h11_end: "list_all (chunk_ok end_ok h11_trs) h11"
  by code_simp

section \<open>Slices\<close>

fun slice_ok :: "nat \<Rightarrow> event \<Rightarrow> bool" where
  "slice_ok len (Element e at n) \<longleftrightarrow> at + n \<le> len"
| "slice_ok len (Field f fl v vl) \<longleftrightarrow> f + fl \<le> len \<and> v + vl \<le> len"

text \<open>The offsets before the character \<open>p\<close>, with the two facts that the table tracks.\<close>

definition offsets_ok :: "nat \<Rightarrow> bool \<Rightarrow> bool \<Rightarrow> nat \<Rightarrow> http_parser \<Rightarrow> bool" where
  "offsets_ok pe q f p s \<longleftrightarrow> h_mark s \<le> p \<and> h_field_start s \<le> p \<and> h_field_len s \<le> p \<and>
     (q \<longrightarrow> h_query_start s \<le> p) \<and> (f \<longrightarrow> h_field_start s + h_field_len s \<le> p) \<and>
     h_mark s < pe \<and> h_field_start s < pe \<and> h_body_start s \<le> pe"

lemma LEN_le [simp]: "a \<le> p \<Longrightarrow> LEN a p = p - a"
  by (simp add: LEN_def)

lemma h11_acts_ok:
  assumes "flow as q f = Some (q', f')" and "offsets_ok pe q f p s" and "p < pe"
  shows "case h11_acts pe p as s of (s', evs, r) \<Rightarrow> list_all (slice_ok pe) evs \<and>
    offsets_ok pe (r = None \<and> q') (r = None \<and> f') p s' \<and> h_cs s' = h_cs s \<and> h_nread s' = h_nread s \<and>
    h_uri_relaxed s' = h_uri_relaxed s \<and> r = done_of as"
  using assms
proof (induction as arbitrary: s q f)
  case (Cons a as)
  show ?case
  proof (cases "\<exists>n. a = Done n")
    case True
    then show ?thesis using Cons.prems
      by (cases "h_xml_sent s \<noteq> 0 \<or> h_json_sent s \<noteq> 0") (auto simp: offsets_ok_def)
  next
    case False
    let ?s = "fst (h11_act pe p a s)"
    have "\<exists>q1 f1. flow as q1 f1 = Some (q', f') \<and> offsets_ok pe q1 f1 p ?s \<and>
        list_all (slice_ok pe) (snd (h11_act pe p a s)) \<and> h_cs ?s = h_cs s \<and> h_nread ?s = h_nread s \<and>
        h_uri_relaxed ?s = h_uri_relaxed s"
      using Cons.prems False
      by (cases a) (auto simp: offsets_ok_def split: if_splits)
    then obtain q1 f1 where one: "flow as q1 f1 = Some (q', f')" "offsets_ok pe q1 f1 p ?s"
      "list_all (slice_ok pe) (snd (h11_act pe p a s))" "h_cs ?s = h_cs s" "h_nread ?s = h_nread s"
      "h_uri_relaxed ?s = h_uri_relaxed s" by blast
    have "h11_acts pe p (a # as) s = (let (s2, evs, r) = h11_acts pe p as ?s in (s2, snd (h11_act pe p a s) @ evs, r))"
      using False by (cases a) (simp_all add: split_beta)
    moreover have "done_of (a # as) = done_of as" using False by (cases a) auto
    ultimately show ?thesis using Cons.IH [OF one(1,2) Cons.prems(3)] one(3-6)
      by (auto simp: split_beta)
  qed
qed (simp add: offsets_ok_def)

lemma offsets_ok_mono: "offsets_ok pe q f p s \<Longrightarrow> p \<le> p' \<Longrightarrow> (q' \<longrightarrow> q) \<Longrightarrow> (f' \<longrightarrow> f) \<Longrightarrow> offsets_ok pe q' f' p' s"
  by (auto simp: offsets_ok_def)

lemma h11_flowD: "move h11 relaxed n c = Move as t \<Longrightarrow>
    \<exists>q f. flow as (in_query n) (field_closed n) = Some (q, f) \<and> (in_query t \<longrightarrow> q) \<and> (field_closed t \<longrightarrow> f)"
  using table_okD [OF h11_flow h11_all_trs] by (fastforce simp: flow_ok_def split: option.splits)

lemma h11_loop_ok:
  assumes "offsets_ok pe (in_query cs) (field_closed cs) p s" and "p + length xs \<le> pe"
  shows "case h11_loop pe s cs p xs of (s', evs, cs', p') \<Rightarrow> list_all (slice_ok pe) evs \<and>
    offsets_ok pe False False p' s' \<and> h_cs s' = h_cs s \<and> h_nread s' = h_nread s \<and> p \<le> p' \<and> p' \<le> p + length xs"
  using assms
proof (induction xs arbitrary: s cs p)
  case Nil
  have "offsets_ok pe False False p s" by (rule offsets_ok_mono [OF Nil(1)]) auto
  then show ?case by simp
next
  case (Cons c xs)
  have stay: "offsets_ok pe False False p s" by (rule offsets_ok_mono [OF Cons.prems(1)]) auto
  show ?case
  proof (cases "move h11 (h_uri_relaxed s \<noteq> 0) cs c")
    case (Move as t)
    obtain q f where qf: "flow as (in_query cs) (field_closed cs) = Some (q, f)" "in_query t \<longrightarrow> q" "field_closed t \<longrightarrow> f"
      using h11_flowD [OF Move] by blast
    obtain s1 evs r where a: "h11_acts pe p as s = (s1, evs, r)" by (metis prod_cases3)
    have one: "list_all (slice_ok pe) evs" "offsets_ok pe (r = None \<and> q) (r = None \<and> f) p s1" "h_cs s1 = h_cs s"
      "h_nread s1 = h_nread s"
      using h11_acts_ok [OF qf(1) Cons.prems(1)] Cons.prems(2) a by auto
    show ?thesis
    proof (cases r)
      case None
      have "offsets_ok pe (in_query t) (field_closed t) (Suc p) s1"
        by (rule offsets_ok_mono [OF one(2)]) (use qf None in auto)
      from Cons.IH [OF this] Cons.prems(2) show ?thesis using Move a None one by (auto simp: split_beta)
    next
      case (Some n)
      have "offsets_ok pe False False (Suc p) s1" by (rule offsets_ok_mono [OF one(2)]) auto
      then show ?thesis using Move a one Some by simp
    qed
  qed (use stay in simp_all)
qed

section \<open>The control state\<close>

text \<open>The states and the characters consumed, without the parser record.\<close>

fun h11_ctl :: "bool \<Rightarrow> int \<Rightarrow> int list \<Rightarrow> int \<times> nat" where
  "h11_ctl relaxed cs [] = (cs, 0)"
| "h11_ctl relaxed cs (c # rest) =
     (case move h11 relaxed cs c of NoState \<Rightarrow> (2, 0) | Reject \<Rightarrow> (0, 0)
      | Move as t \<Rightarrow> (case done_of as of Some n \<Rightarrow> (n, 1)
          | None \<Rightarrow> (let (n, k) = h11_ctl relaxed t rest in (n, Suc k))))"

lemma h11_acts_ctl: "h_uri_relaxed (fst (h11_acts pe p as s)) = h_uri_relaxed s \<and> snd (snd (h11_acts pe p as s)) = done_of as"
proof (induction as arbitrary: s)
  case (Cons a as)
  show ?case using Cons.IH [of "fst (h11_act pe p a s)"] by (cases a) (auto simp: split_beta Let_def)
qed simp

lemma h11_loop_ctl:
  "h11_loop pe s cs p xs = (s', evs, cs', p') \<Longrightarrow> h11_ctl (h_uri_relaxed s \<noteq> 0) cs xs = (cs', p' - p) \<and>
    p \<le> p' \<and> h_uri_relaxed s' = h_uri_relaxed s"
proof (induction xs arbitrary: s cs p s' evs cs' p')
  case (Cons c xs)
  show ?case
  proof (cases "move h11 (h_uri_relaxed s \<noteq> 0) cs c")
    case (Move as t)
    obtain s1 e1 r where a: "h11_acts pe p as s = (s1, e1, r)" by (metis prod_cases3)
    then have r: "h_uri_relaxed s1 = h_uri_relaxed s" "r = done_of as" using h11_acts_ctl [of pe p as s] by auto
    obtain s2 e2 c2 p2 where l: "h11_loop pe s1 t (Suc p) xs = (s2, e2, c2, p2)" by (metis prod_cases4)
    show ?thesis using Cons.prems Move a r l Cons.IH [OF l] by (cases "done_of as") auto
  qed (use Cons.prems in auto)
qed simp

lemma h11_ctl_append:
  "h11_ctl relaxed cs xs = (n, length xs) \<Longrightarrow> n < 348 \<Longrightarrow>
    h11_ctl relaxed cs (xs @ ys) = (fst (h11_ctl relaxed n ys), length xs + snd (h11_ctl relaxed n ys))"
proof (induction xs arbitrary: cs)
  case (Cons c xs)
  then obtain as t where m: "move h11 relaxed cs c = Move as t"
    by (auto split: move.splits)
  have "done_of as = None"
  proof (rule ccontr)
    assume "done_of as \<noteq> None"
    then obtain k where k: "done_of as = Some k" by auto
    then have "348 \<le> k" using table_okD [OF h11_end h11_all_trs m] by (auto simp: end_ok_def)
    then show False using Cons.prems m k by simp
  qed
  with Cons.prems m have t: "h11_ctl relaxed t xs = (n, length xs)" by (auto simp: split_beta prod_eq_iff)
  show ?case using Cons.IH [OF t Cons.prems(2)] m \<open>done_of as = None\<close> by (simp add: split_beta)
qed (simp add: split_beta)

section \<open>The end of a header\<close>

text \<open>What was read before a state, as far as it matters: the last characters, newest first.\<close>

definition came_by :: "int \<Rightarrow> int list \<Rightarrow> bool" where
  "came_by n hist \<longleftrightarrow> (n = 13 \<longrightarrow> (\<exists>h. hist = 10 # h)) \<and> (n = 18 \<longrightarrow> (\<exists>h. hist = 13 # 10 # h))"

definition header_end :: "int list \<Rightarrow> bool" where
  "header_end hist \<longleftrightarrow> (\<exists>h. hist = 10 # 10 # h \<or> hist = 10 # 13 # 10 # h \<or> hist = 0 # h)"

lemma widec_small: "lo \<le> (if w then widec relaxed c else c) \<Longrightarrow> (if w then widec relaxed c else c) \<le> hi \<Longrightarrow>
    lo = v \<Longrightarrow> hi = v \<Longrightarrow> v < 94 \<Longrightarrow> c = v"
  by (auto simp: widec_def split: if_splits)

lemma h11_endD:
  assumes "move h11 relaxed n c = Move as t"
  shows "(t = 13 \<longrightarrow> c = 10) \<and> (t = 18 \<longrightarrow> n = 13 \<and> c = 13) \<and>
    (case done_of as of None \<Rightarrow> t < 348 | Some m \<Rightarrow> 348 \<le> m \<and> ((n = 13 \<or> n = 18) \<and> c = 10 \<or> c = 0))"
proof -
  obtain lo hi w where e: "end_ok n lo hi as t" and r: "lo \<le> (if w then widec relaxed c else c)"
    "(if w then widec relaxed c else c) \<le> hi"
    using table_okD [OF h11_end h11_all_trs assms] by blast
  show ?thesis using e widec_small [OF r] by (auto simp: end_ok_def split: option.splits)
qed

lemma h11_ctl_end:
  "h11_ctl relaxed cs xs = (n, k) \<Longrightarrow> came_by cs hist \<Longrightarrow> cs < 348 \<Longrightarrow> 348 \<le> n \<Longrightarrow>
    header_end (rev (take k xs) @ hist)"
proof (induction xs arbitrary: cs hist k)
  case (Cons c xs)
  from Cons.prems(1,4) obtain as t where m: "move h11 relaxed cs c = Move as t"
    by (auto split: move.splits)
  note e = h11_endD [OF m]
  show ?case
  proof (cases "done_of as")
    case None
    obtain n' j where l: "h11_ctl relaxed t xs = (n', j)" by (cases "h11_ctl relaxed t xs")
    then have j: "h11_ctl relaxed t xs = (n, j)" "k = Suc j"
      using Cons.prems(1) m None by auto
    have "came_by t (c # hist)" using e Cons.prems(2) by (auto simp: came_by_def)
    from Cons.IH [OF j(1) this _ Cons.prems(4)] e None j(2) show ?thesis by simp
  next
    case (Some d)
    then have "k = 1" using Cons.prems(1) m by simp
    then show ?thesis using e Some Cons.prems(2) by (auto simp: header_end_def came_by_def)
  qed
qed auto

section \<open>Whole calls\<close>

lemma h11_acts_frame: "h_cs (fst (h11_acts pe p as s)) = h_cs s \<and> h_nread (fst (h11_acts pe p as s)) = h_nread s"
proof (induction as arbitrary: s)
  case (Cons a as)
  show ?case using Cons.IH [of "fst (h11_act pe p a s)"] by (cases a) (auto simp: split_beta Let_def)
qed simp

lemma h11_loop_frame: "h11_loop pe s cs p xs = (s', evs, cs', p') \<Longrightarrow> h_cs s' = h_cs s \<and> h_nread s' = h_nread s"
proof (induction xs arbitrary: s cs p s' evs cs' p')
  case (Cons c xs)
  show ?case
  proof (cases "move h11 (h_uri_relaxed s \<noteq> 0) cs c")
    case (Move as t)
    obtain s1 e1 r where a: "h11_acts pe p as s = (s1, e1, r)" by (metis prod_cases3)
    obtain s2 e2 c2 p2 where l: "h11_loop pe s1 t (Suc p) xs = (s2, e2, c2, p2)" by (metis prod_cases4)
    show ?thesis using Cons.prems Move a l Cons.IH [OF l] h11_acts_frame [of pe p as s] by (cases r) auto
  qed (use Cons.prems in auto)
qed simp

lemma execute_loop:
  assumes "http_parser_execute parser buffer off = Inr (s, evs, n)" and "buffer \<noteq> []"
  shows "\<exists>cs p. h11_ctl (h_uri_relaxed parser \<noteq> 0) (h_cs parser) (map sint (drop off buffer)) = (cs, n) \<and>
    (h_cs parser \<noteq> 0 \<longrightarrow> h_cs s = cs) \<and> h_uri_relaxed s = h_uri_relaxed parser"
proof -
  let ?p0 = "parser\<lparr>h_nread := 0, h_mark := 0, h_field_len := 0, h_field_start := 0\<rparr>"
  obtain s1 e1 cs p where l: "h11_loop (length buffer) ?p0 (h_cs parser) off (map sint (drop off buffer)) = (s1, e1, cs, p)"
    by (metis prod_cases4)
  show ?thesis
  proof (cases "off \<le> length buffer")
    case True
    have k: "h_cs s1 = h_cs parser \<and> h_nread s1 = 0" using h11_loop_frame [OF l] by simp
    show ?thesis using h11_loop_ctl [OF l] assms l k
      by (auto simp: http_parser_execute_def Let_def split: if_splits)
  qed (use assms in \<open>simp add: http_parser_execute_def Let_def\<close>)
qed

lemma execute_runs:
  assumes "buffer \<noteq> []" and "length buffer < 2 ^ 31" and "off \<le> length buffer"
    and "h_body_start parser \<le> length buffer" and "in_query (h_cs parser) \<longrightarrow> h_query_start parser \<le> off"
    and l: "h11_loop (length buffer) (parser\<lparr>h_nread := 0, h_mark := 0, h_field_len := 0, h_field_start := 0\<rparr>)
      (h_cs parser) off (map sint (drop off buffer)) = (s1, evs, cs, p)"
  shows "http_parser_execute parser buffer off =
      Inr ((if h_cs s1 \<noteq> 0 then s1\<lparr>h_cs := cs\<rparr> else s1)\<lparr>h_nread := p - off\<rparr>, evs, p - off) \<and>
    list_all (slice_ok (length buffer)) evs \<and> off \<le> p \<and> p \<le> length buffer \<and> h_cs s1 = h_cs parser"
proof -
  let ?p0 = "parser\<lparr>h_nread := 0, h_mark := 0, h_field_len := 0, h_field_start := 0\<rparr>"
  let ?xs = "map sint (drop off buffer)"
  have "offsets_ok (length buffer) (in_query (h_cs parser)) (field_closed (h_cs parser)) off ?p0"
    using assms by (simp add: offsets_ok_def)
  from h11_loop_ok [OF this, of ?xs] l assms(3)
  have ok: "list_all (slice_ok (length buffer)) evs" "offsets_ok (length buffer) False False p s1" "h_nread s1 = 0"
    "off \<le> p" "p \<le> length buffer" "h_cs s1 = h_cs parser" by auto
  have "size_to_int (length buffer) = int (length buffer)" "size_to_int off = int off"
    using assms(2,3) by simp_all
  then show ?thesis using l ok assms(1,3)
    by (auto simp: http_parser_execute_def Let_def offsets_ok_def)
qed

section \<open>Properties\<close>

text \<open>A new parser, with what \<open>http_parser_init\<close> leaves alone set to 0.\<close>

definition fresh_parser :: "http_parser" where
  "fresh_parser = http_parser_init \<lparr>h_cs = 0, h_body_start = 0, h_content_len = 0, h_nread = 0, h_mark = 0,
     h_field_start = 0, h_field_len = 0, h_query_start = 0, h_xml_sent = 0, h_json_sent = 0, h_uri_relaxed = 0\<rparr>"

lemma run_request:
  "http_parser_execute fresh_parser [71, 69, 84, 32, 47, 32, 72, 84, 84, 80, 47, 49, 46, 49, 10, 10] 0 =
    Inr (fresh_parser\<lparr>h_cs := 348, h_body_start := 16, h_nread := 16, h_mark := 6, h_field_start := 15\<rparr>,
      [Element Method 0 3, Element Path 4 1, Element Uri 4 1, Element Version 6 8, Element HeaderDone 16 0], 16)"
  by code_simp

lemma run_GE: "http_parser_execute fresh_parser [71, 69] 0 = Inr (fresh_parser\<lparr>h_cs := 175, h_nread := 2\<rparr>, [], 2)"
  by code_simp

lemma run_T: "http_parser_execute (fresh_parser\<lparr>h_cs := 175, h_nread := 2\<rparr>) [84, 32] 0 =
    Inr (fresh_parser\<lparr>h_cs := 3, h_nread := 2\<rparr>, [Element Method 0 1], 2)"
  by code_simp

lemma run_GET: "http_parser_execute fresh_parser [71, 69, 84, 32] 0 =
    Inr (fresh_parser\<lparr>h_cs := 3, h_nread := 4\<rparr>, [Element Method 0 3], 4)"
  by code_simp

lemma run_query: "http_parser_execute fresh_parser [71, 32, 47, 63, 97] 0 =
    Inr (fresh_parser\<lparr>h_cs := 30, h_nread := 5, h_mark := 2, h_query_start := 4\<rparr>, [Element Method 0 1, Element Path 2 1], 5)"
  by code_simp

lemma query_moves: "move h11 False 30 98 = Move [] 30" "move h11 False 30 32 = Move [QueryString, RequestUri] 4"
  by code_simp+

lemma run_query_rest: "http_parser_execute (fresh_parser\<lparr>h_cs := 30, h_nread := 5, h_mark := 2, h_query_start := 4\<rparr>) [98, 32] 0 =
    Inr (fresh_parser\<lparr>h_cs := 4, h_nread := 2, h_query_start := 4\<rparr>,
      [Element Query 4 (2 ^ 64 - 3), Element Uri 0 1], 2)"
  by (simp add: http_parser_execute_def fresh_parser_def http_parser_init_def query_moves LEN_def usub_def)

text \<open>
  C15: A call of \<open>http_parser_execute\<close> on a buffer below 2 GiB that is not empty, at an offset inside it, with a parser
  whose body does not start behind the buffer and, if it is in the middle of a query, whose query does not start
  behind the offset: whatever bytes the buffer has, the call returns, its asserts hold, it consumes no more than
  there is, and every callback gets offsets and lengths inside the buffer. A fresh parser meets the conditions at every
  offset; without the one on the query the callback gets a slice that is not in the buffer.
\<close>

theorem slices_in_bounds:
  assumes "buffer \<noteq> []" and "length buffer < 2 ^ 31" and "off \<le> length buffer"
    and "h_body_start parser \<le> length buffer" and "in_query (h_cs parser) \<longrightarrow> h_query_start parser \<le> off"
  shows "\<exists>s evs n. http_parser_execute parser buffer off = Inr (s, evs, n) \<and>
    list_all (slice_ok (length buffer)) evs \<and> n \<le> length buffer - off"
proof -
  obtain s1 evs cs p where l: "h11_loop (length buffer) (parser\<lparr>h_nread := 0, h_mark := 0, h_field_len := 0, h_field_start := 0\<rparr>)
      (h_cs parser) off (map sint (drop off buffer)) = (s1, evs, cs, p)"
    by (metis prod_cases4)
  show ?thesis using execute_runs [OF assms l] by auto
qed

theorem slices_in_bounds_witness:
  "\<exists>s evs n. http_parser_execute fresh_parser [71, 69, 84, 32] 1 = Inr (s, evs, n) \<and>
    list_all (slice_ok (length [71, 69, 84, 32 :: byte])) evs \<and> n \<le> length [71, 69, 84, 32 :: byte] - 1"
  by (rule slices_in_bounds) (simp_all add: fresh_parser_def http_parser_init_def in_query_def)

text \<open>
  C18: The control state is a function of the characters alone. A parser that is not in its error state gets
  some input in one call, which consumes all of it and neither fails nor finishes, and then the rest in a second call; or
  it gets the whole input in one call. When these calls return, the one call ends in the control state of the second
  of the two and consumes as many characters as both together. (The callbacks differ: a token that is cut is
  reported without its beginning.)
\<close>

theorem chunks_compose:
  assumes "http_parser_execute parser xs 0 = Inr (s1, e1, length xs)" and "xs \<noteq> []" and "ys \<noteq> []"
    and "\<not> http_parser_has_error parser" and "\<not> http_parser_has_error s1" and "\<not> http_parser_is_finished s1"
    and "http_parser_execute s1 ys 0 = Inr (s2, e2, n)"
    and "http_parser_execute parser (xs @ ys) 0 = Inr (s3, e3, m)"
  shows "h_cs s3 = h_cs s2 \<and> m = length xs + n"
proof -
  let ?r = "h_uri_relaxed parser \<noteq> 0"
  note cs = assms(4-6) [unfolded http_parser_has_error_def http_parser_is_finished_def]
  have 1: "h11_ctl ?r (h_cs parser) (map sint xs) = (h_cs s1, length xs)" "h_uri_relaxed s1 = h_uri_relaxed parser"
    using execute_loop [OF assms(1,2)] cs by auto
  have 2: "h11_ctl ?r (h_cs s1) (map sint ys) = (h_cs s2, n)" using execute_loop [OF assms(7,3)] cs 1(2) by auto
  have 3: "h11_ctl ?r (h_cs parser) (map sint xs @ map sint ys) = (h_cs s3, m)"
    using execute_loop [OF assms(8)] assms(2) cs by auto
  show ?thesis using h11_ctl_append [of ?r "h_cs parser" "map sint xs" "h_cs s1" "map sint ys"] 1 2 3 cs by simp
qed

theorem chunks_compose_witness:
  "\<exists>s1 s2 s3. http_parser_execute fresh_parser [71, 69] 0 = Inr (s1, [], 2) \<and> \<not> http_parser_has_error s1 \<and>
    \<not> http_parser_is_finished s1 \<and> http_parser_execute s1 [84, 32] 0 = Inr (s2, [Element Method 0 1], 2) \<and>
    http_parser_execute fresh_parser ([71, 69] @ [84, 32]) 0 = Inr (s3, [Element Method 0 3], 4) \<and>
    h_cs s3 = h_cs s2 \<and> (4 :: nat) = 2 + 2"
proof -
  let ?s1 = "fresh_parser\<lparr>h_cs := 175, h_nread := 2\<rparr>" and ?s2 = "fresh_parser\<lparr>h_cs := 3, h_nread := 2\<rparr>"
    and ?s3 = "fresh_parser\<lparr>h_cs := 3, h_nread := 4\<rparr>"
  have 1: "http_parser_execute fresh_parser [71, 69] 0 = Inr (?s1, [], length [71, 69 :: byte])" using run_GE by simp
  have 3: "http_parser_execute fresh_parser ([71, 69] @ [84, 32]) 0 = Inr (?s3, [Element Method 0 3], 4)" using run_GET by simp
  have s1: "\<not> http_parser_has_error fresh_parser" "\<not> http_parser_has_error ?s1" "\<not> http_parser_is_finished ?s1"
    by (simp_all add: http_parser_has_error_def http_parser_is_finished_def fresh_parser_def http_parser_init_def)
  have "h_cs ?s3 = h_cs ?s2 \<and> 4 = length [71, 69 :: byte] + 2"
    by (rule chunks_compose [OF 1 _ _ s1 run_T 3]) simp_all
  then show ?thesis using 1 3 s1 run_T by (intro exI [of _ ?s1] exI [of _ ?s2] exI [of _ ?s3]) simp
qed

text \<open>
  The callbacks do depend on the cuts, because a call forgets the marks of the call before: of the
  method GET cut after two characters only T is reported, and of the query ab cut after its first
  character the reported offset is that in the first buffer, with a length that has wrapped around.
\<close>

theorem cut_tokens_corrupted:
  "(\<exists>s s'. http_parser_execute fresh_parser [71, 69] 0 = Inr (s, [], 2) \<and>
     http_parser_execute s [84, 32] 0 = Inr (s', [Element Method 0 1], 2)) \<and>
   (\<exists>s s' evs. http_parser_execute fresh_parser [71, 32, 47, 63, 97] 0 = Inr (s, evs, 5) \<and>
     http_parser_execute s [98, 32] 0 = Inr (s', [Element Query 4 (2 ^ 64 - 3), Element Uri 0 1], 2))"
  using run_GE run_T run_query run_query_rest by blast

text \<open>
  A parser that finishes has just consumed the end of a header: an empty line, whose line end and the
  one before it are LF or CR LF, or a NUL.
\<close>

theorem finished_at_header_end:
  assumes "http_parser_execute parser buffer off = Inr (s, evs, n)" and "buffer \<noteq> []" and "h_cs parser = 1"
    and "http_parser_is_finished s"
  shows "header_end (rev (take n (map sint (drop off buffer))))"
proof -
  have "h11_ctl (h_uri_relaxed parser \<noteq> 0) 1 (map sint (drop off buffer)) = (h_cs s, n)"
    using execute_loop [OF assms(1,2)] assms(3) by auto
  from h11_ctl_end [OF this, of "[]"] assms(4) show ?thesis
    by (simp add: came_by_def http_parser_is_finished_def)
qed

theorem finished_at_header_end_example:
  "header_end (rev (take 16 (map sint ([71, 69, 84, 32, 47, 32, 72, 84, 84, 80, 47, 49, 46, 49, 10, 10] :: byte list))))"
  using finished_at_header_end [OF run_request]
  by (simp add: http_parser_is_finished_def fresh_parser_def http_parser_init_def)

end
