(* ===== verification/HttpClient_Table.thy ===== *)
theory HttpClient_Table
  imports Ragel
begin

text \<open>
  The state machine of \<^verbatim>\<open>src/src/http-parser/httpclient_parser.cc\<close>, block by block, in the order of the
  file. The actions are named as in \<^verbatim>\<open>src/include/http-parser/httpclient_parser.rl\<close>; \<open>C_Done n\<close> ends
  with \<open>{p++; cs = n; goto _out;}\<close>.
\<close>

datatype hc_action = C_Mark | C_StartField | C_WriteField | C_StartValue | C_WriteContentLen | C_ConnClose
  | C_WriteValue | C_ReasonPhrase | C_StatusCode | C_HttpVersion | C_ChunkSize | C_Chunked | C_Done int

definition hc_1 :: "hc_action chunk" where
  "hc_1 = (1, 2,
    [(1, False, [(48, 57, Tr 0), (65, 70, Tr 0), (72, 72, Tr 2), (97, 102, Tr 0)]),
     (2, False, [(10, 10, Tr 3), (13, 13, Tr 4), (48, 57, St 2), (59, 59, Tr 6), (65, 70, St 2),
       (97, 102, St 2)])],
    [(0, [C_Mark], 2)])"

definition hc_2 :: "hc_action chunk" where
  "hc_2 = (120, 120,
    [(120, False, [])],
    [(3, [C_ChunkSize, C_Done 120], 120),
     (7, [C_Done 120], 120),
     (9, [C_WriteField, C_StartValue, C_WriteValue, C_Done 120], 120),
     (15, [C_WriteValue, C_Done 120], 120),
     (74, [C_ConnClose, C_Done 120], 120)])"

definition hc_3 :: "hc_action chunk" where
  "hc_3 = (3, 5,
    [(3, False, [(10, 10, Tr 7)]),
     (4, False, [(33, 33, Tr 8), (35, 39, Tr 8), (42, 43, Tr 8), (45, 46, Tr 8), (48, 57, Tr 8),
       (65, 90, Tr 8), (94, 122, Tr 8), (124, 124, Tr 8), (126, 126, Tr 8)]),
     (5, False, [(10, 10, Tr 9), (13, 13, Tr 10), (33, 33, St 5), (35, 39, St 5), (42, 43, St 5),
       (45, 46, St 5), (48, 57, St 5), (59, 59, Tr 12), (61, 61, Tr 13), (65, 90, St 5), (94, 122, St 5),
       (124, 124, St 5), (126, 126, St 5)])],
    [(4, [C_ChunkSize], 3),
     (10, [C_WriteField, C_StartValue, C_WriteValue], 3),
     (16, [C_WriteValue], 3),
     (75, [C_ConnClose], 3),
     (6, [C_ChunkSize], 4),
     (12, [C_WriteField, C_StartValue, C_WriteValue], 4),
     (18, [C_WriteValue], 4),
     (8, [C_StartField], 5)])"

definition hc_4 :: "hc_action chunk" where
  "hc_4 = (6, 15,
    [(6, False, [(33, 33, Tr 14), (35, 39, Tr 14), (42, 43, Tr 14), (45, 46, Tr 14), (48, 57, Tr 14),
       (65, 90, Tr 14), (94, 122, Tr 14), (124, 124, Tr 14), (126, 126, Tr 14)]),
     (7, False, [(10, 10, Tr 15), (13, 13, Tr 16), (33, 33, St 7), (35, 39, St 7), (42, 43, St 7),
       (45, 46, St 7), (48, 57, St 7), (59, 59, Tr 18), (65, 90, St 7), (94, 122, St 7), (124, 124, St 7),
       (126, 126, St 7)]),
     (8, False, [(84, 84, St 9)]),
     (9, False, [(84, 84, St 10)]),
     (10, False, [(80, 80, St 11)]),
     (11, False, [(47, 47, St 12)]),
     (12, False, [(48, 57, St 13)]),
     (13, False, [(46, 46, St 14), (48, 57, St 13)]),
     (14, False, [(48, 57, St 15)]),
     (15, False, [(32, 32, Tr 26), (48, 57, St 15)])],
    [(13, [C_WriteField, C_StartValue], 6),
     (14, [C_StartValue], 7),
     (2, [C_Mark], 8)])"

definition hc_5 :: "hc_action chunk" where
  "hc_5 = (16, 20,
    [(16, False, [(48, 57, Tr 27)]),
     (17, False, [(32, 32, Tr 28), (48, 57, St 17)]),
     (18, False, [((-128), 9, Tr 30), (11, 127, Tr 30)]),
     (19, False, [((-128), 9, St 19), (10, 10, Tr 32), (11, 12, St 19), (13, 13, Tr 33), (14, 127, St 19)]),
     (20, False, [(10, 10, Tr 7), (13, 13, St 3), (33, 33, Tr 35), (35, 39, Tr 35), (42, 43, Tr 35),
       (45, 46, Tr 35), (48, 57, Tr 35), (65, 66, Tr 35), (67, 67, Tr 36), (68, 83, Tr 35), (84, 84, Tr 37),
       (85, 90, Tr 35), (94, 98, Tr 35), (99, 99, Tr 36), (100, 115, Tr 35), (116, 116, Tr 37),
       (117, 122, Tr 35), (124, 124, Tr 35), (126, 126, Tr 35)])],
    [(26, [C_HttpVersion], 16),
     (27, [C_Mark], 17),
     (28, [C_StatusCode], 18),
     (30, [C_Mark], 19),
     (45, [C_WriteValue], 20),
     (32, [C_ReasonPhrase], 20),
     (42, [C_StartValue, C_WriteValue], 20),
     (111, [C_WriteValue, C_Chunked], 20),
     (113, [C_Chunked], 20),
     (158, [C_WriteContentLen, C_WriteValue], 20)])"

definition hc_6 :: "hc_action chunk" where
  "hc_6 = (21, 24,
    [(21, False, [(33, 33, St 21), (35, 39, St 21), (42, 43, St 21), (45, 46, St 21), (48, 57, St 21),
       (58, 58, Tr 39), (65, 90, St 21), (94, 122, St 21), (124, 124, St 21), (126, 126, St 21)]),
     (22, False, [((-128), 8, Tr 40), (9, 9, Tr 41), (10, 10, Tr 42), (11, 12, Tr 41), (13, 13, Tr 43),
       (14, 31, Tr 40), (32, 32, Tr 41), (33, 127, Tr 40)]),
     (23, False, [((-128), 9, St 23), (10, 10, Tr 45), (11, 12, St 23), (13, 13, Tr 46), (14, 127, St 23)]),
     (24, False, [(10, 10, St 20)])],
    [(35, [C_StartField], 21),
     (76, [C_ConnClose, C_StartField], 21),
     (41, [C_StartValue], 22),
     (39, [C_WriteField], 22),
     (40, [C_StartValue], 23),
     (46, [C_WriteValue], 24),
     (33, [C_ReasonPhrase], 24),
     (43, [C_StartValue, C_WriteValue], 24),
     (159, [C_WriteContentLen, C_WriteValue], 24)])"

definition hc_7 :: "hc_action chunk" where
  "hc_7 = (25, 28,
    [(25, False, [(33, 33, St 21), (35, 39, St 21), (42, 43, St 21), (45, 46, St 21), (48, 57, St 21),
       (58, 58, Tr 39), (65, 78, St 21), (79, 79, St 26), (80, 90, St 21), (94, 110, St 21), (111, 111, St 26),
       (112, 122, St 21), (124, 124, St 21), (126, 126, St 21)]),
     (26, False, [(33, 33, St 21), (35, 39, St 21), (42, 43, St 21), (45, 46, St 21), (48, 57, St 21),
       (58, 58, Tr 39), (65, 77, St 21), (78, 78, St 27), (79, 90, St 21), (94, 109, St 21), (110, 110, St 27),
       (111, 122, St 21), (124, 124, St 21), (126, 126, St 21)]),
     (27, False, [(33, 33, St 21), (35, 39, St 21), (42, 43, St 21), (45, 46, St 21), (48, 57, St 21),
       (58, 58, Tr 39), (65, 77, St 21), (78, 78, St 28), (79, 83, St 21), (84, 84, St 101), (85, 90, St 21),
       (94, 109, St 21), (110, 110, St 28), (111, 115, St 21), (116, 116, St 101), (117, 122, St 21),
       (124, 124, St 21), (126, 126, St 21)]),
     (28, False, [(33, 33, St 21), (35, 39, St 21), (42, 43, St 21), (45, 46, St 21), (48, 57, St 21),
       (58, 58, Tr 39), (65, 68, St 21), (69, 69, St 29), (70, 90, St 21), (94, 100, St 21), (101, 101, St 29),
       (102, 122, St 21), (124, 124, St 21), (126, 126, St 21)])],
    [(36, [C_StartField], 25),
     (77, [C_ConnClose, C_StartField], 25)])"

definition hc_8 :: "hc_action chunk" where
  "hc_8 = (29, 33,
    [(29, False, [(33, 33, St 21), (35, 39, St 21), (42, 43, St 21), (45, 46, St 21), (48, 57, St 21),
       (58, 58, Tr 39), (65, 66, St 21), (67, 67, St 30), (68, 90, St 21), (94, 98, St 21), (99, 99, St 30),
       (100, 122, St 21), (124, 124, St 21), (126, 126, St 21)]),
     (30, False, [(33, 33, St 21), (35, 39, St 21), (42, 43, St 21), (45, 46, St 21), (48, 57, St 21),
       (58, 58, Tr 39), (65, 83, St 21), (84, 84, St 31), (85, 90, St 21), (94, 115, St 21), (116, 116, St 31),
       (117, 122, St 21), (124, 124, St 21), (126, 126, St 21)]),
     (31, False, [(33, 33, St 21), (35, 39, St 21), (42, 43, St 21), (45, 46, St 21), (48, 57, St 21),
       (58, 58, Tr 39), (65, 72, St 21), (73, 73, St 32), (74, 90, St 21), (94, 104, St 21), (105, 105, St 32),
       (106, 122, St 21), (124, 124, St 21), (126, 126, St 21)]),
     (32, False, [(33, 33, St 21), (35, 39, St 21), (42, 43, St 21), (45, 46, St 21), (48, 57, St 21),
       (58, 58, Tr 39), (65, 78, St 21), (79, 79, St 33), (80, 90, St 21), (94, 110, St 21), (111, 111, St 33),
       (112, 122, St 21), (124, 124, St 21), (126, 126, St 21)]),
     (33, False, [(33, 33, St 21), (35, 39, St 21), (42, 43, St 21), (45, 46, St 21), (48, 57, St 21),
       (58, 58, Tr 39), (65, 77, St 21), (78, 78, St 34), (79, 90, St 21), (94, 109, St 21), (110, 110, St 34),
       (111, 122, St 21), (124, 124, St 21), (126, 126, St 21)])],
    [])"

definition hc_9 :: "hc_action chunk" where
  "hc_9 = (34, 41,
    [(34, False, [(33, 33, St 21), (35, 39, St 21), (42, 43, St 21), (45, 46, St 21), (48, 57, St 21),
       (58, 58, Tr 58), (65, 90, St 21), (94, 122, St 21), (124, 124, St 21), (126, 126, St 21)]),
     (35, False, [((-128), 8, Tr 40), (9, 9, Tr 59), (10, 10, Tr 60), (11, 12, Tr 59), (13, 13, Tr 61),
       (14, 31, Tr 40), (32, 32, Tr 59), (33, 66, Tr 40), (67, 67, Tr 62), (68, 98, Tr 40), (99, 99, Tr 62),
       (100, 127, Tr 40)]),
     (36, False, [(9, 9, St 37), (10, 10, Tr 64), (11, 12, St 37), (13, 13, St 89), (32, 32, St 37),
       (33, 33, Tr 35), (35, 39, Tr 35), (42, 43, Tr 35), (45, 46, Tr 35), (48, 57, Tr 35), (65, 66, Tr 35),
       (67, 67, Tr 66), (68, 83, Tr 35), (84, 84, Tr 37), (85, 90, Tr 35), (94, 98, Tr 35), (99, 99, Tr 66),
       (100, 115, Tr 35), (116, 116, Tr 37), (117, 122, Tr 35), (124, 124, Tr 35), (126, 126, Tr 35)]),
     (37, False, [(9, 13, St 37), (32, 32, St 37), (67, 67, St 38), (99, 99, St 38)]),
     (38, False, [(76, 76, St 39), (108, 108, St 39)]),
     (39, False, [(79, 79, St 40), (111, 111, St 40)]),
     (40, False, [(83, 83, St 41), (115, 115, St 41)]),
     (41, False, [(69, 69, St 42), (101, 101, St 42)])],
    [(59, [C_StartValue], 35),
     (58, [C_WriteField], 35),
     (60, [C_StartValue, C_WriteValue], 36)])"

definition hc_10 :: "hc_action chunk" where
  "hc_10 = (42, 45,
    [(42, False, [(10, 10, St 43), (13, 13, St 88)]),
     (43, False, [(10, 10, Tr 74), (13, 13, Tr 75), (33, 33, Tr 76), (35, 39, Tr 76), (42, 43, Tr 76),
       (45, 46, Tr 76), (48, 57, Tr 76), (65, 66, Tr 76), (67, 67, Tr 77), (68, 83, Tr 76), (84, 84, Tr 78),
       (85, 90, Tr 76), (94, 98, Tr 76), (99, 99, Tr 77), (100, 115, Tr 76), (116, 116, Tr 78),
       (117, 122, Tr 76), (124, 124, Tr 76), (126, 126, Tr 76)]),
     (44, False, [(33, 33, St 21), (35, 39, St 21), (42, 43, St 21), (45, 46, St 21), (48, 57, St 21),
       (58, 58, Tr 39), (65, 81, St 21), (82, 82, St 45), (83, 90, St 21), (94, 113, St 21), (114, 114, St 45),
       (115, 122, St 21), (124, 124, St 21), (126, 126, St 21)]),
     (45, False, [(33, 33, St 21), (35, 39, St 21), (42, 43, St 21), (45, 46, St 21), (48, 57, St 21),
       (58, 58, Tr 39), (65, 65, St 46), (66, 90, St 21), (94, 96, St 21), (97, 97, St 46), (98, 122, St 21),
       (124, 124, St 21), (126, 126, St 21)])],
    [(136, [C_WriteValue], 43),
     (37, [C_StartField], 44),
     (78, [C_ConnClose, C_StartField], 44)])"

definition hc_11 :: "hc_action chunk" where
  "hc_11 = (46, 50,
    [(46, False, [(33, 33, St 21), (35, 39, St 21), (42, 43, St 21), (45, 46, St 21), (48, 57, St 21),
       (58, 58, Tr 39), (65, 77, St 21), (78, 78, St 47), (79, 90, St 21), (94, 109, St 21), (110, 110, St 47),
       (111, 122, St 21), (124, 124, St 21), (126, 126, St 21)]),
     (47, False, [(33, 33, St 21), (35, 39, St 21), (42, 43, St 21), (45, 46, St 21), (48, 57, St 21),
       (58, 58, Tr 39), (65, 82, St 21), (83, 83, St 48), (84, 90, St 21), (94, 114, St 21), (115, 115, St 48),
       (116, 122, St 21), (124, 124, St 21), (126, 126, St 21)]),
     (48, False, [(33, 33, St 21), (35, 39, St 21), (42, 43, St 21), (45, 46, St 21), (48, 57, St 21),
       (58, 58, Tr 39), (65, 69, St 21), (70, 70, St 49), (71, 90, St 21), (94, 101, St 21), (102, 102, St 49),
       (103, 122, St 21), (124, 124, St 21), (126, 126, St 21)]),
     (49, False, [(33, 33, St 21), (35, 39, St 21), (42, 43, St 21), (45, 46, St 21), (48, 57, St 21),
       (58, 58, Tr 39), (65, 68, St 21), (69, 69, St 50), (70, 90, St 21), (94, 100, St 21), (101, 101, St 50),
       (102, 122, St 21), (124, 124, St 21), (126, 126, St 21)]),
     (50, False, [(33, 33, St 21), (35, 39, St 21), (42, 43, St 21), (45, 46, St 21), (48, 57, St 21),
       (58, 58, Tr 39), (65, 81, St 21), (82, 82, St 51), (83, 90, St 21), (94, 113, St 21), (114, 114, St 51),
       (115, 122, St 21), (124, 124, St 21), (126, 126, St 21)])],
    [])"

definition hc_12 :: "hc_action chunk" where
  "hc_12 = (51, 55,
    [(51, False, [(33, 33, St 21), (35, 39, St 21), (42, 43, St 21), (45, 45, St 52), (46, 46, St 21),
       (48, 57, St 21), (58, 58, Tr 39), (65, 90, St 21), (94, 122, St 21), (124, 124, St 21),
       (126, 126, St 21)]),
     (52, False, [(33, 33, St 21), (35, 39, St 21), (42, 43, St 21), (45, 46, St 21), (48, 57, St 21),
       (58, 58, Tr 39), (65, 68, St 21), (69, 69, St 53), (70, 90, St 21), (94, 100, St 21), (101, 101, St 53),
       (102, 122, St 21), (124, 124, St 21), (126, 126, St 21)]),
     (53, False, [(33, 33, St 21), (35, 39, St 21), (42, 43, St 21), (45, 46, St 21), (48, 57, St 21),
       (58, 58, Tr 39), (65, 77, St 21), (78, 78, St 54), (79, 90, St 21), (94, 109, St 21), (110, 110, St 54),
       (111, 122, St 21), (124, 124, St 21), (126, 126, St 21)]),
     (54, False, [(33, 33, St 21), (35, 39, St 21), (42, 43, St 21), (45, 46, St 21), (48, 57, St 21),
       (58, 58, Tr 39), (65, 66, St 21), (67, 67, St 55), (68, 90, St 21), (94, 98, St 21), (99, 99, St 55),
       (100, 122, St 21), (124, 124, St 21), (126, 126, St 21)]),
     (55, False, [(33, 33, St 21), (35, 39, St 21), (42, 43, St 21), (45, 46, St 21), (48, 57, St 21),
       (58, 58, Tr 39), (65, 78, St 21), (79, 79, St 56), (80, 90, St 21), (94, 110, St 21), (111, 111, St 56),
       (112, 122, St 21), (124, 124, St 21), (126, 126, St 21)])],
    [])"

definition hc_13 :: "hc_action chunk" where
  "hc_13 = (56, 60,
    [(56, False, [(33, 33, St 21), (35, 39, St 21), (42, 43, St 21), (45, 46, St 21), (48, 57, St 21),
       (58, 58, Tr 39), (65, 67, St 21), (68, 68, St 57), (69, 90, St 21), (94, 99, St 21), (100, 100, St 57),
       (101, 122, St 21), (124, 124, St 21), (126, 126, St 21)]),
     (57, False, [(33, 33, St 21), (35, 39, St 21), (42, 43, St 21), (45, 46, St 21), (48, 57, St 21),
       (58, 58, Tr 39), (65, 72, St 21), (73, 73, St 58), (74, 90, St 21), (94, 104, St 21), (105, 105, St 58),
       (106, 122, St 21), (124, 124, St 21), (126, 126, St 21)]),
     (58, False, [(33, 33, St 21), (35, 39, St 21), (42, 43, St 21), (45, 46, St 21), (48, 57, St 21),
       (58, 58, Tr 39), (65, 77, St 21), (78, 78, St 59), (79, 90, St 21), (94, 109, St 21), (110, 110, St 59),
       (111, 122, St 21), (124, 124, St 21), (126, 126, St 21)]),
     (59, False, [(33, 33, St 21), (35, 39, St 21), (42, 43, St 21), (45, 46, St 21), (48, 57, St 21),
       (58, 58, Tr 39), (65, 70, St 21), (71, 71, St 60), (72, 90, St 21), (94, 102, St 21), (103, 103, St 60),
       (104, 122, St 21), (124, 124, St 21), (126, 126, St 21)]),
     (60, False, [(33, 33, St 21), (35, 39, St 21), (42, 43, St 21), (45, 46, St 21), (48, 57, St 21),
       (58, 58, Tr 95), (65, 90, St 21), (94, 122, St 21), (124, 124, St 21), (126, 126, St 21)])],
    [])"

definition hc_14 :: "hc_action chunk" where
  "hc_14 = (61, 69,
    [(61, False, [((-128), 8, Tr 40), (9, 9, Tr 96), (10, 10, Tr 97), (11, 12, Tr 96), (13, 13, Tr 98),
       (14, 31, Tr 40), (32, 32, Tr 96), (33, 66, Tr 40), (67, 67, Tr 99), (68, 98, Tr 40), (99, 99, Tr 99),
       (100, 127, Tr 40)]),
     (62, False, [(9, 9, St 63), (10, 10, Tr 101), (11, 12, St 63), (13, 13, St 72), (32, 32, St 63),
       (33, 33, Tr 35), (35, 39, Tr 35), (42, 43, Tr 35), (45, 46, Tr 35), (48, 57, Tr 35), (65, 66, Tr 35),
       (67, 67, Tr 103), (68, 83, Tr 35), (84, 84, Tr 37), (85, 90, Tr 35), (94, 98, Tr 35), (99, 99, Tr 103),
       (100, 115, Tr 35), (116, 116, Tr 37), (117, 122, Tr 35), (124, 124, Tr 35), (126, 126, Tr 35)]),
     (63, False, [(9, 13, St 63), (32, 32, St 63), (67, 67, Tr 104), (99, 99, Tr 104)]),
     (64, False, [(72, 72, St 65), (104, 104, St 65)]),
     (65, False, [(85, 85, St 66), (117, 117, St 66)]),
     (66, False, [(78, 78, St 67), (110, 110, St 67)]),
     (67, False, [(75, 75, St 68), (107, 107, St 68)]),
     (68, False, [(69, 69, St 69), (101, 101, St 69)]),
     (69, False, [(68, 68, St 70), (100, 100, St 70)])],
    [(96, [C_StartValue], 61),
     (95, [C_WriteField], 61),
     (97, [C_StartValue, C_WriteValue], 62),
     (104, [C_StartValue], 64)])"

definition hc_15 :: "hc_action chunk" where
  "hc_15 = (70, 71,
    [(70, False, [(10, 10, Tr 111), (13, 13, Tr 112)]),
     (71, False, [(10, 10, Tr 113)])],
    [(112, [C_WriteValue], 71)])"

definition hc_16 :: "hc_action chunk" where
  "hc_16 = (121, 121,
    [(121, False, [(9, 13, St 63), (32, 32, St 63), (67, 67, Tr 104), (99, 99, Tr 104)])],
    [(101, [C_Done 121], 121)])"

definition hc_17 :: "hc_action chunk" where
  "hc_17 = (72, 76,
    [(72, False, [(9, 9, St 63), (10, 10, Tr 101), (11, 13, St 63), (32, 32, St 63), (67, 67, Tr 104),
       (99, 99, Tr 104)]),
     (73, False, [(33, 33, St 21), (35, 39, St 21), (42, 43, St 21), (45, 46, St 21), (48, 57, St 21),
       (58, 58, Tr 39), (65, 71, St 21), (72, 72, St 74), (73, 78, St 21), (79, 79, St 26), (80, 90, St 21),
       (94, 103, St 21), (104, 104, St 74), (105, 110, St 21), (111, 111, St 26), (112, 122, St 21),
       (124, 124, St 21), (126, 126, St 21)]),
     (74, False, [(33, 33, St 21), (35, 39, St 21), (42, 43, St 21), (45, 46, St 21), (48, 57, St 21),
       (58, 58, Tr 39), (65, 84, St 21), (85, 85, St 75), (86, 90, St 21), (94, 116, St 21), (117, 117, St 75),
       (118, 122, St 21), (124, 124, St 21), (126, 126, St 21)]),
     (75, False, [(33, 33, St 21), (35, 39, St 21), (42, 43, St 21), (45, 46, St 21), (48, 57, St 21),
       (58, 58, Tr 39), (65, 77, St 21), (78, 78, St 76), (79, 90, St 21), (94, 109, St 21), (110, 110, St 76),
       (111, 122, St 21), (124, 124, St 21), (126, 126, St 21)]),
     (76, False, [(33, 33, St 21), (35, 39, St 21), (42, 43, St 21), (45, 46, St 21), (48, 57, St 21),
       (58, 58, Tr 39), (65, 74, St 21), (75, 75, St 77), (76, 90, St 21), (94, 106, St 21), (107, 107, St 77),
       (108, 122, St 21), (124, 124, St 21), (126, 126, St 21)])],
    [(103, [C_StartValue, C_StartField], 73)])"

definition hc_18 :: "hc_action chunk" where
  "hc_18 = (77, 82,
    [(77, False, [(33, 33, St 21), (35, 39, St 21), (42, 43, St 21), (45, 46, St 21), (48, 57, St 21),
       (58, 58, Tr 39), (65, 68, St 21), (69, 69, St 78), (70, 90, St 21), (94, 100, St 21), (101, 101, St 78),
       (102, 122, St 21), (124, 124, St 21), (126, 126, St 21)]),
     (78, False, [(33, 33, St 21), (35, 39, St 21), (42, 43, St 21), (45, 46, St 21), (48, 57, St 21),
       (58, 58, Tr 39), (65, 67, St 21), (68, 68, St 79), (69, 90, St 21), (94, 99, St 21), (100, 100, St 79),
       (101, 122, St 21), (124, 124, St 21), (126, 126, St 21)]),
     (79, False, [(10, 10, Tr 111), (13, 13, Tr 112), (33, 33, St 21), (35, 39, St 21), (42, 43, St 21),
       (45, 46, St 21), (48, 57, St 21), (58, 58, Tr 39), (65, 90, St 21), (94, 122, St 21), (124, 124, St 21),
       (126, 126, St 21)]),
     (80, False, [(9, 9, St 63), (10, 10, St 62), (11, 13, St 63), (32, 32, St 63), (67, 67, Tr 104),
       (99, 99, Tr 104)]),
     (81, False, [((-128), 9, St 23), (10, 10, Tr 45), (11, 12, St 23), (13, 13, Tr 46), (14, 71, St 23),
       (72, 72, St 82), (73, 103, St 23), (104, 104, St 82), (105, 127, St 23)]),
     (82, False, [((-128), 9, St 23), (10, 10, Tr 45), (11, 12, St 23), (13, 13, Tr 46), (14, 84, St 23),
       (85, 85, St 83), (86, 116, St 23), (117, 117, St 83), (118, 127, St 23)])],
    [(98, [C_StartValue, C_WriteValue], 80),
     (99, [C_StartValue], 81)])"

definition hc_19 :: "hc_action chunk" where
  "hc_19 = (83, 88,
    [(83, False, [((-128), 9, St 23), (10, 10, Tr 45), (11, 12, St 23), (13, 13, Tr 46), (14, 77, St 23),
       (78, 78, St 84), (79, 109, St 23), (110, 110, St 84), (111, 127, St 23)]),
     (84, False, [((-128), 9, St 23), (10, 10, Tr 45), (11, 12, St 23), (13, 13, Tr 46), (14, 74, St 23),
       (75, 75, St 85), (76, 106, St 23), (107, 107, St 85), (108, 127, St 23)]),
     (85, False, [((-128), 9, St 23), (10, 10, Tr 45), (11, 12, St 23), (13, 13, Tr 46), (14, 68, St 23),
       (69, 69, St 86), (70, 100, St 23), (101, 101, St 86), (102, 127, St 23)]),
     (86, False, [((-128), 9, St 23), (10, 10, Tr 45), (11, 12, St 23), (13, 13, Tr 46), (14, 67, St 23),
       (68, 68, St 87), (69, 99, St 23), (100, 100, St 87), (101, 127, St 23)]),
     (87, False, [((-128), 9, St 23), (10, 10, Tr 111), (11, 12, St 23), (13, 13, Tr 112), (14, 127, St 23)]),
     (88, False, [(10, 10, St 43)])],
    [(137, [C_WriteValue], 88)])"

definition hc_20 :: "hc_action chunk" where
  "hc_20 = (122, 122,
    [(122, False, [(9, 13, St 37), (32, 32, St 37), (67, 67, St 38), (99, 99, St 38)])],
    [(64, [C_Done 122], 122)])"

definition hc_21 :: "hc_action chunk" where
  "hc_21 = (89, 93,
    [(89, False, [(9, 9, St 37), (10, 10, Tr 64), (11, 13, St 37), (32, 32, St 37), (67, 67, St 38),
       (99, 99, St 38)]),
     (90, False, [(33, 33, St 21), (35, 39, St 21), (42, 43, St 21), (45, 46, St 21), (48, 57, St 21),
       (58, 58, Tr 39), (65, 75, St 21), (76, 76, St 91), (77, 78, St 21), (79, 79, St 26), (80, 90, St 21),
       (94, 107, St 21), (108, 108, St 91), (109, 110, St 21), (111, 111, St 26), (112, 122, St 21),
       (124, 124, St 21), (126, 126, St 21)]),
     (91, False, [(33, 33, St 21), (35, 39, St 21), (42, 43, St 21), (45, 46, St 21), (48, 57, St 21),
       (58, 58, Tr 39), (65, 78, St 21), (79, 79, St 92), (80, 90, St 21), (94, 110, St 21), (111, 111, St 92),
       (112, 122, St 21), (124, 124, St 21), (126, 126, St 21)]),
     (92, False, [(33, 33, St 21), (35, 39, St 21), (42, 43, St 21), (45, 46, St 21), (48, 57, St 21),
       (58, 58, Tr 39), (65, 82, St 21), (83, 83, St 93), (84, 90, St 21), (94, 114, St 21), (115, 115, St 93),
       (116, 122, St 21), (124, 124, St 21), (126, 126, St 21)]),
     (93, False, [(33, 33, St 21), (35, 39, St 21), (42, 43, St 21), (45, 46, St 21), (48, 57, St 21),
       (58, 58, Tr 39), (65, 68, St 21), (69, 69, St 94), (70, 90, St 21), (94, 100, St 21), (101, 101, St 94),
       (102, 122, St 21), (124, 124, St 21), (126, 126, St 21)])],
    [(66, [C_StartField], 90)])"

definition hc_22 :: "hc_action chunk" where
  "hc_22 = (94, 101,
    [(94, False, [(10, 10, St 43), (13, 13, St 88), (33, 33, St 21), (35, 39, St 21), (42, 43, St 21),
       (45, 46, St 21), (48, 57, St 21), (58, 58, Tr 39), (65, 90, St 21), (94, 122, St 21), (124, 124, St 21),
       (126, 126, St 21)]),
     (95, False, [(9, 9, St 37), (10, 10, St 36), (11, 13, St 37), (32, 32, St 37), (67, 67, St 38),
       (99, 99, St 38)]),
     (96, False, [((-128), 9, St 23), (10, 10, Tr 45), (11, 12, St 23), (13, 13, Tr 46), (14, 75, St 23),
       (76, 76, St 97), (77, 107, St 23), (108, 108, St 97), (109, 127, St 23)]),
     (97, False, [((-128), 9, St 23), (10, 10, Tr 45), (11, 12, St 23), (13, 13, Tr 46), (14, 78, St 23),
       (79, 79, St 98), (80, 110, St 23), (111, 111, St 98), (112, 127, St 23)]),
     (98, False, [((-128), 9, St 23), (10, 10, Tr 45), (11, 12, St 23), (13, 13, Tr 46), (14, 82, St 23),
       (83, 83, St 99), (84, 114, St 23), (115, 115, St 99), (116, 127, St 23)]),
     (99, False, [((-128), 9, St 23), (10, 10, Tr 45), (11, 12, St 23), (13, 13, Tr 46), (14, 68, St 23),
       (69, 69, St 100), (70, 100, St 23), (101, 101, St 100), (102, 127, St 23)]),
     (100, False, [((-128), 9, St 23), (10, 10, Tr 136), (11, 12, St 23), (13, 13, Tr 137),
       (14, 127, St 23)]),
     (101, False, [(33, 33, St 21), (35, 39, St 21), (42, 43, St 21), (45, 46, St 21), (48, 57, St 21),
       (58, 58, Tr 39), (65, 68, St 21), (69, 69, St 102), (70, 90, St 21), (94, 100, St 21),
       (101, 101, St 102), (102, 122, St 21), (124, 124, St 21), (126, 126, St 21)])],
    [(61, [C_StartValue, C_WriteValue], 95),
     (62, [C_StartValue], 96)])"

definition hc_23 :: "hc_action chunk" where
  "hc_23 = (102, 106,
    [(102, False, [(33, 33, St 21), (35, 39, St 21), (42, 43, St 21), (45, 46, St 21), (48, 57, St 21),
       (58, 58, Tr 39), (65, 77, St 21), (78, 78, St 103), (79, 90, St 21), (94, 109, St 21),
       (110, 110, St 103), (111, 122, St 21), (124, 124, St 21), (126, 126, St 21)]),
     (103, False, [(33, 33, St 21), (35, 39, St 21), (42, 43, St 21), (45, 46, St 21), (48, 57, St 21),
       (58, 58, Tr 39), (65, 83, St 21), (84, 84, St 104), (85, 90, St 21), (94, 115, St 21),
       (116, 116, St 104), (117, 122, St 21), (124, 124, St 21), (126, 126, St 21)]),
     (104, False, [(33, 33, St 21), (35, 39, St 21), (42, 43, St 21), (45, 45, St 105), (46, 46, St 21),
       (48, 57, St 21), (58, 58, Tr 39), (65, 90, St 21), (94, 122, St 21), (124, 124, St 21),
       (126, 126, St 21)]),
     (105, False, [(33, 33, St 21), (35, 39, St 21), (42, 43, St 21), (45, 46, St 21), (48, 57, St 21),
       (58, 58, Tr 39), (65, 75, St 21), (76, 76, St 106), (77, 90, St 21), (94, 107, St 21),
       (108, 108, St 106), (109, 122, St 21), (124, 124, St 21), (126, 126, St 21)]),
     (106, False, [(33, 33, St 21), (35, 39, St 21), (42, 43, St 21), (45, 46, St 21), (48, 57, St 21),
       (58, 58, Tr 39), (65, 68, St 21), (69, 69, St 107), (70, 90, St 21), (94, 100, St 21),
       (101, 101, St 107), (102, 122, St 21), (124, 124, St 21), (126, 126, St 21)])],
    [])"

definition hc_24 :: "hc_action chunk" where
  "hc_24 = (107, 111,
    [(107, False, [(33, 33, St 21), (35, 39, St 21), (42, 43, St 21), (45, 46, St 21), (48, 57, St 21),
       (58, 58, Tr 39), (65, 77, St 21), (78, 78, St 108), (79, 90, St 21), (94, 109, St 21),
       (110, 110, St 108), (111, 122, St 21), (124, 124, St 21), (126, 126, St 21)]),
     (108, False, [(33, 33, St 21), (35, 39, St 21), (42, 43, St 21), (45, 46, St 21), (48, 57, St 21),
       (58, 58, Tr 39), (65, 70, St 21), (71, 71, St 109), (72, 90, St 21), (94, 102, St 21),
       (103, 103, St 109), (104, 122, St 21), (124, 124, St 21), (126, 126, St 21)]),
     (109, False, [(33, 33, St 21), (35, 39, St 21), (42, 43, St 21), (45, 46, St 21), (48, 57, St 21),
       (58, 58, Tr 39), (65, 83, St 21), (84, 84, St 110), (85, 90, St 21), (94, 115, St 21),
       (116, 116, St 110), (117, 122, St 21), (124, 124, St 21), (126, 126, St 21)]),
     (110, False, [(33, 33, St 21), (35, 39, St 21), (42, 43, St 21), (45, 46, St 21), (48, 57, St 21),
       (58, 58, Tr 39), (65, 71, St 21), (72, 72, St 111), (73, 90, St 21), (94, 103, St 21),
       (104, 104, St 111), (105, 122, St 21), (124, 124, St 21), (126, 126, St 21)]),
     (111, False, [(33, 33, St 21), (35, 39, St 21), (42, 43, St 21), (45, 46, St 21), (48, 57, St 21),
       (58, 58, Tr 148), (65, 90, St 21), (94, 122, St 21), (124, 124, St 21), (126, 126, St 21)])],
    [])"

definition hc_25 :: "hc_action chunk" where
  "hc_25 = (112, 115,
    [(112, False, [((-128), 8, Tr 40), (9, 9, Tr 149), (10, 10, Tr 150), (11, 12, Tr 149), (13, 13, Tr 151),
       (14, 31, Tr 40), (32, 32, Tr 149), (33, 47, Tr 40), (48, 57, Tr 152), (58, 127, Tr 40)]),
     (113, False, [(9, 9, St 114), (10, 10, Tr 154), (11, 12, St 114), (13, 13, St 116), (32, 32, St 114),
       (33, 33, Tr 35), (35, 39, Tr 35), (42, 43, Tr 35), (45, 46, Tr 35), (48, 57, Tr 156), (65, 66, Tr 35),
       (67, 67, Tr 36), (68, 83, Tr 35), (84, 84, Tr 37), (85, 90, Tr 35), (94, 98, Tr 35), (99, 99, Tr 36),
       (100, 115, Tr 35), (116, 116, Tr 37), (117, 122, Tr 35), (124, 124, Tr 35), (126, 126, Tr 35)]),
     (114, False, [(9, 13, St 114), (32, 32, St 114), (48, 57, Tr 157)]),
     (115, False, [(10, 10, Tr 158), (13, 13, Tr 159), (48, 57, St 115)])],
    [(149, [C_StartValue], 112),
     (148, [C_WriteField], 112),
     (150, [C_StartValue, C_WriteValue], 113),
     (157, [C_StartValue], 115)])"

definition hc_26 :: "hc_action chunk" where
  "hc_26 = (123, 123,
    [(123, False, [(9, 13, St 114), (32, 32, St 114), (48, 57, Tr 157)])],
    [(154, [C_Done 123], 123)])"

definition hc_27 :: "hc_action chunk" where
  "hc_27 = (116, 119,
    [(116, False, [(9, 9, St 114), (10, 10, Tr 154), (11, 13, St 114), (32, 32, St 114), (48, 57, Tr 157)]),
     (117, False, [(10, 10, Tr 158), (13, 13, Tr 159), (33, 33, St 21), (35, 39, St 21), (42, 43, St 21),
       (45, 46, St 21), (48, 57, St 117), (58, 58, Tr 39), (65, 90, St 21), (94, 122, St 21),
       (124, 124, St 21), (126, 126, St 21)]),
     (118, False, [(9, 9, St 114), (10, 10, St 113), (11, 13, St 114), (32, 32, St 114), (48, 57, Tr 157)]),
     (119, False, [((-128), 9, St 23), (10, 10, Tr 158), (11, 12, St 23), (13, 13, Tr 159), (14, 47, St 23),
       (48, 57, St 119), (58, 127, St 23)])],
    [(156, [C_StartValue, C_StartField], 117),
     (151, [C_StartValue, C_WriteValue], 118),
     (152, [C_StartValue], 119)])"

text \<open>The whole machine, and its transitions in one list.\<close>

definition hc :: "hc_action chunk list" where
  "hc = [hc_1, hc_2, hc_3, hc_4, hc_5, hc_6, hc_7, hc_8, hc_9, hc_10, hc_11, hc_12, hc_13, hc_14, hc_15,
     hc_16, hc_17, hc_18, hc_19, hc_20, hc_21, hc_22, hc_23, hc_24, hc_25, hc_26, hc_27]"

definition hc_trs :: "(int \<times> hc_action list \<times> int) list" where
  "hc_trs = [(0, [C_Mark], 2),
     (3, [C_ChunkSize, C_Done 120], 120),
     (7, [C_Done 120], 120),
     (9, [C_WriteField, C_StartValue, C_WriteValue, C_Done 120], 120),
     (15, [C_WriteValue, C_Done 120], 120),
     (74, [C_ConnClose, C_Done 120], 120),
     (4, [C_ChunkSize], 3),
     (10, [C_WriteField, C_StartValue, C_WriteValue], 3),
     (16, [C_WriteValue], 3),
     (75, [C_ConnClose], 3),
     (6, [C_ChunkSize], 4),
     (12, [C_WriteField, C_StartValue, C_WriteValue], 4),
     (18, [C_WriteValue], 4),
     (8, [C_StartField], 5),
     (13, [C_WriteField, C_StartValue], 6),
     (14, [C_StartValue], 7),
     (2, [C_Mark], 8),
     (26, [C_HttpVersion], 16),
     (27, [C_Mark], 17),
     (28, [C_StatusCode], 18),
     (30, [C_Mark], 19),
     (45, [C_WriteValue], 20),
     (32, [C_ReasonPhrase], 20),
     (42, [C_StartValue, C_WriteValue], 20),
     (111, [C_WriteValue, C_Chunked], 20),
     (113, [C_Chunked], 20),
     (158, [C_WriteContentLen, C_WriteValue], 20),
     (35, [C_StartField], 21),
     (76, [C_ConnClose, C_StartField], 21),
     (41, [C_StartValue], 22),
     (39, [C_WriteField], 22),
     (40, [C_StartValue], 23),
     (46, [C_WriteValue], 24),
     (33, [C_ReasonPhrase], 24),
     (43, [C_StartValue, C_WriteValue], 24),
     (159, [C_WriteContentLen, C_WriteValue], 24),
     (36, [C_StartField], 25),
     (77, [C_ConnClose, C_StartField], 25),
     (59, [C_StartValue], 35),
     (58, [C_WriteField], 35),
     (60, [C_StartValue, C_WriteValue], 36),
     (136, [C_WriteValue], 43),
     (37, [C_StartField], 44),
     (78, [C_ConnClose, C_StartField], 44),
     (96, [C_StartValue], 61),
     (95, [C_WriteField], 61),
     (97, [C_StartValue, C_WriteValue], 62),
     (104, [C_StartValue], 64),
     (112, [C_WriteValue], 71),
     (101, [C_Done 121], 121),
     (103, [C_StartValue, C_StartField], 73),
     (98, [C_StartValue, C_WriteValue], 80),
     (99, [C_StartValue], 81),
     (137, [C_WriteValue], 88),
     (64, [C_Done 122], 122),
     (66, [C_StartField], 90),
     (61, [C_StartValue, C_WriteValue], 95),
     (62, [C_StartValue], 96),
     (149, [C_StartValue], 112),
     (148, [C_WriteField], 112),
     (150, [C_StartValue, C_WriteValue], 113),
     (157, [C_StartValue], 115),
     (154, [C_Done 123], 123),
     (156, [C_StartValue, C_StartField], 117),
     (151, [C_StartValue, C_WriteValue], 118),
     (152, [C_StartValue], 119)]"

lemmas hc_defs =
  hc_def hc_1_def hc_2_def hc_3_def hc_4_def hc_5_def hc_6_def hc_7_def hc_8_def hc_9_def hc_10_def
  hc_11_def hc_12_def hc_13_def hc_14_def hc_15_def hc_16_def hc_17_def hc_18_def hc_19_def hc_20_def
  hc_21_def hc_22_def hc_23_def hc_24_def hc_25_def hc_26_def hc_27_def

end
