(* ===== verification/CString.thy ===== *)
theory CString
  imports Prelude
begin

text \<open>
  The C library functions on strings that the code calls: \<open>strtol\<close>, \<open>atoi\<close>, \<open>strcasecmp\<close>, \<open>strncmp\<close>
  and the decimal output of numbers. A string is the list of its bytes; a \<open>char*\<close> is the rest of its
  buffer from there, and the terminating zero is the end of the list, or a zero in it.
\<close>

section \<open>Strings\<close>

type_synonym str = "byte list"

text \<open>A string literal.\<close>

definition lit :: "string \<Rightarrow> str" where
  "lit s = map of_char s"

definition cstr :: "str \<Rightarrow> str" where
  "cstr s = takeWhile (\<lambda>c. c \<noteq> 0) s"

section \<open>Numbers\<close>

definition isspace :: "byte \<Rightarrow> bool" where
  "isspace c \<longleftrightarrow> c = 32 \<or> 9 \<le> c \<and> c \<le> 13"

definition digit_of :: "nat \<Rightarrow> byte \<Rightarrow> nat option" where
  "digit_of base c =
     (let v = (if 48 \<le> c \<and> c \<le> 57 then unat c - 48 else if 97 \<le> c \<and> c \<le> 122 then unat c - 87
               else if 65 \<le> c \<and> c \<le> 90 then unat c - 55 else base)
      in if v < base then Some v else None)"

fun digits_val :: "nat \<Rightarrow> nat \<Rightarrow> str \<Rightarrow> nat" where
  "digits_val base acc [] = acc"
| "digits_val base acc (c # s) =
     (case digit_of base c of None \<Rightarrow> acc | Some d \<Rightarrow> digits_val base (acc * base + d) s)"

text \<open>\<open>strtol(s, NULL, base)\<close> for the bases 10 and 16; a \<open>long\<close> has 64 bits and the result saturates.\<close>

definition strtol :: "nat \<Rightarrow> str \<Rightarrow> int" where
  "strtol base s =
     (let s1 = dropWhile isspace s;
          neg = (s1 \<noteq> [] \<and> hd s1 = 45);
          s2 = (if s1 \<noteq> [] \<and> (hd s1 = 45 \<or> hd s1 = 43) then tl s1 else s1);
          s3 = (if base = 16 then
                  (case s2 of a # b # c # r \<Rightarrow>
                     if a = 48 \<and> (b = 120 \<or> b = 88) \<and> digit_of 16 c \<noteq> None then c # r else s2
                   | _ \<Rightarrow> s2) else s2);
          v = int (digits_val base 0 s3)
      in if neg then max (- v) (- (2 ^ 63)) else min v (2 ^ 63 - 1))"

definition atoi :: "str \<Rightarrow> int" where
  "atoi s = signed_take_bit 31 (strtol 10 s)"

text \<open>The decimal digits that \<open><<\<close> and \<open>std::to_string\<close> write.\<close>

fun dec :: "nat \<Rightarrow> str" where
  "dec n = (if n < 10 then [of_nat (48 + n)] else dec (n div 10) @ [of_nat (48 + n mod 10)])"

declare dec.simps [simp del]

definition dec_int :: "int \<Rightarrow> str" where
  "dec_int i = (if i < 0 then lit ''-'' @ dec (nat (- i)) else dec (nat i))"

definition is_digit :: "byte \<Rightarrow> bool" where
  "is_digit c \<longleftrightarrow> 48 \<le> c \<and> c \<le> 57"

lemma digit_byte: "d < 10 \<Longrightarrow> is_digit (of_nat (48 + d)) \<and> digit_of 10 (of_nat (48 + d)) = Some d"
proof -
  assume d: "d < 10"
  then have u: "unat (of_nat (48 + d) :: byte) = 48 + d" by (simp add: unat_of_nat del: of_nat_add)
  show ?thesis using d by (simp add: is_digit_def digit_of_def word_le_nat_alt u Let_def del: of_nat_add)
qed

lemma dec_digits: "\<forall>c\<in>set (dec n). is_digit c"
proof (induction n rule: dec.induct)
  case (1 n)
  show ?case
  proof (cases "n < 10")
    case True
    then show ?thesis using digit_byte [of n] by (simp add: dec.simps)
  next
    case False
    then show ?thesis using 1 digit_byte [of "n mod 10"] by (subst dec.simps) auto
  qed
qed

lemma dec_not_Nil [simp]: "dec n \<noteq> []"
  by (subst dec.simps) simp

lemma digits_val_append:
  "\<forall>c\<in>set xs. digit_of b c \<noteq> None \<Longrightarrow> digits_val b acc (xs @ ys) = digits_val b (digits_val b acc xs) ys"
  by (induction xs arbitrary: acc) (auto split: option.splits)

lemma is_digit_digit_of: "is_digit c \<Longrightarrow> digit_of 10 c \<noteq> None"
  by (auto simp: is_digit_def digit_of_def word_le_nat_alt Let_def)

lemma digits_val_dec: "digits_val 10 0 (dec n) = n"
proof (induction n rule: dec.induct)
  case (1 n)
  show ?case
  proof (cases "n < 10")
    case True
    then show ?thesis using digit_byte [of n] by (simp add: dec.simps)
  next
    case False
    have "digits_val 10 0 (dec (n div 10) @ [of_nat (48 + n mod 10)]) =
        digits_val 10 (digits_val 10 0 (dec (n div 10))) [of_nat (48 + n mod 10)]"
      by (rule digits_val_append) (use dec_digits is_digit_digit_of in blast)
    also have "\<dots> = n" using 1 [OF False] digit_byte [of "n mod 10"] by simp
    finally show ?thesis using False by (subst dec.simps) simp
  qed
qed

text \<open>Reading a decimal number back, whatever follows it, if that is no digit.\<close>

lemma strtol_dec:
  assumes "int n < 2 ^ 63" and "rest = [] \<or> digit_of 10 (hd rest) = None"
  shows "strtol 10 (dec n @ rest) = int n"
proof -
  obtain c s where d: "dec n = c # s" by (cases "dec n") auto
  then have c: "is_digit c" using dec_digits [of n] by simp
  then have h: "\<not> isspace c" "c \<noteq> 45" "c \<noteq> 43"
    by (auto simp: is_digit_def isspace_def word_le_nat_alt word_unat_eq_iff)
  have "digits_val 10 0 (dec n @ rest) = digits_val 10 n rest"
    using digits_val_append [of "dec n" 10 0 rest] dec_digits is_digit_digit_of digits_val_dec by metis
  also have "\<dots> = n" using assms(2) by (cases rest) auto
  finally have "digits_val 10 0 (c # s @ rest) = n" using d by simp
  then show ?thesis using assms(1) h d by (simp add: strtol_def Let_def del: digits_val.simps)
qed

lemma atoi_dec:
  assumes "int n < 2 ^ 31" and "rest = [] \<or> digit_of 10 (hd rest) = None"
  shows "atoi (dec n @ rest) = int n"
proof -
  have "strtol 10 (dec n @ rest) = int n" using assms by (intro strtol_dec) auto
  then show ?thesis using assms(1) unfolding atoi_def by (simp add: signed_take_bit_int_eq_self)
qed

section \<open>Comparison\<close>

definition tolower :: "byte \<Rightarrow> byte" where
  "tolower c = (if 65 \<le> c \<and> c \<le> 90 then c + 32 else c)"

fun lex_less :: "str \<Rightarrow> str \<Rightarrow> bool" where
  "lex_less s [] = False"
| "lex_less [] (d # t) = True"
| "lex_less (c # s) (d # t) = (c < d \<or> c = d \<and> lex_less s t)"

text \<open>\<open>strcasecmp(a, b) < 0\<close> and \<open>== 0\<close>, \<open>strncmp(a, b, n) == 0\<close>.\<close>

definition casecmp_less :: "str \<Rightarrow> str \<Rightarrow> bool" where
  "casecmp_less a b = lex_less (map tolower (cstr a)) (map tolower (cstr b))"

definition casecmp_eq :: "str \<Rightarrow> str \<Rightarrow> bool" where
  "casecmp_eq a b \<longleftrightarrow> map tolower (cstr a) = map tolower (cstr b)"

definition strncmp_eq :: "str \<Rightarrow> str \<Rightarrow> nat \<Rightarrow> bool" where
  "strncmp_eq a b n \<longleftrightarrow> take n (cstr a @ [0]) = take n (cstr b @ [0])"

lemma lex_less_irrefl: "\<not> lex_less s s"
  by (induction s) auto

lemma lex_less_trans: "lex_less a b \<Longrightarrow> lex_less b c \<Longrightarrow> lex_less a c"
proof (induction a b arbitrary: c rule: lex_less.induct)
  case (2 d t)
  then show ?case by (cases c) auto
next
  case (3 x s d t)
  then show ?case by (cases c) auto
qed auto

lemma lex_less_linear: "lex_less a b \<or> a = b \<or> lex_less b a"
proof (induction a b rule: lex_less.induct)
  case (1 s)
  then show ?case by (cases s) auto
next
  case (3 x s d t)
  then show ?case using linorder_less_linear [of x d] by auto
qed simp

end
