(* ===== verification/HttpClient.thy ===== *)
theory HttpClient
  imports HttpClient_Table CString
begin

text \<open>
  The response parser of \<^verbatim>\<open>src/src/http-parser/httpclient_parser.cc\<close> around its state machine. Pointers into
  the buffer are offsets; all callbacks are set, as \<open>HttpResponseParser\<close> sets them.
\<close>

record httpclient_parser =
  c_cs :: int
  c_body_start :: nat
  c_content_len :: int
  c_status :: int
  c_chunked :: int
  c_chunks_done :: int
  c_close :: int
  c_nread :: nat
  c_mark :: nat
  c_field_start :: nat
  c_field_len :: nat

datatype celement = ReasonPhrase | StatusCode | ResponseVersion | ChunkSizeOf | LastChunk | ResponseDone

text \<open>A callback: the element with its offset and length, or a field with those of name and value.\<close>

datatype cevent = CElement celement nat nat | CField nat nat nat nat

datatype hc_error = HcAssert

definition httpclient_parser_init :: "httpclient_parser \<Rightarrow> httpclient_parser" where
  "httpclient_parser_init parser = parser\<lparr>c_cs := 1, c_body_start := 0, c_content_len := -1, c_chunked := 0,
     c_chunks_done := 0, c_mark := 0, c_nread := 0, c_field_len := 0, c_field_start := 0, c_close := 0\<rparr>"

section \<open>Actions\<close>

definition c_LEN :: "nat \<Rightarrow> nat \<Rightarrow> nat" where
  "c_LEN at fpc = usub fpc at"

text \<open>\<open>strtol\<close> at the mark, stored in an \<open>int\<close>.\<close>

definition int_at :: "nat \<Rightarrow> byte list \<Rightarrow> nat \<Rightarrow> int" where
  "int_at base buf m = signed_take_bit 31 (strtol base (drop m buf))"

fun hc_act :: "byte list \<Rightarrow> nat \<Rightarrow> hc_action \<Rightarrow> httpclient_parser \<Rightarrow> httpclient_parser \<times> cevent list" where
  "hc_act buf p C_Mark s = (s\<lparr>c_mark := p\<rparr>, [])"
| "hc_act buf p C_StartField s = (s\<lparr>c_field_start := p\<rparr>, [])"
| "hc_act buf p C_WriteField s = (s\<lparr>c_field_len := c_LEN (c_field_start s) p\<rparr>, [])"
| "hc_act buf p C_StartValue s = (s\<lparr>c_mark := p\<rparr>, [])"
| "hc_act buf p C_WriteContentLen s = (s\<lparr>c_content_len := int_at 10 buf (c_mark s)\<rparr>, [])"
| "hc_act buf p C_ConnClose s = (s\<lparr>c_close := 1\<rparr>, [])"
| "hc_act buf p C_WriteValue s =
     (s, [CField (c_field_start s) (c_field_len s) (c_mark s) (c_LEN (c_mark s) p)])"
| "hc_act buf p C_ReasonPhrase s = (s, [CElement ReasonPhrase (c_mark s) (c_LEN (c_mark s) p)])"
| "hc_act buf p C_StatusCode s =
     (s\<lparr>c_status := int_at 10 buf (c_mark s)\<rparr>, [CElement StatusCode (c_mark s) (c_LEN (c_mark s) p)])"
| "hc_act buf p C_HttpVersion s = (s, [CElement ResponseVersion (c_mark s) (c_LEN (c_mark s) p)])"
| "hc_act buf p C_ChunkSize s =
     (let n = int_at 16 buf (c_mark s) in
      (s\<lparr>c_chunked := 1, c_content_len := n, c_chunks_done := (if n \<le> 0 then 1 else 0)\<rparr>,
       [CElement (if n \<le> 0 then LastChunk else ChunkSizeOf) (c_mark s) (c_LEN (c_mark s) p)]))"
| "hc_act buf p C_Chunked s = (s\<lparr>c_chunked := 1\<rparr>, [])"
| "hc_act buf p (C_Done n) s =
     (s\<lparr>c_body_start := p + 1\<rparr>, [CElement ResponseDone (p + 1) (length buf - p - 1)])"

fun hc_acts :: "byte list \<Rightarrow> nat \<Rightarrow> hc_action list \<Rightarrow> httpclient_parser \<Rightarrow>
    httpclient_parser \<times> cevent list \<times> int option" where
  "hc_acts buf p [] s = (s, [], None)"
| "hc_acts buf p (a # as) s =
     (let (s1, ev) = hc_act buf p a s in
      case a of C_Done n \<Rightarrow> (s1, ev, Some n)
      | _ \<Rightarrow> (let (s2, evs, r) = hc_acts buf p as s1 in (s2, ev @ evs, r)))"

section \<open>Execution\<close>

fun hc_loop :: "byte list \<Rightarrow> httpclient_parser \<Rightarrow> int \<Rightarrow> nat \<Rightarrow> int list \<Rightarrow>
    httpclient_parser \<times> cevent list \<times> int \<times> nat" where
  "hc_loop buf s cs p [] = (s, [], cs, p)"
| "hc_loop buf s cs p (c # rest) =
     (case move hc False cs c of
        NoState \<Rightarrow> (s, [], 2, p)
      | Reject \<Rightarrow> (s, [], 0, p)
      | Move as t \<Rightarrow>
          (let (s1, evs, r) = hc_acts buf p as s in
           case r of Some n \<Rightarrow> (s1, evs, n, Suc p)
           | None \<Rightarrow> (let (s2, evs2, cs2, p2) = hc_loop buf s1 t (Suc p) rest in (s2, evs @ evs2, cs2, p2))))"

text \<open>\<open>beyond\<close> is the character behind the buffer; the result is an \<open>int\<close>, -1 for a failed \<open>check\<close>.\<close>

definition httpclient_parser_execute ::
    "httpclient_parser \<Rightarrow> byte list \<Rightarrow> byte \<Rightarrow> nat \<Rightarrow> hc_error + httpclient_parser \<times> cevent list \<times> int" where
  "httpclient_parser_execute parser0 buffer beyond off =
     (let len = length buffer;
          parser = parser0\<lparr>c_nread := 0, c_mark := 0, c_field_len := 0, c_field_start := 0\<rparr> in
      if \<not> off \<le> len then Inl HcAssert
      else if beyond \<noteq> 0 then Inl HcAssert
      else if int (len - off) \<noteq> size_to_int len - size_to_int off then Inl HcAssert
      else
        let (s, evs, cs, p) = hc_loop buffer parser (c_cs parser) off (map sint (drop off buffer));
            s1 = s\<lparr>c_cs := cs, c_nread := c_nread s + (p - off)\<rparr>
        in if c_nread s1 \<le> len \<and> c_body_start s1 \<le> len
           then Inr (s1, evs, if c_mark s1 < len \<and> c_field_len s1 \<le> len \<and> c_field_start s1 < len
                              then size_to_int (c_nread s1) else -1)
           else Inl HcAssert)"

definition httpclient_parser_has_error :: "httpclient_parser \<Rightarrow> bool" where
  "httpclient_parser_has_error parser \<longleftrightarrow> c_cs parser = 0"

definition httpclient_parser_is_finished :: "httpclient_parser \<Rightarrow> bool" where
  "httpclient_parser_is_finished parser \<longleftrightarrow> c_cs parser = 120"

definition httpclient_parser_finish :: "httpclient_parser \<Rightarrow> int" where
  "httpclient_parser_finish parser =
     (if httpclient_parser_has_error parser then -1
      else if httpclient_parser_is_finished parser then 1 else 0)"

end
