(* ===== verification/Uri_Table.thy ===== *)
theory Uri_Table
  imports Ragel
begin

text \<open>
  The state machine of \<^verbatim>\<open>src/src/uri.cc\<close>, block by block, in the order of the file. The actions are
  named as in \<^verbatim>\<open>src/include/uri.rl\<close>.
\<close>

datatype uri_action = MarkU | MarkH | SaveScheme | SavePort | SaveUserinfo | SaveHost | SavePath
  | SaveQuery | SaveFragment

definition uri_1 :: "uri_action chunk" where
  "uri_1 = (451, 452,
    [(451, False, [((-128), (-1), St 452), (33, 33, St 452), (35, 35, St 453), (36, 36, St 452),
       (37, 37, St 3), (38, 46, St 452), (47, 47, St 458), (48, 57, St 452), (59, 59, St 452),
       (61, 61, St 452), (63, 63, St 456), (64, 64, St 452), (65, 90, Tr 461), (95, 95, St 452),
       (97, 122, Tr 461), (126, 126, St 452)]),
     (452, False, [((-128), (-1), St 452), (33, 33, St 452), (35, 35, St 453), (36, 36, St 452),
       (37, 37, St 3), (38, 46, St 452), (47, 47, St 455), (48, 57, St 452), (59, 59, St 452),
       (61, 61, St 452), (63, 63, St 456), (64, 90, St 452), (95, 95, St 452), (97, 122, St 452),
       (126, 126, St 452)])],
    [])"

definition uri_2 :: "uri_action chunk" where
  "uri_2 = (453, 453,
    [(453, False, [((-128), (-1), Tr 462), (33, 33, Tr 462), (36, 36, Tr 462), (37, 37, Tr 463),
       (38, 59, Tr 462), (61, 61, Tr 462), (63, 90, Tr 462), (95, 95, Tr 462), (97, 122, Tr 462),
       (126, 126, Tr 462)])],
    [(467, [MarkU, SaveQuery], 453),
     (469, [SaveQuery], 453),
     (474, [MarkH, SaveHost], 453),
     (485, [SaveHost], 453),
     (489, [MarkH, SavePort], 453),
     (493, [SavePort], 453),
     (548, [MarkH, SaveHost, SavePath], 453),
     (559, [SaveHost, MarkH, SavePath], 453),
     (563, [SavePath], 453),
     (566, [MarkH, SavePort, SavePath], 453),
     (570, [SavePort, MarkH, SavePath], 453)])"

definition uri_3 :: "uri_action chunk" where
  "uri_3 = (454, 454,
    [(454, False, [((-128), (-1), St 454), (33, 33, St 454), (36, 36, St 454), (37, 37, St 1),
       (38, 59, St 454), (61, 61, St 454), (63, 90, St 454), (95, 95, St 454), (97, 122, St 454),
       (126, 126, St 454)])],
    [(462, [MarkU], 454)])"

definition uri_4 :: "uri_action chunk" where
  "uri_4 = (1, 4,
    [(1, False, [(48, 57, St 2), (65, 70, St 2), (97, 102, St 2)]),
     (2, False, [(48, 57, St 454), (65, 70, St 454), (97, 102, St 454)]),
     (3, False, [(48, 57, St 4), (65, 70, St 4), (97, 102, St 4)]),
     (4, False, [(48, 57, St 452), (65, 70, St 452), (97, 102, St 452)])],
    [(463, [MarkU], 1)])"

definition uri_5 :: "uri_action chunk" where
  "uri_5 = (455, 455,
    [(455, False, [((-128), (-1), St 455), (33, 33, St 455), (35, 35, St 453), (36, 36, St 455),
       (37, 37, St 5), (38, 59, St 455), (61, 61, St 455), (63, 63, St 456), (64, 90, St 455),
       (95, 95, St 455), (97, 122, St 455), (126, 126, St 455)])],
    [(476, [MarkH, SaveHost], 455),
     (486, [SaveHost], 455),
     (490, [MarkH, SavePort], 455),
     (494, [SavePort], 455)])"

definition uri_6 :: "uri_action chunk" where
  "uri_6 = (5, 6,
    [(5, False, [(48, 57, St 6), (65, 70, St 6), (97, 102, St 6)]),
     (6, False, [(48, 57, St 455), (65, 70, St 455), (97, 102, St 455)])],
    [])"

definition uri_7 :: "uri_action chunk" where
  "uri_7 = (456, 456,
    [(456, False, [((-128), (-1), Tr 466), (33, 33, Tr 466), (35, 35, Tr 467), (36, 36, Tr 466),
       (37, 37, Tr 468), (38, 59, Tr 466), (61, 61, Tr 466), (63, 90, Tr 466), (95, 95, Tr 466),
       (97, 122, Tr 466), (126, 126, Tr 466)])],
    [(482, [MarkH, SaveHost], 456),
     (488, [SaveHost], 456),
     (492, [MarkH, SavePort], 456),
     (496, [SavePort], 456),
     (556, [MarkH, SaveHost, SavePath], 456),
     (562, [SaveHost, MarkH, SavePath], 456),
     (565, [SavePath], 456),
     (569, [MarkH, SavePort, SavePath], 456),
     (573, [SavePort, MarkH, SavePath], 456)])"

definition uri_8 :: "uri_action chunk" where
  "uri_8 = (457, 457,
    [(457, False, [((-128), (-1), St 457), (33, 33, St 457), (35, 35, Tr 469), (36, 36, St 457),
       (37, 37, St 7), (38, 59, St 457), (61, 61, St 457), (63, 90, St 457), (95, 95, St 457),
       (97, 122, St 457), (126, 126, St 457)])],
    [(466, [MarkU], 457)])"

definition uri_9 :: "uri_action chunk" where
  "uri_9 = (7, 8,
    [(7, False, [(48, 57, St 8), (65, 70, St 8), (97, 102, St 8)]),
     (8, False, [(48, 57, St 457), (65, 70, St 457), (97, 102, St 457)])],
    [(468, [MarkU], 7)])"

definition uri_10 :: "uri_action chunk" where
  "uri_10 = (458, 459,
    [(458, False, [((-128), (-1), St 455), (33, 33, St 455), (35, 35, St 453), (36, 36, St 455),
       (37, 37, St 5), (38, 46, St 455), (47, 47, St 459), (48, 59, St 455), (61, 61, St 455),
       (63, 63, St 456), (64, 90, St 455), (95, 95, St 455), (97, 122, St 455), (126, 126, St 455)]),
     (459, False, [(2, 2, Tr 472), (33, 33, Tr 473), (35, 35, Tr 474), (36, 36, Tr 473), (37, 37, Tr 475),
       (38, 46, Tr 473), (47, 47, Tr 476), (48, 48, Tr 477), (49, 49, Tr 478), (50, 50, Tr 479),
       (51, 57, Tr 480), (58, 58, Tr 481), (59, 59, Tr 473), (61, 61, Tr 473), (63, 63, Tr 482),
       (64, 64, Tr 483), (65, 90, Tr 473), (91, 91, Tr 484), (95, 95, Tr 473), (97, 122, Tr 473),
       (126, 126, Tr 473)])],
    [])"

definition uri_11 :: "uri_action chunk" where
  "uri_11 = (9, 22,
    [(9, False, [(48, 52, St 10)]),
     (10, False, [(48, 57, St 11)]),
     (11, False, [(46, 46, St 12)]),
     (12, False, [(2, 2, St 13), (48, 48, St 15), (49, 49, St 27), (50, 50, St 29), (51, 57, St 28)]),
     (13, False, [(48, 52, St 14)]),
     (14, False, [(48, 57, St 15)]),
     (15, False, [(46, 46, St 16)]),
     (16, False, [(2, 2, St 17), (48, 48, St 19), (49, 49, St 23), (50, 50, St 25), (51, 57, St 24)]),
     (17, False, [(48, 52, St 18)]),
     (18, False, [(48, 57, St 19)]),
     (19, False, [(46, 46, St 20)]),
     (20, False, [(2, 2, St 21), (48, 48, St 460), (49, 49, St 463), (50, 50, St 465), (51, 57, St 464)]),
     (21, False, [(48, 52, St 22)]),
     (22, False, [(48, 57, St 460)])],
    [(472, [MarkH], 9)])"

definition uri_12 :: "uri_action chunk" where
  "uri_12 = (460, 466,
    [(460, False, [(35, 35, Tr 485), (47, 47, Tr 486), (58, 58, Tr 487), (63, 63, Tr 488)]),
     (461, False, [(35, 35, Tr 489), (47, 47, Tr 490), (48, 57, Tr 491), (63, 63, Tr 492)]),
     (462, False, [(35, 35, Tr 493), (47, 47, Tr 494), (48, 57, St 462), (63, 63, Tr 496)]),
     (463, False, [(35, 35, Tr 485), (47, 47, Tr 486), (48, 57, St 464), (58, 58, Tr 487), (63, 63, Tr 488)]),
     (464, False, [(35, 35, Tr 485), (47, 47, Tr 486), (48, 57, St 460), (58, 58, Tr 487), (63, 63, Tr 488)]),
     (465, False, [(35, 35, Tr 485), (47, 47, Tr 486), (48, 52, St 460), (53, 53, St 466), (54, 57, St 460),
       (58, 58, Tr 487), (63, 63, Tr 488)]),
     (466, False, [(35, 35, Tr 485), (47, 47, Tr 486), (48, 53, St 460), (58, 58, Tr 487), (63, 63, Tr 488)])],
    [(507, [MarkH, SaveHost], 461),
     (487, [SaveHost], 461),
     (491, [MarkH], 462)])"

definition uri_13 :: "uri_action chunk" where
  "uri_13 = (23, 30,
    [(23, False, [(46, 46, St 20), (48, 57, St 24)]),
     (24, False, [(46, 46, St 20), (48, 57, St 19)]),
     (25, False, [(46, 46, St 20), (48, 52, St 19), (53, 53, St 26), (54, 57, St 19)]),
     (26, False, [(46, 46, St 20), (48, 53, St 19)]),
     (27, False, [(46, 46, St 16), (48, 57, St 28)]),
     (28, False, [(46, 46, St 16), (48, 57, St 15)]),
     (29, False, [(46, 46, St 16), (48, 52, St 15), (53, 53, St 30), (54, 57, St 15)]),
     (30, False, [(46, 46, St 16), (48, 53, St 15)])],
    [])"

definition uri_14 :: "uri_action chunk" where
  "uri_14 = (467, 467,
    [(467, False, [(33, 33, St 467), (35, 35, Tr 485), (36, 36, St 467), (37, 37, St 31), (38, 46, St 467),
       (47, 47, Tr 486), (48, 57, St 467), (58, 58, Tr 499), (59, 59, St 467), (61, 61, St 467),
       (63, 63, Tr 488), (64, 64, Tr 38), (65, 90, St 467), (95, 95, St 467), (97, 122, St 467),
       (126, 126, St 467)])],
    [(473, [MarkH], 467)])"

definition uri_15 :: "uri_action chunk" where
  "uri_15 = (31, 32,
    [(31, False, [(48, 57, St 32), (65, 70, St 32), (97, 102, St 32)]),
     (32, False, [(48, 57, St 467), (65, 70, St 467), (97, 102, St 467)])],
    [(475, [MarkH], 31)])"

definition uri_16 :: "uri_action chunk" where
  "uri_16 = (468, 468,
    [(468, False, [(33, 33, St 33), (35, 35, Tr 489), (36, 36, St 33), (37, 37, St 34), (38, 46, St 33),
       (47, 47, Tr 490), (48, 57, Tr 500), (58, 59, St 33), (61, 61, St 33), (63, 63, Tr 492), (64, 64, Tr 38),
       (65, 90, St 33), (95, 95, St 33), (97, 122, St 33), (126, 126, St 33)])],
    [(481, [MarkH, SaveHost], 468),
     (499, [SaveHost], 468)])"

definition uri_17 :: "uri_action chunk" where
  "uri_17 = (33, 35,
    [(33, False, [(33, 33, St 33), (36, 36, St 33), (37, 37, St 34), (38, 46, St 33), (48, 59, St 33),
       (61, 61, St 33), (64, 64, Tr 38), (65, 90, St 33), (95, 95, St 33), (97, 122, St 33),
       (126, 126, St 33)]),
     (34, False, [(48, 57, St 35), (65, 70, St 35), (97, 102, St 35)]),
     (35, False, [(48, 57, St 33), (65, 70, St 33), (97, 102, St 33)])],
    [])"

definition uri_18 :: "uri_action chunk" where
  "uri_18 = (469, 470,
    [(469, False, [(2, 2, Tr 472), (33, 33, Tr 501), (35, 35, Tr 474), (36, 36, Tr 501), (37, 37, Tr 502),
       (38, 46, Tr 501), (47, 47, Tr 476), (48, 48, Tr 503), (49, 49, Tr 504), (50, 50, Tr 505),
       (51, 57, Tr 506), (58, 58, Tr 507), (59, 59, Tr 501), (61, 61, Tr 501), (63, 63, Tr 482),
       (65, 90, Tr 501), (91, 91, Tr 484), (95, 95, Tr 501), (97, 122, Tr 501), (126, 126, Tr 501)]),
     (470, False, [(33, 33, St 470), (35, 35, Tr 485), (36, 36, St 470), (37, 37, St 36), (38, 46, St 470),
       (47, 47, Tr 486), (48, 57, St 470), (58, 58, Tr 487), (59, 59, St 470), (61, 61, St 470),
       (63, 63, Tr 488), (65, 90, St 470), (95, 95, St 470), (97, 122, St 470), (126, 126, St 470)])],
    [(38, [SaveUserinfo], 469),
     (483, [MarkH, SaveUserinfo], 469),
     (501, [MarkH], 470)])"

definition uri_19 :: "uri_action chunk" where
  "uri_19 = (36, 37,
    [(36, False, [(48, 57, St 37), (65, 70, St 37), (97, 102, St 37)]),
     (37, False, [(48, 57, St 470), (65, 70, St 470), (97, 102, St 470)])],
    [(502, [MarkH], 36)])"

definition uri_20 :: "uri_action chunk" where
  "uri_20 = (471, 475,
    [(471, False, [(33, 33, St 470), (35, 35, Tr 485), (36, 36, St 470), (37, 37, St 36), (38, 45, St 470),
       (46, 46, St 472), (47, 47, Tr 486), (48, 57, St 470), (58, 58, Tr 487), (59, 59, St 470),
       (61, 61, St 470), (63, 63, Tr 488), (65, 90, St 470), (95, 95, St 470), (97, 122, St 470),
       (126, 126, St 470)]),
     (472, False, [(2, 2, St 13), (33, 33, St 470), (35, 35, Tr 485), (36, 36, St 470), (37, 37, St 36),
       (38, 46, St 470), (47, 47, Tr 486), (48, 48, St 473), (49, 49, St 481), (50, 50, St 483),
       (51, 57, St 482), (58, 58, Tr 487), (59, 59, St 470), (61, 61, St 470), (63, 63, Tr 488),
       (65, 90, St 470), (95, 95, St 470), (97, 122, St 470), (126, 126, St 470)]),
     (473, False, [(33, 33, St 470), (35, 35, Tr 485), (36, 36, St 470), (37, 37, St 36), (38, 45, St 470),
       (46, 46, St 474), (47, 47, Tr 486), (48, 57, St 470), (58, 58, Tr 487), (59, 59, St 470),
       (61, 61, St 470), (63, 63, Tr 488), (65, 90, St 470), (95, 95, St 470), (97, 122, St 470),
       (126, 126, St 470)]),
     (474, False, [(2, 2, St 17), (33, 33, St 470), (35, 35, Tr 485), (36, 36, St 470), (37, 37, St 36),
       (38, 46, St 470), (47, 47, Tr 486), (48, 48, St 475), (49, 49, St 477), (50, 50, St 479),
       (51, 57, St 478), (58, 58, Tr 487), (59, 59, St 470), (61, 61, St 470), (63, 63, Tr 488),
       (65, 90, St 470), (95, 95, St 470), (97, 122, St 470), (126, 126, St 470)]),
     (475, False, [(33, 33, St 470), (35, 35, Tr 485), (36, 36, St 470), (37, 37, St 36), (38, 45, St 470),
       (46, 46, St 476), (47, 47, Tr 486), (48, 57, St 470), (58, 58, Tr 487), (59, 59, St 470),
       (61, 61, St 470), (63, 63, Tr 488), (65, 90, St 470), (95, 95, St 470), (97, 122, St 470),
       (126, 126, St 470)])],
    [(503, [MarkH], 471)])"

definition uri_21 :: "uri_action chunk" where
  "uri_21 = (476, 480,
    [(476, False, [(2, 2, St 21), (33, 33, St 470), (35, 35, Tr 485), (36, 36, St 470), (37, 37, St 36),
       (38, 46, St 470), (47, 47, Tr 486), (48, 57, St 470), (58, 58, Tr 487), (59, 59, St 470),
       (61, 61, St 470), (63, 63, Tr 488), (65, 90, St 470), (95, 95, St 470), (97, 122, St 470),
       (126, 126, St 470)]),
     (477, False, [(33, 33, St 470), (35, 35, Tr 485), (36, 36, St 470), (37, 37, St 36), (38, 45, St 470),
       (46, 46, St 476), (47, 47, Tr 486), (48, 57, St 478), (58, 58, Tr 487), (59, 59, St 470),
       (61, 61, St 470), (63, 63, Tr 488), (65, 90, St 470), (95, 95, St 470), (97, 122, St 470),
       (126, 126, St 470)]),
     (478, False, [(33, 33, St 470), (35, 35, Tr 485), (36, 36, St 470), (37, 37, St 36), (38, 45, St 470),
       (46, 46, St 476), (47, 47, Tr 486), (48, 57, St 475), (58, 58, Tr 487), (59, 59, St 470),
       (61, 61, St 470), (63, 63, Tr 488), (65, 90, St 470), (95, 95, St 470), (97, 122, St 470),
       (126, 126, St 470)]),
     (479, False, [(33, 33, St 470), (35, 35, Tr 485), (36, 36, St 470), (37, 37, St 36), (38, 45, St 470),
       (46, 46, St 476), (47, 47, Tr 486), (48, 52, St 475), (53, 53, St 480), (54, 57, St 475),
       (58, 58, Tr 487), (59, 59, St 470), (61, 61, St 470), (63, 63, Tr 488), (65, 90, St 470),
       (95, 95, St 470), (97, 122, St 470), (126, 126, St 470)]),
     (480, False, [(33, 33, St 470), (35, 35, Tr 485), (36, 36, St 470), (37, 37, St 36), (38, 45, St 470),
       (46, 46, St 476), (47, 47, Tr 486), (48, 53, St 475), (54, 57, St 470), (58, 58, Tr 487),
       (59, 59, St 470), (61, 61, St 470), (63, 63, Tr 488), (65, 90, St 470), (95, 95, St 470),
       (97, 122, St 470), (126, 126, St 470)])],
    [])"

definition uri_22 :: "uri_action chunk" where
  "uri_22 = (481, 484,
    [(481, False, [(33, 33, St 470), (35, 35, Tr 485), (36, 36, St 470), (37, 37, St 36), (38, 45, St 470),
       (46, 46, St 474), (47, 47, Tr 486), (48, 57, St 482), (58, 58, Tr 487), (59, 59, St 470),
       (61, 61, St 470), (63, 63, Tr 488), (65, 90, St 470), (95, 95, St 470), (97, 122, St 470),
       (126, 126, St 470)]),
     (482, False, [(33, 33, St 470), (35, 35, Tr 485), (36, 36, St 470), (37, 37, St 36), (38, 45, St 470),
       (46, 46, St 474), (47, 47, Tr 486), (48, 57, St 473), (58, 58, Tr 487), (59, 59, St 470),
       (61, 61, St 470), (63, 63, Tr 488), (65, 90, St 470), (95, 95, St 470), (97, 122, St 470),
       (126, 126, St 470)]),
     (483, False, [(33, 33, St 470), (35, 35, Tr 485), (36, 36, St 470), (37, 37, St 36), (38, 45, St 470),
       (46, 46, St 474), (47, 47, Tr 486), (48, 52, St 473), (53, 53, St 484), (54, 57, St 473),
       (58, 58, Tr 487), (59, 59, St 470), (61, 61, St 470), (63, 63, Tr 488), (65, 90, St 470),
       (95, 95, St 470), (97, 122, St 470), (126, 126, St 470)]),
     (484, False, [(33, 33, St 470), (35, 35, Tr 485), (36, 36, St 470), (37, 37, St 36), (38, 45, St 470),
       (46, 46, St 474), (47, 47, Tr 486), (48, 53, St 473), (54, 57, St 470), (58, 58, Tr 487),
       (59, 59, St 470), (61, 61, St 470), (63, 63, Tr 488), (65, 90, St 470), (95, 95, St 470),
       (97, 122, St 470), (126, 126, St 470)])],
    [])"

definition uri_23 :: "uri_action chunk" where
  "uri_23 = (485, 488,
    [(485, False, [(33, 33, St 470), (35, 35, Tr 485), (36, 36, St 470), (37, 37, St 36), (38, 45, St 470),
       (46, 46, St 472), (47, 47, Tr 486), (48, 57, St 486), (58, 58, Tr 487), (59, 59, St 470),
       (61, 61, St 470), (63, 63, Tr 488), (65, 90, St 470), (95, 95, St 470), (97, 122, St 470),
       (126, 126, St 470)]),
     (486, False, [(33, 33, St 470), (35, 35, Tr 485), (36, 36, St 470), (37, 37, St 36), (38, 45, St 470),
       (46, 46, St 472), (47, 47, Tr 486), (48, 57, St 471), (58, 58, Tr 487), (59, 59, St 470),
       (61, 61, St 470), (63, 63, Tr 488), (65, 90, St 470), (95, 95, St 470), (97, 122, St 470),
       (126, 126, St 470)]),
     (487, False, [(33, 33, St 470), (35, 35, Tr 485), (36, 36, St 470), (37, 37, St 36), (38, 45, St 470),
       (46, 46, St 472), (47, 47, Tr 486), (48, 52, St 471), (53, 53, St 488), (54, 57, St 471),
       (58, 58, Tr 487), (59, 59, St 470), (61, 61, St 470), (63, 63, Tr 488), (65, 90, St 470),
       (95, 95, St 470), (97, 122, St 470), (126, 126, St 470)]),
     (488, False, [(33, 33, St 470), (35, 35, Tr 485), (36, 36, St 470), (37, 37, St 36), (38, 45, St 470),
       (46, 46, St 472), (47, 47, Tr 486), (48, 53, St 471), (54, 57, St 470), (58, 58, Tr 487),
       (59, 59, St 470), (61, 61, St 470), (63, 63, Tr 488), (65, 90, St 470), (95, 95, St 470),
       (97, 122, St 470), (126, 126, St 470)])],
    [(504, [MarkH], 485),
     (506, [MarkH], 486),
     (505, [MarkH], 487)])"

definition uri_24 :: "uri_action chunk" where
  "uri_24 = (38, 47,
    [(38, False, [(48, 57, St 39), (58, 58, St 146), (65, 70, St 39), (97, 102, St 39), (118, 118, St 225)]),
     (39, False, [(48, 57, St 40), (58, 58, St 43), (65, 70, St 40), (97, 102, St 40)]),
     (40, False, [(48, 57, St 41), (58, 58, St 43), (65, 70, St 41), (97, 102, St 41)]),
     (41, False, [(48, 57, St 42), (58, 58, St 43), (65, 70, St 42), (97, 102, St 42)]),
     (42, False, [(58, 58, St 43)]),
     (43, False, [(48, 57, St 44), (58, 58, St 141), (65, 70, St 44), (97, 102, St 44)]),
     (44, False, [(48, 57, St 45), (58, 58, St 48), (65, 70, St 45), (97, 102, St 45)]),
     (45, False, [(48, 57, St 46), (58, 58, St 48), (65, 70, St 46), (97, 102, St 46)]),
     (46, False, [(48, 57, St 47), (58, 58, St 48), (65, 70, St 47), (97, 102, St 47)]),
     (47, False, [(58, 58, St 48)])],
    [(484, [MarkH], 38)])"

definition uri_25 :: "uri_action chunk" where
  "uri_25 = (48, 58,
    [(48, False, [(48, 57, St 49), (58, 58, St 136), (65, 70, St 49), (97, 102, St 49)]),
     (49, False, [(48, 57, St 50), (58, 58, St 53), (65, 70, St 50), (97, 102, St 50)]),
     (50, False, [(48, 57, St 51), (58, 58, St 53), (65, 70, St 51), (97, 102, St 51)]),
     (51, False, [(48, 57, St 52), (58, 58, St 53), (65, 70, St 52), (97, 102, St 52)]),
     (52, False, [(58, 58, St 53)]),
     (53, False, [(48, 57, St 54), (58, 58, St 131), (65, 70, St 54), (97, 102, St 54)]),
     (54, False, [(48, 57, St 55), (58, 58, St 58), (65, 70, St 55), (97, 102, St 55)]),
     (55, False, [(48, 57, St 56), (58, 58, St 58), (65, 70, St 56), (97, 102, St 56)]),
     (56, False, [(48, 57, St 57), (58, 58, St 58), (65, 70, St 57), (97, 102, St 57)]),
     (57, False, [(58, 58, St 58)]),
     (58, False, [(48, 57, St 59), (58, 58, St 126), (65, 70, St 59), (97, 102, St 59)])],
    [])"

definition uri_26 :: "uri_action chunk" where
  "uri_26 = (59, 69,
    [(59, False, [(48, 57, St 60), (58, 58, St 63), (65, 70, St 60), (97, 102, St 60)]),
     (60, False, [(48, 57, St 61), (58, 58, St 63), (65, 70, St 61), (97, 102, St 61)]),
     (61, False, [(48, 57, St 62), (58, 58, St 63), (65, 70, St 62), (97, 102, St 62)]),
     (62, False, [(58, 58, St 63)]),
     (63, False, [(48, 57, St 64), (58, 58, St 113), (65, 70, St 64), (97, 102, St 64)]),
     (64, False, [(48, 57, St 65), (58, 58, St 68), (65, 70, St 65), (97, 102, St 65)]),
     (65, False, [(48, 57, St 66), (58, 58, St 68), (65, 70, St 66), (97, 102, St 66)]),
     (66, False, [(48, 57, St 67), (58, 58, St 68), (65, 70, St 67), (97, 102, St 67)]),
     (67, False, [(58, 58, St 68)]),
     (68, False, [(2, 2, St 69), (48, 48, St 96), (49, 49, St 104), (50, 50, St 107), (51, 57, St 110),
       (58, 58, St 111), (65, 70, St 112), (97, 102, St 112)]),
     (69, False, [(48, 52, St 70)])],
    [])"

definition uri_27 :: "uri_action chunk" where
  "uri_27 = (70, 86,
    [(70, False, [(48, 57, St 71)]),
     (71, False, [(46, 46, St 72)]),
     (72, False, [(2, 2, St 73), (48, 48, St 75), (49, 49, St 92), (50, 50, St 94), (51, 57, St 93)]),
     (73, False, [(48, 52, St 74)]),
     (74, False, [(48, 57, St 75)]),
     (75, False, [(46, 46, St 76)]),
     (76, False, [(2, 2, St 77), (48, 48, St 79), (49, 49, St 88), (50, 50, St 90), (51, 57, St 89)]),
     (77, False, [(48, 52, St 78)]),
     (78, False, [(48, 57, St 79)]),
     (79, False, [(46, 46, St 80)]),
     (80, False, [(2, 2, St 81), (48, 48, St 83), (49, 49, St 84), (50, 50, St 86), (51, 57, St 85)]),
     (81, False, [(48, 52, St 82)]),
     (82, False, [(48, 57, St 83)]),
     (83, False, [(93, 93, St 460)]),
     (84, False, [(48, 57, St 85), (93, 93, St 460)]),
     (85, False, [(48, 57, St 83), (93, 93, St 460)]),
     (86, False, [(48, 52, St 83), (53, 53, St 87), (54, 57, St 83), (93, 93, St 460)])],
    [])"

definition uri_28 :: "uri_action chunk" where
  "uri_28 = (87, 99,
    [(87, False, [(48, 53, St 83), (93, 93, St 460)]),
     (88, False, [(46, 46, St 80), (48, 57, St 89)]),
     (89, False, [(46, 46, St 80), (48, 57, St 79)]),
     (90, False, [(46, 46, St 80), (48, 52, St 79), (53, 53, St 91), (54, 57, St 79)]),
     (91, False, [(46, 46, St 80), (48, 53, St 79)]),
     (92, False, [(46, 46, St 76), (48, 57, St 93)]),
     (93, False, [(46, 46, St 76), (48, 57, St 75)]),
     (94, False, [(46, 46, St 76), (48, 52, St 75), (53, 53, St 95), (54, 57, St 75)]),
     (95, False, [(46, 46, St 76), (48, 53, St 75)]),
     (96, False, [(46, 46, St 72), (48, 57, St 97), (58, 58, St 100), (65, 70, St 97), (97, 102, St 97)]),
     (97, False, [(48, 57, St 98), (58, 58, St 100), (65, 70, St 98), (97, 102, St 98)]),
     (98, False, [(48, 57, St 99), (58, 58, St 100), (65, 70, St 99), (97, 102, St 99)]),
     (99, False, [(58, 58, St 100)])],
    [])"

definition uri_29 :: "uri_action chunk" where
  "uri_29 = (100, 108,
    [(100, False, [(48, 57, St 101), (58, 58, St 83), (65, 70, St 101), (97, 102, St 101)]),
     (101, False, [(48, 57, St 102), (65, 70, St 102), (93, 93, St 460), (97, 102, St 102)]),
     (102, False, [(48, 57, St 103), (65, 70, St 103), (93, 93, St 460), (97, 102, St 103)]),
     (103, False, [(48, 57, St 83), (65, 70, St 83), (93, 93, St 460), (97, 102, St 83)]),
     (104, False, [(46, 46, St 72), (48, 57, St 105), (58, 58, St 100), (65, 70, St 97), (97, 102, St 97)]),
     (105, False, [(46, 46, St 72), (48, 57, St 106), (58, 58, St 100), (65, 70, St 98), (97, 102, St 98)]),
     (106, False, [(46, 46, St 72), (48, 57, St 99), (58, 58, St 100), (65, 70, St 99), (97, 102, St 99)]),
     (107, False, [(46, 46, St 72), (48, 52, St 108), (53, 53, St 109), (54, 57, St 108), (58, 58, St 100),
       (65, 70, St 97), (97, 102, St 97)]),
     (108, False, [(46, 46, St 72), (48, 57, St 98), (58, 58, St 100), (65, 70, St 98), (97, 102, St 98)])],
    [])"

definition uri_30 :: "uri_action chunk" where
  "uri_30 = (109, 117,
    [(109, False, [(46, 46, St 72), (48, 53, St 106), (54, 57, St 98), (58, 58, St 100), (65, 70, St 98),
       (97, 102, St 98)]),
     (110, False, [(46, 46, St 72), (48, 57, St 108), (58, 58, St 100), (65, 70, St 97), (97, 102, St 97)]),
     (111, False, [(48, 57, St 101), (65, 70, St 101), (97, 102, St 101)]),
     (112, False, [(48, 57, St 97), (58, 58, St 100), (65, 70, St 97), (97, 102, St 97)]),
     (113, False, [(2, 2, St 69), (48, 48, St 114), (49, 49, St 118), (50, 50, St 121), (51, 57, St 124),
       (65, 70, St 125), (97, 102, St 125)]),
     (114, False, [(46, 46, St 72), (48, 57, St 115), (58, 58, St 111), (65, 70, St 115), (97, 102, St 115)]),
     (115, False, [(48, 57, St 116), (58, 58, St 111), (65, 70, St 116), (97, 102, St 116)]),
     (116, False, [(48, 57, St 117), (58, 58, St 111), (65, 70, St 117), (97, 102, St 117)]),
     (117, False, [(58, 58, St 111)])],
    [])"

definition uri_31 :: "uri_action chunk" where
  "uri_31 = (118, 125,
    [(118, False, [(46, 46, St 72), (48, 57, St 119), (58, 58, St 111), (65, 70, St 115), (97, 102, St 115)]),
     (119, False, [(46, 46, St 72), (48, 57, St 120), (58, 58, St 111), (65, 70, St 116), (97, 102, St 116)]),
     (120, False, [(46, 46, St 72), (48, 57, St 117), (58, 58, St 111), (65, 70, St 117), (97, 102, St 117)]),
     (121, False, [(46, 46, St 72), (48, 52, St 122), (53, 53, St 123), (54, 57, St 122), (58, 58, St 111),
       (65, 70, St 115), (97, 102, St 115)]),
     (122, False, [(46, 46, St 72), (48, 57, St 116), (58, 58, St 111), (65, 70, St 116), (97, 102, St 116)]),
     (123, False, [(46, 46, St 72), (48, 53, St 120), (54, 57, St 116), (58, 58, St 111), (65, 70, St 116),
       (97, 102, St 116)]),
     (124, False, [(46, 46, St 72), (48, 57, St 122), (58, 58, St 111), (65, 70, St 115), (97, 102, St 115)]),
     (125, False, [(48, 57, St 115), (58, 58, St 111), (65, 70, St 115), (97, 102, St 115)])],
    [])"

definition uri_32 :: "uri_action chunk" where
  "uri_32 = (126, 136,
    [(126, False, [(48, 57, St 127), (65, 70, St 127), (97, 102, St 127)]),
     (127, False, [(48, 57, St 128), (58, 58, St 113), (65, 70, St 128), (97, 102, St 128)]),
     (128, False, [(48, 57, St 129), (58, 58, St 113), (65, 70, St 129), (97, 102, St 129)]),
     (129, False, [(48, 57, St 130), (58, 58, St 113), (65, 70, St 130), (97, 102, St 130)]),
     (130, False, [(58, 58, St 113)]),
     (131, False, [(48, 57, St 132), (65, 70, St 132), (97, 102, St 132)]),
     (132, False, [(48, 57, St 133), (58, 58, St 126), (65, 70, St 133), (97, 102, St 133)]),
     (133, False, [(48, 57, St 134), (58, 58, St 126), (65, 70, St 134), (97, 102, St 134)]),
     (134, False, [(48, 57, St 135), (58, 58, St 126), (65, 70, St 135), (97, 102, St 135)]),
     (135, False, [(58, 58, St 126)]),
     (136, False, [(48, 57, St 137), (65, 70, St 137), (97, 102, St 137)])],
    [])"

definition uri_33 :: "uri_action chunk" where
  "uri_33 = (137, 147,
    [(137, False, [(48, 57, St 138), (58, 58, St 131), (65, 70, St 138), (97, 102, St 138)]),
     (138, False, [(48, 57, St 139), (58, 58, St 131), (65, 70, St 139), (97, 102, St 139)]),
     (139, False, [(48, 57, St 140), (58, 58, St 131), (65, 70, St 140), (97, 102, St 140)]),
     (140, False, [(58, 58, St 131)]),
     (141, False, [(48, 57, St 142), (65, 70, St 142), (97, 102, St 142)]),
     (142, False, [(48, 57, St 143), (58, 58, St 136), (65, 70, St 143), (97, 102, St 143)]),
     (143, False, [(48, 57, St 144), (58, 58, St 136), (65, 70, St 144), (97, 102, St 144)]),
     (144, False, [(48, 57, St 145), (58, 58, St 136), (65, 70, St 145), (97, 102, St 145)]),
     (145, False, [(58, 58, St 136)]),
     (146, False, [(58, 58, St 147)]),
     (147, False, [(2, 2, St 69), (48, 48, St 148), (49, 49, St 217), (50, 50, St 220), (51, 57, St 223),
       (65, 70, St 224), (93, 93, St 460), (97, 102, St 224)])],
    [])"

definition uri_34 :: "uri_action chunk" where
  "uri_34 = (148, 156,
    [(148, False, [(46, 46, St 72), (48, 57, St 149), (58, 58, St 152), (65, 70, St 149), (93, 93, St 460),
       (97, 102, St 149)]),
     (149, False, [(48, 57, St 150), (58, 58, St 152), (65, 70, St 150), (93, 93, St 460),
       (97, 102, St 150)]),
     (150, False, [(48, 57, St 151), (58, 58, St 152), (65, 70, St 151), (93, 93, St 460),
       (97, 102, St 151)]),
     (151, False, [(58, 58, St 152), (93, 93, St 460)]),
     (152, False, [(2, 2, St 69), (48, 48, St 153), (49, 49, St 209), (50, 50, St 212), (51, 57, St 215),
       (65, 70, St 216), (97, 102, St 216)]),
     (153, False, [(46, 46, St 72), (48, 57, St 154), (58, 58, St 157), (65, 70, St 154), (93, 93, St 460),
       (97, 102, St 154)]),
     (154, False, [(48, 57, St 155), (58, 58, St 157), (65, 70, St 155), (93, 93, St 460),
       (97, 102, St 155)]),
     (155, False, [(48, 57, St 156), (58, 58, St 157), (65, 70, St 156), (93, 93, St 460),
       (97, 102, St 156)]),
     (156, False, [(58, 58, St 157), (93, 93, St 460)])],
    [])"

definition uri_35 :: "uri_action chunk" where
  "uri_35 = (157, 164,
    [(157, False, [(2, 2, St 69), (48, 48, St 158), (49, 49, St 201), (50, 50, St 204), (51, 57, St 207),
       (65, 70, St 208), (97, 102, St 208)]),
     (158, False, [(46, 46, St 72), (48, 57, St 159), (58, 58, St 162), (65, 70, St 159), (93, 93, St 460),
       (97, 102, St 159)]),
     (159, False, [(48, 57, St 160), (58, 58, St 162), (65, 70, St 160), (93, 93, St 460),
       (97, 102, St 160)]),
     (160, False, [(48, 57, St 161), (58, 58, St 162), (65, 70, St 161), (93, 93, St 460),
       (97, 102, St 161)]),
     (161, False, [(58, 58, St 162), (93, 93, St 460)]),
     (162, False, [(2, 2, St 69), (48, 48, St 163), (49, 49, St 193), (50, 50, St 196), (51, 57, St 199),
       (65, 70, St 200), (97, 102, St 200)]),
     (163, False, [(46, 46, St 72), (48, 57, St 164), (58, 58, St 167), (65, 70, St 164), (93, 93, St 460),
       (97, 102, St 164)]),
     (164, False, [(48, 57, St 165), (58, 58, St 167), (65, 70, St 165), (93, 93, St 460),
       (97, 102, St 165)])],
    [])"

definition uri_36 :: "uri_action chunk" where
  "uri_36 = (165, 173,
    [(165, False, [(48, 57, St 166), (58, 58, St 167), (65, 70, St 166), (93, 93, St 460),
       (97, 102, St 166)]),
     (166, False, [(58, 58, St 167), (93, 93, St 460)]),
     (167, False, [(2, 2, St 69), (48, 48, St 168), (49, 49, St 185), (50, 50, St 188), (51, 57, St 191),
       (65, 70, St 192), (97, 102, St 192)]),
     (168, False, [(46, 46, St 72), (48, 57, St 169), (58, 58, St 172), (65, 70, St 169), (93, 93, St 460),
       (97, 102, St 169)]),
     (169, False, [(48, 57, St 170), (58, 58, St 172), (65, 70, St 170), (93, 93, St 460),
       (97, 102, St 170)]),
     (170, False, [(48, 57, St 171), (58, 58, St 172), (65, 70, St 171), (93, 93, St 460),
       (97, 102, St 171)]),
     (171, False, [(58, 58, St 172), (93, 93, St 460)]),
     (172, False, [(2, 2, St 69), (48, 48, St 173), (49, 49, St 177), (50, 50, St 180), (51, 57, St 183),
       (65, 70, St 184), (97, 102, St 184)]),
     (173, False, [(46, 46, St 72), (48, 57, St 174), (58, 58, St 111), (65, 70, St 174), (93, 93, St 460),
       (97, 102, St 174)])],
    [])"

definition uri_37 :: "uri_action chunk" where
  "uri_37 = (174, 181,
    [(174, False, [(48, 57, St 175), (58, 58, St 111), (65, 70, St 175), (93, 93, St 460),
       (97, 102, St 175)]),
     (175, False, [(48, 57, St 176), (58, 58, St 111), (65, 70, St 176), (93, 93, St 460),
       (97, 102, St 176)]),
     (176, False, [(58, 58, St 111), (93, 93, St 460)]),
     (177, False, [(46, 46, St 72), (48, 57, St 178), (58, 58, St 111), (65, 70, St 174), (93, 93, St 460),
       (97, 102, St 174)]),
     (178, False, [(46, 46, St 72), (48, 57, St 179), (58, 58, St 111), (65, 70, St 175), (93, 93, St 460),
       (97, 102, St 175)]),
     (179, False, [(46, 46, St 72), (48, 57, St 176), (58, 58, St 111), (65, 70, St 176), (93, 93, St 460),
       (97, 102, St 176)]),
     (180, False, [(46, 46, St 72), (48, 52, St 181), (53, 53, St 182), (54, 57, St 181), (58, 58, St 111),
       (65, 70, St 174), (93, 93, St 460), (97, 102, St 174)]),
     (181, False, [(46, 46, St 72), (48, 57, St 175), (58, 58, St 111), (65, 70, St 175), (93, 93, St 460),
       (97, 102, St 175)])],
    [])"

definition uri_38 :: "uri_action chunk" where
  "uri_38 = (182, 189,
    [(182, False, [(46, 46, St 72), (48, 53, St 179), (54, 57, St 175), (58, 58, St 111), (65, 70, St 175),
       (93, 93, St 460), (97, 102, St 175)]),
     (183, False, [(46, 46, St 72), (48, 57, St 181), (58, 58, St 111), (65, 70, St 174), (93, 93, St 460),
       (97, 102, St 174)]),
     (184, False, [(48, 57, St 174), (58, 58, St 111), (65, 70, St 174), (93, 93, St 460),
       (97, 102, St 174)]),
     (185, False, [(46, 46, St 72), (48, 57, St 186), (58, 58, St 172), (65, 70, St 169), (93, 93, St 460),
       (97, 102, St 169)]),
     (186, False, [(46, 46, St 72), (48, 57, St 187), (58, 58, St 172), (65, 70, St 170), (93, 93, St 460),
       (97, 102, St 170)]),
     (187, False, [(46, 46, St 72), (48, 57, St 171), (58, 58, St 172), (65, 70, St 171), (93, 93, St 460),
       (97, 102, St 171)]),
     (188, False, [(46, 46, St 72), (48, 52, St 189), (53, 53, St 190), (54, 57, St 189), (58, 58, St 172),
       (65, 70, St 169), (93, 93, St 460), (97, 102, St 169)]),
     (189, False, [(46, 46, St 72), (48, 57, St 170), (58, 58, St 172), (65, 70, St 170), (93, 93, St 460),
       (97, 102, St 170)])],
    [])"

definition uri_39 :: "uri_action chunk" where
  "uri_39 = (190, 197,
    [(190, False, [(46, 46, St 72), (48, 53, St 187), (54, 57, St 170), (58, 58, St 172), (65, 70, St 170),
       (93, 93, St 460), (97, 102, St 170)]),
     (191, False, [(46, 46, St 72), (48, 57, St 189), (58, 58, St 172), (65, 70, St 169), (93, 93, St 460),
       (97, 102, St 169)]),
     (192, False, [(48, 57, St 169), (58, 58, St 172), (65, 70, St 169), (93, 93, St 460),
       (97, 102, St 169)]),
     (193, False, [(46, 46, St 72), (48, 57, St 194), (58, 58, St 167), (65, 70, St 164), (93, 93, St 460),
       (97, 102, St 164)]),
     (194, False, [(46, 46, St 72), (48, 57, St 195), (58, 58, St 167), (65, 70, St 165), (93, 93, St 460),
       (97, 102, St 165)]),
     (195, False, [(46, 46, St 72), (48, 57, St 166), (58, 58, St 167), (65, 70, St 166), (93, 93, St 460),
       (97, 102, St 166)]),
     (196, False, [(46, 46, St 72), (48, 52, St 197), (53, 53, St 198), (54, 57, St 197), (58, 58, St 167),
       (65, 70, St 164), (93, 93, St 460), (97, 102, St 164)]),
     (197, False, [(46, 46, St 72), (48, 57, St 165), (58, 58, St 167), (65, 70, St 165), (93, 93, St 460),
       (97, 102, St 165)])],
    [])"

definition uri_40 :: "uri_action chunk" where
  "uri_40 = (198, 205,
    [(198, False, [(46, 46, St 72), (48, 53, St 195), (54, 57, St 165), (58, 58, St 167), (65, 70, St 165),
       (93, 93, St 460), (97, 102, St 165)]),
     (199, False, [(46, 46, St 72), (48, 57, St 197), (58, 58, St 167), (65, 70, St 164), (93, 93, St 460),
       (97, 102, St 164)]),
     (200, False, [(48, 57, St 164), (58, 58, St 167), (65, 70, St 164), (93, 93, St 460),
       (97, 102, St 164)]),
     (201, False, [(46, 46, St 72), (48, 57, St 202), (58, 58, St 162), (65, 70, St 159), (93, 93, St 460),
       (97, 102, St 159)]),
     (202, False, [(46, 46, St 72), (48, 57, St 203), (58, 58, St 162), (65, 70, St 160), (93, 93, St 460),
       (97, 102, St 160)]),
     (203, False, [(46, 46, St 72), (48, 57, St 161), (58, 58, St 162), (65, 70, St 161), (93, 93, St 460),
       (97, 102, St 161)]),
     (204, False, [(46, 46, St 72), (48, 52, St 205), (53, 53, St 206), (54, 57, St 205), (58, 58, St 162),
       (65, 70, St 159), (93, 93, St 460), (97, 102, St 159)]),
     (205, False, [(46, 46, St 72), (48, 57, St 160), (58, 58, St 162), (65, 70, St 160), (93, 93, St 460),
       (97, 102, St 160)])],
    [])"

definition uri_41 :: "uri_action chunk" where
  "uri_41 = (206, 213,
    [(206, False, [(46, 46, St 72), (48, 53, St 203), (54, 57, St 160), (58, 58, St 162), (65, 70, St 160),
       (93, 93, St 460), (97, 102, St 160)]),
     (207, False, [(46, 46, St 72), (48, 57, St 205), (58, 58, St 162), (65, 70, St 159), (93, 93, St 460),
       (97, 102, St 159)]),
     (208, False, [(48, 57, St 159), (58, 58, St 162), (65, 70, St 159), (93, 93, St 460),
       (97, 102, St 159)]),
     (209, False, [(46, 46, St 72), (48, 57, St 210), (58, 58, St 157), (65, 70, St 154), (93, 93, St 460),
       (97, 102, St 154)]),
     (210, False, [(46, 46, St 72), (48, 57, St 211), (58, 58, St 157), (65, 70, St 155), (93, 93, St 460),
       (97, 102, St 155)]),
     (211, False, [(46, 46, St 72), (48, 57, St 156), (58, 58, St 157), (65, 70, St 156), (93, 93, St 460),
       (97, 102, St 156)]),
     (212, False, [(46, 46, St 72), (48, 52, St 213), (53, 53, St 214), (54, 57, St 213), (58, 58, St 157),
       (65, 70, St 154), (93, 93, St 460), (97, 102, St 154)]),
     (213, False, [(46, 46, St 72), (48, 57, St 155), (58, 58, St 157), (65, 70, St 155), (93, 93, St 460),
       (97, 102, St 155)])],
    [])"

definition uri_42 :: "uri_action chunk" where
  "uri_42 = (214, 221,
    [(214, False, [(46, 46, St 72), (48, 53, St 211), (54, 57, St 155), (58, 58, St 157), (65, 70, St 155),
       (93, 93, St 460), (97, 102, St 155)]),
     (215, False, [(46, 46, St 72), (48, 57, St 213), (58, 58, St 157), (65, 70, St 154), (93, 93, St 460),
       (97, 102, St 154)]),
     (216, False, [(48, 57, St 154), (58, 58, St 157), (65, 70, St 154), (93, 93, St 460),
       (97, 102, St 154)]),
     (217, False, [(46, 46, St 72), (48, 57, St 218), (58, 58, St 152), (65, 70, St 149), (93, 93, St 460),
       (97, 102, St 149)]),
     (218, False, [(46, 46, St 72), (48, 57, St 219), (58, 58, St 152), (65, 70, St 150), (93, 93, St 460),
       (97, 102, St 150)]),
     (219, False, [(46, 46, St 72), (48, 57, St 151), (58, 58, St 152), (65, 70, St 151), (93, 93, St 460),
       (97, 102, St 151)]),
     (220, False, [(46, 46, St 72), (48, 52, St 221), (53, 53, St 222), (54, 57, St 221), (58, 58, St 152),
       (65, 70, St 149), (93, 93, St 460), (97, 102, St 149)]),
     (221, False, [(46, 46, St 72), (48, 57, St 150), (58, 58, St 152), (65, 70, St 150), (93, 93, St 460),
       (97, 102, St 150)])],
    [])"

definition uri_43 :: "uri_action chunk" where
  "uri_43 = (222, 228,
    [(222, False, [(46, 46, St 72), (48, 53, St 219), (54, 57, St 150), (58, 58, St 152), (65, 70, St 150),
       (93, 93, St 460), (97, 102, St 150)]),
     (223, False, [(46, 46, St 72), (48, 57, St 221), (58, 58, St 152), (65, 70, St 149), (93, 93, St 460),
       (97, 102, St 149)]),
     (224, False, [(48, 57, St 149), (58, 58, St 152), (65, 70, St 149), (93, 93, St 460),
       (97, 102, St 149)]),
     (225, False, [(48, 57, St 226), (65, 70, St 226), (97, 102, St 226)]),
     (226, False, [(46, 46, St 227), (48, 57, St 226), (65, 70, St 226), (97, 102, St 226)]),
     (227, False, [(33, 33, St 228), (36, 36, St 228), (38, 46, St 228), (48, 59, St 228), (61, 61, St 228),
       (65, 90, St 228), (95, 95, St 228), (97, 122, St 228), (126, 126, St 228)]),
     (228, False, [(33, 33, St 228), (36, 36, St 228), (38, 46, St 228), (48, 59, St 228), (61, 61, St 228),
       (65, 90, St 228), (93, 93, St 460), (95, 95, St 228), (97, 122, St 228), (126, 126, St 228)])],
    [])"

definition uri_44 :: "uri_action chunk" where
  "uri_44 = (489, 492,
    [(489, False, [(33, 33, St 33), (35, 35, Tr 493), (36, 36, St 33), (37, 37, St 34), (38, 46, St 33),
       (47, 47, Tr 494), (48, 57, St 489), (58, 59, St 33), (61, 61, St 33), (63, 63, Tr 496), (64, 64, Tr 38),
       (65, 90, St 33), (95, 95, St 33), (97, 122, St 33), (126, 126, St 33)]),
     (490, False, [(33, 33, St 467), (35, 35, Tr 485), (36, 36, St 467), (37, 37, St 31), (38, 45, St 467),
       (46, 46, St 491), (47, 47, Tr 486), (48, 57, St 467), (58, 58, Tr 499), (59, 59, St 467),
       (61, 61, St 467), (63, 63, Tr 488), (64, 64, Tr 38), (65, 90, St 467), (95, 95, St 467),
       (97, 122, St 467), (126, 126, St 467)]),
     (491, False, [(2, 2, St 13), (33, 33, St 467), (35, 35, Tr 485), (36, 36, St 467), (37, 37, St 31),
       (38, 46, St 467), (47, 47, Tr 486), (48, 48, St 492), (49, 49, St 500), (50, 50, St 502),
       (51, 57, St 501), (58, 58, Tr 499), (59, 59, St 467), (61, 61, St 467), (63, 63, Tr 488),
       (64, 64, Tr 38), (65, 90, St 467), (95, 95, St 467), (97, 122, St 467), (126, 126, St 467)]),
     (492, False, [(33, 33, St 467), (35, 35, Tr 485), (36, 36, St 467), (37, 37, St 31), (38, 45, St 467),
       (46, 46, St 493), (47, 47, Tr 486), (48, 57, St 467), (58, 58, Tr 499), (59, 59, St 467),
       (61, 61, St 467), (63, 63, Tr 488), (64, 64, Tr 38), (65, 90, St 467), (95, 95, St 467),
       (97, 122, St 467), (126, 126, St 467)])],
    [(500, [MarkH], 489),
     (477, [MarkH], 490)])"

definition uri_45 :: "uri_action chunk" where
  "uri_45 = (493, 497,
    [(493, False, [(2, 2, St 17), (33, 33, St 467), (35, 35, Tr 485), (36, 36, St 467), (37, 37, St 31),
       (38, 46, St 467), (47, 47, Tr 486), (48, 48, St 494), (49, 49, St 496), (50, 50, St 498),
       (51, 57, St 497), (58, 58, Tr 499), (59, 59, St 467), (61, 61, St 467), (63, 63, Tr 488),
       (64, 64, Tr 38), (65, 90, St 467), (95, 95, St 467), (97, 122, St 467), (126, 126, St 467)]),
     (494, False, [(33, 33, St 467), (35, 35, Tr 485), (36, 36, St 467), (37, 37, St 31), (38, 45, St 467),
       (46, 46, St 495), (47, 47, Tr 486), (48, 57, St 467), (58, 58, Tr 499), (59, 59, St 467),
       (61, 61, St 467), (63, 63, Tr 488), (64, 64, Tr 38), (65, 90, St 467), (95, 95, St 467),
       (97, 122, St 467), (126, 126, St 467)]),
     (495, False, [(2, 2, St 21), (33, 33, St 467), (35, 35, Tr 485), (36, 36, St 467), (37, 37, St 31),
       (38, 46, St 467), (47, 47, Tr 486), (48, 57, St 467), (58, 58, Tr 499), (59, 59, St 467),
       (61, 61, St 467), (63, 63, Tr 488), (64, 64, Tr 38), (65, 90, St 467), (95, 95, St 467),
       (97, 122, St 467), (126, 126, St 467)]),
     (496, False, [(33, 33, St 467), (35, 35, Tr 485), (36, 36, St 467), (37, 37, St 31), (38, 45, St 467),
       (46, 46, St 495), (47, 47, Tr 486), (48, 57, St 497), (58, 58, Tr 499), (59, 59, St 467),
       (61, 61, St 467), (63, 63, Tr 488), (64, 64, Tr 38), (65, 90, St 467), (95, 95, St 467),
       (97, 122, St 467), (126, 126, St 467)]),
     (497, False, [(33, 33, St 467), (35, 35, Tr 485), (36, 36, St 467), (37, 37, St 31), (38, 45, St 467),
       (46, 46, St 495), (47, 47, Tr 486), (48, 57, St 494), (58, 58, Tr 499), (59, 59, St 467),
       (61, 61, St 467), (63, 63, Tr 488), (64, 64, Tr 38), (65, 90, St 467), (95, 95, St 467),
       (97, 122, St 467), (126, 126, St 467)])],
    [])"

definition uri_46 :: "uri_action chunk" where
  "uri_46 = (498, 501,
    [(498, False, [(33, 33, St 467), (35, 35, Tr 485), (36, 36, St 467), (37, 37, St 31), (38, 45, St 467),
       (46, 46, St 495), (47, 47, Tr 486), (48, 52, St 494), (53, 53, St 499), (54, 57, St 494),
       (58, 58, Tr 499), (59, 59, St 467), (61, 61, St 467), (63, 63, Tr 488), (64, 64, Tr 38),
       (65, 90, St 467), (95, 95, St 467), (97, 122, St 467), (126, 126, St 467)]),
     (499, False, [(33, 33, St 467), (35, 35, Tr 485), (36, 36, St 467), (37, 37, St 31), (38, 45, St 467),
       (46, 46, St 495), (47, 47, Tr 486), (48, 53, St 494), (54, 57, St 467), (58, 58, Tr 499),
       (59, 59, St 467), (61, 61, St 467), (63, 63, Tr 488), (64, 64, Tr 38), (65, 90, St 467),
       (95, 95, St 467), (97, 122, St 467), (126, 126, St 467)]),
     (500, False, [(33, 33, St 467), (35, 35, Tr 485), (36, 36, St 467), (37, 37, St 31), (38, 45, St 467),
       (46, 46, St 493), (47, 47, Tr 486), (48, 57, St 501), (58, 58, Tr 499), (59, 59, St 467),
       (61, 61, St 467), (63, 63, Tr 488), (64, 64, Tr 38), (65, 90, St 467), (95, 95, St 467),
       (97, 122, St 467), (126, 126, St 467)]),
     (501, False, [(33, 33, St 467), (35, 35, Tr 485), (36, 36, St 467), (37, 37, St 31), (38, 45, St 467),
       (46, 46, St 493), (47, 47, Tr 486), (48, 57, St 492), (58, 58, Tr 499), (59, 59, St 467),
       (61, 61, St 467), (63, 63, Tr 488), (64, 64, Tr 38), (65, 90, St 467), (95, 95, St 467),
       (97, 122, St 467), (126, 126, St 467)])],
    [])"

definition uri_47 :: "uri_action chunk" where
  "uri_47 = (502, 505,
    [(502, False, [(33, 33, St 467), (35, 35, Tr 485), (36, 36, St 467), (37, 37, St 31), (38, 45, St 467),
       (46, 46, St 493), (47, 47, Tr 486), (48, 52, St 492), (53, 53, St 503), (54, 57, St 492),
       (58, 58, Tr 499), (59, 59, St 467), (61, 61, St 467), (63, 63, Tr 488), (64, 64, Tr 38),
       (65, 90, St 467), (95, 95, St 467), (97, 122, St 467), (126, 126, St 467)]),
     (503, False, [(33, 33, St 467), (35, 35, Tr 485), (36, 36, St 467), (37, 37, St 31), (38, 45, St 467),
       (46, 46, St 493), (47, 47, Tr 486), (48, 53, St 492), (54, 57, St 467), (58, 58, Tr 499),
       (59, 59, St 467), (61, 61, St 467), (63, 63, Tr 488), (64, 64, Tr 38), (65, 90, St 467),
       (95, 95, St 467), (97, 122, St 467), (126, 126, St 467)]),
     (504, False, [(33, 33, St 467), (35, 35, Tr 485), (36, 36, St 467), (37, 37, St 31), (38, 45, St 467),
       (46, 46, St 491), (47, 47, Tr 486), (48, 57, St 505), (58, 58, Tr 499), (59, 59, St 467),
       (61, 61, St 467), (63, 63, Tr 488), (64, 64, Tr 38), (65, 90, St 467), (95, 95, St 467),
       (97, 122, St 467), (126, 126, St 467)]),
     (505, False, [(33, 33, St 467), (35, 35, Tr 485), (36, 36, St 467), (37, 37, St 31), (38, 45, St 467),
       (46, 46, St 491), (47, 47, Tr 486), (48, 57, St 490), (58, 58, Tr 499), (59, 59, St 467),
       (61, 61, St 467), (63, 63, Tr 488), (64, 64, Tr 38), (65, 90, St 467), (95, 95, St 467),
       (97, 122, St 467), (126, 126, St 467)])],
    [(478, [MarkH], 504),
     (480, [MarkH], 505)])"

definition uri_48 :: "uri_action chunk" where
  "uri_48 = (506, 509,
    [(506, False, [(33, 33, St 467), (35, 35, Tr 485), (36, 36, St 467), (37, 37, St 31), (38, 45, St 467),
       (46, 46, St 491), (47, 47, Tr 486), (48, 52, St 490), (53, 53, St 507), (54, 57, St 490),
       (58, 58, Tr 499), (59, 59, St 467), (61, 61, St 467), (63, 63, Tr 488), (64, 64, Tr 38),
       (65, 90, St 467), (95, 95, St 467), (97, 122, St 467), (126, 126, St 467)]),
     (507, False, [(33, 33, St 467), (35, 35, Tr 485), (36, 36, St 467), (37, 37, St 31), (38, 45, St 467),
       (46, 46, St 491), (47, 47, Tr 486), (48, 53, St 490), (54, 57, St 467), (58, 58, Tr 499),
       (59, 59, St 467), (61, 61, St 467), (63, 63, Tr 488), (64, 64, Tr 38), (65, 90, St 467),
       (95, 95, St 467), (97, 122, St 467), (126, 126, St 467)]),
     (508, False, [((-128), (-1), St 452), (33, 33, St 452), (35, 35, St 453), (36, 36, St 452),
       (37, 37, St 3), (38, 42, St 452), (43, 43, St 508), (44, 44, St 452), (45, 46, St 508),
       (47, 47, St 455), (48, 57, St 508), (58, 58, Tr 543), (59, 59, St 452), (61, 61, St 452),
       (63, 63, St 456), (64, 64, St 452), (65, 90, St 508), (95, 95, St 452), (97, 122, St 508),
       (126, 126, St 452)]),
     (509, False, [((-128), (-1), St 455), (33, 33, St 455), (35, 35, St 453), (36, 36, St 455),
       (37, 37, St 5), (38, 46, St 455), (47, 47, St 510), (48, 59, St 455), (61, 61, St 455),
       (63, 63, St 456), (64, 90, St 455), (95, 95, St 455), (97, 122, St 455), (126, 126, St 455)])],
    [(479, [MarkH], 506),
     (461, [MarkU], 508),
     (543, [SaveScheme], 509)])"

definition uri_49 :: "uri_action chunk" where
  "uri_49 = (510, 511,
    [(510, False, [((-128), (-1), St 455), (33, 33, St 455), (35, 35, St 453), (36, 36, St 455),
       (37, 37, St 5), (38, 46, St 455), (47, 47, St 511), (48, 59, St 455), (61, 61, St 455),
       (63, 63, St 456), (64, 90, St 455), (95, 95, St 455), (97, 122, St 455), (126, 126, St 455)]),
     (511, False, [(2, 2, Tr 546), (33, 33, Tr 547), (35, 35, Tr 548), (36, 36, Tr 547), (37, 37, Tr 549),
       (38, 46, Tr 547), (47, 47, Tr 550), (48, 48, Tr 551), (49, 49, Tr 552), (50, 50, Tr 553),
       (51, 57, Tr 554), (58, 58, Tr 555), (59, 59, Tr 547), (61, 61, Tr 547), (63, 63, Tr 556),
       (64, 64, Tr 557), (65, 90, Tr 547), (91, 91, Tr 558), (95, 95, Tr 547), (97, 122, Tr 547),
       (126, 126, Tr 547)])],
    [])"

definition uri_50 :: "uri_action chunk" where
  "uri_50 = (229, 242,
    [(229, False, [(48, 52, St 230)]),
     (230, False, [(48, 57, St 231)]),
     (231, False, [(46, 46, St 232)]),
     (232, False, [(2, 2, St 233), (48, 48, St 235), (49, 49, St 249), (50, 50, St 251), (51, 57, St 250)]),
     (233, False, [(48, 52, St 234)]),
     (234, False, [(48, 57, St 235)]),
     (235, False, [(46, 46, St 236)]),
     (236, False, [(2, 2, St 237), (48, 48, St 239), (49, 49, St 245), (50, 50, St 247), (51, 57, St 246)]),
     (237, False, [(48, 52, St 238)]),
     (238, False, [(48, 57, St 239)]),
     (239, False, [(46, 46, St 240)]),
     (240, False, [(2, 2, St 241), (48, 48, St 512), (49, 49, St 516), (50, 50, St 518), (51, 57, St 517)]),
     (241, False, [(48, 52, St 242)]),
     (242, False, [(48, 57, St 512)])],
    [(546, [MarkH], 229)])"

definition uri_51 :: "uri_action chunk" where
  "uri_51 = (512, 513,
    [(512, False, [(35, 35, Tr 559), (47, 47, Tr 560), (58, 58, Tr 561), (63, 63, Tr 562)]),
     (513, False, [((-128), (-1), St 513), (33, 33, St 513), (35, 35, Tr 563), (36, 36, St 513),
       (37, 37, St 243), (38, 59, St 513), (61, 61, St 513), (63, 63, Tr 565), (64, 90, St 513),
       (95, 95, St 513), (97, 122, St 513), (126, 126, St 513)])],
    [(550, [MarkH, SaveHost], 513),
     (567, [MarkH, SavePort], 513),
     (560, [SaveHost, MarkH], 513),
     (571, [SavePort, MarkH], 513)])"

definition uri_52 :: "uri_action chunk" where
  "uri_52 = (243, 244,
    [(243, False, [(48, 57, St 244), (65, 70, St 244), (97, 102, St 244)]),
     (244, False, [(48, 57, St 513), (65, 70, St 513), (97, 102, St 513)])],
    [])"

definition uri_53 :: "uri_action chunk" where
  "uri_53 = (514, 519,
    [(514, False, [(35, 35, Tr 566), (47, 47, Tr 567), (48, 57, Tr 568), (63, 63, Tr 569)]),
     (515, False, [(35, 35, Tr 570), (47, 47, Tr 571), (48, 57, St 515), (63, 63, Tr 573)]),
     (516, False, [(35, 35, Tr 559), (47, 47, Tr 560), (48, 57, St 517), (58, 58, Tr 561), (63, 63, Tr 562)]),
     (517, False, [(35, 35, Tr 559), (47, 47, Tr 560), (48, 57, St 512), (58, 58, Tr 561), (63, 63, Tr 562)]),
     (518, False, [(35, 35, Tr 559), (47, 47, Tr 560), (48, 52, St 512), (53, 53, St 519), (54, 57, St 512),
       (58, 58, Tr 561), (63, 63, Tr 562)]),
     (519, False, [(35, 35, Tr 559), (47, 47, Tr 560), (48, 53, St 512), (58, 58, Tr 561), (63, 63, Tr 562)])],
    [(584, [MarkH, SaveHost], 514),
     (561, [SaveHost], 514),
     (568, [MarkH], 515)])"

definition uri_54 :: "uri_action chunk" where
  "uri_54 = (245, 252,
    [(245, False, [(46, 46, St 240), (48, 57, St 246)]),
     (246, False, [(46, 46, St 240), (48, 57, St 239)]),
     (247, False, [(46, 46, St 240), (48, 52, St 239), (53, 53, St 248), (54, 57, St 239)]),
     (248, False, [(46, 46, St 240), (48, 53, St 239)]),
     (249, False, [(46, 46, St 236), (48, 57, St 250)]),
     (250, False, [(46, 46, St 236), (48, 57, St 235)]),
     (251, False, [(46, 46, St 236), (48, 52, St 235), (53, 53, St 252), (54, 57, St 235)]),
     (252, False, [(46, 46, St 236), (48, 53, St 235)])],
    [])"

definition uri_55 :: "uri_action chunk" where
  "uri_55 = (520, 520,
    [(520, False, [(33, 33, St 520), (35, 35, Tr 559), (36, 36, St 520), (37, 37, St 253), (38, 46, St 520),
       (47, 47, Tr 560), (48, 57, St 520), (58, 58, Tr 576), (59, 59, St 520), (61, 61, St 520),
       (63, 63, Tr 562), (64, 64, Tr 263), (65, 90, St 520), (95, 95, St 520), (97, 122, St 520),
       (126, 126, St 520)])],
    [(547, [MarkH], 520)])"

definition uri_56 :: "uri_action chunk" where
  "uri_56 = (253, 254,
    [(253, False, [(48, 57, St 254), (65, 70, St 254), (97, 102, St 254)]),
     (254, False, [(48, 57, St 520), (65, 70, St 520), (97, 102, St 520)])],
    [(549, [MarkH], 253)])"

definition uri_57 :: "uri_action chunk" where
  "uri_57 = (521, 521,
    [(521, False, [(33, 33, St 255), (35, 35, Tr 566), (36, 36, St 255), (37, 37, St 256), (38, 46, St 255),
       (47, 47, Tr 567), (48, 57, Tr 577), (58, 59, St 255), (61, 61, St 255), (63, 63, Tr 569),
       (64, 64, Tr 263), (65, 90, St 255), (95, 95, St 255), (97, 122, St 255), (126, 126, St 255)])],
    [(555, [MarkH, SaveHost], 521),
     (576, [SaveHost], 521)])"

definition uri_58 :: "uri_action chunk" where
  "uri_58 = (255, 257,
    [(255, False, [(33, 33, St 255), (36, 36, St 255), (37, 37, St 256), (38, 46, St 255), (48, 59, St 255),
       (61, 61, St 255), (64, 64, Tr 263), (65, 90, St 255), (95, 95, St 255), (97, 122, St 255),
       (126, 126, St 255)]),
     (256, False, [(48, 57, St 257), (65, 70, St 257), (97, 102, St 257)]),
     (257, False, [(48, 57, St 255), (65, 70, St 255), (97, 102, St 255)])],
    [])"

definition uri_59 :: "uri_action chunk" where
  "uri_59 = (522, 523,
    [(522, False, [(2, 2, Tr 546), (33, 33, Tr 578), (35, 35, Tr 548), (36, 36, Tr 578), (37, 37, Tr 579),
       (38, 46, Tr 578), (47, 47, Tr 550), (48, 48, Tr 580), (49, 49, Tr 581), (50, 50, Tr 582),
       (51, 57, Tr 583), (58, 58, Tr 584), (59, 59, Tr 578), (61, 61, Tr 578), (63, 63, Tr 556),
       (65, 90, Tr 578), (91, 91, Tr 558), (95, 95, Tr 578), (97, 122, Tr 578), (126, 126, Tr 578)]),
     (523, False, [(33, 33, St 523), (35, 35, Tr 559), (36, 36, St 523), (37, 37, St 258), (38, 46, St 523),
       (47, 47, Tr 560), (48, 57, St 523), (58, 58, Tr 561), (59, 59, St 523), (61, 61, St 523),
       (63, 63, Tr 562), (65, 90, St 523), (95, 95, St 523), (97, 122, St 523), (126, 126, St 523)])],
    [(263, [SaveUserinfo], 522),
     (557, [MarkH, SaveUserinfo], 522),
     (578, [MarkH], 523)])"

definition uri_60 :: "uri_action chunk" where
  "uri_60 = (258, 259,
    [(258, False, [(48, 57, St 259), (65, 70, St 259), (97, 102, St 259)]),
     (259, False, [(48, 57, St 523), (65, 70, St 523), (97, 102, St 523)])],
    [(579, [MarkH], 258)])"

definition uri_61 :: "uri_action chunk" where
  "uri_61 = (524, 528,
    [(524, False, [(33, 33, St 523), (35, 35, Tr 559), (36, 36, St 523), (37, 37, St 258), (38, 45, St 523),
       (46, 46, St 525), (47, 47, Tr 560), (48, 57, St 523), (58, 58, Tr 561), (59, 59, St 523),
       (61, 61, St 523), (63, 63, Tr 562), (65, 90, St 523), (95, 95, St 523), (97, 122, St 523),
       (126, 126, St 523)]),
     (525, False, [(2, 2, St 233), (33, 33, St 523), (35, 35, Tr 559), (36, 36, St 523), (37, 37, St 258),
       (38, 46, St 523), (47, 47, Tr 560), (48, 48, St 526), (49, 49, St 534), (50, 50, St 536),
       (51, 57, St 535), (58, 58, Tr 561), (59, 59, St 523), (61, 61, St 523), (63, 63, Tr 562),
       (65, 90, St 523), (95, 95, St 523), (97, 122, St 523), (126, 126, St 523)]),
     (526, False, [(33, 33, St 523), (35, 35, Tr 559), (36, 36, St 523), (37, 37, St 258), (38, 45, St 523),
       (46, 46, St 527), (47, 47, Tr 560), (48, 57, St 523), (58, 58, Tr 561), (59, 59, St 523),
       (61, 61, St 523), (63, 63, Tr 562), (65, 90, St 523), (95, 95, St 523), (97, 122, St 523),
       (126, 126, St 523)]),
     (527, False, [(2, 2, St 237), (33, 33, St 523), (35, 35, Tr 559), (36, 36, St 523), (37, 37, St 258),
       (38, 46, St 523), (47, 47, Tr 560), (48, 48, St 528), (49, 49, St 530), (50, 50, St 532),
       (51, 57, St 531), (58, 58, Tr 561), (59, 59, St 523), (61, 61, St 523), (63, 63, Tr 562),
       (65, 90, St 523), (95, 95, St 523), (97, 122, St 523), (126, 126, St 523)]),
     (528, False, [(33, 33, St 523), (35, 35, Tr 559), (36, 36, St 523), (37, 37, St 258), (38, 45, St 523),
       (46, 46, St 529), (47, 47, Tr 560), (48, 57, St 523), (58, 58, Tr 561), (59, 59, St 523),
       (61, 61, St 523), (63, 63, Tr 562), (65, 90, St 523), (95, 95, St 523), (97, 122, St 523),
       (126, 126, St 523)])],
    [(580, [MarkH], 524)])"

definition uri_62 :: "uri_action chunk" where
  "uri_62 = (529, 533,
    [(529, False, [(2, 2, St 241), (33, 33, St 523), (35, 35, Tr 559), (36, 36, St 523), (37, 37, St 258),
       (38, 46, St 523), (47, 47, Tr 560), (48, 57, St 523), (58, 58, Tr 561), (59, 59, St 523),
       (61, 61, St 523), (63, 63, Tr 562), (65, 90, St 523), (95, 95, St 523), (97, 122, St 523),
       (126, 126, St 523)]),
     (530, False, [(33, 33, St 523), (35, 35, Tr 559), (36, 36, St 523), (37, 37, St 258), (38, 45, St 523),
       (46, 46, St 529), (47, 47, Tr 560), (48, 57, St 531), (58, 58, Tr 561), (59, 59, St 523),
       (61, 61, St 523), (63, 63, Tr 562), (65, 90, St 523), (95, 95, St 523), (97, 122, St 523),
       (126, 126, St 523)]),
     (531, False, [(33, 33, St 523), (35, 35, Tr 559), (36, 36, St 523), (37, 37, St 258), (38, 45, St 523),
       (46, 46, St 529), (47, 47, Tr 560), (48, 57, St 528), (58, 58, Tr 561), (59, 59, St 523),
       (61, 61, St 523), (63, 63, Tr 562), (65, 90, St 523), (95, 95, St 523), (97, 122, St 523),
       (126, 126, St 523)]),
     (532, False, [(33, 33, St 523), (35, 35, Tr 559), (36, 36, St 523), (37, 37, St 258), (38, 45, St 523),
       (46, 46, St 529), (47, 47, Tr 560), (48, 52, St 528), (53, 53, St 533), (54, 57, St 528),
       (58, 58, Tr 561), (59, 59, St 523), (61, 61, St 523), (63, 63, Tr 562), (65, 90, St 523),
       (95, 95, St 523), (97, 122, St 523), (126, 126, St 523)]),
     (533, False, [(33, 33, St 523), (35, 35, Tr 559), (36, 36, St 523), (37, 37, St 258), (38, 45, St 523),
       (46, 46, St 529), (47, 47, Tr 560), (48, 53, St 528), (54, 57, St 523), (58, 58, Tr 561),
       (59, 59, St 523), (61, 61, St 523), (63, 63, Tr 562), (65, 90, St 523), (95, 95, St 523),
       (97, 122, St 523), (126, 126, St 523)])],
    [])"

definition uri_63 :: "uri_action chunk" where
  "uri_63 = (534, 537,
    [(534, False, [(33, 33, St 523), (35, 35, Tr 559), (36, 36, St 523), (37, 37, St 258), (38, 45, St 523),
       (46, 46, St 527), (47, 47, Tr 560), (48, 57, St 535), (58, 58, Tr 561), (59, 59, St 523),
       (61, 61, St 523), (63, 63, Tr 562), (65, 90, St 523), (95, 95, St 523), (97, 122, St 523),
       (126, 126, St 523)]),
     (535, False, [(33, 33, St 523), (35, 35, Tr 559), (36, 36, St 523), (37, 37, St 258), (38, 45, St 523),
       (46, 46, St 527), (47, 47, Tr 560), (48, 57, St 526), (58, 58, Tr 561), (59, 59, St 523),
       (61, 61, St 523), (63, 63, Tr 562), (65, 90, St 523), (95, 95, St 523), (97, 122, St 523),
       (126, 126, St 523)]),
     (536, False, [(33, 33, St 523), (35, 35, Tr 559), (36, 36, St 523), (37, 37, St 258), (38, 45, St 523),
       (46, 46, St 527), (47, 47, Tr 560), (48, 52, St 526), (53, 53, St 537), (54, 57, St 526),
       (58, 58, Tr 561), (59, 59, St 523), (61, 61, St 523), (63, 63, Tr 562), (65, 90, St 523),
       (95, 95, St 523), (97, 122, St 523), (126, 126, St 523)]),
     (537, False, [(33, 33, St 523), (35, 35, Tr 559), (36, 36, St 523), (37, 37, St 258), (38, 45, St 523),
       (46, 46, St 527), (47, 47, Tr 560), (48, 53, St 526), (54, 57, St 523), (58, 58, Tr 561),
       (59, 59, St 523), (61, 61, St 523), (63, 63, Tr 562), (65, 90, St 523), (95, 95, St 523),
       (97, 122, St 523), (126, 126, St 523)])],
    [])"

definition uri_64 :: "uri_action chunk" where
  "uri_64 = (538, 541,
    [(538, False, [(33, 33, St 523), (35, 35, Tr 559), (36, 36, St 523), (37, 37, St 258), (38, 45, St 523),
       (46, 46, St 525), (47, 47, Tr 560), (48, 57, St 539), (58, 58, Tr 561), (59, 59, St 523),
       (61, 61, St 523), (63, 63, Tr 562), (65, 90, St 523), (95, 95, St 523), (97, 122, St 523),
       (126, 126, St 523)]),
     (539, False, [(33, 33, St 523), (35, 35, Tr 559), (36, 36, St 523), (37, 37, St 258), (38, 45, St 523),
       (46, 46, St 525), (47, 47, Tr 560), (48, 57, St 524), (58, 58, Tr 561), (59, 59, St 523),
       (61, 61, St 523), (63, 63, Tr 562), (65, 90, St 523), (95, 95, St 523), (97, 122, St 523),
       (126, 126, St 523)]),
     (540, False, [(33, 33, St 523), (35, 35, Tr 559), (36, 36, St 523), (37, 37, St 258), (38, 45, St 523),
       (46, 46, St 525), (47, 47, Tr 560), (48, 52, St 524), (53, 53, St 541), (54, 57, St 524),
       (58, 58, Tr 561), (59, 59, St 523), (61, 61, St 523), (63, 63, Tr 562), (65, 90, St 523),
       (95, 95, St 523), (97, 122, St 523), (126, 126, St 523)]),
     (541, False, [(33, 33, St 523), (35, 35, Tr 559), (36, 36, St 523), (37, 37, St 258), (38, 45, St 523),
       (46, 46, St 525), (47, 47, Tr 560), (48, 53, St 524), (54, 57, St 523), (58, 58, Tr 561),
       (59, 59, St 523), (61, 61, St 523), (63, 63, Tr 562), (65, 90, St 523), (95, 95, St 523),
       (97, 122, St 523), (126, 126, St 523)])],
    [(581, [MarkH], 538),
     (583, [MarkH], 539),
     (582, [MarkH], 540)])"

definition uri_65 :: "uri_action chunk" where
  "uri_65 = (260, 269,
    [(260, False, [(48, 57, St 261), (58, 58, St 368), (65, 70, St 261), (97, 102, St 261),
       (118, 118, St 447)]),
     (261, False, [(48, 57, St 262), (58, 58, St 265), (65, 70, St 262), (97, 102, St 262)]),
     (262, False, [(48, 57, St 263), (58, 58, St 265), (65, 70, St 263), (97, 102, St 263)]),
     (263, False, [(48, 57, St 264), (58, 58, St 265), (65, 70, St 264), (97, 102, St 264)]),
     (264, False, [(58, 58, St 265)]),
     (265, False, [(48, 57, St 266), (58, 58, St 363), (65, 70, St 266), (97, 102, St 266)]),
     (266, False, [(48, 57, St 267), (58, 58, St 270), (65, 70, St 267), (97, 102, St 267)]),
     (267, False, [(48, 57, St 268), (58, 58, St 270), (65, 70, St 268), (97, 102, St 268)]),
     (268, False, [(48, 57, St 269), (58, 58, St 270), (65, 70, St 269), (97, 102, St 269)]),
     (269, False, [(58, 58, St 270)])],
    [(558, [MarkH], 260)])"

definition uri_66 :: "uri_action chunk" where
  "uri_66 = (270, 280,
    [(270, False, [(48, 57, St 271), (58, 58, St 358), (65, 70, St 271), (97, 102, St 271)]),
     (271, False, [(48, 57, St 272), (58, 58, St 275), (65, 70, St 272), (97, 102, St 272)]),
     (272, False, [(48, 57, St 273), (58, 58, St 275), (65, 70, St 273), (97, 102, St 273)]),
     (273, False, [(48, 57, St 274), (58, 58, St 275), (65, 70, St 274), (97, 102, St 274)]),
     (274, False, [(58, 58, St 275)]),
     (275, False, [(48, 57, St 276), (58, 58, St 353), (65, 70, St 276), (97, 102, St 276)]),
     (276, False, [(48, 57, St 277), (58, 58, St 280), (65, 70, St 277), (97, 102, St 277)]),
     (277, False, [(48, 57, St 278), (58, 58, St 280), (65, 70, St 278), (97, 102, St 278)]),
     (278, False, [(48, 57, St 279), (58, 58, St 280), (65, 70, St 279), (97, 102, St 279)]),
     (279, False, [(58, 58, St 280)]),
     (280, False, [(48, 57, St 281), (58, 58, St 348), (65, 70, St 281), (97, 102, St 281)])],
    [])"

definition uri_67 :: "uri_action chunk" where
  "uri_67 = (281, 291,
    [(281, False, [(48, 57, St 282), (58, 58, St 285), (65, 70, St 282), (97, 102, St 282)]),
     (282, False, [(48, 57, St 283), (58, 58, St 285), (65, 70, St 283), (97, 102, St 283)]),
     (283, False, [(48, 57, St 284), (58, 58, St 285), (65, 70, St 284), (97, 102, St 284)]),
     (284, False, [(58, 58, St 285)]),
     (285, False, [(48, 57, St 286), (58, 58, St 335), (65, 70, St 286), (97, 102, St 286)]),
     (286, False, [(48, 57, St 287), (58, 58, St 290), (65, 70, St 287), (97, 102, St 287)]),
     (287, False, [(48, 57, St 288), (58, 58, St 290), (65, 70, St 288), (97, 102, St 288)]),
     (288, False, [(48, 57, St 289), (58, 58, St 290), (65, 70, St 289), (97, 102, St 289)]),
     (289, False, [(58, 58, St 290)]),
     (290, False, [(2, 2, St 291), (48, 48, St 318), (49, 49, St 326), (50, 50, St 329), (51, 57, St 332),
       (58, 58, St 333), (65, 70, St 334), (97, 102, St 334)]),
     (291, False, [(48, 52, St 292)])],
    [])"

definition uri_68 :: "uri_action chunk" where
  "uri_68 = (292, 308,
    [(292, False, [(48, 57, St 293)]),
     (293, False, [(46, 46, St 294)]),
     (294, False, [(2, 2, St 295), (48, 48, St 297), (49, 49, St 314), (50, 50, St 316), (51, 57, St 315)]),
     (295, False, [(48, 52, St 296)]),
     (296, False, [(48, 57, St 297)]),
     (297, False, [(46, 46, St 298)]),
     (298, False, [(2, 2, St 299), (48, 48, St 301), (49, 49, St 310), (50, 50, St 312), (51, 57, St 311)]),
     (299, False, [(48, 52, St 300)]),
     (300, False, [(48, 57, St 301)]),
     (301, False, [(46, 46, St 302)]),
     (302, False, [(2, 2, St 303), (48, 48, St 305), (49, 49, St 306), (50, 50, St 308), (51, 57, St 307)]),
     (303, False, [(48, 52, St 304)]),
     (304, False, [(48, 57, St 305)]),
     (305, False, [(93, 93, St 512)]),
     (306, False, [(48, 57, St 307), (93, 93, St 512)]),
     (307, False, [(48, 57, St 305), (93, 93, St 512)]),
     (308, False, [(48, 52, St 305), (53, 53, St 309), (54, 57, St 305), (93, 93, St 512)])],
    [])"

definition uri_69 :: "uri_action chunk" where
  "uri_69 = (309, 321,
    [(309, False, [(48, 53, St 305), (93, 93, St 512)]),
     (310, False, [(46, 46, St 302), (48, 57, St 311)]),
     (311, False, [(46, 46, St 302), (48, 57, St 301)]),
     (312, False, [(46, 46, St 302), (48, 52, St 301), (53, 53, St 313), (54, 57, St 301)]),
     (313, False, [(46, 46, St 302), (48, 53, St 301)]),
     (314, False, [(46, 46, St 298), (48, 57, St 315)]),
     (315, False, [(46, 46, St 298), (48, 57, St 297)]),
     (316, False, [(46, 46, St 298), (48, 52, St 297), (53, 53, St 317), (54, 57, St 297)]),
     (317, False, [(46, 46, St 298), (48, 53, St 297)]),
     (318, False, [(46, 46, St 294), (48, 57, St 319), (58, 58, St 322), (65, 70, St 319),
       (97, 102, St 319)]),
     (319, False, [(48, 57, St 320), (58, 58, St 322), (65, 70, St 320), (97, 102, St 320)]),
     (320, False, [(48, 57, St 321), (58, 58, St 322), (65, 70, St 321), (97, 102, St 321)]),
     (321, False, [(58, 58, St 322)])],
    [])"

definition uri_70 :: "uri_action chunk" where
  "uri_70 = (322, 330,
    [(322, False, [(48, 57, St 323), (58, 58, St 305), (65, 70, St 323), (97, 102, St 323)]),
     (323, False, [(48, 57, St 324), (65, 70, St 324), (93, 93, St 512), (97, 102, St 324)]),
     (324, False, [(48, 57, St 325), (65, 70, St 325), (93, 93, St 512), (97, 102, St 325)]),
     (325, False, [(48, 57, St 305), (65, 70, St 305), (93, 93, St 512), (97, 102, St 305)]),
     (326, False, [(46, 46, St 294), (48, 57, St 327), (58, 58, St 322), (65, 70, St 319),
       (97, 102, St 319)]),
     (327, False, [(46, 46, St 294), (48, 57, St 328), (58, 58, St 322), (65, 70, St 320),
       (97, 102, St 320)]),
     (328, False, [(46, 46, St 294), (48, 57, St 321), (58, 58, St 322), (65, 70, St 321),
       (97, 102, St 321)]),
     (329, False, [(46, 46, St 294), (48, 52, St 330), (53, 53, St 331), (54, 57, St 330), (58, 58, St 322),
       (65, 70, St 319), (97, 102, St 319)]),
     (330, False, [(46, 46, St 294), (48, 57, St 320), (58, 58, St 322), (65, 70, St 320),
       (97, 102, St 320)])],
    [])"

definition uri_71 :: "uri_action chunk" where
  "uri_71 = (331, 339,
    [(331, False, [(46, 46, St 294), (48, 53, St 328), (54, 57, St 320), (58, 58, St 322), (65, 70, St 320),
       (97, 102, St 320)]),
     (332, False, [(46, 46, St 294), (48, 57, St 330), (58, 58, St 322), (65, 70, St 319),
       (97, 102, St 319)]),
     (333, False, [(48, 57, St 323), (65, 70, St 323), (97, 102, St 323)]),
     (334, False, [(48, 57, St 319), (58, 58, St 322), (65, 70, St 319), (97, 102, St 319)]),
     (335, False, [(2, 2, St 291), (48, 48, St 336), (49, 49, St 340), (50, 50, St 343), (51, 57, St 346),
       (65, 70, St 347), (97, 102, St 347)]),
     (336, False, [(46, 46, St 294), (48, 57, St 337), (58, 58, St 333), (65, 70, St 337),
       (97, 102, St 337)]),
     (337, False, [(48, 57, St 338), (58, 58, St 333), (65, 70, St 338), (97, 102, St 338)]),
     (338, False, [(48, 57, St 339), (58, 58, St 333), (65, 70, St 339), (97, 102, St 339)]),
     (339, False, [(58, 58, St 333)])],
    [])"

definition uri_72 :: "uri_action chunk" where
  "uri_72 = (340, 347,
    [(340, False, [(46, 46, St 294), (48, 57, St 341), (58, 58, St 333), (65, 70, St 337),
       (97, 102, St 337)]),
     (341, False, [(46, 46, St 294), (48, 57, St 342), (58, 58, St 333), (65, 70, St 338),
       (97, 102, St 338)]),
     (342, False, [(46, 46, St 294), (48, 57, St 339), (58, 58, St 333), (65, 70, St 339),
       (97, 102, St 339)]),
     (343, False, [(46, 46, St 294), (48, 52, St 344), (53, 53, St 345), (54, 57, St 344), (58, 58, St 333),
       (65, 70, St 337), (97, 102, St 337)]),
     (344, False, [(46, 46, St 294), (48, 57, St 338), (58, 58, St 333), (65, 70, St 338),
       (97, 102, St 338)]),
     (345, False, [(46, 46, St 294), (48, 53, St 342), (54, 57, St 338), (58, 58, St 333), (65, 70, St 338),
       (97, 102, St 338)]),
     (346, False, [(46, 46, St 294), (48, 57, St 344), (58, 58, St 333), (65, 70, St 337),
       (97, 102, St 337)]),
     (347, False, [(48, 57, St 337), (58, 58, St 333), (65, 70, St 337), (97, 102, St 337)])],
    [])"

definition uri_73 :: "uri_action chunk" where
  "uri_73 = (348, 358,
    [(348, False, [(48, 57, St 349), (65, 70, St 349), (97, 102, St 349)]),
     (349, False, [(48, 57, St 350), (58, 58, St 335), (65, 70, St 350), (97, 102, St 350)]),
     (350, False, [(48, 57, St 351), (58, 58, St 335), (65, 70, St 351), (97, 102, St 351)]),
     (351, False, [(48, 57, St 352), (58, 58, St 335), (65, 70, St 352), (97, 102, St 352)]),
     (352, False, [(58, 58, St 335)]),
     (353, False, [(48, 57, St 354), (65, 70, St 354), (97, 102, St 354)]),
     (354, False, [(48, 57, St 355), (58, 58, St 348), (65, 70, St 355), (97, 102, St 355)]),
     (355, False, [(48, 57, St 356), (58, 58, St 348), (65, 70, St 356), (97, 102, St 356)]),
     (356, False, [(48, 57, St 357), (58, 58, St 348), (65, 70, St 357), (97, 102, St 357)]),
     (357, False, [(58, 58, St 348)]),
     (358, False, [(48, 57, St 359), (65, 70, St 359), (97, 102, St 359)])],
    [])"

definition uri_74 :: "uri_action chunk" where
  "uri_74 = (359, 369,
    [(359, False, [(48, 57, St 360), (58, 58, St 353), (65, 70, St 360), (97, 102, St 360)]),
     (360, False, [(48, 57, St 361), (58, 58, St 353), (65, 70, St 361), (97, 102, St 361)]),
     (361, False, [(48, 57, St 362), (58, 58, St 353), (65, 70, St 362), (97, 102, St 362)]),
     (362, False, [(58, 58, St 353)]),
     (363, False, [(48, 57, St 364), (65, 70, St 364), (97, 102, St 364)]),
     (364, False, [(48, 57, St 365), (58, 58, St 358), (65, 70, St 365), (97, 102, St 365)]),
     (365, False, [(48, 57, St 366), (58, 58, St 358), (65, 70, St 366), (97, 102, St 366)]),
     (366, False, [(48, 57, St 367), (58, 58, St 358), (65, 70, St 367), (97, 102, St 367)]),
     (367, False, [(58, 58, St 358)]),
     (368, False, [(58, 58, St 369)]),
     (369, False, [(2, 2, St 291), (48, 48, St 370), (49, 49, St 439), (50, 50, St 442), (51, 57, St 445),
       (65, 70, St 446), (93, 93, St 512), (97, 102, St 446)])],
    [])"

definition uri_75 :: "uri_action chunk" where
  "uri_75 = (370, 378,
    [(370, False, [(46, 46, St 294), (48, 57, St 371), (58, 58, St 374), (65, 70, St 371), (93, 93, St 512),
       (97, 102, St 371)]),
     (371, False, [(48, 57, St 372), (58, 58, St 374), (65, 70, St 372), (93, 93, St 512),
       (97, 102, St 372)]),
     (372, False, [(48, 57, St 373), (58, 58, St 374), (65, 70, St 373), (93, 93, St 512),
       (97, 102, St 373)]),
     (373, False, [(58, 58, St 374), (93, 93, St 512)]),
     (374, False, [(2, 2, St 291), (48, 48, St 375), (49, 49, St 431), (50, 50, St 434), (51, 57, St 437),
       (65, 70, St 438), (97, 102, St 438)]),
     (375, False, [(46, 46, St 294), (48, 57, St 376), (58, 58, St 379), (65, 70, St 376), (93, 93, St 512),
       (97, 102, St 376)]),
     (376, False, [(48, 57, St 377), (58, 58, St 379), (65, 70, St 377), (93, 93, St 512),
       (97, 102, St 377)]),
     (377, False, [(48, 57, St 378), (58, 58, St 379), (65, 70, St 378), (93, 93, St 512),
       (97, 102, St 378)]),
     (378, False, [(58, 58, St 379), (93, 93, St 512)])],
    [])"

definition uri_76 :: "uri_action chunk" where
  "uri_76 = (379, 386,
    [(379, False, [(2, 2, St 291), (48, 48, St 380), (49, 49, St 423), (50, 50, St 426), (51, 57, St 429),
       (65, 70, St 430), (97, 102, St 430)]),
     (380, False, [(46, 46, St 294), (48, 57, St 381), (58, 58, St 384), (65, 70, St 381), (93, 93, St 512),
       (97, 102, St 381)]),
     (381, False, [(48, 57, St 382), (58, 58, St 384), (65, 70, St 382), (93, 93, St 512),
       (97, 102, St 382)]),
     (382, False, [(48, 57, St 383), (58, 58, St 384), (65, 70, St 383), (93, 93, St 512),
       (97, 102, St 383)]),
     (383, False, [(58, 58, St 384), (93, 93, St 512)]),
     (384, False, [(2, 2, St 291), (48, 48, St 385), (49, 49, St 415), (50, 50, St 418), (51, 57, St 421),
       (65, 70, St 422), (97, 102, St 422)]),
     (385, False, [(46, 46, St 294), (48, 57, St 386), (58, 58, St 389), (65, 70, St 386), (93, 93, St 512),
       (97, 102, St 386)]),
     (386, False, [(48, 57, St 387), (58, 58, St 389), (65, 70, St 387), (93, 93, St 512),
       (97, 102, St 387)])],
    [])"

definition uri_77 :: "uri_action chunk" where
  "uri_77 = (387, 395,
    [(387, False, [(48, 57, St 388), (58, 58, St 389), (65, 70, St 388), (93, 93, St 512),
       (97, 102, St 388)]),
     (388, False, [(58, 58, St 389), (93, 93, St 512)]),
     (389, False, [(2, 2, St 291), (48, 48, St 390), (49, 49, St 407), (50, 50, St 410), (51, 57, St 413),
       (65, 70, St 414), (97, 102, St 414)]),
     (390, False, [(46, 46, St 294), (48, 57, St 391), (58, 58, St 394), (65, 70, St 391), (93, 93, St 512),
       (97, 102, St 391)]),
     (391, False, [(48, 57, St 392), (58, 58, St 394), (65, 70, St 392), (93, 93, St 512),
       (97, 102, St 392)]),
     (392, False, [(48, 57, St 393), (58, 58, St 394), (65, 70, St 393), (93, 93, St 512),
       (97, 102, St 393)]),
     (393, False, [(58, 58, St 394), (93, 93, St 512)]),
     (394, False, [(2, 2, St 291), (48, 48, St 395), (49, 49, St 399), (50, 50, St 402), (51, 57, St 405),
       (65, 70, St 406), (97, 102, St 406)]),
     (395, False, [(46, 46, St 294), (48, 57, St 396), (58, 58, St 333), (65, 70, St 396), (93, 93, St 512),
       (97, 102, St 396)])],
    [])"

definition uri_78 :: "uri_action chunk" where
  "uri_78 = (396, 403,
    [(396, False, [(48, 57, St 397), (58, 58, St 333), (65, 70, St 397), (93, 93, St 512),
       (97, 102, St 397)]),
     (397, False, [(48, 57, St 398), (58, 58, St 333), (65, 70, St 398), (93, 93, St 512),
       (97, 102, St 398)]),
     (398, False, [(58, 58, St 333), (93, 93, St 512)]),
     (399, False, [(46, 46, St 294), (48, 57, St 400), (58, 58, St 333), (65, 70, St 396), (93, 93, St 512),
       (97, 102, St 396)]),
     (400, False, [(46, 46, St 294), (48, 57, St 401), (58, 58, St 333), (65, 70, St 397), (93, 93, St 512),
       (97, 102, St 397)]),
     (401, False, [(46, 46, St 294), (48, 57, St 398), (58, 58, St 333), (65, 70, St 398), (93, 93, St 512),
       (97, 102, St 398)]),
     (402, False, [(46, 46, St 294), (48, 52, St 403), (53, 53, St 404), (54, 57, St 403), (58, 58, St 333),
       (65, 70, St 396), (93, 93, St 512), (97, 102, St 396)]),
     (403, False, [(46, 46, St 294), (48, 57, St 397), (58, 58, St 333), (65, 70, St 397), (93, 93, St 512),
       (97, 102, St 397)])],
    [])"

definition uri_79 :: "uri_action chunk" where
  "uri_79 = (404, 411,
    [(404, False, [(46, 46, St 294), (48, 53, St 401), (54, 57, St 397), (58, 58, St 333), (65, 70, St 397),
       (93, 93, St 512), (97, 102, St 397)]),
     (405, False, [(46, 46, St 294), (48, 57, St 403), (58, 58, St 333), (65, 70, St 396), (93, 93, St 512),
       (97, 102, St 396)]),
     (406, False, [(48, 57, St 396), (58, 58, St 333), (65, 70, St 396), (93, 93, St 512),
       (97, 102, St 396)]),
     (407, False, [(46, 46, St 294), (48, 57, St 408), (58, 58, St 394), (65, 70, St 391), (93, 93, St 512),
       (97, 102, St 391)]),
     (408, False, [(46, 46, St 294), (48, 57, St 409), (58, 58, St 394), (65, 70, St 392), (93, 93, St 512),
       (97, 102, St 392)]),
     (409, False, [(46, 46, St 294), (48, 57, St 393), (58, 58, St 394), (65, 70, St 393), (93, 93, St 512),
       (97, 102, St 393)]),
     (410, False, [(46, 46, St 294), (48, 52, St 411), (53, 53, St 412), (54, 57, St 411), (58, 58, St 394),
       (65, 70, St 391), (93, 93, St 512), (97, 102, St 391)]),
     (411, False, [(46, 46, St 294), (48, 57, St 392), (58, 58, St 394), (65, 70, St 392), (93, 93, St 512),
       (97, 102, St 392)])],
    [])"

definition uri_80 :: "uri_action chunk" where
  "uri_80 = (412, 419,
    [(412, False, [(46, 46, St 294), (48, 53, St 409), (54, 57, St 392), (58, 58, St 394), (65, 70, St 392),
       (93, 93, St 512), (97, 102, St 392)]),
     (413, False, [(46, 46, St 294), (48, 57, St 411), (58, 58, St 394), (65, 70, St 391), (93, 93, St 512),
       (97, 102, St 391)]),
     (414, False, [(48, 57, St 391), (58, 58, St 394), (65, 70, St 391), (93, 93, St 512),
       (97, 102, St 391)]),
     (415, False, [(46, 46, St 294), (48, 57, St 416), (58, 58, St 389), (65, 70, St 386), (93, 93, St 512),
       (97, 102, St 386)]),
     (416, False, [(46, 46, St 294), (48, 57, St 417), (58, 58, St 389), (65, 70, St 387), (93, 93, St 512),
       (97, 102, St 387)]),
     (417, False, [(46, 46, St 294), (48, 57, St 388), (58, 58, St 389), (65, 70, St 388), (93, 93, St 512),
       (97, 102, St 388)]),
     (418, False, [(46, 46, St 294), (48, 52, St 419), (53, 53, St 420), (54, 57, St 419), (58, 58, St 389),
       (65, 70, St 386), (93, 93, St 512), (97, 102, St 386)]),
     (419, False, [(46, 46, St 294), (48, 57, St 387), (58, 58, St 389), (65, 70, St 387), (93, 93, St 512),
       (97, 102, St 387)])],
    [])"

definition uri_81 :: "uri_action chunk" where
  "uri_81 = (420, 427,
    [(420, False, [(46, 46, St 294), (48, 53, St 417), (54, 57, St 387), (58, 58, St 389), (65, 70, St 387),
       (93, 93, St 512), (97, 102, St 387)]),
     (421, False, [(46, 46, St 294), (48, 57, St 419), (58, 58, St 389), (65, 70, St 386), (93, 93, St 512),
       (97, 102, St 386)]),
     (422, False, [(48, 57, St 386), (58, 58, St 389), (65, 70, St 386), (93, 93, St 512),
       (97, 102, St 386)]),
     (423, False, [(46, 46, St 294), (48, 57, St 424), (58, 58, St 384), (65, 70, St 381), (93, 93, St 512),
       (97, 102, St 381)]),
     (424, False, [(46, 46, St 294), (48, 57, St 425), (58, 58, St 384), (65, 70, St 382), (93, 93, St 512),
       (97, 102, St 382)]),
     (425, False, [(46, 46, St 294), (48, 57, St 383), (58, 58, St 384), (65, 70, St 383), (93, 93, St 512),
       (97, 102, St 383)]),
     (426, False, [(46, 46, St 294), (48, 52, St 427), (53, 53, St 428), (54, 57, St 427), (58, 58, St 384),
       (65, 70, St 381), (93, 93, St 512), (97, 102, St 381)]),
     (427, False, [(46, 46, St 294), (48, 57, St 382), (58, 58, St 384), (65, 70, St 382), (93, 93, St 512),
       (97, 102, St 382)])],
    [])"

definition uri_82 :: "uri_action chunk" where
  "uri_82 = (428, 435,
    [(428, False, [(46, 46, St 294), (48, 53, St 425), (54, 57, St 382), (58, 58, St 384), (65, 70, St 382),
       (93, 93, St 512), (97, 102, St 382)]),
     (429, False, [(46, 46, St 294), (48, 57, St 427), (58, 58, St 384), (65, 70, St 381), (93, 93, St 512),
       (97, 102, St 381)]),
     (430, False, [(48, 57, St 381), (58, 58, St 384), (65, 70, St 381), (93, 93, St 512),
       (97, 102, St 381)]),
     (431, False, [(46, 46, St 294), (48, 57, St 432), (58, 58, St 379), (65, 70, St 376), (93, 93, St 512),
       (97, 102, St 376)]),
     (432, False, [(46, 46, St 294), (48, 57, St 433), (58, 58, St 379), (65, 70, St 377), (93, 93, St 512),
       (97, 102, St 377)]),
     (433, False, [(46, 46, St 294), (48, 57, St 378), (58, 58, St 379), (65, 70, St 378), (93, 93, St 512),
       (97, 102, St 378)]),
     (434, False, [(46, 46, St 294), (48, 52, St 435), (53, 53, St 436), (54, 57, St 435), (58, 58, St 379),
       (65, 70, St 376), (93, 93, St 512), (97, 102, St 376)]),
     (435, False, [(46, 46, St 294), (48, 57, St 377), (58, 58, St 379), (65, 70, St 377), (93, 93, St 512),
       (97, 102, St 377)])],
    [])"

definition uri_83 :: "uri_action chunk" where
  "uri_83 = (436, 443,
    [(436, False, [(46, 46, St 294), (48, 53, St 433), (54, 57, St 377), (58, 58, St 379), (65, 70, St 377),
       (93, 93, St 512), (97, 102, St 377)]),
     (437, False, [(46, 46, St 294), (48, 57, St 435), (58, 58, St 379), (65, 70, St 376), (93, 93, St 512),
       (97, 102, St 376)]),
     (438, False, [(48, 57, St 376), (58, 58, St 379), (65, 70, St 376), (93, 93, St 512),
       (97, 102, St 376)]),
     (439, False, [(46, 46, St 294), (48, 57, St 440), (58, 58, St 374), (65, 70, St 371), (93, 93, St 512),
       (97, 102, St 371)]),
     (440, False, [(46, 46, St 294), (48, 57, St 441), (58, 58, St 374), (65, 70, St 372), (93, 93, St 512),
       (97, 102, St 372)]),
     (441, False, [(46, 46, St 294), (48, 57, St 373), (58, 58, St 374), (65, 70, St 373), (93, 93, St 512),
       (97, 102, St 373)]),
     (442, False, [(46, 46, St 294), (48, 52, St 443), (53, 53, St 444), (54, 57, St 443), (58, 58, St 374),
       (65, 70, St 371), (93, 93, St 512), (97, 102, St 371)]),
     (443, False, [(46, 46, St 294), (48, 57, St 372), (58, 58, St 374), (65, 70, St 372), (93, 93, St 512),
       (97, 102, St 372)])],
    [])"

definition uri_84 :: "uri_action chunk" where
  "uri_84 = (444, 450,
    [(444, False, [(46, 46, St 294), (48, 53, St 441), (54, 57, St 372), (58, 58, St 374), (65, 70, St 372),
       (93, 93, St 512), (97, 102, St 372)]),
     (445, False, [(46, 46, St 294), (48, 57, St 443), (58, 58, St 374), (65, 70, St 371), (93, 93, St 512),
       (97, 102, St 371)]),
     (446, False, [(48, 57, St 371), (58, 58, St 374), (65, 70, St 371), (93, 93, St 512),
       (97, 102, St 371)]),
     (447, False, [(48, 57, St 448), (65, 70, St 448), (97, 102, St 448)]),
     (448, False, [(46, 46, St 449), (48, 57, St 448), (65, 70, St 448), (97, 102, St 448)]),
     (449, False, [(33, 33, St 450), (36, 36, St 450), (38, 46, St 450), (48, 59, St 450), (61, 61, St 450),
       (65, 90, St 450), (95, 95, St 450), (97, 122, St 450), (126, 126, St 450)]),
     (450, False, [(33, 33, St 450), (36, 36, St 450), (38, 46, St 450), (48, 59, St 450), (61, 61, St 450),
       (65, 90, St 450), (93, 93, St 512), (95, 95, St 450), (97, 122, St 450), (126, 126, St 450)])],
    [])"

definition uri_85 :: "uri_action chunk" where
  "uri_85 = (542, 545,
    [(542, False, [(33, 33, St 255), (35, 35, Tr 570), (36, 36, St 255), (37, 37, St 256), (38, 46, St 255),
       (47, 47, Tr 571), (48, 57, St 542), (58, 59, St 255), (61, 61, St 255), (63, 63, Tr 573),
       (64, 64, Tr 263), (65, 90, St 255), (95, 95, St 255), (97, 122, St 255), (126, 126, St 255)]),
     (543, False, [(33, 33, St 520), (35, 35, Tr 559), (36, 36, St 520), (37, 37, St 253), (38, 45, St 520),
       (46, 46, St 544), (47, 47, Tr 560), (48, 57, St 520), (58, 58, Tr 576), (59, 59, St 520),
       (61, 61, St 520), (63, 63, Tr 562), (64, 64, Tr 263), (65, 90, St 520), (95, 95, St 520),
       (97, 122, St 520), (126, 126, St 520)]),
     (544, False, [(2, 2, St 233), (33, 33, St 520), (35, 35, Tr 559), (36, 36, St 520), (37, 37, St 253),
       (38, 46, St 520), (47, 47, Tr 560), (48, 48, St 545), (49, 49, St 553), (50, 50, St 555),
       (51, 57, St 554), (58, 58, Tr 576), (59, 59, St 520), (61, 61, St 520), (63, 63, Tr 562),
       (64, 64, Tr 263), (65, 90, St 520), (95, 95, St 520), (97, 122, St 520), (126, 126, St 520)]),
     (545, False, [(33, 33, St 520), (35, 35, Tr 559), (36, 36, St 520), (37, 37, St 253), (38, 45, St 520),
       (46, 46, St 546), (47, 47, Tr 560), (48, 57, St 520), (58, 58, Tr 576), (59, 59, St 520),
       (61, 61, St 520), (63, 63, Tr 562), (64, 64, Tr 263), (65, 90, St 520), (95, 95, St 520),
       (97, 122, St 520), (126, 126, St 520)])],
    [(577, [MarkH], 542),
     (551, [MarkH], 543)])"

definition uri_86 :: "uri_action chunk" where
  "uri_86 = (546, 550,
    [(546, False, [(2, 2, St 237), (33, 33, St 520), (35, 35, Tr 559), (36, 36, St 520), (37, 37, St 253),
       (38, 46, St 520), (47, 47, Tr 560), (48, 48, St 547), (49, 49, St 549), (50, 50, St 551),
       (51, 57, St 550), (58, 58, Tr 576), (59, 59, St 520), (61, 61, St 520), (63, 63, Tr 562),
       (64, 64, Tr 263), (65, 90, St 520), (95, 95, St 520), (97, 122, St 520), (126, 126, St 520)]),
     (547, False, [(33, 33, St 520), (35, 35, Tr 559), (36, 36, St 520), (37, 37, St 253), (38, 45, St 520),
       (46, 46, St 548), (47, 47, Tr 560), (48, 57, St 520), (58, 58, Tr 576), (59, 59, St 520),
       (61, 61, St 520), (63, 63, Tr 562), (64, 64, Tr 263), (65, 90, St 520), (95, 95, St 520),
       (97, 122, St 520), (126, 126, St 520)]),
     (548, False, [(2, 2, St 241), (33, 33, St 520), (35, 35, Tr 559), (36, 36, St 520), (37, 37, St 253),
       (38, 46, St 520), (47, 47, Tr 560), (48, 57, St 520), (58, 58, Tr 576), (59, 59, St 520),
       (61, 61, St 520), (63, 63, Tr 562), (64, 64, Tr 263), (65, 90, St 520), (95, 95, St 520),
       (97, 122, St 520), (126, 126, St 520)]),
     (549, False, [(33, 33, St 520), (35, 35, Tr 559), (36, 36, St 520), (37, 37, St 253), (38, 45, St 520),
       (46, 46, St 548), (47, 47, Tr 560), (48, 57, St 550), (58, 58, Tr 576), (59, 59, St 520),
       (61, 61, St 520), (63, 63, Tr 562), (64, 64, Tr 263), (65, 90, St 520), (95, 95, St 520),
       (97, 122, St 520), (126, 126, St 520)]),
     (550, False, [(33, 33, St 520), (35, 35, Tr 559), (36, 36, St 520), (37, 37, St 253), (38, 45, St 520),
       (46, 46, St 548), (47, 47, Tr 560), (48, 57, St 547), (58, 58, Tr 576), (59, 59, St 520),
       (61, 61, St 520), (63, 63, Tr 562), (64, 64, Tr 263), (65, 90, St 520), (95, 95, St 520),
       (97, 122, St 520), (126, 126, St 520)])],
    [])"

definition uri_87 :: "uri_action chunk" where
  "uri_87 = (551, 554,
    [(551, False, [(33, 33, St 520), (35, 35, Tr 559), (36, 36, St 520), (37, 37, St 253), (38, 45, St 520),
       (46, 46, St 548), (47, 47, Tr 560), (48, 52, St 547), (53, 53, St 552), (54, 57, St 547),
       (58, 58, Tr 576), (59, 59, St 520), (61, 61, St 520), (63, 63, Tr 562), (64, 64, Tr 263),
       (65, 90, St 520), (95, 95, St 520), (97, 122, St 520), (126, 126, St 520)]),
     (552, False, [(33, 33, St 520), (35, 35, Tr 559), (36, 36, St 520), (37, 37, St 253), (38, 45, St 520),
       (46, 46, St 548), (47, 47, Tr 560), (48, 53, St 547), (54, 57, St 520), (58, 58, Tr 576),
       (59, 59, St 520), (61, 61, St 520), (63, 63, Tr 562), (64, 64, Tr 263), (65, 90, St 520),
       (95, 95, St 520), (97, 122, St 520), (126, 126, St 520)]),
     (553, False, [(33, 33, St 520), (35, 35, Tr 559), (36, 36, St 520), (37, 37, St 253), (38, 45, St 520),
       (46, 46, St 546), (47, 47, Tr 560), (48, 57, St 554), (58, 58, Tr 576), (59, 59, St 520),
       (61, 61, St 520), (63, 63, Tr 562), (64, 64, Tr 263), (65, 90, St 520), (95, 95, St 520),
       (97, 122, St 520), (126, 126, St 520)]),
     (554, False, [(33, 33, St 520), (35, 35, Tr 559), (36, 36, St 520), (37, 37, St 253), (38, 45, St 520),
       (46, 46, St 546), (47, 47, Tr 560), (48, 57, St 545), (58, 58, Tr 576), (59, 59, St 520),
       (61, 61, St 520), (63, 63, Tr 562), (64, 64, Tr 263), (65, 90, St 520), (95, 95, St 520),
       (97, 122, St 520), (126, 126, St 520)])],
    [])"

definition uri_88 :: "uri_action chunk" where
  "uri_88 = (555, 558,
    [(555, False, [(33, 33, St 520), (35, 35, Tr 559), (36, 36, St 520), (37, 37, St 253), (38, 45, St 520),
       (46, 46, St 546), (47, 47, Tr 560), (48, 52, St 545), (53, 53, St 556), (54, 57, St 545),
       (58, 58, Tr 576), (59, 59, St 520), (61, 61, St 520), (63, 63, Tr 562), (64, 64, Tr 263),
       (65, 90, St 520), (95, 95, St 520), (97, 122, St 520), (126, 126, St 520)]),
     (556, False, [(33, 33, St 520), (35, 35, Tr 559), (36, 36, St 520), (37, 37, St 253), (38, 45, St 520),
       (46, 46, St 546), (47, 47, Tr 560), (48, 53, St 545), (54, 57, St 520), (58, 58, Tr 576),
       (59, 59, St 520), (61, 61, St 520), (63, 63, Tr 562), (64, 64, Tr 263), (65, 90, St 520),
       (95, 95, St 520), (97, 122, St 520), (126, 126, St 520)]),
     (557, False, [(33, 33, St 520), (35, 35, Tr 559), (36, 36, St 520), (37, 37, St 253), (38, 45, St 520),
       (46, 46, St 544), (47, 47, Tr 560), (48, 57, St 558), (58, 58, Tr 576), (59, 59, St 520),
       (61, 61, St 520), (63, 63, Tr 562), (64, 64, Tr 263), (65, 90, St 520), (95, 95, St 520),
       (97, 122, St 520), (126, 126, St 520)]),
     (558, False, [(33, 33, St 520), (35, 35, Tr 559), (36, 36, St 520), (37, 37, St 253), (38, 45, St 520),
       (46, 46, St 544), (47, 47, Tr 560), (48, 57, St 543), (58, 58, Tr 576), (59, 59, St 520),
       (61, 61, St 520), (63, 63, Tr 562), (64, 64, Tr 263), (65, 90, St 520), (95, 95, St 520),
       (97, 122, St 520), (126, 126, St 520)])],
    [(552, [MarkH], 557),
     (554, [MarkH], 558)])"

definition uri_89 :: "uri_action chunk" where
  "uri_89 = (559, 560,
    [(559, False, [(33, 33, St 520), (35, 35, Tr 559), (36, 36, St 520), (37, 37, St 253), (38, 45, St 520),
       (46, 46, St 544), (47, 47, Tr 560), (48, 52, St 543), (53, 53, St 560), (54, 57, St 543),
       (58, 58, Tr 576), (59, 59, St 520), (61, 61, St 520), (63, 63, Tr 562), (64, 64, Tr 263),
       (65, 90, St 520), (95, 95, St 520), (97, 122, St 520), (126, 126, St 520)]),
     (560, False, [(33, 33, St 520), (35, 35, Tr 559), (36, 36, St 520), (37, 37, St 253), (38, 45, St 520),
       (46, 46, St 544), (47, 47, Tr 560), (48, 53, St 543), (54, 57, St 520), (58, 58, Tr 576),
       (59, 59, St 520), (61, 61, St 520), (63, 63, Tr 562), (64, 64, Tr 263), (65, 90, St 520),
       (95, 95, St 520), (97, 122, St 520), (126, 126, St 520)])],
    [(553, [MarkH], 559)])"

text \<open>The whole machine, and its transitions in one list.\<close>

definition uri :: "uri_action chunk list" where
  "uri = [uri_1, uri_2, uri_3, uri_4, uri_5, uri_6, uri_7, uri_8, uri_9, uri_10, uri_11, uri_12, uri_13,
     uri_14, uri_15, uri_16, uri_17, uri_18, uri_19, uri_20, uri_21, uri_22, uri_23, uri_24, uri_25,
     uri_26, uri_27, uri_28, uri_29, uri_30, uri_31, uri_32, uri_33, uri_34, uri_35, uri_36, uri_37,
     uri_38, uri_39, uri_40, uri_41, uri_42, uri_43, uri_44, uri_45, uri_46, uri_47, uri_48, uri_49,
     uri_50, uri_51, uri_52, uri_53, uri_54, uri_55, uri_56, uri_57, uri_58, uri_59, uri_60, uri_61,
     uri_62, uri_63, uri_64, uri_65, uri_66, uri_67, uri_68, uri_69, uri_70, uri_71, uri_72, uri_73,
     uri_74, uri_75, uri_76, uri_77, uri_78, uri_79, uri_80, uri_81, uri_82, uri_83, uri_84, uri_85,
     uri_86, uri_87, uri_88, uri_89]"

definition uri_trs :: "(int \<times> uri_action list \<times> int) list" where
  "uri_trs = [(467, [MarkU, SaveQuery], 453),
     (469, [SaveQuery], 453),
     (474, [MarkH, SaveHost], 453),
     (485, [SaveHost], 453),
     (489, [MarkH, SavePort], 453),
     (493, [SavePort], 453),
     (548, [MarkH, SaveHost, SavePath], 453),
     (559, [SaveHost, MarkH, SavePath], 453),
     (563, [SavePath], 453),
     (566, [MarkH, SavePort, SavePath], 453),
     (570, [SavePort, MarkH, SavePath], 453),
     (462, [MarkU], 454),
     (463, [MarkU], 1),
     (476, [MarkH, SaveHost], 455),
     (486, [SaveHost], 455),
     (490, [MarkH, SavePort], 455),
     (494, [SavePort], 455),
     (482, [MarkH, SaveHost], 456),
     (488, [SaveHost], 456),
     (492, [MarkH, SavePort], 456),
     (496, [SavePort], 456),
     (556, [MarkH, SaveHost, SavePath], 456),
     (562, [SaveHost, MarkH, SavePath], 456),
     (565, [SavePath], 456),
     (569, [MarkH, SavePort, SavePath], 456),
     (573, [SavePort, MarkH, SavePath], 456),
     (466, [MarkU], 457),
     (468, [MarkU], 7),
     (472, [MarkH], 9),
     (507, [MarkH, SaveHost], 461),
     (487, [SaveHost], 461),
     (491, [MarkH], 462),
     (473, [MarkH], 467),
     (475, [MarkH], 31),
     (481, [MarkH, SaveHost], 468),
     (499, [SaveHost], 468),
     (38, [SaveUserinfo], 469),
     (483, [MarkH, SaveUserinfo], 469),
     (501, [MarkH], 470),
     (502, [MarkH], 36),
     (503, [MarkH], 471),
     (504, [MarkH], 485),
     (506, [MarkH], 486),
     (505, [MarkH], 487),
     (484, [MarkH], 38),
     (500, [MarkH], 489),
     (477, [MarkH], 490),
     (478, [MarkH], 504),
     (480, [MarkH], 505),
     (479, [MarkH], 506),
     (461, [MarkU], 508),
     (543, [SaveScheme], 509),
     (546, [MarkH], 229),
     (550, [MarkH, SaveHost], 513),
     (567, [MarkH, SavePort], 513),
     (560, [SaveHost, MarkH], 513),
     (571, [SavePort, MarkH], 513),
     (584, [MarkH, SaveHost], 514),
     (561, [SaveHost], 514),
     (568, [MarkH], 515),
     (547, [MarkH], 520),
     (549, [MarkH], 253),
     (555, [MarkH, SaveHost], 521),
     (576, [SaveHost], 521),
     (263, [SaveUserinfo], 522),
     (557, [MarkH, SaveUserinfo], 522),
     (578, [MarkH], 523),
     (579, [MarkH], 258),
     (580, [MarkH], 524),
     (581, [MarkH], 538),
     (583, [MarkH], 539),
     (582, [MarkH], 540),
     (558, [MarkH], 260),
     (577, [MarkH], 542),
     (551, [MarkH], 543),
     (552, [MarkH], 557),
     (554, [MarkH], 558),
     (553, [MarkH], 559)]"

lemmas uri_defs =
  uri_def uri_1_def uri_2_def uri_3_def uri_4_def uri_5_def uri_6_def uri_7_def uri_8_def uri_9_def
  uri_10_def uri_11_def uri_12_def uri_13_def uri_14_def uri_15_def uri_16_def uri_17_def uri_18_def
  uri_19_def uri_20_def uri_21_def uri_22_def uri_23_def uri_24_def uri_25_def uri_26_def uri_27_def
  uri_28_def uri_29_def uri_30_def uri_31_def uri_32_def uri_33_def uri_34_def uri_35_def uri_36_def
  uri_37_def uri_38_def uri_39_def uri_40_def uri_41_def uri_42_def uri_43_def uri_44_def uri_45_def
  uri_46_def uri_47_def uri_48_def uri_49_def uri_50_def uri_51_def uri_52_def uri_53_def uri_54_def
  uri_55_def uri_56_def uri_57_def uri_58_def uri_59_def uri_60_def uri_61_def uri_62_def uri_63_def
  uri_64_def uri_65_def uri_66_def uri_67_def uri_68_def uri_69_def uri_70_def uri_71_def uri_72_def
  uri_73_def uri_74_def uri_75_def uri_76_def uri_77_def uri_78_def uri_79_def uri_80_def uri_81_def
  uri_82_def uri_83_def uri_84_def uri_85_def uri_86_def uri_87_def uri_88_def uri_89_def

end
