(* ===== verification/Uri.thy ===== *)
theory Uri
  imports Uri_Table CString
begin

text \<open>
  \<^verbatim>\<open>src/include/uri.h\<close> and \<^verbatim>\<open>src/src/uri.cc\<close>: the URI, its parser \<open>Uri::Create\<close> around the state
  machine, and its output. Pointers into the string are offsets, the null pointer is \<open>None\<close>.
\<close>

record uri =
  u_scheme :: str
  u_userinfo :: str
  u_host :: str
  u_path :: str
  u_query :: str
  u_fragment :: str
  u_port :: int

definition Uri_new :: "uri" where
  "Uri_new = \<lparr>u_scheme = [], u_userinfo = [], u_host = [], u_path = [], u_query = [], u_fragment = [], u_port = 0\<rparr>"

text \<open>\<open>std::string(nullptr, n)\<close> throws; so does a length beyond the largest string.\<close>

datatype uri_error = NullString | TooLong

section \<open>Parsing\<close>

type_synonym parse_state = "uri \<times> nat option"

definition string_from :: "str \<Rightarrow> nat option \<Rightarrow> nat \<Rightarrow> uri_error + str" where
  "string_from s mark p =
     (case mark of None \<Rightarrow> Inl NullString
      | Some m \<Rightarrow> if p < m then Inl TooLong else Inr (slice s m (p - m)))"

fun uri_act :: "str \<Rightarrow> nat \<Rightarrow> uri_action \<Rightarrow> parse_state \<Rightarrow> uri_error + parse_state" where
  "uri_act s p MarkU (u, mark) = Inr (u, Some p)"
| "uri_act s p MarkH (u, mark) = Inr (u, Some p)"
| "uri_act s p SaveScheme (u, mark) =
     (case string_from s mark p of Inl e \<Rightarrow> Inl e | Inr v \<Rightarrow> Inr (u\<lparr>u_scheme := v\<rparr>, None))"
| "uri_act s p SavePort (u, mark) =
     (if Some p \<noteq> mark then
        (case mark of None \<Rightarrow> Inl NullString | Some m \<Rightarrow> Inr (u\<lparr>u_port := atoi (drop m s)\<rparr>, None))
      else Inr (u, None))"
| "uri_act s p SaveUserinfo (u, mark) =
     (if mark \<noteq> None then
        (case string_from s mark p of Inl e \<Rightarrow> Inl e | Inr v \<Rightarrow> Inr (u\<lparr>u_userinfo := v\<rparr>, None))
      else Inr (u, None))"
| "uri_act s p SaveHost (u, mark) =
     (if mark \<noteq> None then
        (case string_from s mark p of Inl e \<Rightarrow> Inl e | Inr v \<Rightarrow> Inr (u\<lparr>u_host := v\<rparr>, mark))
      else Inr (u, mark))"
| "uri_act s p SavePath (u, mark) =
     (case string_from s mark p of Inl e \<Rightarrow> Inl e | Inr v \<Rightarrow> Inr (u\<lparr>u_path := v\<rparr>, None))"
| "uri_act s p SaveQuery (u, mark) =
     (case string_from s mark p of Inl e \<Rightarrow> Inl e | Inr v \<Rightarrow> Inr (u\<lparr>u_query := v\<rparr>, None))"
| "uri_act s p SaveFragment (u, mark) =
     (case string_from s mark p of Inl e \<Rightarrow> Inl e | Inr v \<Rightarrow> Inr (u\<lparr>u_fragment := v\<rparr>, None))"

fun uri_acts :: "str \<Rightarrow> nat \<Rightarrow> uri_action list \<Rightarrow> parse_state \<Rightarrow> uri_error + parse_state" where
  "uri_acts s p [] st = Inr st"
| "uri_acts s p (a # as) st = (case uri_act s p a st of Inl e \<Rightarrow> Inl e | Inr st1 \<Rightarrow> uri_acts s p as st1)"

text \<open>The loop over the characters; a state without a block falls through to \<open>_test_eof452\<close>.\<close>

fun uri_loop :: "str \<Rightarrow> parse_state \<Rightarrow> int \<Rightarrow> nat \<Rightarrow> int list \<Rightarrow> uri_error + parse_state \<times> int \<times> nat" where
  "uri_loop s st cs p [] = Inr (st, cs, p)"
| "uri_loop s st cs p (c # rest) =
     (case move uri False cs c of NoState \<Rightarrow> Inr (st, 452, p) | Reject \<Rightarrow> Inr (st, 0, p)
      | Move as t \<Rightarrow> (case uri_acts s p as st of Inl e \<Rightarrow> Inl e | Inr st1 \<Rightarrow> uri_loop s st1 t (Suc p) rest))"

text \<open>The actions at the end of the string, \<open>switch ( cs )\<close> behind \<open>_test_eof\<close>.\<close>

definition uri_eof :: "int \<Rightarrow> uri_action list" where
  "uri_eof cs =
     (if cs = 462 \<or> cs = 489 then [SavePort]
      else if cs = 460 \<or> 463 \<le> cs \<and> cs \<le> 467 \<or> 470 \<le> cs \<and> cs \<le> 488 \<or> 490 \<le> cs \<and> cs \<le> 507 then [SaveHost]
      else if cs = 513 then [SavePath]
      else if cs = 457 then [SaveQuery]
      else if cs = 454 then [SaveFragment]
      else if cs = 456 then [MarkU, SaveQuery]
      else if cs = 453 then [MarkU, SaveFragment]
      else if cs = 461 \<or> cs = 468 then [MarkH, SavePort]
      else if cs = 459 \<or> cs = 469 then [MarkH, SaveHost]
      else if cs = 514 \<or> cs = 521 then [MarkH, SavePort, SavePath]
      else if cs = 511 \<or> cs = 522 then [MarkH, SaveHost, SavePath]
      else if cs = 515 \<or> cs = 542 then [SavePort, MarkH, SavePath]
      else if cs = 512 \<or> 516 \<le> cs \<and> cs \<le> 520 \<or> 523 \<le> cs \<and> cs \<le> 541 \<or> 543 \<le> cs \<and> cs \<le> 560
      then [SaveHost, MarkH, SavePath]
      else [])"

text \<open>\<open>Inl\<close> is the exception, \<open>Inr None\<close> the null pointer.\<close>

definition Uri_Create :: "str \<Rightarrow> uri_error + uri option" where
  "Uri_Create s =
     (case uri_loop s (Uri_new, None) 451 0 (map sint s) of Inl e \<Rightarrow> Inl e
      | Inr (st, cs, p) \<Rightarrow>
        (case uri_acts s p (if p = length s then uri_eof cs else []) st of Inl e \<Rightarrow> Inl e
         | Inr (u, mark) \<Rightarrow> Inr (if cs = 0 then None else if 451 \<le> cs then Some u else None)))"

section \<open>Output\<close>

definition isDefaultPort :: "uri \<Rightarrow> bool" where
  "isDefaultPort u =
     (if u_port u = 0 then True
      else if u_scheme u = lit ''http'' \<or> u_scheme u = lit ''ws'' then u_port u = 80
      else if u_scheme u = lit ''https'' \<or> u_scheme u = lit ''wss'' then u_port u = 443
      else False)"

definition uri_getPath :: "uri \<Rightarrow> str" where
  "uri_getPath u = (if u_path u = [] then lit ''/'' else u_path u)"

definition uri_getPort :: "uri \<Rightarrow> int" where
  "uri_getPort u =
     (if u_port u \<noteq> 0 then u_port u
      else if u_scheme u = lit ''http'' \<or> u_scheme u = lit ''ws'' then 80
      else if u_scheme u = lit ''https'' \<or> u_scheme u = lit ''wss'' then 443
      else u_port u)"

definition uri_toString :: "uri \<Rightarrow> str" where
  "uri_toString u =
     u_scheme u @ lit ''://'' @ u_userinfo u @ (if u_userinfo u = [] then [] else lit ''@'') @ u_host u @
     (if isDefaultPort u then [] else lit '':'' @ dec_int (u_port u)) @ uri_getPath u @
     (if u_query u = [] then [] else lit ''?'') @ u_query u @
     (if u_fragment u = [] then [] else lit ''#'') @ u_fragment u"

end
