(* ===== verification/Uri_Spec.thy ===== *)
theory Uri_Spec
  imports Uri
begin

text \<open>
  What holds of \<open>Uri::Create\<close>: it throws only for a URI with an empty port, and it reads back what
  \<open>Uri::toString\<close> writes. The first is a data flow over the table, the second runs the table on the
  pieces of the output.
\<close>

section \<open>The loop\<close>

interpretation ul: machine_loop uri "\<lambda>_. False" 452
    "\<lambda>p as st. case uri_acts s p as st of Inl e \<Rightarrow> Inl e | Inr st1 \<Rightarrow> Inr (st1, [], None)"
    "\<lambda>st cs p xs. case uri_loop s st cs p xs of Inl e \<Rightarrow> Inl e | Inr (st1, cs1, p1) \<Rightarrow> Inr (st1, [], cs1, p1)"
  for s :: str
  by unfold_locales (auto split: move.splits sum.splits prod.splits)

lemma uri_all_trs: "all_trs uri = uri_trs"
  by (simp add: all_trs_def uri_defs uri_trs_def)

section \<open>The null pointer\<close>

text \<open>May the mark be null behind the actions? \<open>None\<close> if one of them reads it while it may be.\<close>

fun null_flow :: "uri_action list \<Rightarrow> bool \<Rightarrow> bool option" where
  "null_flow [] q = Some q"
| "null_flow (MarkU # as) q = null_flow as False"
| "null_flow (MarkH # as) q = null_flow as False"
| "null_flow (SaveHost # as) q = null_flow as q"
| "null_flow (SaveUserinfo # as) q = null_flow as True"
| "null_flow (a # as) q = (if q then None else null_flow as True)"

definition in_path :: "int \<Rightarrow> bool" where
  "in_path n \<longleftrightarrow> n = 513 \<or> n = 243 \<or> n = 244"

definition may_null :: "int \<Rightarrow> bool" where
  "may_null n =
     (if n < 451 then (if n \<le> 6 then 3 \<le> n else if n < 243 then False else n \<le> 244)
      else if n < 460 then (if n = 454 then False else n \<noteq> 457)
      else if n < 509 then n = 469
      else if n \<le> 511 then True else if n = 513 then True else n = 522)"

definition authority :: "int \<Rightarrow> bool" where
  "authority n =
     (if n < 229 then False else if n \<le> 450 then (if n = 243 then False else n \<noteq> 244)
      else if n < 511 then False else if n = 513 then False else if n = 515 then False else n \<le> 560)"

definition port_state :: "int \<Rightarrow> bool" where
  "port_state n = (if n = 514 then True else n = 521)"

text \<open>Conditions are nested so that the evaluation below stops early.\<close>

text \<open>The states of the scheme and of what is before the slashes; ranges without a slash, \<open>?\<close> or \<open>#\<close>.\<close>

definition before_slashes :: "int \<Rightarrow> bool" where
  "before_slashes n = (if n = 451 then True else if n = 508 then True else n = 509)"

definition no_delim :: "int \<Rightarrow> int \<Rightarrow> bool" where
  "no_delim lo hi =
     (if (if lo \<le> 35 then 35 \<le> hi else False) then False
      else if (if lo \<le> 47 then 47 \<le> hi else False) then False
      else if lo \<le> 63 then \<not> 63 \<le> hi else True)"

definition chars_ok :: "int \<Rightarrow> int \<Rightarrow> int \<Rightarrow> int \<Rightarrow> bool" where
  "chars_ok n lo hi t =
     (if authority t then
        (if authority n then
           (if no_delim lo hi then (if port_state t then (if lo = 58 then hi = 58 else False) else True) else False)
         else if n = 510 then (if lo = 47 then (if hi = 47 then \<not> port_state t else False) else False) else False)
      else if t = 510 then (if lo = 47 then (if hi = 47 then before_slashes n else False) else False)
      else if before_slashes t then (if before_slashes n then no_delim lo hi else False) else True)"

definition mark_ok :: "int \<Rightarrow> int \<Rightarrow> int \<Rightarrow> uri_action list \<Rightarrow> int \<Rightarrow> bool" where
  "mark_ok n lo hi as t =
     (if in_path n then
        (case as of [] \<Rightarrow> in_path t
         | a # _ \<Rightarrow> (if a = SavePath then
             (case null_flow as False of None \<Rightarrow> False | Some b \<Rightarrow> (if may_null t then \<not> in_path t else False)) else False))
      else
        (case null_flow as (may_null n) of
           None \<Rightarrow> (if port_state n then (if as = [MarkH, SavePort, SavePath] then
                       (if lo = hi then (if lo = 35 then True else lo = 63) else False) else False) else False)
         | Some b \<Rightarrow> (if b then (if may_null t then
                       (if in_path t then (if port_state n then (if lo = 47 then hi = 47 else False) else False) else True)
                       else False) else True)))"

definition uri_ok :: "int \<Rightarrow> int \<Rightarrow> int \<Rightarrow> uri_action list \<Rightarrow> int \<Rightarrow> bool" where
  "uri_ok n lo hi as t = (if chars_ok n lo hi t then mark_ok n lo hi as t else False)"

lemma uri_flow: "list_all (chunk_ok uri_ok uri_trs) uri"
  by code_simp

lemma byte_sint: "sint (c :: byte) = sint d \<longleftrightarrow> c = d"
  by (auto intro: signed_word_eqI)

lemma no_widec: "list_all (\<lambda>(lo, hi, bs, trs). list_all (\<lambda>(n, w, rs). \<not> w) bs) uri"
  by (simp add: uri_defs)

lemma uri_flowD:
  assumes "move uri False n c = Move as t"
  shows "\<exists>lo hi. uri_ok n lo hi as t \<and> lo \<le> c \<and> c \<le> hi"
proof -
  obtain w rs where s: "find_state uri n = Some (w, rs)"
    using assms by (auto simp: move_def split: option.splits)
  then have "\<not> w" using no_widec find_state_mem [OF s] by (fastforce simp: list_all_iff)
  obtain l where l: "find_range rs c = Some l" "target uri l = Some (as, t)"
    using assms s \<open>\<not> w\<close> by (auto simp: move_def split: option.splits)
  obtain lo hi where r: "(lo, hi, l) \<in> set rs" "lo \<le> c" "c \<le> hi" using find_range_mem [OF l(1)] by blast
  obtain clo chi bs trs where b: "(clo, chi, bs, trs) \<in> set uri" "(n, w, rs) \<in> set bs"
    using find_state_mem [OF s] by blast
  have "block_ok uri_ok uri_trs (n, w, rs)" using uri_flow b by (fastforce simp: list_all_iff)
  then have "label_ok uri_ok uri_trs n (lo, hi, l)" using r(1) by (auto simp: list_all_iff)
  then have "uri_ok n lo hi as t" using l(2) by (cases l) (auto simp: target_def find_tr_all uri_all_trs)
  then show ?thesis using r by blast
qed

text \<open>
  The authority of a URI stands behind the first slash, which must be two, and ends before the next slash,
  \<open>?\<close> or \<open>#\<close>. Its port is empty when it ends with a colon.
\<close>

definition delim :: "byte \<Rightarrow> bool" where
  "delim c \<longleftrightarrow> c = 47 \<or> c = 63 \<or> c = 35"

definition plain_to :: "str \<Rightarrow> nat \<Rightarrow> bool" where
  "plain_to s p \<longleftrightarrow> (\<forall>k < p. \<not> delim (s ! k))"

definition in_authority :: "str \<Rightarrow> nat \<Rightarrow> bool" where
  "in_authority s p \<longleftrightarrow> (\<exists>j. j + 1 < p \<and> s ! j = 47 \<and> s ! (j + 1) = 47 \<and>
     (\<forall>k < p. k \<noteq> j \<longrightarrow> k \<noteq> j + 1 \<longrightarrow> \<not> delim (s ! k)))"

definition empty_port :: "str \<Rightarrow> bool" where
  "empty_port s \<longleftrightarrow> (\<exists>i < length s. in_authority s i \<and> s ! i = 58 \<and> (Suc i = length s \<or> delim (s ! Suc i)))"

lemma no_delimD: "no_delim lo hi \<Longrightarrow> lo \<le> sint c \<Longrightarrow> sint c \<le> hi \<Longrightarrow> \<not> delim (c :: byte)"
  by (auto simp: no_delim_def delim_def split: if_splits)

fun uri_inv :: "str \<Rightarrow> int \<Rightarrow> nat \<Rightarrow> parse_state \<Rightarrow> bool" where
  "uri_inv s n p (u, mark) \<longleftrightarrow> (\<forall>m. mark = Some m \<longrightarrow> m \<le> p) \<and>
     (mark = None \<longrightarrow> may_null n \<and> (in_path n \<longrightarrow> empty_port s)) \<and>
     (before_slashes n \<longrightarrow> plain_to s p) \<and>
     (n = 510 \<longrightarrow> 0 < p \<and> s ! (p - 1) = 47 \<and> plain_to s (p - 1)) \<and>
     (authority n \<longrightarrow> in_authority s p) \<and>
     (port_state n \<longrightarrow> 0 < p \<and> s ! (p - 1) = 58 \<and> in_authority s (p - 1))"

lemma null_flow_ok:
  assumes "null_flow as q = Some b" and "mark = None \<longrightarrow> q" and "\<forall>m. mark = Some m \<longrightarrow> m \<le> p"
  shows "\<exists>u' mark'. uri_acts s p as (u, mark) = Inr (u', mark') \<and> (mark' = None \<longrightarrow> b) \<and> (\<forall>m. mark' = Some m \<longrightarrow> m \<le> p)"
  using assms
proof (induction as arbitrary: q u mark)
  case (Cons a as)
  have "\<exists>u1 m1 q1. uri_act s p a (u, mark) = Inr (u1, m1) \<and> null_flow as q1 = Some b \<and> (m1 = None \<longrightarrow> q1) \<and>
      (\<forall>m. m1 = Some m \<longrightarrow> m \<le> p)"
    using Cons.prems by (cases a; cases mark) (auto simp: string_from_def split: if_splits)
  then obtain u1 m1 q1 where "uri_act s p a (u, mark) = Inr (u1, m1)" "null_flow as q1 = Some b"
    "m1 = None \<longrightarrow> q1" "\<forall>m. m1 = Some m \<longrightarrow> m \<le> p" by blast
  then show ?case using Cons.IH [of q1 m1 u1] by simp
qed simp

lemma acts_error: "uri_acts s p as (u, mark) = Inl e \<Longrightarrow> \<forall>m. mark = Some m \<longrightarrow> m \<le> p \<Longrightarrow> e = NullString"
proof (induction as arbitrary: u mark)
  case (Cons a as)
  show ?case
  proof (cases "uri_act s p a (u, mark)")
    case (Inl e')
    then show ?thesis using Cons.prems
      by (cases a; cases mark) (auto simp: string_from_def split: if_splits)
  next
    case (Inr r)
    obtain u1 m1 where r: "r = (u1, m1)" by (cases r)
    have "\<forall>m. m1 = Some m \<longrightarrow> m \<le> p" using Inr r Cons.prems(2)
      by (cases a; cases mark) (auto simp: string_from_def split: if_splits)
    then show ?thesis using Cons.IH [of u1 m1] Cons.prems(1) Inr r by simp
  qed
qed simp

lemma acts_path_null: "uri_acts s p (SavePath # as) (u, None) = Inl NullString"
  by (simp add: string_from_def)

lemma acts_port_path: "uri_acts s p [MarkH, SavePort, SavePath] (u, mark) = Inl NullString"
  by (simp add: string_from_def)

lemma empty_portI: "0 < p \<Longrightarrow> p \<le> length s \<Longrightarrow> s ! (p - 1) = 58 \<Longrightarrow> in_authority s (p - 1) \<Longrightarrow>
    p = length s \<or> s ! p = 47 \<or> s ! p = 63 \<or> s ! p = 35 \<Longrightarrow> empty_port s"
  unfolding empty_port_def by (rule exI [of _ "p - 1"]) (auto simp: delim_def)

lemma in_authority_mono: "in_authority s p \<Longrightarrow> \<not> delim (s ! p) \<Longrightarrow> in_authority s (Suc p)"
  unfolding in_authority_def by (metis less_Suc_eq)

lemma plain_to_Suc: "plain_to s (Suc p) \<longleftrightarrow> plain_to s p \<and> \<not> delim (s ! p)"
  by (auto simp: plain_to_def less_Suc_eq)

text \<open>What the characters of a move say about the string.\<close>

lemma chars_step:
  assumes "uri_inv s n p (u, mark)" and "chars_ok n lo hi t" and "lo \<le> sint (s ! p)" and "sint (s ! p) \<le> hi"
  shows "(before_slashes t \<longrightarrow> plain_to s (Suc p)) \<and> (t = 510 \<longrightarrow> s ! p = 47 \<and> plain_to s p) \<and>
    (authority t \<longrightarrow> in_authority s (Suc p)) \<and> (port_state t \<longrightarrow> s ! p = 58 \<and> in_authority s p)"
proof -
  have ch: "v = sint d \<Longrightarrow> lo = v \<Longrightarrow> hi = v \<Longrightarrow> s ! p = d" for v and d :: byte
    using assms(3,4) byte_sint [of "s ! p" d] by simp
  have 47: "lo = 47 \<Longrightarrow> hi = 47 \<Longrightarrow> s ! p = 47" by (rule ch [of 47 47]) simp_all
  have 58: "lo = 58 \<Longrightarrow> hi = 58 \<Longrightarrow> s ! p = 58" by (rule ch [of 58 58]) simp_all
  have port: "port_state t \<Longrightarrow> authority t" by (auto simp: port_state_def authority_def split: if_splits)
  have pre: "before_slashes t \<Longrightarrow> \<not> authority t \<and> t \<noteq> 510" by (auto simp: before_slashes_def authority_def split: if_splits)
  have nd: "no_delim lo hi \<Longrightarrow> \<not> delim (s ! p)" by (rule no_delimD [OF _ assms(3,4)])
  have "authority t \<Longrightarrow> \<not> authority n \<Longrightarrow> in_authority s (Suc p)"
  proof -
    assume "authority t" "\<not> authority n"
    then have n: "n = 510" "s ! p = 47" using assms(2) 47 by (auto simp: chars_ok_def split: if_splits)
    then have "0 < p" "s ! (p - 1) = 47" "plain_to s (p - 1)" using assms(1) by simp_all
    then show ?thesis using n(2) unfolding in_authority_def plain_to_def
      by (intro exI [of _ "p - 1"]) (auto simp: less_Suc_eq)
  qed
  moreover have "authority n \<Longrightarrow> authority t \<Longrightarrow> in_authority s (Suc p)"
    using assms(1,2) in_authority_mono nd by (auto simp: chars_ok_def split: if_splits)
  moreover have "t = 510 \<Longrightarrow> s ! p = 47 \<and> before_slashes n"
    using assms(2) 47 by (auto simp: chars_ok_def authority_def split: if_splits)
  moreover have "port_state t \<Longrightarrow> authority n \<and> s ! p = 58"
    using assms(2) 58 port by (auto simp: chars_ok_def split: if_splits)
  moreover have "before_slashes t \<Longrightarrow> before_slashes n \<and> \<not> delim (s ! p)"
    using assms(2) pre nd by (auto simp: chars_ok_def split: if_splits)
  ultimately show ?thesis using assms(1) by (auto simp: plain_to_Suc)
qed

lemma uri_step:
  assumes inv: "uri_inv s n p (u, mark)" and p: "p < length s" and m: "move uri False n (sint (s ! p)) = Move as t"
  shows "case uri_acts s p as (u, mark) of Inl e \<Rightarrow> e = NullString \<and> empty_port s
    | Inr st \<Rightarrow> uri_inv s t (Suc p) st"
proof -
  obtain lo hi where ok: "chars_ok n lo hi t" "mark_ok n lo hi as t" "lo \<le> sint (s ! p)" "sint (s ! p) \<le> hi"
    using uri_flowD [OF m] by (auto simp: uri_ok_def split: if_splits)
  have le: "\<forall>m. mark = Some m \<longrightarrow> m \<le> p" using inv by simp
  have ch: "v = sint d \<Longrightarrow> lo = v \<Longrightarrow> hi = v \<Longrightarrow> s ! p = d" for v and d :: byte
    using ok(3,4) byte_sint [of "s ! p" d] by simp
  have next_inv: "uri_inv s t (Suc p) (u', m')"
    if "m' = None \<Longrightarrow> may_null t \<and> (in_path t \<longrightarrow> empty_port s)" "\<forall>m. m' = Some m \<longrightarrow> m \<le> p" for u' m'
    using that chars_step [OF inv ok(1,3,4)] by auto
  have fin: ?thesis if "null_flow as q = Some b" "mark = None \<longrightarrow> q" "b \<Longrightarrow> may_null t \<and> (in_path t \<longrightarrow> empty_port s)" for q b
    using null_flow_ok [OF that(1,2) le, of s u] next_inv that(3) by fastforce
  show ?thesis
  proof (cases "in_path n")
    case True
    show ?thesis
    proof (cases as)
      case Nil
      then have "in_path t" using True ok(2) by (simp add: mark_ok_def)
      then have "may_null t" by (auto simp: in_path_def may_null_def)
      then show ?thesis using next_inv [of mark u] inv True Nil by simp
    next
      case (Cons a as')
      then obtain b where b: "a = SavePath" "null_flow as False = Some b" "may_null t" "\<not> in_path t"
        using ok(2) True by (auto simp: mark_ok_def split: option.splits if_splits)
      show ?thesis
      proof (cases mark)
        case None
        then show ?thesis using inv True Cons b(1) acts_path_null [of s p as' u] by simp
      next
        case (Some x)
        then show ?thesis using fin [OF b(2)] b(3,4) by simp
      qed
    qed
  next
    case False
    show ?thesis
    proof (cases "null_flow as (may_null n)")
      case None
      then have e: "port_state n" "as = [MarkH, SavePort, SavePath]" "lo = hi" "lo = 35 \<or> lo = 63"
        using ok(2) False by (auto simp: mark_ok_def split: if_splits)
      have "s ! p = 35 \<or> s ! p = 63" using e(3,4) ch [of 35 35] ch [of 63 63] by auto
      then have "empty_port s" using inv e(1) p by (intro empty_portI [of p]) auto
      then show ?thesis using e(2) acts_port_path by (simp del: uri_acts.simps)
    next
      case (Some b)
      have "may_null t \<and> (in_path t \<longrightarrow> empty_port s)" if b
      proof -
        have t: "may_null t" "in_path t \<Longrightarrow> port_state n \<and> lo = 47 \<and> hi = 47"
          using ok(2) False Some \<open>b\<close> by (auto simp: mark_ok_def split: if_splits)
        have "in_path t \<Longrightarrow> empty_port s" using inv t(2) p ch [of 47 47] by (intro empty_portI [of p]) auto
        with t(1) show ?thesis by blast
      qed
      then show ?thesis using fin [OF Some] inv by simp
    qed
  qed
qed

lemma may_null_cases: "may_null n \<Longrightarrow> n \<noteq> 513 \<Longrightarrow>
    n \<in> {3, 4, 5, 6, 243, 244, 451, 452, 453, 455, 456, 458, 459, 469, 509, 510, 511, 522}"
  by (simp add: may_null_def split: if_splits; presburger)

lemma eof_flow: "\<not> port_state n \<Longrightarrow> n \<noteq> 513 \<Longrightarrow> null_flow (uri_eof n) (may_null n) \<noteq> None"
proof (cases "may_null n")
  case True
  assume "\<not> port_state n" "n \<noteq> 513"
  from may_null_cases [OF True this(2)] show ?thesis
    by (elim insertE emptyE) (simp_all add: uri_eof_def may_null_def ex_bool_eq)
next
  case False
  moreover assume "\<not> port_state n"
  ultimately show ?thesis by (simp add: uri_eof_def port_state_def ex_bool_eq split: if_splits)
qed

lemma uri_end:
  assumes inv: "uri_inv s n (length s) (u, mark)" and e: "uri_acts s (length s) (uri_eof n) (u, mark) = Inl e"
  shows "e = NullString \<and> empty_port s"
proof -
  have le: "\<forall>m. mark = Some m \<longrightarrow> m \<le> length s" using inv by simp
  have no: False if "null_flow (uri_eof n) q = Some b" "mark = None \<longrightarrow> q" for q b
    using null_flow_ok [OF that le, of s u] e by auto
  have "empty_port s"
  proof (cases "port_state n")
    case True
    then show ?thesis using inv by (intro empty_portI [of "length s"]) auto
  next
    case False
    show ?thesis
    proof (cases "n = 513")
      case True
      then show ?thesis using inv no [of False True] by (cases mark) (auto simp: in_path_def uri_eof_def)
    next
      case ne: False
      have "\<exists>b. null_flow (uri_eof n) (may_null n) = Some b"
        using eof_flow False ne by blast
      then show ?thesis using no inv by auto
    qed
  qed
  then show ?thesis using acts_error [OF e le] by simp
qed

section \<open>Runs\<close>

text \<open>The blocks that a URI with an authority passes.\<close>

lemma uri_blocks:
  "find_state uri 451 = Some (False, [((-128), (-1), St 452), (33, 33, St 452), (35, 35, St 453), (36, 36, St 452),
     (37, 37, St 3), (38, 46, St 452), (47, 47, St 458), (48, 57, St 452), (59, 59, St 452),
     (61, 61, St 452), (63, 63, St 456), (64, 64, St 452), (65, 90, Tr 461), (95, 95, St 452),
     (97, 122, Tr 461), (126, 126, St 452)])"
  "find_state uri 508 = Some (False, [((-128), (-1), St 452), (33, 33, St 452), (35, 35, St 453), (36, 36, St 452),
     (37, 37, St 3), (38, 42, St 452), (43, 43, St 508), (44, 44, St 452), (45, 46, St 508),
     (47, 47, St 455), (48, 57, St 508), (58, 58, Tr 543), (59, 59, St 452), (61, 61, St 452),
     (63, 63, St 456), (64, 64, St 452), (65, 90, St 508), (95, 95, St 452), (97, 122, St 508),
     (126, 126, St 452)])"
  "find_state uri 509 = Some (False, [((-128), (-1), St 455), (33, 33, St 455), (35, 35, St 453), (36, 36, St 455),
     (37, 37, St 5), (38, 46, St 455), (47, 47, St 510), (48, 59, St 455), (61, 61, St 455),
     (63, 63, St 456), (64, 90, St 455), (95, 95, St 455), (97, 122, St 455), (126, 126, St 455)])"
  "find_state uri 510 = Some (False, [((-128), (-1), St 455), (33, 33, St 455), (35, 35, St 453), (36, 36, St 455),
     (37, 37, St 5), (38, 46, St 455), (47, 47, St 511), (48, 59, St 455), (61, 61, St 455),
     (63, 63, St 456), (64, 90, St 455), (95, 95, St 455), (97, 122, St 455), (126, 126, St 455)])"
  "find_state uri 511 = Some (False, [(2, 2, Tr 546), (33, 33, Tr 547), (35, 35, Tr 548), (36, 36, Tr 547),
     (37, 37, Tr 549), (38, 46, Tr 547), (47, 47, Tr 550), (48, 48, Tr 551), (49, 49, Tr 552),
     (50, 50, Tr 553), (51, 57, Tr 554), (58, 58, Tr 555), (59, 59, Tr 547), (61, 61, Tr 547),
     (63, 63, Tr 556), (64, 64, Tr 557), (65, 90, Tr 547), (91, 91, Tr 558), (95, 95, Tr 547),
     (97, 122, Tr 547), (126, 126, Tr 547)])"
  "find_state uri 520 = Some (False, [(33, 33, St 520), (35, 35, Tr 559), (36, 36, St 520), (37, 37, St 253),
     (38, 46, St 520), (47, 47, Tr 560), (48, 57, St 520), (58, 58, Tr 576), (59, 59, St 520),
     (61, 61, St 520), (63, 63, Tr 562), (64, 64, Tr 263), (65, 90, St 520), (95, 95, St 520),
     (97, 122, St 520), (126, 126, St 520)])"
  "find_state uri 521 = Some (False, [(33, 33, St 255), (35, 35, Tr 566), (36, 36, St 255), (37, 37, St 256),
     (38, 46, St 255), (47, 47, Tr 567), (48, 57, Tr 577), (58, 59, St 255), (61, 61, St 255),
     (63, 63, Tr 569), (64, 64, Tr 263), (65, 90, St 255), (95, 95, St 255), (97, 122, St 255),
     (126, 126, St 255)])"
  "find_state uri 542 = Some (False, [(33, 33, St 255), (35, 35, Tr 570), (36, 36, St 255), (37, 37, St 256),
     (38, 46, St 255), (47, 47, Tr 571), (48, 57, St 542), (58, 59, St 255), (61, 61, St 255),
     (63, 63, Tr 573), (64, 64, Tr 263), (65, 90, St 255), (95, 95, St 255), (97, 122, St 255),
     (126, 126, St 255)])"
  "find_state uri 513 = Some (False, [((-128), (-1), St 513), (33, 33, St 513), (35, 35, Tr 563), (36, 36, St 513),
     (37, 37, St 243), (38, 59, St 513), (61, 61, St 513), (63, 63, Tr 565), (64, 90, St 513),
     (95, 95, St 513), (97, 122, St 513), (126, 126, St 513)])"
  "find_state uri 456 = Some (False, [((-128), (-1), Tr 466), (33, 33, Tr 466), (35, 35, Tr 467), (36, 36, Tr 466),
     (37, 37, Tr 468), (38, 59, Tr 466), (61, 61, Tr 466), (63, 90, Tr 466), (95, 95, Tr 466),
     (97, 122, Tr 466), (126, 126, Tr 466)])"
  "find_state uri 457 = Some (False, [((-128), (-1), St 457), (33, 33, St 457), (35, 35, Tr 469), (36, 36, St 457),
     (37, 37, St 7), (38, 59, St 457), (61, 61, St 457), (63, 90, St 457), (95, 95, St 457),
     (97, 122, St 457), (126, 126, St 457)])"
  "find_state uri 453 = Some (False, [((-128), (-1), Tr 462), (33, 33, Tr 462), (36, 36, Tr 462), (37, 37, Tr 463),
     (38, 59, Tr 462), (61, 61, Tr 462), (63, 90, Tr 462), (95, 95, Tr 462), (97, 122, Tr 462),
     (126, 126, Tr 462)])"
  "find_state uri 454 = Some (False, [((-128), (-1), St 454), (33, 33, St 454), (36, 36, St 454), (37, 37, St 1),
     (38, 59, St 454), (61, 61, St 454), (63, 90, St 454), (95, 95, St 454), (97, 122, St 454),
     (126, 126, St 454)])"
  by code_simp+


text \<open>Characters, as the table sees them.\<close>

definition alpha_char :: "(int \<times> int) list" where
  "alpha_char = [(65, 90), (97, 122)]"

definition digit_char :: "(int \<times> int) list" where
  "digit_char = [(48, 57)]"

definition scheme_char :: "(int \<times> int) list" where
  "scheme_char = [(43, 43), (45, 46), (48, 57), (65, 90), (97, 122)]"

definition reg_char :: "(int \<times> int) list" where
  "reg_char = [(33, 33), (36, 36), (38, 46), (59, 59), (61, 61), (65, 90), (95, 95), (97, 122), (126, 126)]"

definition path_char :: "(int \<times> int) list" where
  "path_char = [(- 128, - 1), (33, 33), (36, 36), (38, 59), (61, 61), (64, 90), (95, 95), (97, 122), (126, 126)]"

definition query_char :: "(int \<times> int) list" where
  "query_char = [(- 128, - 1), (33, 33), (36, 36), (38, 59), (61, 61), (63, 90), (95, 95), (97, 122), (126, 126)]"

lemmas char_defs = alpha_char_def digit_char_def scheme_char_def reg_char_def path_char_def query_char_def

lemma uri_target: "target uri (St n) = Some ([], n)" "target uri (Tr m) = find_in uri_trs m"
  by (simp_all add: target_def find_tr_all uri_all_trs)

lemmas uri_eval = class_to_def char_defs uri_target uri_trs_def

lemma scheme_first: "in_ranges alpha_char c \<Longrightarrow> move uri r 451 c = Move [MarkU] 508"
  by (rule class_move [OF uri_blocks(1)]) (simp_all add: uri_eval)

lemma scheme_stay: "in_ranges scheme_char c \<Longrightarrow> move uri r 508 c = Move [] 508"
  by (rule class_move [OF uri_blocks(2)]) (simp_all add: uri_eval)

lemma host_first: "in_ranges reg_char c \<Longrightarrow> move uri r 511 c = Move [MarkH] 520"
  by (rule class_move [OF uri_blocks(5)]) (simp_all add: uri_eval)

lemma host_stay: "in_ranges (digit_char @ reg_char) c \<Longrightarrow> move uri r 520 c = Move [] 520"
  by (rule class_move [OF uri_blocks(6)]) (simp_all add: uri_eval)

lemma port_first: "in_ranges digit_char c \<Longrightarrow> move uri r 521 c = Move [MarkH] 542"
  by (rule class_move [OF uri_blocks(7)]) (simp_all add: uri_eval)

lemma port_stay: "in_ranges digit_char c \<Longrightarrow> move uri r 542 c = Move [] 542"
  by (rule class_move [OF uri_blocks(8)]) (simp_all add: uri_eval)

lemma path_stay: "in_ranges path_char c \<Longrightarrow> move uri r 513 c = Move [] 513"
  by (rule class_move [OF uri_blocks(9)]) (simp_all add: uri_eval)

lemma query_first: "in_ranges query_char c \<Longrightarrow> move uri r 456 c = Move [MarkU] 457"
  by (rule class_move [OF uri_blocks(10)]) (simp_all add: uri_eval)

lemma query_stay: "in_ranges query_char c \<Longrightarrow> move uri r 457 c = Move [] 457"
  by (rule class_move [OF uri_blocks(11)]) (simp_all add: uri_eval)

lemma fragment_first: "in_ranges query_char c \<Longrightarrow> move uri r 453 c = Move [MarkU] 454"
  by (rule class_move [OF uri_blocks(12)]) (simp_all add: uri_eval)

lemma fragment_stay: "in_ranges query_char c \<Longrightarrow> move uri r 454 c = Move [] 454"
  by (rule class_move [OF uri_blocks(13)]) (simp_all add: uri_eval)

lemma uri_separators:
  "move uri r 508 58 = Move [SaveScheme] 509" "move uri r 509 47 = Move [] 510" "move uri r 510 47 = Move [] 511"
  "move uri r 520 58 = Move [SaveHost] 521" "move uri r 520 47 = Move [SaveHost, MarkH] 513"
  "move uri r 542 47 = Move [SavePort, MarkH] 513" "move uri r 521 47 = Move [MarkH, SavePort] 513"
  "move uri r 513 63 = Move [SavePath] 456" "move uri r 513 35 = Move [SavePath] 453"
  "move uri r 457 35 = Move [SaveQuery] 453"
  by (simp_all add: move_def uri_blocks uri_target uri_trs_def)

section \<open>Reading a written URI\<close>

lemma uri_stay:
  assumes "\<forall>c\<in>set xs. move uri False n (sint c) = Move [] n"
  shows "uri_loop s st n p (map sint (xs @ ys)) = uri_loop s st n (p + length xs) (map sint ys)"
  using assms by (induction xs arbitrary: p) auto

lemma uri_token:
  assumes "move uri False n (sint c) = Move [m] t" and "m = MarkU \<or> m = MarkH"
    and "\<forall>c\<in>set cs. move uri False t (sint c) = Move [] t"
  shows "uri_loop s (u, mark) n p (map sint (c # cs @ ys)) = uri_loop s (u, Some p) t (Suc (p + length cs)) (map sint ys)"
  using assms(1,2) uri_stay [OF assms(3), of s "(u, Some p)" "Suc p" ys] by auto

lemma slice_mid [simp]: "slice (xs @ ys @ zs) (length xs) (length ys) = ys" "slice (xs @ ys) (length xs) (length ys) = ys"
  by (simp_all add: slice_def)

definition uri_finish :: "str \<Rightarrow> uri_error + parse_state \<times> int \<times> nat \<Rightarrow> uri_error + uri option" where
  "uri_finish s r = (case r of Inl e \<Rightarrow> Inl e
     | Inr (st, cs, p) \<Rightarrow>
        (case uri_acts s p (if p = length s then uri_eof cs else []) st of Inl e \<Rightarrow> Inl e
         | Inr (u, mark) \<Rightarrow> Inr (if cs = 0 then None else if 451 \<le> cs then Some u else None)))"

lemma Create_finish: "Uri_Create s = uri_finish s (uri_loop s (Uri_new, None) 451 0 (map sint s))"
  by (simp add: Uri_Create_def uri_finish_def)

definition all_in :: "(int \<times> int) list \<Rightarrow> str \<Rightarrow> bool" where
  "all_in R s \<longleftrightarrow> list_all (\<lambda>c. in_ranges R (sint c)) s"

definition with_prefix :: "byte \<Rightarrow> str \<Rightarrow> str" where
  "with_prefix c s = (if s = [] then [] else c # s)"

lemma fragment_end:
  assumes "s = pre @ f" and "all_in query_char f" and "f \<noteq> []"
  shows "uri_finish s (uri_loop s (u, mark) 453 (length pre) (map sint f)) = Inr (Some (u\<lparr>u_fragment := f\<rparr>))"
proof -
  obtain c cs where f: "f = c # cs" using assms(3) by (cases f) auto
  have in_c: "in_ranges query_char (sint c)" "\<forall>x\<in>set cs. in_ranges query_char (sint x)"
    using assms(2) f by (auto simp: all_in_def list_all_iff)
  have "uri_loop s (u, mark) 453 (length pre) (map sint (c # cs @ [])) =
      uri_loop s (u, Some (length pre)) 454 (Suc (length pre + length cs)) (map sint ([] :: str))"
    by (rule uri_token [OF fragment_first [OF in_c(1)]]) (use in_c(2) fragment_stay in auto)
  moreover have "slice s (length pre) (length f) = f" using assms(1) by simp
  ultimately show ?thesis using assms(1) f by (simp add: uri_finish_def uri_eof_def string_from_def)
qed

lemma query_end:
  assumes "s = pre @ q @ with_prefix 35 f" and "all_in query_char q" "q \<noteq> []" and "all_in query_char f"
    and "u_fragment u = []"
  shows "uri_finish s (uri_loop s (u, mark) 456 (length pre) (map sint (q @ with_prefix 35 f))) =
    Inr (Some (u\<lparr>u_query := q, u_fragment := f\<rparr>))"
proof -
  obtain c cs where q: "q = c # cs" using assms(3) by (cases q) auto
  have in_c: "in_ranges query_char (sint c)" "\<forall>x\<in>set cs. in_ranges query_char (sint x)"
    using assms(2) q by (auto simp: all_in_def list_all_iff)
  have l: "uri_loop s (u, mark) 456 (length pre) (map sint (c # cs @ with_prefix 35 f)) =
      uri_loop s (u, Some (length pre)) 457 (Suc (length pre + length cs)) (map sint (with_prefix 35 f))"
    by (rule uri_token [OF query_first [OF in_c(1)]]) (use in_c(2) query_stay in auto)
  have sl: "slice s (length pre) (Suc (length cs)) = q" using assms(1) q slice_mid(1) [of pre q] by simp
  show ?thesis
  proof (cases "f = []")
    case True
    then show ?thesis using l sl q assms(1,5)
      by (simp add: uri_finish_def uri_eof_def string_from_def with_prefix_def)
  next
    case False
    have "uri_finish s (uri_loop s (u\<lparr>u_query := q\<rparr>, None) 453 (length (pre @ q @ [35])) (map sint f)) =
        Inr (Some (u\<lparr>u_query := q, u_fragment := f\<rparr>))"
      by (rule fragment_end) (use assms(1,4) False in \<open>simp_all add: with_prefix_def\<close>)
    then show ?thesis using l sl q False uri_separators(10) by (simp add: with_prefix_def string_from_def)
  qed
qed

lemma path_end:
  assumes "s = pre @ path @ with_prefix 63 q @ with_prefix 35 f" and "all_in query_char q" and "all_in query_char f"
    and "u_query u = []" and "u_fragment u = []"
  shows "uri_finish s (uri_loop s (u, Some (length pre)) 513 (length pre + length path)
      (map sint (with_prefix 63 q @ with_prefix 35 f))) = Inr (Some (u\<lparr>u_path := path, u_query := q, u_fragment := f\<rparr>))"
proof -
  have sl: "slice s (length pre) (length path) = path" using assms(1) by simp
  show ?thesis
  proof (cases "q = []")
    case True
    show ?thesis
    proof (cases "f = []")
      case True
      then show ?thesis using \<open>q = []\<close> sl assms by (simp add: uri_finish_def uri_eof_def string_from_def with_prefix_def)
    next
      case False
      have "uri_finish s (uri_loop s (u\<lparr>u_path := path\<rparr>, None) 453 (length (pre @ path @ [35])) (map sint f)) =
          Inr (Some (u\<lparr>u_path := path, u_fragment := f\<rparr>))"
        by (rule fragment_end) (use assms(1,3) False \<open>q = []\<close> in \<open>simp_all add: with_prefix_def\<close>)
      then show ?thesis using sl False \<open>q = []\<close> assms(4) uri_separators(9) by (simp add: with_prefix_def string_from_def)
    qed
  next
    case False
    have "uri_finish s (uri_loop s (u\<lparr>u_path := path\<rparr>, None) 456 (length (pre @ path @ [63])) (map sint (q @ with_prefix 35 f))) =
        Inr (Some (u\<lparr>u_path := path, u_query := q, u_fragment := f\<rparr>))"
      using query_end [of s "pre @ path @ [63]" q f "u\<lparr>u_path := path\<rparr>" None] assms False by (simp add: with_prefix_def)
    then show ?thesis using sl False uri_separators(8) by (simp add: with_prefix_def string_from_def)
  qed
qed

lemma path_from:
  assumes "s = pre @ (47 # ps) @ with_prefix 63 q @ with_prefix 35 f" and "all_in path_char ps"
    and "all_in query_char q" and "all_in query_char f" and "u_query u = []" and "u_fragment u = []"
  shows "uri_finish s (uri_loop s (u, Some (length pre)) 513 (Suc (length pre))
      (map sint (ps @ with_prefix 63 q @ with_prefix 35 f))) =
    Inr (Some (u\<lparr>u_path := 47 # ps, u_query := q, u_fragment := f\<rparr>))"
proof -
  have "\<forall>c\<in>set ps. move uri False 513 (sint c) = Move [] 513"
    using assms(2) path_stay by (auto simp: all_in_def list_all_iff)
  from uri_stay [OF this, of s "(u, Some (length pre))" "Suc (length pre)" "with_prefix 63 q @ with_prefix 35 f"]
    path_end [of s pre "47 # ps" q f u] assms show ?thesis by simp
qed

lemma digit_sint: "is_digit c \<Longrightarrow> in_ranges digit_char (sint c)"
proof -
  assume "is_digit c"
  then have u: "48 \<le> uint c" "uint c \<le> 57" by (simp_all add: is_digit_def word_le_def)
  then have "sint c = uint c" by (simp add: sint_uint signed_take_bit_int_eq_self)
  then show ?thesis using u by (simp add: in_ranges_def digit_char_def)
qed

lemma port_from:
  assumes "s = pre @ dec n @ (47 # ps) @ with_prefix 63 q @ with_prefix 35 f" and "n < 2 ^ 31" and "all_in path_char ps"
    and "all_in query_char q" and "all_in query_char f" and "u_query u = []" and "u_fragment u = []"
  shows "uri_finish s (uri_loop s (u, mark) 521 (length pre)
      (map sint (dec n @ (47 # ps) @ with_prefix 63 q @ with_prefix 35 f))) =
    Inr (Some (u\<lparr>u_port := int n, u_path := 47 # ps, u_query := q, u_fragment := f\<rparr>))"
proof -
  let ?tl = "(47 # ps) @ with_prefix 63 q @ with_prefix 35 f"
  obtain d ds where d: "dec n = d # ds" by (cases "dec n") auto
  have dig: "in_ranges digit_char (sint x)" if "x \<in> set (dec n)" for x
    using dec_digits [of n] that digit_sint by blast
  have "uri_loop s (u, mark) 521 (length pre) (map sint (d # ds @ ?tl)) =
      uri_loop s (u, Some (length pre)) 542 (Suc (length pre + length ds)) (map sint ?tl)"
    by (rule uri_token [OF port_first]) (use dig d port_stay in auto)
  moreover have "digit_of 10 (47 :: byte) = None" by (simp add: digit_of_def)
  then have "atoi (dec n @ ?tl) = int n" using assms(2) by (intro atoi_dec) auto
  then have "atoi (drop (length pre) s) = int n" using assms(1) by simp
  moreover have "uri_finish s (uri_loop s (u\<lparr>u_port := int n\<rparr>, Some (length (pre @ dec n))) 513 (Suc (length (pre @ dec n)))
      (map sint (ps @ with_prefix 63 q @ with_prefix 35 f))) =
    Inr (Some (u\<lparr>u_port := int n, u_path := 47 # ps, u_query := q, u_fragment := f\<rparr>))"
    using path_from [of s "pre @ dec n" ps q f "u\<lparr>u_port := int n\<rparr>"] assms by simp
  ultimately show ?thesis using d uri_separators(6) by (simp del: map_append)
qed

text \<open>A URI with a named host and without user information, as \<open>toString\<close> can write it readably.\<close>

definition plain_uri :: "uri \<Rightarrow> bool" where
  "plain_uri u \<longleftrightarrow>
     u_scheme u \<noteq> [] \<and> in_ranges alpha_char (sint (hd (u_scheme u))) \<and> all_in scheme_char (tl (u_scheme u)) \<and>
     u_userinfo u = [] \<and>
     u_host u \<noteq> [] \<and> in_ranges reg_char (sint (hd (u_host u))) \<and> all_in (digit_char @ reg_char) (tl (u_host u)) \<and>
     0 \<le> u_port u \<and> u_port u < 2 ^ 31 \<and>
     (u_path u = [] \<or> hd (u_path u) = 47 \<and> all_in path_char (tl (u_path u))) \<and>
     all_in query_char (u_query u) \<and> all_in query_char (u_fragment u)"

definition normal_uri :: "uri \<Rightarrow> uri" where
  "normal_uri u = u\<lparr>u_path := uri_getPath u, u_port := (if isDefaultPort u then 0 else u_port u)\<rparr>"

lemma lits [simp]: "lit ''/'' = [47]" "lit '':'' = [58]" "lit ''?'' = [63]" "lit ''#'' = [35]" "lit ''://'' = [58, 47, 47]"
  by (simp_all add: lit_def)

lemma toString_parts:
  assumes "plain_uri u"
  shows "uri_toString u = u_scheme u @ [58, 47, 47] @ u_host u @
    (if isDefaultPort u then [] else 58 # dec (nat (u_port u))) @ uri_getPath u @
    with_prefix 63 (u_query u) @ with_prefix 35 (u_fragment u)"
  using assms by (simp add: uri_toString_def plain_uri_def with_prefix_def dec_int_def)

lemma read_back:
  assumes pl: "plain_uri u"
  shows "Uri_Create (uri_toString u) = Inr (Some (normal_uri u))"
proof -
  obtain c cs where sc: "u_scheme u = c # cs" using pl by (cases "u_scheme u") (auto simp: plain_uri_def)
  obtain h hs where ho: "u_host u = h # hs" using pl by (cases "u_host u") (auto simp: plain_uri_def)
  obtain ps where pa: "uri_getPath u = 47 # ps" "all_in path_char ps"
    using pl by (cases "u_path u") (auto simp: plain_uri_def uri_getPath_def all_in_def)
  let ?q = "u_query u" and ?f = "u_fragment u"
  let ?tl = "(47 # ps) @ with_prefix 63 ?q @ with_prefix 35 ?f"
  let ?pt = "if isDefaultPort u then [] else 58 # dec (nat (u_port u))"
  define s where "s = uri_toString u"
  have s: "s = u_scheme u @ [58, 47, 47] @ u_host u @ ?pt @ ?tl"
    using toString_parts [OF pl] pa(1) by (simp add: s_def)
  let ?u1 = "Uri_new\<lparr>u_scheme := u_scheme u\<rparr>" and ?u2 = "Uri_new\<lparr>u_scheme := u_scheme u, u_host := u_host u\<rparr>"
  let ?m = "length (u_scheme u @ [58, 47, 47])" and ?n = "length (u_scheme u @ [58, 47, 47] @ u_host u)"
  have A: "uri_loop s (Uri_new, None) 451 0 (map sint (c # cs @ [58, 47, 47] @ u_host u @ ?pt @ ?tl)) =
      uri_loop s (Uri_new, Some 0) 508 (Suc (0 + length cs)) (map sint ([58, 47, 47] @ u_host u @ ?pt @ ?tl))"
    by (rule uri_token [OF scheme_first]) (use pl sc scheme_stay in \<open>auto simp: plain_uri_def all_in_def list_all_iff\<close>)
  have "slice s 0 (length (u_scheme u)) = u_scheme u" using s slice_mid(1) [of "[]" "u_scheme u"] by simp
  then have B: "uri_loop s (Uri_new, Some 0) 508 (Suc (0 + length cs)) (map sint ([58, 47, 47 :: byte] @ rest)) =
      uri_loop s (?u1, None) 511 ?m (map sint rest)" for rest
    using sc uri_separators(1-3) by (simp add: string_from_def)
  have "map sint s = map sint (c # cs @ [58, 47, 47] @ u_host u @ ?pt @ ?tl)" using s sc by simp
  then have 1: "uri_loop s (Uri_new, None) 451 0 (map sint s) =
      uri_loop s (?u1, None) 511 ?m (map sint (h # hs @ ?pt @ ?tl))"
    using trans [OF A B] by (simp only: ho append_Cons)
  have 2: "uri_loop s (?u1, None) 511 ?m (map sint (h # hs @ ?pt @ ?tl)) =
      uri_loop s (?u1, Some ?m) 520 (Suc (?m + length hs)) (map sint (?pt @ ?tl))"
    by (rule uri_token [OF host_first]) (use pl ho host_stay in \<open>auto simp: plain_uri_def all_in_def list_all_iff\<close>)
  have sl: "slice s ?m (length (u_host u)) = u_host u"
    using s slice_mid(1) [of "u_scheme u @ [58, 47, 47]" "u_host u"] by simp
  have q: "all_in query_char ?q" "all_in query_char ?f" "0 \<le> u_port u" "u_port u < 2 ^ 31" "u_userinfo u = []"
    using pl by (simp_all add: plain_uri_def)
  have "uri_finish s (uri_loop s (?u1, Some ?m) 520 (Suc (?m + length hs)) (map sint (?pt @ ?tl))) =
      Inr (Some (normal_uri u))"
  proof (cases "isDefaultPort u")
    case True
    have "uri_finish s (uri_loop s (?u2, Some ?n) 513 (Suc ?n) (map sint (ps @ with_prefix 63 ?q @ with_prefix 35 ?f))) =
        Inr (Some (?u2\<lparr>u_path := 47 # ps, u_query := ?q, u_fragment := ?f\<rparr>))"
      by (rule path_from) (use s True pa(2) q in \<open>simp_all add: Uri_new_def\<close>)
    moreover have "?u2\<lparr>u_path := 47 # ps, u_query := ?q, u_fragment := ?f\<rparr> = normal_uri u"
      using True q(5) pa(1) by (simp add: normal_uri_def Uri_new_def)
    ultimately show ?thesis using True sl ho uri_separators(5) by (simp add: string_from_def del: map_append)
  next
    case False
    have "uri_finish s (uri_loop s (?u2, Some ?m) 521 (length ((u_scheme u @ [58, 47, 47] @ u_host u) @ [58]))
        (map sint (dec (nat (u_port u)) @ ?tl))) =
        Inr (Some (?u2\<lparr>u_port := int (nat (u_port u)), u_path := 47 # ps, u_query := ?q, u_fragment := ?f\<rparr>))"
      by (rule port_from) (use s False pa(2) q in \<open>simp_all add: Uri_new_def\<close>)
    moreover have "?u2\<lparr>u_port := int (nat (u_port u)), u_path := 47 # ps, u_query := ?q, u_fragment := ?f\<rparr> = normal_uri u"
      using False q(3,5) pa(1) by (simp add: normal_uri_def Uri_new_def)
    ultimately show ?thesis using False sl ho uri_separators(4) by (simp add: string_from_def del: map_append)
  qed
  then show ?thesis using 1 2 by (simp add: Create_finish s_def)
qed

section \<open>Properties\<close>

lemma empty_port_run: "Uri_Create [104, 116, 116, 112, 58, 47, 47, 104, 58, 47] = Inl NullString"
  by (simp add: Create_finish scheme_first scheme_stay host_first uri_separators uri_finish_def uri_eof_def
      in_ranges_def char_defs string_from_def)

text \<open>
  C37: When \<open>Uri::Create\<close> does not return a URI or a null pointer, it has built a string from a null pointer,
  and the text has an authority with an empty port, as in \<open>http://h:/\<close>: its first slash is doubled, and what
  follows up to the next slash, \<open>?\<close>, \<open>#\<close> or the end ends with a colon. The actions then clear the
  mark at the port and read it for the path.
\<close>

theorem Create_throws_only_on_empty_port:
  assumes "Uri_Create s = Inl e"
  shows "e = NullString \<and> empty_port s"
proof -
  have st: "case uri_acts s p as st of Inl e \<Rightarrow> e = NullString \<and> empty_port s | Inr st1 \<Rightarrow> uri_inv s t (Suc p) st1"
    if "uri_inv s n p st" "p < length s" "move uri False n (map sint s ! p) = Move as t" for n p st as t
    using uri_step [of s n p "fst st" "snd st" as t] that by simp
  have i: "uri_inv s 451 0 (Uri_new, None)"
    by (simp add: may_null_def in_path_def authority_def port_state_def plain_to_def)
  have l: "case (case uri_loop s (Uri_new, None) 451 0 (map sint s) of Inl e \<Rightarrow> Inl e
      | Inr (st, cs, p) \<Rightarrow> Inr (st, [] :: unit list, cs, p)) of Inl e \<Rightarrow> e = NullString \<and> empty_port s
    | Inr (st, evs, m, p) \<Rightarrow> list_all (\<lambda>x. True) evs \<and> (m = 0 \<or> m = 452 \<or> uri_inv s m p st \<and> p = length s) \<and>
        0 \<le> p \<and> p \<le> length (map sint s :: int list)"
  proof (rule ul.loop_inv [where I = "uri_inv s" and buf = "map sint s" and E = "\<lambda>x. True"
        and X = "\<lambda>e. e = NullString \<and> empty_port s" and F = "\<lambda>m p st. m = 0 \<or> m = 452 \<or> uri_inv s m p st \<and> p = length s"])
    show "uri_inv s 451 0 (Uri_new, None)" by (rule i)
  next
    fix n p st as t
    assume "uri_inv s n p st" "p < length (map sint s :: int list)" "move uri False n (map sint s ! p) = Move as t"
    from st [OF this(1) _ this(3)] this(2)
    show "case (case uri_acts s p as st of Inl e \<Rightarrow> Inl e | Inr st1 \<Rightarrow> Inr (st1, [] :: unit list, None)) of
        Inl e \<Rightarrow> e = NullString \<and> empty_port s
      | Inr (s1, evs, None) \<Rightarrow> list_all (\<lambda>x. True) evs \<and> uri_inv s t (Suc p) s1
      | Inr (s1, evs, Some k) \<Rightarrow> list_all (\<lambda>x. True) evs \<and> (k = 0 \<or> k = 452 \<or> uri_inv s k (Suc p) s1 \<and> Suc p = length s)"
      by (auto split: sum.splits)
  qed auto
  show ?thesis
  proof (cases "uri_loop s (Uri_new, None) 451 0 (map sint s)")
    case (Inl e')
    then show ?thesis using l assms by (simp add: Uri_Create_def)
  next
    case (Inr r)
    obtain u mark m p where r: "r = ((u, mark), m, p)" by (metis prod.exhaust)
    have "uri_eof 0 = []" "uri_eof 452 = []" by (simp_all add: uri_eof_def)
    then have a: "p = length s" "uri_acts s p (uri_eof m) (u, mark) = Inl e"
      using assms Inr r by (auto simp: Uri_Create_def split: if_splits sum.splits prod.splits)
    then have "uri_inv s m (length s) (u, mark)"
      using l Inr r \<open>uri_eof 0 = []\<close> \<open>uri_eof 452 = []\<close> by auto
    then show ?thesis using uri_end a by blast
  qed
qed

theorem Create_throws_only_on_empty_port_witness:
  "Uri_Create [104, 116, 116, 112, 58, 47, 47, 104, 58, 47] = Inl NullString \<and>
    empty_port [104, 116, 116, 112, 58, 47, 47, 104, 58, 47]"
  using Create_throws_only_on_empty_port [OF empty_port_run] empty_port_run by simp

text \<open>
  C32: \<open>Uri::Create\<close> reads back what \<open>toString\<close> writes, for every URI with a scheme, a named host without user
  information, a port below \<open>2 ^ 31\<close>, an absolute path, a query and a fragment of the allowed characters: all
  getters give the same. A default port is left out and found again from the scheme, an empty path is \<open>/\<close>.
\<close>

theorem toString_read_back:
  assumes "plain_uri u"
  shows "\<exists>v. Uri_Create (uri_toString u) = Inr (Some v) \<and> u_scheme v = u_scheme u \<and> u_userinfo v = u_userinfo u \<and>
    u_host v = u_host u \<and> uri_getPort v = uri_getPort u \<and> uri_getPath v = uri_getPath u \<and>
    u_query v = u_query u \<and> u_fragment v = u_fragment u"
proof (intro exI conjI)
  show "Uri_Create (uri_toString u) = Inr (Some (normal_uri u))" by (rule read_back [OF assms])
qed (auto simp: normal_uri_def uri_getPort_def isDefaultPort_def uri_getPath_def)

theorem toString_read_back_witness:
  "\<exists>v. Uri_Create (uri_toString (Uri_new\<lparr>u_scheme := [104], u_host := [97, 46], u_port := 8080, u_query := [61]\<rparr>)) = Inr (Some v) \<and>
    u_scheme v = [104] \<and> u_host v = [97, 46] \<and> uri_getPort v = 8080"
  using toString_read_back [of "Uri_new\<lparr>u_scheme := [104], u_host := [97, 46], u_port := 8080, u_query := [61]\<rparr>"]
  by (auto simp: plain_uri_def Uri_new_def all_in_def in_ranges_def char_defs uri_getPort_def)

end
