(* ===== verification/Http.thy ===== *)
theory Http
  imports StdOrdered CString
begin

text \<open>
  \<^verbatim>\<open>src/include/http/http.h\<close> and \<^verbatim>\<open>src/src/http/http.cc\<close>: methods and status codes with their strings, the
  maps with case-insensitive keys, requests and responses with their accessors and their output.
\<close>

section \<open>Methods and status codes\<close>

datatype HttpMethod = DELETE | GET | HEAD | POST | PUT | CONNECT | OPTIONS | TRACE | COPY | LOCK | MKCOL | MOVE | PROPFIND
  | PROPPATCH | SEARCH | UNLOCK | BIND | REBIND | UNBIND | ACL | REPORT | MKACTIVITY | CHECKOUT |
  MERGE | MSEARCH | NOTIFY | SUBSCRIBE | UNSUBSCRIBE | PATCH | PURGE | MKCALENDAR | LINK | UNLINK |
  SOURCE | INVALID_METHOD

definition http_method_map :: "(HttpMethod \<times> str) list" where
  "http_method_map =
    [(DELETE, lit ''DELETE''), (GET, lit ''GET''), (HEAD, lit ''HEAD''), (POST, lit ''POST''),
     (PUT, lit ''PUT''), (CONNECT, lit ''CONNECT''), (OPTIONS, lit ''OPTIONS''), (TRACE, lit ''TRACE''),
     (COPY, lit ''COPY''), (LOCK, lit ''LOCK''), (MKCOL, lit ''MKCOL''), (MOVE, lit ''MOVE''),
     (PROPFIND, lit ''PROPFIND''), (PROPPATCH, lit ''PROPPATCH''), (SEARCH, lit ''SEARCH''),
     (UNLOCK, lit ''UNLOCK''), (BIND, lit ''BIND''), (REBIND, lit ''REBIND''), (UNBIND, lit ''UNBIND''),
     (ACL, lit ''ACL''), (REPORT, lit ''REPORT''), (MKACTIVITY, lit ''MKACTIVITY''),
     (CHECKOUT, lit ''CHECKOUT''), (MERGE, lit ''MERGE''), (MSEARCH, lit ''M-SEARCH''),
     (NOTIFY, lit ''NOTIFY''), (SUBSCRIBE, lit ''SUBSCRIBE''), (UNSUBSCRIBE, lit ''UNSUBSCRIBE''),
     (PATCH, lit ''PATCH''), (PURGE, lit ''PURGE''), (MKCALENDAR, lit ''MKCALENDAR''),
     (LINK, lit ''LINK''), (UNLINK, lit ''UNLINK''), (SOURCE, lit ''SOURCE'')]"

text \<open>An \<open>enum class\<close> over \<open>int\<close>: \<open>(HttpStatus)(atoi(at))\<close> gives it any value.\<close>

type_synonym HttpStatus = int

definition http_status_map :: "(HttpStatus \<times> str) list" where
  "http_status_map =
    [(100, lit ''Continue''), (101, lit ''Switching Protocols''), (102, lit ''Processing''),
     (200, lit ''OK''), (201, lit ''Created''), (202, lit ''Accepted''),
     (203, lit ''Non-Authoritative Information''), (204, lit ''No Content''),
     (205, lit ''Reset Content''), (206, lit ''Partial Content''), (207, lit ''Multi-Status''),
     (208, lit ''Already Reported''), (226, lit ''IM Used''), (300, lit ''Multiple Choices''),
     (301, lit ''Moved Permanently''), (302, lit ''Found''), (303, lit ''See Other''),
     (304, lit ''Not Modified''), (305, lit ''Use Proxy''), (307, lit ''Temporary Redirect''),
     (308, lit ''Permanent Redirect''), (400, lit ''Bad Request''), (401, lit ''Unauthorized''),
     (402, lit ''Payment Required''), (403, lit ''Forbidden''), (404, lit ''Not Found''),
     (405, lit ''Method Not Allowed''), (406, lit ''Not Acceptable''),
     (407, lit ''Proxy Authentication Required''), (408, lit ''Request Timeout''),
     (409, lit ''Conflict''), (410, lit ''Gone''), (411, lit ''Length Required''),
     (412, lit ''Precondition Failed''), (413, lit ''Payload Too Large''), (414, lit ''URI Too Long''),
     (415, lit ''Unsupported Media Type''), (416, lit ''Range Not Satisfiable''),
     (417, lit ''Expectation Failed''), (421, lit ''Misdirected Request''),
     (422, lit ''Unprocessable Entity''), (423, lit ''Locked''), (424, lit ''Failed Dependency''),
     (426, lit ''Upgrade Required''), (428, lit ''Precondition Required''),
     (429, lit ''Too Many Requests''), (431, lit ''Request Header Fields Too Large''),
     (451, lit ''Unavailable For Legal Reasons''), (500, lit ''Internal Server Error''),
     (501, lit ''Not Implemented''), (502, lit ''Bad Gateway''), (503, lit ''Service Unavailable''),
     (504, lit ''Gateway Timeout''), (505, lit ''HTTP Version Not Supported''),
     (506, lit ''Variant Also Negotiates''), (507, lit ''Insufficient Storage''),
     (508, lit ''Loop Detected''), (510, lit ''Not Extended''),
     (511, lit ''Network Authentication Required'')]"

definition StringToHttpMethod :: "str \<Rightarrow> HttpMethod" where
  "StringToHttpMethod m =
     (case find (\<lambda>(name, s). s = cstr m) http_method_map of None \<Rightarrow> INVALID_METHOD | Some (name, s) \<Rightarrow> name)"

text \<open>\<open>m\<close> is a pointer into a buffer: the rest of the buffer from there.\<close>

definition CharsToHttpMethod :: "str \<Rightarrow> HttpMethod" where
  "CharsToHttpMethod m =
     (case find (\<lambda>(name, s). strncmp_eq s m (length s)) http_method_map of None \<Rightarrow> INVALID_METHOD
      | Some (name, s) \<Rightarrow> name)"

definition HttpMethodToString :: "HttpMethod \<Rightarrow> str" where
  "HttpMethodToString m = (case map_of http_method_map m of None \<Rightarrow> lit ''<unknow>'' | Some s \<Rightarrow> s)"

definition HttpStatusToString :: "HttpStatus \<Rightarrow> str" where
  "HttpStatusToString s = (case map_of http_status_map s of None \<Rightarrow> lit ''<unknown>'' | Some m \<Rightarrow> m)"

section \<open>Maps\<close>

text \<open>\<open>std::map<std::string, std::string, CaseInsensitiveLess>\<close>.\<close>

definition CaseInsensitiveLess :: "str \<Rightarrow> str \<Rightarrow> bool" where
  "CaseInsensitiveLess lhs rhs = casecmp_less lhs rhs"

type_synonym MapType = "(str \<times> str) list"

lemma incomp_ci: "incomp CaseInsensitiveLess a b \<longleftrightarrow> casecmp_eq a b"
  using lex_less_linear [of "map tolower (cstr a)" "map tolower (cstr b)"] lex_less_irrefl
  by (auto simp: incomp_def CaseInsensitiveLess_def casecmp_less_def casecmp_eq_def)

interpretation ci: strict_weak CaseInsensitiveLess
proof
  fix x y z
  show "\<not> CaseInsensitiveLess x x" by (simp add: CaseInsensitiveLess_def casecmp_less_def lex_less_irrefl)
  show "CaseInsensitiveLess x y \<Longrightarrow> CaseInsensitiveLess y z \<Longrightarrow> CaseInsensitiveLess x z"
    unfolding CaseInsensitiveLess_def casecmp_less_def by (rule lex_less_trans)
  show "incomp CaseInsensitiveLess x y \<Longrightarrow> incomp CaseInsensitiveLess y z \<Longrightarrow> incomp CaseInsensitiveLess x z"
    by (simp add: incomp_ci casecmp_eq_def)
qed

definition map_get :: "MapType \<Rightarrow> str \<Rightarrow> str \<Rightarrow> str" where
  "map_get m key def = (case omap_find CaseInsensitiveLess key m of None \<Rightarrow> def | Some v \<Rightarrow> v)"

definition map_set :: "MapType \<Rightarrow> str \<Rightarrow> str \<Rightarrow> MapType" where
  "map_set m key val = omap_set CaseInsensitiveLess key val m"

definition map_del :: "MapType \<Rightarrow> str \<Rightarrow> MapType" where
  "map_del m key = omap_erase CaseInsensitiveLess key m"

text \<open>The result and what is written to \<open>val\<close>, if anything is.\<close>

definition map_has :: "MapType \<Rightarrow> str \<Rightarrow> bool \<times> str option" where
  "map_has m key = (case omap_find CaseInsensitiveLess key m of None \<Rightarrow> (False, None) | Some v \<Rightarrow> (True, Some v))"

text \<open>\<open>boost::lexical_cast\<close> to the type \<open>T\<close> is a parameter; \<open>None\<close> is its exception.\<close>

definition getAs :: "(str \<Rightarrow> 'a option) \<Rightarrow> MapType \<Rightarrow> str \<Rightarrow> 'a \<Rightarrow> 'a" where
  "getAs cast m key def =
     (case omap_find CaseInsensitiveLess key m of None \<Rightarrow> def
      | Some v \<Rightarrow> (case cast v of None \<Rightarrow> def | Some x \<Rightarrow> x))"

definition checkGetAs :: "(str \<Rightarrow> 'a option) \<Rightarrow> MapType \<Rightarrow> str \<Rightarrow> 'a \<Rightarrow> bool \<times> 'a" where
  "checkGetAs cast m key def =
     (case omap_find CaseInsensitiveLess key m of None \<Rightarrow> (False, def)
      | Some v \<Rightarrow> (case cast v of None \<Rightarrow> (False, def) | Some x \<Rightarrow> (True, x)))"

section \<open>Requests\<close>

record HttpRequest =
  rq_method :: HttpMethod
  rq_version :: byte
  rq_close :: bool
  rq_path :: str
  rq_query :: str
  rq_fragment :: str
  rq_body :: str
  rq_headers :: MapType
  rq_params :: MapType
  rq_cookies :: MapType

definition HttpRequest_new :: "byte \<Rightarrow> bool \<Rightarrow> HttpRequest" where
  "HttpRequest_new version close = \<lparr>rq_method = GET, rq_version = version, rq_close = close, rq_path = lit ''/'',
     rq_query = [], rq_fragment = [], rq_body = [], rq_headers = [], rq_params = [], rq_cookies = []\<rparr>"

definition getHeader :: "HttpRequest \<Rightarrow> str \<Rightarrow> str \<Rightarrow> str" where
  "getHeader r key def = map_get (rq_headers r) key def"

definition getParam :: "HttpRequest \<Rightarrow> str \<Rightarrow> str \<Rightarrow> str" where
  "getParam r key def = map_get (rq_params r) key def"

definition getCookie :: "HttpRequest \<Rightarrow> str \<Rightarrow> str \<Rightarrow> str" where
  "getCookie r key def = map_get (rq_cookies r) key def"

definition setHeader :: "HttpRequest \<Rightarrow> str \<Rightarrow> str \<Rightarrow> HttpRequest" where
  "setHeader r key val = r\<lparr>rq_headers := map_set (rq_headers r) key val\<rparr>"

definition setParam :: "HttpRequest \<Rightarrow> str \<Rightarrow> str \<Rightarrow> HttpRequest" where
  "setParam r key val = r\<lparr>rq_params := map_set (rq_params r) key val\<rparr>"

definition setCookie :: "HttpRequest \<Rightarrow> str \<Rightarrow> str \<Rightarrow> HttpRequest" where
  "setCookie r key val = r\<lparr>rq_cookies := map_set (rq_cookies r) key val\<rparr>"

definition delHeader :: "HttpRequest \<Rightarrow> str \<Rightarrow> HttpRequest" where
  "delHeader r key = r\<lparr>rq_headers := map_del (rq_headers r) key\<rparr>"

definition delParam :: "HttpRequest \<Rightarrow> str \<Rightarrow> HttpRequest" where
  "delParam r key = r\<lparr>rq_params := map_del (rq_params r) key\<rparr>"

definition delCookie :: "HttpRequest \<Rightarrow> str \<Rightarrow> HttpRequest" where
  "delCookie r key = r\<lparr>rq_cookies := map_del (rq_cookies r) key\<rparr>"

definition hasHeader :: "HttpRequest \<Rightarrow> str \<Rightarrow> bool \<times> str option" where
  "hasHeader r key = map_has (rq_headers r) key"

definition hasParam :: "HttpRequest \<Rightarrow> str \<Rightarrow> bool \<times> str option" where
  "hasParam r key = map_has (rq_params r) key"

definition hasCookie :: "HttpRequest \<Rightarrow> str \<Rightarrow> bool \<times> str option" where
  "hasCookie r key = map_has (rq_cookies r) key"

definition crlf :: "str" where
  "crlf = [13, 10]"

text \<open>\<open>(m_version >> 4)\<close> and \<open>m_version & 0x0F\<close> as decimal numbers.\<close>

definition dump_version :: "byte \<Rightarrow> str" where
  "dump_version v = dec (unat v div 16) @ lit ''.'' @ dec (unat v mod 16)"

text \<open>The loop over the headers: \<open>connection\<close> is left out.\<close>

definition dump_headers :: "str \<Rightarrow> MapType \<Rightarrow> str" where
  "dump_headers sep m =
     concat (map (\<lambda>(k, v). if casecmp_eq k (lit ''connection'') then [] else k @ sep @ v @ crlf) m)"

definition dump_connection :: "bool \<Rightarrow> str" where
  "dump_connection close = lit ''connection: '' @ (if close then lit ''close'' else lit ''keep-alive'') @ crlf"

definition dump_body :: "str \<Rightarrow> str" where
  "dump_body body = (if body \<noteq> [] then lit ''content-length: '' @ dec (length body) @ crlf @ crlf @ body else crlf)"

definition request_dump :: "HttpRequest \<Rightarrow> str" where
  "request_dump r =
     HttpMethodToString (rq_method r) @ lit '' '' @ rq_path r @
     (if rq_query r = [] then [] else lit ''?'') @ rq_query r @
     (if rq_fragment r = [] then [] else lit ''#'') @ rq_fragment r @
     lit '' HTTP/'' @ dump_version (rq_version r) @ crlf @
     dump_connection (rq_close r) @ dump_headers (lit '':'') (rq_headers r) @ dump_body (rq_body r)"

section \<open>Responses\<close>

record HttpResponse =
  rs_status :: HttpStatus
  rs_version :: byte
  rs_close :: bool
  rs_body :: str
  rs_reason :: str
  rs_headers :: MapType

definition HttpResponse_new :: "byte \<Rightarrow> bool \<Rightarrow> HttpResponse" where
  "HttpResponse_new version close = \<lparr>rs_status = 200, rs_version = version, rs_close = close, rs_body = [],
     rs_reason = [], rs_headers = []\<rparr>"

definition rs_getHeader :: "HttpResponse \<Rightarrow> str \<Rightarrow> str \<Rightarrow> str" where
  "rs_getHeader r key def = map_get (rs_headers r) key def"

definition rs_setHeader :: "HttpResponse \<Rightarrow> str \<Rightarrow> str \<Rightarrow> HttpResponse" where
  "rs_setHeader r key val = r\<lparr>rs_headers := map_set (rs_headers r) key val\<rparr>"

definition rs_delHeader :: "HttpResponse \<Rightarrow> str \<Rightarrow> HttpResponse" where
  "rs_delHeader r key = r\<lparr>rs_headers := map_del (rs_headers r) key\<rparr>"

text \<open>\<open>(uint32_t)m_status\<close>.\<close>

definition response_dump :: "HttpResponse \<Rightarrow> str" where
  "response_dump r =
     lit ''HTTP/'' @ dump_version (rs_version r) @ lit '' '' @ dec (nat (rs_status r mod 2 ^ 32)) @ lit '' '' @
     (if rs_reason r = [] then HttpStatusToString (rs_status r) else rs_reason r) @ crlf @
     dump_headers (lit '': '') (rs_headers r) @ dump_connection (rs_close r) @ dump_body (rs_body r)"

end
