(* ===== verification/HttpParser.thy ===== *)
theory HttpParser
  imports Http Http11 HttpClient
begin

text \<open>
  \<^verbatim>\<open>src/src/http-parser/http_parser.cc\<close>: the classes that run the generated parsers and build a request or a
  response from their callbacks. The callbacks do not touch the parser, so those of a call are run in
  order behind it. \<open>cast\<close> is \<open>boost::lexical_cast<uint64_t>\<close>.
\<close>

section \<open>Strings of the callbacks\<close>

datatype parser_error = ParserAssert | BadString

text \<open>\<open>std::string(at, length)\<close>; reading outside the received data is an error of the model.\<close>

definition string_at :: "str \<Rightarrow> nat \<Rightarrow> nat \<Rightarrow> parser_error + str" where
  "string_at data at len = (if at + len \<le> length data then Inr (slice data at len) else Inl BadString)"

section \<open>Requests\<close>

record HttpRequestParser =
  qp_parser :: http_parser
  qp_data :: HttpRequest
  qp_error :: int

text \<open>\<open>m0\<close> is what the members of \<open>http_parser\<close> hold before \<open>http_parser_init\<close>.\<close>

definition HttpRequestParser_new :: "http_parser \<Rightarrow> HttpRequestParser" where
  "HttpRequestParser_new m0 =
     \<lparr>qp_parser = http_parser_init m0, qp_data = HttpRequest_new 0x11 True, qp_error = 0\<rparr>"

definition version_of :: "str \<Rightarrow> nat \<Rightarrow> byte option" where
  "version_of at len = (if strncmp_eq at (lit ''HTTP/1.1'') len then Some 0x11
     else if strncmp_eq at (lit ''HTTP/1.0'') len then Some 0x10 else None)"

fun on_request :: "str \<Rightarrow> event \<Rightarrow> HttpRequestParser \<Rightarrow> parser_error + HttpRequestParser" where
  "on_request data (Element Method at len) q =
     (let m = CharsToHttpMethod (drop at data) in
      if m = INVALID_METHOD then
        (case string_at data at len of Inl e \<Rightarrow> Inl e | Inr s \<Rightarrow> Inr (q\<lparr>qp_error := 1000\<rparr>))
      else Inr (q\<lparr>qp_data := (qp_data q)\<lparr>rq_method := m\<rparr>\<rparr>))"
| "on_request data (Element Uri at len) q = Inr q"
| "on_request data (Element FragmentE at len) q =
     (case string_at data at len of Inl e \<Rightarrow> Inl e
      | Inr s \<Rightarrow> Inr (q\<lparr>qp_data := (qp_data q)\<lparr>rq_fragment := s\<rparr>\<rparr>))"
| "on_request data (Element Path at len) q =
     (case string_at data at len of Inl e \<Rightarrow> Inl e
      | Inr s \<Rightarrow> Inr (q\<lparr>qp_data := (qp_data q)\<lparr>rq_path := s\<rparr>\<rparr>))"
| "on_request data (Element Query at len) q =
     (case string_at data at len of Inl e \<Rightarrow> Inl e
      | Inr s \<Rightarrow> Inr (q\<lparr>qp_data := (qp_data q)\<lparr>rq_query := s\<rparr>\<rparr>))"
| "on_request data (Element Version at len) q =
     (case version_of (drop at data) len of
        Some v \<Rightarrow> Inr (q\<lparr>qp_data := (qp_data q)\<lparr>rq_version := v\<rparr>\<rparr>)
      | None \<Rightarrow> (case string_at data at len of Inl e \<Rightarrow> Inl e | Inr s \<Rightarrow> Inr (q\<lparr>qp_error := 1001\<rparr>)))"
| "on_request data (Element HeaderDone at len) q = Inr q"
| "on_request data (Field f fl v vl) q =
     (if fl = 0 then Inr (q\<lparr>qp_error := 1002\<rparr>)
      else (case string_at data f fl of Inl e \<Rightarrow> Inl e
        | Inr name \<Rightarrow> (case string_at data v vl of Inl e \<Rightarrow> Inl e
          | Inr val \<Rightarrow> Inr (q\<lparr>qp_data := setHeader (qp_data q) name val\<rparr>))))"

fun on_requests :: "str \<Rightarrow> event list \<Rightarrow> HttpRequestParser \<Rightarrow> parser_error + HttpRequestParser" where
  "on_requests data [] q = Inr q"
| "on_requests data (ev # evs) q =
     (case on_request data ev q of Inl e \<Rightarrow> Inl e | Inr q1 \<Rightarrow> on_requests data evs q1)"

text \<open>The parser, the data behind \<open>memmove\<close>, and the number of characters consumed.\<close>

definition request_execute :: "HttpRequestParser \<Rightarrow> str \<Rightarrow> parser_error + HttpRequestParser \<times> str \<times> nat" where
  "request_execute q data =
     (case http_parser_execute (qp_parser q) data 0 of Inl e \<Rightarrow> Inl ParserAssert
      | Inr (s, evs, offset) \<Rightarrow>
        (case on_requests data evs q of Inl e \<Rightarrow> Inl e
         | Inr q1 \<Rightarrow> Inr (q1\<lparr>qp_parser := s\<rparr>, drop offset data, offset)))"

definition request_isFinished :: "HttpRequestParser \<Rightarrow> int" where
  "request_isFinished q = http_parser_finish (qp_parser q)"

definition request_hasError :: "HttpRequestParser \<Rightarrow> bool" where
  "request_hasError q \<longleftrightarrow> qp_error q \<noteq> 0 \<or> http_parser_has_error (qp_parser q)"

definition request_getContentLength :: "(str \<Rightarrow> nat option) \<Rightarrow> HttpRequestParser \<Rightarrow> nat" where
  "request_getContentLength cast q = getAs cast (rq_headers (qp_data q)) (lit ''content-length'') 0"

section \<open>Responses\<close>

record HttpResponseParser =
  sp_parser :: httpclient_parser
  sp_data :: HttpResponse
  sp_error :: int

definition HttpResponseParser_new :: "httpclient_parser \<Rightarrow> HttpResponseParser" where
  "HttpResponseParser_new m0 =
     \<lparr>sp_parser = httpclient_parser_init m0, sp_data = HttpResponse_new 0x11 True, sp_error = 0\<rparr>"

fun on_response :: "str \<Rightarrow> cevent \<Rightarrow> HttpResponseParser \<Rightarrow> parser_error + HttpResponseParser" where
  "on_response data (CElement ReasonPhrase at len) q =
     (case string_at data at len of Inl e \<Rightarrow> Inl e
      | Inr s \<Rightarrow> Inr (q\<lparr>sp_data := (sp_data q)\<lparr>rs_reason := s\<rparr>\<rparr>))"
| "on_response data (CElement StatusCode at len) q =
     Inr (q\<lparr>sp_data := (sp_data q)\<lparr>rs_status := atoi (drop at data)\<rparr>\<rparr>)"
| "on_response data (CElement ChunkSizeOf at len) q = Inr q"
| "on_response data (CElement ResponseVersion at len) q =
     (case version_of (drop at data) len of
        Some v \<Rightarrow> Inr (q\<lparr>sp_data := (sp_data q)\<lparr>rs_version := v\<rparr>\<rparr>)
      | None \<Rightarrow> (case string_at data at len of Inl e \<Rightarrow> Inl e | Inr s \<Rightarrow> Inr (q\<lparr>sp_error := 1001\<rparr>)))"
| "on_response data (CElement ResponseDone at len) q = Inr q"
| "on_response data (CElement LastChunk at len) q = Inr q"
| "on_response data (CField f fl v vl) q =
     (if fl = 0 then Inr (q\<lparr>sp_error := 1002\<rparr>)
      else (case string_at data f fl of Inl e \<Rightarrow> Inl e
        | Inr name \<Rightarrow> (case string_at data v vl of Inl e \<Rightarrow> Inl e
          | Inr val \<Rightarrow> Inr (q\<lparr>sp_data := rs_setHeader (sp_data q) name val\<rparr>))))"

fun on_responses :: "str \<Rightarrow> cevent list \<Rightarrow> HttpResponseParser \<Rightarrow> parser_error + HttpResponseParser" where
  "on_responses data [] q = Inr q"
| "on_responses data (ev # evs) q =
     (case on_response data ev q of Inl e \<Rightarrow> Inl e | Inr q1 \<Rightarrow> on_responses data evs q1)"

text \<open>The offset is the \<open>int\<close> result as a \<open>size_t\<close>; moving more than there is is an error.\<close>

definition response_execute ::
    "HttpResponseParser \<Rightarrow> str \<Rightarrow> byte \<Rightarrow> bool \<Rightarrow> parser_error + HttpResponseParser \<times> str \<times> nat" where
  "response_execute q data beyond chunck =
     (let m = (if chunck then httpclient_parser_init (sp_parser q) else sp_parser q) in
      case httpclient_parser_execute m data beyond 0 of Inl e \<Rightarrow> Inl ParserAssert
      | Inr (s, evs, r) \<Rightarrow>
        (case on_responses data evs q of Inl e \<Rightarrow> Inl e
         | Inr q1 \<Rightarrow> let offset = int_to_size r in
             if offset \<le> length data then Inr (q1\<lparr>sp_parser := s\<rparr>, drop offset data, offset) else Inl BadString))"

definition response_isFinished :: "HttpResponseParser \<Rightarrow> int" where
  "response_isFinished q = httpclient_parser_finish (sp_parser q)"

definition response_hasError :: "HttpResponseParser \<Rightarrow> bool" where
  "response_hasError q \<longleftrightarrow> sp_error q \<noteq> 0 \<or> httpclient_parser_has_error (sp_parser q)"

definition response_getContentLength :: "(str \<Rightarrow> nat option) \<Rightarrow> HttpResponseParser \<Rightarrow> nat" where
  "response_getContentLength cast q = getAs cast (rs_headers (sp_data q)) (lit ''content-length'') 0"

end
