(* ===== verification/HttpSession.thy ===== *)
theory HttpSession
  imports HttpParser
begin

text \<open>
  \<^verbatim>\<open>src/src/http/http_session.cc\<close> over the stream calls of \<^verbatim>\<open>src/src/socket.cc\<close>. What the
  system calls find is part of the socket: what arrives, in order, and what each send accepts. A call that
  finds nothing more waits for ever, which is an error of the model.
\<close>

section \<open>The socket\<close>

text \<open>Bytes that have arrived together, the end of the stream, a call that fails with -1.\<close>

datatype arrival = Got str | Shut | Failed

record sock =
  sk_connected :: bool
  sk_in :: "arrival list"
  sk_out :: str
  sk_accepts :: "int list"

datatype session_error = Blocked | BadParse parser_error | OutOfBuffer

definition sock_close :: "sock \<Rightarrow> sock" where
  "sock_close s = s\<lparr>sk_connected := False\<rparr>"

text \<open>\<open>Socket::recv\<close>: the socket behind it, the result and the bytes stored.\<close>

definition sock_recv :: "sock \<Rightarrow> nat \<Rightarrow> session_error + sock \<times> int \<times> str" where
  "sock_recv s n =
     (if \<not> sk_connected s then Inr (s, -1, [])
      else (case sk_in s of [] \<Rightarrow> Inl Blocked
        | Shut # rest \<Rightarrow> Inr (s\<lparr>sk_in := rest\<rparr>, 0, [])
        | Failed # rest \<Rightarrow> Inr (s\<lparr>sk_in := rest\<rparr>, -1, [])
        | Got bs # rest \<Rightarrow>
            Inr (s\<lparr>sk_in := (if drop n bs = [] then rest else Got (drop n bs) # rest)\<rparr>,
              size_to_int (length (take n bs)), take n bs)))"

text \<open>\<open>Socket::send\<close> of the bytes \<open>bs\<close>.\<close>

definition sock_send :: "sock \<Rightarrow> str \<Rightarrow> session_error + sock \<times> int" where
  "sock_send s bs =
     (if \<not> sk_connected s then Inr (s, -1)
      else (case sk_accepts s of [] \<Rightarrow> Inl Blocked
        | r # rest \<Rightarrow>
            if r < 0 then Inr (s\<lparr>sk_accepts := rest\<rparr>, -1)
            else Inr (s\<lparr>sk_accepts := rest, sk_out := sk_out s @ take (nat r) bs\<rparr>,
              size_to_int (length (take (nat r) bs)))))"

section \<open>Reading and writing\<close>

definition session_read :: "sock \<Rightarrow> nat \<Rightarrow> session_error + sock \<times> int \<times> str" where
  "session_read s n = (if \<not> sk_connected s then Inr (s, -1, []) else sock_recv s n)"

definition session_write :: "sock \<Rightarrow> str \<Rightarrow> session_error + sock \<times> int" where
  "session_write s bs = (if \<not> sk_connected s then Inr (s, -1) else sock_send s bs)"

definition arrival_size :: "arrival \<Rightarrow> nat" where
  "arrival_size a = (case a of Got bs \<Rightarrow> Suc (length bs) | _ \<Rightarrow> 1)"

definition pending :: "sock \<Rightarrow> nat" where
  "pending s = sum_list (map arrival_size (sk_in s))"

lemma session_read_progress:
  assumes "session_read s n = Inr (s1, r, bs)"
  shows "if sk_connected s then sk_connected s1 \<and> (0 < n \<longrightarrow> pending s1 < pending s) else s1 = s \<and> r = -1 \<and> bs = []"
    and "0 < r \<Longrightarrow> 0 < n" and "length bs \<le> n"
proof -
  have drop: "length (drop n xs) < length xs" if "0 < n" "drop n xs \<noteq> []" for xs :: str using that by auto
  show "if sk_connected s then sk_connected s1 \<and> (0 < n \<longrightarrow> pending s1 < pending s) else s1 = s \<and> r = -1 \<and> bs = []"
    using assms by (auto simp: session_read_def sock_recv_def pending_def arrival_size_def
        split: list.splits arrival.splits if_splits)
  show "0 < r \<Longrightarrow> 0 < n" "length bs \<le> n"
    using assms by (auto simp: session_read_def sock_recv_def split: list.splits arrival.splits if_splits intro!: Nat.gr0I)
qed

text \<open>How many failures a \<open>size_t\<close> survives that grows with each.\<close>

definition room :: "nat \<Rightarrow> nat" where
  "room left = (if left = 0 then 0 else if left < 2 ^ 64 then 2 ^ 64 - left else 2 ^ 64 + left)"

lemma minus_one_size: "int_to_size (- 1) = 2 ^ 64 - 1"
  by (simp add: int_to_size_def)

lemma room_less: "left \<noteq> 0 \<Longrightarrow> room (usub left (2 ^ 64 - 1)) < room left"
  by (auto simp: room_def usub_def)

text \<open>
  The loop of \<open>readFixSize\<close> into the buffer \<open>buf\<close> from \<open>base\<close> on: the result of a read is taken as a
  \<open>size_t\<close>. Storing outside the buffer is an error of the model.
\<close>

function read_left :: "sock \<Rightarrow> str \<Rightarrow> nat \<Rightarrow> nat \<Rightarrow> nat \<Rightarrow> nat \<Rightarrow> session_error + sock \<times> str \<times> int" where
  "read_left s buf base offset left len =
     (if left = 0 then Inr (s, buf, size_to_int len)
      else (case session_read s left of Inl e \<Rightarrow> Inl e
        | Inr (s1, n, bs) \<Rightarrow>
          let r = int_to_size n; at = (base + offset) mod 2 ^ 64 in
          if bs \<noteq> [] \<and> length buf < at + length bs then Inl OutOfBuffer
          else let buf1 = (if bs = [] then buf else splice buf at bs) in
            if r \<le> 0 then Inr (s1, buf1, size_to_int r)
            else read_left s1 buf1 base ((offset + r) mod 2 ^ 64) (usub left r) len))"
  by pat_completeness auto

termination
proof (relation "measures [\<lambda>(s, buf, base, offset, left, len). pending s, \<lambda>(s, buf, base, offset, left, len). room left]",
    goal_cases)
  case (2 s buf base offset left len rs s1 p n bs r at buf1)
  then have read: "session_read s left = Inr (s1, n, bs)" and left: "left \<noteq> 0" "r = int_to_size n" by simp_all
  note progress = session_read_progress(1) [OF read]
  show ?case
  proof (cases "sk_connected s")
    case True
    then show ?thesis using progress left(1) by simp
  next
    case False
    then have "s1 = s" "r = 2 ^ 64 - 1" using progress left(2) minus_one_size by auto
    then show ?thesis using room_less [OF left(1)] by simp
  qed
qed simp

declare read_left.simps [simp del]

definition readFixSize :: "sock \<Rightarrow> str \<Rightarrow> nat \<Rightarrow> nat \<Rightarrow> session_error + sock \<times> str \<times> int" where
  "readFixSize s buf base len = read_left s buf base 0 len len"

text \<open>The loop of \<open>writeFixSize\<close>: what is sent starts at the offset in \<open>data\<close>.\<close>

lemma session_write_progress:
  assumes "session_write s bs = Inr (s1, r)"
  shows "if sk_connected s then sk_connected s1 \<and> length (sk_accepts s1) < length (sk_accepts s) else s1 = s \<and> r = -1"
  using assms by (auto simp: session_write_def sock_send_def split: list.splits if_splits)

function write_left :: "sock \<Rightarrow> str \<Rightarrow> nat \<Rightarrow> nat \<Rightarrow> nat \<Rightarrow> session_error + sock \<times> int" where
  "write_left s data offset left len =
     (if left = 0 then Inr (s, size_to_int len)
      else if length data < offset + left then Inl OutOfBuffer
      else (case session_write s (slice data offset left) of Inl e \<Rightarrow> Inl e
        | Inr (s1, n) \<Rightarrow>
          let r = int_to_size n in
          if r \<le> 0 then Inr (s1, size_to_int r)
          else write_left s1 data ((offset + r) mod 2 ^ 64) (usub left r) len))"
  by pat_completeness auto

termination
proof (relation "measures [\<lambda>(s, data, offset, left, len). length (sk_accepts s), \<lambda>(s, data, offset, left, len). room left]",
    goal_cases)
  case (2 s data offset left len rs s1 n r)
  then have w: "session_write s (slice data offset left) = Inr (s1, n)" and left: "left \<noteq> 0" "r = int_to_size n" by simp_all
  note progress = session_write_progress [OF w]
  show ?case
  proof (cases "sk_connected s")
    case True
    then show ?thesis using progress by simp
  next
    case False
    then have "s1 = s" "r = 2 ^ 64 - 1" using progress left(2) minus_one_size by auto
    then show ?thesis using room_less [OF left(1)] by simp
  qed
qed simp

declare write_left.simps [simp del]

definition writeFixSize :: "sock \<Rightarrow> str \<Rightarrow> session_error + sock \<times> int" where
  "writeFixSize s data = write_left s data 0 (length data) (length data)"

definition sendResponse :: "sock \<Rightarrow> HttpResponse \<Rightarrow> session_error + sock \<times> int" where
  "sendResponse s rsp = writeFixSize s (response_dump rsp)"

section \<open>Receiving a request\<close>

text \<open>
  The loop up to the end of the header: the parser with what is left in the buffer, \<open>None\<close> when the
  connection was closed. \<open>kept\<close> is what the last call of the parser left, \<open>offset\<close> its length.
\<close>

function recv_header :: "nat \<Rightarrow> sock \<Rightarrow> HttpRequestParser \<Rightarrow> str \<Rightarrow>
    session_error + sock \<times> (HttpRequestParser \<times> str) option" where
  "recv_header buff_size s q kept =
     (case session_read s (usub buff_size (length kept)) of Inl e \<Rightarrow> Inl e
      | Inr (s1, len, bs) \<Rightarrow>
        if len \<le> 0 then Inr (sock_close s1, None)
        else (case request_execute q (kept @ bs) of Inl e \<Rightarrow> Inl (BadParse e)
          | Inr (q1, data, nparse) \<Rightarrow>
            if request_hasError q1 then Inr (sock_close s1, None)
            else if int (length data) = size_to_int buff_size then Inr (sock_close s1, None)
            else if request_isFinished q1 \<noteq> 0 then Inr (s1, Some (q1, data))
            else recv_header buff_size s1 q1 data))"
  by pat_completeness auto

termination
proof (relation "measure (\<lambda>(b, s, q, kept). pending s)", goal_cases)
  case (2 buff_size s q kept rs s1 p len bs ex q1 p1 data nparse)
  then have "session_read s (usub buff_size (length kept)) = Inr (s1, len, bs)" and "0 < len" by simp_all
  then show ?case using session_read_progress(1,2) by (fastforce split: if_splits)
qed simp

declare recv_header.simps [simp del]

text \<open>\<open>cast\<close> is \<open>boost::lexical_cast<uint64_t>\<close>, \<open>m0\<close> the uninitialised memory of the parser.\<close>

definition keep_alive :: "HttpRequest \<Rightarrow> HttpRequest" where
  "keep_alive r = (if casecmp_eq (getHeader r (lit ''Connection'') []) (lit ''keep-alive'') then r\<lparr>rq_close := False\<rparr> else r)"

definition recv_body :: "sock \<Rightarrow> str \<Rightarrow> nat \<Rightarrow> session_error + sock \<times> str option" where
  "recv_body s data len =
     (let have' = take len data; body = have' @ replicate (len - length have') 0 in
      if length data < len then
        (case readFixSize s body (length have') (len - length data) of Inl e \<Rightarrow> Inl e
         | Inr (s1, body1, n) \<Rightarrow> if n \<le> 0 then Inr (sock_close s1, None) else Inr (s1, Some body1))
      else Inr (s, Some body))"

definition recvRequest :: "(str \<Rightarrow> nat option) \<Rightarrow> nat \<Rightarrow> http_parser \<Rightarrow> sock \<Rightarrow> session_error + sock \<times> HttpRequest option" where
  "recvRequest cast buff_size m0 s =
     (case recv_header buff_size s (HttpRequestParser_new m0) [] of Inl e \<Rightarrow> Inl e
      | Inr (s1, None) \<Rightarrow> Inr (s1, None)
      | Inr (s1, Some (q, data)) \<Rightarrow>
        let len = signed_take_bit 63 (int (request_getContentLength cast q)) in
        if 0 < len then
          (case recv_body s1 data (nat len) of Inl e \<Rightarrow> Inl e
           | Inr (s2, None) \<Rightarrow> Inr (s2, None)
           | Inr (s2, Some body) \<Rightarrow> Inr (s2, Some (keep_alive ((qp_data q)\<lparr>rq_body := body\<rparr>))))
        else Inr (s1, Some (keep_alive (qp_data q))))"

end
