(* ===== verification/HttpServer.thy ===== *)
theory HttpServer
  imports HttpSession
begin

text \<open>
  \<^verbatim>\<open>src/src/http/servlet.cc\<close> and \<^verbatim>\<open>src/src/http/http_server.cc\<close>: the dispatch of
  requests to servlets by path and the loop over the requests of a connection. \<open>fnm\<close> is \<open>fnmatch\<close> with
  flags 0 (whether it matches), \<open>user\<close> what a servlet or callback of the user does to the response. A servlet is
  also given the session; the model is of servlets that only fill in the response and leave the session alone.
\<close>

section \<open>Servlets\<close>

datatype 'u servlet = NotFoundServlet | UserServlet 'u

definition RSP_BODY :: "str" where
  "RSP_BODY = lit ''<html><head><title>404 Not Found</title></head><body><center><h1>404 Not Found</h1></center><hr><center>fkyzt/1.0</center></body></html>''"

definition NotFound_handle :: "HttpResponse \<Rightarrow> HttpResponse" where
  "NotFound_handle response =
     (let r1 = response\<lparr>rs_status := 404\<rparr>;
          r2 = rs_setHeader r1 (lit ''Server'') (lit ''co_lib/1.0.0'');
          r3 = rs_setHeader r2 (lit ''Content-Type'') (lit ''text/html'')
      in r3\<lparr>rs_body := RSP_BODY\<rparr>)"

definition servlet_handle :: "('u \<Rightarrow> HttpRequest \<Rightarrow> HttpResponse \<Rightarrow> HttpResponse) \<Rightarrow> 'u servlet \<Rightarrow> HttpRequest \<Rightarrow>
    HttpResponse \<Rightarrow> HttpResponse" where
  "servlet_handle user slt request response =
     (case slt of NotFoundServlet \<Rightarrow> NotFound_handle response | UserServlet u \<Rightarrow> user u request response)"

text \<open>A servlet pointer may be null.\<close>

record 'u dispatch =
  sd_datas :: "str \<Rightarrow> 'u servlet option option"
  sd_globs :: "(str \<times> 'u servlet option) list"
  sd_default :: "'u servlet option"

definition ServletDispatch_new :: "'u dispatch" where
  "ServletDispatch_new = \<lparr>sd_datas = Map.empty, sd_globs = [], sd_default = Some NotFoundServlet\<rparr>"

definition addServlet :: "'u dispatch \<Rightarrow> str \<Rightarrow> 'u servlet option \<Rightarrow> 'u dispatch" where
  "addServlet d uri slt = d\<lparr>sd_datas := (sd_datas d)(uri \<mapsto> slt)\<rparr>"

text \<open>The first entry of that name is erased.\<close>

fun erase_glob :: "str \<Rightarrow> (str \<times> 'u servlet option) list \<Rightarrow> (str \<times> 'u servlet option) list" where
  "erase_glob uri [] = []"
| "erase_glob uri ((k, v) # gs) = (if k = uri then gs else (k, v) # erase_glob uri gs)"

definition addGloServlet :: "'u dispatch \<Rightarrow> str \<Rightarrow> 'u servlet option \<Rightarrow> 'u dispatch" where
  "addGloServlet d uri slt = d\<lparr>sd_globs := erase_glob uri (sd_globs d) @ [(uri, slt)]\<rparr>"

definition delServlet :: "'u dispatch \<Rightarrow> str \<Rightarrow> 'u dispatch" where
  "delServlet d uri = d\<lparr>sd_datas := (sd_datas d)(uri := None)\<rparr>"

definition delGloServlet :: "'u dispatch \<Rightarrow> str \<Rightarrow> 'u dispatch" where
  "delGloServlet d uri = d\<lparr>sd_globs := erase_glob uri (sd_globs d)\<rparr>"

definition getServlet :: "'u dispatch \<Rightarrow> str \<Rightarrow> 'u servlet option" where
  "getServlet d uri = (case sd_datas d uri of None \<Rightarrow> None | Some slt \<Rightarrow> slt)"

definition getGloServlet :: "'u dispatch \<Rightarrow> str \<Rightarrow> 'u servlet option" where
  "getGloServlet d uri = (case map_of (sd_globs d) uri of None \<Rightarrow> None | Some slt \<Rightarrow> slt)"

definition getMatchedServlet :: "(str \<Rightarrow> str \<Rightarrow> bool) \<Rightarrow> 'u dispatch \<Rightarrow> str \<Rightarrow> 'u servlet option" where
  "getMatchedServlet fnm d uri =
     (case sd_datas d uri of Some slt \<Rightarrow> slt
      | None \<Rightarrow> (case find (\<lambda>(k, v). fnm (cstr k) (cstr uri)) (sd_globs d) of
          Some (k, slt) \<Rightarrow> slt | None \<Rightarrow> sd_default d))"

definition dispatch_handle :: "('u \<Rightarrow> HttpRequest \<Rightarrow> HttpResponse \<Rightarrow> HttpResponse) \<Rightarrow> (str \<Rightarrow> str \<Rightarrow> bool) \<Rightarrow>
    'u dispatch \<Rightarrow> HttpRequest \<Rightarrow> HttpResponse \<Rightarrow> HttpResponse" where
  "dispatch_handle user fnm d request response =
     (case getMatchedServlet fnm d (rq_path request) of None \<Rightarrow> response
      | Some slt \<Rightarrow> servlet_handle user slt request response)"

section \<open>Connections\<close>

record 'u http_server =
  hs_name :: str
  hs_keepalive :: bool
  hs_dispatch :: "'u dispatch"

text \<open>\<open>TcpServer\<close> gives the name.\<close>

definition HttpServer_new :: "bool \<Rightarrow> 'u http_server" where
  "HttpServer_new keepalive = \<lparr>hs_name = lit ''co_lib/1.0.0'', hs_keepalive = keepalive, hs_dispatch = ServletDispatch_new\<rparr>"

text \<open>The response to a request.\<close>

definition answer :: "('u \<Rightarrow> HttpRequest \<Rightarrow> HttpResponse \<Rightarrow> HttpResponse) \<Rightarrow> (str \<Rightarrow> str \<Rightarrow> bool) \<Rightarrow>
    'u http_server \<Rightarrow> HttpRequest \<Rightarrow> HttpResponse" where
  "answer user fnm srv req =
     dispatch_handle user fnm (hs_dispatch srv) req
       (rs_setHeader (HttpResponse_new (rq_version req) (rq_close req \<or> \<not> hs_keepalive srv)) (lit ''Server'') (hs_name srv))"

lemma recv_header_progress: "recv_header buff_size s q kept = Inr (s1, Some x) \<Longrightarrow> pending s1 < pending s \<and> sk_connected s1"
proof (induction buff_size s q kept rule: recv_header.induct)
  case (1 buff_size s q kept)
  note IH = 1(1) and eq = 1(2)
  obtain s2 len bs where r: "session_read s (usub buff_size (length kept)) = Inr (s2, len, bs)" "0 < len"
    using eq by (subst (asm) recv_header.simps) (auto split: sum.splits if_splits)
  then have p: "pending s2 < pending s" "sk_connected s2"
    using session_read_progress(1,2) [OF r(1)] r(2) by (auto split: if_splits)
  obtain q1 data n where e: "request_execute q (kept @ bs) = Inr (q1, data, n)"
    and d: "Inr (s1, Some x) = (if request_isFinished q1 \<noteq> 0 then Inr (s2, Some (q1, data)) else recv_header buff_size s2 q1 data)"
      "\<not> request_hasError q1" "int (length data) \<noteq> size_to_int buff_size"
    using eq r by (subst (asm) recv_header.simps) (auto split: sum.splits if_splits)
  show ?case
  proof (cases "request_isFinished q1 \<noteq> 0")
    case True
    then show ?thesis using d(1) p by simp
  next
    case False
    then have "pending s1 < pending s2 \<and> sk_connected s1"
      using IH [OF r(1) refl refl] r(2) e d by simp
    then show ?thesis using p by simp
  qed
qed

lemma read_left_progress: "read_left s buf base offset left len = Inr (s1, buf1, n) \<Longrightarrow>
    pending s1 \<le> pending s \<and> (sk_connected s1 \<longleftrightarrow> sk_connected s)"
proof (induction s buf base offset left len rule: read_left.induct)
  case (1 s buf base offset left len)
  note IH = 1(1) and eq = 1(2)
  show ?case
  proof (cases "left = 0")
    case False
    obtain s2 m bs where r: "session_read s left = Inr (s2, m, bs)"
      using eq False by (subst (asm) read_left.simps) (auto split: sum.splits)
    have p: "pending s2 \<le> pending s \<and> (sk_connected s2 \<longleftrightarrow> sk_connected s)"
      using session_read_progress(1) [OF r] False by (auto split: if_splits)
    show ?thesis using IH [OF False r refl refl refl refl _ refl] eq r False p
      by (subst (asm) read_left.simps) (auto simp: Let_def split: if_splits)
  qed (use eq in \<open>simp add: read_left.simps\<close>)
qed

lemma recv_body_progress:
  assumes "recv_body s data len = Inr (s1, Some body)"
  shows "pending s1 \<le> pending s"
proof (cases "length data < len")
  case True
  let ?buf = "take len data @ replicate (len - length (take len data)) 0"
  show ?thesis
  proof (cases "readFixSize s ?buf (length (take len data)) (len - length data)")
    case (Inr x)
    obtain s2 b n where x: "x = (s2, b, n)" by (metis prod_cases3)
    then have "s2 = s1" using assms True Inr by (simp add: recv_body_def Let_def split: if_splits)
    then show ?thesis using Inr x read_left_progress by (auto simp: readFixSize_def)
  qed (use assms True in \<open>simp add: recv_body_def Let_def\<close>)
qed (use assms in \<open>simp add: recv_body_def Let_def\<close>)

lemma recvRequest_progress:
  assumes "recvRequest cast buff_size m0 s = Inr (s1, Some req)"
  shows "pending s1 < pending s"
proof -
  have "\<exists>s2 q data. recv_header buff_size s (HttpRequestParser_new m0) [] = Inr (s2, Some (q, data)) \<and>
      (s1 = s2 \<or> (\<exists>len body. recv_body s2 data len = Inr (s1, Some body)))"
    using assms by (auto simp: recvRequest_def Let_def split: sum.splits option.splits if_splits)
  then obtain s2 q data where h: "recv_header buff_size s (HttpRequestParser_new m0) [] = Inr (s2, Some (q, data))"
    and e: "s1 = s2 \<or> (\<exists>len body. recv_body s2 data len = Inr (s1, Some body))" by blast
  have "pending s1 \<le> pending s2"
    using e recv_body_progress by blast
  then show ?thesis using recv_header_progress [OF h] by simp
qed

lemma write_left_in: "write_left s data offset left len = Inr (s1, n) \<Longrightarrow> sk_in s1 = sk_in s"
proof (induction s data offset left len rule: write_left.induct)
  case (1 s data offset left len)
  note IH = 1(1) and eq = 1(2)
  show ?case
  proof (cases "left = 0")
    case False
    obtain s2 m where w: "session_write s (slice data offset left) = Inr (s2, m)" "offset + left \<le> length data"
      using eq False by (subst (asm) write_left.simps) (auto split: sum.splits if_splits)
    have "sk_in s2 = sk_in s"
      using w(1) by (auto simp: session_write_def sock_send_def split: list.splits if_splits)
    then show ?thesis using IH [OF False _ w(1) refl refl] eq w False
      by (subst (asm) write_left.simps) (auto simp: Let_def split: if_splits)
  qed (use eq in \<open>simp add: write_left.simps\<close>)
qed

text \<open>\<open>handleClient\<close>: the result of sending is not looked at.\<close>

function handleClient :: "('u \<Rightarrow> HttpRequest \<Rightarrow> HttpResponse \<Rightarrow> HttpResponse) \<Rightarrow> (str \<Rightarrow> str \<Rightarrow> bool) \<Rightarrow> (str \<Rightarrow> nat option) \<Rightarrow>
    nat \<Rightarrow> http_parser \<Rightarrow> 'u http_server \<Rightarrow> sock \<Rightarrow> session_error + sock" where
  "handleClient user fnm cast buff_size m0 srv s =
     (case recvRequest cast buff_size m0 s of Inl e \<Rightarrow> Inl e
      | Inr (s1, None) \<Rightarrow> Inr (sock_close s1)
      | Inr (s1, Some req) \<Rightarrow>
        (case sendResponse s1 (answer user fnm srv req) of Inl e \<Rightarrow> Inl e
         | Inr (s2, n) \<Rightarrow>
           if \<not> hs_keepalive srv \<or> rq_close req then Inr (sock_close s2)
           else handleClient user fnm cast buff_size m0 srv s2))"
  by pat_completeness auto

termination
proof (relation "measure (\<lambda>(user, fnm, cast, buff_size, m0, srv, s). pending s)", goal_cases)
  case (2 user fnm cast buff_size m0 srv s p s1 o' req p2 s2 n)
  then have "recvRequest cast buff_size m0 s = Inr (s1, Some req)" and "sendResponse s1 (answer user fnm srv req) = Inr (s2, n)"
    by simp_all
  then have "pending s1 < pending s" "sk_in s2 = sk_in s1"
    using recvRequest_progress write_left_in by (auto simp: sendResponse_def writeFixSize_def)
  then show ?case by (simp add: pending_def)
qed simp

declare handleClient.simps [simp del]

end
