(* ===== verification/HttpParser_Run.thy ===== *)
theory HttpParser_Run
  imports HttpParser Http11_Spec
begin

text \<open>
  How the request parser reads the pieces of a plain request: the state machine run on the method, the
  path, the query, the fragment, the version and the header lines, each from any position of the buffer,
  with the effect that the callbacks have on the request.
\<close>

section \<open>The blocks that a plain request passes\<close>

lemma h11_blocks:
  "find_state h11 1 = Some (False, [(48, 57, Tr 0), (60, 60, Tr 2), (64, 64, Tr 3), (65, 90, Tr 0)])"
  "find_state h11 2 = Some (False, [(32, 32, Tr 4), (48, 57, St 175), (65, 90, St 175)])"
  "find_state h11 3 = Some (True, [(32, 32, Tr 6), (33, 33, Tr 7), (35, 35, Tr 8), (36, 36, Tr 7),
     (37, 37, Tr 9), (38, 46, Tr 7), (47, 47, Tr 10), (48, 57, Tr 7), (59, 59, Tr 7), (61, 61, Tr 7),
     (63, 63, Tr 11), (64, 64, Tr 7), (65, 90, Tr 12), (95, 95, Tr 7), (97, 122, Tr 12), (126, 126, Tr 7),
     (606, 606, Tr 7), (635, 635, Tr 7), (637, 637, Tr 7)])"
  "find_state h11 33 = Some (True, [((- 128), (- 1), St 26), (32, 32, Tr 37), (33, 33, St 26),
     (35, 35, Tr 39), (36, 36, St 26), (37, 37, St 27), (38, 46, St 26), (47, 47, St 34), (48, 59, St 26),
     (61, 61, St 26), (63, 63, Tr 42), (64, 90, St 26), (95, 95, St 26), (97, 122, St 26), (126, 126, St 26),
     (606, 606, St 26), (635, 635, St 26), (637, 637, St 26)])"
  "find_state h11 26 = Some (True, [((- 128), (- 1), St 26), (32, 32, Tr 37), (33, 33, St 26),
     (35, 35, Tr 39), (36, 36, St 26), (37, 37, St 27), (38, 59, St 26), (61, 61, St 26), (63, 63, Tr 42),
     (64, 90, St 26), (95, 95, St 26), (97, 122, St 26), (126, 126, St 26), (606, 606, St 26),
     (635, 635, St 26), (637, 637, St 26)])"
  "find_state h11 29 = Some (True, [((- 128), (- 1), Tr 53), (32, 32, Tr 54), (33, 33, Tr 53),
     (35, 35, Tr 55), (36, 36, Tr 53), (37, 37, Tr 56), (38, 59, Tr 53), (61, 61, Tr 53), (63, 90, Tr 53),
     (95, 95, Tr 53), (97, 122, Tr 53), (126, 126, Tr 53), (606, 606, Tr 53), (635, 635, Tr 53),
     (637, 637, Tr 53)])"
  "find_state h11 30 = Some (True, [((- 128), (- 1), St 30), (32, 32, Tr 58), (33, 33, St 30),
     (35, 35, Tr 59), (36, 36, St 30), (37, 37, St 31), (38, 59, St 30), (61, 61, St 30), (63, 90, St 30),
     (95, 95, St 30), (97, 122, St 30), (126, 126, St 30), (606, 606, St 30), (635, 635, St 30),
     (637, 637, St 30)])"
  "find_state h11 20 = Some (True, [((- 128), (- 1), Tr 43), (32, 32, Tr 44), (33, 33, Tr 43),
     (36, 36, Tr 43), (37, 37, Tr 45), (38, 59, Tr 43), (61, 61, Tr 43), (63, 90, Tr 43), (95, 95, Tr 43),
     (97, 122, Tr 43), (126, 126, Tr 43), (606, 606, Tr 43), (635, 635, Tr 43), (637, 637, Tr 43)])"
  "find_state h11 21 = Some (True, [((- 128), (- 1), St 21), (32, 32, Tr 47), (33, 33, St 21),
     (36, 36, St 21), (37, 37, St 22), (38, 59, St 21), (61, 61, St 21), (63, 90, St 21), (95, 95, St 21),
     (97, 122, St 21), (126, 126, St 21), (606, 606, St 21), (635, 635, St 21), (637, 637, St 21)])"
  "find_state h11 4 = Some (False, [(72, 72, Tr 13)])"
  "find_state h11 12 = Some (False, [(10, 10, Tr 21), (13, 13, Tr 22)])"
  "find_state h11 13 = Some (False, [(1, 8, Tr 23), (10, 10, Tr 24), (11, 12, Tr 23), (13, 13, Tr 25),
     (14, 31, Tr 23), (33, 33, Tr 23), (35, 39, Tr 23), (42, 43, Tr 23), (45, 46, Tr 23), (48, 57, Tr 23),
     (65, 90, Tr 23), (94, 122, Tr 23), (124, 124, Tr 23), (126, 126, Tr 23)])"
  "find_state h11 14 = Some (False, [(1, 8, St 14), (10, 31, St 14), (33, 33, St 14), (35, 39, St 14),
     (42, 43, St 14), (45, 46, St 14), (48, 57, St 14), (58, 58, Tr 27), (65, 90, St 14), (94, 122, St 14),
     (124, 124, St 14), (126, 126, St 14)])"
  "find_state h11 15 = Some (False, [((- 128), (- 1), Tr 28), (1, 8, Tr 28), (9, 9, Tr 29),
     (10, 10, Tr 30), (11, 12, Tr 28), (13, 13, Tr 31), (14, 31, Tr 28), (32, 32, Tr 29), (33, 126, Tr 28)])"
  "find_state h11 16 = Some (False, [((- 128), (- 1), St 16), (1, 9, St 16), (10, 10, Tr 33),
     (11, 12, St 16), (13, 13, Tr 34), (14, 126, St 16)])"
  "find_state h11 17 = Some (False, [(10, 10, St 13)])"
  "find_state h11 18 = Some (False, [(1, 8, St 14), (10, 10, Tr 36), (11, 31, St 14), (33, 33, St 14),
     (35, 39, St 14), (42, 43, St 14), (45, 46, St 14), (48, 57, St 14), (58, 58, Tr 27), (65, 90, St 14),
     (94, 122, St 14), (124, 124, St 14), (126, 126, St 14)])"
  by code_simp+

lemma h11_method_blocks:
  "list_all (\<lambda>n. find_state h11 n = Some (False, [(32, 32, Tr 4), (48, 57, St (n + 1)), (65, 90, St (n + 1))]))
     [175, 176, 177, 178, 179, 180, 181, 182, 183, 184]"
  by code_simp

lemma h11_target: "target h11 (St n) = Some ([], n)" "target h11 (Tr m) = find_in h11_trs m"
  by (simp_all add: target_def find_tr_all h11_all_trs)

lemma h11_word: "list_all (\<lambda>r. list_all (\<lambda>(n, c, m). move h11 r n c = Move [] m)
    [(5, 84, 6), (6, 84, 7), (7, 80, 8), (8, 47, 9), (9, 49, 10), (10, 46, 11), (11, 48, 12), (11, 49, 12)]) [False, True]"
  by code_simp

section \<open>Runs\<close>

text \<open>
  From state \<open>cs\<close> at \<open>p\<close> the text \<open>tok\<close> is read, with the parser record going from \<open>s\<close> to \<open>s'\<close> and the
  events \<open>E\<close>, whatever follows.
\<close>

definition run :: "nat \<Rightarrow> http_parser \<Rightarrow> int \<Rightarrow> nat \<Rightarrow> str \<Rightarrow> http_parser \<Rightarrow> event list \<Rightarrow> int \<Rightarrow> bool" where
  "run pe s cs p tok s' E cs' \<longleftrightarrow> (\<forall>ys. h11_loop pe s cs p (map sint (tok @ ys)) =
     (case h11_loop pe s' cs' (p + length tok) (map sint ys) of (a, e, c, n) \<Rightarrow> (a, E @ e, c, n)))"

lemma run_Nil: "run pe s cs p [] s [] cs"
  by (simp add: run_def split: prod.split)

lemma run_one: "move h11 (h_uri_relaxed s \<noteq> 0) cs (sint c) = Move as t \<Longrightarrow> h11_acts pe p as s = (s', E, None) \<Longrightarrow>
    run pe s cs p [c] s' E t"
  by (simp add: run_def split: prod.split)

lemma run_append: "run pe s cs p a s1 E1 c1 \<Longrightarrow> run pe s1 c1 (p + length a) b s2 E2 c2 \<Longrightarrow>
    run pe s cs p (a @ b) s2 (E1 @ E2) c2"
  unfolding run_def
proof (intro allI)
  fix ys
  assume 1: "\<forall>ys. h11_loop pe s cs p (map sint (a @ ys)) =
      (case h11_loop pe s1 c1 (p + length a) (map sint ys) of (x, e, c, n) \<Rightarrow> (x, E1 @ e, c, n))"
    and 2: "\<forall>ys. h11_loop pe s1 c1 (p + length a) (map sint (b @ ys)) =
      (case h11_loop pe s2 c2 (p + length a + length b) (map sint ys) of (x, e, c, n) \<Rightarrow> (x, E2 @ e, c, n))"
  show "h11_loop pe s cs p (map sint ((a @ b) @ ys)) =
      (case h11_loop pe s2 c2 (p + length (a @ b)) (map sint ys) of (x, e, c, n) \<Rightarrow> (x, (E1 @ E2) @ e, c, n))"
    using 1 [THEN spec, of "b @ ys"] 2 [THEN spec, of ys]
    by (simp add: add.assoc del: map_append split: prod.split)
qed

lemma run_Cons: "move h11 (h_uri_relaxed s \<noteq> 0) cs (sint c) = Move as t \<Longrightarrow> h11_acts pe p as s = (s1, E1, None) \<Longrightarrow>
    run pe s1 t (Suc p) b s2 E2 c2 \<Longrightarrow> run pe s cs p (c # b) s2 (E1 @ E2) c2"
  using run_append [of pe s cs p "[c]" s1 E1 t b s2 E2 c2] run_one by simp

lemma run_stay: "\<forall>c\<in>set tok. move h11 (h_uri_relaxed s \<noteq> 0) cs (sint c) = Move [] cs \<Longrightarrow> run pe s cs p tok s [] cs"
proof (induction tok arbitrary: p)
  case (Cons c tok)
  then show ?case using run_Cons [of s cs c "[]" cs pe p s "[]" tok s "[]" cs] by simp
qed (simp add: run_Nil)

text \<open>
  A stage: besides the state the callbacks take the request parser from \<open>q\<close> to \<open>q'\<close>, for every parser record
  that has seen neither XML nor JSON.
\<close>

definition plain :: "http_parser \<Rightarrow> bool" where
  "plain s \<longleftrightarrow> h_xml_sent s = 0 \<and> h_json_sent s = 0"

definition stage :: "str \<Rightarrow> int \<Rightarrow> nat \<Rightarrow> str \<Rightarrow> HttpRequestParser \<Rightarrow> int \<Rightarrow> HttpRequestParser \<Rightarrow> bool" where
  "stage data cs p tok q cs' q' \<longleftrightarrow> (\<forall>s. plain s \<longrightarrow> (\<exists>s' E. plain s' \<and>
     run (length data) s cs p tok s' E cs' \<and> on_requests data E q = Inr q'))"

lemma on_requests_append: "on_requests data (E1 @ E2) q =
    (case on_requests data E1 q of Inl e \<Rightarrow> Inl e | Inr q1 \<Rightarrow> on_requests data E2 q1)"
  by (induction E1 arbitrary: q) (auto split: sum.splits)

lemma stage_append:
  assumes "stage data cs p a q c1 q1" and "stage data c1 (p + length a) b q1 c2 q2"
  shows "stage data cs p (a @ b) q c2 q2"
  unfolding stage_def
proof (intro allI impI)
  fix s assume "plain s"
  then obtain s1 E1 where 1: "plain s1" "run (length data) s cs p a s1 E1 c1" "on_requests data E1 q = Inr q1"
    using assms(1) unfolding stage_def by blast
  then obtain s2 E2 where 2: "plain s2" "run (length data) s1 c1 (p + length a) b s2 E2 c2" "on_requests data E2 q1 = Inr q2"
    using assms(2) unfolding stage_def by blast
  show "\<exists>s' E. plain s' \<and> run (length data) s cs p (a @ b) s' E c2 \<and> on_requests data E q = Inr q2"
  proof (intro exI conjI)
    show "run (length data) s cs p (a @ b) s2 (E1 @ E2) c2" by (rule run_append [OF 1(2) 2(2)])
  qed (use 1(3) 2(1,3) in \<open>simp_all add: on_requests_append\<close>)
qed

lemma stageI:
  assumes "\<And>s. plain s \<Longrightarrow> plain (f s) \<and> run (length data) s cs p tok (f s) (E s) cs' \<and> on_requests data (E s) q = Inr q'"
  shows "stage data cs p tok q cs' q'"
  using assms unfolding stage_def by blast

lemma string_mid: "data = pre @ tok @ rest \<Longrightarrow> string_at data (length pre) (length tok) = Inr tok"
  by (simp add: string_at_def slice_def)

section \<open>Characters\<close>

definition method_char :: "(int \<times> int) list" where
  "method_char = [(48, 57), (65, 90)]"

definition url_char :: "(int \<times> int) list" where
  "url_char = [(- 128, - 1), (33, 33), (36, 36), (38, 46), (48, 59), (61, 61), (64, 90), (95, 95), (97, 122), (126, 126)]"

definition name_char :: "(int \<times> int) list" where
  "name_char = [(33, 33), (35, 39), (42, 43), (45, 46), (48, 57), (65, 90), (94, 122), (124, 124), (126, 126)]"

definition value_first :: "(int \<times> int) list" where
  "value_first = [(- 128, - 1), (33, 126)]"

definition value_char :: "(int \<times> int) list" where
  "value_char = [(- 128, - 1), (9, 9), (14, 126)]"

lemmas class_defs = method_char_def url_char_def name_char_def value_first_def value_char_def

definition chars_in :: "(int \<times> int) list \<Rightarrow> str \<Rightarrow> bool" where
  "chars_in R s \<longleftrightarrow> list_all (\<lambda>c. in_ranges R (sint c)) s"

lemma chars_inD: "chars_in R s \<Longrightarrow> c \<in> set s \<Longrightarrow> in_ranges R (sint c)"
  by (simp add: chars_in_def list_all_iff)

lemma chars_in_simps [simp]: "chars_in R []" "chars_in R (c # s) \<longleftrightarrow> in_ranges R (sint c) \<and> chars_in R s"
  "chars_in R (s @ t) \<longleftrightarrow> chars_in R s \<and> chars_in R t"
  by (simp_all add: chars_in_def)

lemmas h11_eval = class_to_def class_defs h11_target h11_trs_def

lemma url_not_wide: "in_ranges url_char c \<Longrightarrow> c \<noteq> 94 \<and> c \<noteq> 123 \<and> c \<noteq> 125"
  by (auto simp: in_ranges_def url_char_def)

lemma method_first: "in_ranges method_char c \<Longrightarrow> move h11 r 1 c = Move [Mark] 2"
  by (rule class_move [OF h11_blocks(1)]) (simp_all add: h11_eval)

lemma path_first: "move h11 r 3 47 = Move [Mark] 33"
  by (simp add: move_def h11_blocks h11_target h11_trs_def widec_def)

lemma path_second: "in_ranges url_char c \<Longrightarrow> move h11 r 33 c = Move [] 26"
  by (rule class_move [OF h11_blocks(4)]) (simp_all add: h11_eval url_not_wide)

lemma path_more: "in_ranges url_char c \<or> c = 47 \<Longrightarrow> move h11 r 26 c = Move [] 26"
  by (rule class_move [OF h11_blocks(5), of "(47, 47) # url_char"])
    (auto simp: h11_eval dest: url_not_wide simp: in_ranges_def)

lemma path_ends:
  "move h11 r 33 32 = Move [RequestPath, RequestUri] 4" "move h11 r 26 32 = Move [RequestPath, RequestUri] 4"
  "move h11 r 33 35 = Move [RequestPath, RequestUri] 20" "move h11 r 26 35 = Move [RequestPath, RequestUri] 20"
  "move h11 r 33 63 = Move [RequestPath] 29" "move h11 r 26 63 = Move [RequestPath] 29"
  by (simp_all add: move_def h11_blocks h11_target h11_trs_def widec_def)

lemma url_ranges: "in_ranges url_char c \<or> c = 47 \<or> c = 63 \<longleftrightarrow> in_ranges ((47, 47) # (63, 63) # url_char) c"
  by (auto simp: in_ranges_def)

lemma query_moves':
  assumes "in_ranges ((47, 47) # (63, 63) # url_char) c"
  shows "move h11 r 29 c = Move [StartQuery] 30" "move h11 r 30 c = Move [] 30"
    "move h11 r 20 c = Move [Mark] 21" "move h11 r 21 c = Move [] 21"
proof -
  have w: "c \<noteq> 94 \<and> c \<noteq> 123 \<and> c \<noteq> 125" using assms by (auto simp: in_ranges_def url_char_def)
  show "move h11 r 29 c = Move [StartQuery] 30"
    by (rule class_move [OF h11_blocks(6) _ assms]) (use w in \<open>simp_all add: h11_eval\<close>)
  show "move h11 r 30 c = Move [] 30"
    by (rule class_move [OF h11_blocks(7) _ assms]) (use w in \<open>simp_all add: h11_eval\<close>)
  show "move h11 r 20 c = Move [Mark] 21"
    by (rule class_move [OF h11_blocks(8) _ assms]) (use w in \<open>simp_all add: h11_eval\<close>)
  show "move h11 r 21 c = Move [] 21"
    by (rule class_move [OF h11_blocks(9) _ assms]) (use w in \<open>simp_all add: h11_eval\<close>)
qed

lemma query_ends:
  "move h11 r 30 32 = Move [QueryString, RequestUri] 4" "move h11 r 30 35 = Move [QueryString, RequestUri] 20"
  "move h11 r 21 32 = Move [Fragment] 4"
  by (simp_all add: move_def h11_blocks h11_target h11_trs_def widec_def)

lemma version_moves:
  "move h11 r 4 72 = Move [Mark] 5" "move h11 r 5 84 = Move [] 6" "move h11 r 6 84 = Move [] 7"
  "move h11 r 7 80 = Move [] 8" "move h11 r 8 47 = Move [] 9" "move h11 r 9 49 = Move [] 10"
  "move h11 r 10 46 = Move [] 11" "move h11 r 11 48 = Move [] 12" "move h11 r 11 49 = Move [] 12"
  "move h11 r 12 13 = Move [HttpVersion] 17" "move h11 r 17 10 = Move [] 13"
  using h11_word by (cases r; simp add: move_def h11_blocks h11_target h11_trs_def widec_def)+

lemma name_first: "in_ranges name_char c \<Longrightarrow> move h11 r 13 c = Move [StartField] 14"
  by (rule class_move [OF h11_blocks(12)]) (simp_all add: h11_eval)

lemma name_more: "in_ranges name_char c \<Longrightarrow> move h11 r 14 c = Move [] 14"
  by (rule class_move [OF h11_blocks(13)]) (simp_all add: h11_eval)

lemma value_begin: "in_ranges value_first c \<Longrightarrow> move h11 r 15 c = Move [StartValue] 16"
  by (rule class_move [OF h11_blocks(14)]) (simp_all add: h11_eval)

lemma value_more: "in_ranges value_char c \<Longrightarrow> move h11 r 16 c = Move [] 16"
  by (rule class_move [OF h11_blocks(15)]) (simp_all add: h11_eval)

lemma field_separators:
  "move h11 r 14 58 = Move [WriteField] 15" "move h11 r 15 32 = Move [StartValue] 15"
  "move h11 r 15 13 = Move [StartValue, WriteValue] 17" "move h11 r 16 13 = Move [WriteValue] 17"
  "move h11 r 13 13 = Move [StartField] 18" "move h11 r 18 10 = Move [Done 348] 348"
  by (simp_all add: move_def h11_blocks h11_target h11_trs_def)

section \<open>Stages\<close>

text \<open>The method.\<close>

definition mstate :: "nat \<Rightarrow> int" where
  "mstate k = (if k = 0 then 2 else 174 + int k)"

lemma method_step:
  assumes "k \<le> 10"
  shows "in_ranges method_char c \<Longrightarrow> move h11 r (mstate k) c = Move [] (mstate (Suc k))"
    and "move h11 r (mstate k) 32 = Move [RequestMethod] 3"
proof -
  have f: "find_state h11 (mstate k) = Some (False, [(32, 32, Tr 4), (48, 57, St (mstate (Suc k))), (65, 90, St (mstate (Suc k)))])"
  proof (cases "k = 0")
    case False
    then have "k = 1 \<or> k = 2 \<or> k = 3 \<or> k = 4 \<or> k = 5 \<or> k = 6 \<or> k = 7 \<or> k = 8 \<or> k = 9 \<or> k = 10"
      using assms by presburger
    then show ?thesis using h11_method_blocks by (elim disjE) (simp_all add: mstate_def)
  qed (simp add: mstate_def h11_blocks)
  show "in_ranges method_char c \<Longrightarrow> move h11 r (mstate k) c = Move [] (mstate (Suc k))"
    by (rule class_move [OF f]) (simp_all add: h11_eval)
  show "move h11 r (mstate k) 32 = Move [RequestMethod] 3"
    by (simp add: move_def f h11_target h11_trs_def)
qed

lemma method_run:
  "chars_in method_char cs \<Longrightarrow> k + length cs \<le> 10 \<Longrightarrow>
    run pe s (mstate k) p (cs @ [32]) s [Element Method (h_mark s) (LEN (h_mark s) (p + length cs))] 3"
proof (induction cs arbitrary: k p)
  case Nil
  then show ?case using run_one [of s "mstate k" 32 "[RequestMethod]" 3 pe p] method_step(2) by simp
next
  case (Cons c cs)
  have "run pe s (mstate (Suc k)) (Suc p) (cs @ [32]) s [Element Method (h_mark s) (LEN (h_mark s) (Suc p + length cs))] 3"
    by (rule Cons.IH) (use Cons.prems in auto)
  then have "run pe s (mstate k) p (c # cs @ [32]) s
      ([] @ [Element Method (h_mark s) (LEN (h_mark s) (Suc p + length cs))]) 3"
    by (intro run_Cons [where as = "[]"]) (use method_step(1) [of k "sint c"] Cons.prems in auto)
  then show ?case by simp
qed

lemma method_prefix_free:
  "list_all (\<lambda>(m, s). s \<noteq> [] \<and> 0 \<notin> set s \<and> 32 \<notin> set s \<and> find (\<lambda>(n, t). take (length t) s = t) http_method_map = Some (m, s))
     http_method_map"
  by (simp add: http_method_map_def lit_def)

lemma cstr_no_zero: "0 \<notin> set s \<Longrightarrow> cstr (s @ t) = s @ cstr t"
  by (induction s) (auto simp: cstr_def)

lemma cstr_id: "0 \<notin> set s \<Longrightarrow> cstr s = s"
  using cstr_no_zero [of s "[]"] by (simp add: cstr_def)

lemma strncmp_prefix:
  assumes "0 \<notin> set s" and "0 \<notin> set t" and "32 \<notin> set t"
  shows "strncmp_eq t (s @ 32 # rest) (length t) \<longleftrightarrow> take (length t) s = t"
proof -
  have c: "cstr (s @ 32 # rest) = s @ 32 # cstr rest" using cstr_no_zero [OF assms(1)] by (simp add: cstr_def)
  show ?thesis
  proof (cases "length t \<le> length s")
    case True
    then show ?thesis by (auto simp: strncmp_eq_def c cstr_id [OF assms(2)])
  next
    case False
    then obtain k where k: "length t - length s = Suc k" by (cases "length t - length s") auto
    have "take (length t) (s @ 32 # cstr rest @ [0]) = s @ 32 # take k (cstr rest @ [0])" using False k by simp
    then have "take (length t) (s @ 32 # cstr rest @ [0]) \<noteq> t" using assms(3) by (metis in_set_conv_decomp)
    moreover have "take (length t) s \<noteq> t" using False by auto
    ultimately show ?thesis by (simp add: strncmp_eq_def c cstr_id [OF assms(2)])
  qed
qed

lemma method_known: "m \<noteq> INVALID_METHOD \<Longrightarrow> (m, HttpMethodToString m) \<in> set http_method_map"
proof -
  assume "m \<noteq> INVALID_METHOD"
  then have "m \<in> fst ` set http_method_map" by (cases m) (simp_all add: http_method_map_def)
  then obtain s where "map_of http_method_map m = Some s" by (metis domD dom_map_of_conv_image_fst)
  then show ?thesis using map_of_SomeD by (fastforce simp: HttpMethodToString_def)
qed

lemma chars_of_method:
  assumes "m \<noteq> INVALID_METHOD"
  shows "CharsToHttpMethod (HttpMethodToString m @ 32 # rest) = m"
proof -
  let ?s = "HttpMethodToString m"
  note mem = method_known [OF assms]
  have ok: "0 \<notin> set t" "32 \<notin> set t" if "(n, t) \<in> set http_method_map" for n t
    using method_prefix_free that by (auto simp: list_all_iff)
  have "find (\<lambda>(n, t). strncmp_eq t (?s @ 32 # rest) (length t)) http_method_map =
      find (\<lambda>(n, t). take (length t) ?s = t) http_method_map"
    by (rule find_cong) (use ok strncmp_prefix ok(1) [OF mem] in auto)
  also have "\<dots> = Some (m, ?s)" using method_prefix_free mem by (auto simp: list_all_iff)
  finally show ?thesis by (simp add: CharsToHttpMethod_def)
qed

lemma method_strings:
  "list_all (\<lambda>(m, s). m \<noteq> MSEARCH \<longrightarrow> chars_in method_char s \<and> s \<noteq> [] \<and> length s \<le> 11) http_method_map"
  by (simp add: http_method_map_def lit_def in_ranges_def method_char_def)

lemma method_string:
  assumes "m \<noteq> INVALID_METHOD" and "m \<noteq> MSEARCH"
  shows "chars_in method_char (HttpMethodToString m)" "HttpMethodToString m \<noteq> []" "length (HttpMethodToString m) \<le> 11"
  using method_strings method_known [OF assms(1)] assms(2) by (auto simp: list_all_iff)

lemma stage_method:
  assumes "m \<noteq> INVALID_METHOD" and "m \<noteq> MSEARCH" and d: "data = HttpMethodToString m @ 32 # rest"
  shows "stage data 1 0 (HttpMethodToString m @ [32]) q 3 (q\<lparr>qp_data := (qp_data q)\<lparr>rq_method := m\<rparr>\<rparr>)"
proof -
  obtain c cs where m: "HttpMethodToString m = c # cs" using method_string(2) [OF assms(1,2)] by (cases "HttpMethodToString m") auto
  have c: "in_ranges method_char (sint c)" "chars_in method_char cs" "length cs \<le> 10"
    using method_string(1,3) [OF assms(1,2)] m by simp_all
  show ?thesis
  proof (rule stageI)
    fix s assume "plain s"
    have "run (length data) (s\<lparr>h_mark := 0\<rparr>) (mstate 0) (Suc 0) (cs @ [32]) (s\<lparr>h_mark := 0\<rparr>)
        [Element Method 0 (Suc (length cs))] 3"
      using method_run [of cs 0 "length data" "s\<lparr>h_mark := 0\<rparr>" "Suc 0"] c by simp
    then have "run (length data) s 1 0 (c # cs @ [32]) (s\<lparr>h_mark := 0\<rparr>) ([] @ [Element Method 0 (Suc (length cs))]) 3"
      by (intro run_Cons [where as = "[Mark]" and t = 2]) (use c method_first in \<open>auto simp: mstate_def\<close>)
    then show "plain (s\<lparr>h_mark := 0\<rparr>) \<and> run (length data) s 1 0 (HttpMethodToString m @ [32]) (s\<lparr>h_mark := 0\<rparr>)
        [Element Method 0 (length (HttpMethodToString m))] 3 \<and>
      on_requests data [Element Method 0 (length (HttpMethodToString m))] q =
        Inr (q\<lparr>qp_data := (qp_data q)\<lparr>rq_method := m\<rparr>\<rparr>)"
      using \<open>plain s\<close> m chars_of_method [OF assms(1)] assms(1) d by (simp add: plain_def Let_def)
  qed
qed

text \<open>Setting one part of the request.\<close>

abbreviation set_data :: "HttpRequestParser \<Rightarrow> (HttpRequest \<Rightarrow> HttpRequest) \<Rightarrow> HttpRequestParser" where
  "set_data q f \<equiv> q\<lparr>qp_data := f (qp_data q)\<rparr>"

text \<open>The path with the character behind it: a space, \<open>?\<close> or \<open>#\<close>.\<close>

definition path_next :: "byte \<Rightarrow> int" where
  "path_next c = (if c = 32 then 4 else if c = 63 then 29 else 20)"

lemma stage_path:
  assumes d: "data = pre @ (47 # ps) @ sep # rest" and "sep \<in> {32, 63, 35}"
    and ps: "ps = [] \<or> in_ranges url_char (sint (hd ps)) \<and> chars_in ((47, 47) # url_char) (tl ps)"
  shows "stage data 3 (length pre) ((47 # ps) @ [sep]) q (path_next sep) (set_data q (rq_path_update (\<lambda>_. 47 # ps)))"
proof (rule stageI)
  fix s assume s: "plain s"
  let ?s = "s\<lparr>h_mark := length pre\<rparr>" and ?r = "h_uri_relaxed s \<noteq> 0"
  let ?E = "Element Path (length pre) (Suc (length ps)) # (if sep = 63 then [] else [Element Uri (length pre) (Suc (length ps))])"
  have sep: "\<exists>n. (ps = [] \<longrightarrow> n = 33) \<and> (ps \<noteq> [] \<longrightarrow> n = 26) \<and> run (length data) ?s n (Suc (length pre + length ps)) [sep] ?s ?E (path_next sep)"
    using assms(2) path_ends [of ?r]
    by (auto intro!: exI [of _ "if ps = [] then 33 else 26"] run_one simp: path_next_def)
  obtain n where n: "ps = [] \<longrightarrow> n = 33" "ps \<noteq> [] \<longrightarrow> n = 26"
    "run (length data) ?s n (Suc (length pre + length ps)) [sep] ?s ?E (path_next sep)" using sep by blast
  have mid: "run (length data) ?s 33 (Suc (length pre)) ps ?s [] n"
  proof (cases ps)
    case Nil
    then show ?thesis using n(1) by (simp add: run_Nil)
  next
    case (Cons c cs)
    have "run (length data) ?s 26 (Suc (Suc (length pre))) cs ?s [] 26"
      by (rule run_stay) (use ps Cons path_more in \<open>auto dest!: chars_inD simp: in_ranges_def\<close>)
    then have "run (length data) ?s 33 (Suc (length pre)) (c # cs) ?s ([] @ []) 26"
      by (intro run_Cons [where as = "[]"]) (use ps Cons path_second in auto)
    then show ?thesis using n(2) Cons by simp
  qed
  have "run (length data) ?s 33 (Suc (length pre)) (ps @ [sep]) ?s ([] @ ?E) (path_next sep)"
    by (rule run_append [OF mid]) (use n(3) in simp)
  then have "run (length data) s 3 (length pre) (47 # ps @ [sep]) ?s ([] @ [] @ ?E) (path_next sep)"
    by (intro run_Cons [where as = "[Mark]"]) (use path_first in auto)
  moreover have "string_at data (length pre) (Suc (length ps)) = Inr (47 # ps)"
    using string_mid [OF d] by simp
  ultimately show "plain ?s \<and> run (length data) s 3 (length pre) ((47 # ps) @ [sep]) ?s ?E (path_next sep) \<and>
      on_requests data ?E q = Inr (set_data q (rq_path_update (\<lambda>_. 47 # ps)))"
    using s by (simp add: plain_def)
qed

text \<open>The query and the fragment.\<close>

abbreviation query_class :: "(int \<times> int) list" where
  "query_class \<equiv> (47, 47) # (63, 63) # url_char"

lemma stage_query:
  assumes d: "data = pre @ qs @ sep # rest" and "sep \<in> {32, 35}" and qs: "qs \<noteq> []" "chars_in query_class qs"
  shows "stage data 29 (length pre) (qs @ [sep]) q (path_next sep) (set_data q (rq_query_update (\<lambda>_. qs)))"
proof (rule stageI)
  fix s assume s: "plain s"
  obtain c cs where c: "qs = c # cs" using qs(1) by (cases qs) auto
  let ?s = "s\<lparr>h_query_start := length pre\<rparr>" and ?r = "h_uri_relaxed s \<noteq> 0"
  let ?E = "[Element Query (length pre) (length qs), Element Uri (h_mark s) (LEN (h_mark s) (length pre + length qs))]"
  have "run (length data) ?s 30 (Suc (length pre)) cs ?s [] 30"
    by (rule run_stay) (use qs(2) c query_moves'(2) in \<open>auto dest!: chars_inD\<close>)
  moreover have "run (length data) ?s 30 (Suc (length pre) + length cs) [sep] ?s ?E (path_next sep)"
    using assms(2) query_ends [of ?r] c by (auto intro!: run_one simp: path_next_def)
  ultimately have "run (length data) ?s 30 (Suc (length pre)) (cs @ [sep]) ?s ([] @ ?E) (path_next sep)"
    by (rule run_append)
  then have "run (length data) s 29 (length pre) (c # cs @ [sep]) ?s ([] @ [] @ ?E) (path_next sep)"
    by (intro run_Cons [where as = "[StartQuery]"]) (use qs(2) c query_moves'(1) in auto)
  then show "plain ?s \<and> run (length data) s 29 (length pre) (qs @ [sep]) ?s ?E (path_next sep) \<and>
      on_requests data ?E q = Inr (set_data q (rq_query_update (\<lambda>_. qs)))"
    using s c string_mid [OF d] by (simp add: plain_def)
qed

lemma stage_fragment:
  assumes d: "data = pre @ fs @ 32 # rest" and fs: "fs \<noteq> []" "chars_in query_class fs"
  shows "stage data 20 (length pre) (fs @ [32]) q 4 (set_data q (rq_fragment_update (\<lambda>_. fs)))"
proof (rule stageI)
  fix s assume s: "plain s"
  obtain c cs where c: "fs = c # cs" using fs(1) by (cases fs) auto
  let ?s = "s\<lparr>h_mark := length pre\<rparr>" and ?r = "h_uri_relaxed s \<noteq> 0"
  let ?E = "[Element FragmentE (length pre) (length fs)]"
  have "run (length data) ?s 21 (Suc (length pre)) cs ?s [] 21"
    by (rule run_stay) (use fs(2) c query_moves'(4) in \<open>auto dest!: chars_inD\<close>)
  moreover have "run (length data) ?s 21 (Suc (length pre) + length cs) [32] ?s ?E 4"
    using query_ends(3) [of ?r] c by (auto intro!: run_one)
  ultimately have "run (length data) ?s 21 (Suc (length pre)) (cs @ [32]) ?s ([] @ ?E) 4"
    by (rule run_append)
  then have "run (length data) s 20 (length pre) (c # cs @ [32]) ?s ([] @ [] @ ?E) 4"
    by (intro run_Cons [where as = "[Mark]"]) (use fs(2) c query_moves'(3) in auto)
  then show "plain ?s \<and> run (length data) s 20 (length pre) (fs @ [32]) ?s ?E 4 \<and>
      on_requests data ?E q = Inr (set_data q (rq_fragment_update (\<lambda>_. fs)))"
    using s c string_mid [OF d] by (simp add: plain_def)
qed

text \<open>The version, with the line end.\<close>

lemma stage_version:
  assumes d: "data = pre @ [72, 84, 84, 80, 47, 49, 46, x, 13, 10] @ rest" and x: "x = 48 \<and> v = 0x10 \<or> x = 49 \<and> v = 0x11"
  shows "stage data 4 (length pre) [72, 84, 84, 80, 47, 49, 46, x, 13, 10] q 13 (set_data q (rq_version_update (\<lambda>_. v)))"
proof (rule stageI)
  fix s assume s: "plain s"
  let ?s = "s\<lparr>h_mark := length pre\<rparr>" and ?r = "h_uri_relaxed s \<noteq> 0"
  let ?E = "[Element Version (length pre) 8]"
  have "run (length data) s 4 (length pre) [72, 84, 84, 80, 47, 49, 46, x, 13, 10] ?s ?E 13"
    using x version_moves [of ?r] by (auto simp: run_def split: prod.split)
  moreover have "version_of (drop (length pre) data) 8 = Some v"
    using d x by (auto simp: version_of_def strncmp_eq_def cstr_def lit_def)
  ultimately show "plain ?s \<and> run (length data) s 4 (length pre) [72, 84, 84, 80, 47, 49, 46, x, 13, 10] ?s ?E 13 \<and>
      on_requests data ?E q = Inr (set_data q (rq_version_update (\<lambda>_. v)))"
    using s by (simp add: plain_def)
qed

text \<open>A header line.\<close>

definition good_value :: "str \<Rightarrow> bool" where
  "good_value v \<longleftrightarrow> v = [] \<or> in_ranges value_first (sint (hd v)) \<and> chars_in value_char (tl v)"

definition good_name :: "str \<Rightarrow> bool" where
  "good_name k \<longleftrightarrow> k \<noteq> [] \<and> chars_in name_char k"

lemma value_run:
  assumes "good_value v" and "h_field_start s + h_field_len s \<le> p"
  shows "run pe s 15 p (v @ [13, 10]) (s\<lparr>h_mark := p\<rparr>) [Field (h_field_start s) (h_field_len s) p (length v)] 13"
proof (cases v)
  case Nil
  then show ?thesis using field_separators(3) version_moves(11) by (auto simp: run_def split: prod.split)
next
  case (Cons c cs)
  let ?s = "s\<lparr>h_mark := p\<rparr>" and ?E = "[Field (h_field_start s) (h_field_len s) p (length v)]"
  have v: "in_ranges value_first (sint c)" "chars_in value_char cs" using assms(1) Cons by (auto simp: good_value_def)
  have "run pe ?s 16 (Suc p) cs ?s [] 16"
    by (rule run_stay) (use v(2) value_more in \<open>auto dest!: chars_inD\<close>)
  moreover have "run pe ?s 16 (Suc p + length cs) [13, 10] ?s ?E 13"
    using field_separators(4) version_moves(11) Cons by (auto simp: run_def split: prod.split)
  ultimately have "run pe ?s 16 (Suc p) (cs @ [13, 10]) ?s ([] @ ?E) 13" by (rule run_append)
  then have "run pe s 15 p (c # cs @ [13, 10]) ?s ([] @ [] @ ?E) 13"
    by (intro run_Cons [where as = "[StartValue]"]) (use v(1) value_begin in auto)
  then show ?thesis using Cons by simp
qed

lemma stage_field:
  assumes d: "data = pre @ k @ 58 # sp @ v @ [13, 10] @ rest" and k: "good_name k" and v: "good_value v"
    and sp: "sp = [] \<or> sp = [32]"
  shows "stage data 13 (length pre) (k @ 58 # sp @ v @ [13, 10]) q 13 (set_data q (\<lambda>r. setHeader r k v))"
proof (rule stageI)
  fix s assume s: "plain s"
  obtain c cs where c: "k = c # cs" using k by (cases k) (auto simp: good_name_def)
  let ?r = "h_uri_relaxed s \<noteq> 0" and ?p = "length pre + length k + 1 + length sp"
  let ?s1 = "s\<lparr>h_field_start := length pre\<rparr>" and ?s2 = "s\<lparr>h_field_start := length pre, h_field_len := length k\<rparr>"
  let ?s = "?s2\<lparr>h_mark := ?p\<rparr>" and ?E = "[Field (length pre) (length k) ?p (length v)]"
  have nm: "chars_in name_char (c # cs)" using k c by (simp add: good_name_def)
  have 1: "run (length data) ?s1 14 (Suc (length pre)) cs ?s1 [] 14"
    by (rule run_stay) (use nm name_more in \<open>auto dest!: chars_inD\<close>)
  have 2: "run (length data) ?s1 14 (Suc (length pre) + length cs) [58] ?s2 [] 15"
    by (rule run_one) (use field_separators(1) c in auto)
  have 3: "\<exists>m. run (length data) ?s2 15 (Suc (length pre + length k)) sp (?s2\<lparr>h_mark := m\<rparr>) [] 15"
  proof (cases "sp = []")
    case True
    have "run (length data) ?s2 15 (Suc (length pre + length k)) [] (?s2\<lparr>h_mark := h_mark ?s2\<rparr>) [] 15"
      by (simp add: run_Nil)
    then show ?thesis using True by blast
  next
    case False
    have "run (length data) ?s2 15 (Suc (length pre + length k)) [32] (?s2\<lparr>h_mark := Suc (length pre + length k)\<rparr>) [] 15"
      by (rule run_one) (use field_separators(2) in auto)
    then show ?thesis using False sp by blast
  qed
  then obtain m where m: "run (length data) ?s2 15 (Suc (length pre + length k)) sp (?s2\<lparr>h_mark := m\<rparr>) [] 15" by blast
  have 4: "run (length data) (?s2\<lparr>h_mark := m\<rparr>) 15 (Suc (length pre + length k) + length sp) (v @ [13, 10]) ?s ?E 13"
    using value_run [OF v, of "?s2\<lparr>h_mark := m\<rparr>" ?p "length data"] by simp
  have 5: "run (length data) ?s2 15 (Suc (length pre) + length cs + length [58 :: byte]) (sp @ v @ [13, 10]) ?s ([] @ ?E) 13"
    using run_append [OF m 4] c by simp
  have "run (length data) ?s1 14 (Suc (length pre)) (cs @ [58] @ sp @ v @ [13, 10]) ?s ([] @ [] @ [] @ ?E) 13"
    by (rule run_append [OF 1 run_append [OF 2 5]])
  then have "run (length data) s 13 (length pre) (c # cs @ [58] @ sp @ v @ [13, 10]) ?s ([] @ [] @ [] @ [] @ ?E) 13"
    by (intro run_Cons [where as = "[StartField]"]) (use nm name_first in auto)
  moreover have "string_at data (length pre) (length k) = Inr k" using string_mid [OF d] .
  moreover have "string_at data ?p (length v) = Inr v"
    using string_mid [of data "pre @ k @ 58 # sp" v "[13, 10] @ rest"] d by (simp add: add.assoc)
  ultimately show "plain ?s \<and> run (length data) s 13 (length pre) (k @ 58 # sp @ v @ [13, 10]) ?s ?E 13 \<and>
      on_requests data ?E q = Inr (set_data q (\<lambda>r. setHeader r k v))"
    using s c by (simp add: plain_def)
qed

end
