(* ===== verification/HttpParser_Spec.thy ===== *)
theory HttpParser_Spec
  imports HttpParser_Run
begin

text \<open>
  What the request parser makes of a request that \<^verbatim>\<open>HttpRequest::dump\<close> wrote: the stages of
  the pieces are put together along the text of the dump, and the headers are compared as maps.
\<close>

section \<open>Header lines and the end of the header\<close>

text \<open>Header lines: name, what stands behind the colon, value.\<close>

type_synonym field = "str \<times> str \<times> str"

fun field_line :: "field \<Rightarrow> str" where
  "field_line (k, sp, v) = k @ 58 # sp @ v @ [13, 10]"

fun good_field :: "field \<Rightarrow> bool" where
  "good_field (k, sp, v) \<longleftrightarrow> good_name k \<and> good_value v \<and> (sp = [] \<or> sp = [32])"

definition put_fields :: "field list \<Rightarrow> MapType \<Rightarrow> MapType" where
  "put_fields fs m = fold (\<lambda>(k, sp, v) m. map_set m k v) fs m"

lemma stage_fields:
  assumes "data = pre @ concat (map field_line fs) @ rest" and "list_all good_field fs"
  shows "stage data 13 (length pre) (concat (map field_line fs)) q 13 (set_data q (rq_headers_update (put_fields fs)))"
  using assms
proof (induction fs arbitrary: pre q)
  case Nil
  have "run (length data) s 13 (length pre) [] s [] 13" for s by (rule run_Nil)
  then show ?case by (auto simp: stage_def put_fields_def intro!: exI [of _ "[]"])
next
  case (Cons f fs)
  obtain k sp v where f: "f = (k, sp, v)" by (metis prod_cases3)
  let ?q = "set_data q (\<lambda>r. setHeader r k v)"
  have d: "data = pre @ k @ 58 # sp @ v @ [13, 10] @ concat (map field_line fs) @ rest"
    using Cons.prems(1) by (simp add: f)
  have 1: "stage data 13 (length pre) (field_line f) q 13 ?q"
    using stage_field [OF d, of q] Cons.prems(2) by (simp add: f)
  have 2: "stage data 13 (length (pre @ field_line f)) (concat (map field_line fs)) ?q 13
      (set_data ?q (rq_headers_update (put_fields fs)))"
    by (rule Cons.IH) (use Cons.prems in simp_all)
  have "set_data ?q (rq_headers_update (put_fields fs)) = set_data q (rq_headers_update (put_fields (f # fs)))"
    by (simp add: f put_fields_def setHeader_def)
  moreover have "stage data 13 (length pre) (field_line f @ concat (map field_line fs)) q 13
      (set_data ?q (rq_headers_update (put_fields fs)))"
    by (rule stage_append [OF 1]) (use 2 in simp)
  ultimately show ?case by simp
qed

text \<open>The empty line ends the header.\<close>

lemma execute_header:
  assumes st: "stage data 1 0 head q0 13 q1" and d: "data = head @ [13, 10] @ rest" and len: "length data < 2 ^ 31"
    and q: "plain (qp_parser q0)" "h_cs (qp_parser q0) = 1" "h_body_start (qp_parser q0) \<le> length data"
  shows "\<exists>s. request_execute q0 data = Inr (q1\<lparr>qp_parser := s\<rparr>, rest, length head + 2) \<and> h_cs s = 348"
proof -
  let ?p0 = "(qp_parser q0)\<lparr>h_nread := 0, h_mark := 0, h_field_len := 0, h_field_start := 0\<rparr>"
  have "plain ?p0" using q(1) by (simp add: plain_def)
  then obtain s E where s: "plain s" "run (length data) ?p0 1 0 head s E 13" "on_requests data E q0 = Inr q1"
    using st unfolding stage_def by blast
  let ?s = "s\<lparr>h_field_start := length head, h_body_start := length head + 2\<rparr>"
    and ?h = "Element HeaderDone (length head + 2) (length data - (length head + 2))"
  have "h11_loop (length data) s 13 (length head) (map sint ([13, 10] @ rest)) = (?s, [?h], 348, length head + 2)"
    using field_separators(5,6) s(1) by (simp add: plain_def diff_diff_eq)
  then have l: "h11_loop (length data) ?p0 (h_cs (qp_parser q0)) 0 (map sint (drop 0 data)) = (?s, E @ [?h], 348, length head + 2)"
    using s(2) [unfolded run_def, THEN spec, of "[13, 10] @ rest"] q(2) d by (simp del: map_append)
  have "h_cs ?s = h_cs (qp_parser q0)"
    using execute_runs [OF _ len _ q(3) _ l] d q(2) by (simp add: in_query_def)
  then have "http_parser_execute (qp_parser q0) data 0 =
      Inr (?s\<lparr>h_cs := 348, h_nread := length head + 2\<rparr>, E @ [?h], length head + 2)"
    using execute_runs [OF _ len _ q(3) _ l] d q(2) by (simp add: in_query_def)
  then have "request_execute q0 data = Inr (q1\<lparr>qp_parser := ?s\<lparr>h_cs := 348, h_nread := length head + 2\<rparr>\<rparr>, rest, length head + 2)"
    using s(3) d by (simp add: request_execute_def on_requests_append)
  then show ?thesis by force
qed

text \<open>The target of a request with the space behind it.\<close>

definition good_path :: "str \<Rightarrow> bool" where
  "good_path p \<longleftrightarrow> p \<noteq> [] \<and> hd p = 47 \<and>
     (tl p = [] \<or> in_ranges url_char (sint (hd (tl p))) \<and> chars_in ((47, 47) # url_char) (tl (tl p)))"

definition target_text :: "str \<Rightarrow> str \<Rightarrow> str \<Rightarrow> str" where
  "target_text path query fragment =
     path @ (if query = [] then [] else lit ''?'') @ query @ (if fragment = [] then [] else lit ''#'') @ fragment @ [32]"

definition put_target :: "str \<Rightarrow> str \<Rightarrow> str \<Rightarrow> HttpRequest \<Rightarrow> HttpRequest" where
  "put_target path query fragment r = r\<lparr>rq_path := path, rq_query := query, rq_fragment := fragment\<rparr>"

lemma stage_target:
  assumes d: "data = pre @ target_text path query fragment @ rest" and path: "good_path path"
    and qc: "chars_in query_class query" and fc: "chars_in query_class fragment"
    and q: "rq_query (qp_data q) = []" "rq_fragment (qp_data q) = []"
  shows "stage data 3 (length pre) (target_text path query fragment) q 4 (set_data q (put_target path query fragment))"
proof -
  let ?sf = "if fragment = [] then 32 else 35 :: byte" and ?sq = "if query = [] then if fragment = [] then 32 else 35 else 63 :: byte"
  let ?F = "if fragment = [] then [] else fragment @ [32]" and ?Q = "if query = [] then [] else query @ [?sf]"
  have t: "target_text path query fragment = (path @ [?sq]) @ ?Q @ ?F"
    by (simp add: target_text_def lit_def)
  obtain ps where p: "path = 47 # ps" using path by (cases path) (auto simp: good_path_def)
  let ?q1 = "set_data q (rq_path_update (\<lambda>_. path))"
  let ?q2 = "set_data ?q1 (rq_query_update (\<lambda>_. query))" and ?q3 = "set_data q (put_target path query fragment)"
  have 1: "stage data 3 (length pre) (path @ [?sq]) q (path_next ?sq) ?q1"
    using stage_path [of data pre ps ?sq "?Q @ ?F @ rest" q] d t p path by (auto simp: good_path_def)
  have 2: "stage data (path_next ?sq) (length (pre @ path @ [?sq])) ?Q ?q1 (path_next ?sf) ?q2"
  proof (cases "query = []")
    case True
    then have "?q2 = ?q1" using q by simp
    then show ?thesis using True by (simp add: stage_def) (metis run_Nil on_requests.simps(1))
  next
    case False
    then show ?thesis
      using stage_query [of data "pre @ path @ [?sq]" query ?sf "?F @ rest" ?q1] d t qc by (simp add: path_next_def)
  qed
  have 3: "stage data (path_next ?sf) (length (pre @ (path @ [?sq]) @ ?Q)) ?F ?q2 4 ?q3"
  proof (cases "fragment = []")
    case True
    then have "?q3 = ?q2" using q by (simp add: put_target_def)
    then show ?thesis using True by (simp add: stage_def path_next_def) (metis run_Nil on_requests.simps(1))
  next
    case False
    have e: "set_data ?q2 (rq_fragment_update (\<lambda>_. fragment)) = ?q3" by (simp add: put_target_def)
    show ?thesis
      using stage_fragment [of data "pre @ (path @ [?sq]) @ ?Q" fragment rest ?q2] d t fc False e by (simp add: path_next_def)
  qed
  have "stage data (path_next ?sq) (length pre + length (path @ [?sq])) (?Q @ ?F) ?q1 4 ?q3"
    by (rule stage_append [OF _ 3 [unfolded length_append [of pre] length_append [of "path @ [?sq]"] add.assoc [symmetric]]])
      (use 2 in simp)
  then show ?thesis unfolding t by (rule stage_append [OF 1])
qed

section \<open>What dump writes\<close>

definition version_line :: "byte \<Rightarrow> str" where
  "version_line v = [72, 84, 84, 80, 47, 49, 46, if v = 0x11 then 49 else 48, 13, 10]"

definition dumped_fields :: "HttpRequest \<Rightarrow> field list" where
  "dumped_fields r =
     (lit ''connection'', [32], if rq_close r then lit ''close'' else lit ''keep-alive'') #
     map (\<lambda>(k, v). (k, [], v)) (filter (\<lambda>(k, v). \<not> casecmp_eq k (lit ''connection'')) (rq_headers r)) @
     (if rq_body r = [] then [] else [(lit ''content-length'', [32], dec (length (rq_body r)))])"

definition dumped_head :: "HttpRequest \<Rightarrow> str" where
  "dumped_head r = (HttpMethodToString (rq_method r) @ [32]) @ target_text (rq_path r) (rq_query r) (rq_fragment r) @
     version_line (rq_version r) @ concat (map field_line (dumped_fields r))"

definition good_request :: "HttpRequest \<Rightarrow> bool" where
  "good_request r \<longleftrightarrow> rq_method r \<noteq> INVALID_METHOD \<and> rq_method r \<noteq> MSEARCH \<and> (rq_version r = 0x10 \<or> rq_version r = 0x11) \<and>
     good_path (rq_path r) \<and> chars_in query_class (rq_query r) \<and> chars_in query_class (rq_fragment r) \<and>
     list_all (\<lambda>(k, v). good_name k \<and> good_value v) (rq_headers r)"

lemma dump_header_lines:
  "dump_headers (lit '':'') m = concat (map field_line (map (\<lambda>(k, v). (k, [], v)) (filter (\<lambda>(k, v). \<not> casecmp_eq k (lit ''connection'')) m)))"
  by (induction m) (auto simp: dump_headers_def lit_def [of "'':''"] crlf_def)

lemma connection_line: "dump_connection b = field_line (lit ''connection'', [32], if b then lit ''close'' else lit ''keep-alive'')"
  by (simp add: dump_connection_def lit_def crlf_def)

lemma length_line: "dump_body b = concat (map field_line (if b = [] then [] else [(lit ''content-length'', [32], dec (length b))])) @ [13, 10] @ b"
  by (simp add: dump_body_def lit_def crlf_def)

lemma version_text: "v = 0x10 \<or> v = 0x11 \<Longrightarrow> lit ''HTTP/'' @ dump_version v @ crlf = version_line v"
  by (auto simp: version_line_def dump_version_def lit_def crlf_def dec.simps)

lemma dump_text:
  assumes "rq_version r = 0x10 \<or> rq_version r = 0x11"
  shows "request_dump r = dumped_head r @ [13, 10] @ rq_body r"
proof -
  have "lit '' HTTP/'' @ dump_version (rq_version r) @ crlf @ rest = 32 # version_line (rq_version r) @ rest" for rest
    using version_text [OF assms] by (simp add: lit_def flip: append_assoc)
  then show ?thesis
    by (simp add: request_dump_def dumped_head_def dumped_fields_def target_text_def dump_header_lines connection_line
        length_line lit_def [of "'' ''"] del: map_map field_line.simps)
qed

lemma digits_good: "good_value (dec n)"
proof -
  have "in_ranges value_first (sint c) \<and> in_ranges value_char (sint c)" if "is_digit c" for c
  proof -
    have "48 \<le> uint c \<and> uint c \<le> 57" using that by (simp add: is_digit_def word_le_def)
    then have "48 \<le> sint c \<and> sint c \<le> 57" by (simp add: sint_uint signed_take_bit_int_eq_self)
    then show ?thesis by (auto simp: in_ranges_def value_first_def value_char_def)
  qed
  then show ?thesis using dec_digits [of n]
    by (cases "dec n") (auto simp: good_value_def chars_in_def list_all_iff)
qed

lemma dumped_fields_good:
  assumes "good_request r"
  shows "list_all good_field (dumped_fields r)"
proof -
  have "good_field (lit ''connection'', [32], if rq_close r then lit ''close'' else lit ''keep-alive'')"
    "good_name (lit ''content-length'')"
    by (simp_all add: lit_def good_name_def good_value_def in_ranges_def class_defs)
  then show ?thesis using assms digits_good
    by (auto simp: dumped_fields_def good_request_def list_all_iff)
qed

lemma stage_head:
  assumes g: "good_request r" and d: "data = dumped_head r @ rest"
    and q: "rq_query (qp_data q) = []" "rq_fragment (qp_data q) = []"
  shows "stage data 1 0 (dumped_head r) q 13 (set_data q (\<lambda>x. x\<lparr>rq_method := rq_method r, rq_path := rq_path r,
     rq_query := rq_query r, rq_fragment := rq_fragment r, rq_version := rq_version r,
     rq_headers := put_fields (dumped_fields r) (rq_headers x)\<rparr>))"
proof -
  let ?m = "HttpMethodToString (rq_method r) @ [32]" and ?t = "target_text (rq_path r) (rq_query r) (rq_fragment r)"
    and ?v = "version_line (rq_version r)" and ?f = "concat (map field_line (dumped_fields r))"
  let ?q1 = "q\<lparr>qp_data := (qp_data q)\<lparr>rq_method := rq_method r\<rparr>\<rparr>"
  let ?q2 = "set_data ?q1 (put_target (rq_path r) (rq_query r) (rq_fragment r))"
  let ?q3 = "set_data ?q2 (rq_version_update (\<lambda>_. rq_version r))"
  let ?q4 = "set_data ?q3 (rq_headers_update (put_fields (dumped_fields r)))"
  note g' = g [unfolded good_request_def]
  have 1: "stage data 1 0 ?m q 3 ?q1"
    by (rule stage_method) (use g' d in \<open>simp_all add: dumped_head_def\<close>)
  have 2: "stage data 3 (length ?m) ?t ?q1 4 ?q2"
    by (rule stage_target [where rest = "?v @ ?f @ rest"]) (use g' d q in \<open>simp_all add: dumped_head_def\<close>)
  have 3: "stage data 4 (length (?m @ ?t)) ?v ?q2 13 ?q3"
    unfolding version_line_def
    by (rule stage_version [where rest = "?f @ rest"]) (use g' d in \<open>auto simp: dumped_head_def version_line_def\<close>)
  have 4: "stage data 13 (length (?m @ ?t @ ?v)) ?f ?q3 13 ?q4"
    by (rule stage_fields [where rest = rest]) (use dumped_fields_good [OF g] d in \<open>simp_all add: dumped_head_def\<close>)
  have "stage data 1 0 (((?m @ ?t) @ ?v) @ ?f) q 13 ?q4"
    by (intro stage_append [OF stage_append [OF stage_append [OF 1]]]) (use 2 3 4 in simp_all)
  moreover have "rq_headers_update (put_fields fs) x = x\<lparr>rq_headers := put_fields fs (rq_headers x)\<rparr>" for fs and x :: HttpRequest
    by (cases x) simp
  ultimately show ?thesis by (simp add: dumped_head_def put_target_def)
qed

section \<open>The headers read back\<close>

abbreviation headers_ordered :: "MapType \<Rightarrow> bool" where
  "headers_ordered m \<equiv> sorted_wrt CaseInsensitiveLess (map fst m)"

lemma find_put:
  assumes "headers_ordered m"
  shows "omap_find CaseInsensitiveLess k (map_set m k' v) = (if casecmp_eq k k' then Some v else omap_find CaseInsensitiveLess k m)"
  using ci.find_set_same [OF assms, of k k' v] ci.find_set_other [of k k' v m] by (simp add: map_set_def incomp_ci)

lemma ordered_put: "headers_ordered m \<Longrightarrow> headers_ordered (map_set m k v)"
  by (simp add: map_set_def ci.map_ordered_set)

lemma put_fields_append: "put_fields (a @ b) m = put_fields b (put_fields a m)"
  by (simp add: put_fields_def)

lemma put_ordered_fields:
  "headers_ordered hs \<Longrightarrow> headers_ordered m \<Longrightarrow> headers_ordered (put_fields (map (\<lambda>(k, v). (k, [], v)) hs) m) \<and>
     omap_find CaseInsensitiveLess k (put_fields (map (\<lambda>(k, v). (k, [], v)) hs) m) =
       (case omap_find CaseInsensitiveLess k hs of None \<Rightarrow> omap_find CaseInsensitiveLess k m | Some v \<Rightarrow> Some v)"
proof (induction hs arbitrary: m)
  case (Cons h hs)
  obtain k' v' where h: "h = (k', v')" by (cases h)
  have "omap_find CaseInsensitiveLess k hs = None" if "casecmp_eq k k'"
  proof (rule ci.find_none)
    show "\<forall>x\<in>fst ` set hs. CaseInsensitiveLess k x"
      using Cons.prems(1) h that ci.incomp_less_less [of k k'] by (auto simp: incomp_ci)
  qed (use Cons.prems(1) in simp)
  then show ?case
    using Cons.IH [of "map_set m k' v'"] Cons.prems h ordered_put [OF Cons.prems(2)] find_put [OF Cons.prems(2), of k k' v']
    by (auto simp: put_fields_def incomp_ci split: option.splits)
qed (simp add: put_fields_def)

lemma find_without:
  "omap_find CaseInsensitiveLess k (filter (\<lambda>(k', v). \<not> casecmp_eq k' c) hs) =
     (if casecmp_eq k c then None else omap_find CaseInsensitiveLess k hs)"
  by (induction hs) (auto simp: incomp_ci casecmp_eq_def)

lemma ordered_filter: "headers_ordered hs \<Longrightarrow> headers_ordered (filter P hs)"
  by (induction hs) auto

lemma not_connection: "\<not> casecmp_eq (lit ''content-length'') (lit ''connection'')"
  by (simp add: casecmp_eq_def lit_def cstr_def tolower_def)

lemma dumped_headers_back:
  assumes "headers_ordered (rq_headers r)"
  shows "omap_find CaseInsensitiveLess k (put_fields (dumped_fields r) []) =
    (if casecmp_eq k (lit ''content-length'') \<and> rq_body r \<noteq> [] then Some (dec (length (rq_body r)))
     else if casecmp_eq k (lit ''connection'') then Some (if rq_close r then lit ''close'' else lit ''keep-alive'')
     else omap_find CaseInsensitiveLess k (rq_headers r))"
proof -
  let ?hs = "filter (\<lambda>(k, v). \<not> casecmp_eq k (lit ''connection'')) (rq_headers r)"
    and ?m = "map_set [] (lit ''connection'') (if rq_close r then lit ''close'' else lit ''keep-alive'')"
  let ?n = "put_fields (map (\<lambda>(k, v). (k, [], v)) ?hs) ?m"
  have m: "headers_ordered ?m" by (simp add: map_set_def)
  have "put_fields (dumped_fields r) [] =
      (if rq_body r = [] then ?n else map_set ?n (lit ''content-length'') (dec (length (rq_body r))))"
    by (simp add: dumped_fields_def put_fields_def)
  moreover have n: "headers_ordered ?n" "omap_find CaseInsensitiveLess k ?n = (case omap_find CaseInsensitiveLess k ?hs of
      None \<Rightarrow> omap_find CaseInsensitiveLess k ?m | Some v \<Rightarrow> Some v)"
    using put_ordered_fields [OF ordered_filter [OF assms] m] by blast+
  moreover have "omap_find CaseInsensitiveLess k ?m =
      (if casecmp_eq k (lit ''connection'') then Some (if rq_close r then lit ''close'' else lit ''keep-alive'') else None)"
    using find_put [of "[]" k] by simp
  ultimately show ?thesis using find_put [OF n(1)] by (auto simp: find_without split: option.splits)
qed

lemma new_parser: "plain (qp_parser (HttpRequestParser_new m0))" "h_cs (qp_parser (HttpRequestParser_new m0)) = 1"
  "h_body_start (qp_parser (HttpRequestParser_new m0)) = 0" "qp_error (HttpRequestParser_new m0) = 0"
  "rq_query (qp_data (HttpRequestParser_new m0)) = []" "rq_fragment (qp_data (HttpRequestParser_new m0)) = []"
  "rq_headers (qp_data (HttpRequestParser_new m0)) = []"
  by (simp_all add: HttpRequestParser_new_def http_parser_init_def HttpRequest_new_def plain_def)

text \<open>The request that the parser makes of the header: the body is still empty.\<close>

definition read_back :: "HttpRequest \<Rightarrow> HttpRequest" where
  "read_back r = (HttpRequest_new 0x11 True)\<lparr>rq_method := rq_method r, rq_path := rq_path r,
     rq_query := rq_query r, rq_fragment := rq_fragment r, rq_version := rq_version r,
     rq_headers := put_fields (dumped_fields r) []\<rparr>"

lemma execute_dumped:
  assumes "good_request r" and "data = dumped_head r @ [13, 10] @ rest" and "length data < 2 ^ 31"
  shows "\<exists>s. request_execute (HttpRequestParser_new m0) data =
    Inr (\<lparr>qp_parser = s, qp_data = read_back r, qp_error = 0\<rparr>, rest, length (dumped_head r) + 2) \<and> h_cs s = 348"
proof -
  let ?q = "HttpRequestParser_new m0"
  obtain s where "request_execute ?q data = Inr ((set_data ?q (\<lambda>x. x\<lparr>rq_method := rq_method r, rq_path := rq_path r,
     rq_query := rq_query r, rq_fragment := rq_fragment r, rq_version := rq_version r,
     rq_headers := put_fields (dumped_fields r) (rq_headers x)\<rparr>))\<lparr>qp_parser := s\<rparr>, rest, length (dumped_head r) + 2)"
    "h_cs s = 348"
    using execute_header [OF stage_head [OF assms(1), of data "[13, 10] @ rest" ?q] assms(2,3)] assms(2) new_parser [of m0]
    by auto
  then show ?thesis by (auto simp: read_back_def HttpRequestParser_new_def HttpRequest_new_def)
qed

lemma read_back_header:
  assumes "headers_ordered (rq_headers r)"
  shows "getHeader (read_back r) k def =
    (if casecmp_eq k (lit ''content-length'') \<and> rq_body r \<noteq> [] then dec (length (rq_body r))
     else if casecmp_eq k (lit ''connection'') then (if rq_close r then lit ''close'' else lit ''keep-alive'')
     else getHeader r k def)"
  using dumped_headers_back [OF assms, of k] by (auto simp: getHeader_def map_get_def read_back_def)

section \<open>Properties\<close>

definition sample_request :: "HttpRequest" where
  "sample_request = (HttpRequest_new 0x11 False)\<lparr>rq_method := POST, rq_path := [47, 97], rq_query := [120, 61, 49],
     rq_body := [104, 105], rq_headers := [([72, 111, 115, 116], [99])]\<rparr>"

lemma sample_good: "good_request sample_request" "headers_ordered (rq_headers sample_request)"
  "length (request_dump sample_request) < 2 ^ 31"
  by (simp_all add: sample_request_def good_request_def HttpRequest_new_def good_path_def good_name_def good_value_def
      class_defs in_ranges_def request_dump_def dump_headers_def dump_connection_def dump_body_def lit_def crlf_def
      HttpMethodToString_def http_method_map_def dump_version_def dec.simps casecmp_eq_def cstr_def tolower_def)

text \<open>
  The request parser reads back what \<open>HttpRequest::dump\<close> writes. For a request with a known method other
  than M-SEARCH, version 1.0 or 1.1, and a path, query, fragment and headers of the characters that HTTP allows,
  it finishes without an error at the end of the header and leaves exactly the body in the buffer; method,
  version, path, query and fragment are those written, and every header is found under any spelling of
  its name with the value written, \<open>connection\<close> and, with a body, \<open>content-length\<close> as dump puts them.
\<close>

theorem dump_parsed_back:
  assumes "good_request r" and "headers_ordered (rq_headers r)" and "length (request_dump r) < 2 ^ 31"
  shows "\<exists>q. request_execute (HttpRequestParser_new m0) (request_dump r) =
      Inr (q, rq_body r, length (request_dump r) - length (rq_body r)) \<and>
    request_isFinished q = 1 \<and> \<not> request_hasError q \<and>
    rq_method (qp_data q) = rq_method r \<and> rq_version (qp_data q) = rq_version r \<and> rq_path (qp_data q) = rq_path r \<and>
    rq_query (qp_data q) = rq_query r \<and> rq_fragment (qp_data q) = rq_fragment r \<and>
    (\<forall>k def. getHeader (qp_data q) k def =
      (if casecmp_eq k (lit ''content-length'') \<and> rq_body r \<noteq> [] then dec (length (rq_body r))
       else if casecmp_eq k (lit ''connection'') then (if rq_close r then lit ''close'' else lit ''keep-alive'')
       else getHeader r k def))"
proof -
  have "rq_version r = 0x10 \<or> rq_version r = 0x11" using assms(1) by (simp add: good_request_def)
  note t = dump_text [OF this]
  obtain s where s: "request_execute (HttpRequestParser_new m0) (request_dump r) =
      Inr (\<lparr>qp_parser = s, qp_data = read_back r, qp_error = 0\<rparr>, rq_body r, length (dumped_head r) + 2)" "h_cs s = 348"
    using execute_dumped [OF assms(1) t assms(3)] by blast
  let ?q = "\<lparr>qp_parser = s, qp_data = read_back r, qp_error = 0\<rparr>"
  have "request_isFinished ?q = 1" "\<not> request_hasError ?q"
    using s(2) by (simp_all add: request_isFinished_def request_hasError_def http_parser_finish_def
        http_parser_has_error_def http_parser_is_finished_def)
  moreover have "length (request_dump r) - length (rq_body r) = length (dumped_head r) + 2" by (simp add: t)
  ultimately show ?thesis
    by (intro exI [of _ ?q] conjI allI) (simp_all only: s(1) read_back_header [OF assms(2)] HttpRequestParser.simps,
      simp_all add: read_back_def)
qed

theorem dump_parsed_back_example: "\<exists>q. request_execute (HttpRequestParser_new fresh_parser) (request_dump sample_request) =
      Inr (q, rq_body sample_request, length (request_dump sample_request) - length (rq_body sample_request)) \<and>
    request_isFinished q = 1 \<and> rq_path (qp_data q) = [47, 97] \<and> getHeader (qp_data q) (lit ''HOST'') [] = [99]"
proof -
  have "getHeader sample_request (lit ''HOST'') [] = [99]" "\<not> casecmp_eq (lit ''HOST'') (lit ''content-length'')"
    "\<not> casecmp_eq (lit ''HOST'') (lit ''connection'')" "rq_path sample_request = [47, 97]"
    by (simp_all add: getHeader_def map_get_def sample_request_def incomp_ci casecmp_eq_def lit_def cstr_def tolower_def)
  then show ?thesis using dump_parsed_back [OF sample_good, of fresh_parser] by auto
qed

end
