(* ===== verification/HttpSession_Spec.thy ===== *)
theory HttpSession_Spec
  imports HttpSession HttpParser_Spec
begin

text \<open>
  Receiving a request: reading in pieces, the request that comes out of the stream when a dumped request goes
  in, and what a failing read does.
\<close>

section \<open>Reading\<close>

lemma session_read_Got:
  assumes "sk_connected s" and "sk_in s = Got c # rest" and "length c \<le> n" and "length c < 2 ^ 31"
  shows "session_read s n = Inr (s\<lparr>sk_in := rest\<rparr>, int (length c), c)"
  using assms by (simp add: session_read_def sock_recv_def)

lemma session_read_end:
  "sk_connected s \<Longrightarrow> sk_in s = Shut # rest \<Longrightarrow> session_read s n = Inr (s\<lparr>sk_in := rest\<rparr>, 0, [])"
  "sk_connected s \<Longrightarrow> sk_in s = Failed # rest \<Longrightarrow> session_read s n = Inr (s\<lparr>sk_in := rest\<rparr>, -1, [])"
  "\<not> sk_connected s \<Longrightarrow> session_read s n = Inr (s, -1, [])"
  by (simp_all add: session_read_def sock_recv_def)

text \<open>One arrival in the middle of the loop.\<close>

lemma read_left_Got:
  assumes s: "sk_connected s" "sk_in s = Got c # rest" and c: "c \<noteq> []" "length c \<le> left" "left < 2 ^ 64"
    and at: "(base + offset) mod 2 ^ 64 = at" "at + length c \<le> length buf" "length buf < 2 ^ 31"
  shows "read_left s buf base offset left len =
    read_left (s\<lparr>sk_in := rest\<rparr>) (splice buf at c) base ((offset + length c) mod 2 ^ 64) (left - length c) len"
proof -
  have "0 < left" using c by (cases c) auto
  moreover have "int_to_size (int (length c)) = length c" using at c by simp
  ultimately show ?thesis using session_read_Got [OF s c(2)] at c
    by (subst read_left.simps) (simp add: Let_def)
qed

lemma read_left_chunks:
  assumes "sk_connected s" and "sk_in s = map Got cs @ rest" and "[] \<notin> set cs" and "length (concat cs) \<le> left"
    and "left < 2 ^ 64" and "(base + offset) mod 2 ^ 64 = at" and "at + length (concat cs) \<le> length buf" and "length buf < 2 ^ 31"
  shows "\<exists>offset'. read_left s buf base offset left len =
    read_left (s\<lparr>sk_in := rest\<rparr>) (splice buf at (concat cs)) base offset' (left - length (concat cs)) len"
  using assms
proof (induction cs arbitrary: s buf offset left at)
  case Nil
  then have "at \<le> length buf" by simp
  then show ?case using Nil by (auto intro!: exI [of _ offset])
next
  case (Cons c cs)
  let ?s = "s\<lparr>sk_in := map Got cs @ rest\<rparr>" and ?buf = "splice buf at c" and ?o = "(offset + length c) mod 2 ^ 64"
  have at: "at + length c \<le> length buf" using Cons.prems(7) by simp
  have l: "length ?buf = length buf" using at by (simp add: splice_def)
  have 1: "read_left s buf base offset left len = read_left ?s ?buf base ?o (left - length c) len"
    by (rule read_left_Got [OF Cons.prems(1) _ _ _ Cons.prems(5,6) at Cons.prems(8)]) (use Cons.prems in auto)
  have "(base + ?o) mod 2 ^ 64 = ((base + offset) mod 2 ^ 64 + length c) mod 2 ^ 64" by (simp add: mod_simps add.assoc)
  also have "\<dots> = at + length c" using Cons.prems(6) at Cons.prems(8) by simp
  finally have 2: "(base + ?o) mod 2 ^ 64 = at + length c" .
  have "\<exists>o2. read_left ?s ?buf base ?o (left - length c) len =
      read_left (?s\<lparr>sk_in := rest\<rparr>) (splice ?buf (at + length c) (concat cs)) base o2 (left - length c - length (concat cs)) len"
    by (rule Cons.IH) (use Cons.prems l 2 in simp_all)
  moreover have "splice ?buf (at + length c) (concat cs) = splice buf at (concat (c # cs))"
    using splice_splice [of at c "concat cs" buf] Cons.prems(7) by simp
  ultimately show ?case unfolding 1 by simp
qed

lemma read_left_all:
  assumes "sk_connected s" and "sk_in s = map Got cs @ rest" and "[] \<notin> set cs"
    and "(base + offset) mod 2 ^ 64 = at" and "at + length (concat cs) \<le> length buf" and "length buf < 2 ^ 31"
  shows "read_left s buf base offset (length (concat cs)) len = Inr (s\<lparr>sk_in := rest\<rparr>, splice buf at (concat cs), size_to_int len)"
  using read_left_chunks [OF assms(1-3) order_refl _ assms(4-6)] assms(5,6) by (auto simp: read_left.simps)

lemma read_left_Shut:
  assumes "sk_connected s" and "sk_in s = map Got cs @ Shut # rest" and "[] \<notin> set cs" and "length (concat cs) < left"
    and "left < 2 ^ 64" and "(base + offset) mod 2 ^ 64 = at" and "at + length (concat cs) \<le> length buf" and "length buf < 2 ^ 31"
  shows "read_left s buf base offset left len = Inr (s\<lparr>sk_in := rest\<rparr>, splice buf at (concat cs), 0)"
proof -
  obtain o2 where o: "read_left s buf base offset left len =
      read_left (s\<lparr>sk_in := Shut # rest\<rparr>) (splice buf at (concat cs)) base o2 (left - length (concat cs)) len"
    using read_left_chunks [OF assms(1-3) _ assms(5-8)] assms(4) by auto
  show ?thesis unfolding o using session_read_end(1) [of "s\<lparr>sk_in := Shut # rest\<rparr>" rest] assms(1,4)
    by (subst read_left.simps) (simp add: int_to_size_def)
qed

text \<open>A failed read moves the position one back and asks for one byte more.\<close>

lemma read_left_Failed:
  assumes "sk_connected s" and "sk_in s = Failed # rest" and "0 < left" and "left < 2 ^ 64 - 1"
  shows "read_left s buf base offset left len = read_left (s\<lparr>sk_in := rest\<rparr>) buf base ((offset + (2 ^ 64 - 1)) mod 2 ^ 64) (left + 1) len"
  using session_read_end(2) [OF assms(1,2)] assms(3,4)
  by (subst read_left.simps) (simp add: minus_one_size usub_def)

lemma read_left_disconnected: "\<not> sk_connected s \<Longrightarrow> read_left s buf base offset left len = Inr (s, buf, size_to_int len)"
proof (induction s buf base offset left len rule: read_left.induct)
  case (1 s buf base offset left len)
  note IH = 1(1) and disc = 1(2)
  show ?case
  proof (cases "left = 0")
    case False
    have "read_left s buf base ((offset + (2 ^ 64 - 1)) mod 2 ^ 64) (usub left (2 ^ 64 - 1)) len = Inr (s, buf, size_to_int len)"
      using IH [OF False, of "(s, -1, [])" s "(-1, [])" "-1" "[]"] session_read_end(3) [OF disc] disc minus_one_size
      by simp
    then show ?thesis using session_read_end(3) [OF disc] minus_one_size False by (subst read_left.simps) simp
  next
    case True
    then show ?thesis by (simp add: read_left.simps)
  qed
qed

section \<open>Receiving what dump wrote\<close>

text \<open>The request that arrives, in the terms of the one that was dumped.\<close>

definition received :: "HttpRequest \<Rightarrow> HttpRequest" where
  "received r = keep_alive ((read_back r)\<lparr>rq_body := rq_body r\<rparr>)"

text \<open>The stream holds the header with the first bytes of the body, then the rest of the body in pieces.\<close>

definition delivers :: "arrival list \<Rightarrow> HttpRequest \<Rightarrow> nat \<Rightarrow> arrival list \<Rightarrow> bool" where
  "delivers es r buff_size rest \<longleftrightarrow> (\<exists>b cs. es = Got (dumped_head r @ [13, 10] @ b) # map Got cs @ rest \<and>
     rq_body r = b @ concat cs \<and> [] \<notin> set cs \<and> length (dumped_head r @ [13, 10] @ b) \<le> buff_size)"

lemma recv_header_dumped:
  assumes "good_request r" and "sk_connected s" and "sk_in s = Got (dumped_head r @ [13, 10] @ b) # rest"
    and "length (dumped_head r @ [13, 10] @ b) \<le> buff_size" and "buff_size < 2 ^ 31"
  shows "\<exists>p. recv_header buff_size s (HttpRequestParser_new m0) [] =
    Inr (s\<lparr>sk_in := rest\<rparr>, Some (\<lparr>qp_parser = p, qp_data = read_back r, qp_error = 0\<rparr>, b))"
proof -
  let ?d = "dumped_head r @ [13, 10] @ b"
  have d: "length ?d < 2 ^ 31" using assms(4,5) by simp
  obtain p where p: "request_execute (HttpRequestParser_new m0) ?d =
      Inr (\<lparr>qp_parser = p, qp_data = read_back r, qp_error = 0\<rparr>, b, length (dumped_head r) + 2)" "h_cs p = 348"
    using execute_dumped [OF assms(1) refl d] by blast
  let ?q = "\<lparr>qp_parser = p, qp_data = read_back r, qp_error = 0\<rparr>"
  have q: "\<not> request_hasError ?q" "request_isFinished ?q = 1"
    using p(2) by (simp_all add: request_isFinished_def request_hasError_def http_parser_finish_def
        http_parser_has_error_def http_parser_is_finished_def)
  have "session_read s (usub buff_size (length ([] :: str))) = Inr (s\<lparr>sk_in := rest\<rparr>, int (length ?d), ?d)"
    using session_read_Got [OF assms(2,3) assms(4) d] by simp
  moreover have "int (length b) \<noteq> size_to_int buff_size" using assms(4,5) by simp
  ultimately show ?thesis using p(1) q by (subst recv_header.simps) simp
qed

lemma recv_body_pieces:
  assumes "sk_connected s" and "sk_in s = map Got cs @ rest" and "[] \<notin> set cs" and "length (b @ concat cs) < 2 ^ 31"
  shows "recv_body s b (length (b @ concat cs)) = Inr (s\<lparr>sk_in := rest\<rparr>, Some (b @ concat cs))"
proof (cases "concat cs = []")
  case True
  then have "cs = []" using assms(3) by (cases cs) auto
  moreover have "s\<lparr>sk_in := rest\<rparr> = s" using assms(2) \<open>cs = []\<close> by simp
  ultimately show ?thesis by (simp add: recv_body_def)
next
  case False
  let ?n = "length (concat cs)"
  have n: "0 < ?n" using False by (simp only: length_greater_0_conv not_False_eq_True)
  have "readFixSize s (b @ replicate ?n 0) (length b) ?n = Inr (s\<lparr>sk_in := rest\<rparr>, splice (b @ replicate ?n 0) (length b) (concat cs), size_to_int ?n)"
    unfolding readFixSize_def by (rule read_left_all [OF assms(1-3)]) (use assms(4) in simp_all)
  moreover have "splice (b @ replicate ?n 0) (length b) (concat cs) = b @ concat cs" by (simp add: splice_def)
  ultimately show ?thesis using n assms(4) by (simp add: recv_body_def del: length_concat)
qed

lemma content_length:
  assumes "headers_ordered (rq_headers r)" and "rq_body r = [] \<longrightarrow> omap_find CaseInsensitiveLess (lit ''content-length'') (rq_headers r) = None"
    and "cast (dec (length (rq_body r))) = Some (length (rq_body r))"
  shows "request_getContentLength cast \<lparr>qp_parser = p, qp_data = read_back r, qp_error = 0\<rparr> = length (rq_body r)"
  using dumped_headers_back [OF assms(1), of "lit ''content-length''"] assms(2,3) not_connection
  by (auto simp: request_getContentLength_def getAs_def read_back_def casecmp_eq_def)

lemma recvRequest_dumped:
  assumes "good_request r" and "headers_ordered (rq_headers r)"
    and "rq_body r = [] \<longrightarrow> omap_find CaseInsensitiveLess (lit ''content-length'') (rq_headers r) = None"
    and "cast (dec (length (rq_body r))) = Some (length (rq_body r))" and "length (rq_body r) < 2 ^ 31"
    and "sk_connected s" and "delivers (sk_in s) r buff_size rest" and "buff_size < 2 ^ 31"
  shows "recvRequest cast buff_size m0 s = Inr (s\<lparr>sk_in := rest\<rparr>, Some (received r))"
proof -
  obtain b cs where d: "sk_in s = Got (dumped_head r @ [13, 10] @ b) # map Got cs @ rest" "rq_body r = b @ concat cs"
    "[] \<notin> set cs" "length (dumped_head r @ [13, 10] @ b) \<le> buff_size" using assms(7) by (auto simp: delivers_def)
  let ?s = "s\<lparr>sk_in := map Got cs @ rest\<rparr>"
  obtain p where p: "recv_header buff_size s (HttpRequestParser_new m0) [] =
      Inr (?s, Some (\<lparr>qp_parser = p, qp_data = read_back r, qp_error = 0\<rparr>, b))"
    using recv_header_dumped [OF assms(1,6) d(1,4) assms(8)] by blast
  have len: "signed_take_bit 63 (int (length (rq_body r))) = int (length (rq_body r))"
    using assms(5) by (intro signed_take_bit_int_eq_self) auto
  note cl = content_length [of r cast p, OF assms(2-4)]
  show ?thesis
  proof (cases "rq_body r = []")
    case True
    then have "cs = []" "b = []" using d(2,3) by (cases cs; auto)+
    then show ?thesis using p cl True by (simp add: recvRequest_def received_def read_back_def HttpRequest_new_def)
  next
    case False
    have "recv_body ?s b (length (rq_body r)) = Inr (s\<lparr>sk_in := rest\<rparr>, Some (rq_body r))"
      using recv_body_pieces [of ?s cs rest b] assms(5,6) d(2,3) by simp
    then show ?thesis using p cl len False by (simp add: recvRequest_def received_def)
  qed
qed

lemma received_parts:
  "rq_method (received r) = rq_method r" "rq_version (received r) = rq_version r" "rq_path (received r) = rq_path r"
  "rq_query (received r) = rq_query r" "rq_fragment (received r) = rq_fragment r" "rq_body (received r) = rq_body r"
  "rq_headers (received r) = put_fields (dumped_fields r) []"
  by (simp_all add: received_def keep_alive_def read_back_def)

lemma received_header: "getHeader (received r) k def = getHeader (read_back r) k def"
  by (simp add: received_def keep_alive_def getHeader_def)

lemma received_close:
  assumes "headers_ordered (rq_headers r)"
  shows "rq_close (received r) = rq_close r"
proof -
  let ?b = "(read_back r)\<lparr>rq_body := rq_body r\<rparr>"
  have "getHeader ?b (lit ''Connection'') [] = (if rq_close r then lit ''close'' else lit ''keep-alive'')"
    using read_back_header [OF assms, of "lit ''Connection''" "[]"]
    by (simp add: getHeader_def casecmp_eq_def lit_def cstr_def tolower_def)
  then show ?thesis
    by (simp add: received_def keep_alive_def read_back_def HttpRequest_new_def casecmp_eq_def lit_def cstr_def tolower_def)
qed

section \<open>Properties\<close>

text \<open>\<open>boost::lexical_cast\<close> on digits only, for the witnesses.\<close>

definition cast_digits :: "str \<Rightarrow> nat option" where
  "cast_digits s = (if s \<noteq> [] \<and> list_all is_digit s then Some (fold (\<lambda>c n. 10 * n + (unat c - 48)) s 0) else None)"

definition sample_sock :: "sock" where
  "sample_sock = \<lparr>sk_connected = True, sk_in = [Got (dumped_head sample_request @ [13, 10] @ [104]), Got [105], Shut],
     sk_out = [], sk_accepts = []\<rparr>"

lemma sample_cast: "cast_digits (dec (length (rq_body sample_request))) = Some (length (rq_body sample_request))"
  by (simp add: cast_digits_def sample_request_def is_digit_def dec.simps)

lemma sample_length: "length (dumped_head sample_request) \<le> 4000"
proof -
  have "length (request_dump sample_request) \<le> 4000"
    by (simp_all add: sample_request_def HttpRequest_new_def request_dump_def dump_headers_def dump_connection_def
        dump_body_def lit_def crlf_def HttpMethodToString_def http_method_map_def dump_version_def dec.simps casecmp_eq_def cstr_def tolower_def)
  moreover have "rq_version sample_request = 0x11" by (simp add: sample_request_def HttpRequest_new_def)
  ultimately show ?thesis using dump_text [of sample_request] by simp
qed

lemma sample_delivers: "delivers (sk_in sample_sock) sample_request 4096 [Shut]"
  unfolding delivers_def
  by (intro exI [of _ "[104]"] exI [of _ "[[105]]"]) (use sample_length in \<open>simp add: sample_sock_def sample_request_def\<close>)

text \<open>
  C19: A request that dump wrote is received whole: when the header and the first bytes of the body come with
  the first read and the rest of the body in any pieces, \<open>recvRequest\<close> returns a request with the method,
  version, path, query, fragment, headers, body and close flag of the one written, and has read no further.
\<close>

theorem request_received:
  assumes "good_request r" and "headers_ordered (rq_headers r)"
    and "rq_body r = [] \<longrightarrow> omap_find CaseInsensitiveLess (lit ''content-length'') (rq_headers r) = None"
    and "cast (dec (length (rq_body r))) = Some (length (rq_body r))" and "length (rq_body r) < 2 ^ 31"
    and "sk_connected s" and "delivers (sk_in s) r buff_size rest" and "buff_size < 2 ^ 31"
  shows "\<exists>q. recvRequest cast buff_size m0 s = Inr (s\<lparr>sk_in := rest\<rparr>, Some q) \<and>
    rq_method q = rq_method r \<and> rq_version q = rq_version r \<and> rq_path q = rq_path r \<and> rq_query q = rq_query r \<and>
    rq_fragment q = rq_fragment r \<and> rq_body q = rq_body r \<and> rq_close q = rq_close r \<and>
    (\<forall>k def. getHeader q k def =
      (if casecmp_eq k (lit ''content-length'') \<and> rq_body r \<noteq> [] then dec (length (rq_body r))
       else if casecmp_eq k (lit ''connection'') then (if rq_close r then lit ''close'' else lit ''keep-alive'')
       else getHeader r k def))"
  by (intro exI [of _ "received r"] conjI allI)
    (simp_all only: recvRequest_dumped [where cast = cast, OF assms] received_parts received_close [OF assms(2)] received_header
      read_back_header [OF assms(2)])

lemma sample_premises:
  "rq_body sample_request = [] \<longrightarrow> omap_find CaseInsensitiveLess (lit ''content-length'') (rq_headers sample_request) = None"
  "length (rq_body sample_request) < 2 ^ 31" "sk_connected sample_sock" "(4096 :: nat) < 2 ^ 31"
  by (simp_all add: sample_request_def sample_sock_def)

theorem request_received_witness: "\<exists>q. recvRequest cast_digits 4096 fresh_parser sample_sock = Inr (sample_sock\<lparr>sk_in := [Shut]\<rparr>, Some q) \<and>
    rq_body q = rq_body sample_request \<and> rq_close q = rq_close sample_request"
  by (rule exE [OF request_received [where cast = cast_digits and ?m0.0 = fresh_parser, OF sample_good(1,2) sample_premises(1)
      sample_cast sample_premises(2,3) sample_delivers sample_premises(4)]]) blast

text \<open>
  C40: What a failing read does to a body. If the connection is already closed, \<open>readFixSize\<close> reports that the
  whole body was read, with the buffer as it was. If one read fails in the middle of a body, the read behind it
  goes to the byte before and asks for one byte more: it overwrites the last byte received, and the call
  succeeds when it gets that extra byte. At the start of a body the same read stores before the buffer.
\<close>

theorem failed_read_corrupts:
  assumes "0 < len" and "0 < base" and "base + len \<le> length buf" and "length buf < 2 ^ 31"
    and "sk_connected s" and "sk_in s = Failed # Got bs # rest" and "length bs = len + 1"
    and "\<not> sk_connected s'" 
  shows "readFixSize s' buf base len = Inr (s', buf, int len) \<and>
    readFixSize s buf base len = Inr (s\<lparr>sk_in := rest\<rparr>, take (base - 1) buf @ bs @ drop (base + len) buf, int len) \<and>
    readFixSize s buf 0 len = Inl OutOfBuffer"
proof (intro conjI)
  have len: "size_to_int len = int len" "len < 2 ^ 64 - 1" using assms(3,4) by simp_all
  let ?s = "s\<lparr>sk_in := Got bs # rest\<rparr>"
  show "readFixSize s' buf base len = Inr (s', buf, int len)"
    using read_left_disconnected [OF assms(8)] len by (simp add: readFixSize_def)
  have f: "readFixSize s buf b len = read_left ?s buf b (2 ^ 64 - 1) (len + 1) len" for b
    using read_left_Failed [OF assms(5,6,1) len(2)] by (simp add: readFixSize_def)
  have "read_left ?s buf base (2 ^ 64 - 1) (length (concat [bs])) len =
      Inr (?s\<lparr>sk_in := rest\<rparr>, splice buf (base - 1) (concat [bs]), size_to_int len)"
  proof (rule read_left_all)
    have "base + (2 ^ 64 - 1) = (base - 1) + 2 ^ 64" using assms(2) by simp
    then have "(base + (2 ^ 64 - 1)) mod 2 ^ 64 = (base - 1) mod 2 ^ 64" by (metis mod_add_self2)
    then show "(base + (2 ^ 64 - 1)) mod 2 ^ 64 = base - 1" using assms(3,4) by simp
  qed (use assms in auto)
  then show "readFixSize s buf base len = Inr (s\<lparr>sk_in := rest\<rparr>, take (base - 1) buf @ bs @ drop (base + len) buf, int len)"
    unfolding f using assms(2,7) len by (simp add: splice_def)
  have "session_read ?s (len + 1) = Inr (?s\<lparr>sk_in := rest\<rparr>, int (length bs), bs)"
    by (rule session_read_Got) (use assms in simp_all)
  then show "readFixSize s buf 0 len = Inl OutOfBuffer"
    unfolding f using assms(3,4,7) by (subst read_left.simps) auto
qed

theorem failed_read_corrupts_witness:
  "readFixSize \<lparr>sk_connected = True, sk_in = [Failed, Got [3, 4]], sk_out = [], sk_accepts = []\<rparr> [1, 2, 0] 2 1 =
     Inr (\<lparr>sk_connected = True, sk_in = [], sk_out = [], sk_accepts = []\<rparr>, [1, 3, 4], 1)"
  using failed_read_corrupts [of 1 2 "[1, 2, 0]" "\<lparr>sk_connected = True, sk_in = [Failed, Got [3, 4]], sk_out = [], sk_accepts = []\<rparr>"
      "[3, 4]" "[]" "\<lparr>sk_connected = False, sk_in = [], sk_out = [], sk_accepts = []\<rparr>"] by simp

section \<open>The other ends of a body\<close>

text \<open>When the peer closes before the body is complete, the connection is closed and there is no request.\<close>

lemma body_cut_short:
  assumes "sk_connected s" and "sk_in s = map Got cs @ Shut # rest" and "[] \<notin> set cs"
    and "length (b @ concat cs) < len" and "len < 2 ^ 31"
  shows "recv_body s b len = Inr (sock_close (s\<lparr>sk_in := rest\<rparr>), None)"
proof -
  have "read_left s (b @ replicate (len - length b) 0) (length b) 0 (len - length b) (len - length b) =
      Inr (s\<lparr>sk_in := rest\<rparr>, splice (b @ replicate (len - length b) 0) (length b) (concat cs), 0)"
    by (rule read_left_Shut [OF assms(1-3)]) (use assms(4,5) in simp_all)
  then show ?thesis using assms(4) by (simp add: recv_body_def readFixSize_def)
qed

text \<open>What has arrived behind a request without a body is lost.\<close>

lemma pipelined_lost:
  assumes "good_request r" and "headers_ordered (rq_headers r)" and "rq_body r = []"
    and "omap_find CaseInsensitiveLess (lit ''content-length'') (rq_headers r) = None" and "cast (dec 0) = Some 0"
    and "sk_connected s" and "sk_in s = Got (request_dump r @ xs) # rest"
    and "length (request_dump r @ xs) \<le> buff_size" and "buff_size < 2 ^ 31"
  shows "recvRequest cast buff_size m0 s = Inr (s\<lparr>sk_in := rest\<rparr>, Some (received r))"
proof -
  have "rq_version r = 0x10 \<or> rq_version r = 0x11" using assms(1) by (simp add: good_request_def)
  then have t: "request_dump r @ xs = dumped_head r @ [13, 10] @ xs" using dump_text [of r] assms(3) by simp
  obtain p where p: "recv_header buff_size s (HttpRequestParser_new m0) [] =
      Inr (s\<lparr>sk_in := rest\<rparr>, Some (\<lparr>qp_parser = p, qp_data = read_back r, qp_error = 0\<rparr>, xs))"
    using recv_header_dumped [OF assms(1,6) assms(7,8) [unfolded t] assms(9)] by blast
  have "request_getContentLength cast \<lparr>qp_parser = p, qp_data = read_back r, qp_error = 0\<rparr> = 0"
    using content_length [of r cast p, OF assms(2)] assms(3-5) by simp
  then show ?thesis using p assms(3)
    by (simp add: recvRequest_def received_def read_back_def HttpRequest_new_def)
qed

end
