(* ===== verification/HttpServer_Spec.thy ===== *)
theory HttpServer_Spec
  imports HttpServer HttpSession_Spec
begin

text \<open>
  What a client of the HTTP server sees: which servlet answers a path, and the answers to a sequence of
  requests on one connection.
\<close>

section \<open>Dispatch\<close>

lemma getServlet_laws:
  "getServlet (addServlet d uri slt) uri' = (if uri' = uri then slt else getServlet d uri')"
  "getServlet (delServlet d uri) uri' = (if uri' = uri then None else getServlet d uri')"
  by (simp_all add: getServlet_def addServlet_def delServlet_def)

lemma globs_names: "fst ` set (erase_glob uri gs) \<subseteq> fst ` set gs"
  by (induction uri gs rule: erase_glob.induct) auto

lemma erase_glob_distinct: "distinct (map fst gs) \<Longrightarrow> distinct (map fst (erase_glob uri gs)) \<and> uri \<notin> fst ` set (erase_glob uri gs)"
proof (induction uri gs rule: erase_glob.induct)
  case (2 uri k v gs)
  then show ?case using globs_names [of uri gs] by (auto split: if_splits)
qed simp

lemma map_of_erase: "distinct (map fst gs) \<Longrightarrow> map_of (erase_glob uri gs) = (map_of gs)(uri := None)"
proof (induction uri gs rule: erase_glob.induct)
  case (2 uri k v gs)
  then show ?case by (auto simp: fun_eq_iff map_of_eq_None_iff)
qed (simp add: fun_eq_iff)

lemma getGloServlet_laws:
  assumes "distinct (map fst (sd_globs d))"
  shows "getGloServlet (addGloServlet d uri slt) uri' = (if uri' = uri then slt else getGloServlet d uri')"
    and "getGloServlet (delGloServlet d uri) uri' = (if uri' = uri then None else getGloServlet d uri')"
    and "distinct (map fst (sd_globs (addGloServlet d uri slt)))" and "distinct (map fst (sd_globs (delGloServlet d uri)))"
  using map_of_erase [OF assms, of uri] erase_glob_distinct [OF assms, of uri]
  by (auto simp: getGloServlet_def addGloServlet_def delGloServlet_def map_add_def split: option.splits)

text \<open>A path of its own comes before every pattern.\<close>

lemma exact_path_first: "getMatchedServlet fnm (addServlet d uri slt) uri = slt"
  by (simp add: getMatchedServlet_def addServlet_def)

section \<open>Connections\<close>

text \<open>The stream of a client that sends the requests \<open>rs\<close> and then closes.\<close>

fun client :: "nat \<Rightarrow> HttpRequest list \<Rightarrow> arrival list \<Rightarrow> bool" where
  "client buff_size [] es \<longleftrightarrow> es = [Shut]"
| "client buff_size (r # rs) es \<longleftrightarrow> (\<exists>rest. delivers es r buff_size rest \<and> client buff_size rs rest)"

definition proper :: "(str \<Rightarrow> nat option) \<Rightarrow> HttpRequest \<Rightarrow> bool" where
  "proper cast r \<longleftrightarrow> good_request r \<and> headers_ordered (rq_headers r) \<and>
     (rq_body r = [] \<longrightarrow> omap_find CaseInsensitiveLess (lit ''content-length'') (rq_headers r) = None) \<and>
     cast (dec (length (rq_body r))) = Some (length (rq_body r)) \<and> length (rq_body r) < 2 ^ 31"

lemma sendResponse_whole:
  assumes "sk_connected s" and "sk_accepts s = int (length (response_dump rsp)) # ns" and "length (response_dump rsp) < 2 ^ 31"
  shows "\<exists>n. sendResponse s rsp = Inr (s\<lparr>sk_accepts := ns, sk_out := sk_out s @ response_dump rsp\<rparr>, n)"
proof -
  let ?d = "response_dump rsp"
  have d: "?d \<noteq> []" by (simp add: response_dump_def lit_def)
  have "session_write s (slice ?d 0 (length ?d)) =
      Inr (s\<lparr>sk_accepts := ns, sk_out := sk_out s @ ?d\<rparr>, int (length ?d))"
    using assms by (simp add: session_write_def sock_send_def slice_def)
  moreover have "int_to_size (int (length ?d)) = length ?d" using assms(3) by simp
  ultimately show ?thesis using d
    by (auto simp: sendResponse_def writeFixSize_def write_left.simps [of s] write_left.simps [of "s\<lparr>sk_accepts := ns, sk_out := sk_out s @ ?d\<rparr>"])
qed

lemma recv_closed: "sk_connected s \<Longrightarrow> sk_in s = [Shut] \<Longrightarrow>
    recvRequest cast buff_size m0 s = Inr (sock_close (s\<lparr>sk_in := []\<rparr>), None)"
  by (simp add: recvRequest_def session_read_end recv_header.simps [of buff_size s])

definition responses :: "('u \<Rightarrow> HttpRequest \<Rightarrow> HttpResponse \<Rightarrow> HttpResponse) \<Rightarrow> (str \<Rightarrow> str \<Rightarrow> bool) \<Rightarrow>
    'u http_server \<Rightarrow> HttpRequest list \<Rightarrow> str list" where
  "responses user fnm srv rs = map (\<lambda>r. response_dump (answer user fnm srv (received r))) rs"

text \<open>
  C13: A keep-alive client that is well behaved is served. Its requests are proper and do not ask to close; each
  head arrives in one piece, with nothing of the next request behind it, as with a client that waits for the
  response, while the body may come in any pieces; and each send takes its whole response. Then every request is
  answered, in order, each with what its servlet makes of the request as it was written, and nothing else is sent;
  when the client closes, the connection is closed. A client that pipelines is not served like this
  (\<open>pipelined_lost\<close>).
\<close>

theorem keep_alive_served:
  assumes "\<forall>r\<in>set rs. proper cast r \<and> \<not> rq_close r" and "hs_keepalive srv" and "sk_connected s"
    and "client buff_size rs (sk_in s)" and "buff_size < 2 ^ 31"
    and "sk_accepts s = map (\<lambda>t. int (length t)) (responses user fnm srv rs)"
    and "\<forall>t\<in>set (responses user fnm srv rs). length t < 2 ^ 31"
  shows "handleClient user fnm cast buff_size m0 srv s =
    Inr (s\<lparr>sk_connected := False, sk_in := [], sk_accepts := [], sk_out := sk_out s @ concat (responses user fnm srv rs)\<rparr>)"
  using assms
proof (induction rs arbitrary: s)
  case Nil
  then have "sk_in s = [Shut]" "sk_accepts s = []" by (simp_all add: responses_def)
  then show ?case using recv_closed [of s] Nil(3)
    by (subst handleClient.simps) (simp add: sock_close_def responses_def)
next
  case (Cons r rs)
  let ?a = "answer user fnm srv (received r)"
  have "proper cast r" "\<not> rq_close r" using Cons.prems(1) by simp_all
  note p = this(1) [unfolded proper_def] and keep = this(2)
  obtain rest where d: "delivers (sk_in s) r buff_size rest" "client buff_size rs rest" using Cons.prems(4) by auto
  let ?s1 = "s\<lparr>sk_in := rest\<rparr>"
  let ?s2 = "?s1\<lparr>sk_accepts := map (\<lambda>t. int (length t)) (responses user fnm srv rs), sk_out := sk_out s @ response_dump ?a\<rparr>"
  have 1: "recvRequest cast buff_size m0 s = Inr (?s1, Some (received r))"
    using recvRequest_dumped [of r cast s buff_size rest m0] p d(1) Cons.prems(3,5) by simp
  obtain n where 2: "sendResponse ?s1 ?a = Inr (?s2, n)"
    using sendResponse_whole [of ?s1 ?a] Cons.prems(3,6,7) by (auto simp: responses_def)
  have "\<not> rq_close (received r)" using received_close [of r] p keep by simp
  then have "handleClient user fnm cast buff_size m0 srv s = handleClient user fnm cast buff_size m0 srv ?s2"
    using 1 2 Cons.prems(2) by (subst handleClient.simps) simp
  also have "\<dots> = Inr (?s2\<lparr>sk_connected := False, sk_in := [], sk_accepts := [],
      sk_out := sk_out ?s2 @ concat (responses user fnm srv rs)\<rparr>)"
    by (rule Cons.IH) (use Cons.prems d in \<open>simp_all add: responses_def\<close>)
  finally show ?case by (simp add: responses_def)
qed

definition sample_server :: "unit http_server" where
  "sample_server = HttpServer_new True"

abbreviation sample_responses :: "str list" where
  "sample_responses \<equiv> responses (\<lambda>_ _ r. r) (\<lambda>_ _. False) sample_server [sample_request]"

definition sample_client :: "sock" where
  "sample_client = sample_sock\<lparr>sk_accepts := map (\<lambda>t. int (length t)) sample_responses\<rparr>"

lemma sample_answer: "answer (\<lambda>_ _ r. r) (\<lambda>_ _. False) sample_server (received sample_request) =
    NotFound_handle (rs_setHeader (HttpResponse_new 0x11 False) (lit ''Server'') (lit ''co_lib/1.0.0''))"
proof -
  have "rq_close (received sample_request) = False" "rq_version (received sample_request) = 0x11"
    using received_close [OF sample_good(2)] by (simp_all add: received_parts sample_request_def HttpRequest_new_def)
  then show ?thesis
    by (simp add: answer_def dispatch_handle_def getMatchedServlet_def servlet_handle_def sample_server_def
        HttpServer_new_def ServletDispatch_new_def)
qed

lemma sample_response_length: "\<forall>t\<in>set sample_responses. length t < 2 ^ 31"
  by (simp add: responses_def sample_answer NotFound_handle_def response_dump_def rs_setHeader_def HttpResponse_new_def map_set_def
      dump_headers_def dump_connection_def dump_body_def dump_version_def RSP_BODY_def lit_def crlf_def dec.simps
      HttpStatusToString_def http_status_map_def CaseInsensitiveLess_def casecmp_less_def casecmp_eq_def cstr_def tolower_def)

theorem keep_alive_served_witness:
  "handleClient (\<lambda>_ _ r. r) (\<lambda>_ _. False) cast_digits 4096 fresh_parser sample_server sample_client =
    Inr (sample_client\<lparr>sk_connected := False, sk_in := [], sk_accepts := [],
      sk_out := sk_out sample_client @ concat sample_responses\<rparr>)"
proof (rule keep_alive_served)
  show "\<forall>r\<in>set [sample_request]. proper cast_digits r \<and> \<not> rq_close r"
    using sample_good(1,2) sample_cast by (simp add: proper_def) (simp add: sample_request_def HttpRequest_new_def)
  show "client 4096 [sample_request] (sk_in sample_client)"
    using sample_delivers by (simp add: sample_client_def)
  show "\<forall>t\<in>set sample_responses. length t < 2 ^ 31" by (rule sample_response_length)
qed (simp_all add: sample_server_def HttpServer_new_def sample_client_def sample_sock_def)

end
