(* ===== verification/FdManager.thy ===== *)
theory FdManager
  imports Prelude
begin

text \<open>
  \<^verbatim>\<open>src/src/fd_manager.cc\<close> and \<^verbatim>\<open>src/include/fd_manager.h\<close>: what the hooks remember of a
  file descriptor, and the table of it. \<open>stat\<close> says what \<open>fstat\<close> finds (\<open>None\<close> when it fails, else
  whether it is a socket); the flags of a descriptor in the kernel are a function that \<open>fcntl\<close> updates.
\<close>

section \<open>Descriptors\<close>

record fd_ctx =
  x_isInit :: bool
  x_isSocket :: bool
  x_sysNonblock :: bool
  x_userNonblock :: bool
  x_isClosed :: bool
  x_fd :: int
  x_recvTimeout :: u64
  x_sendTimeout :: u64

abbreviation O_NONBLOCK :: "u32" where
  "O_NONBLOCK \<equiv> 2048"

abbreviation SO_RCVTIMEO :: "int" where
  "SO_RCVTIMEO \<equiv> 20"

abbreviation SO_SNDTIMEO :: "int" where
  "SO_SNDTIMEO \<equiv> 21"

type_synonym file_flags = "int \<Rightarrow> u32"

definition set_nonblock :: "file_flags \<Rightarrow> int \<Rightarrow> file_flags" where
  "set_nonblock flags fd = (if and (flags fd) O_NONBLOCK = 0 then flags(fd := or (flags fd) O_NONBLOCK) else flags)"

definition FdCtx_init :: "(int \<Rightarrow> bool option) \<Rightarrow> file_flags \<Rightarrow> fd_ctx \<Rightarrow> fd_ctx \<times> file_flags" where
  "FdCtx_init stat flags c =
     (if x_isInit c then (c, flags)
      else
        let sock = (stat (x_fd c) = Some True) in
        (c\<lparr>x_recvTimeout := -1, x_sendTimeout := -1, x_isInit := stat (x_fd c) \<noteq> None, x_isSocket := sock,
           x_sysNonblock := sock, x_userNonblock := False, x_isClosed := False\<rparr>,
         if sock then set_nonblock flags (x_fd c) else flags))"

definition FdCtx_new :: "(int \<Rightarrow> bool option) \<Rightarrow> file_flags \<Rightarrow> int \<Rightarrow> fd_ctx \<times> file_flags" where
  "FdCtx_new stat flags fd = FdCtx_init stat flags
     \<lparr>x_isInit = False, x_isSocket = False, x_sysNonblock = False, x_userNonblock = False, x_isClosed = False,
      x_fd = fd, x_recvTimeout = -1, x_sendTimeout = -1\<rparr>"

definition setTimeout :: "fd_ctx \<Rightarrow> int \<Rightarrow> u64 \<Rightarrow> fd_ctx" where
  "setTimeout c type v = (if type = SO_RCVTIMEO then c\<lparr>x_recvTimeout := v\<rparr> else c\<lparr>x_sendTimeout := v\<rparr>)"

definition getTimeout :: "fd_ctx \<Rightarrow> int \<Rightarrow> u64" where
  "getTimeout c type = (if type = SO_RCVTIMEO then x_recvTimeout c else x_sendTimeout c)"

section \<open>The table\<close>

text \<open>
  Contexts are shared, so they live in a store and the table holds their addresses. Indexing with a
  negative descriptor is undefined.
\<close>

record fd_manager =
  fm_store :: "nat \<Rightarrow> fd_ctx option"
  fm_datas :: "nat option list"
  fm_flags :: file_flags

datatype fd_error = FdIndex

definition FdManager_new :: "file_flags \<Rightarrow> fd_manager" where
  "FdManager_new flags = \<lparr>fm_store = Map.empty, fm_datas = replicate 64 None, fm_flags = flags\<rparr>"

text \<open>\<open>vector::resize\<close>.\<close>

definition resize :: "nat \<Rightarrow> 'a option list \<Rightarrow> 'a option list" where
  "resize n xs = take n xs @ replicate (n - length xs) None"

text \<open>
  The two critical sections of \<open>get\<close>. The first one returns the result, or \<open>None\<close> when a context has to be
  made; the second one makes it at the address \<open>a\<close>. The new size is the double \<open>fd * 1.5\<close> cut to an integer.
\<close>

definition get_read :: "fd_manager \<Rightarrow> int \<Rightarrow> bool \<Rightarrow> fd_error + nat option option" where
  "get_read m fd auto_create =
     (if size_to_int (length (fm_datas m)) \<le> fd then Inr (if auto_create then None else Some None)
      else if fd < 0 then Inl FdIndex
      else if fm_datas m ! nat fd \<noteq> None \<or> \<not> auto_create then Inr (Some (fm_datas m ! nat fd))
      else Inr None)"

definition get_create :: "(int \<Rightarrow> bool option) \<Rightarrow> fd_manager \<Rightarrow> int \<Rightarrow> nat \<Rightarrow> fd_error + fd_manager" where
  "get_create stat m fd a =
     (let (c, flags) = FdCtx_new stat (fm_flags m) fd;
          datas = (if size_to_int (length (fm_datas m)) \<le> fd then resize (nat (3 * fd div 2)) (fm_datas m) else fm_datas m)
      in if 0 \<le> fd \<and> nat fd < length datas
         then Inr \<lparr>fm_store = (fm_store m)(a \<mapsto> c), fm_datas = datas[nat fd := Some a], fm_flags = flags\<rparr>
         else Inl FdIndex)"

text \<open>\<open>get\<close> when no other thread comes between: the context, if any.\<close>

definition fd_get :: "(int \<Rightarrow> bool option) \<Rightarrow> fd_manager \<Rightarrow> int \<Rightarrow> bool \<Rightarrow> nat \<Rightarrow> fd_error + fd_manager \<times> nat option" where
  "fd_get stat m fd auto_create a =
     (if fd = -1 then Inr (m, None)
      else (case get_read m fd auto_create of Inl e \<Rightarrow> Inl e
        | Inr (Some r) \<Rightarrow> Inr (m, r)
        | Inr None \<Rightarrow> (case get_create stat m fd a of Inl e \<Rightarrow> Inl e | Inr m1 \<Rightarrow> Inr (m1, Some a))))"

definition fd_del :: "fd_manager \<Rightarrow> int \<Rightarrow> fd_error + fd_manager" where
  "fd_del m fd =
     (if size_to_int (length (fm_datas m)) \<le> fd then Inr m
      else if fd < 0 then Inl FdIndex
      else Inr (m\<lparr>fm_datas := (fm_datas m)[nat fd := None]\<rparr>))"

text \<open>The context of a descriptor, as \<open>get\<close> without \<open>auto_create\<close> finds it: its address, and what it holds.\<close>

definition fd_address :: "fd_manager \<Rightarrow> int \<Rightarrow> fd_error + nat option" where
  "fd_address m fd =
     (if fd = -1 then Inr None
      else (case get_read m fd False of Inl e \<Rightarrow> Inl e | Inr None \<Rightarrow> Inr None | Inr (Some r) \<Rightarrow> Inr r))"

definition fd_find :: "fd_manager \<Rightarrow> int \<Rightarrow> fd_error + fd_ctx option" where
  "fd_find m fd =
     (case fd_address m fd of Inl e \<Rightarrow> Inl e | Inr None \<Rightarrow> Inr None | Inr (Some a) \<Rightarrow> Inr (fm_store m a))"

text \<open>A change of the context of a descriptor that \<open>P\<close> holds of, if there is one; and whether there is.\<close>

definition fd_change :: "fd_manager \<Rightarrow> int \<Rightarrow> (fd_ctx \<Rightarrow> bool) \<Rightarrow> (fd_ctx \<Rightarrow> fd_ctx) \<Rightarrow> fd_error + fd_manager \<times> fd_ctx option" where
  "fd_change m fd P f =
     (case fd_address m fd of Inl e \<Rightarrow> Inl e
      | Inr None \<Rightarrow> Inr (m, None)
      | Inr (Some a) \<Rightarrow>
        (case fm_store m a of None \<Rightarrow> Inr (m, None)
         | Some c \<Rightarrow> if P c then Inr (m\<lparr>fm_store := (fm_store m)(a \<mapsto> f c)\<rparr>, Some (f c)) else Inr (m, None)))"

section \<open>Laws\<close>

text \<open>The table keeps at least 64 entries, and no more than \<open>int\<close> can count.\<close>

definition fm_ok :: "fd_manager \<Rightarrow> bool" where
  "fm_ok m \<longleftrightarrow> 64 \<le> length (fm_datas m) \<and> length (fm_datas m) < 2 ^ 31 \<and> (\<forall>a\<in>set (fm_datas m). a = None \<or> fm_store m (the a) \<noteq> None)"

lemma FdManager_new_ok: "fm_ok (FdManager_new flags)"
  by (simp add: fm_ok_def FdManager_new_def)

lemma length_resize [simp]: "length (resize n xs) = n"
  by (simp add: resize_def)

lemma nth_resize: "i < n \<Longrightarrow> resize n xs ! i = (if i < length xs then xs ! i else None)"
  by (simp add: resize_def nth_append)

lemma get_read_ok:
  assumes "fm_ok m" and "0 \<le> fd"
  shows "get_read m fd auto_create = Inr (let e = (if nat fd < length (fm_datas m) then fm_datas m ! nat fd else None) in
    if e = None \<and> auto_create then None else Some e)"
  using assms by (auto simp: get_read_def fm_ok_def Let_def)

lemma get_create_ok:
  assumes "fm_ok m" and "0 \<le> fd" and "fd < 2 ^ 30"
  shows "\<exists>m1. get_create stat m fd a = Inr m1 \<and> fm_ok m1 \<and> fm_store m1 a \<noteq> None \<and>
    (\<forall>i. (if i < length (fm_datas m1) then fm_datas m1 ! i else None) =
      (if i = nat fd then Some a else if i < length (fm_datas m) then fm_datas m ! i else None))"
proof -
  let ?d = "if size_to_int (length (fm_datas m)) \<le> fd then resize (nat (3 * fd div 2)) (fm_datas m) else fm_datas m"
  obtain c flags where c: "FdCtx_new stat (fm_flags m) fd = (c, flags)" by (metis surj_pair)
  let ?m1 = "\<lparr>fm_store = (fm_store m)(a \<mapsto> c), fm_datas = ?d[nat fd := Some a], fm_flags = flags\<rparr>"
  have s: "size_to_int (length (fm_datas m)) = int (length (fm_datas m))" and l: "64 \<le> length (fm_datas m)"
    using assms(1) by (simp_all add: fm_ok_def)
  have d: "nat fd < length ?d" "64 \<le> length ?d" "length ?d < 2 ^ 31" "length (fm_datas m) \<le> length ?d"
    using assms s l by (auto simp: fm_ok_def)
  have nth: "?d ! i = (if i < length (fm_datas m) then fm_datas m ! i else None)" if "i < length ?d" for i
    using that s by (auto simp: nth_resize)
  have "set ?d \<subseteq> insert None (set (fm_datas m))" by (auto simp: resize_def dest: in_set_takeD)
  then have "fm_ok ?m1"
    using assms(1) d(2,3) set_update_subset_insert [of ?d "nat fd" "Some a"] by (fastforce simp: fm_ok_def)
  moreover have "get_create stat m fd a = Inr ?m1" using d(1) assms(2) c by (simp add: get_create_def Let_def)
  moreover have "(if i < length (fm_datas ?m1) then fm_datas ?m1 ! i else None) =
      (if i = nat fd then Some a else if i < length (fm_datas m) then fm_datas m ! i else None)" for i
    using d(1,4) nth [of i] by (auto simp: nth_list_update)
  ultimately show ?thesis by fastforce
qed

end
