(* ===== verification/Hook.thy ===== *)
theory Hook
  imports IOManager FdManager
begin

text \<open>
  \<^verbatim>\<open>src/src/hook.cc\<close>: the system calls as a fiber sees them. A call on a blocking socket tries
  the real, non-blocking call; when that would block, the fiber waits in the I/O manager for the event, with a
  timer if the socket has a timeout, and tries again when it is woken. What the real calls return, with
  \<open>errno\<close>, is an argument of each attempt.
\<close>

section \<open>Data\<close>

abbreviation EINTR :: "int" where "EINTR \<equiv> 4"
abbreviation EBADF :: "int" where "EBADF \<equiv> 9"
abbreviation EAGAIN :: "int" where "EAGAIN \<equiv> 11"
abbreviation ETIMEDOUT :: "int" where "ETIMEDOUT \<equiv> 110"
abbreviation EINPROGRESS :: "int" where "EINPROGRESS \<equiv> 115"

text \<open>
  The callbacks that the hooks give to timers: the lambda of a timeout with its \<open>winfo\<close>, descriptor and
  event, and the binding of \<open>schedule(fiber, -1)\<close>.
\<close>

datatype hook_cb = TimeoutOf nat int u32 | ScheduleFiber nat

text \<open>The state of the process: \<open>hk_infos\<close> holds the \<open>cancelled\<close> of every live \<open>timer_info\<close>.\<close>

record 'k hook =
  hk_io :: "(hook_cb, 'k) iomanager"
  hk_fds :: fd_manager
  hk_infos :: "nat \<Rightarrow> int option"

datatype hook_error = HookIo io_error | HookFd fd_error | HookTimer timer_error

section \<open>Reading and writing\<close>

text \<open>What \<open>do_io\<close> does with a descriptor: the real call alone, \<open>EBADF\<close>, or the loop with a timeout.\<close>

datatype route = PassThrough | Refuse | Managed u64

definition io_route :: "bool \<Rightarrow> fd_manager \<Rightarrow> int \<Rightarrow> int \<Rightarrow> fd_error + route" where
  "io_route hook_enable m fd timeout_so =
     (if \<not> hook_enable then Inr PassThrough
      else (case fd_find m fd of Inl e \<Rightarrow> Inl e
        | Inr None \<Rightarrow> Inr PassThrough
        | Inr (Some ctx) \<Rightarrow>
          if x_isClosed ctx then Inr Refuse
          else if \<not> x_isSocket ctx \<or> x_userNonblock ctx then Inr PassThrough
          else Inr (Managed (getTimeout ctx timeout_so))))"

text \<open>A call in the loop: descriptor, event, timeout, its fiber and its \<open>timer_info\<close>.\<close>

record io_call =
  c_fd :: int
  c_event :: u32
  c_to :: u64
  c_fiber :: nat
  c_info :: nat

text \<open>
  Where the call is: before an attempt, with its timer set but its event not yet added, waiting with its timer, or back with a result and \<open>errno\<close> (\<open>None\<close>
  when that is what a failing \<open>epoll_ctl\<close> left). A \<open>connect\<close> asks for the error of the socket at the end.
\<close>

datatype phase = Trying | Armed "nat option" | Waiting "nat option" | Finished int "int option" | Connecting

definition cancel_timer :: "nat option \<Rightarrow> 'k hook \<Rightarrow> hook_error + 'k hook" where
  "cancel_timer timer h =
     (case timer of None \<Rightarrow> Inr h
      | Some a \<Rightarrow> (case cancel (io_timers (hk_io h)) a of Inl e \<Rightarrow> Inl (HookTimer e)
          | Inr (tm, _) \<Rightarrow> Inr (h\<lparr>hk_io := (hk_io h)\<lparr>io_timers := tm\<rparr>\<rparr>)))"

text \<open>The end of the call: the \<open>timer_info\<close> goes with its only \<open>shared_ptr\<close>.\<close>

definition drop_info :: "io_call \<Rightarrow> 'k hook \<Rightarrow> 'k hook" where
  "drop_info c h = h\<lparr>hk_infos := (hk_infos h)(c_info c := None)\<rparr>"

definition io_begin :: "io_call \<Rightarrow> 'k hook \<Rightarrow> 'k hook" where
  "io_begin c h = h\<lparr>hk_infos := (hk_infos h)(c_info c \<mapsto> 0)\<rparr>"

text \<open>The timer, if there is a timeout; \<open>a\<close> is its address. It may fire before the event is added.\<close>

definition start_wait :: "io_call \<Rightarrow> u64 \<Rightarrow> nat \<Rightarrow> 'k hook \<Rightarrow> 'k hook \<times> nat option" where
  "start_wait c now a h =
     (if c_to c \<noteq> -1
      then (h\<lparr>hk_io := io_addConditionTimer (hk_io h) a now (c_to c) (TimeoutOf (c_info c) (c_fd c) (c_event c)) (c_info c) False\<rparr>,
            Some a)
      else (h, None))"

text \<open>One real call with result \<open>n\<close> and \<open>errno\<close>.\<close>

definition io_attempt :: "io_call \<Rightarrow> u64 \<Rightarrow> nat \<Rightarrow> int \<Rightarrow> int \<Rightarrow> 'k hook \<Rightarrow> 'k hook \<times> phase" where
  "io_attempt c now a n errno h =
     (if n = -1 \<and> errno = EINTR then (h, Trying)
      else if n = -1 \<and> errno = EAGAIN then (let (h2, timer) = start_wait c now a h in (h2, Armed timer))
      else (drop_info c h, Finished n (if n = -1 then Some errno else None)))"

text \<open>\<open>addEvent\<close> for the running fiber; when it fails, the timer is taken back and the call is over.\<close>

definition io_register :: "'k epoll_ctl \<Rightarrow> io_call \<Rightarrow> nat option \<Rightarrow> 'k hook \<Rightarrow> hook_error + 'k hook \<times> phase" where
  "io_register ctl c timer h =
     (case addEvent ctl (hk_io h) (c_fd c) (c_event c) None True (c_fiber c) True of Inl e \<Rightarrow> Inl (HookIo e)
      | Inr (io2, rt) \<Rightarrow>
        let h2 = h\<lparr>hk_io := io2\<rparr> in
        if rt \<noteq> 0 then
          (case cancel_timer timer h2 of Inl e \<Rightarrow> Inl e | Inr h3 \<Rightarrow> Inr (drop_info c h3, Finished (-1) None))
        else Inr (h2, Waiting timer))"

text \<open>Behind \<open>YieldToHold\<close>, when the fiber runs again.\<close>

definition io_resume :: "io_call \<Rightarrow> nat option \<Rightarrow> 'k hook \<Rightarrow> hook_error + 'k hook \<times> phase" where
  "io_resume c timer h =
     (case cancel_timer timer h of Inl e \<Rightarrow> Inl e
      | Inr h1 \<Rightarrow> (case hk_infos h1 (c_info c) of
          Some v \<Rightarrow> if v \<noteq> 0 then Inr (drop_info c h1, Finished (-1) (Some v)) else Inr (h1, Trying)
        | None \<Rightarrow> Inr (h1, Trying)))"

text \<open>The lambda of the timer, as the scheduler runs it through \<open>OnTimer\<close>.\<close>

definition io_timeout :: "'k epoll_ctl \<Rightarrow> hook_cb callback \<Rightarrow> 'k hook \<Rightarrow> hook_error + 'k hook" where
  "io_timeout ctl cb h =
     (case run_callback (\<lambda>i. hk_infos h i \<noteq> None) cb of
        TimeoutOf i fd event # _ \<Rightarrow>
          if hk_infos h i \<noteq> Some 0 then Inr h
          else (case cancelEvent ctl (hk_io h) fd event of Inl e \<Rightarrow> Inl (HookIo e)
            | Inr (io1, _) \<Rightarrow> Inr (h\<lparr>hk_infos := (hk_infos h)(i \<mapsto> ETIMEDOUT), hk_io := io1\<rparr>))
      | ScheduleFiber f # _ \<Rightarrow> Inr (h\<lparr>hk_io := io_schedule (hk_io h) (fiber_task f (-1))\<rparr>)
      | [] \<Rightarrow> Inr h)"

section \<open>Sleeping\<close>

text \<open>The milliseconds of the timers: \<open>unsigned\<close>, \<open>useconds_t\<close> and \<open>int\<close> become \<open>uint64_t\<close>.\<close>

definition sleep_ms :: "u32 \<Rightarrow> u64" where
  "sleep_ms seconds = ucast (seconds * 1000)"

definition usleep_ms :: "u32 \<Rightarrow> u64" where
  "usleep_ms usec = ucast (usec div 1000)"

text \<open>The division of C by 1000, which rounds to zero.\<close>

definition quot1000 :: "int \<Rightarrow> int" where
  "quot1000 t = (if t < 0 then - (- t div 1000) else t div 1000)"

text \<open>\<open>tv_sec * 1000 + tv_nsec / 1000 / 1000\<close> as an \<open>int\<close>, divided by 1000 again.\<close>

definition nanosleep_timeout :: "int \<Rightarrow> int \<Rightarrow> int" where
  "nanosleep_timeout tv_sec tv_nsec = signed_take_bit 31 (tv_sec * 1000 + quot1000 (quot1000 tv_nsec))"

definition nanosleep_ms :: "int \<Rightarrow> int \<Rightarrow> u64" where
  "nanosleep_ms tv_sec tv_nsec =
     (let t = nanosleep_timeout tv_sec tv_nsec in of_int (quot1000 t))"

text \<open>The sleeping calls up to \<open>YieldToHold\<close>: a timer that schedules the fiber.\<close>

definition sleep_for :: "u64 \<Rightarrow> nat \<Rightarrow> u64 \<Rightarrow> nat \<Rightarrow> 'k hook \<Rightarrow> 'k hook" where
  "sleep_for ms a now fiber h = h\<lparr>hk_io := io_addTimer (hk_io h) a now ms (Some (Direct (ScheduleFiber fiber))) False\<rparr>"

section \<open>Sockets\<close>

text \<open>\<open>socket\<close> and \<open>accept\<close> behind the real call, with its descriptor: a context is made for it.\<close>

definition socket_hook :: "bool \<Rightarrow> (int \<Rightarrow> bool option) \<Rightarrow> int \<Rightarrow> nat \<Rightarrow> 'k hook \<Rightarrow> hook_error + 'k hook" where
  "socket_hook hook_enable stat fd a h =
     (if \<not> hook_enable \<or> fd = -1 then Inr h
      else (case fd_get stat (hk_fds h) fd True a of Inl e \<Rightarrow> Inl (HookFd e)
        | Inr (m, _) \<Rightarrow> Inr (h\<lparr>hk_fds := m\<rparr>)))"

definition accept_hook :: "(int \<Rightarrow> bool option) \<Rightarrow> int \<Rightarrow> nat \<Rightarrow> 'k hook \<Rightarrow> hook_error + 'k hook" where
  "accept_hook stat fd a h =
     (if 0 \<le> fd
      then (case fd_get stat (hk_fds h) fd True a of Inl e \<Rightarrow> Inl (HookFd e)
        | Inr (m, _) \<Rightarrow> Inr (h\<lparr>hk_fds := m\<rparr>))
      else Inr h)"

text \<open>\<open>close\<close> before the real call; \<open>has_iom\<close> says whether the thread has an I/O manager.\<close>

definition close_hook :: "'k epoll_ctl \<Rightarrow> bool \<Rightarrow> bool \<Rightarrow> int \<Rightarrow> 'k hook \<Rightarrow> hook_error + 'k hook" where
  "close_hook ctl hook_enable has_iom fd h =
     (if \<not> hook_enable then Inr h
      else (case fd_find (hk_fds h) fd of Inl e \<Rightarrow> Inl (HookFd e)
        | Inr None \<Rightarrow> Inr h
        | Inr (Some ctx) \<Rightarrow>
          (case (if has_iom then cancelAll ctl (hk_io h) fd else Inr (hk_io h, False)) of Inl e \<Rightarrow> Inl (HookIo e)
           | Inr (io1, _) \<Rightarrow> (case fd_del (hk_fds h) fd of Inl e \<Rightarrow> Inl (HookFd e)
               | Inr m \<Rightarrow> Inr (h\<lparr>hk_io := io1, hk_fds := m\<rparr>)))))"

text \<open>
  \<open>connect_with_timeout\<close>: the route, the real call, the way on when the fiber runs again, and the error of
  the socket, as \<open>getsockopt\<close> gives it with its own result and \<open>errno\<close>.
\<close>

definition connect_route :: "bool \<Rightarrow> fd_manager \<Rightarrow> int \<Rightarrow> u64 \<Rightarrow> fd_error + route" where
  "connect_route hook_enable m fd timeout_ms =
     (if \<not> hook_enable then Inr PassThrough
      else (case fd_find m fd of Inl e \<Rightarrow> Inl e
        | Inr None \<Rightarrow> Inr Refuse
        | Inr (Some ctx) \<Rightarrow>
          if x_isClosed ctx then Inr Refuse
          else if \<not> x_isSocket ctx \<or> x_userNonblock ctx then Inr PassThrough
          else Inr (Managed timeout_ms)))"

definition connect_attempt :: "io_call \<Rightarrow> u64 \<Rightarrow> nat \<Rightarrow> int \<Rightarrow> int \<Rightarrow> 'k hook \<Rightarrow> 'k hook \<times> phase" where
  "connect_attempt c now a n errno h =
     (if n = 0 then (drop_info c h, Finished 0 None)
      else if n \<noteq> -1 \<or> errno \<noteq> EINPROGRESS then (drop_info c h, Finished n (if n = -1 then Some errno else None))
      else (let (h2, timer) = start_wait c now a h in (h2, Armed timer)))"

definition connect_register :: "'k epoll_ctl \<Rightarrow> io_call \<Rightarrow> nat option \<Rightarrow> 'k hook \<Rightarrow> hook_error + 'k hook \<times> phase" where
  "connect_register ctl c timer h =
     (case addEvent ctl (hk_io h) (c_fd c) (c_event c) None True (c_fiber c) True of Inl e \<Rightarrow> Inl (HookIo e)
      | Inr (io2, rt) \<Rightarrow>
        let h2 = h\<lparr>hk_io := io2\<rparr> in
        if rt = 0 then Inr (h2, Waiting timer)
        else (case cancel_timer timer h2 of Inl e \<Rightarrow> Inl e | Inr h3 \<Rightarrow> Inr (h3, Connecting)))"

definition connect_resume :: "io_call \<Rightarrow> nat option \<Rightarrow> 'k hook \<Rightarrow> hook_error + 'k hook \<times> phase" where
  "connect_resume c timer h =
     (case io_resume c timer h of Inl e \<Rightarrow> Inl e
      | Inr (h1, ph) \<Rightarrow> Inr (h1, if ph = Trying then Connecting else ph))"

definition connect_check :: "io_call \<Rightarrow> int \<Rightarrow> int \<Rightarrow> int \<Rightarrow> 'k hook \<Rightarrow> 'k hook \<times> phase" where
  "connect_check c rt errno error h =
     (drop_info c h, if rt = -1 then Finished (-1) (Some errno)
       else if error = 0 then Finished 0 None else Finished (-1) (Some error))"

section \<open>Options\<close>

text \<open>
  The commands of \<open>fcntl\<close> that the code tells apart; the argument is a raw 64-bit value, which is read as an
  \<open>int\<close> or as a pointer.
\<close>

datatype fcntl_cmd = F_SETFL | F_GETFL | F_DUPFD | F_DUPFD_CLOEXEC | F_SETFD | F_SETOWN | F_SETSIG | F_SETLEASE
  | F_NOTIFY | F_SETPIPE_SZ | F_GETFD | F_GETOWN | F_GETSIG | F_GETLEASE | F_GETPIPE_SZ | F_SETLK | F_SETLKW | F_GETLK
  | F_GETOWN_EX | F_SETOWN_EX | F_OTHER

definition managed :: "fd_ctx \<Rightarrow> bool" where
  "managed ctx \<longleftrightarrow> \<not> x_isClosed ctx \<and> x_isSocket ctx"

text \<open>What the real \<open>fcntl\<close> gets: an argument, or none.\<close>

definition fcntl_hook :: "fd_manager \<Rightarrow> int \<Rightarrow> fcntl_cmd \<Rightarrow> u64 \<Rightarrow> fd_error + fd_manager \<times> u64 option" where
  "fcntl_hook m fd cmd arg0 =
     (case cmd of
        F_SETFL \<Rightarrow>
          let arg = (ucast arg0 :: u32) in
          (case fd_change m fd managed (\<lambda>ctx. ctx\<lparr>x_userNonblock := and arg O_NONBLOCK \<noteq> 0\<rparr>) of Inl e \<Rightarrow> Inl e
           | Inr (m1, None) \<Rightarrow> Inr (m1, Some (ucast arg))
           | Inr (m1, Some ctx) \<Rightarrow>
               Inr (m1, Some (ucast (if x_sysNonblock ctx then or arg O_NONBLOCK else and arg (not O_NONBLOCK)))))
      | F_SETLK \<Rightarrow> Inr (m, Some arg0) | F_SETLKW \<Rightarrow> Inr (m, Some arg0) | F_GETLK \<Rightarrow> Inr (m, Some arg0)
      | F_GETOWN_EX \<Rightarrow> Inr (m, Some arg0) | F_SETOWN_EX \<Rightarrow> Inr (m, Some arg0)
      | _ \<Rightarrow> Inr (m, None))"

text \<open>The result, from that of the real call.\<close>

definition fcntl_result :: "fd_manager \<Rightarrow> int \<Rightarrow> fcntl_cmd \<Rightarrow> u32 \<Rightarrow> fd_error + u32" where
  "fcntl_result m fd cmd r =
     (if cmd = F_GETFL then
        (case fd_find m fd of Inl e \<Rightarrow> Inl e
         | Inr None \<Rightarrow> Inr r
         | Inr (Some ctx) \<Rightarrow>
             Inr (if \<not> managed ctx then r
               else if x_userNonblock ctx then or r O_NONBLOCK else and r (not O_NONBLOCK)))
      else Inr r)"

text \<open>\<open>ioctl\<close> before the real call; \<open>value\<close> is the \<open>int\<close> that the argument points to.\<close>

definition ioctl_hook :: "fd_manager \<Rightarrow> int \<Rightarrow> bool \<Rightarrow> int \<Rightarrow> fd_error + fd_manager" where
  "ioctl_hook m d is_FIONBIO value =
     (if is_FIONBIO
      then (case fd_change m d managed (\<lambda>ctx. ctx\<lparr>x_userNonblock := (value \<noteq> 0)\<rparr>) of Inl e \<Rightarrow> Inl e
        | Inr (m1, _) \<Rightarrow> Inr m1)
      else Inr m)"

text \<open>\<open>setsockopt\<close> before the real call, for the two timeouts at the level of the socket.\<close>

definition setsockopt_hook :: "bool \<Rightarrow> fd_manager \<Rightarrow> int \<Rightarrow> bool \<Rightarrow> int \<Rightarrow> int \<Rightarrow> int \<Rightarrow> fd_error + fd_manager" where
  "setsockopt_hook hook_enable m fd sol_socket optname tv_sec tv_usec =
     (if \<not> hook_enable \<or> \<not> sol_socket \<or> optname \<noteq> SO_RCVTIMEO \<and> optname \<noteq> SO_SNDTIMEO then Inr m
      else (case fd_change m fd (\<lambda>_. True)
              (\<lambda>ctx. setTimeout ctx optname (of_int (tv_sec * 1000 + quot1000 tv_usec))) of
            Inl e \<Rightarrow> Inl e | Inr (m1, _) \<Rightarrow> Inr m1))"

end
