(* ===== verification/Hook_Spec.thy ===== *)
theory Hook_Spec
  imports Hook IOManager_Spec Timer_Spec
begin

text \<open>
  A hooked call among everything else that happens in the process: it keeps the promise of a blocking
  call, and leaves no timer behind.
\<close>

section \<open>Timers\<close>

text \<open>No operation gives a timer a callback but \<open>addTimer\<close>.\<close>

definition cbs_shrink :: "'cb timer_manager \<Rightarrow> 'cb timer_manager \<Rightarrow> bool" where
  "cbs_shrink m m' \<longleftrightarrow> (\<forall>a. (tm_store m' a = None \<longleftrightarrow> tm_store m a = None) \<and> (cb_of m' a = cb_of m a \<or> cb_of m' a = None))"

lemma cbs_shrink_refl: "cbs_shrink m m"
  by (simp add: cbs_shrink_def)

lemma cbs_shrink_trans: "cbs_shrink m1 m2 \<Longrightarrow> cbs_shrink m2 m3 \<Longrightarrow> cbs_shrink m1 m3"
  unfolding cbs_shrink_def by metis

lemma fire_all_shrink: "cbs_shrink m (fst (fire_all now as m))"
proof (induction as arbitrary: m)
  case (Cons a as)
  show ?case
  proof (cases "tm_store m a")
    case (Some t)
    let ?m = "if t_recurring t
        then let st = (tm_store m)(a \<mapsto> t\<lparr>t_next := now + t_ms t\<rparr>)
             in m\<lparr>tm_store := st, m_timers := oset_insert (timer_lt st) a (m_timers m)\<rparr>
        else m\<lparr>tm_store := (tm_store m)(a \<mapsto> t\<lparr>t_cb := None\<rparr>)\<rparr>"
    have "cbs_shrink m ?m" using Some by (auto simp: cbs_shrink_def cb_of_def Let_def)
    then show ?thesis using Cons.IH [of ?m] Some cbs_shrink_trans by (fastforce simp: Let_def)
  qed (simp add: Cons.IH)
qed (simp add: cbs_shrink_refl)

lemma listExpiredCb_shrink: "listExpiredCb m now tmp = (m', cbs) \<Longrightarrow> cbs_shrink m m'"
proof -
  assume e: "listExpiredCb m now tmp = (m', cbs)"
  have "cbs_shrink m (fst (fire_all now as (fst (detectClockRollover m now)\<lparr>m_timers := rest\<rparr>)))" for as rest
    using fire_all_shrink [of "fst (detectClockRollover m now)\<lparr>m_timers := rest\<rparr>" now as]
    by (simp add: cbs_shrink_def cb_of_def detectClockRollover_def)
  then show ?thesis using e cbs_shrink_refl
    by (auto simp: listExpiredCb_def split: if_splits prod.splits) (metis fst_conv)
qed

lemma cancel_shrink: "cancel m a = Inr (m', b) \<Longrightarrow> cbs_shrink m m' \<and> cb_of m' a = None"
  by (auto simp: cancel_def cbs_shrink_def cb_of_def split: option.splits if_splits)

lemma fire_timers: "fire io i event = Inr io1 \<Longrightarrow> io_timers io1 = io_timers io"
  by (auto simp: fire_def Let_def split: sum.splits)

lemma fire_if_timers: "fire_if b i event io = Inr io1 \<Longrightarrow> io_timers io1 = io_timers io"
  by (auto simp: fire_if_def fire_timers split: if_splits)

lemma fire_both_timers: "fire_both r w i io = Inr io1 \<Longrightarrow> io_timers io1 = io_timers io"
  by (auto simp: fire_both_def dest!: fire_if_timers split: sum.splits)

lemma addEvent_on_timers: "addEvent_on ctl io i event cb sched cur ex = Inr (io1, rt) \<Longrightarrow> io_timers io1 = io_timers io"
  by (auto simp: addEvent_on_def Let_def split: sum.splits option.splits if_splits)

lemma addEvent_timers: "addEvent ctl io fd event cb sched cur ex = Inr (io1, rt) \<Longrightarrow> io_timers io1 = io_timers io"
  by (auto simp: addEvent_def addEvent_look_def addEvent_grow_def map_sum_Inr Let_def dest!: addEvent_on_timers
      split: sum.splits option.splits if_splits)

lemma cancelEvent_timers: "cancelEvent ctl io fd event = Inr (io1, b) \<Longrightarrow> io_timers io1 = io_timers io"
  by (auto simp: cancelEvent_def Let_def dest!: fire_timers split: sum.splits option.splits if_splits)

lemma io_step_timers:
  assumes "io_step ctl (io, cs) op = Inr (io1, cs1)"
  shows "io_timers io1 = io_timers io"
proof (cases op)
  case (AddLook t a)
  then show ?thesis using assms by (auto simp: map_sum_Inr split: if_splits)
next
  case (AddGrow t)
  then show ?thesis using assms by (auto simp: addEvent_grow_def map_sum_Inr Let_def split: option.splits)
next
  case (AddOn t)
  then show ?thesis using assms by (auto simp: map_sum_Inr dest: addEvent_on_timers split: option.splits if_splits)
next
  case (DelEvent fd event)
  then show ?thesis using assms by (auto simp: map_sum_Inr delEvent_def Let_def split: sum.splits option.splits if_splits)
next
  case (CancelEvent fd event)
  then show ?thesis using assms by (auto simp: map_sum_Inr dest: cancelEvent_timers)
next
  case (CancelAll fd)
  then show ?thesis using assms
    by (auto simp: map_sum_Inr cancelAll_def Let_def dest!: fire_both_timers split: sum.splits option.splits if_splits)
next
  case (Ready i flags)
  then show ?thesis using assms
    by (auto simp: map_sum_Inr handle_ready_def Let_def dest!: fire_both_timers split: sum.splits option.splits if_splits)
qed (use assms in auto)

section \<open>The process around a call\<close>

text \<open>
  The steps of a call, and what happens between them: callbacks of timers run (those of this call and of others),
  timers expire and become tasks, other fibers add and cancel events, the kernel reports events, and other fibers
  and calls have timers and \<open>timer_info\<close>s of their own. New timers have new addresses.
\<close>

definition own :: "io_call \<Rightarrow> hook_cb callback option \<Rightarrow> bool" where
  "own c cb \<longleftrightarrow> (\<exists>x. cb = Some (Guarded (c_info c) x))"

abbreviation timers :: "'k hook \<Rightarrow> hook_cb timer_manager" where
  "timers h \<equiv> io_timers (hk_io h)"

fun timer_of :: "phase \<Rightarrow> nat option" where
  "timer_of (Armed timer) = timer"
| "timer_of (Waiting timer) = timer"
| "timer_of _ = None"

inductive hook_step :: "'k epoll_ctl \<Rightarrow> io_call \<Rightarrow> 'k hook \<times> phase \<Rightarrow> 'k hook \<times> phase \<Rightarrow> bool" for ctl c where
  Attempt: "tm_store (timers h) a = None \<Longrightarrow> io_attempt c now a n errno h = (h', p) \<Longrightarrow>
    hook_step ctl c (h, Trying) (h', p)"
| Register: "io_register ctl c timer h = Inr (h', p) \<Longrightarrow> hook_step ctl c (h, Armed timer) (h', p)"
| Resume: "io_resume c timer h = Inr (h', p) \<Longrightarrow> hook_step ctl c (h, Waiting timer) (h', p)"
| Callback: "io_timeout ctl cb h = Inr h' \<Longrightarrow> hook_step ctl c (h, p) (h', p)"
| Expire: "listExpiredCb (timers h) now tmp = (tm, cbs) \<Longrightarrow> tm_store (timers h) tmp = None \<Longrightarrow>
    h' = h\<lparr>hk_io := io_schedule_range ((hk_io h)\<lparr>io_timers := tm\<rparr>) (map (\<lambda>cb. cb_task cb (-1)) cbs)\<rparr> \<Longrightarrow>
    hook_step ctl c (h, p) (h', p)"
| Events: "io_step ctl (hk_io h, cs) op = Inr (io1, cs1) \<Longrightarrow> hook_step ctl c (h, p) (h\<lparr>hk_io := io1\<rparr>, p)"
| OtherTimer: "tm_store (timers h) a = None \<Longrightarrow> \<not> own c cb \<Longrightarrow>
    hook_step ctl c (h, p) (h\<lparr>hk_io := io_addTimer (hk_io h) a now ms cb recurring\<rparr>, p)"
| OtherCancel: "cancel (timers h) a = Inr (tm, b) \<Longrightarrow> timer_of p \<noteq> Some a \<Longrightarrow>
    hook_step ctl c (h, p) (h\<lparr>hk_io := (hk_io h)\<lparr>io_timers := tm\<rparr>\<rparr>, p)"
| OtherInfo: "i \<noteq> c_info c \<Longrightarrow> hook_step ctl c (h, p) (h\<lparr>hk_infos := (hk_infos h)(i := v)\<rparr>, p)"

text \<open>A timer of the call exists only while the call is about to wait or waits, and its \<open>timer_info\<close> only until it is back.\<close>

definition call_inv :: "io_call \<Rightarrow> 'k hook \<Rightarrow> phase \<Rightarrow> bool" where
  "call_inv c h p \<longleftrightarrow> tm_inv (timers h) \<and>
     (\<forall>a. own c (cb_of (timers h) a) \<longrightarrow> timer_of p = Some a) \<and>
     (\<forall>a. timer_of p = Some a \<longrightarrow> tm_store (timers h) a \<noteq> None) \<and>
     (case p of Finished n e \<Rightarrow> hk_infos h (c_info c) = None \<and> \<not> (n = -1 \<and> (e = Some EAGAIN \<or> e = Some EINTR))
      | _ \<Rightarrow> hk_infos h (c_info c) = Some 0 \<or> hk_infos h (c_info c) = Some ETIMEDOUT)"

lemma io_schedule_range_timers: "io_timers (io_schedule_range io fts) = io_timers io"
  by (simp add: io_schedule_range_def tickle_def split_beta Let_def)

lemma io_addTimer_timers: "io_timers (io_addTimer io a now ms cb recurring) = fst (addTimer (io_timers io) a now ms cb recurring)"
  by (simp add: io_addTimer_def onTimerInsertedAtFront_def tickle_def split_beta Let_def)

lemma addTimer_cbs:
  "tm_store (fst (addTimer m a now ms cb recurring)) = (tm_store m)(a \<mapsto> Timer_new now ms cb recurring)"
  by (simp add: addTimer_def insertTimer_def Let_def)

lemma own_shrink: "cbs_shrink m m' \<Longrightarrow> own c (cb_of m' a) \<Longrightarrow> own c (cb_of m a)"
  unfolding cbs_shrink_def own_def by (metis option.distinct(1))

lemma call_inv_shrink:
  assumes "call_inv c h p" and "cbs_shrink (timers h) (timers h')" and "tm_inv (timers h')" and "hk_infos h' (c_info c) = hk_infos h (c_info c)"
  shows "call_inv c h' p"
proof -
  have "tm_store (timers h') a \<noteq> None" if "tm_store (timers h) a \<noteq> None" for a
    using assms(2) that by (simp add: cbs_shrink_def)
  moreover have "own c (cb_of (timers h) a)" if "own c (cb_of (timers h') a)" for a
    using own_shrink [OF assms(2) that] .
  ultimately show ?thesis using assms(1,3,4) unfolding call_inv_def by metis
qed

lemma cancel_timer_shrink:
  assumes "cancel_timer timer h = Inr h'" and "tm_inv (timers h)"
  shows "cbs_shrink (timers h) (timers h') \<and> tm_inv (timers h') \<and> hk_infos h' = hk_infos h \<and>
    (\<forall>a. timer = Some a \<longrightarrow> cb_of (timers h') a = None)"
  using assms cancel_shrink [of "timers h"] cancel_cases [of "timers h"]
  by (auto simp: cancel_timer_def cbs_shrink_refl split: option.splits sum.splits)

lemma start_wait_timers:
  assumes "start_wait c now a h = (h', timer)" and "tm_inv (timers h)" and "tm_store (timers h) a = None"
    and "\<forall>b. \<not> own c (cb_of (timers h) b)"
  shows "tm_inv (timers h') \<and> hk_infos h' = hk_infos h \<and> (\<forall>b. own c (cb_of (timers h') b) \<longrightarrow> timer = Some b) \<and>
    (\<forall>b. timer = Some b \<longrightarrow> tm_store (timers h') b \<noteq> None)"
proof (cases "c_to c = -1")
  case True
  then show ?thesis using assms by (auto simp: start_wait_def)
next
  case False
  let ?io = "io_addConditionTimer (hk_io h) a now (c_to c) (TimeoutOf (c_info c) (c_fd c) (c_event c)) (c_info c) False"
  have t: "io_timers ?io = fst (addTimer (timers h) a now (c_to c) (Some (Guarded (c_info c) (TimeoutOf (c_info c) (c_fd c) (c_event c)))) False)"
    by (simp add: io_addConditionTimer_def io_addTimer_timers)
  have h': "timers h' = io_timers ?io" "hk_infos h' = hk_infos h" "timer = Some a"
    using assms(1) False by (auto simp: start_wait_def)
  have "own c (cb_of (timers h') b) \<Longrightarrow> b = a" for b
    using assms(4) by (auto simp: h'(1) t cb_of_def addTimer_cbs split: if_splits)
  then show ?thesis using addTimer_inv [OF assms(2,3)] by (auto simp: h' t addTimer_cbs)
qed

lemma listExpiredCb_inv:
  assumes "listExpiredCb m now tmp = (m', cbs)" and "tm_inv m" and "tm_store m tmp = None"
  shows "tm_inv m'"
proof -
  obtain E R where "expired_split m now tmp = (E, R)" by (metis surj_pair)
  from listExpiredCb_effect(4) [OF assms(2,3) this] show ?thesis using assms(1) by simp
qed

lemma no_own_waits: "call_inv c h p \<Longrightarrow> timer_of p = None \<Longrightarrow> \<not> own c (cb_of (timers h) a)"
  by (auto simp: call_inv_def)

text \<open>The end of a call whose timer is gone.\<close>

lemma finish_inv:
  assumes "tm_inv (timers h)" and "\<forall>a. \<not> own c (cb_of (timers h) a)" and "\<not> (n = -1 \<and> (e = Some EAGAIN \<or> e = Some EINTR))"
  shows "call_inv c (drop_info c h) (Finished n e)"
  using assms by (auto simp: call_inv_def drop_info_def)

lemma cancel_timer_done:
  assumes "cancel_timer timer h = Inr h'" and "tm_inv (timers h)" and "\<forall>a. own c (cb_of (timers h) a) \<longrightarrow> timer = Some a"
  shows "tm_inv (timers h') \<and> (\<forall>a. \<not> own c (cb_of (timers h') a)) \<and> hk_infos h' = hk_infos h"
proof -
  note s = cancel_timer_shrink [OF assms(1,2)]
  have "\<not> own c (cb_of (timers h') a)" for a
  proof
    assume o: "own c (cb_of (timers h') a)"
    then have "timer = Some a" using own_shrink s assms(3) by blast
    then have "cb_of (timers h') a = None" using s by blast
    then show False using o by (simp add: own_def)
  qed
  then show ?thesis using s by blast
qed

lemma io_attempt_inv:
  assumes "io_attempt c now a n errno h = (h', p)" and "call_inv c h Trying" and "tm_store (timers h) a = None"
  shows "call_inv c h' p"
proof -
  have i: "tm_inv (timers h)" and o: "\<forall>b. \<not> own c (cb_of (timers h) b)"
    using assms(2) no_own_waits [OF assms(2)] by (simp_all add: call_inv_def)
  consider (eintr) "n = -1" "errno = EINTR" | (again) "n = -1" "errno = EAGAIN" | (other) "\<not> (n = -1 \<and> (errno = EINTR \<or> errno = EAGAIN))"
    by blast
  then show ?thesis
  proof cases
    case eintr
    then show ?thesis using assms(1,2) by (simp add: io_attempt_def)
  next
    case again
    then obtain timer where w: "start_wait c now a h = (h', timer)" "p = Armed timer"
      using assms(1) by (auto simp: io_attempt_def split: prod.splits)
    then show ?thesis using start_wait_timers [OF w(1) i assms(3) o] assms(2) by (auto simp: call_inv_def)
  next
    case other
    then have "h' = drop_info c h" "p = Finished n (if n = -1 then Some errno else None)"
      using assms(1) by (auto simp: io_attempt_def)
    then show ?thesis using finish_inv [OF i o] other by auto
  qed
qed

lemma io_register_inv:
  assumes "io_register ctl c timer h = Inr (h', p)" and "call_inv c h (Armed timer)"
  shows "call_inv c h' p"
proof -
  obtain io2 rt where r: "addEvent ctl (hk_io h) (c_fd c) (c_event c) None True (c_fiber c) True = Inr (io2, rt)"
    using assms(1) by (auto simp: io_register_def split: sum.splits)
  let ?h = "h\<lparr>hk_io := io2\<rparr>"
  have t: "timers ?h = timers h" using addEvent_timers [OF r] by simp
  have inv: "call_inv c ?h (Armed timer)"
    by (rule call_inv_shrink [OF assms(2)]) (use assms(2) t cbs_shrink_refl in \<open>auto simp: call_inv_def\<close>)
  show ?thesis
  proof (cases "rt = 0")
    case True
    then have "h' = ?h" "p = Waiting timer" using assms(1) r by (simp_all add: io_register_def Let_def)
    then show ?thesis using inv by (simp add: call_inv_def)
  next
    case False
    then obtain h3 where h3: "cancel_timer timer ?h = Inr h3" "h' = drop_info c h3" "p = Finished (-1) None"
      using assms(1) r by (auto simp: io_register_def Let_def split: sum.splits)
    have "tm_inv (timers h3) \<and> (\<forall>a. \<not> own c (cb_of (timers h3) a)) \<and> hk_infos h3 = hk_infos ?h"
      by (rule cancel_timer_done [OF h3(1)]) (use inv in \<open>auto simp: call_inv_def\<close>)
    then show ?thesis using h3 finish_inv [of h3 c] by auto
  qed
qed

lemma io_resume_inv:
  assumes "io_resume c timer h = Inr (h', p)" and "call_inv c h (Waiting timer)"
  shows "call_inv c h' p"
proof -
  obtain h1 where h1: "cancel_timer timer h = Inr h1" using assms(1) by (auto simp: io_resume_def split: sum.splits)
  have "tm_inv (timers h1) \<and> (\<forall>a. \<not> own c (cb_of (timers h1) a)) \<and> hk_infos h1 = hk_infos h"
    by (rule cancel_timer_done [OF h1]) (use assms(2) in \<open>auto simp: call_inv_def\<close>)
  then show ?thesis using assms h1 finish_inv [of h1 c]
    by (auto simp: io_resume_def call_inv_def drop_info_def split: option.splits if_splits)
qed

lemma io_timeout_inv:
  assumes "io_timeout ctl cb h = Inr h'" and "call_inv c h p"
  shows "call_inv c h' p"
proof (cases "run_callback (\<lambda>i. hk_infos h i \<noteq> None) cb")
  case Nil
  then show ?thesis using assms by (simp add: io_timeout_def)
next
  case (Cons x xs)
  show ?thesis
  proof (cases x)
    case (ScheduleFiber f)
    then have "h' = h\<lparr>hk_io := io_schedule (hk_io h) (fiber_task f (-1))\<rparr>" using assms(1) Cons by (simp add: io_timeout_def)
    then show ?thesis using assms(2) by (auto intro!: call_inv_shrink [of c h p] simp: cbs_shrink_refl) (simp add: call_inv_def)
  next
    case (TimeoutOf i fd event)
    show ?thesis
    proof (cases "hk_infos h i = Some 0")
      case True
      then obtain io1 b where "cancelEvent ctl (hk_io h) fd event = Inr (io1, b)"
        "h' = h\<lparr>hk_infos := (hk_infos h)(i \<mapsto> ETIMEDOUT), hk_io := io1\<rparr>"
        using assms(1) Cons TimeoutOf by (auto simp: io_timeout_def split: sum.splits)
      then have "timers h' = timers h" "hk_infos h' = (hk_infos h)(i \<mapsto> ETIMEDOUT)" by (auto dest: cancelEvent_timers)
      then show ?thesis using assms(2) True by (auto simp: call_inv_def split: phase.splits)
    qed (use assms Cons TimeoutOf in \<open>simp add: io_timeout_def\<close>)
  qed
qed

lemma hook_step_inv: "hook_step ctl c hp hp' \<Longrightarrow> call_inv c (fst hp) (snd hp) \<Longrightarrow> call_inv c (fst hp') (snd hp')"
proof (induction rule: hook_step.induct)
  case (Attempt h a now n errno h' p)
  then show ?case using io_attempt_inv by simp
next
  case (Register timer h h' p)
  then show ?case using io_register_inv by simp
next
  case (Resume timer h h' p)
  then show ?case using io_resume_inv by simp
next
  case (Callback cb h h' p)
  then show ?case using io_timeout_inv by simp
next
  case (Expire h now tmp tm cbs h' p)
  then have "timers h' = tm" "hk_infos h' = hk_infos h" "tm_inv (timers h)"
    by (simp_all add: io_schedule_range_timers call_inv_def)
  with Expire show ?case
    using call_inv_shrink [of c h p h'] listExpiredCb_shrink [of "timers h" now tmp tm cbs] listExpiredCb_inv [of "timers h" now tmp tm cbs]
    by simp
next
  case (Events h cs op io1 cs1 p)
  then show ?case
    using call_inv_shrink [of c h p "h\<lparr>hk_io := io1\<rparr>"] io_step_timers [OF Events(1)] by (simp add: cbs_shrink_refl call_inv_def)
next
  case (OtherTimer h a cb p now ms recurring)
  let ?h = "h\<lparr>hk_io := io_addTimer (hk_io h) a now ms cb recurring\<rparr>"
  have i: "tm_inv (timers h)" using OtherTimer by (simp add: call_inv_def)
  have "cb_of (timers ?h) b = (if b = a then cb else cb_of (timers h) b)" for b
    by (simp add: io_addTimer_timers cb_of_def addTimer_cbs Timer_new_def)
  moreover have "tm_inv (timers ?h)" using addTimer_inv [OF i OtherTimer(1)] by (simp add: io_addTimer_timers)
  moreover have "tm_store (timers ?h) b \<noteq> None" if "tm_store (timers h) b \<noteq> None" for b
    using that by (simp add: io_addTimer_timers addTimer_cbs)
  ultimately show ?case using OtherTimer(2,3) unfolding call_inv_def by (auto split: if_splits phase.splits)
next
  case (OtherCancel h a tm b p)
  let ?h = "h\<lparr>hk_io := (hk_io h)\<lparr>io_timers := tm\<rparr>\<rparr>"
  have "cbs_shrink (timers h) (timers ?h)" "tm_inv (timers ?h)"
    using cancel_shrink [OF OtherCancel(1)] cancel_cases [OF _ OtherCancel(1)] OtherCancel(3) by (simp_all add: call_inv_def)
  then show ?case using call_inv_shrink [of c h p ?h] OtherCancel(3) by simp
next
  case (OtherInfo i h p v)
  then show ?case by (auto simp: call_inv_def split: phase.splits)
qed

lemma reachable_inv:
  assumes "(hook_step ctl c)\<^sup>*\<^sup>* (h0, Trying) (h, p)" and "call_inv c h0 Trying"
  shows "call_inv c h p"
proof -
  have "call_inv c (fst hp) (snd hp)" if "(hook_step ctl c)\<^sup>*\<^sup>* (h0, Trying) hp" for hp
    using that by induction (use assms(2) hook_step_inv in auto)
  from this [OF assms(1)] show ?thesis by simp
qed

lemma io_begin_inv:
  assumes "tm_inv (timers h)" and "\<forall>a x. cb_of (timers h) a \<noteq> Some (Guarded (c_info c) x)"
  shows "call_inv c (io_begin c h) Trying"
  using assms by (simp add: call_inv_def io_begin_def own_def)

lemma io_resume_ok:
  assumes "call_inv c h (Waiting timer)"
  shows "\<exists>h' p. io_resume c timer h = Inr (h', p) \<and> (p = Trying \<or> p = Finished (-1) (Some ETIMEDOUT))"
proof -
  have "\<exists>h1. cancel_timer timer h = Inr h1"
    using assms cancel_inv(1) [of "timers h"] by (cases timer) (auto simp: cancel_timer_def call_inv_def)
  then obtain h1 where h1: "cancel_timer timer h = Inr h1" by blast
  then have "hk_infos h1 = hk_infos h" using cancel_timer_shrink [OF h1] assms by (simp add: call_inv_def)
  then show ?thesis using assms h1 by (auto simp: io_resume_def call_inv_def)
qed

section \<open>Properties\<close>

definition sample_call :: "io_call" where
  "sample_call = \<lparr>c_fd = 3, c_event = READ, c_to = 50, c_fiber = 7, c_info = 9\<rparr>"

definition sample_io :: "(hook_cb, nat \<Rightarrow> u32 option) iomanager" where
  "sample_io = (case IOManager_new 2 False 0 0 False 0 (\<lambda>_. None) [1, 2] of Inr io \<Rightarrow> io)"

definition sample_hook :: "(nat \<Rightarrow> u32 option) hook" where
  "sample_hook = \<lparr>hk_io = sample_io, hk_fds = FdManager_new (\<lambda>_. 0), hk_infos = Map.empty\<rparr>"

lemma sample_waits: "\<exists>h1 h2 h3. io_attempt sample_call 0 1 (-1) EAGAIN (io_begin sample_call sample_hook) = (h1, Armed (Some 1)) \<and>
    io_register plain_ctl sample_call (Some 1) h1 = Inr (h2, Waiting (Some 1)) \<and>
    io_timeout plain_ctl (Guarded 9 (TimeoutOf 9 3 READ)) h2 = Inr h3"
  by (simp add: io_attempt_def io_register_def start_wait_def sample_call_def sample_hook_def io_begin_def sample_io_def
      io_addConditionTimer_def io_addTimer_def addTimer_def insertTimer_def onTimerInsertedAtFront_def tickle_def hasIdleThreads_def
      TimerManager_new_def Let_def addEvent_def io_timeout_def run_simps)

text \<open>
  C12: \<open>do_io\<close>, which all reading and writing calls and \<open>accept\<close> go through, on a socket of the manager that
  the user has not made non-blocking. Whatever timers, events, other fibers and the steps of other calls do in
  between, such a call never comes back with \<open>EAGAIN\<close> or \<open>EINTR\<close> as the error of the real call. A fiber
  that is woken while it waits can go on: its timer is taken back without an error and it tries again or returns
  \<open>ETIMEDOUT\<close>. Outside of its waiting it has no timer in the manager; in particular none is left when
  the call is back, and a callback of it that is already on its way then does nothing. (\<open>connect\<close> is a function
  of its own and does hand its error on; on the sockets that are not managed the real call is made alone.)
\<close>

theorem hooked_call_blocks:
  assumes "(hook_step ctl c)\<^sup>*\<^sup>* (io_begin c h0, Trying) (h, p)" and "tm_inv (timers h0)"
    and "\<forall>a x. cb_of (timers h0) a \<noteq> Some (Guarded (c_info c) x)"
  shows "case p of
      Finished n e \<Rightarrow> \<not> (n = -1 \<and> (e = Some EAGAIN \<or> e = Some EINTR)) \<and>
        (\<forall>a x. cb_of (timers h) a \<noteq> Some (Guarded (c_info c) x)) \<and>
        (\<forall>x. io_timeout ctl (Guarded (c_info c) x) h = Inr h)
    | Waiting timer \<Rightarrow> (\<forall>a x. cb_of (timers h) a = Some (Guarded (c_info c) x) \<longrightarrow> timer = Some a) \<and>
        (\<exists>h' p'. io_resume c timer h = Inr (h', p') \<and> (p' = Trying \<or> p' = Finished (-1) (Some ETIMEDOUT)))
    | Armed timer \<Rightarrow> \<forall>a x. cb_of (timers h) a = Some (Guarded (c_info c) x) \<longrightarrow> timer = Some a
    | _ \<Rightarrow> \<forall>a x. cb_of (timers h) a \<noteq> Some (Guarded (c_info c) x)"
proof -
  have i: "call_inv c h p" by (rule reachable_inv [OF assms(1) io_begin_inv [OF assms(2,3)]])
  show ?thesis
  proof (cases p)
    case (Waiting timer)
    then show ?thesis using io_resume_ok [of c h timer] i by (auto simp: call_inv_def own_def)
  next
    case (Finished n e)
    then show ?thesis using i by (auto simp: call_inv_def own_def io_timeout_def)
  qed (use i in \<open>auto simp: call_inv_def own_def\<close>)
qed

theorem hooked_call_blocks_witness:
  "\<exists>h1 h2 h3 h4. io_attempt sample_call 0 1 (-1) EAGAIN (io_begin sample_call sample_hook) = (h1, Armed (Some 1)) \<and>
     io_register plain_ctl sample_call (Some 1) h1 = Inr (h2, Waiting (Some 1)) \<and>
     io_timeout plain_ctl (Guarded 9 (TimeoutOf 9 3 READ)) h2 = Inr h3 \<and>
     (io_resume sample_call (Some 1) h3 = Inr (h4, Trying) \<or>
      io_resume sample_call (Some 1) h3 = Inr (h4, Finished (-1) (Some ETIMEDOUT)))"
proof -
  let ?h = "io_begin sample_call sample_hook"
  obtain h1 h2 h3 where h: "io_attempt sample_call 0 1 (-1) EAGAIN ?h = (h1, Armed (Some 1))"
    "io_register plain_ctl sample_call (Some 1) h1 = Inr (h2, Waiting (Some 1))"
    "io_timeout plain_ctl (Guarded 9 (TimeoutOf 9 3 READ)) h2 = Inr h3" using sample_waits by blast
  have t: "timers sample_hook = TimerManager_new 0" "timers ?h = TimerManager_new 0"
    by (simp_all add: sample_hook_def sample_io_def io_begin_def IOManager_new_def Scheduler_new_def start_def)
  have "hook_step plain_ctl sample_call (?h, Trying) (h1, Armed (Some 1))"
    by (rule hook_step.Attempt [OF _ h(1)]) (simp add: t TimerManager_new_def)
  moreover note hook_step.Register [OF h(2)] hook_step.Callback [OF h(3), of sample_call "Waiting (Some 1)"]
  ultimately have "(hook_step plain_ctl sample_call)\<^sup>*\<^sup>* (?h, Trying) (h3, Waiting (Some 1))"
    by (meson converse_rtranclp_into_rtranclp r_into_rtranclp)
  from hooked_call_blocks [OF this] have "\<exists>h' p'. io_resume sample_call (Some 1) h3 = Inr (h', p') \<and>
      (p' = Trying \<or> p' = Finished (-1) (Some ETIMEDOUT))"
    by (simp add: t TimerManager_new_def tm_inv_def cb_of_def)
  then show ?thesis using h by blast
qed

text \<open>
  A timeout that fires between the timer and the event cancels nothing: the event is added all the same, and the
  fiber then waits for it without a timer; a callback of the call that is still on its way does nothing.
\<close>

lemma early_timeout_lost:
  assumes "\<forall>a. \<not> own c (cb_of (timers h) a)" and "hk_infos h (c_info c) = Some ETIMEDOUT"
    and "addEvent ctl (hk_io h) (c_fd c) (c_event c) None True (c_fiber c) True = Inr (io2, 0)"
  shows "\<exists>h2. io_register ctl c timer h = Inr (h2, Waiting timer) \<and> (\<forall>a. \<not> own c (cb_of (timers h2) a)) \<and>
    io_timeout ctl (Guarded (c_info c) (TimeoutOf (c_info c) (c_fd c) (c_event c))) h2 = Inr h2"
  using assms addEvent_timers [OF assms(3)] by (simp add: io_register_def io_timeout_def Let_def)

section \<open>Options and sleeping\<close>

text \<open>The user sees the non-blocking flag he has set, not the one the library needs.\<close>

lemma nonblock_read_back:
  assumes "fd_find m fd = Inr (Some ctx)" and "managed ctx"
  shows "\<exists>m1 r res. fcntl_hook m fd F_SETFL arg = Inr (m1, Some r) \<and> fcntl_result m1 fd F_GETFL flags = Inr res \<and>
    (and res O_NONBLOCK \<noteq> 0 \<longleftrightarrow> and (ucast arg :: u32) O_NONBLOCK \<noteq> 0)"
proof -
  obtain a where a: "fd_address m fd = Inr (Some a)" "fm_store m a = Some ctx"
    using assms(1) by (auto simp: fd_find_def split: sum.splits option.splits)
  let ?c = "ctx\<lparr>x_userNonblock := and (ucast arg) O_NONBLOCK \<noteq> 0\<rparr>"
  let ?m = "m\<lparr>fm_store := (fm_store m)(a \<mapsto> ?c)\<rparr>"
  have ch: "fd_change m fd managed (\<lambda>ctx. ctx\<lparr>x_userNonblock := and (ucast arg) O_NONBLOCK \<noteq> 0\<rparr>) = Inr (?m, Some ?c)"
    using a assms(2) by (simp add: fd_change_def)
  have "fd_address ?m fd = fd_address m fd" by (simp add: fd_address_def get_read_def)
  then have f: "fd_find ?m fd = Inr (Some ?c)" "managed ?c"
    using a assms(2) by (simp_all add: fd_find_def managed_def)
  have "and (or flags O_NONBLOCK) O_NONBLOCK \<noteq> 0" "and (and flags (not O_NONBLOCK)) O_NONBLOCK = 0"
    by (simp_all add: word_bw_assocs)
  then show ?thesis using ch f by (intro exI [of _ ?m]) (simp add: fcntl_hook_def fcntl_result_def Let_def)
qed

text \<open>\<open>nanosleep\<close> divides the milliseconds by 1000 again; \<open>sleep\<close> multiplies in 32 bits.\<close>

lemma nanosleep_short: "nanosleep_ms 3 500000000 = 3"
  by (simp add: nanosleep_ms_def nanosleep_timeout_def quot1000_def)

lemma sleep_wraps: "sleep_ms 4294968 = 704"
  by (simp add: sleep_ms_def)

end
