(* ===== verification/LogFormat.thy ===== *)
theory LogFormat
  imports CString
begin

text \<open>
  The levels, the events and the formatter of \<^verbatim>\<open>src/src/log.cc\<close> and \<^verbatim>\<open>src/include/log.h\<close>. A pattern is
  scanned by index, as the code does it; \<open>strftime\<close> after \<open>localtime_r\<close> is a parameter: what the buffer of
  64 bytes holds for a format and a time, \<open>None\<close> when that does not fit and the buffer is indeterminate.
\<close>

section \<open>Levels\<close>

text \<open>An enum whose values are compared, and cast to: an \<open>int\<close>.\<close>

type_synonym level = int

abbreviation UNKNOW :: level where "UNKNOW \<equiv> 0"
abbreviation DEBUG :: level where "DEBUG \<equiv> 1"
abbreviation INFO :: level where "INFO \<equiv> 2"
abbreviation WARN :: level where "WARN \<equiv> 3"
abbreviation ERROR :: level where "ERROR \<equiv> 4"
abbreviation FATAL :: level where "FATAL \<equiv> 5"

definition LogLevel_ToString :: "level \<Rightarrow> str" where
  "LogLevel_ToString l =
     (if l = DEBUG then lit ''DEBUG'' else if l = INFO then lit ''INFO'' else if l = WARN then lit ''WARN''
      else if l = ERROR then lit ''ERROR'' else if l = FATAL then lit ''FATAL'' else lit ''UNKNOW'')"

definition LogLevel_FromString :: "str \<Rightarrow> level" where
  "LogLevel_FromString s =
     (if s = lit ''DEBUG'' then DEBUG else if s = lit ''INFO'' then INFO else if s = lit ''WARN'' then WARN
      else if s = lit ''ERROR'' then ERROR else if s = lit ''FATAL'' then FATAL else UNKNOW)"

section \<open>Events\<close>

text \<open>The logger of an event is an address; its name, which never changes, is passed beside the event.\<close>

record log_event =
  e_file :: str
  e_line :: int
  e_elapse :: u32
  e_threadId :: u32
  e_fiberId :: u32
  e_time :: u32
  e_content :: str
  e_threadName :: str
  e_logger :: nat
  e_level :: level

definition LogEvent_new :: "nat \<Rightarrow> level \<Rightarrow> str \<Rightarrow> int \<Rightarrow> u32 \<Rightarrow> u32 \<Rightarrow> u32 \<Rightarrow> u32 \<Rightarrow> str \<Rightarrow> log_event" where
  "LogEvent_new logger level file line elapse thread_id fiber_id time threadName =
     \<lparr>e_file = file, e_line = line, e_elapse = elapse, e_threadId = thread_id, e_fiberId = fiber_id,
      e_time = time, e_content = [], e_threadName = threadName, e_logger = logger, e_level = level\<rparr>"

text \<open>\<open>format\<close> appends what \<open>vasprintf\<close> makes, if it does not fail.\<close>

definition LogEvent_format :: "str option \<Rightarrow> log_event \<Rightarrow> log_event" where
  "LogEvent_format out ev = (case out of None \<Rightarrow> ev | Some s \<Rightarrow> ev\<lparr>e_content := e_content ev @ s\<rparr>)"

section \<open>Items\<close>

datatype format_item =
    MessageFormatItem | LevelFormatItem | ElapseFormatItem | NameFormatItem | ThreadIdFormatItem
  | FiberIdFormatItem | ThreadNameFormatItem | TabFormatItem | DateTimeFormatItem str | FilenameFormatItem
  | LineFormatItem | NewLineFormatItem | StringFormatItem str

text \<open>The constructor of the date item: an empty format is replaced.\<close>

definition DateTimeFormatItem_new :: "str \<Rightarrow> format_item" where
  "DateTimeFormatItem_new f = DateTimeFormatItem (if f = [] then lit ''%Y-%m-%d %H:%M:%S'' else f)"

type_synonym strftime = "str \<Rightarrow> u32 \<Rightarrow> str option"

definition item_format :: "strftime \<Rightarrow> str \<Rightarrow> level \<Rightarrow> log_event \<Rightarrow> format_item \<Rightarrow> str option" where
  "item_format strftime name level ev item =
     (case item of
        MessageFormatItem \<Rightarrow> Some (e_content ev)
      | LevelFormatItem \<Rightarrow> Some (LogLevel_ToString level)
      | ElapseFormatItem \<Rightarrow> Some (dec (unat (e_elapse ev)))
      | NameFormatItem \<Rightarrow> Some name
      | ThreadIdFormatItem \<Rightarrow> Some (dec (unat (e_threadId ev)))
      | FiberIdFormatItem \<Rightarrow> Some (dec (unat (e_fiberId ev)))
      | ThreadNameFormatItem \<Rightarrow> Some (e_threadName ev)
      | TabFormatItem \<Rightarrow> Some [9]
      | DateTimeFormatItem f \<Rightarrow> strftime (cstr f) (e_time ev)
      | FilenameFormatItem \<Rightarrow> Some (cstr (e_file ev))
      | LineFormatItem \<Rightarrow> Some (dec_int (e_line ev))
      | NewLineFormatItem \<Rightarrow> Some [10]
      | StringFormatItem s \<Rightarrow> Some s)"

text \<open>The table \<open>s_format_items\<close>.\<close>

definition s_format_items :: "str \<Rightarrow> (str \<Rightarrow> format_item) option" where
  "s_format_items k =
     map_of [(lit ''m'', \<lambda>_. MessageFormatItem), (lit ''p'', \<lambda>_. LevelFormatItem),
             (lit ''r'', \<lambda>_. ElapseFormatItem), (lit ''c'', \<lambda>_. NameFormatItem),
             (lit ''t'', \<lambda>_. ThreadIdFormatItem), (lit ''n'', \<lambda>_. NewLineFormatItem),
             (lit ''d'', DateTimeFormatItem_new), (lit ''f'', \<lambda>_. FilenameFormatItem),
             (lit ''l'', \<lambda>_. LineFormatItem), (lit ''T'', \<lambda>_. TabFormatItem),
             (lit ''F'', \<lambda>_. FiberIdFormatItem), (lit ''N'', \<lambda>_. ThreadNameFormatItem)] k"

section \<open>The scan of a pattern\<close>

definition isalpha :: "byte \<Rightarrow> bool" where
  "isalpha c \<longleftrightarrow> 65 \<le> c \<and> c \<le> 90 \<or> 97 \<le> c \<and> c \<le> 122"

definition substr :: "str \<Rightarrow> nat \<Rightarrow> nat \<Rightarrow> str" where
  "substr s pos n = take n (drop pos s)"

text \<open>
  The variables of the inner loop: \<open>n\<close>, \<open>fmt_status\<close>, \<open>fmt_begin\<close>, \<open>str\<close> and \<open>fmt\<close>. The loop ends at the
  end of the pattern or by a \<open>break\<close>.
\<close>

record scan =
  s_n :: nat
  s_status :: nat
  s_begin :: nat
  s_str :: str
  s_fmt :: str

function scan_item :: "str \<Rightarrow> nat \<Rightarrow> scan \<Rightarrow> scan" where
  "scan_item p i sc =
     (let n = s_n sc in
      if length p \<le> n then sc
      else if s_status sc = 0 \<and> \<not> isalpha (p ! n) \<and> p ! n \<noteq> 123 \<and> p ! n \<noteq> 125
      then sc\<lparr>s_str := substr p (i + 1) (n - i - 1)\<rparr>
      else if s_status sc = 0 \<and> p ! n = 123
      then scan_item p i (sc\<lparr>s_str := substr p (i + 1) (n - i - 1), s_status := 1, s_begin := n, s_n := n + 1\<rparr>)
      else if s_status sc = 1 \<and> p ! n = 125
      then sc\<lparr>s_fmt := substr p (s_begin sc + 1) (n - s_begin sc - 1), s_status := 0, s_n := n + 1\<rparr>
      else scan_item p i
        (sc\<lparr>s_n := n + 1, s_str := (if n + 1 = length p \<and> s_str sc = [] then drop (i + 1) p else s_str sc)\<rparr>))"
  by pat_completeness auto

termination
  by (relation "measure (\<lambda>(p, i, sc). length p - s_n sc)") auto

declare scan_item.simps [simp del]

definition scan_start :: "nat \<Rightarrow> scan" where
  "scan_start i = \<lparr>s_n = i + 1, s_status = 0, s_begin = 0, s_str = [], s_fmt = []\<rparr>"

lemma scan_n_mono: "s_n sc \<le> s_n (scan_item p i sc)"
proof (induction p i sc rule: scan_item.induct)
  case (1 p i sc)
  show ?case
    apply (subst scan_item.simps)
    using 1 by (auto simp: Let_def)
qed

lemma scan_start_n: "i < s_n (scan_item p i (scan_start i))"
  using scan_n_mono [of "scan_start i" p i] by (simp add: scan_start_def)

text \<open>
  The outer loop of \<open>init\<close>: the literal collected so far (\<open>nstr\<close>), the tokens (\<open>vec\<close>: the text, the format
  in braces and whether it is an item) and \<open>m_error\<close>. At \<^verbatim>\<open>%%\<close> only the first sign is passed over.
\<close>

type_synonym token = "str \<times> str \<times> nat"

definition flush :: "str \<Rightarrow> token list" where
  "flush nstr = (if nstr = [] then [] else [(nstr, [], 0)])"

function init_loop :: "str \<Rightarrow> nat \<Rightarrow> str \<Rightarrow> token list \<Rightarrow> bool \<Rightarrow> token list \<times> bool" where
  "init_loop p i nstr vec err =
     (if length p \<le> i then (vec @ flush nstr, err)
      else if p ! i \<noteq> 37 then init_loop p (i + 1) (nstr @ [p ! i]) vec err
      else if i + 1 < length p \<and> p ! (i + 1) = 37 then init_loop p (i + 1) (nstr @ [37]) vec err
      else let sc = scan_item p i (scan_start i) in
        if s_status sc = 0
        then init_loop p (s_n sc) [] (vec @ flush nstr @ [(s_str sc, s_fmt sc, 1)]) err
        else if s_status sc = 1
        then init_loop p (i + 1) nstr (vec @ [(lit ''<<pattern_error>>'', s_fmt sc, 0)]) True
        else init_loop p (i + 1) nstr vec err)"
  by pat_completeness auto

termination
  by (relation "measure (\<lambda>(p, i, nstr, vec, err). length p - i)") (auto intro: diff_less_mono2 simp: scan_start_n)

declare init_loop.simps [simp del]

text \<open>The items of the tokens, and whether one is unknown.\<close>

fun make_items :: "token list \<Rightarrow> format_item list \<times> bool" where
  "make_items [] = ([], False)"
| "make_items ((s, f, k) # vec) =
     (let (items, err) = make_items vec in
      if k = 0 then (StringFormatItem s # items, err)
      else (case s_format_items s of
          None \<Rightarrow> (StringFormatItem (lit ''<<error_format %'' @ s @ lit ''>>'') # items, True)
        | Some mk \<Rightarrow> (mk f # items, err)))"

record formatter =
  f_pattern :: str
  f_items :: "format_item list"
  f_error :: bool

definition LogFormatter_new :: "str \<Rightarrow> formatter" where
  "LogFormatter_new p =
     (let (vec, err) = init_loop p 0 [] [] False; (items, err1) = make_items vec
      in \<lparr>f_pattern = p, f_items = items, f_error = err \<or> err1\<rparr>)"

fun format_items :: "(format_item \<Rightarrow> str option) \<Rightarrow> format_item list \<Rightarrow> str option" where
  "format_items f [] = Some []"
| "format_items f (i # is) =
     (case f i of None \<Rightarrow> None
      | Some s \<Rightarrow> (case format_items f is of None \<Rightarrow> None | Some r \<Rightarrow> Some (s @ r)))"

definition LogFormatter_format :: "strftime \<Rightarrow> str \<Rightarrow> level \<Rightarrow> log_event \<Rightarrow> formatter \<Rightarrow> str option" where
  "LogFormatter_format strftime name level ev f = format_items (item_format strftime name level ev) (f_items f)"

end
