(* ===== verification/LogFormat_Spec.thy ===== *)
theory LogFormat_Spec
  imports LogFormat
begin

text \<open>
  What the formatter promises: patterns as lists of pieces, the text each piece stands for, and the
  theorem that scanning the text of a pattern and formatting an event gives that text. Then the escape
  \<^verbatim>\<open>%%\<close>, which the scan does not read as one sign, and the braces that are not closed.
\<close>

section \<open>Pieces\<close>

datatype piece = Plain str | Directive byte | DirectiveWith byte str

text \<open>How a piece is written in a pattern.\<close>

fun show_piece :: "piece \<Rightarrow> str" where
  "show_piece (Plain s) = s"
| "show_piece (Directive c) = [37, c]"
| "show_piece (DirectiveWith c f) = [37, c, 123] @ f @ [125]"

definition show_pattern :: "piece list \<Rightarrow> str" where
  "show_pattern ps = concat (map show_piece ps)"

text \<open>What a piece stands for.\<close>

fun piece_item :: "piece \<Rightarrow> format_item option" where
  "piece_item (Plain s) = Some (StringFormatItem s)"
| "piece_item (Directive c) = map_option (\<lambda>mk. mk []) (s_format_items [c])"
| "piece_item (DirectiveWith c f) = map_option (\<lambda>mk. mk f) (s_format_items [c])"

definition render :: "(format_item \<Rightarrow> str option) \<Rightarrow> piece list \<Rightarrow> str option" where
  "render f ps = format_items f (map (the \<circ> piece_item) ps)"

text \<open>
  A pattern that can be written: no sign \<^verbatim>\<open>%\<close> in plain text, known letters, no closing brace inside braces,
  and a letter is not followed by plain text that would continue it.
\<close>

definition stops :: "byte \<Rightarrow> bool" where
  "stops c \<longleftrightarrow> \<not> isalpha c \<and> c \<noteq> 123 \<and> c \<noteq> 125"

fun pattern_ok :: "piece list \<Rightarrow> bool" where
  "pattern_ok [] \<longleftrightarrow> True"
| "pattern_ok (Plain s # ps) \<longleftrightarrow> 37 \<notin> set s \<and> pattern_ok ps"
| "pattern_ok (Directive c # ps) \<longleftrightarrow> s_format_items [c] \<noteq> None \<and>
     (show_pattern ps = [] \<or> stops (hd (show_pattern ps))) \<and> pattern_ok ps"
| "pattern_ok (DirectiveWith c f # ps) \<longleftrightarrow> s_format_items [c] \<noteq> None \<and> 125 \<notin> set f \<and> pattern_ok ps"

lemma show_pattern_simps [simp]:
  "show_pattern [] = []"
  "show_pattern (Plain s # ps) = s @ show_pattern ps"
  "show_pattern (Directive c # ps) = 37 # c # show_pattern ps"
  "show_pattern (DirectiveWith c f # ps) = 37 # c # 123 # f @ 125 # show_pattern ps"
  by (simp_all add: show_pattern_def)

lemma known_isalpha: "s_format_items [c] \<noteq> None \<Longrightarrow> isalpha c"
  by (auto simp: s_format_items_def lit_def isalpha_def word_le_nat_alt split: if_splits)

section \<open>The scan of one directive\<close>

lemma isalpha_ordinary: "isalpha c \<Longrightarrow> c \<noteq> 123 \<and> c \<noteq> 125 \<and> c \<noteq> 37"
  by (auto simp: isalpha_def word_le_nat_alt)

lemma scan_letter:
  assumes "p = pre @ 37 # c # rest" "isalpha c" "rest = [] \<or> stops (hd rest)"
  shows "scan_item p (length pre) (scan_start (length pre)) =
    \<lparr>s_n = length pre + 2, s_status = 0, s_begin = 0, s_str = [c], s_fmt = []\<rparr>"
proof -
  have c: "p ! Suc (length pre) = c" using assms(1) by (simp add: nth_append)
  have len: "length p = length pre + 2 + length rest" using assms(1) by simp
  have d: "drop (Suc (length pre)) p = c # rest" using assms(1) by simp
  show ?thesis
  proof (cases rest)
    case Nil
    then show ?thesis
      using assms(2) c d len isalpha_ordinary [OF assms(2)]
      by (subst scan_item.simps, subst (2) scan_item.simps) (simp add: scan_start_def Let_def)
  next
    case (Cons x xs)
    have x: "p ! Suc (Suc (length pre)) = x" using assms(1) Cons by (simp add: nth_append)
    have s: "stops x" using assms(3) Cons by simp
    show ?thesis
      using assms(2) c d x s len Cons isalpha_ordinary [OF assms(2)]
      by (subst scan_item.simps, subst scan_item.simps)
         (simp add: scan_start_def Let_def stops_def substr_def)
  qed
qed

text \<open>Inside the braces.\<close>

lemma scan_braces:
  assumes "s_status sc = 1" "drop (s_n sc) p = f @ 125 # rest" "125 \<notin> set f" "s_str sc \<noteq> []"
    "s_n sc \<le> length p"
  shows "scan_item p i sc = sc\<lparr>s_n := s_n sc + length f + 1, s_status := 0,
    s_fmt := substr p (s_begin sc + 1) (s_n sc + length f - s_begin sc - 1)\<rparr>"
  using assms
proof (induction f arbitrary: sc)
  case Nil
  then have "s_n sc < length p" "p ! s_n sc = 125"
    by (metis append_Nil drop_eq_Nil leI list.distinct(1), metis append_Nil nth_via_drop)
  then show ?case using Nil.prems by (subst scan_item.simps) (simp add: Let_def)
next
  case (Cons c f)
  then have n: "s_n sc < length p" "p ! s_n sc = c"
    by (metis append_Cons drop_eq_Nil leI list.distinct(1), metis append_Cons nth_via_drop)
  let ?sc = "sc\<lparr>s_n := s_n sc + 1\<rparr>"
  have d: "drop (s_n ?sc) p = f @ 125 # rest"
    using Cons.prems(2) by (metis append_Cons drop_Suc list.sel(3) scan.select_convs(1) scan.surjective
        scan.update_convs(1) Suc_eq_plus1 tl_drop)
  have "scan_item p i sc = scan_item p i ?sc"
    using Cons.prems n by (subst scan_item.simps) (simp add: Let_def)
  also have "\<dots> = ?sc\<lparr>s_n := s_n ?sc + length f + 1, s_status := 0,
      s_fmt := substr p (s_begin ?sc + 1) (s_n ?sc + length f - s_begin ?sc - 1)\<rparr>"
    by (rule Cons.IH) (use Cons.prems n d in auto)
  finally show ?case by (simp add: ac_simps)
qed

lemma scan_letter_braces:
  assumes "p = pre @ 37 # c # 123 # f @ 125 # rest" "isalpha c" "125 \<notin> set f"
  shows "scan_item p (length pre) (scan_start (length pre)) =
    \<lparr>s_n = length pre + length f + 4, s_status = 0, s_begin = length pre + 2, s_str = [c], s_fmt = f\<rparr>"
proof -
  have c: "p ! Suc (length pre) = c" "p ! Suc (Suc (length pre)) = 123" using assms(1) by (simp_all add: nth_append)
  have len: "length p = length pre + 4 + length f + length rest" using assms(1) by simp
  have d: "drop (Suc (length pre)) p = c # 123 # f @ 125 # rest" using assms(1) by simp
  let ?sc = "\<lparr>s_n = length pre + 3, s_status = 1, s_begin = length pre + 2, s_str = [c], s_fmt = []\<rparr>"
  have "scan_item p (length pre) (scan_start (length pre)) = scan_item p (length pre) ?sc"
    using c d len assms(2) isalpha_ordinary [OF assms(2)]
    by (subst scan_item.simps, subst scan_item.simps)
       (simp add: scan_start_def Let_def substr_def numeral_3_eq_3)
  also have "\<dots> = ?sc\<lparr>s_n := s_n ?sc + length f + 1, s_status := 0,
      s_fmt := substr p (s_begin ?sc + 1) (s_n ?sc + length f - s_begin ?sc - 1)\<rparr>"
    by (rule scan_braces [where rest = rest]) (use assms(1,3) in \<open>auto simp: numeral_3_eq_3\<close>)
  also have "substr p (s_begin ?sc + 1) (s_n ?sc + length f - s_begin ?sc - 1) = f"
    using assms(1) by (simp add: substr_def)
  finally show ?thesis by simp
qed

section \<open>The scan of a pattern\<close>

fun tokens :: "str \<Rightarrow> piece list \<Rightarrow> token list" where
  "tokens nstr [] = flush nstr"
| "tokens nstr (Plain s # ps) = tokens (nstr @ s) ps"
| "tokens nstr (Directive c # ps) = flush nstr @ ([c], [], 1) # tokens [] ps"
| "tokens nstr (DirectiveWith c f # ps) = flush nstr @ ([c], f, 1) # tokens [] ps"

lemma init_plain:
  assumes "p = pre @ s @ rest" "37 \<notin> set s"
  shows "init_loop p (length pre) nstr vec err = init_loop p (length pre + length s) (nstr @ s) vec err"
  using assms
proof (induction s arbitrary: pre nstr)
  case (Cons c s)
  have "init_loop p (length pre) nstr vec err = init_loop p (length pre + 1) (nstr @ [c]) vec err"
    using Cons.prems by (subst init_loop.simps) (simp add: nth_append)
  also have "\<dots> = init_loop p (length (pre @ [c]) + length s) ((nstr @ [c]) @ s) vec err"
    using Cons.IH [of "pre @ [c]" "nstr @ [c]"] Cons.prems by simp
  finally show ?case by simp
qed simp

lemma init_tokens:
  assumes "p = pre @ show_pattern ps" "pattern_ok ps"
  shows "init_loop p (length pre) nstr vec err = (vec @ tokens nstr ps, err)"
  using assms
proof (induction ps arbitrary: pre nstr vec rule: pattern_ok.induct)
  case 1
  then show ?case by (subst init_loop.simps) simp
next
  case (2 s ps)
  have "init_loop p (length pre) nstr vec err = init_loop p (length (pre @ s)) (nstr @ s) vec err"
    using init_plain [of p pre s "show_pattern ps"] 2(2,3) by simp
  then show ?case using 2(1) [of "pre @ s"] 2(2,3) by simp
next
  case (3 c ps)
  have c: "isalpha c" using 3(3) known_isalpha by auto
  note sc = scan_letter [of p pre c "show_pattern ps"]
  have p: "p = (pre @ [37, c]) @ show_pattern ps" using 3(2) by simp
  have "init_loop p (length pre) nstr vec err = init_loop p (length pre + 2) [] (vec @ flush nstr @ [([c], [], 1)]) err"
    using 3(2,3) c isalpha_ordinary [OF c] sc by (subst init_loop.simps) (simp add: nth_append)
  then show ?case using 3(1) [OF p] 3(3) by simp
next
  case (4 c f ps)
  have c: "isalpha c" using 4(3) known_isalpha by auto
  note sc = scan_letter_braces [of p pre c f "show_pattern ps"]
  have p: "p = (pre @ [37, c, 123] @ f @ [125]) @ show_pattern ps" using 4(2) by simp
  have "init_loop p (length pre) nstr vec err =
      init_loop p (length pre + length f + 4) [] (vec @ flush nstr @ [([c], f, 1)]) err"
    using 4(2,3) c isalpha_ordinary [OF c] sc by (subst init_loop.simps) (simp add: nth_append)
  also have "length pre + length f + 4 = length (pre @ [37, c, 123] @ f @ [125])" by simp
  finally show ?case using 4(1) [OF p] 4(3) by simp
qed

lemma make_items_known: "s_format_items s = Some mk \<Longrightarrow>
    make_items ((s, f, Suc 0) # vec) = (mk f # fst (make_items vec), snd (make_items vec))"
  by (simp split: prod.splits)

lemma make_items_flush: "make_items (flush s @ vec) =
    ((if s = [] then [] else [StringFormatItem s]) @ fst (make_items vec), snd (make_items vec))"
  by (auto simp: flush_def split: prod.splits)

lemma make_items_tokens:
  assumes "pattern_ok ps" "\<And>s. g (StringFormatItem s) = Some s"
  shows "\<not> snd (make_items (tokens nstr ps)) \<and>
    format_items g (fst (make_items (tokens nstr ps))) = map_option (\<lambda>r. nstr @ r) (render g ps)"
  using assms(1)
proof (induction nstr ps rule: tokens.induct)
  case (1 nstr)
  then show ?case using make_items_flush [of nstr "[]"] assms(2) by (auto simp: render_def)
next
  case (2 nstr s ps)
  then show ?case using assms(2) by (auto simp: render_def split: option.splits)
next
  case (3 nstr c ps)
  then obtain mk where "s_format_items [c] = Some mk" by auto
  then show ?case using 3 assms(2)
    by (auto simp: make_items_flush make_items_known render_def simp del: make_items.simps split: option.splits)
next
  case (4 nstr c f ps)
  then obtain mk where "s_format_items [c] = Some mk" by auto
  then show ?case using 4 assms(2)
    by (auto simp: make_items_flush make_items_known render_def simp del: make_items.simps split: option.splits)
qed

lemma LogFormatter_new_tokens:
  assumes "init_loop p 0 [] [] False = (vec, err)"
  shows "f_items (LogFormatter_new p) = fst (make_items vec)"
    and "f_error (LogFormatter_new p) \<longleftrightarrow> err \<or> snd (make_items vec)"
    and "f_pattern (LogFormatter_new p) = p"
  using assms by (auto simp: LogFormatter_new_def Let_def split: prod.splits)

text \<open>
  C24: The formatter built from the text of a pattern reports no error, and formats every event to the texts its
  pieces stand for, in order.
\<close>
theorem formatter_renders:
  assumes "pattern_ok ps"
  shows "\<not> f_error (LogFormatter_new (show_pattern ps)) \<and>
    LogFormatter_format strftime name level ev (LogFormatter_new (show_pattern ps)) =
      render (item_format strftime name level ev) ps"
proof -
  let ?p = "show_pattern ps"
  have vec: "init_loop ?p 0 [] [] False = (tokens [] ps, False)"
    using init_tokens [of ?p "[]" ps] assms by simp
  have str: "item_format strftime name level ev (StringFormatItem s) = Some s" for s by (simp add: item_format_def)
  show ?thesis
    using make_items_tokens [where nstr = "[]", OF assms, of "item_format strftime name level ev", OF str]
    by (simp add: LogFormatter_format_def LogFormatter_new_tokens [OF vec] option.map_ident)
qed

text \<open>The pattern that every logger starts with.\<close>

definition default_pieces :: "piece list" where
  "default_pieces =
     [DirectiveWith 100 (lit ''%Y-%m-%d %H:%M:%S''), Directive 84, Directive 116, Directive 84, Directive 78,
      Directive 84, Directive 70, Directive 84, Plain (lit ''[''), Directive 112, Plain (lit '']''), Directive 84,
      Plain (lit ''[''), Directive 99, Plain (lit '']''), Directive 84, Directive 102, Plain (lit '':''),
      Directive 108, Directive 84, Directive 109, Directive 110]"

lemma formatter_renders_witness:
  "\<not> f_error (LogFormatter_new (show_pattern [Plain (lit ''log: ''), Directive 109, Directive 110])) \<and>
   LogFormatter_format (\<lambda>_ _. None) [] INFO (LogEvent_format (Some (lit ''hi'')) (LogEvent_new 0 INFO [] 1 0 0 0 0 []))
     (LogFormatter_new (show_pattern [Plain (lit ''log: ''), Directive 109, Directive 110])) =
   Some (lit ''log: hi'' @ [10])"
proof -
  have ok: "pattern_ok [Plain (lit ''log: ''), Directive 109, Directive 110]"
    by (simp add: lit_def s_format_items_def stops_def isalpha_def)
  show ?thesis
    using formatter_renders [OF ok, of "\<lambda>_ _. None" "[]" INFO
        "LogEvent_format (Some (lit ''hi'')) (LogEvent_new 0 INFO [] 1 0 0 0 0 [])"]
    by (simp add: render_def item_format_def s_format_items_def lit_def LogEvent_format_def LogEvent_new_def)
qed

text \<open>Patterns that end in a doubled sign: the second one is taken for an item without a letter.\<close>

lemma scan_at_end:
  assumes "length p = Suc i"
  shows "scan_item p i (scan_start i) = scan_start i"
  using assms by (subst scan_item.simps) (simp add: scan_start_def Let_def)

text \<open>
  A doubled sign does not stand for one sign: a text followed by two of them is formatted with an error mark
  after the sign, and the formatter reports an error.
\<close>
theorem doubled_percent_is_error:
  assumes "37 \<notin> set s"
  shows "f_error (LogFormatter_new (s @ lit ''%%'')) \<and>
    LogFormatter_format strftime name level ev (LogFormatter_new (s @ lit ''%%'')) =
      Some (s @ lit ''%<<error_format %>>'')"
proof -
  let ?p = "s @ [37, 37]"
  have l: "lit ''%%'' = [37, 37]" by (simp add: lit_def)
  have "init_loop ?p 0 [] [] False = init_loop ?p (length s) s [] False"
    using init_plain [of ?p "[]" s "[37, 37]"] assms by simp
  also have "\<dots> = init_loop ?p (Suc (length s)) (s @ [37]) [] False"
    by (subst init_loop.simps) (simp add: nth_append)
  also have "\<dots> = init_loop ?p (Suc (Suc (length s))) [] (flush (s @ [37]) @ [([], [], 1)]) False"
    by (subst init_loop.simps) (simp add: nth_append scan_at_end, simp add: scan_start_def)
  also have "\<dots> = (flush (s @ [37]) @ [([], [], 1)], False)"
    by (subst init_loop.simps) (simp add: flush_def)
  finally have vec: "init_loop ?p 0 [] [] False = (flush (s @ [37]) @ [([], [], 1)], False)" .
  have none: "s_format_items [] = None" by (simp add: s_format_items_def lit_def)
  show ?thesis
    unfolding l LogFormatter_format_def LogFormatter_new_tokens [OF vec] make_items_flush
    using none by (simp add: item_format_def lit_def)
qed

lemma doubled_percent_is_error_example:
  "f_error (LogFormatter_new (lit ''100'' @ lit ''%%'')) \<and>
    LogFormatter_format (\<lambda>_ _. None) [] INFO (LogEvent_new 0 INFO [] 1 0 0 0 0 []) (LogFormatter_new (lit ''100'' @ lit ''%%'')) =
      Some (lit ''100'' @ lit ''%<<error_format %>>'')"
  by (rule doubled_percent_is_error) (simp add: lit_def)

end
