(* ===== verification/Yaml.thy ===== *)
theory Yaml
  imports CString
begin

text \<open>
  The interface to yaml-cpp that \<^verbatim>\<open>src/src/log.cc\<close>, \<^verbatim>\<open>src/include/config.h\<close> and
  \<^verbatim>\<open>src/src/config.cc\<close> use. Documents are data; the functions of the library are the fields of a record
  that every definition using them takes as an argument.
\<close>

text \<open>The kinds of nodes. The entries of a map are in the order in which they are iterated.\<close>

datatype yaml = YNull | YScalar str | YSeq "yaml list" | YMap "(yaml \<times> yaml) list"

text \<open>
  \<open>YAML::Load\<close>, \<open><<\<close>, \<open>n[k]\<close> for reading, \<open>as<std::string>()\<close>, the nodes \<open>n[i]\<close> for \<open>i < n.size()\<close>, what an
  iteration gives (the \<open>Scalar()\<close> of the key and the value), \<open>push_back\<close> and \<open>n[k] = v\<close>. \<open>None\<close> is an exception;
  a node that \<open>n[k]\<close> does not find is \<open>Some None\<close>, which \<open>IsDefined\<close> tells.
\<close>

record yaml_lib =
  y_load :: "str \<Rightarrow> yaml option"
  y_emit :: "yaml \<Rightarrow> str"
  y_get :: "yaml \<Rightarrow> str \<Rightarrow> yaml option option"
  y_string :: "yaml \<Rightarrow> str option"
  y_elems :: "yaml \<Rightarrow> yaml list"
  y_pairs :: "yaml \<Rightarrow> (str \<times> yaml) list option"
  y_push :: "yaml \<Rightarrow> yaml \<Rightarrow> yaml"
  y_put :: "yaml \<Rightarrow> str \<Rightarrow> yaml \<Rightarrow> yaml"

text \<open>\<open>Scalar()\<close> is empty for a node that is no scalar.\<close>

definition y_scalar :: "yaml \<Rightarrow> str" where
  "y_scalar n = (case n of YScalar s \<Rightarrow> s | _ \<Rightarrow> [])"

text \<open>
  What the code relies on when it builds a node and reads it again: \<open>push_back\<close> and \<open>n[k] = v\<close> make an empty
  node a sequence or a map and append to it, and reading finds what is there.
\<close>

fun key_find :: "str \<Rightarrow> (yaml \<times> yaml) list \<Rightarrow> yaml option" where
  "key_find k [] = None"
| "key_find k ((x, v) # ps) = (if x = YScalar k then Some v else key_find k ps)"

definition node_laws :: "yaml_lib \<Rightarrow> bool" where
  "node_laws lib \<longleftrightarrow>
     (\<forall>n. y_push lib YNull n = YSeq [n]) \<and> (\<forall>ns n. y_push lib (YSeq ns) n = YSeq (ns @ [n])) \<and>
     (\<forall>k v. y_put lib YNull k v = YMap [(YScalar k, v)]) \<and>
     (\<forall>ps k v. key_find k ps = None \<longrightarrow> y_put lib (YMap ps) k v = YMap (ps @ [(YScalar k, v)])) \<and>
     (\<forall>ps k. y_get lib (YMap ps) k = Some (key_find k ps)) \<and> (\<forall>s. y_string lib (YScalar s) = Some s) \<and>
     y_elems lib YNull = [] \<and> (\<forall>ns. y_elems lib (YSeq ns) = ns) \<and>
     y_pairs lib YNull = Some [] \<and> (\<forall>ps. y_pairs lib (YMap ps) = Some (map (\<lambda>(k, n). (y_scalar k, n)) ps))"

lemma node_lawsD:
  assumes "node_laws lib"
  shows "y_push lib YNull n = YSeq [n]" "y_push lib (YSeq ns) n = YSeq (ns @ [n])"
    "y_put lib YNull k v = YMap [(YScalar k, v)]"
    "key_find k ps = None \<Longrightarrow> y_put lib (YMap ps) k v = YMap (ps @ [(YScalar k, v)])"
    "y_get lib (YMap ps) k = Some (key_find k ps)" "y_string lib (YScalar s) = Some s"
    "y_elems lib YNull = []" "y_elems lib (YSeq ns) = ns"
    "y_pairs lib YNull = Some []" "y_pairs lib (YMap ps) = Some (map (\<lambda>(k, n). (y_scalar k, n)) ps)"
  using assms by (auto simp: node_laws_def)

lemma pushed: "node_laws lib \<Longrightarrow> foldl (y_push lib) YNull ns = (if ns = [] then YNull else YSeq ns)"
proof (induction ns rule: rev_induct)
  case (snoc n ns)
  then show ?case by (cases "ns = []") (simp_all add: node_lawsD)
qed simp

lemma elems_pushed: "node_laws lib \<Longrightarrow> y_elems lib (foldl (y_push lib) YNull ns) = ns"
  by (simp add: pushed node_lawsD)

lemma key_find_map: "key_find k (map (\<lambda>(k, v). (YScalar k, v)) ps) = map_of ps k"
  by (induction ps) auto

lemma putted:
  assumes "node_laws lib" "distinct (map fst ps)"
  shows "foldl (\<lambda>n p. y_put lib n (fst p) (snd p)) YNull ps =
    (if ps = [] then YNull else YMap (map (\<lambda>(k, v). (YScalar k, v)) ps))"
  using assms(2)
proof (induction ps rule: rev_induct)
  case (snoc p ps)
  have "map_of ps (fst p) = None" using snoc.prems by (simp add: map_of_eq_None_iff)
  then show ?case using snoc
    by (cases "ps = []") (simp_all add: node_lawsD [OF assms(1)] key_find_map case_prod_beta)
qed simp

lemma pairs_putted:
  assumes "node_laws lib" "distinct (map fst ps)"
  shows "y_pairs lib (foldl (\<lambda>n p. y_put lib n (fst p) (snd p)) YNull ps) = Some ps"
proof -
  have "map (\<lambda>(k, n). (y_scalar k, n)) (map (\<lambda>(k, v). (YScalar k, v)) ps) = ps"
    by (induction ps) (auto simp: y_scalar_def)
  then show ?thesis unfolding putted [OF assms] using node_lawsD [OF assms(1)] by auto
qed

text \<open>A node is read back from its text.\<close>

definition loads_back :: "yaml_lib \<Rightarrow> yaml \<Rightarrow> bool" where
  "loads_back lib n \<longleftrightarrow> y_load lib (y_emit lib n) = Some n"

text \<open>A library that knows scalars, and sequences of one scalar written with a dash.\<close>

definition small_lib :: yaml_lib where
  "small_lib = \<lparr>y_load = \<lambda>s. (case s of [] \<Rightarrow> Some YNull
       | x # r \<Rightarrow> if x = 45 then Some (YSeq [YScalar r]) else Some (YScalar (x # r))),
     y_emit = \<lambda>n. (case n of YScalar s \<Rightarrow> s | YSeq (YScalar s # _) \<Rightarrow> 45 # s | _ \<Rightarrow> []),
     y_get = \<lambda>n k. (case n of YMap ps \<Rightarrow> Some (key_find k ps) | _ \<Rightarrow> Some None),
     y_string = \<lambda>n. (case n of YScalar s \<Rightarrow> Some s | _ \<Rightarrow> None),
     y_elems = \<lambda>n. (case n of YSeq ns \<Rightarrow> ns | _ \<Rightarrow> []),
     y_pairs = \<lambda>n. (case n of YMap ps \<Rightarrow> Some (map (\<lambda>(k, n). (y_scalar k, n)) ps) | _ \<Rightarrow> Some []),
     y_push = \<lambda>n x. (case n of YSeq ns \<Rightarrow> YSeq (ns @ [x]) | _ \<Rightarrow> YSeq [x]),
     y_put = \<lambda>n k v. (case n of YMap ps \<Rightarrow> YMap (ps @ [(YScalar k, v)]) | _ \<Rightarrow> YMap [(YScalar k, v)])\<rparr>"

lemma small_lib_laws: "node_laws small_lib"
  by (simp add: node_laws_def small_lib_def)

end
