(* ===== verification/Log.thy ===== *)
theory Log
  imports LogFormat Yaml StdOrdered
begin

text \<open>
  The appenders, the loggers and the manager of \<^verbatim>\<open>src/src/log.cc\<close>. Appenders and loggers are shared, so they
  live in two stores; formatters never change, so a shared pointer to one is the formatter, or \<open>None\<close> for a
  null pointer. Each method runs under the mutex of its object and is one step. What has been written is a list
  of sinks and texts, in order.
\<close>

section \<open>The state\<close>

datatype appender_kind = FileLogAppender str | StdoutLogAppender

text \<open>\<open>ap_open\<close> and \<open>ap_fail\<close> are the state of the file stream: whether its buffer has a file, and \<open>fail()\<close>.\<close>

record appender =
  ap_kind :: appender_kind
  ap_level :: level
  ap_formatter :: "formatter option"
  ap_hasFormatter :: bool
  ap_open :: bool
  ap_fail :: bool
  ap_lastTime :: u64

record logger =
  lg_name :: str
  lg_level :: level
  lg_appenders :: "nat list"
  lg_formatter :: "formatter option"
  lg_root :: "nat option"

datatype sink = Console | LogFile str

record log_state =
  ls_appenders :: "nat \<Rightarrow> appender option"
  ls_loggers :: "nat \<Rightarrow> logger option"
  ls_next :: nat
  ls_names :: "(str \<times> nat) list"
  ls_root :: nat
  ls_written :: "(sink \<times> str) list"

text \<open>A null pointer to a formatter, a logger or an appender; a buffer without contents; no fuel left.\<close>

datatype log_error = NullFormatter | NullLogger | NullAppender | Indeterminate | OutOfFuel

text \<open>What a step finds outside: \<open>strftime\<close>, whether a file can be opened, whether a write to it succeeds.\<close>

record log_env =
  le_strftime :: strftime
  le_opens :: "str \<Rightarrow> bool"
  le_writes :: "str \<Rightarrow> bool"

section \<open>Appenders\<close>

definition appender_new :: "appender_kind \<Rightarrow> appender" where
  "appender_new k = \<lparr>ap_kind = k, ap_level = DEBUG, ap_formatter = None, ap_hasFormatter = False,
     ap_open = False, ap_fail = False, ap_lastTime = 0\<rparr>"

definition LogAppender_setFormatter :: "formatter option \<Rightarrow> appender \<Rightarrow> appender" where
  "LogAppender_setFormatter f a = a\<lparr>ap_formatter := f, ap_hasFormatter := f \<noteq> None\<rparr>"

definition LogAppender_setLevel :: "level \<Rightarrow> appender \<Rightarrow> appender" where
  "LogAppender_setLevel l a = a\<lparr>ap_level := l\<rparr>"

text \<open>
  Closing a stream that has no file sets its fail bit; opening fails when there is a file already, and clears
  the fail bit when it succeeds.
\<close>

definition stream_close :: "appender \<Rightarrow> appender" where
  "stream_close a = (if ap_open a then a\<lparr>ap_open := False\<rparr> else a\<lparr>ap_fail := True\<rparr>)"

definition stream_open :: "bool \<Rightarrow> appender \<Rightarrow> appender" where
  "stream_open opens a =
     (if \<not> ap_open a \<and> opens then a\<lparr>ap_open := True, ap_fail := False\<rparr> else a\<lparr>ap_fail := True\<rparr>)"

definition reopen :: "log_env \<Rightarrow> str \<Rightarrow> appender \<Rightarrow> appender \<times> bool" where
  "reopen env file a =
     (let a1 = (if ap_fail a then a else stream_close a);
          a2 = stream_open (le_opens env file) a1
      in (a2, \<not> ap_fail a2))"

definition FileLogAppender_new :: "log_env \<Rightarrow> str \<Rightarrow> appender" where
  "FileLogAppender_new env file = fst (reopen env file (appender_new (FileLogAppender file)))"

definition StdoutLogAppender_new :: appender where
  "StdoutLogAppender_new = appender_new StdoutLogAppender"

text \<open>\<open>m_formatter->format\<close>.\<close>

definition format_line :: "log_env \<Rightarrow> str \<Rightarrow> level \<Rightarrow> log_event \<Rightarrow> appender \<Rightarrow> log_error + str" where
  "format_line env name level ev a =
     (case ap_formatter a of None \<Rightarrow> Inl NullFormatter
      | Some f \<Rightarrow> (case LogFormatter_format (le_strftime env) name level ev f of
            None \<Rightarrow> Inl Indeterminate | Some s \<Rightarrow> Inr s))"

definition FileLogAppender_log :: "log_env \<Rightarrow> str \<Rightarrow> str \<Rightarrow> level \<Rightarrow> log_event \<Rightarrow> appender \<Rightarrow>
    log_error + appender \<times> (sink \<times> str) list" where
  "FileLogAppender_log env file name level ev a =
     (if ap_level a \<le> level then
        let now = ucast (e_time ev) :: u64;
            a1 = (if ap_lastTime a + 3 \<le> now then (fst (reopen env file a))\<lparr>ap_lastTime := now\<rparr> else a)
        in (case format_line env name level ev a1 of Inl e \<Rightarrow> Inl e
            | Inr s \<Rightarrow>
                if ap_open a1 \<and> \<not> ap_fail a1 \<and> le_writes env file then Inr (a1, [(LogFile file, s)])
                else Inr (a1\<lparr>ap_fail := True\<rparr>, [(Console, lit ''error'' @ [10])]))
      else Inr (a, []))"

definition StdoutLogAppender_log :: "log_env \<Rightarrow> str \<Rightarrow> level \<Rightarrow> log_event \<Rightarrow> appender \<Rightarrow>
    log_error + appender \<times> (sink \<times> str) list" where
  "StdoutLogAppender_log env name level ev a =
     (if ap_level a \<le> level then
        (case format_line env name level ev a of Inl e \<Rightarrow> Inl e | Inr s \<Rightarrow> Inr (a, [(Console, s)]))
      else Inr (a, []))"

text \<open>The virtual method.\<close>

definition LogAppender_log :: "log_env \<Rightarrow> str \<Rightarrow> level \<Rightarrow> log_event \<Rightarrow> appender \<Rightarrow>
    log_error + appender \<times> (sink \<times> str) list" where
  "LogAppender_log env name level ev a =
     (case ap_kind a of FileLogAppender file \<Rightarrow> FileLogAppender_log env file name level ev a
      | StdoutLogAppender \<Rightarrow> StdoutLogAppender_log env name level ev a)"

definition appender_toYamlString :: "yaml_lib \<Rightarrow> appender \<Rightarrow> str" where
  "appender_toYamlString lib a =
     (let n1 = (case ap_kind a of
            FileLogAppender file \<Rightarrow>
              y_put lib (y_put lib YNull (lit ''type'') (YScalar (lit ''FileLogAppender''))) (lit ''file'') (YScalar file)
          | StdoutLogAppender \<Rightarrow> y_put lib YNull (lit ''type'') (YScalar (lit ''StdoutLogAppender'')));
          n2 = (if ap_level a \<noteq> UNKNOW then y_put lib n1 (lit ''level'') (YScalar (LogLevel_ToString (ap_level a))) else n1);
          n3 = (case ap_formatter a of None \<Rightarrow> n2
            | Some f \<Rightarrow> if ap_hasFormatter a then y_put lib n2 (lit ''formatter'') (YScalar (f_pattern f)) else n2)
      in y_emit lib n3)"

section \<open>Loggers\<close>

definition DEFAULT_PATTERN :: str where
  "DEFAULT_PATTERN = lit ''%d{%Y-%m-%d %H:%M:%S}%T%t%T%N%T%F%T[%p]%T[%c]%T%f:%l%T%m%n''"

definition Logger_new :: "str \<Rightarrow> logger" where
  "Logger_new name = \<lparr>lg_name = name, lg_level = DEBUG, lg_appenders = [],
     lg_formatter = Some (LogFormatter_new DEFAULT_PATTERN), lg_root = None\<rparr>"

definition find_logger :: "log_state \<Rightarrow> nat \<Rightarrow> log_error + logger" where
  "find_logger st l = (case ls_loggers st l of None \<Rightarrow> Inl NullLogger | Some lg \<Rightarrow> Inr lg)"

definition find_appender :: "log_state \<Rightarrow> nat \<Rightarrow> log_error + appender" where
  "find_appender st a = (case ls_appenders st a of None \<Rightarrow> Inl NullAppender | Some ap \<Rightarrow> Inr ap)"

definition put_logger :: "nat \<Rightarrow> logger \<Rightarrow> log_state \<Rightarrow> log_state" where
  "put_logger l lg st = st\<lparr>ls_loggers := (ls_loggers st)(l \<mapsto> lg)\<rparr>"

definition put_appender :: "nat \<Rightarrow> appender \<Rightarrow> log_state \<Rightarrow> log_state" where
  "put_appender a ap st = st\<lparr>ls_appenders := (ls_appenders st)(a \<mapsto> ap)\<rparr>"

definition bindE :: "'e + 'a \<Rightarrow> ('a \<Rightarrow> 'e + 'b) \<Rightarrow> 'e + 'b" where
  "bindE m f = (case m of Inl e \<Rightarrow> Inl e | Inr x \<Rightarrow> f x)"

definition write_out :: "(sink \<times> str) list \<Rightarrow> log_state \<Rightarrow> log_state" where
  "write_out w st = st\<lparr>ls_written := ls_written st @ w\<rparr>"

text \<open>The loop over the appenders of a logger; \<open>alog\<close> is their virtual method.\<close>

fun log_appenders :: "(appender \<Rightarrow> log_error + appender \<times> (sink \<times> str) list) \<Rightarrow> nat list \<Rightarrow> log_state \<Rightarrow>
    log_error + log_state" where
  "log_appenders alog [] st = Inr st"
| "log_appenders alog (a # as) st =
     bindE (find_appender st a) (\<lambda>ap. bindE (alog ap)
       (\<lambda>(ap1, w). log_appenders alog as (write_out w (put_appender a ap1 st))))"

text \<open>\<open>Logger::log\<close>; the fuel bounds the chain of roots.\<close>

fun Logger_log :: "log_env \<Rightarrow> nat \<Rightarrow> nat \<Rightarrow> level \<Rightarrow> log_event \<Rightarrow> log_state \<Rightarrow> log_error + log_state" where
  "Logger_log env 0 l level ev st = Inl OutOfFuel"
| "Logger_log env (Suc k) l level ev st =
     bindE (find_logger st l) (\<lambda>lg.
       if lg_level lg \<le> level then
         if lg_appenders lg \<noteq> [] then
           bindE (find_logger st (e_logger ev)) (\<lambda>src.
             log_appenders (LogAppender_log env (lg_name src) level ev) (lg_appenders lg) st)
         else (case lg_root lg of Some r \<Rightarrow> Logger_log env k r level ev st | None \<Rightarrow> Inr st)
       else Inr st)"

definition Logger_debug where "Logger_debug env k l ev st = Logger_log env k l DEBUG ev st"
definition Logger_info where "Logger_info env k l ev st = Logger_log env k l INFO ev st"
definition Logger_warn where "Logger_warn env k l ev st = Logger_log env k l WARN ev st"
definition Logger_error where "Logger_error env k l ev st = Logger_log env k l ERROR ev st"
definition Logger_fatal where "Logger_fatal env k l ev st = Logger_log env k l FATAL ev st"

text \<open>The macro \<open>LOG_LEVEL\<close>: the event is made when the level passes, and logged when it is destroyed.\<close>

definition LogEventWrap_destroy :: "log_env \<Rightarrow> nat \<Rightarrow> log_event \<Rightarrow> log_state \<Rightarrow> log_error + log_state" where
  "LogEventWrap_destroy env k ev st = Logger_log env k (e_logger ev) (e_level ev) ev st"

definition LOG_LEVEL :: "log_env \<Rightarrow> nat \<Rightarrow> log_event \<Rightarrow> log_state \<Rightarrow> log_error + log_state" where
  "LOG_LEVEL env k ev st = bindE (find_logger st (e_logger ev)) (\<lambda>lg.
     if lg_level lg \<le> e_level ev then LogEventWrap_destroy env k ev st else Inr st)"

text \<open>The text is added to the event inside the wrap; \<open>None\<close> when \<open>vasprintf\<close> fails.\<close>

definition LOG_FMT_LEVEL :: "log_env \<Rightarrow> nat \<Rightarrow> str option \<Rightarrow> log_event \<Rightarrow> log_state \<Rightarrow> log_error + log_state" where
  "LOG_FMT_LEVEL env k printed ev st = LOG_LEVEL env k (LogEvent_format printed ev) st"

definition Logger_addAppender :: "nat \<Rightarrow> nat \<Rightarrow> log_state \<Rightarrow> log_error + log_state" where
  "Logger_addAppender l a st =
     bindE (find_logger st l) (\<lambda>lg. bindE (find_appender st a) (\<lambda>ap.
       let ap1 = (if ap_formatter ap = None then ap\<lparr>ap_formatter := lg_formatter lg\<rparr> else ap)
       in Inr (put_logger l (lg\<lparr>lg_appenders := lg_appenders lg @ [a]\<rparr>) (put_appender a ap1 st))))"

definition Logger_delAppender :: "nat \<Rightarrow> nat \<Rightarrow> log_state \<Rightarrow> log_error + log_state" where
  "Logger_delAppender l a st =
     bindE (find_logger st l) (\<lambda>lg. Inr (put_logger l (lg\<lparr>lg_appenders := remove1 a (lg_appenders lg)\<rparr>) st))"

definition Logger_clearAppender :: "nat \<Rightarrow> log_state \<Rightarrow> log_error + log_state" where
  "Logger_clearAppender l st =
     bindE (find_logger st l) (\<lambda>lg. Inr (put_logger l (lg\<lparr>lg_appenders := []\<rparr>) st))"

definition Logger_setLevel :: "nat \<Rightarrow> level \<Rightarrow> log_state \<Rightarrow> log_error + log_state" where
  "Logger_setLevel l level st =
     bindE (find_logger st l) (\<lambda>lg. Inr (put_logger l (lg\<lparr>lg_level := level\<rparr>) st))"

fun inherit_formatter :: "formatter option \<Rightarrow> nat list \<Rightarrow> log_state \<Rightarrow> log_error + log_state" where
  "inherit_formatter f [] st = Inr st"
| "inherit_formatter f (a # as) st =
     bindE (find_appender st a) (\<lambda>ap.
       inherit_formatter f as (if ap_hasFormatter ap then st else put_appender a (ap\<lparr>ap_formatter := f\<rparr>) st))"

definition Logger_setFormatter :: "nat \<Rightarrow> formatter option \<Rightarrow> log_state \<Rightarrow> log_error + log_state" where
  "Logger_setFormatter l f st =
     bindE (find_logger st l) (\<lambda>lg.
       inherit_formatter f (lg_appenders lg) (put_logger l (lg\<lparr>lg_formatter := f\<rparr>) st))"

text \<open>The overload that takes a pattern: it complains about an error, and uses the formatter all the same.\<close>

definition Logger_setPattern :: "nat \<Rightarrow> str \<Rightarrow> log_state \<Rightarrow> log_error + log_state" where
  "Logger_setPattern l val st =
     bindE (find_logger st l) (\<lambda>lg.
       let f = LogFormatter_new val;
           st1 = (if f_error f then write_out [(Console, lit ''Logger setFormatter name = '' @ lg_name lg @
                    lit '' value = '' @ val @ lit '' invalid formatter'' @ [10])] st else st)
       in Logger_setFormatter l (Some f) st1)"

fun push_appenders :: "yaml_lib \<Rightarrow> log_state \<Rightarrow> nat list \<Rightarrow> yaml \<Rightarrow> log_error + yaml option" where
  "push_appenders lib st [] n = Inr (Some n)"
| "push_appenders lib st (a # as) n =
     bindE (find_appender st a) (\<lambda>ap. case y_load lib (appender_toYamlString lib ap) of
         None \<Rightarrow> Inr None
       | Some m \<Rightarrow> push_appenders lib st as (y_push lib n m))"

text \<open>\<open>toYamlString\<close>; the inner \<open>None\<close> is an exception of yaml-cpp.\<close>

definition Logger_toYamlString :: "yaml_lib \<Rightarrow> nat \<Rightarrow> log_state \<Rightarrow> log_error + str option" where
  "Logger_toYamlString lib l st =
     bindE (find_logger st l) (\<lambda>lg.
       let n1 = y_put lib YNull (lit ''name'') (YScalar (lg_name lg));
           n2 = (if lg_level lg \<noteq> UNKNOW then y_put lib n1 (lit ''level'') (YScalar (LogLevel_ToString (lg_level lg))) else n1);
           n3 = (case lg_formatter lg of None \<Rightarrow> n2 | Some f \<Rightarrow> y_put lib n2 (lit ''formatter'') (YScalar (f_pattern f)))
       in bindE (push_appenders lib st (lg_appenders lg) YNull) (\<lambda>r. case r of None \<Rightarrow> Inr None
          | Some as \<Rightarrow> Inr (Some (y_emit lib (if lg_appenders lg = [] then n3 else y_put lib n3 (lit ''appenders'') as)))))"

section \<open>The manager\<close>

definition new_logger :: "logger \<Rightarrow> log_state \<Rightarrow> nat \<times> log_state" where
  "new_logger lg st = (ls_next st, put_logger (ls_next st) lg (st\<lparr>ls_next := Suc (ls_next st)\<rparr>))"

definition new_appender :: "appender \<Rightarrow> log_state \<Rightarrow> nat \<times> log_state" where
  "new_appender ap st = (ls_next st, put_appender (ls_next st) ap (st\<lparr>ls_next := Suc (ls_next st)\<rparr>))"

definition log_empty :: log_state where
  "log_empty = \<lparr>ls_appenders = Map.empty, ls_loggers = Map.empty, ls_next = 0, ls_names = [], ls_root = 0,
     ls_written = []\<rparr>"

definition LoggerManager_new :: "log_error + log_state" where
  "LoggerManager_new =
     (let (r, st) = new_logger (Logger_new (lit ''root'')) log_empty;
          (a, st1) = new_appender StdoutLogAppender_new (st\<lparr>ls_root := r\<rparr>)
      in bindE (Logger_addAppender r a st1) (\<lambda>st2. bindE (find_logger st2 r) (\<lambda>lg.
           Inr (st2\<lparr>ls_names := omap_set lex_less (lg_name lg) r (ls_names st2)\<rparr>))))"

definition getLogger :: "str \<Rightarrow> log_state \<Rightarrow> log_state \<times> nat" where
  "getLogger name st =
     (case omap_find lex_less name (ls_names st) of Some l \<Rightarrow> (st, l)
      | None \<Rightarrow>
          let (l, st1) = new_logger ((Logger_new name)\<lparr>lg_root := Some (ls_root st)\<rparr>) st
          in (st1\<lparr>ls_names := omap_set lex_less name l (ls_names st1)\<rparr>, l))"

definition getRoot :: "log_state \<Rightarrow> nat" where
  "getRoot st = ls_root st"

fun manager_nodes :: "yaml_lib \<Rightarrow> log_state \<Rightarrow> (str \<times> nat) list \<Rightarrow> yaml \<Rightarrow> log_error + yaml option" where
  "manager_nodes lib st [] n = Inr (Some n)"
| "manager_nodes lib st ((name, l) # ls) n =
     bindE (Logger_toYamlString lib l st) (\<lambda>r. case r of None \<Rightarrow> Inr None
       | Some s \<Rightarrow> (case y_load lib s of None \<Rightarrow> Inr None
           | Some m \<Rightarrow> manager_nodes lib st ls (y_push lib n m)))"

definition LoggerManager_toYamlString :: "yaml_lib \<Rightarrow> log_state \<Rightarrow> log_error + str option" where
  "LoggerManager_toYamlString lib st =
     bindE (manager_nodes lib st (ls_names st) YNull) (\<lambda>r. Inr (map_option (y_emit lib) r))"

end
