(* ===== verification/LogConfig.thy ===== *)
theory LogConfig
  imports Log
begin

text \<open>
  The configuration of the loggers in \<^verbatim>\<open>src/src/log.cc\<close>: the definitions that the variable \<open>logs\<close> holds, their
  conversions from and to YAML, and the listener that applies a change.
\<close>

section \<open>Definitions\<close>

record LogAppenderDefine =
  lad_type :: nat
  lad_level :: level
  lad_formatter :: str
  lad_file :: str

record LogDefine =
  ld_name :: str
  ld_level :: level
  ld_formatter :: str
  ld_appenders :: "LogAppenderDefine list"

definition ld_less :: "LogDefine \<Rightarrow> LogDefine \<Rightarrow> bool" where
  "ld_less a b = lex_less (ld_name a) (ld_name b)"

section \<open>From and to YAML\<close>

text \<open>\<open>n[k].as<std::string>()\<close> if it is defined.\<close>

definition get_string :: "yaml_lib \<Rightarrow> yaml \<Rightarrow> str \<Rightarrow> str option option" where
  "get_string lib n k = (case y_get lib n k of None \<Rightarrow> None | Some None \<Rightarrow> Some None
     | Some (Some v) \<Rightarrow> (case y_string lib v of None \<Rightarrow> None | Some s \<Rightarrow> Some (Some s)))"

text \<open>An appender; the inner \<open>None\<close> is a \<open>continue\<close>. Its level is not read.\<close>

definition read_appender :: "yaml_lib \<Rightarrow> yaml \<Rightarrow> LogAppenderDefine option option" where
  "read_appender lib a =
     (case get_string lib a (lit ''type'') of None \<Rightarrow> None | Some None \<Rightarrow> Some None
      | Some (Some type) \<Rightarrow>
          if type = lit ''FileLogAppender'' then
            (case get_string lib a (lit ''file'') of None \<Rightarrow> None | Some None \<Rightarrow> Some None
             | Some (Some file) \<Rightarrow>
                 (case get_string lib a (lit ''formatter'') of None \<Rightarrow> None
                  | Some f \<Rightarrow> Some (Some \<lparr>lad_type = 1, lad_level = UNKNOW,
                      lad_formatter = (case f of None \<Rightarrow> [] | Some s \<Rightarrow> s), lad_file = file\<rparr>)))
          else if type = lit ''StdoutLogAppender'' then
            Some (Some \<lparr>lad_type = 2, lad_level = UNKNOW, lad_formatter = [], lad_file = []\<rparr>)
          else Some None)"

fun read_appenders :: "yaml_lib \<Rightarrow> yaml list \<Rightarrow> LogAppenderDefine list option" where
  "read_appenders lib [] = Some []"
| "read_appenders lib (a # as) =
     (case read_appender lib a of None \<Rightarrow> None
      | Some r \<Rightarrow> (case read_appenders lib as of None \<Rightarrow> None
          | Some ds \<Rightarrow> Some (case r of None \<Rightarrow> ds | Some d \<Rightarrow> d # ds)))"

definition read_define :: "yaml_lib \<Rightarrow> yaml \<Rightarrow> LogDefine option option" where
  "read_define lib n =
     (case get_string lib n (lit ''name'') of None \<Rightarrow> None | Some None \<Rightarrow> Some None
      | Some (Some name) \<Rightarrow>
        (case get_string lib n (lit ''level'') of None \<Rightarrow> None
         | Some level \<Rightarrow>
           (case get_string lib n (lit ''formatter'') of None \<Rightarrow> None
            | Some f \<Rightarrow>
              (case y_get lib n (lit ''appenders'') of None \<Rightarrow> None
               | Some as \<Rightarrow>
                 (case read_appenders lib (case as of None \<Rightarrow> [] | Some a \<Rightarrow> y_elems lib a) of None \<Rightarrow> None
                  | Some ds \<Rightarrow> Some (Some \<lparr>ld_name = name,
                      ld_level = LogLevel_FromString (case level of None \<Rightarrow> [] | Some s \<Rightarrow> s),
                      ld_formatter = (case f of None \<Rightarrow> [] | Some s \<Rightarrow> s), ld_appenders = ds\<rparr>))))))"

fun read_defines :: "yaml_lib \<Rightarrow> yaml list \<Rightarrow> LogDefine list \<Rightarrow> LogDefine list option" where
  "read_defines lib [] acc = Some acc"
| "read_defines lib (n # ns) acc =
     (case read_define lib n of None \<Rightarrow> None
      | Some None \<Rightarrow> read_defines lib ns acc
      | Some (Some d) \<Rightarrow> read_defines lib ns (oset_insert ld_less d acc))"

text \<open>\<open>LexicalCast<std::string, std::set<LogDefine>>\<close>.\<close>

definition logs_from_string :: "yaml_lib \<Rightarrow> str \<Rightarrow> LogDefine list option" where
  "logs_from_string lib v =
     (case y_load lib v of None \<Rightarrow> None | Some node \<Rightarrow> read_defines lib (y_elems lib node) [])"

definition appender_node :: "yaml_lib \<Rightarrow> LogAppenderDefine \<Rightarrow> yaml" where
  "appender_node lib a =
     (let n1 = (if lad_type a = 1 then
            y_put lib (y_put lib YNull (lit ''type'') (YScalar (lit ''FileLogAppender''))) (lit ''file'') (YScalar (lad_file a))
          else if lad_type a = 2 then y_put lib YNull (lit ''type'') (YScalar (lit ''StdoutLogAppender''))
          else YNull);
          n2 = (if lad_level a \<noteq> UNKNOW then y_put lib n1 (lit ''level'') (YScalar (LogLevel_ToString (lad_level a))) else n1)
      in if lad_formatter a \<noteq> [] then y_put lib n2 (lit ''formatter'') (YScalar (lad_formatter a)) else n2)"

text \<open>The formatter of a logger is written when it is empty.\<close>

definition define_node :: "yaml_lib \<Rightarrow> LogDefine \<Rightarrow> yaml" where
  "define_node lib i =
     (let n1 = y_put lib YNull (lit ''name'') (YScalar (ld_name i));
          n2 = (if ld_level i \<noteq> UNKNOW then y_put lib n1 (lit ''level'') (YScalar (LogLevel_ToString (ld_level i))) else n1);
          n3 = (if ld_formatter i = [] then y_put lib n2 (lit ''formatter'') (YScalar (ld_formatter i)) else n2)
      in if ld_appenders i = [] then n3
         else y_put lib n3 (lit ''appenders'') (foldl (y_push lib) YNull (map (appender_node lib) (ld_appenders i))))"

text \<open>\<open>LexicalCast<std::set<LogDefine>, std::string>\<close>.\<close>

definition logs_to_string :: "yaml_lib \<Rightarrow> LogDefine list \<Rightarrow> str" where
  "logs_to_string lib v = y_emit lib (foldl (y_push lib) YNull (map (define_node lib) v))"

section \<open>The listener\<close>

text \<open>An appender of a definition; a type that is neither leaves the pointer null.\<close>

definition apply_appender :: "log_env \<Rightarrow> str \<Rightarrow> nat \<Rightarrow> LogAppenderDefine \<Rightarrow> log_state \<Rightarrow> log_error + log_state" where
  "apply_appender env name l d st =
     (if lad_type d \<noteq> 1 \<and> lad_type d \<noteq> 2 then Inl NullAppender
      else
        let ap = (if lad_type d = 1 then FileLogAppender_new env (lad_file d) else StdoutLogAppender_new);
            (a, st1) = new_appender (LogAppender_setLevel (lad_level d) ap) st
        in bindE (Logger_addAppender l a st1) (\<lambda>st2.
             if lad_formatter d = [] then Inr st2
             else let f = LogFormatter_new (lad_formatter d) in
               if \<not> f_error f then bindE (find_appender st2 a) (\<lambda>ap2.
                 Inr (put_appender a (LogAppender_setFormatter (Some f) ap2) st2))
               else Inr (write_out [(Console, lit ''log.name = '' @ name @ lit '' appender type = '' @ dec (lad_type d) @
                 lit '' formatter = '' @ lad_formatter d @ lit '' is invalid'' @ [10])] st2)))"

fun apply_appenders :: "log_env \<Rightarrow> str \<Rightarrow> nat \<Rightarrow> LogAppenderDefine list \<Rightarrow> log_state \<Rightarrow> log_error + log_state" where
  "apply_appenders env name l [] st = Inr st"
| "apply_appenders env name l (d # ds) st = bindE (apply_appender env name l d st) (apply_appenders env name l ds)"

text \<open>What is done to a logger once the pointer is set.\<close>

definition apply_to :: "log_env \<Rightarrow> LogDefine \<Rightarrow> nat \<Rightarrow> log_state \<Rightarrow> log_error + log_state" where
  "apply_to env i l st =
     bindE (Logger_setLevel l (ld_level i) st) (\<lambda>st1.
     bindE (if ld_formatter i \<noteq> [] then Logger_setPattern l (ld_formatter i) st1 else Inr st1) (\<lambda>st2.
     bindE (Logger_clearAppender l st2) (\<lambda>st3. apply_appenders env (ld_name i) l (ld_appenders i) st3)))"

text \<open>
  One definition of the new value. When the old value holds the same definition no branch sets the pointer, and
  it is used all the same.
\<close>

definition apply_define :: "log_env \<Rightarrow> LogDefine list \<Rightarrow> LogDefine \<Rightarrow> log_state \<Rightarrow> log_error + log_state" where
  "apply_define env old_value i st =
     (let (st1, logger) =
        (case oset_find ld_less i old_value of
           None \<Rightarrow> let (st1, l) = getLogger (ld_name i) st in (st1, Some l)
         | Some it \<Rightarrow> if i \<noteq> it then let (st1, l) = getLogger (ld_name i) st in (st1, Some l) else (st, None))
      in (case logger of None \<Rightarrow> Inl NullLogger | Some l \<Rightarrow> apply_to env i l st1))"

fun apply_defines :: "log_env \<Rightarrow> LogDefine list \<Rightarrow> LogDefine list \<Rightarrow> log_state \<Rightarrow> log_error + log_state" where
  "apply_defines env old_value [] st = Inr st"
| "apply_defines env old_value (i # is) st =
     bindE (apply_define env old_value i st) (apply_defines env old_value is)"

text \<open>A definition that is gone.\<close>

definition drop_define :: "LogDefine list \<Rightarrow> LogDefine \<Rightarrow> log_state \<Rightarrow> log_error + log_state" where
  "drop_define new_value i st =
     (if oset_find ld_less i new_value = None then
        let (st1, l) = getLogger (ld_name i) st
        in bindE (Logger_setLevel l 100 st1) (Logger_clearAppender l)
      else Inr st)"

fun drop_defines :: "LogDefine list \<Rightarrow> LogDefine list \<Rightarrow> log_state \<Rightarrow> log_error + log_state" where
  "drop_defines new_value [] st = Inr st"
| "drop_defines new_value (i # is) st = bindE (drop_define new_value i st) (drop_defines new_value is)"

text \<open>The listener; the event is the one its own log line makes, but for the logger and the text.\<close>

definition conf_changed :: "log_env \<Rightarrow> log_event \<Rightarrow> LogDefine list \<Rightarrow> LogDefine list \<Rightarrow> log_state \<Rightarrow> log_error + log_state" where
  "conf_changed env ev old_value new_value st =
     bindE (LOG_LEVEL env 2 (ev\<lparr>e_logger := getRoot st, e_level := INFO, e_content := lit ''on_logger_conf_changed''\<rparr>) st)
       (\<lambda>st1. bindE (apply_defines env old_value new_value st1) (drop_defines new_value old_value))"

end
