(* ===== verification/StrOrder.thy ===== *)
theory StrOrder
  imports CString StdOrdered
begin

text \<open>The order of \<^verbatim>\<open>std::string\<close> is a strict total order: the laws of maps with string keys.\<close>

interpretation lx: strict_total lex_less
proof
  show "\<not> lex_less x x" for x by (rule lex_less_irrefl)
  show "lex_less x y \<Longrightarrow> lex_less y z \<Longrightarrow> lex_less x z" for x y z by (rule lex_less_trans)
  show "incomp lex_less x y \<Longrightarrow> incomp lex_less y z \<Longrightarrow> incomp lex_less x z" for x y z
    using lex_less_linear [of x y] lex_less_linear [of y z] by (auto simp: incomp_def)
  show "x \<noteq> y \<Longrightarrow> lex_less x y \<or> lex_less y x" for x y using lex_less_linear [of x y] by blast
qed

end
