(* ===== verification/Log_Spec.thy ===== *)
theory Log_Spec
  imports Log LogFormat_Spec StrOrder
begin

text \<open>
  What the loggers promise. The locale \<open>appender_contract\<close> is the contract of the virtual method
  \<open>LogAppender::log\<close>; the two classes and the dispatch over them are interpretations, and the loop of
  \<open>Logger::log\<close> is verified against it. Then the invariant of the loggers and the appenders, kept by
  every operation, under which an event is delivered to each appender whose level it reaches.
\<close>

lemma bindE_simps [simp]: "bindE (Inl e) f = Inl e" "bindE (Inr x) f = f x"
  by (simp_all add: bindE_def)

lemma bindE_Inr: "bindE m f = Inr y \<longleftrightarrow> (\<exists>x. m = Inr x \<and> f x = Inr y)"
  by (cases m) auto

lemma find_simps [simp]:
  "find_logger st l = Inr lg \<longleftrightarrow> ls_loggers st l = Some lg"
  "find_appender st a = Inr ap \<longleftrightarrow> ls_appenders st a = Some ap"
  by (auto simp: find_logger_def find_appender_def split: option.splits)

lemma put_simps [simp]:
  "ls_appenders (put_appender a ap st) = (ls_appenders st)(a \<mapsto> ap)"
  "ls_loggers (put_appender a ap st) = ls_loggers st" "ls_next (put_appender a ap st) = ls_next st"
  "ls_names (put_appender a ap st) = ls_names st" "ls_root (put_appender a ap st) = ls_root st"
  "ls_written (put_appender a ap st) = ls_written st"
  "ls_loggers (put_logger l lg st) = (ls_loggers st)(l \<mapsto> lg)"
  "ls_appenders (put_logger l lg st) = ls_appenders st" "ls_next (put_logger l lg st) = ls_next st"
  "ls_names (put_logger l lg st) = ls_names st" "ls_root (put_logger l lg st) = ls_root st"
  "ls_written (put_logger l lg st) = ls_written st"
  "ls_appenders (write_out w st) = ls_appenders st" "ls_loggers (write_out w st) = ls_loggers st"
  "ls_next (write_out w st) = ls_next st" "ls_names (write_out w st) = ls_names st"
  "ls_root (write_out w st) = ls_root st" "ls_written (write_out w st) = ls_written st @ w"
  by (simp_all add: put_appender_def put_logger_def write_out_def)

section \<open>The contract of an appender\<close>

text \<open>What logging never changes of an appender.\<close>

definition same_config :: "appender \<Rightarrow> appender \<Rightarrow> bool" where
  "same_config a b \<longleftrightarrow> ap_kind a = ap_kind b \<and> ap_level a = ap_level b \<and> ap_formatter a = ap_formatter b \<and>
     ap_hasFormatter a = ap_hasFormatter b"

definition sink_of :: "appender \<Rightarrow> sink" where
  "sink_of a = (case ap_kind a of FileLogAppender f \<Rightarrow> LogFile f | StdoutLogAppender \<Rightarrow> Console)"

text \<open>The file behind an appender can be opened and written, and is open.\<close>

definition healthy :: "log_env \<Rightarrow> appender \<Rightarrow> bool" where
  "healthy env a = (case ap_kind a of
       FileLogAppender f \<Rightarrow> le_opens env f \<and> le_writes env f \<and> ap_open a \<and> \<not> ap_fail a
     | StdoutLogAppender \<Rightarrow> True)"

lemma same_config_refl [simp]: "same_config a a"
  by (simp add: same_config_def)

lemma same_config_trans: "same_config a b \<Longrightarrow> same_config b c \<Longrightarrow> same_config a c"
  by (simp add: same_config_def)

lemma format_line_cong: "same_config a b \<Longrightarrow> format_line env name level ev a = format_line env name level ev b"
  by (simp add: same_config_def format_line_def)

lemma sink_of_cong: "same_config a b \<Longrightarrow> sink_of a = sink_of b"
  by (simp add: same_config_def sink_of_def)

text \<open>What the appenders of a list are to write, in order.\<close>

definition deliver_one :: "log_env \<Rightarrow> str \<Rightarrow> level \<Rightarrow> log_event \<Rightarrow> appender \<Rightarrow> (sink \<times> str) list" where
  "deliver_one env name level ev a =
     (if ap_level a \<le> level then
        (case format_line env name level ev a of Inr s \<Rightarrow> [(sink_of a, s)] | Inl _ \<Rightarrow> [])
      else [])"

fun deliver :: "log_env \<Rightarrow> str \<Rightarrow> level \<Rightarrow> log_event \<Rightarrow> log_state \<Rightarrow> nat list \<Rightarrow> (sink \<times> str) list" where
  "deliver env name level ev st [] = []"
| "deliver env name level ev st (a # as) =
     (case ls_appenders st a of None \<Rightarrow> [] | Some ap \<Rightarrow> deliver_one env name level ev ap) @
     deliver env name level ev st as"

definition same_configs :: "log_state \<Rightarrow> log_state \<Rightarrow> bool" where
  "same_configs st st' \<longleftrightarrow>
     (\<forall>a. (ls_appenders st a = None \<longleftrightarrow> ls_appenders st' a = None) \<and>
       (\<forall>ap ap'. ls_appenders st a = Some ap \<longrightarrow> ls_appenders st' a = Some ap' \<longrightarrow> same_config ap ap'))"

text \<open>All but the stream states and what is written stays.\<close>

definition only_logged :: "log_state \<Rightarrow> log_state \<Rightarrow> bool" where
  "only_logged st st' \<longleftrightarrow> same_configs st st' \<and> ls_loggers st' = ls_loggers st \<and> ls_next st' = ls_next st \<and>
     ls_names st' = ls_names st \<and> ls_root st' = ls_root st"

lemma same_configs_SomeD: "same_configs st st' \<Longrightarrow> ls_appenders st a = Some ap \<Longrightarrow>
    \<exists>ap'. ls_appenders st' a = Some ap' \<and> same_config ap ap'"
  by (metis not_Some_eq same_configs_def)

lemma only_logged_refl: "only_logged st st"
  by (auto simp: only_logged_def same_configs_def)

lemma only_logged_trans: "only_logged a b \<Longrightarrow> only_logged b c \<Longrightarrow> only_logged a c"
  unfolding only_logged_def same_configs_def using same_config_trans by (metis not_Some_eq)

lemma only_logged_put: "ls_appenders st a = Some ap \<Longrightarrow> same_config ap ap' \<Longrightarrow>
    only_logged st (write_out w (put_appender a ap' st))"
  by (auto simp: only_logged_def same_configs_def)

lemma deliver_one_cong: "same_config a b \<Longrightarrow> deliver_one env name level ev a = deliver_one env name level ev b"
proof -
  assume c: "same_config a b"
  have "ap_level a = ap_level b" using c by (simp add: same_config_def)
  then show ?thesis by (simp add: deliver_one_def format_line_cong [OF c] sink_of_cong [OF c] split: sum.splits)
qed

lemma deliver_cong: "same_configs st st' \<Longrightarrow> deliver env name level ev st' as = deliver env name level ev st as"
proof (induction as)
  case (Cons a as)
  have "(case ls_appenders st' a of None \<Rightarrow> [] | Some ap \<Rightarrow> deliver_one env name level ev ap) =
      (case ls_appenders st a of None \<Rightarrow> [] | Some ap \<Rightarrow> deliver_one env name level ev ap)"
    using Cons.prems deliver_one_cong unfolding same_configs_def by (fastforce split: option.splits)
  then show ?case using Cons by simp
qed simp

locale appender_contract =
  fixes alog :: "log_env \<Rightarrow> str \<Rightarrow> level \<Rightarrow> log_event \<Rightarrow> appender \<Rightarrow> log_error + appender \<times> (sink \<times> str) list"
    and mine :: "appender \<Rightarrow> bool"
  assumes quiet: "mine a \<Longrightarrow> level < ap_level a \<Longrightarrow> alog env name level ev a = Inr (a, [])"
    and total: "mine a \<Longrightarrow> format_line env name level ev a = Inr s \<Longrightarrow>
      \<exists>a' w. alog env name level ev a = Inr (a', w) \<and> same_config a a'"
    and line: "mine a \<Longrightarrow> ap_level a \<le> level \<Longrightarrow> healthy env a \<Longrightarrow> format_line env name level ev a = Inr s \<Longrightarrow>
      \<exists>a'. alog env name level ev a = Inr (a', [(sink_of a, s)]) \<and> same_config a a' \<and> healthy env a'"
begin

lemma logs_all:
  assumes "\<forall>a\<in>set as. \<exists>ap s. ls_appenders st a = Some ap \<and> mine ap \<and> format_line env name level ev ap = Inr s"
    and "\<And>a b. same_config a b \<Longrightarrow> mine a = mine b"
  shows "\<exists>st'. log_appenders (alog env name level ev) as st = Inr st' \<and> only_logged st st'"
  using assms(1)
proof (induction as arbitrary: st)
  case (Cons a as)
  then obtain ap s where ap: "ls_appenders st a = Some ap" "mine ap" "format_line env name level ev ap = Inr s" by auto
  obtain ap' w where r: "alog env name level ev ap = Inr (ap', w)" "same_config ap ap'" using total [OF ap(2,3)] by blast
  let ?st = "write_out w (put_appender a ap' st)"
  have step: "only_logged st ?st" using only_logged_put [OF ap(1) r(2)] .
  have "\<exists>bp s. ls_appenders ?st b = Some bp \<and> mine bp \<and> format_line env name level ev bp = Inr s"
    if "b \<in> set as" for b
  proof (cases "b = a")
    case True
    then show ?thesis using ap r assms(2) [OF r(2)] format_line_cong [OF r(2)] by simp
  next
    case False
    then show ?thesis using Cons.prems that by simp
  qed
  then obtain st' where "log_appenders (alog env name level ev) as ?st = Inr st'" "only_logged ?st st'"
    using Cons.IH by blast
  then show ?case using ap(1) r(1) only_logged_trans [OF step] by (simp add: find_appender_def)
qed (auto simp: only_logged_refl)

lemma delivers_all:
  assumes "\<forall>a\<in>set as. \<exists>ap s. ls_appenders st a = Some ap \<and> mine ap \<and> healthy env ap \<and>
      format_line env name level ev ap = Inr s"
    and "\<And>a b. same_config a b \<Longrightarrow> mine a = mine b"
  shows "\<exists>st'. log_appenders (alog env name level ev) as st = Inr st' \<and> only_logged st st' \<and>
    ls_written st' = ls_written st @ deliver env name level ev st as"
  using assms(1)
proof (induction as arbitrary: st)
  case (Cons a as)
  then obtain ap s where ap: "ls_appenders st a = Some ap" "mine ap" "healthy env ap"
    "format_line env name level ev ap = Inr s" by auto
  have "\<exists>ap'. alog env name level ev ap = Inr (ap', deliver_one env name level ev ap) \<and> same_config ap ap' \<and> healthy env ap'"
    using quiet [OF ap(2)] line [OF ap(2) _ ap(3,4)] ap(3,4) by (auto simp: deliver_one_def)
  then obtain ap' where r: "alog env name level ev ap = Inr (ap', deliver_one env name level ev ap)"
    "same_config ap ap'" "healthy env ap'" by blast
  let ?st = "write_out (deliver_one env name level ev ap) (put_appender a ap' st)"
  have step: "only_logged st ?st" using only_logged_put [OF ap(1) r(2)] .
  have "\<exists>bp s. ls_appenders ?st b = Some bp \<and> mine bp \<and> healthy env bp \<and> format_line env name level ev bp = Inr s"
    if "b \<in> set as" for b
  proof (cases "b = a")
    case True
    then show ?thesis using ap r assms(2) [OF r(2)] format_line_cong [OF r(2)] by simp
  next
    case False
    then show ?thesis using Cons.prems that by simp
  qed
  then obtain st' where st': "log_appenders (alog env name level ev) as ?st = Inr st'" "only_logged ?st st'"
    "ls_written st' = ls_written ?st @ deliver env name level ev ?st as"
    using Cons.IH by blast
  have "deliver env name level ev ?st as = deliver env name level ev st as"
    using step deliver_cong by (simp add: only_logged_def)
  then show ?case using ap(1) r(1) st' only_logged_trans [OF step] by (simp add: find_appender_def)
qed (auto simp: only_logged_refl)

end

lemma reopen_config: "same_config a (fst (reopen env file a))"
  by (simp add: reopen_def stream_close_def stream_open_def same_config_def Let_def)

lemma reopen_healthy: "ap_kind a = FileLogAppender file \<Longrightarrow> healthy env a \<Longrightarrow> healthy env (fst (reopen env file a))"
  by (simp add: reopen_def stream_close_def stream_open_def healthy_def Let_def)

lemma healthy_lastTime: "healthy env (a\<lparr>ap_lastTime := t\<rparr>) = healthy env a"
  by (simp add: healthy_def split: appender_kind.splits)

interpretation so: appender_contract StdoutLogAppender_log "\<lambda>a. ap_kind a = StdoutLogAppender"
  by unfold_locales (auto simp: StdoutLogAppender_log_def sink_of_def)

definition file_of :: "appender \<Rightarrow> str" where
  "file_of a = (case ap_kind a of FileLogAppender f \<Rightarrow> f | StdoutLogAppender \<Rightarrow> [])"

interpretation fo: appender_contract "\<lambda>env name level ev a. FileLogAppender_log env (file_of a) name level ev a"
  "\<lambda>a. \<exists>f. ap_kind a = FileLogAppender f"
proof
  fix a :: appender and env name level and ev :: log_event and s :: str
  assume isf: "\<exists>f. ap_kind a = FileLogAppender f"
  define now a1 where "now = (ucast (e_time ev) :: u64)"
    and "a1 = (if ap_lastTime a + 3 \<le> now then (fst (reopen env (file_of a) a))\<lparr>ap_lastTime := now\<rparr> else a)"
  have conf: "same_config a a1" using reopen_config [of a env "file_of a"] by (simp add: a1_def same_config_def)
  have log: "FileLogAppender_log env (file_of a) name level ev a = (if ap_level a \<le> level
      then (case format_line env name level ev a of Inl e \<Rightarrow> Inl e
        | Inr s \<Rightarrow> if ap_open a1 \<and> \<not> ap_fail a1 \<and> le_writes env (file_of a)
            then Inr (a1, [(LogFile (file_of a), s)]) else Inr (a1\<lparr>ap_fail := True\<rparr>, [(Console, lit ''error'' @ [10])]))
      else Inr (a, []))"
    unfolding FileLogAppender_log_def Let_def now_def [symmetric] a1_def [symmetric]
      format_line_cong [OF conf, symmetric] by (rule refl)
  show "level < ap_level a \<Longrightarrow> FileLogAppender_log env (file_of a) name level ev a = Inr (a, [])" using log by simp
  show "format_line env name level ev a = Inr s \<Longrightarrow>
      \<exists>a' w. FileLogAppender_log env (file_of a) name level ev a = Inr (a', w) \<and> same_config a a'"
    using log conf by (auto simp: same_config_def)
  show "ap_level a \<le> level \<Longrightarrow> healthy env a \<Longrightarrow> format_line env name level ev a = Inr s \<Longrightarrow>
      \<exists>a'. FileLogAppender_log env (file_of a) name level ev a = Inr (a', [(sink_of a, s)]) \<and>
        same_config a a' \<and> healthy env a'"
  proof -
    assume h: "healthy env a" "ap_level a \<le> level" "format_line env name level ev a = Inr s"
    obtain f where f: "ap_kind a = FileLogAppender f" using isf by blast
    have "healthy env a1" using reopen_healthy [OF f h(1)] h(1) f by (simp add: a1_def file_of_def healthy_lastTime)
    moreover have "ap_kind a1 = FileLogAppender f" using conf f by (simp add: same_config_def)
    ultimately have "ap_open a1 \<and> \<not> ap_fail a1 \<and> le_writes env (file_of a)"
      using f by (simp add: healthy_def file_of_def)
    then have "FileLogAppender_log env (file_of a) name level ev a = Inr (a1, [(sink_of a, s)])"
      using h f log by (simp add: sink_of_def file_of_def)
    then show ?thesis using conf \<open>healthy env a1\<close> by blast
  qed
qed

interpretation va: appender_contract LogAppender_log "\<lambda>_. True"
proof
  fix a :: appender and env name level and ev :: log_event and s :: str
  have log: "LogAppender_log env name level ev a = (if ap_kind a = StdoutLogAppender then StdoutLogAppender_log env name level ev a
      else FileLogAppender_log env (file_of a) name level ev a)"
    by (simp add: LogAppender_log_def file_of_def split: appender_kind.splits)
  have kind: "ap_kind a \<noteq> StdoutLogAppender \<Longrightarrow> \<exists>f. ap_kind a = FileLogAppender f" by (cases "ap_kind a") auto
  show "level < ap_level a \<Longrightarrow> LogAppender_log env name level ev a = Inr (a, [])"
    by (cases "ap_kind a = StdoutLogAppender") (simp_all add: log so.quiet fo.quiet kind)
  show "format_line env name level ev a = Inr s \<Longrightarrow>
      \<exists>a' w. LogAppender_log env name level ev a = Inr (a', w) \<and> same_config a a'"
    using so.total fo.total kind log by metis
  show "ap_level a \<le> level \<Longrightarrow> healthy env a \<Longrightarrow> format_line env name level ev a = Inr s \<Longrightarrow>
      \<exists>a'. LogAppender_log env name level ev a = Inr (a', [(sink_of a, s)]) \<and> same_config a a' \<and> healthy env a'"
    by (cases "ap_kind a = StdoutLogAppender") (simp_all add: log so.line fo.line kind)
qed

section \<open>The invariant\<close>

text \<open>Every attached appender exists and has a formatter; roots are the root logger, which has none itself.\<close>

definition attached :: "log_state \<Rightarrow> nat \<Rightarrow> bool" where
  "attached st a \<longleftrightarrow> (\<exists>ap. ls_appenders st a = Some ap \<and> ap_formatter ap \<noteq> None)"

definition logger_ok :: "log_state \<Rightarrow> logger \<Rightarrow> bool" where
  "logger_ok st lg \<longleftrightarrow> lg_formatter lg \<noteq> None \<and> (lg_root lg = None \<or> lg_root lg = Some (ls_root st)) \<and>
     (\<forall>a\<in>set (lg_appenders lg). attached st a)"

definition appender_ok :: "appender \<Rightarrow> bool" where
  "appender_ok ap \<longleftrightarrow> (ap_hasFormatter ap \<longrightarrow> ap_formatter ap \<noteq> None)"

definition log_ok :: "log_state \<Rightarrow> bool" where
  "log_ok st \<longleftrightarrow>
     (\<forall>l lg. ls_loggers st l = Some lg \<longrightarrow> l < ls_next st \<and> logger_ok st lg) \<and>
     (\<forall>a ap. ls_appenders st a = Some ap \<longrightarrow> a < ls_next st \<and> appender_ok ap) \<and>
     (\<exists>r. ls_loggers st (ls_root st) = Some r \<and> lg_root r = None) \<and>
     sorted_wrt lex_less (map fst (ls_names st)) \<and>
     (\<forall>(n, l)\<in>set (ls_names st). \<exists>lg. ls_loggers st l = Some lg \<and> lg_name lg = n)"

lemma log_okD:
  assumes "log_ok st"
  shows "ls_loggers st l = Some lg \<Longrightarrow> logger_ok st lg" and "ls_loggers st l = Some lg \<Longrightarrow> l < ls_next st"
    and "ls_appenders st a = Some ap \<Longrightarrow> appender_ok ap" and "ls_appenders st a = Some ap \<Longrightarrow> a < ls_next st"
    and "\<exists>r. ls_loggers st (ls_root st) = Some r \<and> lg_root r = None"
    and "sorted_wrt lex_less (map fst (ls_names st))"
    and "(n, l) \<in> set (ls_names st) \<Longrightarrow> \<exists>lg. ls_loggers st l = Some lg \<and> lg_name lg = n"
  using assms by (auto simp: log_ok_def)

lemma log_okI:
  assumes "\<And>l lg. ls_loggers st l = Some lg \<Longrightarrow> l < ls_next st \<and> logger_ok st lg"
    and "\<And>a ap. ls_appenders st a = Some ap \<Longrightarrow> a < ls_next st \<and> appender_ok ap"
    and "\<exists>r. ls_loggers st (ls_root st) = Some r \<and> lg_root r = None"
    and "sorted_wrt lex_less (map fst (ls_names st))"
    and "\<And>n l. (n, l) \<in> set (ls_names st) \<Longrightarrow> \<exists>lg. ls_loggers st l = Some lg \<and> lg_name lg = n"
  shows "log_ok st"
  using assms unfolding log_ok_def by blast

lemma logger_ok_mono: "logger_ok st lg \<Longrightarrow> ls_root st' = ls_root st \<Longrightarrow> (\<And>a. attached st a \<Longrightarrow> attached st' a) \<Longrightarrow>
    logger_ok st' lg"
  by (auto simp: logger_ok_def)

lemma log_ok_put_appender:
  assumes ok: "log_ok st" and a: "a < ls_next st"
    and f: "attached st a \<Longrightarrow> ap_formatter ap \<noteq> None" and own: "appender_ok ap"
  shows "log_ok (put_appender a ap st)"
proof -
  have att: "attached st b \<Longrightarrow> attached (put_appender a ap st) b" for b
    using f by (auto simp: attached_def)
  have lg: "logger_ok st x \<Longrightarrow> logger_ok (put_appender a ap st) x" for x
    by (rule logger_ok_mono [OF _ _ att]) auto
  show ?thesis
    unfolding log_ok_def using log_okD [OF ok] a own lg by auto
qed

lemma log_ok_put_logger:
  assumes ok: "log_ok st" and l: "ls_loggers st l = Some lg" and new: "lg_name lg' = lg_name lg" "lg_root lg' = lg_root lg"
    and ok': "logger_ok st lg'"
  shows "log_ok (put_logger l lg' st)"
proof -
  have same: "logger_ok (put_logger l lg' st) x = logger_ok st x" for x
    by (simp add: logger_ok_def attached_def)
  have names: "\<exists>x. ls_loggers (put_logger l lg' st) k = Some x \<and> lg_name x = n" if "(n, k) \<in> set (ls_names st)" for n k
    using log_okD(7) [OF ok that] l new(1) by auto
  have root: "\<exists>r. ls_loggers (put_logger l lg' st) (ls_root st) = Some r \<and> lg_root r = None"
    using log_okD(5) [OF ok] l new(2) by auto
  show ?thesis
  proof (rule log_okI)
    show "\<And>n k. (n, k) \<in> set (ls_names (put_logger l lg' st)) \<Longrightarrow>
        \<exists>x. ls_loggers (put_logger l lg' st) k = Some x \<and> lg_name x = n" using names by simp
  qed (use log_okD(1-4,6) [OF ok] ok' log_okD(2) [OF ok l] root same in \<open>auto split: if_splits\<close>)
qed

lemma log_ok_write_out [simp]: "log_ok (write_out w st) = log_ok st"
  by (simp add: log_ok_def logger_ok_def attached_def)

lemma log_ok_only_logged:
  assumes ok: "log_ok st" and "only_logged st st'"
  shows "log_ok st'"
proof -
  note o = assms(2) [unfolded only_logged_def]
  have att: "attached st a \<Longrightarrow> attached st' a" for a
    using o same_configs_SomeD [of st st' a] unfolding attached_def same_config_def by metis
  have lg: "logger_ok st x \<Longrightarrow> logger_ok st' x" for x
    by (rule logger_ok_mono [OF _ _ att]) (use o in auto)
  have apps: "a < ls_next st' \<and> appender_ok ap" if ap: "ls_appenders st' a = Some ap" for a ap
  proof -
    obtain bp where bp: "ls_appenders st a = Some bp" using o ap unfolding same_configs_def by (metis not_Some_eq)
    then have "same_config bp ap" using o ap by (simp add: same_configs_def)
    then show ?thesis using log_okD(3,4) [OF ok bp] o by (simp add: appender_ok_def same_config_def)
  qed
  show ?thesis
    by (rule log_okI) (use o log_okD(1,2,5,6,7) [OF ok] apps lg in auto)
qed

lemma log_ok_new:
  assumes ok: "log_ok st"
  shows "log_ok (st\<lparr>ls_next := Suc (ls_next st)\<rparr>)"
proof -
  have "logger_ok (st\<lparr>ls_next := Suc (ls_next st)\<rparr>) lg = logger_ok st lg" for lg
    by (simp add: logger_ok_def attached_def)
  then show ?thesis unfolding log_ok_def using log_okD [OF ok] by (auto intro: less_SucI)
qed

lemma omap_find_mem: "omap_find lex_less k m = Some v \<Longrightarrow> (k, v) \<in> set m"
  by (induction m) (auto split: if_splits)

lemma omap_set_mem: "p \<in> set (omap_set lex_less k v m) \<Longrightarrow> p = (k, v) \<or> p \<in> set m"
proof (induction m)
  case (Cons q m)
  obtain k' v' where q: "q = (k', v')" by (cases q)
  show ?case
    using Cons lx.total [of k k'] by (auto simp: q split: if_splits)
qed simp

text \<open>A new logger under a name that has none.\<close>

lemma getLogger_ok:
  assumes ok: "log_ok st" and g: "getLogger name st = (st', l)"
  shows "log_ok st' \<and> (\<exists>lg. ls_loggers st' l = Some lg \<and> lg_name lg = name)"
proof (cases "omap_find lex_less name (ls_names st)")
  case (Some k)
  then show ?thesis using g ok log_okD(7) [OF ok omap_find_mem [OF Some]] by (simp add: getLogger_def)
next
  case None
  let ?lg = "(Logger_new name)\<lparr>lg_root := Some (ls_root st)\<rparr>" and ?n = "ls_next st"
  have st': "st' = (put_logger ?n ?lg (st\<lparr>ls_next := Suc ?n\<rparr>))\<lparr>ls_names := omap_set lex_less name ?n (ls_names st)\<rparr>"
    and l: "l = ?n"
    using None g by (auto simp: getLogger_def new_logger_def Let_def)
  have fresh: "ls_loggers st ?n = None" using log_okD(2) [OF ok, of ?n] by (cases "ls_loggers st ?n") auto
  have same: "logger_ok st' x = logger_ok st x" for x by (simp add: st' logger_ok_def attached_def)
  have new: "logger_ok st ?lg" by (simp add: logger_ok_def Logger_new_def)
  have root: "\<exists>r. ls_loggers st' (ls_root st') = Some r \<and> lg_root r = None"
    using log_okD(5) [OF ok] fresh by (auto simp: st')
  have names: "\<exists>lg. ls_loggers st' k = Some lg \<and> lg_name lg = n" if p: "(n, k) \<in> set (ls_names st')" for n k
  proof -
    have "(n, k) = (name, ?n) \<or> (n, k) \<in> set (ls_names st)" using p omap_set_mem [of "(n, k)"] by (auto simp: st')
    then show ?thesis using log_okD(7) [OF ok, of n k] fresh by (auto simp: st' Logger_new_def)
  qed
  have sorted: "sorted_wrt lex_less (map fst (ls_names st'))"
    using lx.map_ordered_set [OF log_okD(6) [OF ok]] by (simp add: st')
  have "log_ok st'"
  proof (rule log_okI)
    show "k < ls_next st' \<and> logger_ok st' x" if "ls_loggers st' k = Some x" for k x
      unfolding same using log_okD(1,2) [OF ok] new that by (auto simp: st' less_Suc_eq split: if_splits)
    show "a < ls_next st' \<and> appender_ok ap" if "ls_appenders st' a = Some ap" for a ap
      using log_okD(3,4) [OF ok] that by (auto simp: st' less_Suc_eq)
  qed (fact root sorted names)+
  then show ?thesis by (simp add: l st' Logger_new_def)
qed

lemma new_appender_ok:
  assumes "log_ok st" "new_appender ap st = (a, st')" "appender_ok ap"
  shows "log_ok st' \<and> ls_appenders st' a = Some ap"
proof -
  let ?st = "st\<lparr>ls_next := Suc (ls_next st)\<rparr>"
  have eq: "a = ls_next st" "st' = put_appender (ls_next st) ap ?st" using assms(2) by (auto simp: new_appender_def)
  have "\<not> attached ?st (ls_next st)" using log_okD(4) [OF assms(1), of "ls_next st"] by (auto simp: attached_def)
  then show ?thesis
    unfolding eq using log_ok_put_appender [OF log_ok_new [OF assms(1)], of "ls_next st" ap] assms(3) by simp
qed

lemma inherit_ok:
  assumes "log_ok st" "\<forall>a\<in>set as. attached st a" "f \<noteq> None"
  shows "\<exists>st'. inherit_formatter f as st = Inr st' \<and> log_ok st'"
  using assms(1,2)
proof (induction as arbitrary: st)
  case (Cons a as)
  then obtain ap where ap: "ls_appenders st a = Some ap" "ap_formatter ap \<noteq> None" by (auto simp: attached_def)
  let ?st = "if ap_hasFormatter ap then st else put_appender a (ap\<lparr>ap_formatter := f\<rparr>) st"
  have "log_ok ?st"
    using Cons.prems(1) log_ok_put_appender [OF Cons.prems(1) log_okD(4) [OF Cons.prems(1) ap(1)], of "ap\<lparr>ap_formatter := f\<rparr>"]
      assms(3) by (simp add: appender_ok_def)
  moreover have "\<forall>b\<in>set as. attached ?st b" using Cons.prems(2) assms(3) by (auto simp: attached_def)
  ultimately show ?case using Cons.IH ap(1) by (simp add: find_appender_def)
qed simp

text \<open>The operations of the component, as one datatype; each runs in an environment of its own.\<close>

datatype log_cmd = GetLogger str | NewFile str | NewStdout | AddAppender nat nat | DelAppender nat nat
  | ClearAppender nat | SetLevel nat level | SetFormatter nat "formatter option" | SetPattern nat str
  | AppenderFormatter nat "formatter option" | AppenderLevel nat level | Log log_event

definition change_appender :: "nat \<Rightarrow> (appender \<Rightarrow> appender) \<Rightarrow> log_state \<Rightarrow> log_error + log_state" where
  "change_appender a f st = bindE (find_appender st a) (\<lambda>ap. Inr (put_appender a (f ap) st))"

fun log_step :: "log_env \<Rightarrow> log_cmd \<Rightarrow> log_state \<Rightarrow> log_error + log_state" where
  "log_step env (GetLogger name) st = Inr (fst (getLogger name st))"
| "log_step env (NewFile f) st = Inr (snd (new_appender (FileLogAppender_new env f) st))"
| "log_step env NewStdout st = Inr (snd (new_appender StdoutLogAppender_new st))"
| "log_step env (AddAppender l a) st = Logger_addAppender l a st"
| "log_step env (DelAppender l a) st = Logger_delAppender l a st"
| "log_step env (ClearAppender l) st = Logger_clearAppender l st"
| "log_step env (SetLevel l level) st = Logger_setLevel l level st"
| "log_step env (SetFormatter l f) st = Logger_setFormatter l f st"
| "log_step env (SetPattern l val) st = Logger_setPattern l val st"
| "log_step env (AppenderFormatter a f) st = change_appender a (LogAppender_setFormatter f) st"
| "log_step env (AppenderLevel a level) st = change_appender a (LogAppender_setLevel level) st"
| "log_step env (Log ev) st = LOG_LEVEL env 2 ev st"

text \<open>The date texts of an event fit into the buffer, in the formats that the appender's formatter has.\<close>

definition fits :: "log_env \<Rightarrow> log_event \<Rightarrow> appender \<Rightarrow> bool" where
  "fits env ev ap \<longleftrightarrow> (\<forall>f fmt. ap_formatter ap = Some f \<and> DateTimeFormatItem fmt \<in> set (f_items f) \<longrightarrow>
     le_strftime env (cstr fmt) (e_time ev) \<noteq> None)"

definition all_fit :: "log_env \<Rightarrow> log_event \<Rightarrow> log_state \<Rightarrow> bool" where
  "all_fit env ev st \<longleftrightarrow> (\<forall>a ap. ls_appenders st a = Some ap \<longrightarrow> fits env ev ap)"

text \<open>
  What is asked of the caller: it holds pointers to the objects it names, sets no null formatter (a null formatter
  is refused nowhere and crashes later, see below), and logs when the dates fit that the formatters now in use write.
\<close>

definition has_logger :: "log_state \<Rightarrow> nat \<Rightarrow> bool" where "has_logger st l \<longleftrightarrow> ls_loggers st l \<noteq> None"
definition has_appender :: "log_state \<Rightarrow> nat \<Rightarrow> bool" where "has_appender st a \<longleftrightarrow> ls_appenders st a \<noteq> None"

fun cmd_ok :: "log_state \<Rightarrow> log_cmd \<Rightarrow> log_env \<Rightarrow> bool" where
  "cmd_ok st (AddAppender l a) env \<longleftrightarrow> has_logger st l \<and> has_appender st a"
| "cmd_ok st (DelAppender l a) env \<longleftrightarrow> has_logger st l"
| "cmd_ok st (ClearAppender l) env \<longleftrightarrow> has_logger st l"
| "cmd_ok st (SetLevel l level) env \<longleftrightarrow> has_logger st l"
| "cmd_ok st (SetFormatter l f) env \<longleftrightarrow> has_logger st l \<and> f \<noteq> None"
| "cmd_ok st (SetPattern l val) env \<longleftrightarrow> has_logger st l"
| "cmd_ok st (AppenderFormatter a f) env \<longleftrightarrow> has_appender st a \<and> f \<noteq> None"
| "cmd_ok st (AppenderLevel a level) env \<longleftrightarrow> has_appender st a"
| "cmd_ok st (Log ev) env \<longleftrightarrow> has_logger st (e_logger ev) \<and> all_fit env ev st"
| "cmd_ok st _ env \<longleftrightarrow> True"

lemma item_format_total:
  "(\<And>fmt. i = DateTimeFormatItem fmt \<Longrightarrow> strftime (cstr fmt) (e_time ev) \<noteq> None) \<Longrightarrow> \<exists>s. item_format strftime name level ev i = Some s"
  by (cases i) (auto simp: item_format_def)

lemma format_items_total: "(\<And>i. i \<in> set is \<Longrightarrow> \<exists>s. g i = Some s) \<Longrightarrow> \<exists>s. format_items g is = Some s"
proof (induction "is")
  case (Cons i "is")
  then obtain s r where "g i = Some s" "format_items g is = Some r" by (meson list.set_intros)
  then show ?case by simp
qed simp

lemma format_line_total: "fits env ev ap \<Longrightarrow> ap_formatter ap \<noteq> None \<Longrightarrow> \<exists>s. format_line env name level ev ap = Inr s"
proof -
  assume d: "fits env ev ap" and f: "ap_formatter ap \<noteq> None"
  obtain g where g: "ap_formatter ap = Some g" using f by auto
  have "\<exists>s. item_format (le_strftime env) name level ev i = Some s" if "i \<in> set (f_items g)" for i
    by (rule item_format_total) (use d g that in \<open>auto simp: fits_def\<close>)
  then obtain s where "LogFormatter_format (le_strftime env) name level ev g = Some s"
    using format_items_total [of "f_items g"] unfolding LogFormatter_format_def by blast
  then show ?thesis using g by (simp add: format_line_def)
qed

text \<open>The loggers whose appenders an event reaches: the logger itself, or the root when it has none.\<close>

lemma Logger_log_total:
  assumes ok: "log_ok st" and l: "ls_loggers st l = Some lg" and src: "ls_loggers st (e_logger ev) = Some src"
    and d: "\<forall>a ap. ls_appenders st a = Some ap \<longrightarrow> fits env ev ap"
  shows "\<exists>st'. Logger_log env 2 l level ev st = Inr st' \<and> only_logged st st'"
proof -
  have fl: "\<exists>s. format_line env name lv ev ap = Inr s" if "ls_appenders st a = Some ap" "ap_formatter ap \<noteq> None" for name lv a ap
    using format_line_total that d by blast
  have loop: "\<exists>st'. log_appenders (LogAppender_log env (lg_name src) level ev) (lg_appenders x) st = Inr st' \<and> only_logged st st'"
    if "ls_loggers st k = Some x" for k x
    by (rule va.logs_all)
       (use log_okD(1) [OF ok that] fl in \<open>auto simp: logger_ok_def attached_def\<close>)
  obtain r where r: "ls_loggers st (ls_root st) = Some r" "lg_root r = None" using log_okD(5) [OF ok] by blast
  show ?thesis
    using loop [OF l] loop [OF r(1)] l r src log_okD(1) [OF ok l] only_logged_refl
    by (auto simp: numeral_2_eq_2 find_logger_def logger_ok_def)
qed

lemma setFormatter_ok:
  assumes ok: "log_ok st" and l: "ls_loggers st l = Some lg"
  shows "\<exists>st'. Logger_setFormatter l (Some f) st = Inr st' \<and> log_ok st'"
proof -
  let ?lg = "lg\<lparr>lg_formatter := Some f\<rparr>"
  let ?st = "put_logger l ?lg st"
  have ok1: "log_ok ?st"
    by (rule log_ok_put_logger [OF ok l]) (use log_okD(1) [OF ok l] in \<open>auto simp: logger_ok_def\<close>)
  have "\<forall>a\<in>set (lg_appenders lg). attached ?st a"
    using log_okD(1) [OF ok1, of l ?lg] by (simp add: logger_ok_def)
  then show ?thesis using inherit_ok [OF ok1, of "lg_appenders lg" "Some f"] l
    by (simp add: Logger_setFormatter_def find_logger_def)
qed

lemma log_step_ok:
  assumes ok: "log_ok st" and c: "cmd_ok st c env"
  shows "\<exists>st'. log_step env c st = Inr st' \<and> log_ok st'"
proof (cases c)
  case (GetLogger name)
  then show ?thesis using getLogger_ok [OF ok, of name] by (cases "getLogger name st") auto
next
  case (NewFile f)
  have "appender_ok (FileLogAppender_new env f)"
    using reopen_config [of "appender_new (FileLogAppender f)" env f]
    by (simp add: FileLogAppender_new_def appender_ok_def same_config_def appender_new_def)
  then show ?thesis using NewFile new_appender_ok [OF ok] by (cases "new_appender (FileLogAppender_new env f) st") auto
next
  case NewStdout
  have "appender_ok StdoutLogAppender_new" by (simp add: StdoutLogAppender_new_def appender_new_def appender_ok_def)
  then show ?thesis using NewStdout new_appender_ok [OF ok] by (cases "new_appender StdoutLogAppender_new st") auto
next
  case (AddAppender l a)
  then obtain lg ap where o: "ls_loggers st l = Some lg" "ls_appenders st a = Some ap"
    using c by (auto simp: has_logger_def has_appender_def)
  let ?ap = "if ap_formatter ap = None then ap\<lparr>ap_formatter := lg_formatter lg\<rparr> else ap"
  let ?st = "put_appender a ?ap st"
  have lg: "logger_ok st lg" using log_okD(1) [OF ok o(1)] .
  have f: "ap_formatter ?ap \<noteq> None" using lg by (simp add: logger_ok_def)
  have ok1: "log_ok ?st"
    by (rule log_ok_put_appender [OF ok log_okD(4) [OF ok o(2)]]) (use f in \<open>simp_all add: appender_ok_def\<close>)
  have "logger_ok ?st (lg\<lparr>lg_appenders := lg_appenders lg @ [a]\<rparr>)"
    using log_okD(1) [OF ok1, of l lg] o(1) f by (auto simp: logger_ok_def attached_def)
  then show ?thesis
    using log_ok_put_logger [OF ok1, of l lg] o AddAppender
    by (auto simp: Logger_addAppender_def find_logger_def find_appender_def Let_def)
next
  case (DelAppender l a)
  then obtain lg where lg: "ls_loggers st l = Some lg" using c by (auto simp: has_logger_def)
  have "logger_ok st (lg\<lparr>lg_appenders := remove1 a (lg_appenders lg)\<rparr>)"
    using log_okD(1) [OF ok lg] set_remove1_subset [of a "lg_appenders lg"] by (auto simp: logger_ok_def)
  then show ?thesis
    using DelAppender log_ok_put_logger [OF ok lg] lg by (auto simp: Logger_delAppender_def find_logger_def)
next
  case (ClearAppender l)
  then show ?thesis
    using c log_ok_put_logger [OF ok] log_okD(1) [OF ok]
    by (auto simp: has_logger_def Logger_clearAppender_def find_logger_def logger_ok_def)
next
  case (SetLevel l level)
  then show ?thesis
    using c log_ok_put_logger [OF ok] log_okD(1) [OF ok]
    by (auto simp: has_logger_def Logger_setLevel_def find_logger_def logger_ok_def)
next
  case (AppenderFormatter a f)
  then show ?thesis
    using c log_ok_put_appender [OF ok log_okD(4) [OF ok]]
    by (auto simp: has_appender_def change_appender_def find_appender_def LogAppender_setFormatter_def appender_ok_def)
next
  case (AppenderLevel a level)
  then show ?thesis
    using c log_ok_put_appender [OF ok log_okD(4) [OF ok]] log_okD(3) [OF ok]
    by (auto simp: has_appender_def change_appender_def find_appender_def LogAppender_setLevel_def appender_ok_def attached_def)
next
  case (Log ev)
  then obtain lg where lg: "ls_loggers st (e_logger ev) = Some lg"
    and d: "\<forall>a ap. ls_appenders st a = Some ap \<longrightarrow> fits env ev ap" using c by (auto simp: has_logger_def all_fit_def)
  then obtain st' where "Logger_log env 2 (e_logger ev) (e_level ev) ev st = Inr st'" "log_ok st'"
    using Logger_log_total [OF ok lg lg d] log_ok_only_logged [OF ok] by blast
  then show ?thesis using Log lg ok by (simp add: LOG_LEVEL_def LogEventWrap_destroy_def find_logger_def)
next
  case (SetFormatter l f)
  then show ?thesis using c setFormatter_ok [OF ok] by (auto simp: has_logger_def)
next
  case (SetPattern l p)
  then obtain lg where lg: "ls_loggers st l = Some lg" using c by (auto simp: has_logger_def)
  let ?w = "\<lambda>w. if f_error (LogFormatter_new p) then write_out w st else st"
  have "\<exists>st'. Logger_setFormatter l (Some (LogFormatter_new p)) (?w w) = Inr st' \<and> log_ok st'" for w
    by (rule setFormatter_ok) (use ok lg in auto)
  then show ?thesis using SetPattern lg by (simp add: Logger_setPattern_def find_logger_def Let_def)
qed

section \<open>Properties\<close>

lemma default_pieces_ok: "pattern_ok default_pieces"
  by (simp add: default_pieces_def lit_def s_format_items_def stops_def isalpha_def)

lemma default_pattern: "DEFAULT_PATTERN = show_pattern default_pieces"
  by (simp add: DEFAULT_PATTERN_def default_pieces_def lit_def)

text \<open>The state after the manager has been made.\<close>

definition root_appender :: appender where
  "root_appender = StdoutLogAppender_new\<lparr>ap_formatter := Some (LogFormatter_new DEFAULT_PATTERN)\<rparr>"

definition root_logger :: logger where
  "root_logger = (Logger_new (lit ''root''))\<lparr>lg_appenders := [1]\<rparr>"

definition first_state :: log_state where
  "first_state = \<lparr>ls_appenders = [1 \<mapsto> root_appender], ls_loggers = [0 \<mapsto> root_logger], ls_next = 2,
     ls_names = [(lit ''root'', 0)], ls_root = 0, ls_written = []\<rparr>"

lemma LoggerManager_new_first: "LoggerManager_new = Inr first_state"
  by (simp add: LoggerManager_new_def new_logger_def new_appender_def log_empty_def Let_def Logger_addAppender_def
      find_logger_def find_appender_def put_logger_def put_appender_def first_state_def root_appender_def
      root_logger_def StdoutLogAppender_new_def appender_new_def Logger_new_def)

lemma first_state_ok: "log_ok first_state"
  by (rule log_okI) (auto simp: first_state_def logger_ok_def attached_def root_logger_def root_appender_def
      Logger_new_def appender_ok_def StdoutLogAppender_new_def appender_new_def split: if_splits)

fun log_run :: "(log_env \<times> log_cmd) list \<Rightarrow> log_state \<Rightarrow> log_error + log_state" where
  "log_run [] st = Inr st"
| "log_run ((env, c) # cs) st = bindE (log_step env c st) (log_run cs)"

text \<open>Each command of a run meets its conditions when its turn comes.\<close>

fun run_ok :: "(log_env \<times> log_cmd) list \<Rightarrow> log_state \<Rightarrow> bool" where
  "run_ok [] st \<longleftrightarrow> True"
| "run_ok ((env, c) # cs) st \<longleftrightarrow> cmd_ok st c env \<and>
     (case log_step env c st of Inl _ \<Rightarrow> True | Inr st' \<Rightarrow> run_ok cs st')"

text \<open>
  C26: From the state of a new manager on, a sequence of the operations follows no null pointer and no endless chain
  of roots, and ends with the invariant of loggers and appenders, the root logger still there under its name,
  under three conditions on each operation at its turn: it names loggers and appenders that exist, no formatter it
  sets is null, and when it logs, the dates fit into the buffer of 64 bytes in the formats of the formatters then in use.
\<close>

theorem loggers_stay_sound:
  assumes "LoggerManager_new = Inr st0" "run_ok cs st0"
  shows "\<exists>st. log_run cs st0 = Inr st \<and> log_ok st"
proof -
  have "log_ok st \<Longrightarrow> run_ok cs st \<Longrightarrow> \<exists>st'. log_run cs st = Inr st' \<and> log_ok st'" for st
  proof (induction cs arbitrary: st)
    case (Cons ec cs)
    obtain env c where ec: "ec = (env, c)" by (cases ec)
    then show ?case using Cons log_step_ok [of st c env] by fastforce
  qed simp
  then show ?thesis using assms first_state_ok by (simp add: LoggerManager_new_first)
qed

abbreviation test_env :: log_env where
  "test_env \<equiv> \<lparr>le_strftime = \<lambda>_ _. Some [], le_opens = \<lambda>_. True, le_writes = \<lambda>_. True\<rparr>"

abbreviation test_cmds :: "(log_env \<times> log_cmd) list" where
  "test_cmds \<equiv> [(test_env, GetLogger (lit ''system'')), (test_env, SetLevel 2 WARN),
     (test_env, SetFormatter 0 (Some (LogFormatter_new []))), (test_env, ClearAppender 0),
     (test_env, Log (LogEvent_new 2 FATAL [] 1 0 0 0 0 []))]"

lemma loggers_stay_sound_witness: "\<exists>st. log_run test_cmds first_state = Inr st \<and> log_ok st"
proof (rule loggers_stay_sound [OF LoggerManager_new_first])
  show "run_ok test_cmds first_state"
    by (simp add: all_fit_def fits_def has_logger_def getLogger_def first_state_def new_logger_def incomp_def lit_def
        put_logger_def Logger_setLevel_def Logger_clearAppender_def Logger_setFormatter_def find_logger_def
        root_logger_def Logger_new_def find_appender_def root_appender_def StdoutLogAppender_new_def appender_new_def put_appender_def
        LogEvent_new_def split: sum.splits)
qed




text \<open>
  Setting a null formatter on an appender, which the code provides for by clearing \<open>M_hasFormatter\<close>, leaves the
  appender without one, and the next event that reaches it follows the null pointer.
\<close>
theorem null_formatter_crashes:
  assumes "ls_appenders st a = Some ap" "ls_loggers st (e_logger ev) = Some lg" "lg_appenders lg = a # as"
    "lg_level lg \<le> e_level ev" "ap_level ap \<le> e_level ev"
  shows "bindE (change_appender a (LogAppender_setFormatter None) st) (LOG_LEVEL env 2 ev) = Inl NullFormatter"
proof -
  have "LogAppender_log env (lg_name lg) (e_level ev) ev (LogAppender_setFormatter None ap) = Inl NullFormatter"
    using assms(5) reopen_config [of "LogAppender_setFormatter None ap" env]
    by (auto simp: LogAppender_log_def FileLogAppender_log_def StdoutLogAppender_log_def Let_def format_line_def
        LogAppender_setFormatter_def same_config_def split: appender_kind.splits)
  then show ?thesis
    using assms by (simp add: change_appender_def find_appender_def LOG_LEVEL_def find_logger_def
        LogEventWrap_destroy_def numeral_2_eq_2)
qed

lemma null_formatter_crashes_example:
  "bindE (change_appender 1 (LogAppender_setFormatter None) first_state)
     (LOG_LEVEL test_env 2 (LogEvent_new 0 INFO [] 1 0 0 0 0 [])) = Inl NullFormatter"
  by (rule null_formatter_crashes [where ap = root_appender and lg = root_logger and as = "[]"])
     (simp_all add: first_state_def LogEvent_new_def root_logger_def Logger_new_def root_appender_def
        StdoutLogAppender_new_def appender_new_def)

end
