(* ===== verification/LogConfig_Spec.thy ===== *)
theory LogConfig_Spec
  imports LogConfig Log_Spec
begin

text \<open>
  What a change of the variable \<open>logs\<close> does: when no definition of the new value is in the old one, every
  logger ends as its definition says and the loggers without a definition are switched off; when one is in
  both, the listener follows a null pointer.
\<close>

section \<open>Frames\<close>

text \<open>
  A step that is about the loggers \<open>L\<close>: the others stay, appenders keep their kind, their level and a
  formatter of their own, and names stay bound.
\<close>

definition app_kept :: "appender \<Rightarrow> appender \<Rightarrow> bool" where
  "app_kept ap ap' \<longleftrightarrow> ap_kind ap' = ap_kind ap \<and> ap_level ap' = ap_level ap \<and>
     (ap_hasFormatter ap \<longrightarrow> ap_hasFormatter ap' \<and> ap_formatter ap' = ap_formatter ap)"

definition frame :: "nat set \<Rightarrow> log_state \<Rightarrow> log_state \<Rightarrow> bool" where
  "frame L st st' \<longleftrightarrow>
     (\<forall>l lg. l \<notin> L \<longrightarrow> ls_loggers st l = Some lg \<longrightarrow> ls_loggers st' l = Some lg) \<and>
     (\<forall>a ap. ls_appenders st a = Some ap \<longrightarrow> (\<exists>ap'. ls_appenders st' a = Some ap' \<and> app_kept ap ap')) \<and>
     (\<forall>n l. omap_find lex_less n (ls_names st) = Some l \<longrightarrow> omap_find lex_less n (ls_names st') = Some l)"

lemma app_kept_refl [simp]: "app_kept ap ap"
  by (simp add: app_kept_def)

lemma app_kept_trans: "app_kept a b \<Longrightarrow> app_kept b c \<Longrightarrow> app_kept a c"
  by (auto simp: app_kept_def)

lemma frame_refl [simp]: "frame L st st"
  by (simp add: frame_def)

lemma frameD:
  assumes "frame L st st'"
  shows "l \<notin> L \<Longrightarrow> ls_loggers st l = Some lg \<Longrightarrow> ls_loggers st' l = Some lg"
    and "ls_appenders st a = Some ap \<Longrightarrow> \<exists>ap'. ls_appenders st' a = Some ap' \<and> app_kept ap ap'"
    and "omap_find lex_less n (ls_names st) = Some k \<Longrightarrow> omap_find lex_less n (ls_names st') = Some k"
  using assms by (auto simp: frame_def)

lemma frameI:
  assumes "\<And>l lg. l \<notin> L \<Longrightarrow> ls_loggers st l = Some lg \<Longrightarrow> ls_loggers st' l = Some lg"
    and "\<And>a ap. ls_appenders st a = Some ap \<Longrightarrow> \<exists>ap'. ls_appenders st' a = Some ap' \<and> app_kept ap ap'"
    and "\<And>n k. omap_find lex_less n (ls_names st) = Some k \<Longrightarrow> omap_find lex_less n (ls_names st') = Some k"
  shows "frame L st st'"
  using assms by (simp add: frame_def)

lemma frame_trans: "frame L a b \<Longrightarrow> frame L' b c \<Longrightarrow> frame (L \<union> L') a c"
proof (rule frameI)
  assume f: "frame L a b" "frame L' b c"
  show "ls_loggers c l = Some lg" if "l \<notin> L \<union> L'" "ls_loggers a l = Some lg" for l lg
    using that frameD(1) [OF f(1)] frameD(1) [OF f(2)] by simp
  show "\<exists>ap'. ls_appenders c x = Some ap' \<and> app_kept ap ap'" if "ls_appenders a x = Some ap" for x ap
    using frameD(2) [OF f(1) that] frameD(2) [OF f(2)] app_kept_trans by blast
  show "omap_find lex_less n (ls_names c) = Some k" if "omap_find lex_less n (ls_names a) = Some k" for n k
    using that frameD(3) [OF f(1)] frameD(3) [OF f(2)] by simp
qed

lemma frame_trans_same: "frame L a b \<Longrightarrow> frame L b c \<Longrightarrow> frame L a c"
  using frame_trans [of L a b L c] by simp

lemma frame_put_logger: "frame {l} st (put_logger l lg st)"
  by (auto simp: frame_def)

lemma frame_put_appender:
  "(\<And>bp. ls_appenders st a = Some bp \<Longrightarrow> app_kept bp ap) \<Longrightarrow> frame L st (put_appender a ap st)"
  by (auto simp: frame_def)

lemma frame_write_out: "frame L st (write_out w st)"
  by (simp add: frame_def)

lemma frame_inherit: "inherit_formatter f as st = Inr st' \<Longrightarrow> frame L st st' \<and> ls_loggers st' = ls_loggers st"
proof (induction as arbitrary: st)
  case (Cons a as)
  then obtain ap where ap: "ls_appenders st a = Some ap"
    and r: "inherit_formatter f as (if ap_hasFormatter ap then st else put_appender a (ap\<lparr>ap_formatter := f\<rparr>) st) = Inr st'"
    by (auto simp: bindE_Inr)
  let ?st = "if ap_hasFormatter ap then st else put_appender a (ap\<lparr>ap_formatter := f\<rparr>) st"
  have "frame L st (put_appender a (ap\<lparr>ap_formatter := f\<rparr>) st)" if "\<not> ap_hasFormatter ap"
    using ap that by (intro frame_put_appender) (simp add: app_kept_def)
  then have "frame L st ?st" by simp
  moreover have "ls_loggers ?st = ls_loggers st" by simp
  ultimately show ?case using Cons.IH [OF r] frame_trans_same [of L st ?st st'] by simp
qed simp

text \<open>A statement about the logger of a name that later steps on other loggers keep.\<close>

definition holds :: "(log_state \<Rightarrow> logger \<Rightarrow> bool) \<Rightarrow> str \<Rightarrow> log_state \<Rightarrow> bool" where
  "holds Q n st \<longleftrightarrow> (\<exists>l lg. omap_find lex_less n (ls_names st) = Some l \<and> ls_loggers st l = Some lg \<and> Q st lg)"

definition stable :: "(log_state \<Rightarrow> logger \<Rightarrow> bool) \<Rightarrow> bool" where
  "stable Q \<longleftrightarrow> (\<forall>L st st' lg. frame L st st' \<longrightarrow> Q st lg \<longrightarrow> Q st' lg)"

lemma holds_frame:
  assumes "holds Q n st" "stable Q" "frame L st st'" "log_ok st"
    and "\<And>l lg. l \<in> L \<Longrightarrow> ls_loggers st l = Some lg \<Longrightarrow> lg_name lg \<noteq> n"
  shows "holds Q n st'"
proof -
  obtain l lg where l: "omap_find lex_less n (ls_names st) = Some l" "ls_loggers st l = Some lg" "Q st lg"
    using assms(1) unfolding holds_def by blast
  have "lg_name lg = n" using log_okD(7) [OF assms(4) omap_find_mem [OF l(1)]] l(2) by auto
  then have "l \<notin> L" using assms(5) l(2) by blast
  then have "omap_find lex_less n (ls_names st') = Some l" "ls_loggers st' l = Some lg"
    using frameD(3) [OF assms(3) l(1)] frameD(1) [OF assms(3) _ l(2)] by simp_all
  moreover have "Q st' lg" using l(3) assms(2,3) unfolding stable_def by blast
  ultimately show ?thesis unfolding holds_def by blast
qed

lemma getLogger_frame:
  assumes ok: "log_ok st" and g: "getLogger name st = (st', l)"
  shows "frame {} st st' \<and> omap_find lex_less name (ls_names st') = Some l"
proof (cases "omap_find lex_less name (ls_names st)")
  case (Some k)
  then show ?thesis using g by (simp add: getLogger_def)
next
  case None
  have fresh: "ls_loggers st (ls_next st) = None" using log_okD(2) [OF ok, of "ls_next st"] by (cases "ls_loggers st (ls_next st)") auto
  have st': "st' = (put_logger (ls_next st) ((Logger_new name)\<lparr>lg_root := Some (ls_root st)\<rparr>) (st\<lparr>ls_next := Suc (ls_next st)\<rparr>))
      \<lparr>ls_names := omap_set lex_less name (ls_next st) (ls_names st)\<rparr>" and l: "l = ls_next st"
    using None g by (auto simp: getLogger_def new_logger_def Let_def)
  have "omap_find lex_less n (omap_set lex_less name (ls_next st) (ls_names st)) = Some k"
    if "omap_find lex_less n (ls_names st) = Some k" for n k
    using that None lx.find_set_other [of n name "ls_next st" "ls_names st"] by (cases "n = name") auto
  moreover have "omap_find lex_less name (omap_set lex_less name (ls_next st) (ls_names st)) = Some (ls_next st)"
    by (rule lx.find_set_same [OF log_okD(6) [OF ok]]) simp
  ultimately show ?thesis using fresh by (auto simp: frame_def st' l)
qed

section \<open>One definition\<close>

definition appender_matches :: "log_state \<Rightarrow> LogAppenderDefine \<Rightarrow> nat \<Rightarrow> bool" where
  "appender_matches st d a \<longleftrightarrow> (\<exists>ap. ls_appenders st a = Some ap \<and>
     ap_kind ap = (if lad_type d = 1 then FileLogAppender (lad_file d) else StdoutLogAppender) \<and>
     ap_level ap = lad_level d \<and>
     (lad_formatter d \<noteq> [] \<longrightarrow> \<not> f_error (LogFormatter_new (lad_formatter d)) \<longrightarrow>
        ap_hasFormatter ap \<and> ap_formatter ap = Some (LogFormatter_new (lad_formatter d))))"

definition logger_matches :: "LogDefine \<Rightarrow> log_state \<Rightarrow> logger \<Rightarrow> bool" where
  "logger_matches d st lg \<longleftrightarrow> lg_level lg = ld_level d \<and> list_all2 (appender_matches st) (ld_appenders d) (lg_appenders lg)"

text \<open>A logger that passes no level of an event and has no appenders.\<close>

definition switched_off :: "log_state \<Rightarrow> logger \<Rightarrow> bool" where
  "switched_off st lg \<longleftrightarrow> lg_level lg = 100 \<and> lg_appenders lg = []"

definition types_ok :: "LogDefine \<Rightarrow> bool" where
  "types_ok d \<longleftrightarrow> (\<forall>a\<in>set (ld_appenders d). lad_type a = 1 \<or> lad_type a = 2)"

lemma appender_matches_frame: "frame L st st' \<Longrightarrow> appender_matches st d a \<Longrightarrow> appender_matches st' d a"
proof -
  assume f: "frame L st st'" and m: "appender_matches st d a"
  obtain ap where ap: "ls_appenders st a = Some ap" using m by (auto simp: appender_matches_def)
  then obtain ap' where "ls_appenders st' a = Some ap'" "app_kept ap ap'" using frameD(2) [OF f] by blast
  then show ?thesis using m ap by (auto simp: appender_matches_def app_kept_def)
qed

lemma stable_matches: "stable (logger_matches d)"
proof -
  have "list_all2 (appender_matches st') ds as" if f: "frame L st st'" and "list_all2 (appender_matches st) ds as"
    for L st st' ds as
    using that(2) by (rule list_all2_mono) (rule appender_matches_frame [OF f])
  then show ?thesis by (simp add: stable_def logger_matches_def)
qed

lemma stable_off: "stable switched_off"
  by (simp add: stable_def switched_off_def)

lemma new_file_config: "ap_kind (FileLogAppender_new env f) = FileLogAppender f" "appender_ok (FileLogAppender_new env f)"
  using reopen_config [of "appender_new (FileLogAppender f)" env f]
  by (auto simp: FileLogAppender_new_def same_config_def appender_new_def appender_ok_def)

lemma apply_appender_ok:
  assumes ok: "log_ok st" and l: "ls_loggers st l = Some lg" and t: "lad_type d = 1 \<or> lad_type d = 2"
  shows "\<exists>st' a. apply_appender env name l d st = Inr st' \<and> log_ok st' \<and> frame {l} st st' \<and>
    ls_loggers st' l = Some (lg\<lparr>lg_appenders := lg_appenders lg @ [a]\<rparr>) \<and> appender_matches st' d a"
proof -
  define ap where "ap = LogAppender_setLevel (lad_level d)
      (if lad_type d = 1 then FileLogAppender_new env (lad_file d) else StdoutLogAppender_new)"
  have ap: "appender_ok ap" "ap_level ap = lad_level d"
    "ap_kind ap = (if lad_type d = 1 then FileLogAppender (lad_file d) else StdoutLogAppender)"
    using new_file_config [of env "lad_file d"] by (auto simp: ap_def LogAppender_setLevel_def StdoutLogAppender_new_def
        appender_new_def appender_ok_def)
  obtain a st1 where new: "new_appender ap st = (a, st1)" by (cases "new_appender ap st")
  have a: "a = ls_next st" "st1 = put_appender a ap (st\<lparr>ls_next := Suc a\<rparr>)" using new by (auto simp: new_appender_def)
  have fresh: "ls_appenders st a = None" using log_okD(4) [OF ok, of a] a(1) by (cases "ls_appenders st a") auto
  have ok1: "log_ok st1" "ls_appenders st1 a = Some ap" using new_appender_ok [OF ok new ap(1)] by auto
  have l1: "ls_loggers st1 l = Some lg" using a(2) l by simp
  define ap1 where "ap1 = (if ap_formatter ap = None then ap\<lparr>ap_formatter := lg_formatter lg\<rparr> else ap)"
  define st2 where "st2 = put_logger l (lg\<lparr>lg_appenders := lg_appenders lg @ [a]\<rparr>) (put_appender a ap1 st1)"
  have add: "Logger_addAppender l a st1 = Inr st2"
    using l1 ok1(2) by (simp add: Logger_addAppender_def find_logger_def find_appender_def Let_def st2_def ap1_def)
  have st2_a: "ls_appenders st2 a = Some ap1" by (simp add: st2_def)
  have ok2: "log_ok st2"
    using log_step_ok [OF ok1(1), of "AddAppender l a" env] add l1 ok1(2) by (simp add: has_logger_def has_appender_def)
  have frame2: "frame {l} st st2" using fresh a by (auto simp: frame_def st2_def)
  have ap1: "ap_kind ap1 = ap_kind ap" "ap_level ap1 = ap_level ap" by (simp_all add: ap1_def)
  define st3 where "st3 = (if lad_formatter d = [] then st2
    else if f_error (LogFormatter_new (lad_formatter d))
      then write_out [(Console, lit ''log.name = '' @ name @ lit '' appender type = '' @ dec (lad_type d) @
                 lit '' formatter = '' @ lad_formatter d @ lit '' is invalid'' @ [10])] st2
    else put_appender a (LogAppender_setFormatter (Some (LogFormatter_new (lad_formatter d))) ap1) st2)"
  have run: "apply_appender env name l d st = Inr st3"
    unfolding apply_appender_def Let_def ap_def [symmetric] new
    using t add st2_a by (auto simp: st3_def find_appender_def)
  have ok3: "log_ok st3"
    using ok2 log_ok_put_appender [OF ok2, of a "LogAppender_setFormatter (Some (LogFormatter_new (lad_formatter d))) ap1"]
    by (simp add: st3_def LogAppender_setFormatter_def appender_ok_def) (simp add: st2_def a)
  have frame3: "frame {l} st st3" using frame2 fresh
    by (auto simp: st3_def frame_def)
  have "appender_matches st3 d a"
    using ap ap1 by (simp add: appender_matches_def st3_def LogAppender_setFormatter_def) (simp add: st2_def)
  moreover have "ls_loggers st3 l = Some (lg\<lparr>lg_appenders := lg_appenders lg @ [a]\<rparr>)" by (simp add: st3_def st2_def)
  ultimately show ?thesis using run ok3 frame3 by blast
qed

lemma apply_appenders_ok:
  assumes "log_ok st" "ls_loggers st l = Some lg" "\<forall>d\<in>set ds. lad_type d = 1 \<or> lad_type d = 2"
  shows "\<exists>st' as. apply_appenders env name l ds st = Inr st' \<and> log_ok st' \<and> frame {l} st st' \<and>
    ls_loggers st' l = Some (lg\<lparr>lg_appenders := lg_appenders lg @ as\<rparr>) \<and> list_all2 (appender_matches st') ds as"
  using assms(1,2,3)
proof (induction ds arbitrary: st lg)
  case (Cons d ds)
  obtain st1 a where one: "apply_appender env name l d st = Inr st1" "log_ok st1" "frame {l} st st1"
    "ls_loggers st1 l = Some (lg\<lparr>lg_appenders := lg_appenders lg @ [a]\<rparr>)" "appender_matches st1 d a"
    using apply_appender_ok [OF Cons.prems(1,2)] Cons.prems(3) by (metis list.set_intros(1))
  obtain st2 as where rest: "apply_appenders env name l ds st1 = Inr st2" "log_ok st2" "frame {l} st1 st2"
    "ls_loggers st2 l = Some (lg\<lparr>lg_appenders := (lg_appenders lg @ [a]) @ as\<rparr>)" "list_all2 (appender_matches st2) ds as"
    using Cons.IH [OF one(2,4)] Cons.prems(3) by auto
  have "list_all2 (appender_matches st2) (d # ds) (a # as)"
    using rest(3,5) one(5) appender_matches_frame by simp
  then show ?case using one(1) rest frame_trans_same [OF one(3) rest(3)]
    by (intro exI [of _ st2] exI [of _ "a # as"]) simp
qed (auto intro!: exI [of _ "[]"])

lemma write_out_Nil [simp]: "write_out [] st = st"
  by (simp add: write_out_def)

lemma setPattern_frame:
  assumes "Logger_setPattern l val st = Inr st'" "ls_loggers st l = Some lg"
  shows "frame {l} st st' \<and> ls_loggers st' l = Some (lg\<lparr>lg_formatter := Some (LogFormatter_new val)\<rparr>)"
proof -
  obtain w where set: "Logger_setFormatter l (Some (LogFormatter_new val)) (write_out w st) = Inr st'"
  proof
    let ?w = "if f_error (LogFormatter_new val) then [(Console, lit ''Logger setFormatter name = '' @ lg_name lg @
        lit '' value = '' @ val @ lit '' invalid formatter'' @ [10])] else []"
    show "Logger_setFormatter l (Some (LogFormatter_new val)) (write_out ?w st) = Inr st'"
      using assms by (simp add: Logger_setPattern_def find_logger_def Let_def split: if_splits)
  qed
  let ?st = "put_logger l (lg\<lparr>lg_formatter := Some (LogFormatter_new val)\<rparr>) (write_out w st)"
  have inh: "inherit_formatter (Some (LogFormatter_new val)) (lg_appenders lg) ?st = Inr st'"
    using set assms(2) by (simp add: Logger_setFormatter_def find_logger_def)
  have "frame {l} (write_out w st) ?st" by (rule frame_put_logger)
  then have "frame {l} st ?st" using frame_trans_same [OF frame_write_out [of "{l}" st w]] by blast
  then show ?thesis using frame_inherit [OF inh, of "{l}"] frame_trans_same by auto
qed

lemma apply_to_ok:
  assumes ok: "log_ok st" and l: "ls_loggers st l = Some lg" and t: "types_ok i"
  shows "\<exists>st' lg'. apply_to env i l st = Inr st' \<and> log_ok st' \<and> frame {l} st st' \<and>
    ls_loggers st' l = Some lg' \<and> logger_matches i st' lg'"
proof -
  let ?st1 = "put_logger l (lg\<lparr>lg_level := ld_level i\<rparr>) st"
  have r1: "Logger_setLevel l (ld_level i) st = Inr ?st1" using l by (simp add: Logger_setLevel_def find_logger_def)
  have ok1: "log_ok ?st1" using log_step_ok [OF ok, of "SetLevel l (ld_level i)" env] r1 l by (simp add: has_logger_def)
  have "\<exists>st2 lg2. (if ld_formatter i \<noteq> [] then Logger_setPattern l (ld_formatter i) ?st1 else Inr ?st1) = Inr st2 \<and>
      log_ok st2 \<and> frame {l} ?st1 st2 \<and> ls_loggers st2 l = Some lg2 \<and> lg_level lg2 = ld_level i"
  proof (cases "ld_formatter i = []")
    case False
    have "\<exists>st2. Logger_setPattern l (ld_formatter i) ?st1 = Inr st2 \<and> log_ok st2"
      using log_step_ok [OF ok1, of "SetPattern l (ld_formatter i)" env] by (simp add: has_logger_def)
    then obtain st2 where st2: "Logger_setPattern l (ld_formatter i) ?st1 = Inr st2" "log_ok st2" by blast
    show ?thesis using setPattern_frame [OF st2(1)] st2 False by simp
  qed (use ok1 in simp)
  then obtain st2 lg2 where two: "(if ld_formatter i \<noteq> [] then Logger_setPattern l (ld_formatter i) ?st1 else Inr ?st1) = Inr st2"
    "log_ok st2" "frame {l} ?st1 st2" "ls_loggers st2 l = Some lg2" "lg_level lg2 = ld_level i" by blast
  let ?st3 = "put_logger l (lg2\<lparr>lg_appenders := []\<rparr>) st2"
  have r3: "Logger_clearAppender l st2 = Inr ?st3" using two(4) by (simp add: Logger_clearAppender_def find_logger_def)
  have ok3: "log_ok ?st3" using log_step_ok [OF two(2), of "ClearAppender l" env] r3 two(4) by (simp add: has_logger_def)
  have fr3: "frame {l} st ?st3"
    using frame_trans_same [OF frame_trans_same [OF frame_put_logger two(3)] frame_put_logger] .
  obtain st4 as where four: "apply_appenders env (ld_name i) l (ld_appenders i) ?st3 = Inr st4" "log_ok st4"
    "frame {l} ?st3 st4" "ls_loggers st4 l = Some (lg2\<lparr>lg_appenders := as\<rparr>)" "list_all2 (appender_matches st4) (ld_appenders i) as"
    using apply_appenders_ok [OF ok3, of l "lg2\<lparr>lg_appenders := []\<rparr>" "ld_appenders i" env "ld_name i"] t
    by (auto simp: types_ok_def)
  have "logger_matches i st4 (lg2\<lparr>lg_appenders := as\<rparr>)" using four(5) two(5) by (simp add: logger_matches_def)
  then show ?thesis
    using r1 two(1) r3 four frame_trans_same [OF fr3 four(3)] by (auto simp: apply_to_def)
qed

section \<open>All definitions\<close>

lemma ld_incomp [simp]: "incomp ld_less a b \<longleftrightarrow> ld_name a = ld_name b"
  using lx.incomp_eq [of "ld_name a" "ld_name b"] by (simp add: incomp_def ld_less_def)

lemma oset_find_ld: "oset_find ld_less i ys = Some y \<Longrightarrow> y \<in> set ys \<and> ld_name y = ld_name i"
  by (induction ys) (auto split: if_splits)

lemma oset_find_none: "oset_find ld_less i ys = None \<longleftrightarrow> ld_name i \<notin> ld_name ` set ys"
  by (induction ys) auto

lemma oset_find_in: "sorted_wrt ld_less ys \<Longrightarrow> i \<in> set ys \<Longrightarrow> oset_find ld_less i ys = Some i"
  by (induction ys) (auto simp: ld_less_def lex_less_irrefl)

lemma sorted_names: "sorted_wrt ld_less ds \<Longrightarrow> distinct (map ld_name ds)"
  by (induction ds) (auto simp: ld_less_def lex_less_irrefl)

lemma apply_define_ok:
  assumes ok: "log_ok st" and new: "oset_find ld_less i old_value \<noteq> Some i" and t: "types_ok i"
  shows "\<exists>st' st1 l lg. apply_define env old_value i st = Inr st' \<and> log_ok st' \<and> holds (logger_matches i) (ld_name i) st' \<and>
    log_ok st1 \<and> frame {} st st1 \<and> frame {l} st1 st' \<and> ls_loggers st1 l = Some lg \<and> lg_name lg = ld_name i"
proof -
  obtain st1 l where g: "getLogger (ld_name i) st = (st1, l)" by (cases "getLogger (ld_name i) st")
  obtain lg where one: "log_ok st1" "ls_loggers st1 l = Some lg" "lg_name lg = ld_name i" "frame {} st st1"
    "omap_find lex_less (ld_name i) (ls_names st1) = Some l"
    using getLogger_ok [OF ok g] getLogger_frame [OF ok g] by blast
  obtain st2 lg2 where two: "apply_to env i l st1 = Inr st2" "log_ok st2" "frame {l} st1 st2"
    "ls_loggers st2 l = Some lg2" "logger_matches i st2 lg2"
    using apply_to_ok [OF one(1,2) t] by blast
  have "holds (logger_matches i) (ld_name i) st2"
    unfolding holds_def using frameD(3) [OF two(3) one(5)] two(4,5) by blast
  moreover have "apply_define env old_value i st = Inr st2"
    using new g two(1) by (auto simp: apply_define_def split: option.splits)
  ultimately show ?thesis using two one by blast
qed

text \<open>What holds of loggers with other names survives a definition.\<close>

lemma holds_through:
  assumes "holds Q n st" "stable Q" "log_ok st" "log_ok st1" "frame {} st st1" "frame {l} st1 st'"
    "ls_loggers st1 l = Some lg" "lg_name lg \<noteq> n"
  shows "holds Q n st'"
proof -
  have "holds Q n st1" by (rule holds_frame [OF assms(1,2,5,3)]) simp
  then show ?thesis by (rule holds_frame [OF _ assms(2,6,4)]) (use assms(7,8) in auto)
qed

lemma apply_defines_ok:
  assumes "log_ok st" "\<forall>i\<in>set is. oset_find ld_less i old_value \<noteq> Some i \<and> types_ok i" "distinct (map ld_name is)"
  shows "\<exists>st'. apply_defines env old_value is st = Inr st' \<and> log_ok st' \<and> (\<forall>i\<in>set is. holds (logger_matches i) (ld_name i) st') \<and>
    (\<forall>Q n. holds Q n st \<longrightarrow> stable Q \<longrightarrow> n \<notin> ld_name ` set is \<longrightarrow> holds Q n st')"
  using assms
proof (induction "is" arbitrary: st)
  case (Cons i "is")
  obtain st2 st1 l lg where one: "apply_define env old_value i st = Inr st2" "log_ok st2" "holds (logger_matches i) (ld_name i) st2"
    "log_ok st1" "frame {} st st1" "frame {l} st1 st2" "ls_loggers st1 l = Some lg" "lg_name lg = ld_name i"
    using apply_define_ok [OF Cons.prems(1)] Cons.prems(2) by (metis list.set_intros(1))
  obtain st3 where rest: "apply_defines env old_value is st2 = Inr st3" "log_ok st3"
    "\<forall>j\<in>set is. holds (logger_matches j) (ld_name j) st3"
    "\<forall>Q n. holds Q n st2 \<longrightarrow> stable Q \<longrightarrow> n \<notin> ld_name ` set is \<longrightarrow> holds Q n st3"
    using Cons.IH [OF one(2)] Cons.prems by auto
  have keep: "holds Q n st3" if "holds Q n st" "stable Q" "n \<notin> ld_name ` set (i # is)" for Q n
    using rest(4) holds_through [OF that(1,2) Cons.prems(1) one(4-7)] one(8) that by auto
  have "holds (logger_matches i) (ld_name i) st3"
    using rest(4) one(3) stable_matches Cons.prems(3) by auto
  then show ?case using one(1) rest keep by (intro exI [of _ st3]) (simp del: image_insert)
qed simp

lemma drop_define_ok:
  assumes ok: "log_ok st" and gone: "oset_find ld_less i new_value = None"
  shows "\<exists>st' st1 l lg. drop_define new_value i st = Inr st' \<and> log_ok st' \<and> holds switched_off (ld_name i) st' \<and>
    log_ok st1 \<and> frame {} st st1 \<and> frame {l} st1 st' \<and> ls_loggers st1 l = Some lg \<and> lg_name lg = ld_name i"
proof -
  obtain st1 l where g: "getLogger (ld_name i) st = (st1, l)" by (cases "getLogger (ld_name i) st")
  obtain lg where one: "log_ok st1" "ls_loggers st1 l = Some lg" "lg_name lg = ld_name i" "frame {} st st1"
    "omap_find lex_less (ld_name i) (ls_names st1) = Some l"
    using getLogger_ok [OF ok g] getLogger_frame [OF ok g] by blast
  let ?st2 = "put_logger l (lg\<lparr>lg_level := 100\<rparr>) st1"
  let ?st3 = "put_logger l (lg\<lparr>lg_level := 100, lg_appenders := []\<rparr>) ?st2"
  have r2: "Logger_setLevel l 100 st1 = Inr ?st2" using one(2) by (simp add: Logger_setLevel_def find_logger_def)
  have ok2: "log_ok ?st2" using log_step_ok [OF one(1), of "SetLevel l 100" env] r2 one(2) by (simp add: has_logger_def)
  have r3: "Logger_clearAppender l ?st2 = Inr ?st3" by (simp add: Logger_clearAppender_def find_logger_def)
  have ok3: "log_ok ?st3" using log_step_ok [OF ok2, of "ClearAppender l" env] r3 by (simp add: has_logger_def)
  have "holds switched_off (ld_name i) ?st3"
    using one(5) by (simp add: holds_def switched_off_def)
  moreover have "drop_define new_value i st = Inr ?st3" using gone g r2 r3 by (simp add: drop_define_def)
  moreover have "frame {l} st1 ?st3" using frame_trans_same [OF frame_put_logger frame_put_logger] .
  ultimately show ?thesis using ok3 one by blast
qed

lemma drop_defines_ok:
  assumes "log_ok st" "distinct (map ld_name is)"
  shows "\<exists>st'. drop_defines new_value is st = Inr st' \<and> log_ok st' \<and>
    (\<forall>i\<in>set is. ld_name i \<notin> ld_name ` set new_value \<longrightarrow> holds switched_off (ld_name i) st') \<and>
    (\<forall>Q n. holds Q n st \<longrightarrow> stable Q \<longrightarrow> (n \<in> ld_name ` set new_value \<or> n \<notin> ld_name ` set is) \<longrightarrow> holds Q n st')"
  using assms
proof (induction "is" arbitrary: st)
  case (Cons i "is")
  show ?case
  proof (cases "oset_find ld_less i new_value = None")
    case False
    then have "drop_define new_value i st = Inr st" "ld_name i \<in> ld_name ` set new_value"
      by (simp_all add: drop_define_def oset_find_none)
    moreover obtain st3 where "drop_defines new_value is st = Inr st3" "log_ok st3"
      "\<forall>j\<in>set is. ld_name j \<notin> ld_name ` set new_value \<longrightarrow> holds switched_off (ld_name j) st3"
      "\<forall>Q n. holds Q n st \<longrightarrow> stable Q \<longrightarrow> (n \<in> ld_name ` set new_value \<or> n \<notin> ld_name ` set is) \<longrightarrow> holds Q n st3"
      using Cons.IH [OF Cons.prems(1)] Cons.prems(2) by auto
    ultimately show ?thesis by (intro exI [of _ st3]) auto
  next
    case True
    obtain st2 st1 l lg where one: "drop_define new_value i st = Inr st2" "log_ok st2" "holds switched_off (ld_name i) st2"
      "log_ok st1" "frame {} st st1" "frame {l} st1 st2" "ls_loggers st1 l = Some lg" "lg_name lg = ld_name i"
      using drop_define_ok [OF Cons.prems(1) True] by blast
    obtain st3 where rest: "drop_defines new_value is st2 = Inr st3" "log_ok st3"
      "\<forall>j\<in>set is. ld_name j \<notin> ld_name ` set new_value \<longrightarrow> holds switched_off (ld_name j) st3"
      "\<forall>Q n. holds Q n st2 \<longrightarrow> stable Q \<longrightarrow> (n \<in> ld_name ` set new_value \<or> n \<notin> ld_name ` set is) \<longrightarrow> holds Q n st3"
      using Cons.IH [OF one(2)] Cons.prems(2) by auto
    have gone: "ld_name i \<notin> ld_name ` set new_value" using True by (simp add: oset_find_none)
    have keep: "holds Q n st3" if "holds Q n st" "stable Q" "n \<in> ld_name ` set new_value \<or> n \<notin> ld_name ` set (i # is)" for Q n
    proof -
      have "lg_name lg \<noteq> n" using that(3) gone one(8) by auto
      then show ?thesis using rest(4) holds_through [OF that(1,2) Cons.prems(1) one(4-7)] that(2,3) by auto
    qed
    have "holds switched_off (ld_name i) st3" using rest(4) one(3) stable_off Cons.prems(2) by auto
    then show ?thesis using one(1) rest keep by (intro exI [of _ st3]) (simp del: image_insert)
  qed
qed simp

section \<open>The listener\<close>

text \<open>A value of the variable: a set in the order of the names, with types that the conversion makes.\<close>

definition logs_ok :: "LogDefine list \<Rightarrow> bool" where
  "logs_ok v \<longleftrightarrow> sorted_wrt ld_less v \<and> (\<forall>i\<in>set v. types_ok i)"

lemma announce_ok:
  assumes "log_ok st" "all_fit env ev st"
  shows "\<exists>st1. LOG_LEVEL env 2 (ev\<lparr>e_logger := getRoot st, e_level := INFO, e_content := s\<rparr>) st = Inr st1 \<and> log_ok st1"
proof -
  let ?ev = "ev\<lparr>e_logger := getRoot st, e_level := INFO, e_content := s\<rparr>"
  have "cmd_ok st (Log ?ev) env" using log_okD(5) [OF assms(1)] assms(2) by (auto simp: has_logger_def getRoot_def all_fit_def fits_def)
  then show ?thesis using log_step_ok [OF assms(1), of "Log ?ev" env] by simp
qed

text \<open>
  When no definition of the new value is in the old one, the listener ends, keeps the invariant, and afterwards
  the logger of every definition has its level and exactly its appenders, each with its kind, level and own
  formatter, while every logger that has no definition any more is switched off.
\<close>
theorem conf_applied:
  assumes "log_ok st" "all_fit env ev st" "logs_ok old_value" "logs_ok new_value" "set old_value \<inter> set new_value = {}"
  shows "\<exists>st'. conf_changed env ev old_value new_value st = Inr st' \<and> log_ok st' \<and>
    (\<forall>i\<in>set new_value. holds (logger_matches i) (ld_name i) st') \<and>
    (\<forall>i\<in>set old_value. ld_name i \<notin> ld_name ` set new_value \<longrightarrow> holds switched_off (ld_name i) st')"
proof -
  obtain st1 where one: "LOG_LEVEL env 2 (ev\<lparr>e_logger := getRoot st, e_level := INFO,
      e_content := lit ''on_logger_conf_changed''\<rparr>) st = Inr st1" "log_ok st1"
    using announce_ok [OF assms(1,2)] by blast
  have "\<forall>i\<in>set new_value. oset_find ld_less i old_value \<noteq> Some i \<and> types_ok i"
    using assms(4,5) oset_find_ld by (fastforce simp: logs_ok_def)
  then obtain st2 where two: "apply_defines env old_value new_value st1 = Inr st2" "log_ok st2"
    "\<forall>i\<in>set new_value. holds (logger_matches i) (ld_name i) st2"
    using apply_defines_ok [OF one(2)] assms(4) sorted_names unfolding logs_ok_def by blast
  obtain st3 where three: "drop_defines new_value old_value st2 = Inr st3" "log_ok st3"
    "\<forall>i\<in>set old_value. ld_name i \<notin> ld_name ` set new_value \<longrightarrow> holds switched_off (ld_name i) st3"
    "\<forall>Q n. holds Q n st2 \<longrightarrow> stable Q \<longrightarrow> (n \<in> ld_name ` set new_value \<or> n \<notin> ld_name ` set old_value) \<longrightarrow> holds Q n st3"
    using drop_defines_ok [OF two(2)] assms(3) sorted_names unfolding logs_ok_def by blast
  have "\<forall>i\<in>set new_value. holds (logger_matches i) (ld_name i) st3"
    using three(4) two(3) stable_matches by blast
  then show ?thesis using one(1) two(1) three(1-3) by (simp add: conf_changed_def)
qed

abbreviation test_define :: "string \<Rightarrow> level \<Rightarrow> LogDefine" where
  "test_define n l \<equiv> \<lparr>ld_name = lit n, ld_level = l, ld_formatter = [], ld_appenders =
     [\<lparr>lad_type = 2, lad_level = UNKNOW, lad_formatter = [], lad_file = []\<rparr>]\<rparr>"

lemma conf_applied_example:
  "\<exists>st'. conf_changed test_env (LogEvent_new 0 INFO [] 1 0 0 0 0 []) [] [test_define ''system'' WARN] first_state = Inr st' \<and>
    log_ok st' \<and>
    (\<forall>i\<in>set [test_define ''system'' WARN]. holds (logger_matches i) (ld_name i) st') \<and>
    (\<forall>i\<in>set ([] :: LogDefine list). ld_name i \<notin> ld_name ` set [test_define ''system'' WARN] \<longrightarrow> holds switched_off (ld_name i) st')"
  by (rule conf_applied [OF first_state_ok]) (simp_all add: all_fit_def fits_def logs_ok_def types_ok_def)

text \<open>The definition that stays the same.\<close>

lemma unchanged_stops:
  assumes "log_ok st" "\<forall>i\<in>set is. types_ok i" "i \<in> set is" "oset_find ld_less i old_value = Some i"
  shows "apply_defines env old_value is st = Inl NullLogger"
  using assms(1,2,3)
proof (induction "is" arbitrary: st)
  case (Cons j "is")
  show ?case
  proof (cases "oset_find ld_less j old_value = Some j")
    case True
    then show ?thesis by (simp add: apply_define_def)
  next
    case False
    obtain st2 where "apply_define env old_value j st = Inr st2" "log_ok st2"
      using apply_define_ok [OF Cons.prems(1) False] Cons.prems(2) by (metis list.set_intros(1))
    moreover have "i \<in> set is" using Cons.prems(3) False assms(4) by auto
    ultimately show ?thesis using Cons.IH Cons.prems(2) by simp
  qed
qed simp

text \<open>
  When one definition is in the old and in the new value, the listener follows a null pointer: a change of the
  configuration that leaves the definition of some logger as it is crashes the program.
\<close>
theorem unchanged_logger_crashes:
  assumes "log_ok st" "all_fit env ev st" "logs_ok old_value" "logs_ok new_value" "i \<in> set old_value" "i \<in> set new_value"
  shows "conf_changed env ev old_value new_value st = Inl NullLogger"
proof -
  obtain st1 where one: "LOG_LEVEL env 2 (ev\<lparr>e_logger := getRoot st, e_level := INFO,
      e_content := lit ''on_logger_conf_changed''\<rparr>) st = Inr st1" "log_ok st1"
    using announce_ok [OF assms(1,2)] by blast
  have "apply_defines env old_value new_value st1 = Inl NullLogger"
    using unchanged_stops [OF one(2) _ assms(6)] oset_find_in assms(3-5) by (simp add: logs_ok_def)
  then show ?thesis using one(1) by (simp add: conf_changed_def)
qed

lemma unchanged_logger_crashes_example:
  "conf_changed test_env (LogEvent_new 0 INFO [] 1 0 0 0 0 []) [test_define ''root'' INFO]
     [test_define ''root'' INFO, test_define ''system'' WARN] first_state = Inl NullLogger"
  by (rule unchanged_logger_crashes [OF first_state_ok, where i = "test_define ''root'' INFO"])
     (simp_all add: all_fit_def fits_def logs_ok_def types_ok_def ld_less_def lit_def)

text \<open>The conversion from YAML makes only values of that kind.\<close>

lemma read_appender_type: "read_appender lib a = Some (Some d) \<Longrightarrow> lad_type d = 1 \<or> lad_type d = 2"
  by (auto simp: read_appender_def split: option.splits if_splits)

lemma read_appenders_types: "read_appenders lib as = Some ds \<Longrightarrow> \<forall>d\<in>set ds. lad_type d = 1 \<or> lad_type d = 2"
proof (induction "as" arbitrary: ds)
  case (Cons a "as")
  then obtain r ds' where r: "read_appender lib a = Some r" "read_appenders lib as = Some ds'"
    "ds = (case r of None \<Rightarrow> ds' | Some d \<Rightarrow> d # ds')" by (auto split: option.splits)
  then show ?case using Cons.IH read_appender_type [of lib a] by (cases r) auto
qed simp

lemma read_define_types: "read_define lib n = Some (Some d) \<Longrightarrow> types_ok d"
proof -
  assume "read_define lib n = Some (Some d)"
  then have "\<exists>as. read_appenders lib as = Some (ld_appenders d)"
    by (auto simp: read_define_def split: option.splits intro: exI [of _ "[]"])
  then show ?thesis using read_appenders_types unfolding types_ok_def by blast
qed

interpretation ld: strict_weak ld_less
  by unfold_locales (auto simp: ld_less_def lex_less_irrefl intro: lex_less_trans)

lemma read_defines_ok: "read_defines lib ns acc = Some v \<Longrightarrow> logs_ok acc \<Longrightarrow> logs_ok v"
proof (induction ns arbitrary: acc)
  case (Cons n ns)
  show ?case
  proof (cases "read_define lib n")
    case (Some r)
    show ?thesis
    proof (cases r)
      case (Some d)
      have "types_ok d" using \<open>read_define lib n = Some r\<close> Some read_define_types by simp
      then have "logs_ok (oset_insert ld_less d acc)"
        using Cons.prems(2) ld.ordered_insert ld.set_insert_subset [of d acc] by (auto simp: logs_ok_def)
      then show ?thesis using Cons Some \<open>read_define lib n = Some r\<close> by simp
    qed (use Cons \<open>read_define lib n = Some r\<close> in simp)
  qed (use Cons in simp)
qed simp

lemma logs_from_string_ok: "logs_from_string lib s = Some v \<Longrightarrow> logs_ok v"
  using read_defines_ok [of lib _ "[]" v] by (auto simp: logs_from_string_def logs_ok_def split: option.splits)

section \<open>Writing the definitions out\<close>

text \<open>What is left of a definition after writing and reading it.\<close>

definition known_level :: "level \<Rightarrow> level" where
  "known_level l = (if 0 \<le> l \<and> l \<le> 5 then l else UNKNOW)"

definition lossy_appender :: "LogAppenderDefine \<Rightarrow> LogAppenderDefine" where
  "lossy_appender a = a\<lparr>lad_level := UNKNOW, lad_formatter := (if lad_type a = 1 then lad_formatter a else []),
     lad_file := (if lad_type a = 1 then lad_file a else [])\<rparr>"

definition lossy_define :: "LogDefine \<Rightarrow> LogDefine" where
  "lossy_define d = d\<lparr>ld_level := known_level (ld_level d), ld_formatter := [],
     ld_appenders := map lossy_appender (ld_appenders d)\<rparr>"

lemma FromString_ToString: "LogLevel_FromString (LogLevel_ToString l) = known_level l"
  by (auto simp: LogLevel_FromString_def LogLevel_ToString_def known_level_def lit_def)

lemmas node_simps = node_lawsD get_string_def lit_def

lemma read_written_appender:
  assumes "node_laws lib" "lad_type a = 1 \<or> lad_type a = 2"
  shows "read_appender lib (appender_node lib a) = Some (Some (lossy_appender a))"
  using assms by (auto simp: read_appender_def appender_node_def Let_def lossy_appender_def node_simps)

lemma read_written_appenders:
  assumes "node_laws lib" "\<forall>a\<in>set as. lad_type a = 1 \<or> lad_type a = 2"
  shows "read_appenders lib (map (appender_node lib) as) = Some (map lossy_appender as)"
  using assms(2) by (induction "as") (simp_all add: read_written_appender [OF assms(1)])

lemma read_written_define:
  assumes "node_laws lib" "types_ok d"
  shows "read_define lib (define_node lib d) = Some (Some (lossy_define d))"
proof -
  have as: "read_appenders lib (map (appender_node lib) (ld_appenders d)) = Some (map lossy_appender (ld_appenders d))"
    using read_written_appenders [OF assms(1)] assms(2) by (simp add: types_ok_def)
  have elems: "y_elems lib (foldl (y_push lib) YNull (map (appender_node lib) (ld_appenders d))) = map (appender_node lib) (ld_appenders d)"
    by (rule elems_pushed [OF assms(1)])
  have level: "known_level (ld_level d) = UNKNOW" if "ld_level d = UNKNOW" using that by (simp add: known_level_def)
  define lv where "lv = LogLevel_ToString (ld_level d)"
  define an where "an = foldl (y_push lib) YNull (map (appender_node lib) (ld_appenders d))"
  have unknown: "LogLevel_FromString [] = UNKNOW" by (simp add: LogLevel_FromString_def lit_def)
  show ?thesis
    using as elems level FromString_ToString [of "ld_level d", folded lv_def] unknown
    unfolding an_def [symmetric] define_node_def lv_def [symmetric]
    by (cases "ld_level d = UNKNOW"; cases "ld_formatter d = []"; cases "ld_appenders d = []")
       (simp_all add: read_define_def Let_def lossy_define_def node_lawsD [OF assms(1)] get_string_def lit_def)
qed

lemma lossy_less: "ld_less (lossy_define a) (lossy_define b) = ld_less a b"
  by (simp add: ld_less_def lossy_define_def)

lemma read_written_defines:
  assumes "node_laws lib" "\<forall>d\<in>set ds. types_ok d" "sorted_wrt ld_less (acc @ ds)"
  shows "read_defines lib (map (define_node lib) ds) (map lossy_define acc) = Some (map lossy_define (acc @ ds))"
  using assms(2,3)
proof (induction ds arbitrary: acc)
  case (Cons d ds)
  have "oset_insert ld_less (lossy_define d) (map lossy_define xs) = map lossy_define (xs @ [d])"
    if "\<forall>x\<in>set xs. ld_less x d" for xs
    using that ld.asym by (induction xs) (auto simp: lossy_less)
  moreover have "\<forall>x\<in>set acc. ld_less x d" using Cons.prems(2) by (auto simp: sorted_wrt_append)
  ultimately show ?case
    using Cons.IH [of "acc @ [d]"] Cons.prems read_written_define [OF assms(1)] by simp
qed simp

text \<open>
  The definitions that \<open>LexicalCast\<close> writes out are read back with the formatter of every logger missing, the
  levels of the appenders forgotten and so the formatter of an appender to the standard output: the rest survives.
\<close>
theorem written_logs_lose_formatters:
  assumes "node_laws lib" "logs_ok v" "loads_back lib (foldl (y_push lib) YNull (map (define_node lib) v))"
  shows "logs_from_string lib (logs_to_string lib v) = Some (map lossy_define v)"
  using read_written_defines [OF assms(1), of v "[]"] assms(2,3) elems_pushed [OF assms(1)]
  by (simp add: logs_from_string_def logs_to_string_def loads_back_def logs_ok_def)

text \<open>A library that has loaded one document.\<close>

definition loaded_lib :: "yaml \<Rightarrow> yaml_lib" where
  "loaded_lib n = small_lib\<lparr>y_load := \<lambda>_. Some n\<rparr>"

lemma loaded_lib_laws: "node_laws (loaded_lib n)"
  using small_lib_laws by (simp add: node_laws_def loaded_lib_def)

abbreviation test_logs :: "LogDefine list" where
  "test_logs \<equiv> [\<lparr>ld_name = lit ''system'', ld_level = WARN, ld_formatter = lit ''%m%n'', ld_appenders = []\<rparr>]"

abbreviation test_lib :: yaml_lib where
  "test_lib \<equiv> loaded_lib (YSeq [YMap [(YScalar (lit ''name''), YScalar (lit ''system'')), (YScalar (lit ''level''), YScalar (lit ''WARN''))]])"

lemma written_logs_lose_formatters_example:
  "logs_from_string test_lib (logs_to_string test_lib test_logs) =
     Some [\<lparr>ld_name = lit ''system'', ld_level = WARN, ld_formatter = [], ld_appenders = []\<rparr>]"
proof -
  have ok: "logs_ok test_logs" by (simp add: logs_ok_def types_ok_def)
  have node: "define_node test_lib (hd test_logs) = YMap [(YScalar (lit ''name''), YScalar (lit ''system'')), (YScalar (lit ''level''), YScalar (lit ''WARN''))]"
    by (simp add: define_node_def Let_def node_lawsD [OF loaded_lib_laws] LogLevel_ToString_def lit_def)
  have "loads_back test_lib (foldl (y_push test_lib) YNull (map (define_node test_lib) test_logs))"
    using node by (simp add: loads_back_def node_lawsD [OF loaded_lib_laws]) (simp add: loaded_lib_def)
  then show ?thesis
    using written_logs_lose_formatters [OF loaded_lib_laws ok] by (simp add: lossy_define_def known_level_def)
qed

end
