(* ===== verification/Config.thy ===== *)
theory Config
  imports Yaml StdOrdered
begin

text \<open>
  The configuration of \<^verbatim>\<open>src/include/config.h\<close> and \<^verbatim>\<open>src/src/config.cc\<close>: named variables of C++ types, their
  conversions from and to YAML, their listeners, and the table that a document is loaded into. Variables are
  shared, so they live in a store. A listener is a function on whatever it changes (\<open>'w\<close>). The log lines
  the code writes are left out.
\<close>

section \<open>Types and values\<close>

text \<open>The C++ types that the templates range over: base types by number, and the containers.\<close>

datatype cty = TBase nat | TVector cty | TList cty | TSet cty | TUSet cty | TMap cty | TUMap cty

text \<open>Values. Sets and maps are lists in the order of an iteration.\<close>

datatype 'b cval = VBase 'b | VVector "'b cval list" | VList "'b cval list" | VSet "'b cval list"
  | VUSet "'b cval list" | VMap "(str \<times> 'b cval) list" | VUMap "(str \<times> 'b cval) list"

text \<open>
  \<open>boost::lexical_cast\<close> (or a specialisation of \<open>LexicalCast\<close> elsewhere) for the base types, the base type of
  a value, \<open>operator<\<close>, and where the hash containers insert.
\<close>

record 'b casts =
  c_from :: "nat \<Rightarrow> str \<Rightarrow> 'b option"
  c_to :: "nat \<Rightarrow> 'b \<Rightarrow> str option"
  c_type :: "'b \<Rightarrow> nat"
  c_less :: "'b cval \<Rightarrow> 'b cval \<Rightarrow> bool"
  c_uinsert :: "'b cval \<Rightarrow> 'b cval list \<Rightarrow> 'b cval list"
  c_uput :: "str \<Rightarrow> 'b cval \<Rightarrow> (str \<times> 'b cval) list \<Rightarrow> (str \<times> 'b cval) list"

section \<open>Conversions\<close>

text \<open>A loop that stops at the first exception.\<close>

fun collect :: "('a \<Rightarrow> 'c option) \<Rightarrow> 'a list \<Rightarrow> 'c list option" where
  "collect f [] = Some []"
| "collect f (x # xs) = (case f x of None \<Rightarrow> None
     | Some y \<Rightarrow> (case collect f xs of None \<Rightarrow> None | Some ys \<Rightarrow> Some (y # ys)))"

text \<open>The values of a sequence and of a map, given the conversion of an element from its text.\<close>

definition elems_from :: "yaml_lib \<Rightarrow> (str \<Rightarrow> 'b cval option) \<Rightarrow> str \<Rightarrow> 'b cval list option" where
  "elems_from lib f v =
     (case y_load lib v of None \<Rightarrow> None | Some node \<Rightarrow> collect (\<lambda>n. f (y_emit lib n)) (y_elems lib node))"

definition pairs_from :: "yaml_lib \<Rightarrow> (str \<Rightarrow> 'b cval option) \<Rightarrow> str \<Rightarrow> (str \<times> 'b cval) list option" where
  "pairs_from lib f v =
     (case y_load lib v of None \<Rightarrow> None
      | Some node \<Rightarrow> (case y_pairs lib node of None \<Rightarrow> None
          | Some ps \<Rightarrow> collect (\<lambda>(k, n). map_option (Pair k) (f (y_emit lib n))) ps))"

text \<open>\<open>map::insert\<close> keeps an entry that is there.\<close>

definition map_insert :: "(str \<times> 'v) list \<Rightarrow> str \<times> 'v \<Rightarrow> (str \<times> 'v) list" where
  "map_insert m p = (case omap_find lex_less (fst p) m of None \<Rightarrow> omap_set lex_less (fst p) (snd p) m | Some _ \<Rightarrow> m)"

text \<open>One definition for each container.\<close>

definition vector_from :: "yaml_lib \<Rightarrow> (str \<Rightarrow> 'b cval option) \<Rightarrow> str \<Rightarrow> 'b cval option" where
  [simp]: "vector_from lib f v = map_option VVector (elems_from lib f v)"

definition list_from :: "yaml_lib \<Rightarrow> (str \<Rightarrow> 'b cval option) \<Rightarrow> str \<Rightarrow> 'b cval option" where
  [simp]: "list_from lib f v = map_option VList (elems_from lib f v)"

definition set_from :: "yaml_lib \<Rightarrow> 'b casts \<Rightarrow> (str \<Rightarrow> 'b cval option) \<Rightarrow> str \<Rightarrow> 'b cval option" where
  [simp]: "set_from lib c f v =
     map_option (\<lambda>xs. VSet (foldl (\<lambda>s x. oset_insert (c_less c) x s) [] xs)) (elems_from lib f v)"

definition unordered_set_from :: "yaml_lib \<Rightarrow> 'b casts \<Rightarrow> (str \<Rightarrow> 'b cval option) \<Rightarrow> str \<Rightarrow> 'b cval option" where
  [simp]: "unordered_set_from lib c f v =
     map_option (\<lambda>xs. VUSet (foldl (\<lambda>s x. c_uinsert c x s) [] xs)) (elems_from lib f v)"

definition map_from :: "yaml_lib \<Rightarrow> (str \<Rightarrow> 'b cval option) \<Rightarrow> str \<Rightarrow> 'b cval option" where
  [simp]: "map_from lib f v = map_option (\<lambda>ps. VMap (foldl map_insert [] ps)) (pairs_from lib f v)"

definition unordered_map_from :: "yaml_lib \<Rightarrow> 'b casts \<Rightarrow> (str \<Rightarrow> 'b cval option) \<Rightarrow> str \<Rightarrow> 'b cval option" where
  [simp]: "unordered_map_from lib c f v =
     map_option (\<lambda>ps. VUMap (foldl (\<lambda>m p. c_uput c (fst p) (snd p) m) [] ps)) (pairs_from lib f v)"

text \<open>What the templates select for a type.\<close>

fun cast_from :: "yaml_lib \<Rightarrow> 'b casts \<Rightarrow> cty \<Rightarrow> str \<Rightarrow> 'b cval option" where
  "cast_from lib c (TBase k) v = map_option VBase (c_from c k v)"
| "cast_from lib c (TVector t) v = vector_from lib (cast_from lib c t) v"
| "cast_from lib c (TList t) v = list_from lib (cast_from lib c t) v"
| "cast_from lib c (TSet t) v = set_from lib c (cast_from lib c t) v"
| "cast_from lib c (TUSet t) v = unordered_set_from lib c (cast_from lib c t) v"
| "cast_from lib c (TMap t) v = map_from lib (cast_from lib c t) v"
| "cast_from lib c (TUMap t) v = unordered_map_from lib c (cast_from lib c t) v"

text \<open>The node of a container is built from the nodes its elements' texts load to.\<close>

definition elems_to :: "yaml_lib \<Rightarrow> ('b cval \<Rightarrow> str option) \<Rightarrow> 'b cval list \<Rightarrow> str option" where
  "elems_to lib f vs =
     map_option (\<lambda>ns. y_emit lib (foldl (y_push lib) YNull ns)) (collect (\<lambda>v. Option.bind (f v) (y_load lib)) vs)"

definition pairs_to :: "yaml_lib \<Rightarrow> ('b cval \<Rightarrow> str option) \<Rightarrow> (str \<times> 'b cval) list \<Rightarrow> str option" where
  "pairs_to lib f ps =
     map_option (\<lambda>ns. y_emit lib (foldl (\<lambda>n p. y_put lib n (fst p) (snd p)) YNull ns))
       (collect (\<lambda>(k, v). map_option (Pair k) (Option.bind (f v) (y_load lib))) ps)"

definition vector_to :: "yaml_lib \<Rightarrow> ('b cval \<Rightarrow> str option) \<Rightarrow> 'b cval list \<Rightarrow> str option" where
  [simp]: "vector_to lib f vs = elems_to lib f vs"

definition list_to :: "yaml_lib \<Rightarrow> ('b cval \<Rightarrow> str option) \<Rightarrow> 'b cval list \<Rightarrow> str option" where
  [simp]: "list_to lib f vs = elems_to lib f vs"

definition set_to :: "yaml_lib \<Rightarrow> ('b cval \<Rightarrow> str option) \<Rightarrow> 'b cval list \<Rightarrow> str option" where
  [simp]: "set_to lib f vs = elems_to lib f vs"

definition unordered_set_to :: "yaml_lib \<Rightarrow> ('b cval \<Rightarrow> str option) \<Rightarrow> 'b cval list \<Rightarrow> str option" where
  [simp]: "unordered_set_to lib f vs = elems_to lib f vs"

definition map_to :: "yaml_lib \<Rightarrow> ('b cval \<Rightarrow> str option) \<Rightarrow> (str \<times> 'b cval) list \<Rightarrow> str option" where
  [simp]: "map_to lib f ps = pairs_to lib f ps"

definition unordered_map_to :: "yaml_lib \<Rightarrow> ('b cval \<Rightarrow> str option) \<Rightarrow> (str \<times> 'b cval) list \<Rightarrow> str option" where
  [simp]: "unordered_map_to lib f ps = pairs_to lib f ps"

fun cast_to :: "yaml_lib \<Rightarrow> 'b casts \<Rightarrow> cty \<Rightarrow> 'b cval \<Rightarrow> str option" where
  "cast_to lib c (TBase k) (VBase b) = c_to c k b"
| "cast_to lib c (TVector t) (VVector vs) = vector_to lib (cast_to lib c t) vs"
| "cast_to lib c (TList t) (VList vs) = list_to lib (cast_to lib c t) vs"
| "cast_to lib c (TSet t) (VSet vs) = set_to lib (cast_to lib c t) vs"
| "cast_to lib c (TUSet t) (VUSet vs) = unordered_set_to lib (cast_to lib c t) vs"
| "cast_to lib c (TMap t) (VMap ps) = map_to lib (cast_to lib c t) ps"
| "cast_to lib c (TUMap t) (VUMap ps) = unordered_map_to lib (cast_to lib c t) ps"
| "cast_to lib c _ _ = None"

section \<open>Variables\<close>

type_synonym ('b, 'w) listener = "'b cval \<Rightarrow> 'b cval \<Rightarrow> 'w \<Rightarrow> 'w"

record ('b, 'w) config_var =
  cv_name :: str
  cv_description :: str
  cv_type :: cty
  cv_val :: "'b cval"
  cv_cbs :: "(u64 \<times> ('b, 'w) listener) list"

text \<open>The constructor makes the name lower case.\<close>

definition ConfigVar_new :: "cty \<Rightarrow> str \<Rightarrow> 'b cval \<Rightarrow> str \<Rightarrow> ('b, 'w) config_var" where
  "ConfigVar_new t name default_value description =
     \<lparr>cv_name = map tolower name, cv_description = description, cv_type = t, cv_val = default_value, cv_cbs = []\<rparr>"

definition cv_toString :: "yaml_lib \<Rightarrow> 'b casts \<Rightarrow> ('b, 'w) config_var \<Rightarrow> str" where
  "cv_toString lib c var = (case cast_to lib c (cv_type var) (cv_val var) of None \<Rightarrow> [] | Some s \<Rightarrow> s)"

definition cv_getValue :: "('b, 'w) config_var \<Rightarrow> 'b cval" where
  "cv_getValue var = cv_val var"

text \<open>\<open>operator==\<close> of the types: the hash containers are compared without regard to their order.\<close>

function (sequential) cval_eq :: "'b cval \<Rightarrow> 'b cval \<Rightarrow> bool" where
  "cval_eq (VBase a) (VBase b) \<longleftrightarrow> a = b"
| "cval_eq (VVector xs) (VVector ys) \<longleftrightarrow> length xs = length ys \<and> (\<forall>(x, y)\<in>set (zip xs ys). cval_eq x y)"
| "cval_eq (VList xs) (VList ys) \<longleftrightarrow> length xs = length ys \<and> (\<forall>(x, y)\<in>set (zip xs ys). cval_eq x y)"
| "cval_eq (VSet xs) (VSet ys) \<longleftrightarrow> length xs = length ys \<and> (\<forall>(x, y)\<in>set (zip xs ys). cval_eq x y)"
| "cval_eq (VUSet xs) (VUSet ys) \<longleftrightarrow> length xs = length ys \<and> (\<forall>x\<in>set xs. \<exists>y\<in>set ys. cval_eq x y)"
| "cval_eq (VMap ps) (VMap qs) \<longleftrightarrow> map fst ps = map fst qs \<and>
     (\<forall>(x, y)\<in>set (zip (map snd ps) (map snd qs)). cval_eq x y)"
| "cval_eq (VUMap ps) (VUMap qs) \<longleftrightarrow> length ps = length qs \<and>
     (\<forall>p\<in>set ps. \<exists>q\<in>set qs. fst p = fst q \<and> cval_eq (snd p) (snd q))"
| "cval_eq _ _ \<longleftrightarrow> False"
  by pat_completeness auto

termination
  by (relation "measure (\<lambda>(v, w). size v)")
     (auto simp: termination_simp dest!: set_zip_leftD)

text \<open>The listeners run before the assignment, in the order of their keys, with the old and the new value.\<close>

definition cv_setValue :: "'b cval \<Rightarrow> ('b, 'w) config_var \<Rightarrow> 'w \<Rightarrow> ('b, 'w) config_var \<times> 'w" where
  "cv_setValue v var w =
     (if cval_eq v (cv_val var) then (var, w)
      else (var\<lparr>cv_val := v\<rparr>, foldl (\<lambda>w (k, cb). cb (cv_val var) v w) w (cv_cbs var)))"

text \<open>An exception of the conversion is caught; the result is \<open>false\<close> in every case.\<close>

definition cv_fromString :: "yaml_lib \<Rightarrow> 'b casts \<Rightarrow> str \<Rightarrow> ('b, 'w) config_var \<Rightarrow> 'w \<Rightarrow> ('b, 'w) config_var \<times> 'w \<times> bool" where
  "cv_fromString lib c val var w =
     (case cast_from lib c (cv_type var) val of None \<Rightarrow> (var, w, False)
      | Some v \<Rightarrow> let (var1, w1) = cv_setValue v var w in (var1, w1, False))"

text \<open>The key is the counter of the type; the counter is static in the method of the template.\<close>

definition cv_addListener :: "u64 \<Rightarrow> ('b, 'w) listener \<Rightarrow> ('b, 'w) config_var \<Rightarrow> ('b, 'w) config_var" where
  "cv_addListener key cb var = var\<lparr>cv_cbs := omap_set (<) key cb (cv_cbs var)\<rparr>"

definition cv_delListener :: "u64 \<Rightarrow> ('b, 'w) config_var \<Rightarrow> ('b, 'w) config_var" where
  "cv_delListener key var = var\<lparr>cv_cbs := omap_erase (<) key (cv_cbs var)\<rparr>"

definition cv_getListener :: "u64 \<Rightarrow> ('b, 'w) config_var \<Rightarrow> ('b, 'w) listener option" where
  "cv_getListener key var = omap_find (<) key (cv_cbs var)"

definition cv_clearListener :: "('b, 'w) config_var \<Rightarrow> ('b, 'w) config_var" where
  "cv_clearListener var = var\<lparr>cv_cbs := []\<rparr>"

section \<open>The table\<close>

record ('b, 'w) config =
  cf_vars :: "nat \<Rightarrow> ('b, 'w) config_var option"
  cf_next :: nat
  cf_datas :: "(str \<times> nat) list"
  cf_fun_id :: "cty \<Rightarrow> u64"

definition config_new :: "('b, 'w) config" where
  "config_new = \<lparr>cf_vars = Map.empty, cf_next = 0, cf_datas = [], cf_fun_id = (\<lambda>_. 0)\<rparr>"

text \<open>A method of the variable at an address, which is not null.\<close>

definition put_var :: "nat \<Rightarrow> ('b, 'w) config_var \<Rightarrow> ('b, 'w) config \<Rightarrow> ('b, 'w) config" where
  "put_var a var cf = cf\<lparr>cf_vars := (cf_vars cf)(a \<mapsto> var)\<rparr>"

definition setValue :: "nat \<Rightarrow> 'b cval \<Rightarrow> ('b, 'w) config \<times> 'w \<Rightarrow> (('b, 'w) config \<times> 'w) option" where
  "setValue a v s = (case s of (cf, w) \<Rightarrow>
     (case cf_vars cf a of None \<Rightarrow> None
      | Some var \<Rightarrow> let (var1, w1) = cv_setValue v var w in Some (put_var a var1 cf, w1)))"

definition fromString :: "yaml_lib \<Rightarrow> 'b casts \<Rightarrow> nat \<Rightarrow> str \<Rightarrow> ('b, 'w) config \<times> 'w \<Rightarrow> (('b, 'w) config \<times> 'w) option" where
  "fromString lib c a val s = (case s of (cf, w) \<Rightarrow>
     (case cf_vars cf a of None \<Rightarrow> None
      | Some var \<Rightarrow> let (var1, w1, r) = cv_fromString lib c val var w in Some (put_var a var1 cf, w1)))"

definition addListener :: "nat \<Rightarrow> ('b, 'w) listener \<Rightarrow> ('b, 'w) config \<Rightarrow> (('b, 'w) config \<times> u64) option" where
  "addListener a cb cf =
     (case cf_vars cf a of None \<Rightarrow> None
      | Some var \<Rightarrow>
          let key = cf_fun_id cf (cv_type var) + 1
          in Some (put_var a (cv_addListener key cb var) (cf\<lparr>cf_fun_id := (cf_fun_id cf)(cv_type var := key)\<rparr>), key))"

definition delListener :: "nat \<Rightarrow> u64 \<Rightarrow> ('b, 'w) config \<Rightarrow> ('b, 'w) config option" where
  "delListener a key cf =
     (case cf_vars cf a of None \<Rightarrow> None | Some var \<Rightarrow> Some (put_var a (cv_delListener key var) cf))"

definition clearListener :: "nat \<Rightarrow> ('b, 'w) config \<Rightarrow> ('b, 'w) config option" where
  "clearListener a cf =
     (case cf_vars cf a of None \<Rightarrow> None | Some var \<Rightarrow> Some (put_var a (cv_clearListener var) cf))"

text \<open>The characters a name may have: in \<open>Lookup\<close>, and in \<open>ListAllMember\<close>, which forgets the digit 9.\<close>

definition LOOKUP_CHARS :: str where
  "LOOKUP_CHARS = lit ''abcdefghijklmnopqrstuvwxyz._0123456789''"

definition MEMBER_CHARS :: str where
  "MEMBER_CHARS = lit ''abcdefghijklmnopqrstuvwxyz._012345678''"

definition only_of :: "str \<Rightarrow> str \<Rightarrow> bool" where
  "only_of chars s \<longleftrightarrow> (\<forall>c\<in>set s. c \<in> set chars)"

text \<open>A pointer, a null pointer, an exception.\<close>

datatype lookup_result = Pointer nat | NullPointer | InvalidArgument

definition dyn_cast :: "cty \<Rightarrow> ('b, 'w) config \<Rightarrow> nat \<Rightarrow> lookup_result" where
  "dyn_cast t cf a = (case cf_vars cf a of None \<Rightarrow> NullPointer
     | Some var \<Rightarrow> if cv_type var = t then Pointer a else NullPointer)"

definition Lookup :: "cty \<Rightarrow> str \<Rightarrow> 'b cval \<Rightarrow> str \<Rightarrow> ('b, 'w) config \<Rightarrow> ('b, 'w) config \<times> lookup_result" where
  "Lookup t name default_value description cf =
     (case omap_find lex_less name (cf_datas cf) of
        Some a \<Rightarrow> (cf, dyn_cast t cf a)
      | None \<Rightarrow>
          if \<not> only_of LOOKUP_CHARS name then (cf, InvalidArgument)
          else let a = cf_next cf;
                   cf1 = put_var a (ConfigVar_new t name default_value description) (cf\<lparr>cf_next := Suc a\<rparr>)
               in (cf1\<lparr>cf_datas := omap_set lex_less name a (cf_datas cf1)\<rparr>, Pointer a))"

definition Lookup_existing :: "cty \<Rightarrow> str \<Rightarrow> ('b, 'w) config \<Rightarrow> lookup_result" where
  "Lookup_existing t name cf =
     (case omap_find lex_less name (cf_datas cf) of None \<Rightarrow> NullPointer | Some a \<Rightarrow> dyn_cast t cf a)"

definition LookupBase :: "str \<Rightarrow> ('b, 'w) config \<Rightarrow> nat option" where
  "LookupBase name cf = omap_find lex_less name (cf_datas cf)"

text \<open>The members of a document, under dotted names; a member with a bad name is left out with all it holds.\<close>

fun ListAllMember :: "str \<Rightarrow> yaml \<Rightarrow> (str \<times> yaml) list" where
  "ListAllMember prefix node =
     (if \<not> only_of MEMBER_CHARS prefix then []
      else (prefix, node) #
        (case node of
           YMap ps \<Rightarrow> concat (map (\<lambda>(k, n).
             ListAllMember (if prefix = [] then y_scalar k else prefix @ lit ''.'' @ y_scalar k) n) ps)
         | _ \<Rightarrow> []))"

declare ListAllMember.simps [simp del]

definition load_member :: "yaml_lib \<Rightarrow> 'b casts \<Rightarrow> str \<times> yaml \<Rightarrow> ('b, 'w) config \<times> 'w \<Rightarrow> (('b, 'w) config \<times> 'w) option" where
  "load_member lib c m s =
     (if fst m = [] then Some s
      else (case LookupBase (map tolower (fst m)) (fst s) of None \<Rightarrow> Some s
        | Some a \<Rightarrow> fromString lib c a (case snd m of YScalar t \<Rightarrow> t | n \<Rightarrow> y_emit lib n) s))"

fun load_members :: "yaml_lib \<Rightarrow> 'b casts \<Rightarrow> (str \<times> yaml) list \<Rightarrow> ('b, 'w) config \<times> 'w \<Rightarrow> (('b, 'w) config \<times> 'w) option" where
  "load_members lib c [] s = Some s"
| "load_members lib c (m # ms) s =
     (case load_member lib c m s of None \<Rightarrow> None | Some s1 \<Rightarrow> load_members lib c ms s1)"

definition LoadFromYaml :: "yaml_lib \<Rightarrow> 'b casts \<Rightarrow> yaml \<Rightarrow> ('b, 'w) config \<times> 'w \<Rightarrow> (('b, 'w) config \<times> 'w) option" where
  "LoadFromYaml lib c root s = load_members lib c (ListAllMember [] root) s"

definition Visit :: "(nat \<Rightarrow> 's \<Rightarrow> 's) \<Rightarrow> ('b, 'w) config \<Rightarrow> 's \<Rightarrow> 's" where
  "Visit cb cf x = foldl (\<lambda>x (name, a). cb a x) x (cf_datas cf)"

end
