(* ===== verification/LogReload.thy ===== *)
theory LogReload
  imports LogConfig Config
begin

text \<open>
  The variable \<open>logs\<close> of \<^verbatim>\<open>src/src/log.cc\<close> in the table of the configuration, with the listener that the
  constructor of \<open>LogIniter\<close> adds. The world that listeners change is the state of the loggers, or the error
  that ended the program.
\<close>

text \<open>The base types of the variables that the library defines: the definitions of the loggers, and numbers.\<close>

datatype base_val = BLogs "LogDefine list" | BInt int | BUint u64

abbreviation LOGS :: cty where "LOGS \<equiv> TBase 0"

text \<open>The specialisations of \<open>LexicalCast\<close>, beside what \<open>c\<close> has for the other types.\<close>

definition base_casts :: "yaml_lib \<Rightarrow> base_val casts \<Rightarrow> base_val casts" where
  "base_casts lib c =
     c\<lparr>c_from := \<lambda>k s. if k = 0 then map_option BLogs (logs_from_string lib s) else c_from c k s,
       c_to := \<lambda>k v. (case v of BLogs ds \<Rightarrow> if k = 0 then Some (logs_to_string lib ds) else None | _ \<Rightarrow> c_to c k v)\<rparr>"

text \<open>The listener; an exception or a crash ends the program.\<close>

definition LogIniter_cb :: "log_env \<Rightarrow> log_event \<Rightarrow> (base_val, log_error + log_state) listener" where
  "LogIniter_cb env ev old_value new_value w =
     (case (old_value, new_value) of
        (VBase (BLogs old_logs), VBase (BLogs new_logs)) \<Rightarrow> bindE w (conf_changed env ev old_logs new_logs)
      | _ \<Rightarrow> w)"

text \<open>What runs before \<open>main\<close>: the variable is made and the listener is added to it.\<close>

definition LogIniter_new :: "log_env \<Rightarrow> log_event \<Rightarrow> (base_val, log_error + log_state) config \<Rightarrow>
    (base_val, log_error + log_state) config option" where
  "LogIniter_new env ev cf =
     (case Lookup LOGS (lit ''logs'') (VBase (BLogs [])) (lit ''logs config'') cf of
        (cf1, Pointer a) \<Rightarrow> map_option fst (addListener a (LogIniter_cb env ev) cf1)
      | _ \<Rightarrow> None)"

end
