(* ===== verification/Config_Spec.thy ===== *)
theory Config_Spec
  imports Config StrOrder
begin

text \<open>
  What the configuration promises: the values of variables keep the types of their variables, and the pointers
  that \<open>Lookup\<close> hands out have the type they were asked for; what loading a document does to each variable;
  the conversions to and from text. And where the code falls short: names with a 9 are never loaded.
\<close>

section \<open>Typed values\<close>

fun has_type :: "'b casts \<Rightarrow> cty \<Rightarrow> 'b cval \<Rightarrow> bool" where
  "has_type c (TBase k) (VBase b) \<longleftrightarrow> c_type c b = k"
| "has_type c (TVector t) (VVector vs) \<longleftrightarrow> (\<forall>v\<in>set vs. has_type c t v)"
| "has_type c (TList t) (VList vs) \<longleftrightarrow> (\<forall>v\<in>set vs. has_type c t v)"
| "has_type c (TSet t) (VSet vs) \<longleftrightarrow> (\<forall>v\<in>set vs. has_type c t v)"
| "has_type c (TUSet t) (VUSet vs) \<longleftrightarrow> (\<forall>v\<in>set vs. has_type c t v)"
| "has_type c (TMap t) (VMap ps) \<longleftrightarrow> (\<forall>v\<in>snd ` set ps. has_type c t v)"
| "has_type c (TUMap t) (VUMap ps) \<longleftrightarrow> (\<forall>v\<in>snd ` set ps. has_type c t v)"
| "has_type c _ _ \<longleftrightarrow> False"

text \<open>The conversion to a base type yields that type; the hash containers insert and invent nothing.\<close>

definition casts_typed :: "'b casts \<Rightarrow> bool" where
  "casts_typed c \<longleftrightarrow> (\<forall>k s b. c_from c k s = Some b \<longrightarrow> c_type c b = k) \<and>
     (\<forall>x xs. set (c_uinsert c x xs) \<subseteq> insert x (set xs)) \<and>
     (\<forall>k v m. set (c_uput c k v m) \<subseteq> insert (k, v) (set m))"

lemma collect_set: "collect f xs = Some ys \<Longrightarrow> y \<in> set ys \<Longrightarrow> \<exists>x\<in>set xs. f x = Some y"
  by (induction xs arbitrary: ys) (auto split: option.splits)

lemma foldl_all:
  assumes "\<And>x s. set (g s x) \<subseteq> insert x (set s)" "\<forall>x\<in>set xs. P x"
  shows "\<forall>x\<in>set (foldl g [] xs). P x"
proof -
  have "\<forall>x\<in>set s. P x \<Longrightarrow> \<forall>x\<in>set xs. P x \<Longrightarrow> \<forall>x\<in>set (foldl g s xs). P x" for s
  proof (induction xs arbitrary: s)
    case (Cons x xs)
    have "P y" if "y \<in> set (g s x)" for y
    proof -
      have "y \<in> insert x (set s)" using that assms(1) by (rule set_rev_mp)
      then show ?thesis using Cons.prems by auto
    qed
    then show ?case using Cons.IH [of "g s x"] Cons.prems(2) by simp
  qed simp
  from this [of "[]"] show ?thesis using assms(2) by simp
qed

lemma oset_insert_subset: "set (oset_insert lt x ys) \<subseteq> insert x (set ys)"
  by (induction ys) auto

lemma map_insert_subset: "set (map_insert m p) \<subseteq> insert p (set m)"
proof -
  have "set (omap_set lex_less k v m) \<subseteq> insert (k, v) (set m)" if "omap_find lex_less k m = None" for k v and m :: "(str \<times> 'a) list"
    using that by (induction m) (auto simp: incomp_def split: if_splits)
  then show ?thesis by (cases p) (auto simp: map_insert_def split: option.splits)
qed

lemma cast_from_typed:
  assumes "casts_typed c"
  shows "cast_from lib c t s = Some v \<Longrightarrow> has_type c t v"
proof (induction t arbitrary: s v)
  case (TBase k)
  then show ?case using assms by (auto simp: casts_typed_def)
next
  have elems: "\<forall>v\<in>set vs. has_type c t v" if "elems_from lib (cast_from lib c t) s = Some vs"
    and "\<And>s v. cast_from lib c t s = Some v \<Longrightarrow> has_type c t v" for t s vs
    using that by (auto simp: elems_from_def dest!: collect_set split: option.splits)
  have pairs: "\<forall>v\<in>snd ` set ps. has_type c t v" if "pairs_from lib (cast_from lib c t) s = Some ps"
    and "\<And>s v. cast_from lib c t s = Some v \<Longrightarrow> has_type c t v" for t s ps
    using that by (auto simp: pairs_from_def dest!: collect_set split: option.splits)
  {
    case (TVector t)
    then show ?case using elems by auto
  next
    case (TList t)
    then show ?case using elems by auto
  next
    case (TSet t)
    then obtain xs where xs: "elems_from lib (cast_from lib c t) s = Some xs"
      "v = VSet (foldl (\<lambda>s x. oset_insert (c_less c) x s) [] xs)" by auto
    then show ?case using foldl_all [OF oset_insert_subset elems [OF xs(1) TSet.IH]] by simp
  next
    case (TUSet t)
    then obtain xs where xs: "elems_from lib (cast_from lib c t) s = Some xs"
      "v = VUSet (foldl (\<lambda>s x. c_uinsert c x s) [] xs)" by auto
    have "set (c_uinsert c x s) \<subseteq> insert x (set s)" for x s using assms by (simp add: casts_typed_def)
    from foldl_all [OF this elems [OF xs(1) TUSet.IH]] show ?case using xs(2) by simp
  next
    case (TMap t)
    then obtain ps where ps: "pairs_from lib (cast_from lib c t) s = Some ps" "v = VMap (foldl map_insert [] ps)" by auto
    then show ?case using foldl_all [OF map_insert_subset, of ps "\<lambda>p. has_type c t (snd p)"] pairs [OF ps(1) TMap.IH] by simp
  next
    case (TUMap t)
    then obtain ps where ps: "pairs_from lib (cast_from lib c t) s = Some ps"
      "v = VUMap (foldl (\<lambda>m p. c_uput c (fst p) (snd p) m) [] ps)" by auto
    have "set (c_uput c (fst p) (snd p) m) \<subseteq> insert p (set m)" for p m
      using assms by (cases p) (simp add: casts_typed_def)
    from foldl_all [OF this, of ps "\<lambda>p. has_type c t (snd p)"] show ?case using pairs [OF ps(1) TUMap.IH] ps(2) by simp
  }
qed

section \<open>The invariant of the table\<close>

definition var_ok :: "'b casts \<Rightarrow> ('b, 'w) config_var \<Rightarrow> bool" where
  "var_ok c var \<longleftrightarrow> has_type c (cv_type var) (cv_val var)"

definition config_ok :: "'b casts \<Rightarrow> ('b, 'w) config \<Rightarrow> bool" where
  "config_ok c cf \<longleftrightarrow>
     (\<forall>a var. cf_vars cf a = Some var \<longrightarrow> a < cf_next cf \<and> var_ok c var) \<and>
     (\<forall>n a. omap_find lex_less n (cf_datas cf) = Some a \<longrightarrow> (\<exists>var. cf_vars cf a = Some var \<and> cv_name var = n)) \<and>
     sorted_wrt lex_less (map fst (cf_datas cf))"

lemma config_okD:
  assumes "config_ok c cf"
  shows "cf_vars cf a = Some var \<Longrightarrow> a < cf_next cf" "cf_vars cf a = Some var \<Longrightarrow> var_ok c var"
    "omap_find lex_less n (cf_datas cf) = Some a \<Longrightarrow> \<exists>var. cf_vars cf a = Some var \<and> cv_name var = n"
    "sorted_wrt lex_less (map fst (cf_datas cf))"
  using assms by (auto simp: config_ok_def)

text \<open>Variables stay, under their names and with their types.\<close>

definition vars_kept :: "('b, 'w) config \<Rightarrow> ('b, 'w) config \<Rightarrow> bool" where
  "vars_kept cf cf' \<longleftrightarrow> (\<forall>a var. cf_vars cf a = Some var \<longrightarrow>
     (\<exists>var'. cf_vars cf' a = Some var' \<and> cv_type var' = cv_type var \<and> cv_name var' = cv_name var))"

lemma vars_kept_refl [simp]: "vars_kept cf cf"
  by (simp add: vars_kept_def)

lemma vars_kept_trans: "vars_kept a b \<Longrightarrow> vars_kept b c \<Longrightarrow> vars_kept a c"
  unfolding vars_kept_def by fastforce

lemma put_var_simps [simp]:
  "cf_vars (put_var a var cf) = (cf_vars cf)(a \<mapsto> var)" "cf_next (put_var a var cf) = cf_next cf"
  "cf_datas (put_var a var cf) = cf_datas cf" "cf_fun_id (put_var a var cf) = cf_fun_id cf"
  by (simp_all add: put_var_def)

lemma put_var_ok:
  assumes "config_ok c cf" "cf_vars cf a = Some var" "cv_type var' = cv_type var" "cv_name var' = cv_name var" "var_ok c var'"
  shows "config_ok c (put_var a var' cf) \<and> vars_kept cf (put_var a var' cf)"
proof -
  have "\<exists>v. cf_vars (put_var a var' cf) k = Some v \<and> cv_name v = n" if "omap_find lex_less n (cf_datas cf) = Some k" for n k
    using config_okD(3) [OF assms(1) that] assms(2,4) by auto
  then show ?thesis
    using config_okD [OF assms(1)] assms unfolding config_ok_def vars_kept_def by auto
qed

lemma only_of_lower: "only_of LOOKUP_CHARS name \<Longrightarrow> map tolower name = name"
  by (rule map_idI) (auto simp: only_of_def LOOKUP_CHARS_def lit_def tolower_def word_le_nat_alt)

lemma Lookup_ok:
  assumes ok: "config_ok c cf" and t: "has_type c t d" and l: "Lookup t name d desc cf = (cf', r)"
  shows "config_ok c cf' \<and> vars_kept cf cf' \<and>
    (\<forall>a. r = Pointer a \<longrightarrow> (\<exists>var. cf_vars cf' a = Some var \<and> cv_type var = t \<and> cv_name var = name))"
proof (cases "omap_find lex_less name (cf_datas cf)")
  case (Some a)
  then show ?thesis using l ok config_okD(3) [OF ok Some]
    by (auto simp: Lookup_def dyn_cast_def split: if_splits option.splits)
next
  case None
  show ?thesis
  proof (cases "only_of LOOKUP_CHARS name")
    case False
    then show ?thesis using None l ok by (auto simp: Lookup_def)
  next
    case True
    let ?a = "cf_next cf" and ?v = "ConfigVar_new t name d desc"
    have cf': "cf' = (put_var ?a ?v (cf\<lparr>cf_next := Suc ?a\<rparr>))\<lparr>cf_datas := omap_set lex_less name ?a (cf_datas cf)\<rparr>"
      and r: "r = Pointer ?a"
      using None True l by (auto simp: Lookup_def Let_def)
    have name: "cv_name ?v = name" using only_of_lower [OF True] by (simp add: ConfigVar_new_def)
    have v: "var_ok c ?v" using t by (simp add: var_ok_def ConfigVar_new_def)
    have fresh: "cf_vars cf ?a = None" using config_okD(1) [OF ok, of ?a] by (cases "cf_vars cf ?a") auto
    have find: "\<exists>var. cf_vars cf' k = Some var \<and> cv_name var = n"
      if "omap_find lex_less n (cf_datas cf') = Some k" for n k
    proof (cases "n = name")
      case True
      then have "k = ?a" using that lx.find_set_same [OF config_okD(4) [OF ok], of n name ?a] by (simp add: cf')
      then show ?thesis using name True by (simp add: cf')
    next
      case False
      then have "omap_find lex_less n (cf_datas cf) = Some k"
        using that lx.find_set_other [of n name ?a "cf_datas cf"] by (simp add: cf')
      then show ?thesis using config_okD(3) [OF ok, of n k] fresh by (auto simp: cf')
    qed
    have "sorted_wrt lex_less (map fst (cf_datas cf'))"
      using lx.map_ordered_set [OF config_okD(4) [OF ok]] by (simp add: cf')
    moreover have "b < cf_next cf' \<and> var_ok c var" if "cf_vars cf' b = Some var" for b var
      using that config_okD(1,2) [OF ok, of b] v by (auto simp: cf' less_Suc_eq split: if_splits)
    ultimately have "config_ok c cf'" using find unfolding config_ok_def by blast
    moreover have "vars_kept cf cf'" using fresh by (auto simp: vars_kept_def cf')
    ultimately show ?thesis using r name by (simp add: cf' ConfigVar_new_def)
  qed
qed

section \<open>Setting and loading\<close>

text \<open>A value that compares equal to the old one is not assigned.\<close>

definition assigned :: "'b cval \<Rightarrow> 'b cval \<Rightarrow> 'b cval" where
  "assigned v old = (if cval_eq v old then old else v)"

lemma assigned_typed: "has_type c t v \<Longrightarrow> has_type c t old \<Longrightarrow> has_type c t (assigned v old)"
  by (simp add: assigned_def)

lemma cval_eq_refl: "cval_eq v v"
proof (induction v)
  case (VVector xs)
  then show ?case by (auto simp: zip_same)
next
  case (VList xs)
  then show ?case by (auto simp: zip_same)
next
  case (VSet xs)
  then show ?case by (auto simp: zip_same)
next
  case (VMap ps)
  then show ?case by (fastforce simp: zip_same snds.simps)
next
  case (VUMap ps)
  then show ?case by (fastforce simp: snds.simps)
qed auto

text \<open>So the value after an assignment compares equal to the one assigned.\<close>

lemma assigned_eq: "cval_eq v (assigned v old)"
  by (simp add: assigned_def cval_eq_refl)

lemma cv_setValue_var: "fst (cv_setValue v var w) = var\<lparr>cv_val := assigned v (cv_val var)\<rparr>"
  by (simp add: cv_setValue_def assigned_def)

text \<open>What \<open>fromString\<close> makes of a value.\<close>

definition converted :: "yaml_lib \<Rightarrow> 'b casts \<Rightarrow> cty \<Rightarrow> str \<Rightarrow> 'b cval \<Rightarrow> 'b cval" where
  "converted lib c t s v = (case cast_from lib c t s of None \<Rightarrow> v | Some u \<Rightarrow> assigned u v)"

lemma cv_fromString_var: "fst (cv_fromString lib c s var w) = var\<lparr>cv_val := converted lib c (cv_type var) s (cv_val var)\<rparr>"
proof (cases "cast_from lib c (cv_type var) s")
  case (Some v)
  then show ?thesis using cv_setValue_var [of v var w]
    by (cases "cv_setValue v var w") (simp add: cv_fromString_def converted_def)
qed (simp add: cv_fromString_def converted_def)

lemma fromString_var:
  assumes "cf_vars cf a = Some var"
  shows "\<exists>w'. fromString lib c a s (cf, w) =
    Some (put_var a (var\<lparr>cv_val := converted lib c (cv_type var) s (cv_val var)\<rparr>) cf, w')"
  using assms cv_fromString_var [of lib c s var w] by (auto simp: fromString_def split: prod.splits)

lemma setValue_var:
  assumes "cf_vars cf a = Some var"
  shows "\<exists>w'. setValue a v (cf, w) = Some (put_var a (var\<lparr>cv_val := assigned v (cv_val var)\<rparr>) cf, w')"
  using assms cv_setValue_var [of v var w] by (auto simp: setValue_def split: prod.splits)

lemma converted_typed: "casts_typed c \<Longrightarrow> has_type c t v \<Longrightarrow> has_type c t (converted lib c t s v)"
  by (cases "cast_from lib c t s") (simp_all add: converted_def assigned_typed [OF cast_from_typed])

lemma fromString_ok:
  assumes "casts_typed c" "config_ok c cf" "cf_vars cf a = Some var"
  shows "\<exists>cf' w'. fromString lib c a s (cf, w) = Some (cf', w') \<and> config_ok c cf' \<and> vars_kept cf cf'"
proof -
  have "var_ok c (var\<lparr>cv_val := converted lib c (cv_type var) s (cv_val var)\<rparr>)"
    using config_okD(2) [OF assms(2,3)] converted_typed [OF assms(1)] by (simp add: var_ok_def)
  then show ?thesis using fromString_var [OF assms(3), of lib c s w] put_var_ok [OF assms(2,3)] by fastforce
qed

lemma load_members_ok:
  assumes "casts_typed c" "config_ok c cf"
  shows "\<exists>cf' w'. load_members lib c ms (cf, w) = Some (cf', w') \<and> config_ok c cf' \<and> vars_kept cf cf'"
  using assms(2)
proof (induction ms arbitrary: cf w)
  case (Cons m ms)
  have "\<exists>cf1 w1. load_member lib c m (cf, w) = Some (cf1, w1) \<and> config_ok c cf1 \<and> vars_kept cf cf1"
    using Cons.prems config_okD(3) [OF Cons.prems] fromString_ok [OF assms(1) Cons.prems]
    by (fastforce simp: load_member_def LookupBase_def split: option.splits)
  then obtain cf1 w1 where one: "load_member lib c m (cf, w) = Some (cf1, w1)" "config_ok c cf1" "vars_kept cf cf1" by blast
  then show ?case using Cons.IH [OF one(2), of w1] vars_kept_trans [OF one(3)] by auto
qed simp

section \<open>The properties\<close>

text \<open>The operations on the table and on variables that pointers were handed out to.\<close>

datatype ('b, 'w) config_cmd = DoLookup cty str "'b cval" str | DoSet nat "'b cval" | DoFromString nat str
  | DoAddListener nat "('b, 'w) listener" | DoDelListener nat u64 | DoClearListener nat | DoLoad yaml

fun config_step :: "yaml_lib \<Rightarrow> 'b casts \<Rightarrow> ('b, 'w) config_cmd \<Rightarrow> ('b, 'w) config \<times> 'w \<Rightarrow> (('b, 'w) config \<times> 'w) option" where
  "config_step lib c (DoLookup t name d desc) s = Some (fst (Lookup t name d desc (fst s)), snd s)"
| "config_step lib c (DoSet a v) s = setValue a v s"
| "config_step lib c (DoFromString a t) s = fromString lib c a t s"
| "config_step lib c (DoAddListener a cb) s = map_option (\<lambda>r. (fst r, snd s)) (addListener a cb (fst s))"
| "config_step lib c (DoDelListener a key) s = map_option (\<lambda>cf. (cf, snd s)) (delListener a key (fst s))"
| "config_step lib c (DoClearListener a) s = map_option (\<lambda>cf. (cf, snd s)) (clearListener a (fst s))"
| "config_step lib c (DoLoad root) s = LoadFromYaml lib c root s"

text \<open>What the C++ compiler checks: default values and new values have the type of the template or the variable.\<close>

fun typed_cmd :: "'b casts \<Rightarrow> ('b, 'w) config \<Rightarrow> ('b, 'w) config_cmd \<Rightarrow> bool" where
  "typed_cmd c cf (DoLookup t name d desc) \<longleftrightarrow> has_type c t d"
| "typed_cmd c cf (DoSet a v) \<longleftrightarrow> (\<exists>var. cf_vars cf a = Some var \<and> has_type c (cv_type var) v)"
| "typed_cmd c cf (DoFromString a s) \<longleftrightarrow> cf_vars cf a \<noteq> None"
| "typed_cmd c cf (DoAddListener a cb) \<longleftrightarrow> cf_vars cf a \<noteq> None"
| "typed_cmd c cf (DoDelListener a key) \<longleftrightarrow> cf_vars cf a \<noteq> None"
| "typed_cmd c cf (DoClearListener a) \<longleftrightarrow> cf_vars cf a \<noteq> None"
| "typed_cmd c cf (DoLoad root) \<longleftrightarrow> True"

lemma config_step_ok:
  assumes c: "casts_typed c" and ok: "config_ok c cf" and t: "typed_cmd c cf cmd"
  shows "\<exists>cf' w'. config_step lib c cmd (cf, w) = Some (cf', w') \<and> config_ok c cf' \<and> vars_kept cf cf'"
proof (cases cmd)
  case (DoLookup t name d desc)
  then show ?thesis using Lookup_ok [OF ok, of t d name desc] assms(3) by (cases "Lookup t name d desc cf") auto
next
  case (DoSet a v)
  then obtain var where var: "cf_vars cf a = Some var" "has_type c (cv_type var) v" using t by auto
  then have "var_ok c (var\<lparr>cv_val := assigned v (cv_val var)\<rparr>)"
    using config_okD(2) [OF ok var(1)] assigned_typed by (simp add: var_ok_def)
  then show ?thesis using DoSet setValue_var [OF var(1), of v w] put_var_ok [OF ok var(1)] by fastforce
next
  case (DoFromString a s)
  then show ?thesis using t fromString_ok [OF c ok] by auto
next
  case (DoAddListener a cb)
  then obtain var where var: "cf_vars cf a = Some var" using t by auto
  let ?cf = "cf\<lparr>cf_fun_id := (cf_fun_id cf)(cv_type var := cf_fun_id cf (cv_type var) + 1)\<rparr>"
  have ok1: "config_ok c ?cf" using ok by (simp add: config_ok_def)
  have v: "var_ok c (cv_addListener k cb var)" for k
    using config_okD(2) [OF ok var] by (simp add: var_ok_def cv_addListener_def)
  have kept: "vars_kept cf ?cf" by (simp add: vars_kept_def)
  show ?thesis
    using DoAddListener var put_var_ok [OF ok1, of a var "cv_addListener (cf_fun_id cf (cv_type var) + 1) cb var"] v
      vars_kept_trans [OF kept] by (auto simp: addListener_def Let_def cv_addListener_def)
next
  case (DoDelListener a key)
  then obtain var where var: "cf_vars cf a = Some var" using t by auto
  have "var_ok c (cv_delListener key var)" using config_okD(2) [OF ok var] by (simp add: var_ok_def cv_delListener_def)
  then show ?thesis using DoDelListener var put_var_ok [OF ok var, of "cv_delListener key var"]
    by (auto simp: delListener_def cv_delListener_def)
next
  case (DoClearListener a)
  then obtain var where var: "cf_vars cf a = Some var" using t by auto
  have "var_ok c (cv_clearListener var)" using config_okD(2) [OF ok var] by (simp add: var_ok_def cv_clearListener_def)
  then show ?thesis using DoClearListener var put_var_ok [OF ok var, of "cv_clearListener var"]
    by (auto simp: clearListener_def cv_clearListener_def)
next
  case (DoLoad root)
  then show ?thesis using load_members_ok [OF c ok] by (simp add: LoadFromYaml_def)
qed

fun config_run :: "yaml_lib \<Rightarrow> 'b casts \<Rightarrow> ('b, 'w) config_cmd list \<Rightarrow> ('b, 'w) config \<times> 'w \<Rightarrow> (('b, 'w) config \<times> 'w) option" where
  "config_run lib c [] s = Some s"
| "config_run lib c (cmd # cmds) s =
     (case config_step lib c cmd s of None \<Rightarrow> None | Some s1 \<Rightarrow> config_run lib c cmds s1)"

fun typed_run :: "yaml_lib \<Rightarrow> 'b casts \<Rightarrow> ('b, 'w) config_cmd list \<Rightarrow> ('b, 'w) config \<times> 'w \<Rightarrow> bool" where
  "typed_run lib c [] s \<longleftrightarrow> True"
| "typed_run lib c (cmd # cmds) s \<longleftrightarrow> typed_cmd c (fst s) cmd \<and>
     (case config_step lib c cmd s of None \<Rightarrow> True | Some s1 \<Rightarrow> typed_run lib c cmds s1)"

lemma config_run_ok:
  assumes "casts_typed c" "config_ok c cf" "typed_run lib c cmds (cf, w)"
  shows "\<exists>cf' w'. config_run lib c cmds (cf, w) = Some (cf', w') \<and> config_ok c cf' \<and> vars_kept cf cf'"
  using assms(2,3)
proof (induction cmds arbitrary: cf w)
  case (Cons cmd cmds)
  obtain cf1 w1 where one: "config_step lib c cmd (cf, w) = Some (cf1, w1)" "config_ok c cf1" "vars_kept cf cf1"
    using config_step_ok [OF assms(1) Cons.prems(1), of cmd lib w] Cons.prems(2) by auto
  obtain cf2 w2 where "config_run lib c cmds (cf1, w1) = Some (cf2, w2)" "config_ok c cf2" "vars_kept cf1 cf2"
    using Cons.IH [OF one(2), of w1] Cons.prems(2) one(1) by auto
  then show ?case using one(1) vars_kept_trans [OF one(3)] by auto
qed simp

text \<open>
  C20: A pointer that \<open>Lookup\<close> hands out for a type is a pointer to a variable of that type, under the name asked
  for, for good: no sequence of look-ups, assignments, conversions from text, loads of documents and changes of
  listeners gets stuck, and afterwards the variable still has that type and a value of it.
\<close>
theorem config_type_safe:
  assumes "casts_typed c" "config_ok c cf" "has_type c t d"
    and "Lookup t name d desc cf = (cf1, Pointer a)" "typed_run lib c cmds (cf1, w)"
  shows "\<exists>cf2 w2 var. config_run lib c cmds (cf1, w) = Some (cf2, w2) \<and> config_ok c cf2 \<and>
    cf_vars cf2 a = Some var \<and> cv_name var = name \<and> cv_type var = t \<and> has_type c t (cv_getValue var)"
proof -
  obtain var where one: "config_ok c cf1" "cf_vars cf1 a = Some var" "cv_type var = t" "cv_name var = name"
    using Lookup_ok [OF assms(2-4)] by blast
  obtain cf2 w2 where two: "config_run lib c cmds (cf1, w) = Some (cf2, w2)" "config_ok c cf2" "vars_kept cf1 cf2"
    using config_run_ok [OF assms(1) one(1) assms(5)] by blast
  obtain var2 where "cf_vars cf2 a = Some var2" "cv_type var2 = t" "cv_name var2 = name"
    using two(3) one(2-4) unfolding vars_kept_def by blast
  then show ?thesis using two(1,2) config_okD(2) [OF two(2)] by (fastforce simp: var_ok_def cv_getValue_def)
qed

abbreviation nat_casts :: "nat casts" where
  "nat_casts \<equiv> \<lparr>c_from = \<lambda>k s. if k = 0 \<and> s \<noteq> [] then Some (digits_val 10 0 s) else None, c_to = \<lambda>k n. Some (dec n),
     c_type = \<lambda>_. 0, c_less = \<lambda>_ _. False, c_uinsert = \<lambda>x xs. xs, c_uput = \<lambda>k v m. m\<rparr>"

lemma nat_casts_typed: "casts_typed nat_casts"
  by (auto simp: casts_typed_def)

lemma config_new_ok: "config_ok c config_new"
  by (simp add: config_ok_def config_new_def)

abbreviation one_var :: "(nat, unit) config" where
  "one_var \<equiv> fst (Lookup (TBase 0) (lit ''port'') (VBase 80) [] config_new)"

lemma config_type_safe_witness:
  "\<exists>cf2 w2 var. config_run small_lib nat_casts [DoFromString 0 (lit ''8020'')] (one_var, ()) = Some (cf2, w2) \<and>
    config_ok nat_casts cf2 \<and> cf_vars cf2 0 = Some var \<and> cv_name var = lit ''port'' \<and> cv_type var = TBase 0 \<and>
    has_type nat_casts (TBase 0) (cv_getValue var)"
proof (rule config_type_safe [OF nat_casts_typed config_new_ok])
  have port: "only_of LOOKUP_CHARS (lit ''port'')" by (simp add: only_of_def LOOKUP_CHARS_def lit_def)
  show "Lookup (TBase 0) (lit ''port'') (VBase 80) [] config_new = (one_var, Pointer 0)"
    using port by (simp add: Lookup_def config_new_def Let_def)
  show "typed_run small_lib nat_casts [DoFromString 0 (lit ''8020'')] (one_var, ())"
    using port by (simp add: Lookup_def config_new_def Let_def split: option.splits)
qed simp

text \<open>
  What a document makes of a variable: its members are converted in order, and those under its name that the
  conversion accepts replace the value.
\<close>

definition member_text :: "yaml_lib \<Rightarrow> yaml \<Rightarrow> str" where
  "member_text lib n = (case n of YScalar t \<Rightarrow> t | _ \<Rightarrow> y_emit lib n)"

fun loaded_value :: "yaml_lib \<Rightarrow> 'b casts \<Rightarrow> str \<Rightarrow> cty \<Rightarrow> (str \<times> yaml) list \<Rightarrow> 'b cval \<Rightarrow> 'b cval" where
  "loaded_value lib c name t [] v = v"
| "loaded_value lib c name t (m # ms) v = loaded_value lib c name t ms
     (if fst m \<noteq> [] \<and> map tolower (fst m) = name then converted lib c t (member_text lib (snd m)) v else v)"

lemma load_member_var:
  assumes ok: "config_ok c cf" and a: "omap_find lex_less name (cf_datas cf) = Some a" "cf_vars cf a = Some var"
    and l: "load_member lib c m (cf, w) = Some (cf', w')"
  shows "cf_datas cf' = cf_datas cf \<and> cf_vars cf' a = Some (var\<lparr>cv_val :=
    (if fst m \<noteq> [] \<and> map tolower (fst m) = name then converted lib c (cv_type var) (member_text lib (snd m)) (cv_val var)
     else cv_val var)\<rparr>)"
proof (cases "fst m = [] \<or> LookupBase (map tolower (fst m)) cf = None")
  case True
  then have "cf' = cf" using l by (cases "fst m = []") (simp_all add: load_member_def)
  then show ?thesis using True a by (auto simp: LookupBase_def)
next
  case False
  then obtain b where b: "LookupBase (map tolower (fst m)) cf = Some b" "fst m \<noteq> []" by auto
  obtain bvar where bvar: "cf_vars cf b = Some bvar" "cv_name bvar = map tolower (fst m)"
    using config_okD(3) [OF ok] b(1) by (auto simp: LookupBase_def)
  have t: "(case snd m of YScalar t \<Rightarrow> t | n \<Rightarrow> y_emit lib n) = member_text lib (snd m)"
    by (simp add: member_text_def split: yaml.splits)
  have cf': "cf' = put_var b (bvar\<lparr>cv_val := converted lib c (cv_type bvar) (member_text lib (snd m)) (cv_val bvar)\<rparr>) cf"
    using l b fromString_var [OF bvar(1), of lib c "member_text lib (snd m)" w] t by (auto simp: load_member_def)
  have "b = a \<longleftrightarrow> map tolower (fst m) = name"
    using b(1) a bvar config_okD(3) [OF ok a(1)] by (auto simp: LookupBase_def)
  then show ?thesis using cf' a b(2) bvar by auto
qed

lemma load_members_var:
  assumes c: "casts_typed c" and "config_ok c cf" "omap_find lex_less name (cf_datas cf) = Some a" "cf_vars cf a = Some var"
    and "load_members lib c ms (cf, w) = Some (cf', w')"
  shows "cf_vars cf' a = Some (var\<lparr>cv_val := loaded_value lib c name (cv_type var) ms (cv_val var)\<rparr>)"
  using assms(2-)
proof (induction ms arbitrary: cf w var)
  case (Cons m ms)
  obtain cf1 w1 where one: "load_member lib c m (cf, w) = Some (cf1, w1)" "load_members lib c ms (cf1, w1) = Some (cf', w')"
    using Cons.prems(4) by (auto split: option.splits)
  note var = load_member_var [OF Cons.prems(1-3) one(1)]
  have ok1: "config_ok c cf1" using load_members_ok [OF c Cons.prems(1), of lib "[m]" w] one(1) by auto
  show ?case using Cons.IH [OF ok1 _ _ one(2)] var Cons.prems(2) by simp
qed simp

text \<open>Loading touches the variables of the table only, and nothing else of the configuration.\<close>

definition only_table_vars :: "('b, 'w) config \<Rightarrow> ('b, 'w) config \<Rightarrow> bool" where
  "only_table_vars cf cf' \<longleftrightarrow> cf_datas cf' = cf_datas cf \<and> cf_next cf' = cf_next cf \<and> cf_fun_id cf' = cf_fun_id cf \<and>
     (\<forall>a. (\<forall>name. omap_find lex_less name (cf_datas cf) \<noteq> Some a) \<longrightarrow> cf_vars cf' a = cf_vars cf a)"

lemma load_members_frame:
  "load_members lib c ms (cf, w) = Some (cf', w') \<Longrightarrow> only_table_vars cf cf'"
proof (induction ms arbitrary: cf w)
  case (Cons m ms)
  obtain cf1 w1 where one: "load_member lib c m (cf, w) = Some (cf1, w1)" "load_members lib c ms (cf1, w1) = Some (cf', w')"
    using Cons.prems by (auto split: option.splits)
  have "only_table_vars cf cf1"
    using one(1) by (auto simp: load_member_def LookupBase_def fromString_def only_table_vars_def
        split: if_splits option.splits prod.splits)
  then show ?case using Cons.IH [OF one(2)] by (simp add: only_table_vars_def)
qed (simp add: only_table_vars_def)

text \<open>
  C22: Loading a document ends, and sets every variable of the table to what the members under its name say, the last
  convertible one winning, where a value that compares equal to the one before is not assigned; a variable that no
  member names, or whose members do not convert, keeps its value. Names, types, listeners, the table itself
  and the variables that are not in it stay as they are.
\<close>
theorem LoadFromYaml_sets:
  assumes "casts_typed c" "config_ok c cf"
  shows "\<exists>cf' w'. LoadFromYaml lib c root (cf, w) = Some (cf', w') \<and> config_ok c cf' \<and>
    cf_datas cf' = cf_datas cf \<and> cf_next cf' = cf_next cf \<and> cf_fun_id cf' = cf_fun_id cf \<and>
    (\<forall>a. (\<forall>name. omap_find lex_less name (cf_datas cf) \<noteq> Some a) \<longrightarrow> cf_vars cf' a = cf_vars cf a) \<and>
    (\<forall>name a var. omap_find lex_less name (cf_datas cf) = Some a \<longrightarrow> cf_vars cf a = Some var \<longrightarrow>
      cf_vars cf' a = Some (var\<lparr>cv_val := loaded_value lib c name (cv_type var) (ListAllMember [] root) (cv_val var)\<rparr>))"
proof -
  obtain cf' w' where l: "load_members lib c (ListAllMember [] root) (cf, w) = Some (cf', w')" "config_ok c cf'"
    using load_members_ok [OF assms, of lib "ListAllMember [] root" w] by blast
  then show ?thesis
    using load_members_var [OF assms _ _ l(1)] load_members_frame [OF l(1)]
    unfolding LoadFromYaml_def only_table_vars_def by blast
qed

lemma LoadFromYaml_sets_witness:
  "\<exists>cf' w' var. LoadFromYaml small_lib nat_casts (YMap [(YScalar (lit ''port''), YScalar (lit ''8020''))]) (one_var, ()) = Some (cf', w') \<and>
    cf_datas cf' = cf_datas one_var \<and> cf_vars cf' 0 = Some var \<and> cv_val var = VBase 8020"
proof -
  let ?root = "YMap [(YScalar (lit ''port''), YScalar (lit ''8020''))]"
  have l: "Lookup (TBase 0) (lit ''port'') (VBase 80) [] config_new =
      (one_var, snd (Lookup (TBase 0) (lit ''port'') (VBase 80) [] (config_new :: (nat, unit) config)))" by simp
  have ok: "config_ok nat_casts one_var" using Lookup_ok [OF config_new_ok _ l, of nat_casts] by simp
  have port: "only_of LOOKUP_CHARS (lit ''port'')" by (simp add: only_of_def LOOKUP_CHARS_def lit_def)
  then have v: "omap_find lex_less (lit ''port'') (cf_datas one_var) = Some 0"
    "cf_vars one_var 0 = Some (ConfigVar_new (TBase 0) (lit ''port'') (VBase 80) [])"
    by (simp_all add: Lookup_def config_new_def Let_def incomp_def lex_less_irrefl)
  have m: "ListAllMember [] ?root = [([], ?root), (lit ''port'', YScalar (lit ''8020''))]"
    by (simp add: ListAllMember.simps [of _ "YMap _"] ListAllMember.simps [of _ "YScalar _"] only_of_def MEMBER_CHARS_def lit_def
        y_scalar_def)
  have "loaded_value small_lib nat_casts (lit ''port'') (TBase 0) (ListAllMember [] ?root) (VBase 80) = VBase 8020"
    unfolding m by (simp add: converted_def member_text_def assigned_def lit_def tolower_def digit_of_def)
  then show ?thesis
    using LoadFromYaml_sets [OF nat_casts_typed ok, of small_lib ?root "()"] v by (auto simp: ConfigVar_new_def)
qed

text \<open>The names of a document are over the characters of \<open>ListAllMember\<close>, so lower case already.\<close>

lemma members_valid: "m \<in> set (ListAllMember prefix node) \<Longrightarrow> only_of MEMBER_CHARS (fst m)"
proof (induction prefix node rule: ListAllMember.induct)
  case (1 prefix node)
  note IH = 1(1)
  have valid: "only_of MEMBER_CHARS prefix"
    using 1(2) [unfolded ListAllMember.simps [of prefix node]] by (simp split: if_splits)
  show ?case
  proof (cases "m = (prefix, node)")
    case False
    then obtain ps k n where p: "node = YMap ps" "(k, n) \<in> set ps"
      "m \<in> set (ListAllMember (if prefix = [] then y_scalar k else prefix @ lit ''.'' @ y_scalar k) n)"
      using 1(2) [unfolded ListAllMember.simps [of prefix node]] valid by (auto split: yaml.splits)
    then show ?thesis using IH [OF _ p(1) p(2)] valid by simp
  qed (use valid in simp)
qed

lemma member_lower: "only_of MEMBER_CHARS s \<Longrightarrow> map tolower s = s"
  by (rule map_idI) (auto simp: only_of_def MEMBER_CHARS_def lit_def tolower_def word_le_nat_alt)

lemma loaded_none: "\<forall>m\<in>set ms. map tolower (fst m) \<noteq> name \<Longrightarrow> loaded_value lib c name t ms v = v"
  by (induction ms) auto

text \<open>
  A variable whose name has the digit 9 can be made by \<open>Lookup\<close>, but no document ever sets it.
\<close>
theorem nine_never_loaded:
  assumes "casts_typed c" "config_ok c cf" "has_type c t d" "only_of LOOKUP_CHARS name" "57 \<in> set name"
    and "omap_find lex_less name (cf_datas cf) = None"
  shows "\<exists>cf1 a. Lookup t name d desc cf = (cf1, Pointer a) \<and>
    (\<forall>lib root w. \<exists>cf2 w2. LoadFromYaml lib c root (cf1, w) = Some (cf2, w2) \<and> cf_vars cf2 a = cf_vars cf1 a)"
proof -
  obtain cf1 a where l: "Lookup t name d desc cf = (cf1, Pointer a)" and datas: "cf_datas cf1 = omap_set lex_less name a (cf_datas cf)"
    using assms(4,6) by (auto simp: Lookup_def Let_def)
  have "omap_find lex_less name (cf_datas cf1) = Some a"
    unfolding datas by (rule lx.find_set_same [OF config_okD(4) [OF assms(2)]]) simp
  moreover obtain var where "config_ok c cf1" "cf_vars cf1 a = Some var"
    using Lookup_ok [OF assms(2,3) l] by blast
  moreover have "\<forall>m\<in>set (ListAllMember [] root). map tolower (fst m) \<noteq> name" for root
  proof
    fix m
    assume "m \<in> set (ListAllMember [] root)"
    then have m: "only_of MEMBER_CHARS (fst m)" by (rule members_valid)
    then have "57 \<notin> set (fst m)" by (auto simp: only_of_def MEMBER_CHARS_def lit_def)
    then show "map tolower (fst m) \<noteq> name" using member_lower [OF m] assms(5) by auto
  qed
  ultimately have "\<exists>cf2 w2. LoadFromYaml lib c root (cf1, w) = Some (cf2, w2) \<and> cf_vars cf2 a = cf_vars cf1 a" for lib root w
    using load_members_ok [OF assms(1), of cf1 lib "ListAllMember [] root" w] load_members_var [OF assms(1), of cf1 name a var]
      loaded_none [of "ListAllMember [] root" name lib c "cv_type var" "cv_val var"]
    unfolding LoadFromYaml_def by fastforce
  then show ?thesis using l by blast
qed

lemma nine_never_loaded_example:
  "\<exists>cf1 a. Lookup (TBase 0) (lit ''port9'') (VBase 80) [] (config_new :: (nat, unit) config) = (cf1, Pointer a) \<and>
    (\<forall>lib root w. \<exists>cf2 w2. LoadFromYaml lib nat_casts root (cf1, w) = Some (cf2, w2) \<and> cf_vars cf2 a = cf_vars cf1 a)"
  by (rule nine_never_loaded [OF nat_casts_typed config_new_ok])
     (simp_all add: only_of_def LOOKUP_CHARS_def lit_def config_new_def)

section \<open>Conversions there and back\<close>

text \<open>
  What has to hold of the base values and of the texts for a value to survive: a base value is read back from
  its text, also after yaml-cpp has loaded and written it; the node of a container is loaded back from its text;
  sets and maps are in their order. The order of a hash container has to be the one that inserting in it gives.
\<close>

definition elem_nodes :: "yaml_lib \<Rightarrow> 'b casts \<Rightarrow> cty \<Rightarrow> 'b cval list \<Rightarrow> yaml list option" where
  "elem_nodes lib c t vs = collect (\<lambda>v. Option.bind (cast_to lib c t v) (y_load lib)) vs"

fun text_ok :: "yaml_lib \<Rightarrow> 'b casts \<Rightarrow> cty \<Rightarrow> 'b cval \<Rightarrow> bool" where
  "text_ok lib c (TBase k) (VBase b) \<longleftrightarrow>
     (case c_to c k b of None \<Rightarrow> False | Some s \<Rightarrow> c_from c k s = Some b \<and>
       (case y_load lib s of None \<Rightarrow> False | Some n \<Rightarrow> c_from c k (y_emit lib n) = Some b))"
| "text_ok lib c (TVector t) (VVector vs) \<longleftrightarrow> (\<forall>v\<in>set vs. text_ok lib c t v) \<and>
     (\<forall>ns. elem_nodes lib c t vs = Some ns \<longrightarrow> loads_back lib (foldl (y_push lib) YNull ns))"
| "text_ok lib c (TList t) (VList vs) \<longleftrightarrow> (\<forall>v\<in>set vs. text_ok lib c t v) \<and>
     (\<forall>ns. elem_nodes lib c t vs = Some ns \<longrightarrow> loads_back lib (foldl (y_push lib) YNull ns))"
| "text_ok lib c (TSet t) (VSet vs) \<longleftrightarrow> (\<forall>v\<in>set vs. text_ok lib c t v) \<and>
     (\<forall>ns. elem_nodes lib c t vs = Some ns \<longrightarrow> loads_back lib (foldl (y_push lib) YNull ns)) \<and>
     sorted_wrt (\<lambda>x y. c_less c x y \<and> \<not> c_less c y x) vs"
| "text_ok lib c (TUSet t) (VUSet vs) \<longleftrightarrow> (\<forall>v\<in>set vs. text_ok lib c t v) \<and>
     (\<forall>ns. elem_nodes lib c t vs = Some ns \<longrightarrow> loads_back lib (foldl (y_push lib) YNull ns)) \<and>
     foldl (\<lambda>s x. c_uinsert c x s) [] vs = vs"
| "text_ok lib c (TMap t) (VMap ps) \<longleftrightarrow> (\<forall>v\<in>snd ` set ps. text_ok lib c t v) \<and>
     (\<forall>ns. elem_nodes lib c t (map snd ps) = Some ns \<longrightarrow>
        loads_back lib (foldl (\<lambda>n p. y_put lib n (fst p) (snd p)) YNull (zip (map fst ps) ns))) \<and>
     sorted_wrt lex_less (map fst ps)"
| "text_ok lib c (TUMap t) (VUMap ps) \<longleftrightarrow> (\<forall>v\<in>snd ` set ps. text_ok lib c t v) \<and>
     (\<forall>ns. elem_nodes lib c t (map snd ps) = Some ns \<longrightarrow>
        loads_back lib (foldl (\<lambda>n p. y_put lib n (fst p) (snd p)) YNull (zip (map fst ps) ns))) \<and>
     distinct (map fst ps) \<and> foldl (\<lambda>m p. c_uput c (fst p) (snd p) m) [] ps = ps"
| "text_ok lib c _ _ \<longleftrightarrow> False"

text \<open>A value comes back from its text, and from the text after a load and an emission.\<close>

definition comes_back :: "yaml_lib \<Rightarrow> 'b casts \<Rightarrow> cty \<Rightarrow> 'b cval \<Rightarrow> bool" where
  "comes_back lib c t v \<longleftrightarrow> (\<exists>s n. cast_to lib c t v = Some s \<and> cast_from lib c t s = Some v \<and>
     y_load lib s = Some n \<and> cast_from lib c t (y_emit lib n) = Some v)"

lemma nodes_back:
  "\<forall>v\<in>set vs. comes_back lib c t v \<Longrightarrow>
    \<exists>ns. elem_nodes lib c t vs = Some ns \<and> length ns = length vs \<and> collect (\<lambda>n. cast_from lib c t (y_emit lib n)) ns = Some vs"
proof (induction vs)
  case (Cons v vs)
  then obtain ns where "elem_nodes lib c t vs = Some ns" "length ns = length vs"
    "collect (\<lambda>n. cast_from lib c t (y_emit lib n)) ns = Some vs" by auto
  then show ?case using Cons.prems by (auto simp: elem_nodes_def comes_back_def)
qed (simp add: elem_nodes_def)

lemma elems_back:
  assumes laws: "node_laws lib" and vs: "\<forall>v\<in>set vs. comes_back lib c t v"
    and node: "\<forall>ns. elem_nodes lib c t vs = Some ns \<longrightarrow> loads_back lib (foldl (y_push lib) YNull ns)"
  shows "\<exists>s n. elems_to lib (cast_to lib c t) vs = Some s \<and> elems_from lib (cast_from lib c t) s = Some vs \<and>
    y_load lib s = Some n \<and> elems_from lib (cast_from lib c t) (y_emit lib n) = Some vs"
proof -
  obtain ns where ns: "elem_nodes lib c t vs = Some ns" "collect (\<lambda>n. cast_from lib c t (y_emit lib n)) ns = Some vs"
    using nodes_back [OF vs] by blast
  then have "loads_back lib (foldl (y_push lib) YNull ns)" using node by blast
  then show ?thesis using ns elems_pushed [OF laws, of ns]
    by (simp add: elems_to_def elems_from_def loads_back_def elem_nodes_def)
qed

lemma collect_pairs:
  "length ns = length ks \<Longrightarrow> collect f ns = Some vs \<Longrightarrow> collect (\<lambda>(k, n). map_option (Pair k) (f n)) (zip ks ns) = Some (zip ks vs)"
proof (induction ns arbitrary: ks vs)
  case (Cons n ns)
  then show ?case by (cases ks) (auto split: option.splits)
qed simp

lemma collect_pairs_to:
  "collect f (map snd ps) = Some ns \<Longrightarrow> collect (\<lambda>(k, v). map_option (Pair k) (f v)) ps = Some (zip (map fst ps) ns)"
  by (induction ps arbitrary: ns) (auto split: option.splits)

lemma pairs_back:
  assumes laws: "node_laws lib" and ps: "\<forall>v\<in>snd ` set ps. comes_back lib c t v" and dist: "distinct (map fst ps)"
    and node: "\<forall>ns. elem_nodes lib c t (map snd ps) = Some ns \<longrightarrow>
        loads_back lib (foldl (\<lambda>n p. y_put lib n (fst p) (snd p)) YNull (zip (map fst ps) ns))"
  shows "\<exists>s n. pairs_to lib (cast_to lib c t) ps = Some s \<and> pairs_from lib (cast_from lib c t) s = Some ps \<and>
    y_load lib s = Some n \<and> pairs_from lib (cast_from lib c t) (y_emit lib n) = Some ps"
proof -
  obtain ns where ns: "elem_nodes lib c t (map snd ps) = Some ns" "length ns = length ps"
    "collect (\<lambda>n. cast_from lib c t (y_emit lib n)) ns = Some (map snd ps)"
    using nodes_back [of "map snd ps" lib c t] ps by auto
  let ?zs = "zip (map fst ps) ns"
  have wr: "collect (\<lambda>(k, v). map_option (Pair k) (Option.bind (cast_to lib c t v) (y_load lib))) ps = Some ?zs"
    using collect_pairs_to [OF ns(1) [unfolded elem_nodes_def]] .
  have rd: "collect (\<lambda>(k, n). map_option (Pair k) (cast_from lib c t (y_emit lib n))) ?zs = Some ps"
    using collect_pairs [OF _ ns(3), of "map fst ps"] ns(2) by (simp add: zip_map_fst_snd)
  have "distinct (map fst ?zs)" using dist ns(2) by simp
  then have "y_pairs lib (foldl (\<lambda>n p. y_put lib n (fst p) (snd p)) YNull ?zs) = Some ?zs"
    by (rule pairs_putted [OF laws])
  then show ?thesis using node ns(1) wr rd by (simp add: pairs_to_def pairs_from_def loads_back_def)
qed

lemma foldl_insert_sorted:
  "sorted_wrt (\<lambda>x y. lt x y \<and> \<not> lt y x) (xs @ ys) \<Longrightarrow> foldl (\<lambda>s x. oset_insert lt x s) xs ys = xs @ ys"
proof (induction ys arbitrary: xs)
  case (Cons y ys)
  have "oset_insert lt y zs = zs @ [y]" if "\<forall>z\<in>set zs. lt z y \<and> \<not> lt y z" for zs
    using that by (induction zs) auto
  moreover have "\<forall>z\<in>set xs. lt z y \<and> \<not> lt y z" using Cons.prems by (auto simp: sorted_wrt_append)
  ultimately show ?case using Cons.IH [of "xs @ [y]"] Cons.prems by simp
qed simp

lemma foldl_map_insert_sorted:
  "sorted_wrt lex_less (map fst (ps @ qs)) \<Longrightarrow> foldl map_insert ps qs = ps @ qs"
proof (induction qs arbitrary: ps)
  case (Cons q qs)
  have "omap_find lex_less k zs = None \<and> omap_set lex_less k v zs = zs @ [(k, v)]"
    if "\<forall>z\<in>set zs. lex_less (fst z) k" for k v and zs :: "(str \<times> 'a) list"
    using that lx.asym by (induction zs) (auto simp: lx.irrefl)
  moreover have "\<forall>z\<in>set ps. lex_less (fst z) (fst q)" using Cons.prems by (auto simp: sorted_wrt_append)
  ultimately have "map_insert ps q = ps @ [q]" by (simp add: map_insert_def)
  then show ?case using Cons.IH [of "ps @ [q]"] Cons.prems by simp
qed simp

text \<open>
  The text that \<open>LexicalCast\<close> makes of a value, container in container, is converted back to the value, given
  that the base values and the nodes made on the way are read back from their texts.
\<close>
theorem cast_round_trip:
  assumes "node_laws lib" "text_ok lib c t v"
  shows "\<exists>s. cast_to lib c t v = Some s \<and> cast_from lib c t s = Some v"
proof -
  have "comes_back lib c t v" using assms(2)
  proof (induction t arbitrary: v)
    case (TBase k)
    then show ?case by (cases v) (auto simp: comes_back_def split: option.splits)
  next
    case (TVector t)
    then obtain vs where "v = VVector vs" by (cases v) auto
    then show ?case using TVector elems_back [OF assms(1), of vs c t] by (fastforce simp: comes_back_def)
  next
    case (TList t)
    then obtain vs where "v = VList vs" by (cases v) auto
    then show ?case using TList elems_back [OF assms(1), of vs c t] by (fastforce simp: comes_back_def)
  next
    case (TSet t)
    then obtain vs where "v = VSet vs" by (cases v) auto
    then show ?case using TSet elems_back [OF assms(1), of vs c t] foldl_insert_sorted [of "c_less c" "[]" vs]
      by (fastforce simp: comes_back_def)
  next
    case (TUSet t)
    then obtain vs where "v = VUSet vs" by (cases v) auto
    then show ?case using TUSet elems_back [OF assms(1), of vs c t] by (fastforce simp: comes_back_def)
  next
    case (TMap t)
    then obtain ps where v: "v = VMap ps" by (cases v) auto
    then have "distinct (map fst ps)" using TMap.prems lx.distinct_ordered by simp
    then show ?case using TMap v pairs_back [OF assms(1), of ps c t] foldl_map_insert_sorted [of "[]" ps]
      by (fastforce simp: comes_back_def)
  next
    case (TUMap t)
    then obtain ps where "v = VUMap ps" by (cases v) auto
    then show ?case using TUMap pairs_back [OF assms(1), of ps c t] by (fastforce simp: comes_back_def)
  qed
  then show ?thesis by (auto simp: comes_back_def)
qed

lemma cast_round_trip_example:
  "\<exists>s. cast_to small_lib nat_casts (TVector (TBase 0)) (VVector [VBase 7]) = Some s \<and>
    cast_from small_lib nat_casts (TVector (TBase 0)) s = Some (VVector [VBase 7])"
proof (rule cast_round_trip [OF small_lib_laws])
  have "dec 7 = [55]" by (subst dec.simps) simp
  then show "text_ok small_lib nat_casts (TVector (TBase 0)) (VVector [VBase 7])"
    by (simp add: elem_nodes_def small_lib_def loads_back_def digit_of_def)
qed

end
