(* ===== verification/Address.thy ===== *)
theory Address
  imports CString
begin

text \<open>
  \<^verbatim>\<open>src/src/address.cc\<close> and \<^verbatim>\<open>src/include/address.h\<close>. The fields of a socket address are the words
  that the (little endian) machine reads; its memory is their bytes. \<open>getaddrinfo\<close> and \<open>inet_pton\<close> are
  parameters. The log lines the code writes are left out.
\<close>

unbundle bit_operations_syntax

section \<open>Socket addresses\<close>

type_synonym u16 = "16 word"

abbreviation AF_UNSPEC :: u16 where "AF_UNSPEC \<equiv> 0"
abbreviation AF_INET :: u16 where "AF_INET \<equiv> 2"

record sockaddr_in =
  sin_family :: u16
  sin_port :: u16
  sin_addr :: u32
  sin_zero :: str

text \<open>What a \<open>sockaddr*\<close> can point to.\<close>

datatype sockaddr = SockaddrIn sockaddr_in | SockaddrOther u16 str

definition byte_of :: "nat \<Rightarrow> 'a::len word \<Rightarrow> byte" where
  "byte_of k w = ucast (drop_bit (8 * k) w)"

definition bytes16 :: "u16 \<Rightarrow> str" where
  "bytes16 w = [byte_of 0 w, byte_of 1 w]"

definition bytes32 :: "u32 \<Rightarrow> str" where
  "bytes32 w = [byte_of 0 w, byte_of 1 w, byte_of 2 w, byte_of 3 w]"

text \<open>\<open>htons\<close> and \<open>ntohs\<close>: both exchange the two bytes.\<close>

definition htons :: "u16 \<Rightarrow> u16" where
  "htons w = push_bit 8 w OR drop_bit 8 w"

section \<open>IPv4 addresses\<close>

text \<open>The constructor from numbers passes the 32 bits of the address through \<open>htons\<close>, which takes 16.\<close>

definition IPv4Address_new :: "u32 \<Rightarrow> u16 \<Rightarrow> sockaddr_in" where
  "IPv4Address_new address port =
     \<lparr>sin_family = AF_INET, sin_port = htons port, sin_addr = ucast (htons (ucast address)), sin_zero = replicate 8 0\<rparr>"

text \<open>\<open>inet_pton\<close>: its result, and the four bytes it stores when that is positive.\<close>

definition IPv4Address_Create :: "(str \<Rightarrow> int \<times> u32) \<Rightarrow> str \<Rightarrow> u16 \<Rightarrow> sockaddr_in option" where
  "IPv4Address_Create inet_pton address port =
     (let rt = (IPv4Address_new 0 0)\<lparr>sin_port := htons port\<rparr>; (result, bytes) = inet_pton (cstr address)
      in if result \<le> 0 then None else Some (rt\<lparr>sin_addr := bytes\<rparr>))"

definition getAddr :: "sockaddr_in \<Rightarrow> str" where
  "getAddr a = bytes16 (sin_family a) @ bytes16 (sin_port a) @ bytes32 (sin_addr a) @ sin_zero a"

definition getAddrLen :: "sockaddr_in \<Rightarrow> nat" where
  "getAddrLen a = 16"

definition getFamily :: "sockaddr_in \<Rightarrow> u16" where
  "getFamily a = sin_family a"

text \<open>\<open>insert\<close>: the address is passed through \<open>ntohs\<close> too.\<close>

definition address_insert :: "sockaddr_in \<Rightarrow> str" where
  "address_insert a =
     (let addr = ucast (htons (ucast (sin_addr a))) :: u32
      in dec (unat (drop_bit 24 addr AND 0xff)) @ lit ''.'' @ dec (unat (drop_bit 16 addr AND 0xff)) @ lit ''.'' @
         dec (unat (drop_bit 8 addr AND 0xff)) @ lit ''.'' @ dec (unat (addr AND 0xff)) @
         lit '':'' @ dec (unat (htons (sin_port a))))"

definition address_toString :: "sockaddr_in \<Rightarrow> str" where
  "address_toString a = address_insert a"

definition address_getPort :: "sockaddr_in \<Rightarrow> u32" where
  "address_getPort a = ucast (sin_port a)"

definition address_setPort :: "u16 \<Rightarrow> sockaddr_in \<Rightarrow> sockaddr_in" where
  "address_setPort v a = a\<lparr>sin_port := htons v\<rparr>"

section \<open>Comparison\<close>

text \<open>The sign of \<open>memcmp\<close> over the first \<open>n\<close> bytes.\<close>

definition memcmp :: "str \<Rightarrow> str \<Rightarrow> nat \<Rightarrow> int" where
  "memcmp a b n = (if take n a = take n b then 0 else if lex_less (take n a) (take n b) then -1 else 1)"

text \<open>The operators of the base class, over the memory and the length that the address reports.\<close>

definition address_less :: "str \<times> nat \<Rightarrow> str \<times> nat \<Rightarrow> bool" where
  "address_less lhs rhs =
     (let minlen = min (snd lhs) (snd rhs); result = memcmp (fst lhs) (fst rhs) minlen
      in if result < 0 then True else if 0 < result then False else snd lhs < snd rhs)"

definition address_eq :: "str \<times> nat \<Rightarrow> str \<times> nat \<Rightarrow> bool" where
  "address_eq lhs rhs \<longleftrightarrow> snd lhs = snd rhs \<and> memcmp (fst lhs) (fst rhs) (snd lhs) = 0"

definition address_neq :: "str \<times> nat \<Rightarrow> str \<times> nat \<Rightarrow> bool" where
  "address_neq lhs rhs \<longleftrightarrow> \<not> address_eq lhs rhs"

definition memory :: "sockaddr_in \<Rightarrow> str \<times> nat" where
  "memory a = (getAddr a, getAddrLen a)"

section \<open>Making addresses\<close>

definition Address_Create :: "sockaddr option \<Rightarrow> sockaddr_in option" where
  "Address_Create addr =
     (case addr of Some (SockaddrIn a) \<Rightarrow> if sin_family a = AF_INET then Some a else None | _ \<Rightarrow> None)"

text \<open>
  \<open>getaddrinfo\<close> on a node, a service and the hints (flags, family, type, protocol): an error, or the addresses
  it lists.
\<close>

type_synonym addrinfo = "int \<times> u16 \<times> int \<times> int"
type_synonym getaddrinfo = "str \<Rightarrow> str option \<Rightarrow> addrinfo \<Rightarrow> int + sockaddr list"

text \<open>The position of the first colon, as \<open>memchr\<close> finds it.\<close>

fun find_colon :: "str \<Rightarrow> nat option" where
  "find_colon [] = None"
| "find_colon (c # s) = (if c = 58 then Some 0 else map_option Suc (find_colon s))"

text \<open>The node and the service. A service that is not cut off starts with its colon.\<close>

definition split_host :: "str \<Rightarrow> str \<times> str option" where
  "split_host host =
     (let (node, service) =
        (case find_colon host of None \<Rightarrow> ([], None)
         | Some i \<Rightarrow>
             if find_colon (drop (i + 1) host) = None then (take i host, Some (drop (i + 1) host))
             else ([], Some (drop i host)))
      in (if node = [] then host else node, service))"

definition Address_Lookup :: "getaddrinfo \<Rightarrow> str \<Rightarrow> u16 \<Rightarrow> int \<Rightarrow> int \<Rightarrow> sockaddr_in option list \<Rightarrow>
    sockaddr_in option list \<times> bool" where
  "Address_Lookup gai host family type protocol result =
     (let (node, service) = split_host host
      in (case gai (cstr node) (map_option cstr service) (0, family, type, protocol) of
            Inl error \<Rightarrow> (result, False)
          | Inr results \<Rightarrow> (result @ map (\<lambda>a. Address_Create (Some a)) results, True)))"

text \<open>The outer \<open>None\<close> is an access outside the vector.\<close>

definition LookupAny :: "getaddrinfo \<Rightarrow> str \<Rightarrow> u16 \<Rightarrow> int \<Rightarrow> int \<Rightarrow> sockaddr_in option option" where
  "LookupAny gai host family type protocol =
     (case Address_Lookup gai host family type protocol [] of
        (result, True) \<Rightarrow> (if result = [] then None else Some (hd result))
      | (result, False) \<Rightarrow> Some None)"

definition LookupAnyIPAddress :: "getaddrinfo \<Rightarrow> str \<Rightarrow> u16 \<Rightarrow> int \<Rightarrow> int \<Rightarrow> sockaddr_in option" where
  "LookupAnyIPAddress gai host family type protocol =
     (case Address_Lookup gai host family type protocol [] of
        (result, True) \<Rightarrow> (case filter (\<lambda>v. v \<noteq> None) result of [] \<Rightarrow> None | v # _ \<Rightarrow> v)
      | (result, False) \<Rightarrow> None)"

abbreviation AI_NUMERICHOST :: int where "AI_NUMERICHOST \<equiv> 4"

text \<open>Only the first address is looked at; \<open>getaddrinfo\<close> lists at least one when it succeeds.\<close>

definition IPAddress_Create :: "getaddrinfo \<Rightarrow> str \<Rightarrow> u16 \<Rightarrow> sockaddr_in option" where
  "IPAddress_Create gai address port =
     (case gai (cstr address) None (AI_NUMERICHOST, AF_UNSPEC, 0, 0) of
        Inl error \<Rightarrow> None
      | Inr results \<Rightarrow> map_option (address_setPort port)
          (Address_Create (case results of [] \<Rightarrow> None | a # _ \<Rightarrow> Some a)))"

end
