(* ===== verification/Address_Spec.thy ===== *)
theory Address_Spec
  imports Address StrOrder
begin

text \<open>
  The order of addresses, the splitting of host and port, and what is lost on the way of an IPv4 address
  through the 16-bit conversions.
\<close>

section \<open>The order\<close>

lemma lex_less_cut:
  "lex_less a b \<longleftrightarrow> lex_less (take (length b) a) (take (length a) b) \<or>
     take (length b) a = take (length a) b \<and> length a < length b"
proof (induction a b rule: lex_less.induct)
  case (3 c s d t)
  then show ?case using lx.irrefl by (cases "c = d") auto
qed auto

lemma take_min: "take (min m (length a)) a = take m a"
  by (simp add: min_def)

text \<open>With the length as a last resort the comparison is the lexicographic order of the memories.\<close>

lemma address_less_lex:
  assumes "length a = m" "length b = n"
  shows "address_less (a, m) (b, n) \<longleftrightarrow> lex_less a b"
proof -
  have "take (min m n) a = take (length b) a" "take (min m n) b = take (length a) b"
    using assms take_min [of n a] take_min [of m b] by (simp_all add: min.commute)
  then show ?thesis
    using assms lex_less_cut [of a b] lx.irrefl by (auto simp: address_less_def memcmp_def Let_def)
qed

lemma address_eq_memory:
  assumes "length a = m" "length b = n"
  shows "address_eq (a, m) (b, n) \<longleftrightarrow> a = b"
  using assms by (auto simp: address_eq_def memcmp_def)

text \<open>Addresses as the class stores them: 16 bytes.\<close>

lemma length_getAddr: "length (sin_zero a) = 8 \<Longrightarrow> length (getAddr a) = getAddrLen a"
  by (simp add: getAddr_def getAddrLen_def bytes16_def bytes32_def)

lemma byte_of_bit: "bit (byte_of k w) n \<longleftrightarrow> n < 8 \<and> bit w (8 * k + n)"
  by (auto simp: byte_of_def bit_ucast_iff bit_drop_bit_eq dest: bit_imp_le_length)

lemma bytes_inj:
  fixes v w :: "'a::len word"
  assumes "\<And>k. 8 * k < LENGTH('a) \<Longrightarrow> byte_of k v = byte_of k w"
  shows "v = w"
proof (rule bit_word_eqI)
  fix n
  assume n: "n < LENGTH('a)"
  have "bit (byte_of (n div 8) v) (n mod 8) = bit (byte_of (n div 8) w) (n mod 8)"
    using assms [of "n div 8"] n by simp
  then show "bit v n = bit w n" by (simp add: byte_of_bit)
qed

lemma bytes16_inj: "bytes16 v = bytes16 w \<Longrightarrow> v = w"
proof (rule bytes_inj)
  fix k
  assume e: "bytes16 v = bytes16 w" and "8 * k < LENGTH(16)"
  then have "k \<in> {0, 1}" by auto
  then show "byte_of k v = byte_of k w" using e by (auto simp: bytes16_def)
qed

lemma bytes32_inj: "bytes32 v = bytes32 w \<Longrightarrow> v = w"
proof (rule bytes_inj)
  fix k
  assume e: "bytes32 v = bytes32 w" and "8 * k < LENGTH(32)"
  then have "k \<in> {0, 1, 2, 3}" by auto
  then show "byte_of k v = byte_of k w" using e by (auto simp: bytes32_def)
qed

lemma getAddr_inj: "length (sin_zero a) = 8 \<Longrightarrow> length (sin_zero b) = 8 \<Longrightarrow> getAddr a = getAddr b \<Longrightarrow> a = (b :: sockaddr_in)"
proof -
  assume "length (sin_zero a) = 8" "length (sin_zero b) = 8" "getAddr a = getAddr b"
  then have "bytes16 (sin_family a) = bytes16 (sin_family b)" "bytes16 (sin_port a) = bytes16 (sin_port b)"
    "bytes32 (sin_addr a) = bytes32 (sin_addr b)" "sin_zero a = sin_zero b"
    by (auto simp: getAddr_def bytes16_def bytes32_def)
  then show ?thesis using bytes16_inj bytes32_inj by (intro sockaddr_in.equality) auto
qed

text \<open>
  The operators order addresses totally: \<open>==\<close> holds exactly for equal addresses, \<open><\<close> is irreflexive and
  transitive, and of two different addresses one is less.
\<close>
theorem addresses_ordered:
  assumes "length (sin_zero a) = 8" "length (sin_zero b) = 8" "length (sin_zero c) = 8"
  shows "(address_eq (memory a) (memory b) \<longleftrightarrow> a = b) \<and> \<not> address_less (memory a) (memory a) \<and>
    (address_less (memory a) (memory b) \<longrightarrow> address_less (memory b) (memory c) \<longrightarrow> address_less (memory a) (memory c)) \<and>
    (address_neq (memory a) (memory b) \<longrightarrow> address_less (memory a) (memory b) \<or> address_less (memory b) (memory a))"
  using assms getAddr_inj [of a b] lx.irrefl lx.trans lx.total [of "getAddr a" "getAddr b"]
  by (auto simp: memory_def address_neq_def address_less_lex address_eq_memory length_getAddr)

lemma addresses_ordered_example:
  "(address_eq (memory (IPv4Address_new 0 80)) (memory (IPv4Address_new 0 81)) \<longleftrightarrow> IPv4Address_new 0 80 = IPv4Address_new 0 81) \<and>
    \<not> address_less (memory (IPv4Address_new 0 80)) (memory (IPv4Address_new 0 80)) \<and>
    (address_less (memory (IPv4Address_new 0 80)) (memory (IPv4Address_new 0 81)) \<longrightarrow>
      address_less (memory (IPv4Address_new 0 81)) (memory (IPv4Address_new 1 80)) \<longrightarrow>
      address_less (memory (IPv4Address_new 0 80)) (memory (IPv4Address_new 1 80))) \<and>
    (address_neq (memory (IPv4Address_new 0 80)) (memory (IPv4Address_new 0 81)) \<longrightarrow>
      address_less (memory (IPv4Address_new 0 80)) (memory (IPv4Address_new 0 81)) \<or>
      address_less (memory (IPv4Address_new 0 81)) (memory (IPv4Address_new 0 80)))"
  by (rule addresses_ordered) (simp_all add: IPv4Address_new_def)

section \<open>Hosts\<close>

lemma find_colon_none: "find_colon s = None \<longleftrightarrow> 58 \<notin> set s"
  by (induction s) auto

lemma find_colon_append: "58 \<notin> set h \<Longrightarrow> find_colon (h @ 58 # p) = Some (length h)"
  by (induction h) auto

text \<open>
  \<open>Lookup\<close> asks for host and port as they are written, \<open>Host:port\<close> or \<open>host\<close> alone; a host with two colons,
  as an IPv6 address has, is asked for as a whole with a service that starts with its first colon.
\<close>
theorem host_split:
  assumes "58 \<notin> set h" "h \<noteq> []"
  shows "split_host h = (h, None) \<and>
    (58 \<notin> set p \<longrightarrow> split_host (h @ 58 # p) = (h, Some p)) \<and>
    (58 \<in> set p \<longrightarrow> split_host (h @ 58 # p) = (h @ 58 # p, Some (58 # p)))"
  using assms find_colon_none [of h] find_colon_none [of p] find_colon_append [of h p]
  by (auto simp: split_host_def)

lemma host_split_example:
  "split_host (lit ''localhost'') = (lit ''localhost'', None) \<and>
    (58 \<notin> set (lit ''8020'') \<longrightarrow> split_host (lit ''localhost'' @ 58 # lit ''8020'') = (lit ''localhost'', Some (lit ''8020''))) \<and>
    (58 \<in> set (lit ''8020'') \<longrightarrow>
      split_host (lit ''localhost'' @ 58 # lit ''8020'') = (lit ''localhost'' @ 58 # lit ''8020'', Some (58 # lit ''8020'')))"
  by (rule host_split) (simp_all add: lit_def)

section \<open>Sixteen bits\<close>

lemma htons_htons [simp]: "htons (htons w) = w"
  by (rule bit_word_eqI) (auto simp: htons_def bit_or_iff bit_push_bit_iff bit_drop_bit_eq)

lemma bit_htons: "bit (htons w) n \<longleftrightarrow> (if n < 8 then bit w (8 + n) else n < 16 \<and> bit w (n - 8))"
  using bit_imp_le_length [of w "8 + n"]
  by (auto simp: htons_def bit_or_iff bit_push_bit_iff bit_drop_bit_eq add.commute)

lemma byte_mask: "(0xff :: u32) = mask 8"
  by (simp add: mask_eq_exp_minus_1)

lemma printed_bytes:
  fixes s :: u32
  defines "addr \<equiv> ucast (htons (ucast s)) :: u32"
  shows "drop_bit 24 addr AND 0xff = 0" "drop_bit 16 addr AND 0xff = 0"
    "drop_bit 8 addr AND 0xff = ucast (byte_of 0 s)" "addr AND 0xff = ucast (byte_of 1 s)"
  unfolding byte_mask addr_def
  by (rule bit_word_eqI, auto simp: bit_and_iff bit_mask_iff bit_drop_bit_eq bit_ucast_iff bit_htons byte_of_bit)+

lemma unat_byte: "unat (ucast (b :: byte) :: u32) = unat b"
proof -
  have "unat b < 2 ^ 8" using unsigned_less [of b] by simp
  then show ?thesis by (simp add: unsigned_ucast_eq take_bit_nat_eq_self)
qed

text \<open>
  The text of an IPv4 address shows its first two bytes as the last two numbers, after two zeros; the other two
  bytes do not show. Addresses that differ there only have the same text.
\<close>
theorem toString_drops_half:
  "address_toString a = lit ''0.0.'' @ dec (unat (byte_of 0 (sin_addr a))) @ lit ''.'' @ dec (unat (byte_of 1 (sin_addr a))) @
     lit '':'' @ dec (unat (htons (sin_port a)))"
  by (simp add: address_toString_def address_insert_def Let_def printed_bytes unat_byte)
     (simp add: lit_def dec.simps)

text \<open>
  An address made from a number keeps its lowest two bytes only, as the first two of the address: 127.0.0.1,
  given as 0x7f000001, becomes 0.1.0.0.
\<close>
theorem constructor_drops_half:
  "bytes32 (sin_addr (IPv4Address_new address port)) = [byte_of 1 address, byte_of 0 address, 0, 0]"
proof -
  have "byte_of 0 (ucast (htons (ucast address)) :: u32) = byte_of 1 address"
    "byte_of 1 (ucast (htons (ucast address)) :: u32) = byte_of 0 address"
    "byte_of 2 (ucast (htons (ucast address)) :: u32) = 0" "byte_of 3 (ucast (htons (ucast address)) :: u32) = 0"
    by (rule bit_word_eqI, auto simp: byte_of_bit bit_ucast_iff bit_htons)+
  then show ?thesis by (simp add: IPv4Address_new_def bytes32_def)
qed

lemma port_swapped: "address_getPort (address_setPort v a) = ucast (htons v)"
  by (simp add: address_getPort_def address_setPort_def)

end
