(* ===== verification/UriAddress.thy ===== *)
theory UriAddress
  imports Uri Address
begin

text \<open>
  \<open>Uri::createAddress\<close> of \<^verbatim>\<open>src/src/uri.cc\<close>: the first IPv4 address of the host, with the port of the URI.
\<close>

definition Uri_createAddress :: "getaddrinfo \<Rightarrow> uri \<Rightarrow> sockaddr_in option" where
  "Uri_createAddress gai u =
     map_option (address_setPort (word_of_int (uri_getPort u))) (LookupAnyIPAddress gai (u_host u) AF_INET 0 0)"

text \<open>It is of the family that was asked for, and its port is the one of the URI, cut to 16 bits.\<close>

lemma createAddress_port:
  assumes "Uri_createAddress gai u = Some a"
  shows "sin_family a = AF_INET \<and> sin_port a = htons (word_of_int (uri_getPort u))"
proof -
  obtain b where b: "LookupAnyIPAddress gai (u_host u) AF_INET 0 0 = Some b"
    and a: "a = address_setPort (word_of_int (uri_getPort u)) b" using assms by (auto simp: Uri_createAddress_def)
  obtain rs ok where l: "Address_Lookup gai (u_host u) AF_INET 0 0 [] = (rs, ok)" by fastforce
  with b have ok: "ok" and "\<exists>vs. filter (\<lambda>v. v \<noteq> None) rs = Some b # vs"
    by (auto simp: LookupAnyIPAddress_def split: bool.splits list.splits)
  then have f: "Some b \<in> set (filter (\<lambda>v. v \<noteq> None) rs)" by (metis list.set_intros(1))
  from f have "Some b \<in> set rs" by simp
  with l ok have "\<exists>x. Address_Create x = Some b"
    by (auto simp: Address_Lookup_def split: prod.splits sum.splits) blast
  then obtain x where x: "Address_Create x = Some b" by blast
  then have "sin_family b = AF_INET"
    by (cases x rule: option.exhaust; cases "the x") (auto simp: Address_Create_def split: if_splits)
  then show ?thesis using a by (simp add: address_setPort_def)
qed

end
