(* ===== verification/Socket.thy ===== *)
theory Socket
  imports Address FdManager
begin

text \<open>
  \<^verbatim>\<open>src/src/socket.cc\<close> and \<^verbatim>\<open>src/include/socket.h\<close>: a socket object, its system calls and
  its addresses. What the (hooked) calls and the descriptor table answer is a parameter; the calls that change
  something are recorded in order. The log lines the code writes are left out. (The stream that
  \<open>HttpSession\<close> reads is modelled with its contents, in the theory of that component.)
\<close>

section \<open>The object\<close>

abbreviation SOCK_STREAM :: int where "SOCK_STREAM \<equiv> 1"
abbreviation SOCK_DGRAM :: int where "SOCK_DGRAM \<equiv> 2"

record socket =
  so_sock :: int
  so_family :: u16
  so_type :: int
  so_protocol :: int
  so_isConnected :: bool
  so_local :: "sockaddr_in option"
  so_remote :: "sockaddr_in option"

text \<open>The buffers, the flags and the address of one transfer, before and after.\<close>

record msg =
  mg_send :: bool
  mg_name :: "sockaddr_in option"
  mg_bufs :: "str list"
  mg_flags :: int

text \<open>
  What the outside answers: results as the calls return them, \<open>Inl\<close> for a failure, and for a descriptor what
  \<open>FdMgr::get\<close> finds.
\<close>

record sys =
  sy_socket :: "u16 \<Rightarrow> int \<Rightarrow> int \<Rightarrow> int"
  sy_bind :: "int \<Rightarrow> str \<Rightarrow> int"
  sy_listen :: "int \<Rightarrow> int \<Rightarrow> int"
  sy_accept :: "int \<Rightarrow> int"
  sy_connect :: "int \<Rightarrow> str \<Rightarrow> u64 \<Rightarrow> int"
  sy_getpeername :: "int \<Rightarrow> int + sockaddr_in"
  sy_getsockname :: "int \<Rightarrow> int + sockaddr_in"
  sy_setsockopt :: "int \<Rightarrow> int \<Rightarrow> int \<Rightarrow> int"
  sy_getsockopt :: "int \<Rightarrow> int \<Rightarrow> int \<Rightarrow> int + int"
  sy_msg :: "int \<Rightarrow> msg \<Rightarrow> int \<times> msg"
  sy_ctx :: "int \<Rightarrow> fd_ctx option"

datatype opt_value = IntOpt int | TimeOpt int int

datatype syscall = CallSocket u16 int int | CallBind int str | CallListen int int | CallAccept int
  | CallConnect int str u64 | CallClose int | CallSetsockopt int int int opt_value
  | CallCancelRead int | CallCancelWrite int | CallCancelAll int

datatype socket_error = NullAddress

abbreviation SOL_SOCKET :: int where "SOL_SOCKET \<equiv> 1"
abbreviation SO_REUSEADDR :: int where "SO_REUSEADDR \<equiv> 2"
abbreviation SO_ERROR :: int where "SO_ERROR \<equiv> 4"
abbreviation IPPROTO_TCP :: int where "IPPROTO_TCP \<equiv> 6"
abbreviation TCP_NODELAY :: int where "TCP_NODELAY \<equiv> 1"
abbreviation SOMAXCONN :: int where "SOMAXCONN \<equiv> 128"

definition Socket_new :: "u16 \<Rightarrow> int \<Rightarrow> int \<Rightarrow> socket" where
  "Socket_new family type protocol = \<lparr>so_sock = -1, so_family = family, so_type = type, so_protocol = protocol,
     so_isConnected = False, so_local = None, so_remote = None\<rparr>"

definition Socket_CreateTCP :: "sockaddr_in \<Rightarrow> socket" where
  "Socket_CreateTCP address = Socket_new (getFamily address) SOCK_STREAM 0"

definition Socket_CreateUDP :: "sockaddr_in \<Rightarrow> socket" where
  "Socket_CreateUDP address = Socket_new (getFamily address) SOCK_DGRAM 0"

definition Socket_CreateTCPSocket :: socket where
  "Socket_CreateTCPSocket = Socket_new AF_INET SOCK_STREAM 0"

definition Socket_CreateUDPSocket :: socket where
  "Socket_CreateUDPSocket = Socket_new AF_INET SOCK_DGRAM 0"

definition isValid :: "socket \<Rightarrow> bool" where
  "isValid s \<longleftrightarrow> so_sock s \<noteq> -1"

section \<open>Options and timeouts\<close>

definition Socket_setOption :: "sys \<Rightarrow> socket \<Rightarrow> int \<Rightarrow> int \<Rightarrow> opt_value \<Rightarrow> syscall list \<times> bool" where
  "Socket_setOption sys s level opt v =
     ([CallSetsockopt (so_sock s) level opt v], sy_setsockopt sys (so_sock s) level opt = 0)"

definition Socket_getOption :: "sys \<Rightarrow> socket \<Rightarrow> int \<Rightarrow> int \<Rightarrow> int option" where
  "Socket_getOption sys s level opt =
     (case sy_getsockopt sys (so_sock s) level opt of Inl _ \<Rightarrow> None | Inr v \<Rightarrow> Some v)"

definition Socket_getError :: "sys \<Rightarrow> socket \<Rightarrow> int" where
  "Socket_getError sys s = (case Socket_getOption sys s SOL_SOCKET SO_ERROR of None \<Rightarrow> -1 | Some e \<Rightarrow> e)"

text \<open>The quotient and the remainder of C++, cut to an \<open>int\<close>.\<close>

definition timeval_of :: "int \<Rightarrow> opt_value" where
  "timeval_of v =
     (let q = (if v < 0 then - (- v div 1000) else v div 1000); r = v - q * 1000
      in TimeOpt (signed_take_bit 31 q) (signed_take_bit 31 (r * 1000)))"

definition Socket_setSendTimeout :: "sys \<Rightarrow> socket \<Rightarrow> int \<Rightarrow> syscall list" where
  "Socket_setSendTimeout sys s v = fst (Socket_setOption sys s SOL_SOCKET SO_SNDTIMEO (timeval_of v))"

definition Socket_setRecvTimeout :: "sys \<Rightarrow> socket \<Rightarrow> int \<Rightarrow> syscall list" where
  "Socket_setRecvTimeout sys s v = fst (Socket_setOption sys s SOL_SOCKET SO_RCVTIMEO (timeval_of v))"

definition Socket_getSendTimeout :: "sys \<Rightarrow> socket \<Rightarrow> int" where
  "Socket_getSendTimeout sys s =
     (case sy_ctx sys (so_sock s) of None \<Rightarrow> -1 | Some ctx \<Rightarrow> sint (getTimeout ctx SO_SNDTIMEO))"

definition Socket_getRecvTimeout :: "sys \<Rightarrow> socket \<Rightarrow> int" where
  "Socket_getRecvTimeout sys s =
     (case sy_ctx sys (so_sock s) of None \<Rightarrow> -1 | Some ctx \<Rightarrow> sint (getTimeout ctx SO_RCVTIMEO))"

section \<open>Making and naming a socket\<close>

definition initSock :: "sys \<Rightarrow> socket \<Rightarrow> syscall list" where
  "initSock sys s = fst (Socket_setOption sys s SOL_SOCKET SO_REUSEADDR (IntOpt 1)) @
     (if so_type s = SOCK_STREAM then fst (Socket_setOption sys s IPPROTO_TCP TCP_NODELAY (IntOpt 1)) else [])"

definition newSock :: "sys \<Rightarrow> socket \<Rightarrow> socket \<times> syscall list" where
  "newSock sys s =
     (let s1 = s\<lparr>so_sock := sy_socket sys (so_family s) (so_type s) (so_protocol s)\<rparr>
      in (s1, CallSocket (so_family s) (so_type s) (so_protocol s) # (if so_sock s1 \<noteq> -1 then initSock sys s1 else [])))"

text \<open>
  The addresses are asked for once. Of a family that is not IPv4 there is no object to ask with, and the code
  asks the null pointer for its length. A failure gives an address made from the number of the family.
\<close>

definition getLocalAddress :: "sys \<Rightarrow> socket \<Rightarrow> socket_error + socket \<times> sockaddr_in" where
  "getLocalAddress sys s =
     (case so_local s of Some a \<Rightarrow> Inr (s, a)
      | None \<Rightarrow>
          if so_family s \<noteq> AF_INET then Inl NullAddress
          else (case sy_getsockname sys (so_sock s) of
                  Inl _ \<Rightarrow> Inr (s, IPv4Address_new (ucast (so_family s)) 0)
                | Inr a \<Rightarrow> Inr (s\<lparr>so_local := Some a\<rparr>, a)))"

definition getRemoteAddress :: "sys \<Rightarrow> socket \<Rightarrow> socket_error + socket \<times> sockaddr_in" where
  "getRemoteAddress sys s =
     (case so_remote s of Some a \<Rightarrow> Inr (s, a)
      | None \<Rightarrow>
          if so_family s \<noteq> AF_INET then Inl NullAddress
          else (case sy_getpeername sys (so_sock s) of
                  Inl _ \<Rightarrow> Inr (s, IPv4Address_new (ucast (so_family s)) 0)
                | Inr a \<Rightarrow> Inr (s\<lparr>so_remote := Some a\<rparr>, a)))"

definition Socket_init :: "sys \<Rightarrow> int \<Rightarrow> socket \<Rightarrow> socket_error + socket \<times> syscall list \<times> bool" where
  "Socket_init sys fd s =
     (case (if fd = -1 then None else sy_ctx sys fd) of
        None \<Rightarrow> Inr (s, [], False)
      | Some ctx \<Rightarrow>
          if x_isSocket ctx \<and> \<not> x_isClosed ctx then
            let s1 = s\<lparr>so_sock := fd, so_isConnected := True\<rparr>; calls = initSock sys s1
            in (case getLocalAddress sys s1 of Inl e \<Rightarrow> Inl e
                | Inr (s2, _) \<Rightarrow> (case getRemoteAddress sys s2 of Inl e \<Rightarrow> Inl e
                    | Inr (s3, _) \<Rightarrow> Inr (s3, calls, True)))
          else Inr (s, [], False))"

text \<open>The new object, or \<open>None\<close> for a null pointer. The descriptor is kept only by \<open>init\<close>.\<close>

definition Socket_accept :: "sys \<Rightarrow> socket \<Rightarrow> socket_error + socket option \<times> syscall list" where
  "Socket_accept sys s =
     (case Socket_init sys (sy_accept sys (so_sock s)) (Socket_new (so_family s) (so_type s) (so_protocol s)) of
        Inl e \<Rightarrow> Inl e
      | Inr (client, calls, ok) \<Rightarrow> Inr (if ok then Some client else None, CallAccept (so_sock s) # calls))"

text \<open>What \<open>bind\<close> and \<open>connect\<close> do first.\<close>

definition ensure_sock :: "sys \<Rightarrow> socket \<Rightarrow> socket \<times> syscall list" where
  "ensure_sock sys s = (if isValid s then (s, []) else newSock sys s)"

definition Socket_bind :: "sys \<Rightarrow> sockaddr_in \<Rightarrow> socket \<Rightarrow> socket_error + socket \<times> syscall list \<times> bool" where
  "Socket_bind sys addr s =
     (let (s1, calls) = ensure_sock sys s
      in if \<not> isValid s1 then Inr (s1, calls, False)
         else let calls1 = calls @ [CallBind (so_sock s1) (getAddr addr)]
           in if sy_bind sys (so_sock s1) (getAddr addr) \<noteq> 0 then Inr (s1, calls1, False)
              else (case getLocalAddress sys s1 of Inl e \<Rightarrow> Inl e | Inr (s2, _) \<Rightarrow> Inr (s2, calls1, True)))"

definition Socket_listen :: "sys \<Rightarrow> int \<Rightarrow> socket \<Rightarrow> syscall list \<times> bool" where
  "Socket_listen sys backlog s =
     (if \<not> isValid s then ([], False)
      else ([CallListen (so_sock s) backlog], sy_listen sys (so_sock s) backlog = 0))"

text \<open>\<open>close\<close>: the result is \<open>false\<close> when there was something to close.\<close>

definition Socket_close :: "socket \<Rightarrow> socket \<times> syscall list \<times> bool" where
  "Socket_close s =
     (if \<not> so_isConnected s \<and> so_sock s = -1 then (s, [], True)
      else (s\<lparr>so_isConnected := False, so_sock := -1\<rparr>,
            (if so_sock s \<noteq> -1 then [CallClose (so_sock s)] else []), False))"

text \<open>A timeout of -1 is the plain call, which uses the configured timeout.\<close>

definition Socket_connect :: "sys \<Rightarrow> sockaddr_in \<Rightarrow> u64 \<Rightarrow> socket \<Rightarrow> socket_error + socket \<times> syscall list \<times> bool" where
  "Socket_connect sys addr timeout_ms s =
     (let (s1, calls) = ensure_sock sys s
      in if \<not> isValid s1 then Inr (s1, calls, False)
         else let calls1 = calls @ [CallConnect (so_sock s1) (getAddr addr) timeout_ms]
           in if sy_connect sys (so_sock s1) (getAddr addr) timeout_ms \<noteq> 0 then
                let (s2, calls2, _) = Socket_close s1 in Inr (s2, calls1 @ calls2, False)
              else (case getRemoteAddress sys (s1\<lparr>so_isConnected := True\<rparr>) of Inl e \<Rightarrow> Inl e
                  | Inr (s2, _) \<Rightarrow> (case getLocalAddress sys s2 of Inl e \<Rightarrow> Inl e
                      | Inr (s3, _) \<Rightarrow> Inr (s3, calls1, True))))"

section \<open>Transfers\<close>

definition transfer :: "sys \<Rightarrow> socket \<Rightarrow> msg \<Rightarrow> int \<times> msg" where
  "transfer sys s m = (if so_isConnected s then sy_msg sys (so_sock s) m else (-1, m))"

definition Socket_send :: "sys \<Rightarrow> socket \<Rightarrow> str \<Rightarrow> int \<Rightarrow> int" where
  "Socket_send sys s buf flags = fst (transfer sys s \<lparr>mg_send = True, mg_name = None, mg_bufs = [buf], mg_flags = flags\<rparr>)"

definition Socket_sendv :: "sys \<Rightarrow> socket \<Rightarrow> str list \<Rightarrow> int \<Rightarrow> int" where
  "Socket_sendv sys s bufs flags = fst (transfer sys s \<lparr>mg_send = True, mg_name = None, mg_bufs = bufs, mg_flags = flags\<rparr>)"

definition Socket_sendTo :: "sys \<Rightarrow> socket \<Rightarrow> str \<Rightarrow> sockaddr_in \<Rightarrow> int \<Rightarrow> int" where
  "Socket_sendTo sys s buf addr flags =
     fst (transfer sys s \<lparr>mg_send = True, mg_name = Some addr, mg_bufs = [buf], mg_flags = flags\<rparr>)"

definition Socket_sendTov :: "sys \<Rightarrow> socket \<Rightarrow> str list \<Rightarrow> sockaddr_in \<Rightarrow> int \<Rightarrow> int" where
  "Socket_sendTov sys s bufs addr flags =
     fst (transfer sys s \<lparr>mg_send = True, mg_name = Some addr, mg_bufs = bufs, mg_flags = flags\<rparr>)"

text \<open>The receiving calls give the result, the buffers and, where one is asked for, the address.\<close>

definition Socket_recv :: "sys \<Rightarrow> socket \<Rightarrow> str \<Rightarrow> int \<Rightarrow> int \<times> msg" where
  "Socket_recv sys s buf flags = transfer sys s \<lparr>mg_send = False, mg_name = None, mg_bufs = [buf], mg_flags = flags\<rparr>"

definition Socket_recvv :: "sys \<Rightarrow> socket \<Rightarrow> str list \<Rightarrow> int \<Rightarrow> int \<times> msg" where
  "Socket_recvv sys s bufs flags = transfer sys s \<lparr>mg_send = False, mg_name = None, mg_bufs = bufs, mg_flags = flags\<rparr>"

definition Socket_recvFrom :: "sys \<Rightarrow> socket \<Rightarrow> str \<Rightarrow> sockaddr_in \<Rightarrow> int \<Rightarrow> int \<times> msg" where
  "Socket_recvFrom sys s buf addr flags =
     transfer sys s \<lparr>mg_send = False, mg_name = Some addr, mg_bufs = [buf], mg_flags = flags\<rparr>"

definition Socket_recvFromv :: "sys \<Rightarrow> socket \<Rightarrow> str list \<Rightarrow> sockaddr_in \<Rightarrow> int \<Rightarrow> int \<times> msg" where
  "Socket_recvFromv sys s bufs addr flags =
     transfer sys s \<lparr>mg_send = False, mg_name = Some addr, mg_bufs = bufs, mg_flags = flags\<rparr>"

section \<open>Printing and cancelling\<close>

definition Socket_dump :: "socket \<Rightarrow> str" where
  "Socket_dump s =
     lit ''[Socket sock = '' @ dec_int (so_sock s) @ lit '' is_connected = '' @ (if so_isConnected s then lit ''1'' else lit ''0'') @
     lit '' family = '' @ dec (unat (so_family s)) @ lit '' type = '' @ dec_int (so_type s) @
     lit '' protocol = '' @ dec_int (so_protocol s) @
     (case so_local s of None \<Rightarrow> [] | Some a \<Rightarrow> lit '' local_address = '' @ address_toString a) @
     (case so_remote s of None \<Rightarrow> [] | Some a \<Rightarrow> lit '' remote_Address = '' @ address_toString a) @ lit '']''"

definition Socket_cancelRead :: "socket \<Rightarrow> syscall" where "Socket_cancelRead s = CallCancelRead (so_sock s)"
definition Socket_cancelWrite :: "socket \<Rightarrow> syscall" where "Socket_cancelWrite s = CallCancelWrite (so_sock s)"
definition Socket_cancelAccept :: "socket \<Rightarrow> syscall" where "Socket_cancelAccept s = CallCancelRead (so_sock s)"
definition Socket_cancelAll :: "socket \<Rightarrow> syscall" where "Socket_cancelAll s = CallCancelAll (so_sock s)"

end
