(* ===== verification/TcpServer.thy ===== *)
theory TcpServer
  imports Socket
begin

text \<open>
  \<^verbatim>\<open>src/src/tcp_server.cc\<close> and \<^verbatim>\<open>src/include/tcp_server.h\<close>. Socket objects are shared between the
  server, the tasks it schedules and the accept loops, so they live in a store; one that nothing refers to any
  more is destroyed, which closes it. The I/O managers are their queues: a task is scheduled at the end, and
  running it is a step. The log lines the code writes are left out.
\<close>

section \<open>The server\<close>

datatype tcp_task = StartAccept nat | HandleClient nat | StopSocks

text \<open>
  \<open>ts_loops\<close> are the sockets of the calls of \<open>startAccept\<close> that are in their loop, \<open>ts_blocked\<close> those of them
  that are inside \<open>accept\<close>.
\<close>

record tcp_server =
  ts_socks :: "nat list"
  ts_recvTimeout :: u64
  ts_name :: str
  ts_isStop :: bool
  ts_heap :: "nat \<Rightarrow> socket option"
  ts_next :: nat
  ts_acceptWorker :: "tcp_task list"
  ts_worker :: "tcp_task list"
  ts_loops :: "nat list"
  ts_blocked :: "nat list"
  ts_calls :: "syscall list"

datatype tcp_error = TcpSocket socket_error | NoSocket

definition TcpServer_new :: "u64 \<Rightarrow> tcp_server" where
  "TcpServer_new read_timeout = \<lparr>ts_socks = [], ts_recvTimeout = read_timeout, ts_name = lit ''co_lib/1.0.0'',
     ts_isStop = True, ts_heap = Map.empty, ts_next = 0, ts_acceptWorker = [], ts_worker = [], ts_loops = [], ts_blocked = [], ts_calls = []\<rparr>"

definition setReadTimeout :: "u64 \<Rightarrow> tcp_server \<Rightarrow> tcp_server" where
  "setReadTimeout v st = st\<lparr>ts_recvTimeout := v\<rparr>"

definition getReadTimeout :: "tcp_server \<Rightarrow> u64" where
  "getReadTimeout st = ts_recvTimeout st"

definition tcp_setName :: "str \<Rightarrow> tcp_server \<Rightarrow> tcp_server" where
  "tcp_setName v st = st\<lparr>ts_name := v\<rparr>"

definition tcp_getName :: "tcp_server \<Rightarrow> str" where
  "tcp_getName st = ts_name st"

definition isStop :: "tcp_server \<Rightarrow> bool" where
  "isStop st = ts_isStop st"

definition do_calls :: "syscall list \<Rightarrow> tcp_server \<Rightarrow> tcp_server" where
  "do_calls cs st = st\<lparr>ts_calls := ts_calls st @ cs\<rparr>"

definition put_sock :: "nat \<Rightarrow> socket \<Rightarrow> tcp_server \<Rightarrow> tcp_server" where
  "put_sock a s st = st\<lparr>ts_heap := (ts_heap st)(a \<mapsto> s)\<rparr>"

text \<open>Whether a socket is still referred to; the destructor of one that is not.\<close>

definition referred :: "tcp_server \<Rightarrow> nat \<Rightarrow> bool" where
  "referred st a \<longleftrightarrow> a \<in> set (ts_socks st) \<or> a \<in> set (ts_loops st) \<or>
     StartAccept a \<in> set (ts_acceptWorker st @ ts_worker st) \<or> HandleClient a \<in> set (ts_acceptWorker st @ ts_worker st)"

definition release :: "nat \<Rightarrow> tcp_server \<Rightarrow> tcp_server" where
  "release a st =
     (if referred st a then st
      else (case ts_heap st a of None \<Rightarrow> st
        | Some s \<Rightarrow> do_calls (fst (snd (Socket_close s))) (st\<lparr>ts_heap := (ts_heap st)(a := None)\<rparr>)))"

definition clear_socks :: "tcp_server \<Rightarrow> tcp_server" where
  "clear_socks st = foldl (\<lambda>st a. release a st) (st\<lparr>ts_socks := []\<rparr>) (ts_socks st)"

section \<open>Binding\<close>

text \<open>One address: the socket is kept when \<open>bind\<close> and \<open>listen\<close> succeed, and destroyed otherwise.\<close>

definition bind_one :: "sys \<Rightarrow> sockaddr_in \<Rightarrow> tcp_server \<Rightarrow> tcp_error + tcp_server \<times> bool" where
  "bind_one sys addr st =
     (case Socket_bind sys addr (Socket_CreateTCP addr) of
        Inl e \<Rightarrow> Inl (TcpSocket e)
      | Inr (s, calls, bound) \<Rightarrow>
          let a = ts_next st;
              st1 = do_calls calls (put_sock a s (st\<lparr>ts_next := Suc a\<rparr>))
          in if \<not> bound then Inr (release a st1, False)
             else let (calls2, listening) = Socket_listen sys SOMAXCONN s; st2 = do_calls calls2 st1
               in if \<not> listening then Inr (release a st2, False)
                  else Inr (st2\<lparr>ts_socks := ts_socks st2 @ [a]\<rparr>, True))"

text \<open>The calls made for the \<open>n\<close>th socket of the program's run answer as \<open>sys n\<close> says.\<close>

fun bind_all :: "(nat \<Rightarrow> sys) \<Rightarrow> sockaddr_in list \<Rightarrow> sockaddr_in list \<Rightarrow> tcp_server \<Rightarrow> tcp_error + tcp_server \<times> sockaddr_in list" where
  "bind_all sys [] fails st = Inr (st, fails)"
| "bind_all sys (addr # addrs) fails st =
     (case bind_one (sys (ts_next st)) addr st of Inl e \<Rightarrow> Inl e
      | Inr (st1, ok) \<Rightarrow> bind_all sys addrs (if ok then fails else fails @ [addr]) st1)"

definition tcp_bind :: "(nat \<Rightarrow> sys) \<Rightarrow> sockaddr_in list \<Rightarrow> sockaddr_in list \<Rightarrow> tcp_server \<Rightarrow>
    tcp_error + tcp_server \<times> sockaddr_in list \<times> bool" where
  "tcp_bind sys addrs fails st =
     (case bind_all sys addrs fails st of Inl e \<Rightarrow> Inl e
      | Inr (st1, fails1) \<Rightarrow> if fails1 \<noteq> [] then Inr (clear_socks st1, fails1, False) else Inr (st1, fails1, True))"

definition tcp_bind_one :: "(nat \<Rightarrow> sys) \<Rightarrow> sockaddr_in \<Rightarrow> tcp_server \<Rightarrow> tcp_error + tcp_server \<times> bool" where
  "tcp_bind_one sys addr st =
     (case tcp_bind sys [addr] [] st of Inl e \<Rightarrow> Inl e | Inr (st1, _, ok) \<Rightarrow> Inr (st1, ok))"

section \<open>Starting and stopping\<close>

definition tcp_start :: "tcp_server \<Rightarrow> tcp_server \<times> bool" where
  "tcp_start st =
     (if \<not> ts_isStop st then (st, True)
      else (st\<lparr>ts_isStop := False, ts_acceptWorker := ts_acceptWorker st @ map StartAccept (ts_socks st)\<rparr>, True))"

definition tcp_stop :: "tcp_server \<Rightarrow> tcp_server" where
  "tcp_stop st = st\<lparr>ts_isStop := True, ts_acceptWorker := ts_acceptWorker st @ [StopSocks]\<rparr>"

definition close_sock :: "nat \<Rightarrow> tcp_server \<Rightarrow> tcp_server" where
  "close_sock a st =
     (case ts_heap st a of None \<Rightarrow> st
      | Some s \<Rightarrow> let (s1, calls, _) = Socket_close s
          in put_sock a s1 (do_calls (Socket_cancelAll s # calls) st))"

text \<open>The task that \<open>stop\<close> schedules.\<close>

definition stop_socks :: "tcp_server \<Rightarrow> tcp_server" where
  "stop_socks st = clear_socks (foldl (\<lambda>st a. close_sock a st) st (ts_socks st))"

text \<open>The destructor closes without cancelling.\<close>

definition TcpServer_delete :: "tcp_server \<Rightarrow> tcp_server" where
  "TcpServer_delete st = clear_socks (foldl (\<lambda>st a. (case ts_heap st a of None \<Rightarrow> st
     | Some s \<Rightarrow> let (s1, calls, _) = Socket_close s in put_sock a s1 (do_calls calls st))) st (ts_socks st))"

section \<open>Accepting\<close>

text \<open>
  The loop of \<open>startAccept\<close> on the socket \<open>a\<close>. Its test: out of the loop when the server has stopped, else into
  \<open>accept\<close>, which blocks the fiber while other steps are made. When \<open>accept\<close> returns, with what \<open>sys\<close> answers
  then, a client is passed on whatever has happened meanwhile. The receive timeout is set on the socket that
  listens.
\<close>

definition accept_enter :: "nat \<Rightarrow> tcp_server \<Rightarrow> tcp_server" where
  "accept_enter a st =
     (if ts_isStop st then release a (st\<lparr>ts_loops := remove1 a (ts_loops st)\<rparr>)
      else st\<lparr>ts_blocked := a # ts_blocked st\<rparr>)"

definition accept_return :: "sys \<Rightarrow> nat \<Rightarrow> tcp_server \<Rightarrow> tcp_error + tcp_server" where
  "accept_return sys a st0 =
     (let st = st0\<lparr>ts_blocked := remove1 a (ts_blocked st0)\<rparr> in
      case ts_heap st a of None \<Rightarrow> Inl NoSocket
        | Some s \<Rightarrow>
          (case Socket_accept sys s of
             Inl e \<Rightarrow> Inl (TcpSocket e)
           | Inr (None, calls) \<Rightarrow> Inr (do_calls calls st)
           | Inr (Some client, calls) \<Rightarrow>
               let c = ts_next st;
                   st1 = do_calls calls (put_sock c client (st\<lparr>ts_next := Suc c\<rparr>));
                   st2 = do_calls (Socket_setRecvTimeout sys s (sint (ts_recvTimeout st1))) st1
               in Inr (st2\<lparr>ts_worker := ts_worker st2 @ [HandleClient c]\<rparr>)))"

text \<open>One round without a step of anything else in it.\<close>

definition accept_round :: "sys \<Rightarrow> nat \<Rightarrow> tcp_server \<Rightarrow> tcp_error + tcp_server" where
  "accept_round sys a st =
     (if ts_isStop st then Inr (accept_enter a st) else accept_return sys a (accept_enter a st))"

text \<open>A task of the accepting manager and one of the working manager; the base class only logs a client.\<close>

definition run_accept_task :: "tcp_server \<Rightarrow> tcp_server" where
  "run_accept_task st =
     (case ts_acceptWorker st of [] \<Rightarrow> st
      | t # ts \<Rightarrow> let st1 = st\<lparr>ts_acceptWorker := ts\<rparr> in
          (case t of StartAccept a \<Rightarrow> st1\<lparr>ts_loops := ts_loops st1 @ [a]\<rparr>
           | HandleClient a \<Rightarrow> release a st1
           | StopSocks \<Rightarrow> stop_socks st1))"

definition run_worker_task :: "tcp_server \<Rightarrow> tcp_server" where
  "run_worker_task st =
     (case ts_worker st of [] \<Rightarrow> st
      | t # ts \<Rightarrow> let st1 = st\<lparr>ts_worker := ts\<rparr> in
          (case t of StartAccept a \<Rightarrow> st1\<lparr>ts_loops := ts_loops st1 @ [a]\<rparr>
           | HandleClient a \<Rightarrow> release a st1
           | StopSocks \<Rightarrow> stop_socks st1))"

end
