(* ===== verification/TcpServer_Spec.thy ===== *)
theory TcpServer_Spec
  imports TcpServer
begin

text \<open>
  What the server keeps: every socket that a task, a loop or the server refers to exists, nothing else does, and
  clients are connected. Binding is all or nothing, stopping lets go of everything; and where the code goes
  wrong: the receive timeout of clients, and a start before the sockets are closed.
\<close>

section \<open>Sockets\<close>

definition sock_ok :: "socket \<Rightarrow> bool" where
  "sock_ok s \<longleftrightarrow> so_family s = AF_INET \<and> (so_isConnected s \<longrightarrow> so_sock s \<noteq> -1)"

lemma getLocalAddress_ok: "so_family s = AF_INET \<Longrightarrow> \<exists>l a. getLocalAddress sys s = Inr (s\<lparr>so_local := l\<rparr>, a)"
  by (cases s) (auto simp: getLocalAddress_def split: option.splits sum.splits)

lemma getRemoteAddress_ok: "so_family s = AF_INET \<Longrightarrow> \<exists>r a. getRemoteAddress sys s = Inr (s\<lparr>so_remote := r\<rparr>, a)"
  by (cases s) (auto simp: getRemoteAddress_def split: option.splits sum.splits)

lemma Socket_bind_ok:
  assumes "so_family s = AF_INET" "\<not> so_isConnected s"
  shows "\<exists>s' calls ok. Socket_bind sys addr s = Inr (s', calls, ok) \<and> sock_ok s' \<and> (ok \<longrightarrow> isValid s' \<and>
    CallBind (so_sock s') (getAddr addr) \<in> set calls)"
proof -
  obtain s1 calls where e: "ensure_sock sys s = (s1, calls)" by (cases "ensure_sock sys s")
  then have s1: "so_family s1 = AF_INET" "\<not> so_isConnected s1"
    using assms by (auto simp: ensure_sock_def newSock_def Let_def split: if_splits)
  obtain l a where "getLocalAddress sys s1 = Inr (s1\<lparr>so_local := l\<rparr>, a)" using getLocalAddress_ok [OF s1(1)] by blast
  then show ?thesis using e s1 by (auto simp: Socket_bind_def Let_def sock_ok_def isValid_def)
qed

lemma Socket_init_ok:
  assumes "so_family s = AF_INET"
  shows "\<exists>s' calls ok. Socket_init sys fd s = Inr (s', calls, ok) \<and>
    (ok \<longrightarrow> sock_ok s' \<and> so_isConnected s' \<and> so_sock s' = fd \<and> fd \<noteq> -1 \<and> calls = initSock sys (s\<lparr>so_sock := fd\<rparr>))"
proof -
  let ?s1 = "s\<lparr>so_sock := fd, so_isConnected := True\<rparr>"
  obtain l a where l: "getLocalAddress sys ?s1 = Inr (?s1\<lparr>so_local := l\<rparr>, a)"
    using getLocalAddress_ok [of ?s1 sys] assms by auto
  obtain r b where "getRemoteAddress sys (?s1\<lparr>so_local := l\<rparr>) = Inr (?s1\<lparr>so_local := l, so_remote := r\<rparr>, b)"
    using getRemoteAddress_ok [of "?s1\<lparr>so_local := l\<rparr>" sys] assms by auto
  then show ?thesis using l assms
    by (auto simp: Socket_init_def sock_ok_def initSock_def Socket_setOption_def Let_def split: option.splits)
qed

lemma Socket_accept_ok:
  assumes "so_family s = AF_INET"
  shows "\<exists>r calls. Socket_accept sys s = Inr (r, calls) \<and>
    (\<forall>c. r = Some c \<longrightarrow> sock_ok c \<and> so_isConnected c \<and> so_sock c = sy_accept sys (so_sock s) \<and> so_sock c \<noteq> -1 \<and>
      calls = CallAccept (so_sock s) # initSock sys ((Socket_new AF_INET (so_type s) (so_protocol s))\<lparr>so_sock := so_sock c\<rparr>))"
proof -
  let ?s0 = "Socket_new (so_family s) (so_type s) (so_protocol s)"
  obtain s' calls ok where "Socket_init sys (sy_accept sys (so_sock s)) ?s0 = Inr (s', calls, ok)"
    "ok \<longrightarrow> sock_ok s' \<and> so_isConnected s' \<and> so_sock s' = sy_accept sys (so_sock s) \<and> sy_accept sys (so_sock s) \<noteq> -1 \<and>
      calls = initSock sys (?s0\<lparr>so_sock := sy_accept sys (so_sock s)\<rparr>)"
    using Socket_init_ok [of ?s0 sys "sy_accept sys (so_sock s)"] assms by (auto simp: Socket_new_def)
  then show ?thesis using assms by (auto simp: Socket_accept_def)
qed

text \<open>\<open>close\<close> says \<open>true\<close> exactly when there was nothing to close, and leaves nothing open.\<close>

lemma Socket_close_spec:
  "so_sock (fst (Socket_close s)) = -1 \<and> \<not> so_isConnected (fst (Socket_close s)) \<and> so_family (fst (Socket_close s)) = so_family s \<and>
   (sock_ok s \<longrightarrow> (snd (snd (Socket_close s)) \<longleftrightarrow> \<not> isValid s))"
  by (auto simp: Socket_close_def sock_ok_def isValid_def)

section \<open>The invariant\<close>

definition listeners :: "tcp_server \<Rightarrow> nat set" where
  "listeners st = set (ts_socks st) \<union> set (ts_loops st) \<union> {a. StartAccept a \<in> set (ts_acceptWorker st @ ts_worker st)}"

definition clients :: "tcp_server \<Rightarrow> nat set" where
  "clients st = {a. HandleClient a \<in> set (ts_acceptWorker st @ ts_worker st)}"

lemma referred_iff: "referred st a \<longleftrightarrow> a \<in> listeners st \<union> clients st"
  by (auto simp: referred_def listeners_def clients_def)

text \<open>All of it, but for the sockets of \<open>B\<close> that nothing refers to and that are about to be destroyed.\<close>

definition held :: "nat set \<Rightarrow> tcp_server \<Rightarrow> bool" where
  "held B st \<longleftrightarrow>
     (\<forall>a. referred st a \<longrightarrow> ts_heap st a \<noteq> None) \<and>
     (\<forall>a s. ts_heap st a = Some s \<longrightarrow> a < ts_next st \<and> sock_ok s \<and> (referred st a \<or> a \<in> B)) \<and>
     (\<forall>a s. a \<in> clients st \<longrightarrow> ts_heap st a = Some s \<longrightarrow> so_isConnected s) \<and>
     listeners st \<inter> clients st = {}"

abbreviation tcp_ok :: "tcp_server \<Rightarrow> bool" where
  "tcp_ok st \<equiv> held {} st"

lemma heldD:
  assumes "held B st"
  shows "referred st a \<Longrightarrow> ts_heap st a \<noteq> None" "ts_heap st a = Some s \<Longrightarrow> a < ts_next st"
    "ts_heap st a = Some s \<Longrightarrow> sock_ok s" "ts_heap st a = Some s \<Longrightarrow> referred st a \<or> a \<in> B"
    "a \<in> clients st \<Longrightarrow> ts_heap st a = Some s \<Longrightarrow> so_isConnected s" "listeners st \<inter> clients st = {}"
  using assms by (auto simp: held_def)

lemma heldI:
  assumes "\<And>a. referred st a \<Longrightarrow> ts_heap st a \<noteq> None"
    "\<And>a s. ts_heap st a = Some s \<Longrightarrow> a < ts_next st \<and> sock_ok s \<and> (referred st a \<or> a \<in> B)"
    "\<And>a s. a \<in> clients st \<Longrightarrow> ts_heap st a = Some s \<Longrightarrow> so_isConnected s" "listeners st \<inter> clients st = {}"
  shows "held B st"
  using assms by (simp add: held_def)

lemma do_calls_simps [simp]:
  "ts_heap (do_calls cs st) = ts_heap st" "ts_socks (do_calls cs st) = ts_socks st" "ts_loops (do_calls cs st) = ts_loops st"
  "ts_acceptWorker (do_calls cs st) = ts_acceptWorker st" "ts_worker (do_calls cs st) = ts_worker st"
  "ts_next (do_calls cs st) = ts_next st" "ts_isStop (do_calls cs st) = ts_isStop st"
  "ts_recvTimeout (do_calls cs st) = ts_recvTimeout st" "ts_calls (do_calls cs st) = ts_calls st @ cs"
  "ts_heap (put_sock a s st) = (ts_heap st)(a \<mapsto> s)" "ts_socks (put_sock a s st) = ts_socks st"
  "ts_loops (put_sock a s st) = ts_loops st" "ts_acceptWorker (put_sock a s st) = ts_acceptWorker st"
  "ts_worker (put_sock a s st) = ts_worker st" "ts_next (put_sock a s st) = ts_next st"
  "ts_isStop (put_sock a s st) = ts_isStop st" "ts_recvTimeout (put_sock a s st) = ts_recvTimeout st"
  "ts_calls (put_sock a s st) = ts_calls st" "ts_blocked (do_calls cs st) = ts_blocked st" "ts_blocked (put_sock a s st) = ts_blocked st"
  by (simp_all add: do_calls_def put_sock_def)

lemma sets_cong:
  assumes "ts_socks st' = ts_socks st" "ts_loops st' = ts_loops st" "ts_acceptWorker st' = ts_acceptWorker st" "ts_worker st' = ts_worker st"
  shows "listeners st' = listeners st" "clients st' = clients st" "referred st' = referred st"
  using assms by (auto simp: listeners_def clients_def referred_def fun_eq_iff)

lemma held_blocked [simp]: "held B (st\<lparr>ts_blocked := b\<rparr>) = held B st"
  using sets_cong [of "st\<lparr>ts_blocked := b\<rparr>" st] by (simp add: held_def)

lemma held_do_calls [simp]: "held B (do_calls cs st) = held B st"
  using sets_cong [of "do_calls cs st" st] by (simp add: held_def)

text \<open>A destruction changes the store only.\<close>

lemma release_fields [simp]:
  "ts_socks (release a st) = ts_socks st" "ts_loops (release a st) = ts_loops st"
  "ts_acceptWorker (release a st) = ts_acceptWorker st" "ts_worker (release a st) = ts_worker st"
  "ts_next (release a st) = ts_next st" "ts_isStop (release a st) = ts_isStop st"
  by (auto simp: release_def split: option.splits)

lemma release_heap: "ts_heap (release a st) = (if referred st a then ts_heap st else (ts_heap st)(a := None))"
  by (auto simp: release_def fun_eq_iff split: option.splits)

lemma held_release: "held (insert a B) st \<Longrightarrow> held B (release a st)"
proof -
  assume h: "held (insert a B) st"
  note sets = sets_cong [of "release a st" st, OF release_fields(1,2,3,4)]
  show ?thesis
  proof (rule heldI)
    fix b assume "referred (release a st) b"
    then have "referred st b" by (simp add: sets)
    with heldD(1) [OF h] show "ts_heap (release a st) b \<noteq> None" by (auto simp: release_heap)
  next
    fix b s assume s: "ts_heap (release a st) b = Some s"
    then have "ts_heap st b = Some s" and b: "b = a \<longrightarrow> referred st a" by (auto simp: release_heap split: if_splits)
    with heldD(2,3,4) [OF h this(1)] show "b < ts_next (release a st) \<and> sock_ok s \<and> (referred (release a st) b \<or> b \<in> B)"
      by (auto simp: sets)
  next
    fix b s assume "b \<in> clients (release a st)" "ts_heap (release a st) b = Some s"
    then show "so_isConnected s" using heldD(5) [OF h, of b s] by (auto simp: sets release_heap split: if_splits)
  next
    show "listeners (release a st) \<inter> clients (release a st) = {}" using heldD(6) [OF h] by (simp add: sets)
  qed
qed

lemma held_mono: "held B st \<Longrightarrow> B \<subseteq> C \<Longrightarrow> held C st"
  by (auto simp: held_def)

lemma held_release_all:
  "held (set as \<union> B) st \<Longrightarrow> held B (foldl (\<lambda>st a. release a st) st as) \<and>
    ts_socks (foldl (\<lambda>st a. release a st) st as) = ts_socks st \<and> ts_loops (foldl (\<lambda>st a. release a st) st as) = ts_loops st \<and>
    ts_acceptWorker (foldl (\<lambda>st a. release a st) st as) = ts_acceptWorker st \<and>
    ts_worker (foldl (\<lambda>st a. release a st) st as) = ts_worker st \<and> ts_isStop (foldl (\<lambda>st a. release a st) st as) = ts_isStop st"
proof (induction as arbitrary: st)
  case (Cons a as)
  have "held (set as \<union> B) (release a st)" using Cons.prems by (intro held_release) simp
  then show ?case using Cons.IH [of "release a st"] by simp
qed simp

text \<open>Dropping references.\<close>

lemma held_drop:
  assumes h: "held B st" and heap: "ts_heap st' = ts_heap st" "ts_next st' = ts_next st"
    and sub: "listeners st' \<subseteq> listeners st" "clients st' \<subseteq> clients st"
    and gone: "\<And>a. referred st a \<Longrightarrow> \<not> referred st' a \<Longrightarrow> a \<in> C"
  shows "held (B \<union> C) st'"
proof (rule heldI)
  fix a assume "referred st' a"
  then have "referred st a" using sub by (auto simp: referred_iff)
  then show "ts_heap st' a \<noteq> None" using heldD(1) [OF h] heap by simp
next
  fix a s assume "ts_heap st' a = Some s"
  then have s: "ts_heap st a = Some s" using heap by simp
  show "a < ts_next st' \<and> sock_ok s \<and> (referred st' a \<or> a \<in> B \<union> C)" using heldD(2,3,4) [OF h s] heap gone by auto
next
  fix a s assume "a \<in> clients st'" "ts_heap st' a = Some s"
  then show "so_isConnected s" using heldD(5) [OF h, of a s] heap sub by auto
qed (use heldD(6) [OF h] sub in blast)

lemma clear_socks_ok:
  assumes "held B st"
  shows "held B (clear_socks st) \<and> ts_socks (clear_socks st) = [] \<and> ts_loops (clear_socks st) = ts_loops st \<and>
    ts_acceptWorker (clear_socks st) = ts_acceptWorker st \<and> ts_worker (clear_socks st) = ts_worker st \<and>
    ts_isStop (clear_socks st) = ts_isStop st"
proof -
  have "held (B \<union> set (ts_socks st)) (st\<lparr>ts_socks := []\<rparr>)"
    by (rule held_drop [OF assms]) (auto simp: listeners_def clients_def referred_iff)
  then have "held (set (ts_socks st) \<union> B) (st\<lparr>ts_socks := []\<rparr>)" by (simp add: Un_commute)
  from held_release_all [OF this] show ?thesis by (simp add: clear_socks_def)
qed


text \<open>A new socket.\<close>

lemma held_new:
  assumes h: "held B st" and n: "n = ts_next st"
    and heap: "ts_heap st' = (ts_heap st)(n \<mapsto> s)" "ts_next st' = Suc n" and s: "sock_ok s"
    and L: "listeners st \<subseteq> listeners st'" "listeners st' \<subseteq> insert n (listeners st)"
    and C: "clients st \<subseteq> clients st'" "clients st' \<subseteq> insert n (clients st)"
    and one: "n \<notin> listeners st' \<inter> clients st'" and conn: "n \<in> clients st' \<Longrightarrow> so_isConnected s"
    and new: "referred st' n \<or> n \<in> B'" and B: "B \<subseteq> B'"
  shows "held B' st'"
proof -
  have fresh: "ts_heap st n = None" using heldD(2) [OF h, of n] n by (cases "ts_heap st n") auto
  then have "\<not> referred st n" using heldD(1) [OF h, of n] by blast
  then have nn: "n \<notin> listeners st" "n \<notin> clients st" by (auto simp: referred_iff)
  show ?thesis
  proof (rule heldI)
    fix a assume "referred st' a"
    then have "a = n \<or> referred st a" using L C by (auto simp: referred_iff)
    then show "ts_heap st' a \<noteq> None" using heldD(1) [OF h, of a] heap by auto
  next
    fix a t assume "ts_heap st' a = Some t"
    then consider "a = n" "t = s" | "a \<noteq> n" "ts_heap st a = Some t" using heap by (auto split: if_splits)
    then show "a < ts_next st' \<and> sock_ok t \<and> (referred st' a \<or> a \<in> B')"
    proof cases
      case 1 then show ?thesis using heap s new by simp
    next
      case 2
      have "referred st' a \<or> a \<in> B'" using heldD(4) [OF h 2(2)] L C B by (auto simp: referred_iff)
      then show ?thesis using heldD(2,3) [OF h 2(2)] heap n by simp
    qed
  next
    fix a t assume a: "a \<in> clients st'" "ts_heap st' a = Some t"
    then show "so_isConnected t" using heldD(5) [OF h, of a t] heap C conn by (cases "a = n") auto
  next
    show "listeners st' \<inter> clients st' = {}" using heldD(6) [OF h] L C one nn by blast
  qed
qed

text \<open>A socket that changes without becoming disconnected under a client.\<close>

lemma held_put:
  assumes h: "held B st" and a: "ts_heap st a = Some s" "a \<in> listeners st" and t: "sock_ok t"
  shows "held B (put_sock a t st)"
proof -
  note sets = sets_cong [of "put_sock a t st" st, simplified]
  show ?thesis
  proof (rule heldI)
    fix b assume "referred (put_sock a t st) b"
    then show "ts_heap (put_sock a t st) b \<noteq> None" using heldD(1) [OF h, of b] by (auto simp: sets)
  next
    fix b u assume "ts_heap (put_sock a t st) b = Some u"
    then show "b < ts_next (put_sock a t st) \<and> sock_ok u \<and> (referred (put_sock a t st) b \<or> b \<in> B)"
      using heldD(2,3,4) [OF h, of b u] heldD(2,4) [OF h a(1)] t by (auto simp: sets split: if_splits)
  next
    fix b u assume b: "b \<in> clients (put_sock a t st)" "ts_heap (put_sock a t st) b = Some u"
    then have "b \<noteq> a" using heldD(6) [OF h] a by (auto simp: sets)
    then show "so_isConnected u" using b heldD(5) [OF h, of b u] by (simp add: sets)
  qed (use heldD(6) [OF h] in \<open>simp add: sets\<close>)
qed

section \<open>Binding keeps it\<close>

text \<open>Whether one of the system calls that an address needs fails.\<close>

definition bind_fails :: "sys \<Rightarrow> sockaddr_in \<Rightarrow> bool" where
  "bind_fails sys addr \<longleftrightarrow>
     (let fd = sy_socket sys (getFamily addr) SOCK_STREAM 0
      in fd = -1 \<or> sy_bind sys fd (getAddr addr) \<noteq> 0 \<or> sy_listen sys fd SOMAXCONN \<noteq> 0)"

text \<open>The addresses that fail, in their order; each of them takes the next number of a socket.\<close>

definition failing :: "(nat \<Rightarrow> sys) \<Rightarrow> nat \<Rightarrow> sockaddr_in list \<Rightarrow> sockaddr_in list" where
  "failing sys n addrs = map snd (filter (\<lambda>(i, addr). bind_fails (sys i) addr) (enumerate n addrs))"

lemma failing_simps [simp]:
  "failing sys n [] = []"
  "failing sys n (addr # addrs) = (if bind_fails (sys n) addr then [addr] else []) @ failing sys (Suc n) addrs"
  by (simp_all add: failing_def)

lemma Socket_bind_fails:
  assumes "getFamily addr = AF_INET" "Socket_bind sys addr (Socket_CreateTCP addr) = Inr (s, calls, bound)"
  shows "bound \<and> snd (Socket_listen sys SOMAXCONN s) \<longleftrightarrow> \<not> bind_fails sys addr"
  using assms
  by (auto simp: Socket_bind_def ensure_sock_def newSock_def isValid_def Socket_CreateTCP_def Socket_new_def bind_fails_def
      getLocalAddress_def Socket_listen_def Let_def split: if_splits sum.splits option.splits)

lemma family_ok: "getFamily addr = AF_INET \<Longrightarrow> so_family (Socket_CreateTCP addr) = AF_INET \<and> \<not> so_isConnected (Socket_CreateTCP addr)"
  by (simp add: Socket_CreateTCP_def Socket_new_def)

definition bound_to :: "tcp_server \<Rightarrow> nat \<Rightarrow> sockaddr_in \<Rightarrow> bool" where
  "bound_to st a addr \<longleftrightarrow> (\<exists>s. ts_heap st a = Some s \<and> isValid s \<and>
     CallBind (so_sock s) (getAddr addr) \<in> set (ts_calls st) \<and> CallListen (so_sock s) SOMAXCONN \<in> set (ts_calls st))"

text \<open>What binding leaves alone.\<close>

definition same_tasks :: "tcp_server \<Rightarrow> tcp_server \<Rightarrow> bool" where
  "same_tasks st st' \<longleftrightarrow> ts_loops st' = ts_loops st \<and> ts_acceptWorker st' = ts_acceptWorker st \<and> ts_worker st' = ts_worker st \<and>
     ts_isStop st' = ts_isStop st"

lemma same_tasks_trans [trans]: "same_tasks a b \<Longrightarrow> same_tasks b c \<Longrightarrow> same_tasks a c"
  by (simp add: same_tasks_def)

lemma bind_one_ok:
  assumes h: "tcp_ok st" and f: "getFamily addr = AF_INET"
  shows "\<exists>st' ok. bind_one sys addr st = Inr (st', ok) \<and> (ok \<longleftrightarrow> \<not> bind_fails sys addr) \<and> tcp_ok st' \<and> same_tasks st st' \<and>
    ts_next st' = Suc (ts_next st) \<and> set (ts_calls st) \<subseteq> set (ts_calls st') \<and>
    (if ok then ts_socks st' = ts_socks st @ [ts_next st] \<and> bound_to st' (ts_next st) addr \<and>
        (\<forall>a. a \<noteq> ts_next st \<longrightarrow> ts_heap st' a = ts_heap st a)
      else ts_socks st' = ts_socks st \<and> ts_heap st' = ts_heap st)"
proof -
  obtain s calls bound where b: "Socket_bind sys addr (Socket_CreateTCP addr) = Inr (s, calls, bound)"
    and s: "sock_ok s" and bound: "bound \<longrightarrow> isValid s \<and> CallBind (so_sock s) (getAddr addr) \<in> set calls"
    using Socket_bind_ok [of "Socket_CreateTCP addr" sys addr] family_ok [OF f] by auto
  obtain calls2 listening where l: "Socket_listen sys SOMAXCONN s = (calls2, listening)" by (cases "Socket_listen sys SOMAXCONN s")
  have bf: "bound \<and> listening \<longleftrightarrow> \<not> bind_fails sys addr" using Socket_bind_fails [OF f b] l by simp
  let ?a = "ts_next st"
  have fresh: "ts_heap st ?a = None" using heldD(2) [OF h, of ?a] by (cases "ts_heap st ?a") auto
  then have nref: "\<not> referred st ?a" using heldD(1) [OF h, of ?a] by blast
  \<comment> \<open>the socket is made and thrown away\<close>
  have away: "tcp_ok (release ?a (do_calls cs (put_sock ?a s (st\<lparr>ts_next := Suc ?a\<rparr>)))) \<and>
      same_tasks st (release ?a (do_calls cs (put_sock ?a s (st\<lparr>ts_next := Suc ?a\<rparr>)))) \<and>
      set (ts_calls st) \<subseteq> set (ts_calls (release ?a (do_calls cs (put_sock ?a s (st\<lparr>ts_next := Suc ?a\<rparr>))))) \<and>
      ts_heap (release ?a (do_calls cs (put_sock ?a s (st\<lparr>ts_next := Suc ?a\<rparr>)))) = ts_heap st" for cs
  proof -
    let ?t = "do_calls cs (put_sock ?a s (st\<lparr>ts_next := Suc ?a\<rparr>))"
    have sets: "listeners ?t = listeners st" "clients ?t = clients st" "referred ?t = referred st" by (rule sets_cong; simp)+
    have "held {?a} ?t"
      by (rule held_new [OF h refl, where s = s]) (use s nref in \<open>auto simp: sets referred_iff\<close>)
    then have "tcp_ok (release ?a ?t)" by (rule held_release)
    then show ?thesis using nref fresh by (auto simp: same_tasks_def release_heap sets release_def)
  qed
  show ?thesis
  proof (cases "bound \<and> listening")
    case True
    let ?t = "do_calls calls2 (do_calls calls (put_sock ?a s (st\<lparr>ts_next := Suc ?a\<rparr>)))"
    let ?u = "?t\<lparr>ts_socks := ts_socks st @ [?a]\<rparr>"
    have sets: "listeners ?u = insert ?a (listeners st)" "clients ?u = clients st" by (auto simp: listeners_def clients_def)
    have "tcp_ok ?u"
      by (rule held_new [OF h refl, where s = s]) (use s nref in \<open>auto simp: sets referred_iff\<close>)
    moreover have "CallListen (so_sock s) SOMAXCONN \<in> set calls2" using l bound True by (auto simp: Socket_listen_def)
    ultimately show ?thesis using b l True bound bf
      by (auto simp: bind_one_def Let_def same_tasks_def bound_to_def)
  next
    case False
    then consider "\<not> bound" | "bound" "\<not> listening" by blast
    then show ?thesis
    proof cases
      case 1 then show ?thesis using b bf away [of calls] by (auto simp: bind_one_def Let_def)
    next
      case 2
      have "do_calls calls2 (do_calls calls (put_sock ?a s (st\<lparr>ts_next := Suc ?a\<rparr>))) =
        do_calls (calls @ calls2) (put_sock ?a s (st\<lparr>ts_next := Suc ?a\<rparr>))" by (simp add: do_calls_def)
      then show ?thesis using 2 b l bf away [of "calls @ calls2"] by (auto simp: bind_one_def Let_def)
    qed
  qed
qed


text \<open>
  All addresses: the sockets added are the ones of the addresses that were bound, in the order of the addresses,
  and the others are the ones that fail.
\<close>

lemma bound_to_mono:
  "bound_to st a addr \<Longrightarrow> ts_heap st' a = ts_heap st a \<Longrightarrow> set (ts_calls st) \<subseteq> set (ts_calls st') \<Longrightarrow> bound_to st' a addr"
  by (auto simp: bound_to_def)

lemma bind_all_ok:
  assumes "tcp_ok st" "\<forall>addr \<in> set addrs. getFamily addr = AF_INET"
  shows "\<exists>st' new fails'. bind_all sys addrs fails st = Inr (st', fails @ fails') \<and> tcp_ok st' \<and> same_tasks st st' \<and>
    ts_next st \<le> ts_next st' \<and> set (ts_calls st) \<subseteq> set (ts_calls st') \<and>
    ts_socks st' = ts_socks st @ map fst new \<and> (\<forall>a \<in> fst ` set new. ts_next st \<le> a \<and> a < ts_next st') \<and>
    (\<forall>a. a \<notin> fst ` set new \<longrightarrow> ts_heap st' a = ts_heap st a) \<and>
    (\<forall>(a, addr) \<in> set new. bound_to st' a addr) \<and> (fails' = [] \<longrightarrow> map snd new = addrs) \<and>
    fails' = failing sys (ts_next st) addrs"
  using assms
proof (induction addrs arbitrary: st fails)
  case Nil
  then show ?case by (intro exI [of _ st] exI [of _ "[]"]) (simp add: same_tasks_def)
next
  case (Cons addr addrs)
  from Cons.prems obtain st1 ok where
    one: "bind_one (sys (ts_next st)) addr st = Inr (st1, ok)" and bf: "ok \<longleftrightarrow> \<not> bind_fails (sys (ts_next st)) addr" and k: "tcp_ok st1" and t: "same_tasks st st1"
    and n: "ts_next st1 = Suc (ts_next st)" and c: "set (ts_calls st) \<subseteq> set (ts_calls st1)"
    and r: "if ok then ts_socks st1 = ts_socks st @ [ts_next st] \<and> bound_to st1 (ts_next st) addr \<and>
        (\<forall>a. a \<noteq> ts_next st \<longrightarrow> ts_heap st1 a = ts_heap st a)
      else ts_socks st1 = ts_socks st \<and> ts_heap st1 = ts_heap st"
    using bind_one_ok [of st addr "sys (ts_next st)"] by auto
  let ?fails = "if ok then fails else fails @ [addr]"
  obtain st2 new fails' where
    all: "bind_all sys addrs ?fails st1 = Inr (st2, ?fails @ fails')" "tcp_ok st2" "same_tasks st1 st2"
      "ts_next st1 \<le> ts_next st2" "set (ts_calls st1) \<subseteq> set (ts_calls st2)" "ts_socks st2 = ts_socks st1 @ map fst new"
    and range: "\<forall>a \<in> fst ` set new. ts_next st1 \<le> a \<and> a < ts_next st2"
    and frame: "\<forall>a. a \<notin> fst ` set new \<longrightarrow> ts_heap st2 a = ts_heap st1 a"
    and bound: "\<forall>(a, addr) \<in> set new. bound_to st2 a addr" and full: "fails' = [] \<longrightarrow> map snd new = addrs"
    and fl: "fails' = failing sys (ts_next st1) addrs"
    using Cons.IH [OF k, of ?fails] Cons.prems(2) by auto
  have t2: "same_tasks st st2" using same_tasks_trans [OF t all(3)] .
  show ?case
  proof (cases ok)
    case True
    have "ts_next st \<notin> fst ` set new" using range n by force
    then have "bound_to st2 (ts_next st) addr" using bound_to_mono r True frame all(5) by metis
    then show ?thesis using one all t2 n c r range frame bound full True bf fl
      by (intro exI [of _ st2] exI [of _ "(ts_next st, addr) # new"] exI [of _ fails']) fastforce
  next
    case False
    then show ?thesis using one all t2 n c r range frame bound bf fl
      by (intro exI [of _ st2] exI [of _ new] exI [of _ "addr # fails'"]) fastforce
  qed
qed


text \<open>
  C28: Binding is all or nothing. The list of failures has exactly the addresses for which one of the system calls
  \<open>socket\<close>, \<open>bind\<close> and \<open>listen\<close> fails, in their order, and the result is \<open>true\<close> when it is empty. Then the
  server has got one socket for each address, in the order of the addresses, valid, bound to that address and
  listening; otherwise no socket is left, neither a new one nor one that the server had before, but for those
  that a running accept loop or a task still holds. The addresses are IPv4.
\<close>

theorem bind_all_or_nothing:
  assumes ok: "tcp_ok st" and f: "\<forall>addr \<in> set addrs. getFamily addr = AF_INET"
  shows "\<exists>st' fails r. tcp_bind sys addrs [] st = Inr (st', fails, r) \<and> tcp_ok st' \<and>
    fails = map snd (filter (\<lambda>(i, addr). bind_fails (sys i) addr) (enumerate (ts_next st) addrs)) \<and> (r \<longleftrightarrow> fails = []) \<and>
    (if r then (\<exists>new. ts_socks st' = ts_socks st @ new \<and> list_all2 (bound_to st') new addrs \<and>
          (\<forall>a. a \<notin> set new \<longrightarrow> ts_heap st' a = ts_heap st a))
     else ts_socks st' = [] \<and> (\<forall>a. ts_heap st' a \<noteq> None \<longrightarrow> a \<in> set (ts_loops st) \<or>
          (\<exists>t \<in> set (ts_acceptWorker st @ ts_worker st). t = StartAccept a \<or> t = HandleClient a)))"
proof -
  obtain st1 new fails where
    all: "bind_all sys addrs [] st = Inr (st1, fails)" "tcp_ok st1" "same_tasks st st1" "ts_socks st1 = ts_socks st @ map fst new"
      "\<forall>a. a \<notin> fst ` set new \<longrightarrow> ts_heap st1 a = ts_heap st a" "\<forall>(a, addr) \<in> set new. bound_to st1 a addr"
      "fails = [] \<longrightarrow> map snd new = addrs"
    and fails: "fails = map snd (filter (\<lambda>(i, addr). bind_fails (sys i) addr) (enumerate (ts_next st) addrs))"
    using bind_all_ok [OF ok f, of sys "[]"] by (auto simp: failing_def)
  show ?thesis unfolding fails [symmetric]
  proof (cases "fails = []")
    case True
    have "list_all2 (bound_to st1) (map fst new) addrs"
      using all(6) all(7) True by (auto simp: list_all2_conv_all_nth split_beta)
    then show "\<exists>st' fs r. tcp_bind sys addrs [] st = Inr (st', fs, r) \<and> tcp_ok st' \<and> fs = fails \<and> (r \<longleftrightarrow> fs = []) \<and>
      (if r then (\<exists>new. ts_socks st' = ts_socks st @ new \<and> list_all2 (bound_to st') new addrs \<and>
          (\<forall>a. a \<notin> set new \<longrightarrow> ts_heap st' a = ts_heap st a))
       else ts_socks st' = [] \<and> (\<forall>a. ts_heap st' a \<noteq> None \<longrightarrow> a \<in> set (ts_loops st) \<or>
          (\<exists>t \<in> set (ts_acceptWorker st @ ts_worker st). t = StartAccept a \<or> t = HandleClient a)))"
      using all True by (auto simp: tcp_bind_def)
  next
    case False
    from clear_socks_ok [OF all(2)] have c: "tcp_ok (clear_socks st1)" "ts_socks (clear_socks st1) = []"
      "same_tasks st1 (clear_socks st1)" by (auto simp: same_tasks_def)
    have "referred (clear_socks st1) a" if "ts_heap (clear_socks st1) a \<noteq> None" for a
      using heldD(4) [OF c(1), of a] that by auto
    then show "\<exists>st' fs r. tcp_bind sys addrs [] st = Inr (st', fs, r) \<and> tcp_ok st' \<and> fs = fails \<and> (r \<longleftrightarrow> fs = []) \<and>
      (if r then (\<exists>new. ts_socks st' = ts_socks st @ new \<and> list_all2 (bound_to st') new addrs \<and>
          (\<forall>a. a \<notin> set new \<longrightarrow> ts_heap st' a = ts_heap st a))
       else ts_socks st' = [] \<and> (\<forall>a. ts_heap st' a \<noteq> None \<longrightarrow> a \<in> set (ts_loops st) \<or>
          (\<exists>t \<in> set (ts_acceptWorker st @ ts_worker st). t = StartAccept a \<or> t = HandleClient a)))"
      using all False c by (auto simp: tcp_bind_def same_tasks_def referred_def)
  qed
qed

definition net :: "nat \<Rightarrow> sys" where
  "net n = \<lparr>sy_socket = \<lambda>_ _ _. 10 + int n, sy_bind = \<lambda>fd a. if n = 1 then -1 else 0, sy_listen = \<lambda>_ _. 0,
     sy_accept = \<lambda>fd. if fd = -1 then -1 else 50, sy_connect = \<lambda>_ _ _. 0, sy_getpeername = \<lambda>_. Inl 107, sy_getsockname = \<lambda>_. Inl 9,
     sy_setsockopt = \<lambda>_ _ _. 0, sy_getsockopt = \<lambda>_ _ _. Inl 9, sy_msg = \<lambda>_ m. (-1, m),
     sy_ctx = \<lambda>fd. Some (fst (FdCtx_new (\<lambda>_. Some True) (\<lambda>_. 0) fd))\<rparr>"

definition localhost :: "u16 \<Rightarrow> sockaddr_in" where
  "localhost = IPv4Address_new 2130706433"

lemma new_ok: "tcp_ok (TcpServer_new t)"
  by (simp add: held_def TcpServer_new_def referred_def listeners_def clients_def)


lemma localhost_family: "getFamily (localhost p) = AF_INET"
  by (simp add: localhost_def getFamily_def IPv4Address_new_def)

lemma bind_all_or_nothing_witness:
  "(\<exists>st'. tcp_bind net [localhost 80] [] (TcpServer_new 0) = Inr (st', [], True) \<and> tcp_ok st') \<and>
   (\<exists>st'. tcp_bind net [localhost 80, localhost 81] [] (TcpServer_new 0) = Inr (st', [localhost 81], False) \<and> tcp_ok st' \<and>
     ts_socks st' = [])"
proof -
  have a: "\<exists>st' fails r. tcp_bind net [localhost 80] [] (TcpServer_new 0) = Inr (st', fails, r) \<and> tcp_ok st' \<and> (r \<longleftrightarrow> fails = [])"
    using bind_all_or_nothing [OF new_ok, of "[localhost 80]" net 0] by (auto simp: localhost_family)
  have b: "\<exists>st' fails r. tcp_bind net [localhost 80, localhost 81] [] (TcpServer_new 0) = Inr (st', fails, r) \<and> tcp_ok st' \<and>
      (r \<longleftrightarrow> fails = []) \<and> (\<not> r \<longrightarrow> ts_socks st' = [])"
    using bind_all_or_nothing [OF new_ok, of "[localhost 80, localhost 81]" net 0] by (auto simp: localhost_family split: if_splits)
  note eval = tcp_bind_def bind_one_def Socket_bind_def ensure_sock_def isValid_def Socket_CreateTCP_def Socket_new_def newSock_def
    initSock_def Socket_setOption_def getLocalAddress_def Socket_listen_def net_def Let_def TcpServer_new_def
  have c: "map_sum id snd (tcp_bind net [localhost 80] [] (TcpServer_new 0)) = Inr ([], True)"
    by (simp add: eval localhost_family)
  have d: "map_sum id snd (tcp_bind net [localhost 80, localhost 81] [] (TcpServer_new 0)) = Inr ([localhost 81], False)"
    by (simp add: eval localhost_family)
  show ?thesis using a b c d by auto
qed


section \<open>Every step keeps it\<close>

lemma close_sock_fields [simp]:
  "ts_socks (close_sock a st) = ts_socks st" "ts_loops (close_sock a st) = ts_loops st"
  "ts_acceptWorker (close_sock a st) = ts_acceptWorker st" "ts_worker (close_sock a st) = ts_worker st"
  "ts_isStop (close_sock a st) = ts_isStop st" "ts_blocked (close_sock a st) = ts_blocked st"
  by (auto simp: close_sock_def split: option.splits prod.splits)

lemma held_close_sock:
  assumes h: "held B st" and a: "a \<in> listeners st"
  shows "held B (close_sock a st)"
proof -
  obtain s where s: "ts_heap st a = Some s" using heldD(1) [OF h, of a] a by (auto simp: referred_iff)
  obtain s1 calls r where c: "Socket_close s = (s1, calls, r)" by (cases "Socket_close s")
  then have "sock_ok s1" using heldD(3) [OF h s] Socket_close_spec [of s] by (auto simp: sock_ok_def)
  then have "held B (put_sock a s1 (do_calls (Socket_cancelAll s # calls) st))"
    using held_put [of B "do_calls (Socket_cancelAll s # calls) st" a s s1] h s a
      sets_cong [of "do_calls (Socket_cancelAll s # calls) st" st] by simp
  then show ?thesis using s c by (simp add: close_sock_def)
qed

lemma close_socks_ok:
  "held B st \<Longrightarrow> set as \<subseteq> listeners st \<Longrightarrow> held B (foldl (\<lambda>st a. close_sock a st) st as) \<and>
    same_tasks st (foldl (\<lambda>st a. close_sock a st) st as) \<and> ts_socks (foldl (\<lambda>st a. close_sock a st) st as) = ts_socks st"
proof (induction as arbitrary: st)
  case (Cons a as)
  have "held B (close_sock a st)" "listeners (close_sock a st) = listeners st"
    using Cons.prems held_close_sock sets_cong [of "close_sock a st" st] by simp_all
  then show ?case using Cons.IH [of "close_sock a st"] Cons.prems(2) by (auto simp: same_tasks_def)
qed (simp add: same_tasks_def)

lemma stop_socks_ok:
  assumes "held B st"
  shows "held B (stop_socks st) \<and> ts_socks (stop_socks st) = [] \<and> same_tasks st (stop_socks st)"
proof -
  let ?t = "foldl (\<lambda>st a. close_sock a st) st (ts_socks st)"
  have "held B ?t" "same_tasks st ?t" using close_socks_ok [OF assms, of "ts_socks st"] by (auto simp: listeners_def)
  with clear_socks_ok [of B ?t] show ?thesis by (auto simp: stop_socks_def same_tasks_def)
qed

text \<open>A task that goes into its loop, a client that is served.\<close>

definition run_task :: "tcp_task \<Rightarrow> tcp_server \<Rightarrow> tcp_server" where
  "run_task t st = (case t of StartAccept a \<Rightarrow> st\<lparr>ts_loops := ts_loops st @ [a]\<rparr>
     | HandleClient a \<Rightarrow> release a st | StopSocks \<Rightarrow> stop_socks st)"

lemma run_accept_task_eq:
  "run_accept_task st = (case ts_acceptWorker st of [] \<Rightarrow> st | t # ts \<Rightarrow> run_task t (st\<lparr>ts_acceptWorker := ts\<rparr>))"
  by (simp add: run_accept_task_def run_task_def Let_def split: list.splits tcp_task.splits)

lemma run_worker_task_eq:
  "run_worker_task st = (case ts_worker st of [] \<Rightarrow> st | t # ts \<Rightarrow> run_task t (st\<lparr>ts_worker := ts\<rparr>))"
  by (simp add: run_worker_task_def run_task_def Let_def split: list.splits tcp_task.splits)

lemma run_task_fields [simp]:
  "ts_acceptWorker (run_task t st) = ts_acceptWorker st" "ts_worker (run_task t st) = ts_worker st"
  "ts_isStop (run_task t st) = ts_isStop st"
proof -
  have fold: "ts_acceptWorker (foldl (\<lambda>st a. f a st) s as) = ts_acceptWorker s \<and>
      ts_worker (foldl (\<lambda>st a. f a st) s as) = ts_worker s \<and> ts_isStop (foldl (\<lambda>st a. f a st) s as) = ts_isStop s"
    if "\<And>a s. ts_acceptWorker (f a s) = ts_acceptWorker s \<and> ts_worker (f a s) = ts_worker s \<and> ts_isStop (f a s) = ts_isStop s"
    for f :: "nat \<Rightarrow> tcp_server \<Rightarrow> tcp_server" and s as
    by (induction as arbitrary: s) (simp_all add: that)
  show "ts_acceptWorker (run_task t st) = ts_acceptWorker st" "ts_worker (run_task t st) = ts_worker st"
    "ts_isStop (run_task t st) = ts_isStop st"
    using fold [of release] fold [of close_sock]
    by (auto simp: run_task_def stop_socks_def clear_socks_def split: tcp_task.splits)
qed

lemma run_task_ok:
  assumes h: "tcp_ok st" and t: "ts_acceptWorker st' @ ts_worker st' = qs @ rs" "ts_acceptWorker st @ ts_worker st = qs @ t # rs"
    and same: "ts_heap st' = ts_heap st" "ts_next st' = ts_next st" "ts_socks st' = ts_socks st" "ts_loops st' = ts_loops st"
  shows "tcp_ok (run_task t st')"
proof (cases t)
  case (StartAccept a)
  have sets: "listeners (run_task t st') = listeners st" "clients (run_task t st') = clients st"
    using t same StartAccept by (auto simp: run_task_def listeners_def clients_def)
  have "ts_heap (run_task t st') = ts_heap st" "ts_next (run_task t st') = ts_next st"
    using same StartAccept by (simp_all add: run_task_def)
  then have "held ({} \<union> {}) (run_task t st')" by (intro held_drop [OF h]) (auto simp: sets referred_iff)
  then show ?thesis by simp
next
  case (HandleClient a)
  have sets: "listeners st' \<subseteq> listeners st" "clients st' \<subseteq> clients st" "listeners st \<subseteq> listeners st'" "clients st \<subseteq> insert a (clients st')"
    using t same HandleClient by (auto simp: listeners_def clients_def)
  have "held ({} \<union> {a}) st'"
    by (rule held_drop [OF h]) (use same sets in \<open>auto simp: referred_iff\<close>)
  then show ?thesis using held_release [of a "{}" st'] HandleClient by (simp add: run_task_def)
next
  case StopSocks
  have sets: "listeners st' = listeners st" "clients st' = clients st"
    using t same StopSocks by (auto simp: listeners_def clients_def)
  have "held ({} \<union> {}) st'"
    by (rule held_drop [OF h]) (use same in \<open>auto simp: sets referred_iff\<close>)
  then show ?thesis using stop_socks_ok [of "{}" st'] StopSocks by (simp add: run_task_def)
qed

lemma run_accept_task_ok: "tcp_ok st \<Longrightarrow> tcp_ok (run_accept_task st)"
  by (cases "ts_acceptWorker st")
    (simp_all add: run_accept_task_eq run_task_ok [of st "st\<lparr>ts_acceptWorker := ts\<rparr>" "[]" "ts @ ts_worker st" t for t ts])

lemma run_worker_task_ok: "tcp_ok st \<Longrightarrow> tcp_ok (run_worker_task st)"
  by (cases "ts_worker st")
    (simp_all add: run_worker_task_eq run_task_ok [of st "st\<lparr>ts_worker := ts\<rparr>" "ts_acceptWorker st" ts t for t ts])


text \<open>The two steps of an accept loop, and a whole round.\<close>

lemma accept_return_cases:
  assumes h: "tcp_ok st" and a: "a \<in> set (ts_loops st)"
  obtains (idle) calls where "accept_return sys a st = Inr (do_calls calls (st\<lparr>ts_blocked := remove1 a (ts_blocked st)\<rparr>))"
    | (client) s c where "ts_heap st a = Some s" "sock_ok c" "so_isConnected c"
        "so_sock c = sy_accept sys (so_sock s)"
        "accept_return sys a st = Inr (do_calls (CallAccept (so_sock s) #
           initSock sys ((Socket_new AF_INET (so_type s) (so_protocol s))\<lparr>so_sock := so_sock c\<rparr>) @
           Socket_setRecvTimeout sys s (sint (ts_recvTimeout st)))
           (put_sock (ts_next st) c (st\<lparr>ts_blocked := remove1 a (ts_blocked st), ts_next := Suc (ts_next st),
              ts_worker := ts_worker st @ [HandleClient (ts_next st)]\<rparr>)))"
proof -
  obtain s where s: "ts_heap st a = Some s" using heldD(1) [OF h, of a] a by (auto simp: referred_iff listeners_def)
  then have "so_family s = AF_INET" using heldD(3) [OF h s] by (simp add: sock_ok_def)
  then obtain r calls where acc: "Socket_accept sys s = Inr (r, calls)"
    and r: "\<forall>c. r = Some c \<longrightarrow> sock_ok c \<and> so_isConnected c \<and> so_sock c = sy_accept sys (so_sock s) \<and> so_sock c \<noteq> -1 \<and>
      calls = CallAccept (so_sock s) # initSock sys ((Socket_new AF_INET (so_type s) (so_protocol s))\<lparr>so_sock := so_sock c\<rparr>)"
    using Socket_accept_ok [of s sys] by auto
  show ?thesis
  proof (cases r)
    case None
    have "accept_return sys a st = Inr (do_calls calls (st\<lparr>ts_blocked := remove1 a (ts_blocked st)\<rparr>))"
      using None s acc by (simp add: accept_return_def)
    from idle [OF this] show ?thesis .
  next
    case (Some c)
    have facts: "sock_ok c" "so_isConnected c" "so_sock c = sy_accept sys (so_sock s)"
      and calls: "calls = CallAccept (so_sock s) # initSock sys ((Socket_new AF_INET (so_type s) (so_protocol s))\<lparr>so_sock := so_sock c\<rparr>)"
      using r Some by simp_all
    have "accept_return sys a st = Inr (do_calls (calls @ Socket_setRecvTimeout sys s (sint (ts_recvTimeout st)))
       (put_sock (ts_next st) c (st\<lparr>ts_blocked := remove1 a (ts_blocked st), ts_next := Suc (ts_next st),
          ts_worker := ts_worker st @ [HandleClient (ts_next st)]\<rparr>)))"
      using Some s acc by (simp add: accept_return_def Let_def do_calls_def put_sock_def)
    then show ?thesis unfolding calls append_Cons by (rule client [OF s facts])
  qed
qed

lemma accept_return_ok:
  assumes h: "tcp_ok st" and a: "a \<in> set (ts_loops st)"
  shows "\<exists>st'. accept_return sys a st = Inr st' \<and> tcp_ok st' \<and> ts_loops st' = ts_loops st \<and>
    ts_blocked st' = remove1 a (ts_blocked st) \<and> ts_socks st' = ts_socks st \<and> ts_acceptWorker st' = ts_acceptWorker st \<and>
    ts_isStop st' = ts_isStop st \<and> (\<exists>cs. ts_worker st' = ts_worker st @ map HandleClient cs)"
  using h a
proof (cases rule: accept_return_cases [where sys = sys])
  case (idle calls)
  then show ?thesis using h by (auto intro: exI [of _ "[]"])
next
  case (client s c)
  let ?n = "ts_next st"
  let ?t = "put_sock ?n c (st\<lparr>ts_blocked := remove1 a (ts_blocked st), ts_next := Suc ?n, ts_worker := ts_worker st @ [HandleClient ?n]\<rparr>)"
  have sets: "listeners ?t = listeners st" "clients ?t = insert ?n (clients st)" by (auto simp: listeners_def clients_def)
  have "ts_heap st ?n = None" using heldD(2) [OF h, of ?n] by (cases "ts_heap st ?n") auto
  then have "\<not> referred st ?n" using heldD(1) [OF h, of ?n] by blast
  then have "tcp_ok ?t"
    by (intro held_new [OF h refl, where s = c]) (use client(2,3) in \<open>auto simp: sets referred_iff\<close>)
  then show ?thesis using client(5) by (auto intro: exI [of _ "[?n]"])
qed

lemma accept_enter_ok:
  assumes h: "tcp_ok st"
  shows "tcp_ok (accept_enter a st)"
proof (cases "ts_isStop st")
  case True
  let ?t = "st\<lparr>ts_loops := remove1 a (ts_loops st)\<rparr>"
  have sets: "listeners ?t \<subseteq> listeners st" "clients ?t = clients st" "listeners st \<subseteq> insert a (listeners ?t)"
    using in_set_remove1 [of _ a "ts_loops st"] set_remove1_subset [of a "ts_loops st"] by (auto simp: listeners_def clients_def)
  have "held ({} \<union> {a}) ?t" by (rule held_drop [OF h]) (use sets in \<open>auto simp: referred_iff\<close>)
  then show ?thesis using True held_release [of a "{}" ?t] by (simp add: accept_enter_def)
qed (use h in \<open>simp add: accept_enter_def\<close>)

lemma accept_round_ok:
  assumes h: "tcp_ok st" and a: "a \<in> set (ts_loops st)"
  shows "\<exists>st'. accept_round sys a st = Inr st' \<and> tcp_ok st'"
proof (cases "ts_isStop st")
  case True
  then show ?thesis using accept_enter_ok [OF h, of a] by (simp add: accept_round_def)
next
  case False
  then have "a \<in> set (ts_loops (accept_enter a st))" using a by (simp add: accept_enter_def)
  from accept_return_ok [OF accept_enter_ok [OF h] this, of sys] show ?thesis using False by (auto simp: accept_round_def)
qed

section \<open>The server at work\<close>

inductive tcp_step :: "tcp_server \<Rightarrow> tcp_server \<Rightarrow> bool" where
  st_bind: "\<forall>addr \<in> set addrs. getFamily addr = AF_INET \<Longrightarrow> tcp_bind sys addrs fails st = Inr (st', fails', r) \<Longrightarrow> tcp_step st st'"
| st_start: "tcp_step st (fst (tcp_start st))"
| st_stop: "tcp_step st (tcp_stop st)"
| st_enter: "count_list (ts_blocked st) a < count_list (ts_loops st) a \<Longrightarrow> tcp_step st (accept_enter a st)"
| st_return: "a \<in> set (ts_blocked st) \<Longrightarrow> accept_return sys a st = Inr st' \<Longrightarrow> tcp_step st st'"
| st_task: "tcp_step st (run_accept_task st)"
| st_work: "tcp_step st (run_worker_task st)"
| st_timeout: "tcp_step st (setReadTimeout v st)"
| st_name: "tcp_step st (tcp_setName n st)"

inductive tcp_reached :: "u64 \<Rightarrow> tcp_server \<Rightarrow> bool" for t where
  re_new: "tcp_reached t (TcpServer_new t)"
| re_step: "tcp_reached t st \<Longrightarrow> tcp_step st st' \<Longrightarrow> tcp_reached t st'"

lemma same_refs:
  assumes "tcp_ok st" "listeners st' = listeners st" "clients st' = clients st" "ts_heap st' = ts_heap st" "ts_next st' = ts_next st"
  shows "tcp_ok st'"
  using assms by (simp add: held_def referred_iff)

lemma tcp_bind_ok:
  assumes "tcp_ok st" "\<forall>addr \<in> set addrs. getFamily addr = AF_INET"
  shows "\<exists>st' fails' r. tcp_bind sys addrs fails st = Inr (st', fails', r) \<and> tcp_ok st' \<and> same_tasks st st'"
proof -
  obtain st1 fs where "bind_all sys addrs fails st = Inr (st1, fs)" "tcp_ok st1" "same_tasks st st1"
    using bind_all_ok [OF assms, of sys fails] by auto
  then show ?thesis using clear_socks_ok [of "{}" st1] by (auto simp: tcp_bind_def same_tasks_def)
qed

text \<open>Tasks of the two managers: clients are served by the working one, everything else by the accepting one.\<close>

definition queues_ok :: "tcp_server \<Rightarrow> bool" where
  "queues_ok st \<longleftrightarrow> (\<forall>t \<in> set (ts_worker st). \<exists>c. t = HandleClient c) \<and> (\<forall>t \<in> set (ts_acceptWorker st). \<forall>c. t \<noteq> HandleClient c)"

text \<open>Only loops block.\<close>

definition blocked_ok :: "tcp_server \<Rightarrow> bool" where
  "blocked_ok st \<longleftrightarrow> (\<forall>a. count_list (ts_blocked st) a \<le> count_list (ts_loops st) a)"

lemma blocked_loops: "blocked_ok st \<Longrightarrow> set (ts_blocked st) \<subseteq> set (ts_loops st)"
proof
  fix a assume "blocked_ok st" "a \<in> set (ts_blocked st)"
  then have "0 < count_list (ts_loops st) a"
    unfolding blocked_ok_def by (metis count_list_0_iff gr_zeroI le_zero_eq)
  then show "a \<in> set (ts_loops st)" by (metis count_notin less_numeral_extra(3))
qed

lemma count_remove1: "count_list (remove1 a xs) b = count_list xs b - (if a = b then 1 else 0)"
  by (induction xs) (auto simp: count_notin Suc_diff_le count_list_0_iff neq0_conv [symmetric])

lemma foldl_fields:
  assumes "\<And>a s. g (f a s) = g s"
  shows "g (foldl (\<lambda>st a. f a st) s as) = (g s :: 'x)"
  by (induction as arbitrary: s) (simp_all add: assms)

lemma release_blocked [simp]: "ts_blocked (release a st) = ts_blocked st"
  by (auto simp: release_def split: option.splits)

lemma task_blocked:
  "ts_blocked (run_task t st) = ts_blocked st"
  "count_list (ts_loops st) a \<le> count_list (ts_loops (run_task t st)) a"
proof -
  show "ts_blocked (run_task t st) = ts_blocked st"
    by (auto simp: run_task_def stop_socks_def clear_socks_def foldl_fields [where g = ts_blocked] split: tcp_task.splits)
  show "count_list (ts_loops st) a \<le> count_list (ts_loops (run_task t st)) a"
    by (auto simp: run_task_def stop_socks_def clear_socks_def foldl_fields [where g = ts_loops] split: tcp_task.splits)
qed

lemma bind_blocked:
  assumes "tcp_bind sys addrs fails st = Inr (st', fails', r)"
  shows "ts_blocked st' = ts_blocked st"
proof -
  have one: "ts_blocked st1 = ts_blocked st" if "bind_one sys addr st = Inr (st1, ok)" for sys addr st st1 ok
    using that by (auto simp: bind_one_def Let_def split: sum.splits prod.splits if_splits)
  have "bind_all sys addrs fails st = Inr (st1, fs) \<Longrightarrow> ts_blocked st1 = ts_blocked st" for st1 fs
    by (induction addrs arbitrary: fails st) (auto dest: one split: sum.splits prod.splits if_splits)
  then show ?thesis using assms
    by (auto simp: tcp_bind_def clear_socks_def foldl_fields [where g = ts_blocked] split: sum.splits if_splits)
qed

lemma tcp_step_ok:
  assumes "tcp_step st st'" "tcp_ok st \<and> queues_ok st \<and> blocked_ok st"
  shows "tcp_ok st' \<and> queues_ok st' \<and> blocked_ok st'"
  using assms
proof cases
  case (st_bind addrs sys fails fails' r)
  then show ?thesis using tcp_bind_ok [of st addrs sys fails] bind_blocked [OF st_bind(2)] assms(2)
    by (auto simp: same_tasks_def queues_ok_def blocked_ok_def)
next
  case st_start
  have "tcp_ok (fst (tcp_start st))"
    by (rule same_refs [of st]) (use assms(2) in \<open>auto simp: tcp_start_def listeners_def clients_def\<close>)
  then show ?thesis using st_start assms(2) by (auto simp: tcp_start_def queues_ok_def blocked_ok_def)
next
  case st_stop
  have "tcp_ok (tcp_stop st)" by (rule same_refs [of st]) (use assms(2) in \<open>auto simp: tcp_stop_def listeners_def clients_def\<close>)
  then show ?thesis using st_stop assms(2) by (auto simp: tcp_stop_def queues_ok_def blocked_ok_def)
next
  case (st_enter a)
  have "queues_ok st'" using st_enter(1) assms(2) by (auto simp: accept_enter_def queues_ok_def)
  moreover have "blocked_ok st'"
    using st_enter assms(2) by (auto simp: accept_enter_def blocked_ok_def count_remove1)
  ultimately show ?thesis using st_enter(1) accept_enter_ok assms(2) by simp
next
  case (st_return a sys)
  have a: "a \<in> set (ts_loops st)" using st_return(1) assms(2) blocked_loops [of st] by blast
  obtain st1 where st1: "accept_return sys a st = Inr st1" "tcp_ok st1" "ts_loops st1 = ts_loops st"
    "ts_blocked st1 = remove1 a (ts_blocked st)" "ts_acceptWorker st1 = ts_acceptWorker st"
    "\<exists>cs. ts_worker st1 = ts_worker st @ map HandleClient cs"
    using accept_return_ok [OF _ a, of sys] assms(2) by blast
  then have "st1 = st'" using st_return(2) by simp
  have "count_list (ts_blocked st1) b \<le> count_list (ts_blocked st) b" for b using st1(4) by (simp add: count_remove1)
  then have "blocked_ok st1" using assms(2) st1(3) unfolding blocked_ok_def by (metis order_trans)
  moreover have "queues_ok st1" using assms(2) st1(5,6) by (auto simp: queues_ok_def)
  ultimately show ?thesis using st1(2) \<open>st1 = st'\<close> by simp
next
  case st_task
  have "blocked_ok st'"
  proof (cases "ts_acceptWorker st")
    case (Cons x xs)
    then show ?thesis using st_task assms(2) task_blocked [where t = x and st = "st\<lparr>ts_acceptWorker := xs\<rparr>"]
      by (fastforce simp: run_accept_task_eq blocked_ok_def intro: order_trans)
  qed (use st_task assms(2) in \<open>simp add: run_accept_task_eq\<close>)
  then show ?thesis using st_task run_accept_task_ok assms(2) by (auto simp: run_accept_task_eq queues_ok_def split: list.splits)
next
  case st_work
  have "blocked_ok st'"
  proof (cases "ts_worker st")
    case (Cons x xs)
    then show ?thesis using st_work assms(2) task_blocked [where t = x and st = "st\<lparr>ts_worker := xs\<rparr>"]
      by (fastforce simp: run_worker_task_eq blocked_ok_def intro: order_trans)
  qed (use st_work assms(2) in \<open>simp add: run_worker_task_eq\<close>)
  then show ?thesis using st_work run_worker_task_ok assms(2) by (auto simp: run_worker_task_eq queues_ok_def split: list.splits)
next
  case (st_timeout v)
  have "tcp_ok (setReadTimeout v st)" by (rule same_refs [of st]) (use assms(2) in \<open>auto simp: setReadTimeout_def listeners_def clients_def\<close>)
  then show ?thesis using st_timeout assms(2) by (simp add: setReadTimeout_def queues_ok_def blocked_ok_def)
next
  case (st_name n)
  have "tcp_ok (tcp_setName n st)" by (rule same_refs [of st]) (use assms(2) in \<open>auto simp: tcp_setName_def listeners_def clients_def\<close>)
  then show ?thesis using st_name assms(2) by (simp add: tcp_setName_def queues_ok_def blocked_ok_def)
qed

lemma tcp_reached_ok: "tcp_reached t st \<Longrightarrow> tcp_ok st \<and> queues_ok st \<and> blocked_ok st"
proof (induction rule: tcp_reached.induct)
  case re_new
  show ?case using new_ok [of t] by (simp add: TcpServer_new_def queues_ok_def blocked_ok_def)
next
  case (re_step st st')
  then show ?case using tcp_step_ok by blast
qed


text \<open>
  C27: Whatever a server has been told and whatever the system answers, as long as it is given IPv4
  addresses: binding more of them, every round of every accept loop and every \<open>accept\<close> that returns end without an error, each client that
  waits to be served is a connected socket with a descriptor, and the sockets that exist are exactly the ones
  that the server, a loop or a task refers to.
\<close>

theorem server_sound:
  assumes "tcp_reached t st"
  shows "((\<forall>addr \<in> set addrs. getFamily addr = AF_INET) \<longrightarrow> (\<exists>r. tcp_bind sys addrs fails st = Inr r)) \<and>
    (\<forall>a \<in> set (ts_loops st). \<exists>st'. accept_round sys' a st = Inr st') \<and>
    (\<forall>a \<in> set (ts_blocked st). \<exists>st'. accept_return sys' a st = Inr st') \<and>
    (\<forall>c. HandleClient c \<in> set (ts_worker st) \<longrightarrow> (\<exists>s. ts_heap st c = Some s \<and> so_isConnected s \<and> isValid s)) \<and>
    (\<forall>a. ts_heap st a \<noteq> None \<longleftrightarrow> referred st a)"
proof (intro conjI impI allI ballI)
  note ok = tcp_reached_ok [OF assms, THEN conjunct1]
  show "\<exists>r. tcp_bind sys addrs fails st = Inr r" if "\<forall>addr \<in> set addrs. getFamily addr = AF_INET"
    using tcp_bind_ok [OF ok that, of sys fails] by blast
  show "\<exists>st'. accept_round sys' a st = Inr st'" if "a \<in> set (ts_loops st)" for a
    using accept_round_ok [OF ok that, of sys'] by blast
  show "\<exists>st'. accept_return sys' a st = Inr st'" if "a \<in> set (ts_blocked st)" for a
    using accept_return_ok [OF ok, of a sys'] blocked_loops [of st] tcp_reached_ok [OF assms] that by blast
  show "\<exists>s. ts_heap st c = Some s \<and> so_isConnected s \<and> isValid s" if "HandleClient c \<in> set (ts_worker st)" for c
  proof -
    have c: "c \<in> clients st" using that by (simp add: clients_def)
    then obtain s where s: "ts_heap st c = Some s" using heldD(1) [OF ok, of c] by (auto simp: referred_iff)
    with heldD(3,5) [OF ok, of c s] c show ?thesis by (auto simp: sock_ok_def isValid_def)
  qed
  show "ts_heap st a \<noteq> None \<longleftrightarrow> referred st a" for a using heldD(1,4) [OF ok, of a] by auto
qed

lemma reached_start: "tcp_reached t st \<Longrightarrow> tcp_reached t (fst (tcp_start st))"
  and reached_stop: "tcp_reached t st \<Longrightarrow> tcp_reached t (tcp_stop st)"
  and reached_task: "tcp_reached t st \<Longrightarrow> tcp_reached t (run_accept_task st)"
  by (auto intro: re_step tcp_step.intros)

text \<open>A server that listens on one address and has accepted one client.\<close>

definition serving :: "tcp_error + tcp_server" where
  "serving = (case tcp_bind net [localhost 80] [] (TcpServer_new 0) of Inl e \<Rightarrow> Inl e
     | Inr (st, _, _) \<Rightarrow> accept_round (net 0) 0 (run_accept_task (fst (tcp_start st))))"

lemmas tcp_eval = serving_def tcp_bind_def bind_one_def Socket_bind_def ensure_sock_def isValid_def Socket_CreateTCP_def
  Socket_new_def newSock_def initSock_def Socket_setOption_def getLocalAddress_def getRemoteAddress_def Socket_listen_def net_def
  Let_def TcpServer_new_def accept_round_def accept_enter_def accept_return_def Socket_accept_def Socket_init_def run_accept_task_def tcp_start_def FdCtx_new_def
  FdCtx_init_def localhost_family

lemma serving_eq: "\<exists>st. serving = Inr st \<and> ts_loops st = [0] \<and> ts_worker st = [HandleClient 1] \<and> \<not> ts_isStop st \<and> ts_socks st = [0] \<and>
    ts_acceptWorker st = [] \<and> ts_blocked st = []"
  by (simp add: tcp_eval)

lemma round_reached:
  assumes "tcp_reached t st" "\<not> ts_isStop st" "count_list (ts_blocked st) a < count_list (ts_loops st) a" "accept_round sys a st = Inr st'"
  shows "tcp_reached t st'"
proof -
  have e: "accept_enter a st = st\<lparr>ts_blocked := a # ts_blocked st\<rparr>" using assms(2) by (simp add: accept_enter_def)
  have "tcp_reached t (accept_enter a st)" using re_step [OF assms(1) st_enter [OF assms(3)]] .
  moreover have "accept_return sys a (accept_enter a st) = Inr st'" using assms(2,4) by (simp add: accept_round_def)
  moreover have "a \<in> set (ts_blocked (accept_enter a st))" by (simp add: e)
  ultimately show ?thesis using re_step st_return by blast
qed

lemma serving_reached: "\<exists>st. serving = Inr st \<and> tcp_reached 0 st \<and> ts_loops st = [0] \<and> ts_worker st = [HandleClient 1] \<and>
    \<not> ts_isStop st \<and> ts_socks st = [0] \<and> ts_acceptWorker st = [] \<and> ts_blocked st = []"
proof -
  obtain st0 fs r where b: "tcp_bind net [localhost 80] [] (TcpServer_new 0) = Inr (st0, fs, r)"
    using tcp_bind_ok [OF new_ok, of "[localhost 80]" net "[]" 0] by (auto simp: localhost_family)
  have "tcp_reached 0 st0" by (rule re_step [OF re_new st_bind [OF _ b]]) (simp add: localhost_family)
  then have r: "tcp_reached 0 (run_accept_task (fst (tcp_start st0)))" by (intro reached_start reached_task)
  have l: "ts_loops (run_accept_task (fst (tcp_start st0))) = [0]" "ts_blocked (run_accept_task (fst (tcp_start st0))) = []"
    "\<not> ts_isStop (run_accept_task (fst (tcp_start st0)))"
    using b by (auto simp: tcp_eval split: if_splits)
  obtain st where e: "serving = Inr st" "ts_loops st = [0]" "ts_worker st = [HandleClient 1]" "\<not> ts_isStop st" "ts_socks st = [0]"
    "ts_acceptWorker st = []" "ts_blocked st = []" using serving_eq by blast
  then have "accept_round (net 0) 0 (run_accept_task (fst (tcp_start st0))) = Inr st" using b by (simp add: serving_def)
  from round_reached [OF r l(3) _ this] have "tcp_reached 0 st" by (simp add: l)
  then show ?thesis using e by blast
qed

lemma server_sound_witness:
  "\<exists>st. serving = Inr st \<and> tcp_reached 0 st \<and> (\<exists>st'. accept_round (net 2) 0 st = Inr st') \<and>
     (\<exists>r. tcp_bind net [localhost 81] [] st = Inr r) \<and>
     (\<exists>s. ts_heap st 1 = Some s \<and> so_isConnected s \<and> isValid s) \<and> (ts_heap st 1 \<noteq> None \<longleftrightarrow> referred st 1)"
proof -
  obtain st where st: "serving = Inr st" "tcp_reached 0 st" "ts_loops st = [0]" "ts_worker st = [HandleClient 1]"
    using serving_reached by blast
  have "(\<exists>r. tcp_bind net [localhost 81] [] st = Inr r) \<and> (\<exists>st'. accept_round (net 2) 0 st = Inr st') \<and>
      (\<exists>s. ts_heap st 1 = Some s \<and> so_isConnected s \<and> isValid s) \<and> (ts_heap st 1 \<noteq> None \<longleftrightarrow> referred st 1)"
    using server_sound [OF st(2), of "[localhost 81]" net "[]" "net 2"] st(3,4) localhost_family by simp
  then show ?thesis using st by blast
qed


text \<open>
  The read timeout never reaches a client. A round that accepts one sets the receive timeout of the
  socket that listens, and no other: whatever descriptor the client has, if it is not that of the listening
  socket its timeout stays what it was.
\<close>

theorem client_timeout_never_set:
  assumes "tcp_reached t st" "a \<in> set (ts_blocked st)" "ts_heap st a = Some s" "accept_return sys a st = Inr st'"
    and new: "ts_worker st' = ts_worker st @ [HandleClient c]"
  shows "\<exists>client calls. ts_heap st' c = Some client \<and> so_isConnected client \<and> so_sock client = sy_accept sys (so_sock s) \<and>
    ts_calls st' = ts_calls st @ calls \<and>
    CallSetsockopt (so_sock s) SOL_SOCKET SO_RCVTIMEO (timeval_of (sint (ts_recvTimeout st))) \<in> set calls \<and>
    (\<forall>fd v. CallSetsockopt fd SOL_SOCKET SO_RCVTIMEO v \<in> set calls \<longrightarrow> fd = so_sock s)"
proof -
  have "tcp_ok st" "a \<in> set (ts_loops st)" using tcp_reached_ok [OF assms(1)] blocked_loops [of st] assms(2) by blast+
  then show ?thesis
  proof (cases rule: accept_return_cases [where sys = sys])
    case (idle calls)
    then show ?thesis using assms(4) new by auto
  next
    case (client s1 c1)
    then show ?thesis using assms(3,4) new
      by (auto simp: Socket_setRecvTimeout_def Socket_setOption_def initSock_def Socket_new_def split: if_splits)
  qed
qed

lemma client_timeout_never_set_example:
  "\<exists>st st' client. serving = Inr st \<and> accept_return (net 2) 0 (accept_enter 0 st) = Inr st' \<and> ts_heap st' 2 = Some client \<and> so_sock client = 50 \<and>
    CallSetsockopt 50 SOL_SOCKET SO_RCVTIMEO (timeval_of 0) \<notin> set (drop (length (ts_calls st)) (ts_calls st'))"
proof -
  obtain st where st: "serving = Inr st" "tcp_reached 0 st" "ts_loops st = [0]" "\<not> ts_isStop st" "ts_blocked st = []"
    using serving_reached by blast
  have r: "tcp_reached 0 (accept_enter 0 st)" by (rule re_step [OF st(2) st_enter]) (simp add: st)
  have b: "0 \<in> set (ts_blocked (accept_enter 0 st))" "ts_heap (accept_enter 0 st) = ts_heap st" "ts_calls (accept_enter 0 st) = ts_calls st"
    "ts_worker (accept_enter 0 st) = ts_worker st" using st(4) by (simp_all add: accept_enter_def)
  have "\<exists>st s st'. serving = Inr st \<and> ts_heap st 0 = Some s \<and> so_sock s = 10 \<and> accept_return (net 2) 0 (accept_enter 0 st) = Inr st' \<and>
      ts_worker st' = ts_worker st @ [HandleClient 2]" by (simp add: tcp_eval)
  then obtain s st' where s: "ts_heap st 0 = Some s" "so_sock s = 10" "accept_return (net 2) 0 (accept_enter 0 st) = Inr st'"
    "ts_worker st' = ts_worker st @ [HandleClient 2]" using st(1) by (metis Inr_inject)
  from client_timeout_never_set [OF r b(1) _ s(3), of s 2] s(1,4) b(2,3,4)
  obtain client calls where "ts_heap st' 2 = Some client" "so_sock client = sy_accept (net 2) 10"
    "ts_calls st' = ts_calls st @ calls" "\<forall>fd v. CallSetsockopt fd SOL_SOCKET SO_RCVTIMEO v \<in> set calls \<longrightarrow> fd = 10"
    using s(2) by auto
  then show ?thesis using st(1) s(3) by (intro exI [of _ st] exI [of _ st'] exI [of _ client]) (auto simp: net_def)
qed

section \<open>Stopping\<close>

lemma close_sock_heap:
  "ts_heap (close_sock a st) b = (if b = a then map_option (\<lambda>s. fst (Socket_close s)) (ts_heap st a) else ts_heap st b)"
  by (auto simp: close_sock_def split: option.splits prod.splits)

lemma close_socks_heap:
  "(a \<in> set as \<or> P (ts_heap st a)) \<Longrightarrow> (\<And>s. P (map_option (\<lambda>s. fst (Socket_close s)) s)) \<Longrightarrow>
   P (ts_heap (foldl (\<lambda>st a. close_sock a st) st as) a)"
  by (induction as arbitrary: st) (auto simp: close_sock_heap)

text \<open>A socket that has been closed, or destroyed.\<close>

definition closed :: "tcp_server \<Rightarrow> nat \<Rightarrow> bool" where
  "closed st a \<longleftrightarrow> (\<forall>s. ts_heap st a = Some s \<longrightarrow> so_sock s = -1)"

text \<open>The calls that a step adds.\<close>

definition adds_calls :: "tcp_server \<Rightarrow> tcp_server \<Rightarrow> bool" where
  "adds_calls st st' \<longleftrightarrow> (\<exists>cs. ts_calls st' = ts_calls st @ cs)"

lemma adds_refl [simp]: "adds_calls st st"
  by (simp add: adds_calls_def)

lemma adds_trans: "adds_calls a b \<Longrightarrow> adds_calls b c \<Longrightarrow> adds_calls a c"
  by (auto simp: adds_calls_def)

lemma adds_foldl: "(\<And>a s. adds_calls s (f a s)) \<Longrightarrow> adds_calls s (foldl (\<lambda>st a. f a st) s as)"
  by (induction as arbitrary: s) (auto intro: adds_trans)

lemma adds_release: "adds_calls st (release a st)"
  by (auto simp: adds_calls_def release_def split: option.splits)

lemma adds_close: "adds_calls st (close_sock a st)"
  by (auto simp: adds_calls_def close_sock_def split: option.splits prod.splits)

lemma adds_clear: "adds_calls st (clear_socks st)"
  using adds_foldl [of release "st\<lparr>ts_socks := []\<rparr>" "ts_socks st"] adds_release by (simp add: clear_socks_def adds_calls_def)

lemma adds_task: "adds_calls st (run_task t st)"
proof (cases t)
  case StopSocks
  have "adds_calls st (foldl (\<lambda>st a. close_sock a st) st (ts_socks st))" by (rule adds_foldl) (rule adds_close)
  then show ?thesis using adds_trans [OF _ adds_clear] StopSocks by (simp add: run_task_def stop_socks_def)
next
  case (StartAccept a)
  then show ?thesis by (simp add: run_task_def adds_calls_def)
next
  case (HandleClient a)
  then show ?thesis by (simp add: run_task_def adds_release)
qed

text \<open>The task of \<open>stop\<close> cancels what waits on a socket, then closes it.\<close>

definition cancelled :: "tcp_server \<Rightarrow> tcp_server \<Rightarrow> int \<Rightarrow> bool" where
  "cancelled st st' fd \<longleftrightarrow> (\<exists>xs ys. ts_calls st' = ts_calls st @ xs @ [CallCancelAll fd, CallClose fd] @ ys)"

lemma cancelled_more: "cancelled st st1 fd \<Longrightarrow> adds_calls st1 st2 \<Longrightarrow> cancelled st st2 fd"
  unfolding cancelled_def adds_calls_def by (metis append.assoc)

lemma cancelled_later: "adds_calls st st1 \<Longrightarrow> cancelled st1 st2 fd \<Longrightarrow> cancelled st st2 fd"
  unfolding cancelled_def adds_calls_def by (metis append.assoc)

lemma close_socks_cancel:
  "a \<in> set as \<Longrightarrow> ts_heap st a = Some s \<Longrightarrow> so_sock s \<noteq> -1 \<Longrightarrow>
    cancelled st (foldl (\<lambda>st a. close_sock a st) st as) (so_sock s)"
proof (induction as arbitrary: st)
  case (Cons b as)
  show ?case
  proof (cases "b = a")
    case True
    have "cancelled st (close_sock a st) (so_sock s)"
      using Cons.prems(2,3) by (auto simp: cancelled_def close_sock_def Socket_close_def Socket_cancelAll_def intro: exI [of _ "[]"])
    then show ?thesis using True cancelled_more [OF _ adds_foldl [of close_sock]] adds_close by simp
  next
    case False
    then have "cancelled (close_sock b st) (foldl (\<lambda>st a. close_sock a st) (close_sock b st) as) (so_sock s)"
      using Cons by (simp add: close_sock_heap)
    then show ?thesis using cancelled_later [OF adds_close] by simp
  qed
qed simp

lemma stop_socks_cancel:
  "a \<in> set (ts_socks st) \<Longrightarrow> ts_heap st a = Some s \<Longrightarrow> so_sock s \<noteq> -1 \<Longrightarrow> cancelled st (stop_socks st) (so_sock s)"
  using cancelled_more [OF close_socks_cancel adds_clear] by (simp add: stop_socks_def)

lemma closed_mono: "closed st a \<Longrightarrow> (\<And>s. ts_heap st' a = Some s \<Longrightarrow> ts_heap st a = Some s \<or> so_sock s = -1) \<Longrightarrow> closed st' a"
  by (auto simp: closed_def)

lemma release_all_sub: "ts_heap (foldl (\<lambda>st a. release a st) st as) b = Some s \<Longrightarrow> ts_heap st b = Some s"
proof (induction as arbitrary: st)
  case (Cons a as)
  then have "ts_heap (release a st) b = Some s" by simp
  then show ?case by (simp add: release_heap split: if_splits)
qed simp

lemma clear_socks_sub: "ts_heap (clear_socks st) b = Some s \<Longrightarrow> ts_heap st b = Some s"
  using release_all_sub [of "st\<lparr>ts_socks := []\<rparr>" "ts_socks st" b s] by (simp add: clear_socks_def)

lemma stop_socks_closed: "a \<in> set (ts_socks st) \<or> closed st a \<Longrightarrow> closed (stop_socks st) a"
proof -
  assume "a \<in> set (ts_socks st) \<or> closed st a"
  then have "closed (foldl (\<lambda>st a. close_sock a st) st (ts_socks st)) a"
    unfolding closed_def using Socket_close_spec
    by (intro close_socks_heap [where P = "\<lambda>h. \<forall>s. h = Some s \<longrightarrow> so_sock s = -1"]) auto
  then show ?thesis using clear_socks_sub unfolding stop_socks_def closed_def by blast
qed

text \<open>No task of the accepting manager opens a socket again.\<close>

lemma task_closed: "closed st a \<Longrightarrow> closed (run_task t st) a"
proof (cases t)
  case (HandleClient b)
  then show "closed st a \<Longrightarrow> closed (run_task t st) a"
    by (auto simp: run_task_def closed_def release_heap split: if_splits)
qed (use stop_socks_closed in \<open>auto simp: run_task_def closed_def\<close>)

lemma tasks_closed:
  assumes "a \<in> set (ts_socks st) \<and> StopSocks \<in> set (ts_acceptWorker st) \<or> closed st a"
  shows "closed ((run_accept_task ^^ length (ts_acceptWorker st)) st) a"
  using assms
proof (induction "ts_acceptWorker st" arbitrary: st)
  case (Cons t ts)
  let ?t = "run_task t (st\<lparr>ts_acceptWorker := ts\<rparr>)"
  have r: "run_accept_task st = ?t" by (simp add: run_accept_task_eq flip: Cons.hyps(2))
  have "a \<in> set (ts_socks ?t) \<and> StopSocks \<in> set (ts_acceptWorker ?t) \<or> closed ?t a"
  proof (cases "t = StopSocks \<or> closed st a")
    case True
    then have "closed ?t a" if "closed st a" using that task_closed [of "st\<lparr>ts_acceptWorker := ts\<rparr>" a t] by (simp add: closed_def)
    moreover have "closed ?t a" if "t = StopSocks" "a \<in> set (ts_socks st)"
      using that stop_socks_closed [of a "st\<lparr>ts_acceptWorker := ts\<rparr>"] by (simp add: run_task_def)
    ultimately show ?thesis using True Cons.prems by blast
  next
    case False
    then have "ts_socks ?t = ts_socks st" by (cases t) (simp_all add: run_task_def)
    then show ?thesis using False Cons.prems by (auto simp flip: Cons.hyps(2))
  qed
  from Cons.hyps(1) [OF _ this] show ?case by (simp add: funpow_swap1 r flip: Cons.hyps(2))
qed (simp add: closed_def)

lemma tasks_add: "adds_calls st ((run_accept_task ^^ n) st)"
proof (induction n)
  case (Suc n)
  have "adds_calls s (run_accept_task s)" for s
  proof (cases "ts_acceptWorker s")
    case (Cons t ts)
    then show ?thesis using adds_task [of "s\<lparr>ts_acceptWorker := ts\<rparr>" t] by (simp add: run_accept_task_eq adds_calls_def)
  qed (simp add: run_accept_task_eq)
  then show ?case using adds_trans [OF Suc] by simp
qed simp

lemma tasks_cancel:
  assumes "a \<in> set (ts_socks st)" "StopSocks \<in> set (ts_acceptWorker st)" "\<forall>c. HandleClient c \<notin> set (ts_acceptWorker st)"
    "ts_heap st a = Some s" "so_sock s \<noteq> -1"
  shows "cancelled st ((run_accept_task ^^ length (ts_acceptWorker st)) st) (so_sock s)"
  using assms
proof (induction "ts_acceptWorker st" arbitrary: st)
  case (Cons t ts)
  let ?t = "run_task t (st\<lparr>ts_acceptWorker := ts\<rparr>)"
  have r: "run_accept_task st = ?t" by (simp add: run_accept_task_eq flip: Cons.hyps(2))
  have all: "(run_accept_task ^^ length (ts_acceptWorker st)) st = (run_accept_task ^^ length ts) ?t"
    by (simp add: funpow_swap1 r flip: Cons.hyps(2))
  show ?case
  proof (cases "t = StopSocks")
    case True
    have "cancelled st ?t (so_sock s)"
      using stop_socks_cancel [of a "st\<lparr>ts_acceptWorker := ts\<rparr>" s] True Cons.prems(1,4,5) by (simp add: run_task_def cancelled_def)
    then show ?thesis unfolding all using tasks_add by (rule cancelled_more)
  next
    case False
    then obtain b where t: "t = StartAccept b" using Cons.prems(3) by (cases t) (auto simp flip: Cons.hyps(2))
    have "cancelled ?t ((run_accept_task ^^ length (ts_acceptWorker ?t)) ?t) (so_sock s)"
      by (rule Cons.hyps(1)) (use t Cons.prems in \<open>auto simp: run_task_def simp flip: Cons.hyps(2)\<close>)
    then show ?thesis unfolding all by (simp add: t run_task_def cancelled_def)
  qed
qed simp

text \<open>The calls of \<open>accept\<close> that are blocked return, one after another; every loop makes its next test.\<close>

fun returns :: "sys \<Rightarrow> nat list \<Rightarrow> tcp_server \<Rightarrow> tcp_error + tcp_server" where
  "returns sys [] st = Inr st"
| "returns sys (a # as) st = (case accept_return sys a st of Inl e \<Rightarrow> Inl e | Inr st1 \<Rightarrow> returns sys as st1)"

fun rounds :: "sys \<Rightarrow> nat list \<Rightarrow> tcp_server \<Rightarrow> tcp_error + tcp_server" where
  "rounds sys [] st = Inr st"
| "rounds sys (a # as) st = (case accept_round sys a st of Inl e \<Rightarrow> Inl e | Inr st1 \<Rightarrow> rounds sys as st1)"

lemma returns_ok:
  "tcp_ok st \<Longrightarrow> set (ts_blocked st) \<subseteq> set (ts_loops st) \<Longrightarrow>
    \<exists>st' cs. returns sys (ts_blocked st) st = Inr st' \<and> tcp_ok st' \<and> ts_blocked st' = [] \<and> ts_loops st' = ts_loops st \<and>
    ts_socks st' = ts_socks st \<and> ts_acceptWorker st' = ts_acceptWorker st \<and> ts_isStop st' = ts_isStop st \<and>
    ts_worker st' = ts_worker st @ map HandleClient cs"
proof (induction "ts_blocked st" arbitrary: st)
  case Nil
  then show ?case by (intro exI [of _ st] exI [of _ "[]"]) simp
next
  case (Cons a as)
  note l = Cons.hyps(2) [symmetric]
  from Cons.prems(2) have a: "a \<in> set (ts_loops st)" by (simp add: l)
  obtain st1 cs where s1: "accept_return sys a st = Inr st1" "tcp_ok st1" "ts_loops st1 = ts_loops st" "ts_blocked st1 = as"
    "ts_socks st1 = ts_socks st" "ts_acceptWorker st1 = ts_acceptWorker st" "ts_isStop st1 = ts_isStop st"
    "ts_worker st1 = ts_worker st @ map HandleClient cs"
    using accept_return_ok [OF Cons.prems(1) a, of sys] by (auto simp: l)
  have sub: "set (ts_blocked st1) \<subseteq> set (ts_loops st1)" using Cons.prems(2) s1(3,4) l by simp
  obtain st' ds where s': "returns sys as st1 = Inr st'" "tcp_ok st'" "ts_blocked st' = []" "ts_loops st' = ts_loops st1"
    "ts_socks st' = ts_socks st1" "ts_acceptWorker st' = ts_acceptWorker st1" "ts_isStop st' = ts_isStop st1"
    "ts_worker st' = ts_worker st1 @ map HandleClient ds"
    using Cons.hyps(1) [OF s1(4) [symmetric] s1(2) sub] s1(4) by auto
  show ?case unfolding l using s1 s' by (intro exI [of _ st'] exI [of _ "cs @ ds"]) simp
qed

lemma rounds_stopped:
  "tcp_ok st \<Longrightarrow> ts_isStop st \<Longrightarrow> \<exists>st'. rounds sys (ts_loops st) st = Inr st' \<and> tcp_ok st' \<and> ts_loops st' = [] \<and>
    ts_socks st' = ts_socks st \<and> ts_acceptWorker st' = ts_acceptWorker st \<and> ts_worker st' = ts_worker st \<and> ts_blocked st' = ts_blocked st"
proof (induction "ts_loops st" arbitrary: st)
  case (Cons a as)
  let ?t = "release a (st\<lparr>ts_loops := as\<rparr>)"
  note l = Cons.hyps(2) [symmetric]
  have e: "accept_enter a st = ?t" using Cons.prems(2) l by (simp add: accept_enter_def)
  then have a: "accept_round sys a st = Inr ?t" using Cons.prems(2) by (simp add: accept_round_def)
  have "tcp_ok ?t" using accept_enter_ok [OF Cons.prems(1), of a] e by simp
  from Cons.hyps(1) [OF _ this] Cons.prems(2) show ?case unfolding l by (simp add: a)
qed auto

lemma run_all_tasks:
  "tcp_ok st \<Longrightarrow> \<exists>st'. (run_accept_task ^^ length (ts_acceptWorker st)) st = st' \<and> tcp_ok st' \<and> ts_acceptWorker st' = [] \<and>
    ts_worker st' = ts_worker st \<and> ts_isStop st' = ts_isStop st \<and> set (ts_loops st') \<subseteq> listeners st \<and>
    (StopSocks \<in> set (ts_acceptWorker st) \<or> ts_socks st = [] \<longrightarrow> ts_socks st' = [])"
proof (induction "ts_acceptWorker st" arbitrary: st)
  case Nil
  then show ?case by (auto simp: listeners_def)
next
  case (Cons t ts)
  let ?t = "run_task t (st\<lparr>ts_acceptWorker := ts\<rparr>)"
  have held: "tcp_ok (st\<lparr>ts_acceptWorker := ts\<rparr>)" if "t = StopSocks"
    by (rule same_refs [OF Cons.prems]) (use that in \<open>auto simp: listeners_def clients_def simp flip: Cons.hyps(2)\<close>)
  have r: "run_accept_task st = ?t" by (simp add: run_accept_task_eq flip: Cons.hyps(2))
  have ok: "tcp_ok ?t" using run_accept_task_ok [OF Cons.prems] r by simp
  have stop: "ts_socks ?t = [] \<and> ts_loops ?t = ts_loops st" if "t = StopSocks"
    using stop_socks_ok [of "{}" "st\<lparr>ts_acceptWorker := ts\<rparr>"] held that by (simp add: run_task_def same_tasks_def)
  have s: "ts_socks ?t = []" if "t = StopSocks \<or> ts_socks st = []"
    using that stop by (cases t) (auto simp: run_task_def)
  have "ts_acceptWorker ?t = ts" "ts_worker ?t = ts_worker st" by simp_all
  moreover have "set (ts_socks ?t) \<subseteq> set (ts_socks st)" "set (ts_loops ?t) \<subseteq> set (ts_loops st) \<union> {a. t = StartAccept a}"
    using stop by (cases t; auto simp: run_task_def)+
  ultimately have L: "listeners ?t \<subseteq> listeners st"
    unfolding listeners_def by (auto simp flip: Cons.hyps(2))
  have "(run_accept_task ^^ length (ts_acceptWorker st)) st = (run_accept_task ^^ length ts) ?t"
    by (simp add: funpow_swap1 r flip: Cons.hyps(2))
  moreover have "ts_acceptWorker ?t = ts" by simp
  ultimately show ?case using Cons.hyps(1) [of ?t] ok s L by (auto simp flip: Cons.hyps(2))
qed

text \<open>
  C29: Stopping lets go of everything. From any state in which each socket that a loop or a task is to accept on
  is one of the server's or already closed, the task of \<open>stop\<close>, run after the tasks that were before it, cancels
  everything that waits on each open listening socket and then closes it, so that no loop is left with
  an open descriptor; with the wait cancelled every \<open>accept\<close> that was blocked returns, whatever its
  result, a client that was waiting included. After that the next test of every loop leaves no listening socket,
  no loop and no task of the accepting manager; the sockets that remain are connected clients that wait to
  be served. That a cancelled wait ends is the I/O manager's \<open>cancelAll\<close>.
\<close>

theorem stop_releases_everything:
  assumes st: "tcp_reached t st" and known: "\<forall>a \<in> listeners st. a \<in> set (ts_socks st) \<or> closed st a"
  shows "\<exists>st1 st2 st3. (run_accept_task ^^ Suc (length (ts_acceptWorker st))) (tcp_stop st) = st1 \<and>
    (\<forall>a \<in> set (ts_socks st). \<forall>s. ts_heap st a = Some s \<and> so_sock s \<noteq> -1 \<longrightarrow>
      (\<exists>xs ys. ts_calls st1 = ts_calls st @ xs @ [CallCancelAll (so_sock s), CallClose (so_sock s)] @ ys)) \<and>
    (\<forall>a \<in> set (ts_loops st1). \<exists>s. ts_heap st1 a = Some s \<and> so_sock s = -1) \<and>
    returns sys (ts_blocked st1) st1 = Inr st2 \<and> rounds sys' (ts_loops st2) st2 = Inr st3 \<and>
    ts_socks st3 = [] \<and> ts_loops st3 = [] \<and> ts_blocked st3 = [] \<and> ts_acceptWorker st3 = [] \<and>
    (\<forall>a s. ts_heap st3 a = Some s \<longrightarrow> HandleClient a \<in> set (ts_worker st3) \<and> so_isConnected s)"
proof -
  have r: "tcp_reached t (tcp_stop st)" using st by (rule reached_stop)
  note ok = tcp_reached_ok [OF r]
  have stop: "ts_acceptWorker (tcp_stop st) = ts_acceptWorker st @ [StopSocks]" "ts_socks (tcp_stop st) = ts_socks st"
    "ts_heap (tcp_stop st) = ts_heap st" "ts_calls (tcp_stop st) = ts_calls st" "ts_isStop (tcp_stop st)"
    "listeners (tcp_stop st) = listeners st" by (auto simp: tcp_stop_def listeners_def)
  define st1 where "st1 = (run_accept_task ^^ length (ts_acceptWorker (tcp_stop st))) (tcp_stop st)"
  have st1: "tcp_ok st1" "ts_acceptWorker st1 = []" "ts_worker st1 = ts_worker st" "ts_isStop st1" "ts_socks st1 = []"
    "set (ts_loops st1) \<subseteq> listeners st"
    using run_all_tasks [OF ok [THEN conjunct1]] stop unfolding st1_def by (auto simp: tcp_stop_def)
  have tasks: "\<forall>c. HandleClient c \<notin> set (ts_acceptWorker (tcp_stop st))" using ok by (auto simp: queues_ok_def)
  have cancel: "cancelled st st1 (so_sock s)" if "a \<in> set (ts_socks st)" "ts_heap st a = Some s" "so_sock s \<noteq> -1" for a s
    using tasks_cancel [OF _ _ tasks, of a s] that unfolding st1_def cancelled_def by (simp add: stop)
  have shut: "\<exists>s. ts_heap st1 a = Some s \<and> so_sock s = -1" if "a \<in> set (ts_loops st1)" for a
  proof -
    have "a \<in> set (ts_socks st) \<or> closed st a" using that st1(6) known by blast
    then have "a \<in> set (ts_socks (tcp_stop st)) \<or> closed (tcp_stop st) a" by (simp add: stop closed_def)
    then have c: "closed st1 a" unfolding st1_def by (intro tasks_closed) (simp add: stop)
    have "referred st1 a" using that by (simp add: referred_def)
    then obtain s where "ts_heap st1 a = Some s" using heldD(1) [OF st1(1), of a] by blast
    then show ?thesis using c by (simp add: closed_def)
  qed
  have "tcp_reached t ((run_accept_task ^^ n) (tcp_stop st))" for n by (induction n) (simp_all add: r reached_task)
  then have "tcp_reached t st1" unfolding st1_def .
  then have b: "set (ts_blocked st1) \<subseteq> set (ts_loops st1)" using tcp_reached_ok blocked_loops by blast
  obtain st2 cs where st2: "returns sys (ts_blocked st1) st1 = Inr st2" "tcp_ok st2" "ts_blocked st2 = []" "ts_socks st2 = []"
    "ts_acceptWorker st2 = []" "ts_isStop st2" "ts_worker st2 = ts_worker st @ map HandleClient cs"
    using returns_ok [OF st1(1) b, of sys] st1 by auto
  obtain st3 where st3: "rounds sys' (ts_loops st2) st2 = Inr st3" "tcp_ok st3" "ts_loops st3 = []" "ts_socks st3 = []"
    "ts_acceptWorker st3 = []" "ts_worker st3 = ts_worker st2" "ts_blocked st3 = []"
    using rounds_stopped [OF st2(2,6), of sys'] st2 by auto
  have left: "HandleClient a \<in> set (ts_worker st3) \<and> so_isConnected s" if s: "ts_heap st3 a = Some s" for a s
  proof -
    have "\<forall>t \<in> set (ts_worker st3). \<exists>c. t = HandleClient c" using ok st3(6) st2(7) by (auto simp: queues_ok_def tcp_stop_def)
    then have "HandleClient a \<in> set (ts_worker st3)" using heldD(4) [OF st3(2) s] st3(3,4,5) by (auto simp: referred_def)
    then show ?thesis using heldD(5) [OF st3(2) _ s] by (simp add: clients_def)
  qed
  have n: "(run_accept_task ^^ Suc (length (ts_acceptWorker st))) (tcp_stop st) = st1" by (simp add: st1_def stop)
  have cancels: "\<forall>a \<in> set (ts_socks st). \<forall>s. ts_heap st a = Some s \<and> so_sock s \<noteq> -1 \<longrightarrow>
      (\<exists>xs ys. ts_calls st1 = ts_calls st @ xs @ [CallCancelAll (so_sock s), CallClose (so_sock s)] @ ys)"
    using cancel unfolding cancelled_def by blast
  have shuts: "\<forall>a \<in> set (ts_loops st1). \<exists>s. ts_heap st1 a = Some s \<and> so_sock s = -1"
    and lefts: "\<forall>a s. ts_heap st3 a = Some s \<longrightarrow> HandleClient a \<in> set (ts_worker st3) \<and> so_isConnected s"
    using shut left by blast+
  show ?thesis
    by (rule exI [of _ st1], rule exI [of _ st2], rule exI [of _ st3])
      (intro conjI; fact n cancels shuts lefts st2(1) st3(1,3,4,5,7))
qed

lemma stop_releases_everything_witness:
  "\<exists>st st1 st2 st3. serving = Inr st \<and> run_accept_task (tcp_stop (accept_enter 0 st)) = st1 \<and> ts_blocked st1 = [0] \<and>
    (\<exists>xs ys. ts_calls st1 = ts_calls st @ xs @ [CallCancelAll 10, CallClose 10] @ ys) \<and>
    returns (net 2) [0] st1 = Inr st2 \<and> rounds (net 2) (ts_loops st2) st2 = Inr st3 \<and> ts_socks st3 = [] \<and> ts_loops st3 = []"
proof -
  obtain st where st: "serving = Inr st" "tcp_reached 0 st" "ts_acceptWorker st = []" "ts_loops st = [0]" "ts_socks st = [0]"
    "\<not> ts_isStop st" "ts_blocked st = []" "ts_worker st = [HandleClient 1]" using serving_reached by blast
  let ?st = "accept_enter 0 st"
  have e: "?st = st\<lparr>ts_blocked := [0]\<rparr>" using st(6,7) by (simp add: accept_enter_def)
  have r: "tcp_reached 0 ?st" by (rule re_step [OF st(2) st_enter]) (simp add: st)
  have "\<exists>st s. serving = Inr st \<and> ts_heap st 0 = Some s \<and> so_sock s = 10" by (simp add: tcp_eval)
  then obtain s where s: "ts_heap st 0 = Some s" "so_sock s = 10" using st(1) by (metis Inr_inject)
  have k: "\<forall>a \<in> listeners ?st. a \<in> set (ts_socks ?st) \<or> closed ?st a" using st by (auto simp: e listeners_def)
  have b: "ts_blocked (run_accept_task (tcp_stop ?st)) = [0]"
    using st(3) task_blocked(1) by (simp add: e tcp_stop_def run_accept_task_eq)
  obtain st2 st3 where "\<exists>xs ys. ts_calls (run_accept_task (tcp_stop ?st)) = ts_calls st @ xs @ [CallCancelAll 10, CallClose 10] @ ys"
    "returns (net 2) [0] (run_accept_task (tcp_stop ?st)) = Inr st2" "rounds (net 2) (ts_loops st2) st2 = Inr st3" "ts_socks st3 = []" "ts_loops st3 = []"
    using stop_releases_everything [OF r k, of "net 2" "net 2"] b s st(3,5) by (auto simp: e simp del: returns.simps)
  then show ?thesis using st(1) b by blast
qed

text \<open>
  Without the condition: once a failed \<open>bind\<close> has emptied the list of a server that is serving, \<open>stop\<close> cancels
  and closes nothing, and an \<open>accept\<close> that is blocked stays so.
\<close>

lemma stop_without_socks:
  "ts_socks st = [] \<Longrightarrow> ts_acceptWorker st = [] \<Longrightarrow> run_accept_task (tcp_stop st) = st\<lparr>ts_isStop := True\<rparr>"
  by (cases st) (simp add: run_accept_task_eq run_task_def tcp_stop_def stop_socks_def clear_socks_def)

text \<open>
  C30: A server that is started again before the task of its \<open>stop\<close> has run never serves again, and
  never rests. The task closes the listening sockets, the accept loops see a server that is running and stay, and
  each of their rounds from then on is an \<open>accept\<close> on the descriptor -1 that fails at once.
\<close>

lemma run_starts:
  "ts_acceptWorker st = map StartAccept as \<Longrightarrow>
   (run_accept_task ^^ length as) st = st\<lparr>ts_acceptWorker := [], ts_loops := ts_loops st @ as\<rparr>"
proof (induction as arbitrary: st)
  case (Cons a as)
  have "run_accept_task st = st\<lparr>ts_acceptWorker := map StartAccept as, ts_loops := ts_loops st @ [a]\<rparr>"
    using Cons.prems by (simp add: run_accept_task_def)
  then show ?case using Cons.IH [of "st\<lparr>ts_acceptWorker := map StartAccept as, ts_loops := ts_loops st @ [a]\<rparr>"]
    by (simp add: funpow_swap1)
qed simp

lemma release_all_heap: "referred st a \<Longrightarrow> ts_heap (foldl (\<lambda>st a. release a st) st as) a = ts_heap st a"
proof (induction as arbitrary: st)
  case (Cons b as)
  have "referred (release b st) a" using Cons.prems sets_cong [of "release b st" st] by simp
  then show ?case using Cons.IH [of "release b st"] Cons.prems by (auto simp: release_heap)
qed simp

lemma stop_socks_heap:
  assumes "a \<in> set (ts_loops st)" "a \<in> set (ts_socks st)" "tcp_ok st"
  shows "\<exists>s. ts_heap (stop_socks st) a = Some s \<and> so_sock s = -1 \<and> sock_ok s"
proof -
  let ?t = "foldl (\<lambda>st a. close_sock a st) st (ts_socks st)"
  have t: "same_tasks st ?t" "tcp_ok ?t" using close_socks_ok [OF assms(3), of "ts_socks st"] by (auto simp: listeners_def)
  have "referred (?t\<lparr>ts_socks := []\<rparr>) a" using assms(1) t by (auto simp: referred_def same_tasks_def)
  then have h: "ts_heap (stop_socks st) a = ts_heap ?t a" by (simp add: stop_socks_def clear_socks_def release_all_heap)
  have "\<forall>s. ts_heap ?t a = Some s \<longrightarrow> so_sock s = -1"
    by (rule close_socks_heap [of _ _ "\<lambda>h. \<forall>s. h = Some s \<longrightarrow> so_sock s = -1"]) (use assms(2) Socket_close_spec in auto)
  moreover have "ts_heap ?t a \<noteq> None" using heldD(1) [OF t(2), of a] assms(1) t(1) by (auto simp: referred_def same_tasks_def)
  ultimately show ?thesis using h heldD(3) [OF t(2), of a] by auto
qed

lemma accept_closed:
  assumes "\<not> ts_isStop st" "ts_heap st a = Some s" "so_sock s = -1" "sy_accept sys (-1) = -1"
  shows "accept_round sys a st = Inr (do_calls [CallAccept (-1)] st)"
  using assms by (simp add: accept_round_def accept_enter_def accept_return_def Socket_accept_def Socket_init_def)

theorem restart_spins:
  assumes st: "tcp_reached t st" "\<not> ts_isStop st" "ts_acceptWorker st = []"
    and a: "a \<in> set (ts_loops st)" "a \<in> set (ts_socks st)" and sys: "sy_accept sys (-1) = -1"
  shows "\<exists>st'. (run_accept_task ^^ Suc (length (ts_socks st))) (fst (tcp_start (tcp_stop st))) = st' \<and>
    ts_socks st' = [] \<and> \<not> ts_isStop st' \<and> a \<in> set (ts_loops st') \<and>
    ((\<lambda>r. case r of Inl e \<Rightarrow> Inl e | Inr st \<Rightarrow> accept_round sys a st) ^^ n) (Inr st') =
      Inr (do_calls (replicate n (CallAccept (-1))) st')"
proof -
  let ?st1 = "st\<lparr>ts_isStop := False, ts_acceptWorker := map StartAccept (ts_socks st)\<rparr>"
  have s: "tcp_ok st" "tcp_ok ?st1"
  proof -
    show ok: "tcp_ok st" using st(1) tcp_reached_ok by blast
    show "tcp_ok ?st1" by (rule same_refs [OF ok]) (use st(3) in \<open>auto simp: listeners_def clients_def\<close>)
  qed
  have q: "fst (tcp_start (tcp_stop st)) = ?st1\<lparr>ts_acceptWorker := StopSocks # map StartAccept (ts_socks st)\<rparr>"
    using st(3) by (simp add: tcp_start_def tcp_stop_def)
  define st2 where "st2 = stop_socks ?st1"
  have st2: "ts_socks st2 = []" "ts_loops st2 = ts_loops st" "ts_acceptWorker st2 = map StartAccept (ts_socks st)" "\<not> ts_isStop st2"
    using stop_socks_ok [OF s(2)] by (auto simp: st2_def same_tasks_def)
  obtain s where h: "ts_heap st2 a = Some s" "so_sock s = -1"
    using stop_socks_heap [of a ?st1] a s(2) by (auto simp: st2_def)
  let ?st' = "st2\<lparr>ts_acceptWorker := [], ts_loops := ts_loops st2 @ ts_socks st\<rparr>"
  have one: "run_accept_task (fst (tcp_start (tcp_stop st))) = st2"
    by (simp add: q run_accept_task_eq run_task_def st2_def)
  have "(run_accept_task ^^ Suc (length (ts_socks st))) (fst (tcp_start (tcp_stop st))) = ?st'"
    using run_starts [OF st2(3)] by (simp add: funpow_Suc_right one del: funpow.simps)
  moreover have "((\<lambda>r. case r of Inl e \<Rightarrow> Inl e | Inr st \<Rightarrow> accept_round sys a st) ^^ n) (Inr ?st') =
      Inr (do_calls (replicate n (CallAccept (-1))) ?st')"
  proof (induction n)
    case (Suc n)
    have "accept_round sys a (do_calls (replicate n (CallAccept (-1))) ?st') =
        Inr (do_calls [CallAccept (-1)] (do_calls (replicate n (CallAccept (-1))) ?st'))"
      by (rule accept_closed [OF _ _ h(2) sys]) (use st2(4) h(1) in simp_all)
    then show ?case using Suc by (simp add: do_calls_def replicate_append_same)
  qed (simp add: do_calls_def)
  ultimately show ?thesis using st2 a(1) by auto
qed

lemma restart_spins_witness:
  "\<exists>st st'. serving = Inr st \<and> (run_accept_task ^^ 2) (fst (tcp_start (tcp_stop st))) = st' \<and> ts_socks st' = [] \<and>
    accept_round (net 0) 0 st' = Inr (do_calls [CallAccept (-1)] st')"
proof -
  obtain st where st: "serving = Inr st" "tcp_reached 0 st" "\<not> ts_isStop st" "ts_acceptWorker st = []" "ts_loops st = [0]" "ts_socks st = [0]"
    using serving_reached by blast
  have "sy_accept (net 0) (-1) = -1" by (simp add: net_def)
  from restart_spins [OF st(2,3,4) _ _ this, of 0 1] st show ?thesis by (auto simp: numeral_2_eq_2)
qed

end
