(* ===== verification/Thread.thy ===== *)
theory Thread
  imports CString "HOL-Library.AList"
begin

text \<open>
  \<^verbatim>\<open>src/include/thread.h\<close> and \<^verbatim>\<open>src/src/thread.cc\<close>: semaphores, locks with their scoped guards, and the thread
  object, whose constructor and the function that the new thread runs are two programs that interleave. A call
  that blocks is \<open>None\<close>.
\<close>

section \<open>Locks\<close>

text \<open>Unlocking a lock that nobody holds is undefined.\<close>

datatype lock_error = NotHeld | NoGuard

text \<open>\<open>Mutex\<close> and \<open>SpinLock\<close>.\<close>

record mutex =
  mx_held :: bool

definition Mutex_new :: mutex where
  "Mutex_new = \<lparr>mx_held = False\<rparr>"

definition mutex_lock :: "mutex \<Rightarrow> mutex option" where
  "mutex_lock m = (if mx_held m then None else Some (m\<lparr>mx_held := True\<rparr>))"

definition mutex_unlock :: "mutex \<Rightarrow> lock_error + mutex" where
  "mutex_unlock m = (if mx_held m then Inr (m\<lparr>mx_held := False\<rparr>) else Inl NotHeld)"

text \<open>
  \<open>RWMutex\<close>: any number of readers, or one writer. The code does not look at what the pthread calls return. So
  this is the lock between threads that do not hold it already: to a thread that asks again for a lock it has
  for writing the pthread call returns \<open>EDEADLK\<close> and the code goes on as if it had it, which is left out, as is the
  largest number of readers.
\<close>

record rwmutex =
  rw_readers :: nat
  rw_writer :: bool

definition RWMutex_new :: rwmutex where
  "RWMutex_new = \<lparr>rw_readers = 0, rw_writer = False\<rparr>"

definition rdlock :: "rwmutex \<Rightarrow> rwmutex option" where
  "rdlock m = (if rw_writer m then None else Some (m\<lparr>rw_readers := Suc (rw_readers m)\<rparr>))"

definition wrlock :: "rwmutex \<Rightarrow> rwmutex option" where
  "wrlock m = (if rw_writer m \<or> rw_readers m \<noteq> 0 then None else Some (m\<lparr>rw_writer := True\<rparr>))"

definition rw_unlock :: "rwmutex \<Rightarrow> lock_error + rwmutex" where
  "rw_unlock m =
     (if rw_writer m then Inr (m\<lparr>rw_writer := False\<rparr>)
      else if rw_readers m \<noteq> 0 then Inr (m\<lparr>rw_readers := rw_readers m - 1\<rparr>)
      else Inl NotHeld)"

section \<open>Guards\<close>

text \<open>
  The three templates differ in the method that takes the lock (\<open>lock\<close>, \<open>rdlock\<close>, \<open>wrlock\<close>). The flag is
  \<open>m_locked\<close>.
\<close>

definition guard_new :: "('m \<Rightarrow> 'm option) \<Rightarrow> 'm \<Rightarrow> ('m \<times> bool) option" where
  "guard_new take_lock m = map_option (\<lambda>m1. (m1, True)) (take_lock m)"

definition guard_lock :: "('m \<Rightarrow> 'm option) \<Rightarrow> 'm \<times> bool \<Rightarrow> ('m \<times> bool) option" where
  "guard_lock take_lock g = (if \<not> snd g then map_option (\<lambda>m1. (m1, True)) (take_lock (fst g)) else Some g)"

definition guard_unlock :: "('m \<Rightarrow> lock_error + 'm) \<Rightarrow> 'm \<times> bool \<Rightarrow> lock_error + 'm \<times> bool" where
  "guard_unlock unlock g =
     (if snd g then (case unlock (fst g) of Inl e \<Rightarrow> Inl e | Inr m1 \<Rightarrow> Inr (m1, False)) else Inr g)"

definition guard_delete :: "('m \<Rightarrow> lock_error + 'm) \<Rightarrow> 'm \<times> bool \<Rightarrow> lock_error + 'm" where
  "guard_delete unlock g = map_sum id fst (guard_unlock unlock g)"

text \<open>One lock and the guards on it, of any number of threads, each for reading or for writing.\<close>

datatype mode = Shared | Exclusive

record 'm guarded =
  gd_lock :: 'm
  gd_guards :: "(nat \<times> mode \<times> bool) list"

datatype guard_op = NewGuard nat mode | LockGuard nat | UnlockGuard nat | DeleteGuard nat

text \<open>A step of a guard, which has a name of its own; \<open>None\<close> when it blocks.\<close>

fun guard_step :: "(mode \<Rightarrow> 'm \<Rightarrow> 'm option) \<Rightarrow> ('m \<Rightarrow> lock_error + 'm) \<Rightarrow> guard_op \<Rightarrow> 'm guarded \<Rightarrow>
    (lock_error + 'm guarded) option" where
  "guard_step take_lock unlock (NewGuard g md) s =
     (if map_of (gd_guards s) g \<noteq> None then Some (Inl NoGuard) else
      map_option (\<lambda>(m, b). Inr \<lparr>gd_lock = m, gd_guards = AList.update g (md, b) (gd_guards s)\<rparr>) (guard_new (take_lock md) (gd_lock s)))"
| "guard_step take_lock unlock (LockGuard g) s =
     (case map_of (gd_guards s) g of None \<Rightarrow> Some (Inl NoGuard)
      | Some (md, b) \<Rightarrow> map_option (\<lambda>(m, b1). Inr \<lparr>gd_lock = m, gd_guards = AList.update g (md, b1) (gd_guards s)\<rparr>)
          (guard_lock (take_lock md) (gd_lock s, b)))"
| "guard_step take_lock unlock (UnlockGuard g) s =
     (case map_of (gd_guards s) g of None \<Rightarrow> Some (Inl NoGuard)
      | Some (md, b) \<Rightarrow> Some (map_sum id (\<lambda>(m, b1). \<lparr>gd_lock = m, gd_guards = AList.update g (md, b1) (gd_guards s)\<rparr>)
          (guard_unlock unlock (gd_lock s, b))))"
| "guard_step take_lock unlock (DeleteGuard g) s =
     (case map_of (gd_guards s) g of None \<Rightarrow> Some (Inl NoGuard)
      | Some (md, b) \<Rightarrow> Some (map_sum id (\<lambda>m. \<lparr>gd_lock = m, gd_guards = AList.delete g (gd_guards s)\<rparr>)
          (guard_delete unlock (gd_lock s, b))))"

text \<open>The locks of the code: \<open>ScopedLockImpl\<close>, and \<open>ReadScopedLockImpl\<close> and \<open>WriteScopedLockImpl\<close>.\<close>

fun mutex_take :: "mode \<Rightarrow> mutex \<Rightarrow> mutex option" where
  "mutex_take Shared m = None"
| "mutex_take Exclusive m = mutex_lock m"

fun rw_take :: "mode \<Rightarrow> rwmutex \<Rightarrow> rwmutex option" where
  "rw_take Shared m = rdlock m"
| "rw_take Exclusive m = wrlock m"

section \<open>Semaphores\<close>

record semaphore =
  sm_count :: u32

text \<open>\<open>sem_init\<close> refuses a count above \<open>SEM_VALUE_MAX\<close>, and the constructor throws.\<close>

definition Semaphore_new :: "u32 \<Rightarrow> semaphore option" where
  "Semaphore_new count = (if 0x7FFFFFFF < count then None else Some \<lparr>sm_count = count\<rparr>)"

text \<open>Exceptions, and what is worse.\<close>

datatype thread_error = UseAfterFree | NullCallback | LogicError

text \<open>
  \<open>wait\<close> blocks at zero and throws when \<open>::sem_wait\<close> returns an error \<open>rt\<close>, as it does when a signal handler
  interrupts it; \<open>notify\<close> throws when \<open>::sem_post\<close> fails, at the largest value.
\<close>

definition sem_wait :: "int \<Rightarrow> semaphore \<Rightarrow> (thread_error + semaphore) option" where
  "sem_wait rt s =
     (if rt \<noteq> 0 then Some (Inl LogicError)
      else if sm_count s = 0 then None else Some (Inr (s\<lparr>sm_count := sm_count s - 1\<rparr>)))"

definition sem_notify :: "semaphore \<Rightarrow> semaphore option" where
  "sem_notify s = (if sm_count s = 0x7FFFFFFF then None else Some (s\<lparr>sm_count := sm_count s + 1\<rparr>))"

section \<open>Thread objects\<close>

text \<open>
  The object that is made, and the thread that runs it. \<open>th_live\<close> says whether the object exists. The programs:
  the constructor, then what its owner does (\<open>join\<close>, \<open>~Thread\<close>); and \<open>run\<close>, whose callback is user code that
  may call \<open>SetName\<close>. \<open>t_thread\<close> and \<open>t_thread_name\<close> are those of the new thread, \<open>m_thread\<close> is the
  handle, \<open>None\<close> for 0.
\<close>

record 'cb thread =
  th_live :: bool
  th_thread :: "nat option"
  th_name :: str
  th_id :: int
  th_cb :: "'cb option"
  th_semaphore :: semaphore

datatype owner = Creating | Waiting | Owning | Threw | Deleted
datatype runner = NotRunning | SetsThis | SetsName | SetsId | SetsTitle | Swaps | Notifies | InCallback | Finished

record 'cb thread_world =
  tw_object :: "'cb thread"
  tw_owner :: owner
  tw_runner :: runner
  tw_this :: bool
  tw_thread_name :: str
  tw_title :: str
  tw_local_cb :: "'cb option"
  tw_calls :: "'cb list"
  tw_joined :: bool

definition UNKNOW_NAME :: str where
  "UNKNOW_NAME = lit ''UNKNOW''"

text \<open>The constructor up to \<open>pthread_create\<close>; a result other than 0 throws.\<close>

definition Thread_new :: "'cb \<Rightarrow> str \<Rightarrow> 'cb thread_world" where
  "Thread_new cb name =
     \<lparr>tw_object = \<lparr>th_live = True, th_thread = None, th_name = (if name = [] then UNKNOW_NAME else name), th_id = -1,
        th_cb = Some cb, th_semaphore = the (Semaphore_new 0)\<rparr>,
      tw_owner = Creating, tw_runner = NotRunning, tw_this = False, tw_thread_name = UNKNOW_NAME, tw_title = [],
      tw_local_cb = None, tw_calls = [], tw_joined = False\<rparr>"

definition thread_create :: "int \<Rightarrow> nat \<Rightarrow> 'cb thread_world \<Rightarrow> 'cb thread_world" where
  "thread_create rt handle w =
     (if rt \<noteq> 0 then w\<lparr>tw_owner := Threw, tw_object := (tw_object w)\<lparr>th_live := False\<rparr>\<rparr>
      else w\<lparr>tw_owner := Waiting, tw_runner := SetsThis, tw_object := (tw_object w)\<lparr>th_thread := Some handle\<rparr>\<rparr>)"

text \<open>
  The end of the constructor. When \<open>wait\<close> throws, so does the constructor: the members are destroyed and the
  memory is given back, while the new thread goes on; \<open>~Thread\<close> does not run, so the thread is not detached.
\<close>

definition thread_wait :: "int \<Rightarrow> 'cb thread_world \<Rightarrow> 'cb thread_world option" where
  "thread_wait rt w =
     (case sem_wait rt (th_semaphore (tw_object w)) of None \<Rightarrow> None
      | Some (Inl e) \<Rightarrow> Some (w\<lparr>tw_owner := Threw, tw_object := (tw_object w)\<lparr>th_live := False\<rparr>\<rparr>)
      | Some (Inr s) \<Rightarrow> Some (w\<lparr>tw_owner := Owning, tw_object := (tw_object w)\<lparr>th_semaphore := s\<rparr>\<rparr>))"

text \<open>
  \<open>join\<close> blocks until the thread has ended and throws when \<open>pthread_join\<close> returns an error; when it has
  succeeded, another one does nothing.
\<close>

definition thread_join :: "int \<Rightarrow> 'cb thread_world \<Rightarrow> (thread_error + 'cb thread_world) option" where
  "thread_join rt w =
     (case th_thread (tw_object w) of None \<Rightarrow> Some (Inr w)
      | Some _ \<Rightarrow> if rt \<noteq> 0 then Some (Inl LogicError)
          else if tw_runner w = Finished
          then Some (Inr (w\<lparr>tw_joined := True, tw_object := (tw_object w)\<lparr>th_thread := None\<rparr>\<rparr>)) else None)"

definition Thread_delete :: "'cb thread_world \<Rightarrow> 'cb thread_world" where
  "Thread_delete w = w\<lparr>tw_owner := Deleted, tw_object := (tw_object w)\<lparr>th_live := False, th_thread := None\<rparr>\<rparr>"

text \<open>\<open>run\<close>, statement by statement. A use of an object that is gone is an error.\<close>

definition with_object :: "'cb thread_world \<Rightarrow> ('cb thread \<Rightarrow> thread_error + 'cb thread_world) \<Rightarrow> thread_error + 'cb thread_world" where
  "with_object w f = (if th_live (tw_object w) then f (tw_object w) else Inl UseAfterFree)"

definition thread_run :: "int \<Rightarrow> 'cb thread_world \<Rightarrow> thread_error + 'cb thread_world" where
  "thread_run tid w =
     (case tw_runner w of
        NotRunning \<Rightarrow> Inr w
      | SetsThis \<Rightarrow> Inr (w\<lparr>tw_this := True, tw_runner := SetsName\<rparr>)
      | SetsName \<Rightarrow> with_object w (\<lambda>t. Inr (w\<lparr>tw_thread_name := th_name t, tw_runner := SetsId\<rparr>))
      | SetsId \<Rightarrow> with_object w (\<lambda>t. Inr (w\<lparr>tw_object := t\<lparr>th_id := tid\<rparr>, tw_runner := SetsTitle\<rparr>))
      | SetsTitle \<Rightarrow> with_object w (\<lambda>t. Inr (w\<lparr>tw_title := cstr (take 15 (th_name t)), tw_runner := Swaps\<rparr>))
      | Swaps \<Rightarrow> with_object w (\<lambda>t. Inr (w\<lparr>tw_local_cb := th_cb t, tw_object := t\<lparr>th_cb := None\<rparr>, tw_runner := Notifies\<rparr>))
      | Notifies \<Rightarrow> with_object w (\<lambda>t. (case sem_notify (th_semaphore t) of None \<Rightarrow> Inl LogicError
          | Some s \<Rightarrow> Inr (w\<lparr>tw_object := t\<lparr>th_semaphore := s\<rparr>, tw_runner := InCallback\<rparr>)))
      | InCallback \<Rightarrow> (case tw_local_cb w of None \<Rightarrow> Inl NullCallback
          | Some cb \<Rightarrow> Inr (w\<lparr>tw_calls := tw_calls w @ [cb], tw_runner := Finished\<rparr>))
      | Finished \<Rightarrow> Inr w)"

text \<open>\<open>SetName\<close>, called by the callback.\<close>

definition SetName :: "str \<Rightarrow> 'cb thread_world \<Rightarrow> thread_error + 'cb thread_world" where
  "SetName name w =
     (let w1 = w\<lparr>tw_thread_name := name\<rparr>
      in if tw_this w then with_object w1 (\<lambda>t. Inr (w1\<lparr>tw_object := t\<lparr>th_name := name\<rparr>\<rparr>)) else Inr w1)"

definition GetName :: "'cb thread_world \<Rightarrow> str" where
  "GetName w = tw_thread_name w"

definition thread_getId :: "'cb thread_world \<Rightarrow> int" where
  "thread_getId w = th_id (tw_object w)"

text \<open>The interleavings; \<open>None\<close> is a step that is not possible.\<close>

datatype thread_event = Create int nat | WaitStarted int | JoinThread int | DeleteThread | RunStep int | CallbackSetName str

definition thread_step :: "thread_event \<Rightarrow> 'cb thread_world \<Rightarrow> (thread_error + 'cb thread_world) option" where
  "thread_step e w =
     (case e of
        Create rt handle \<Rightarrow> if tw_owner w = Creating then Some (Inr (thread_create rt handle w)) else None
      | WaitStarted rt \<Rightarrow> if tw_owner w = Waiting then map_option Inr (thread_wait rt w) else None
      | JoinThread rt \<Rightarrow> if tw_owner w = Owning then thread_join rt w else None
      | DeleteThread \<Rightarrow> if tw_owner w = Owning then Some (Inr (Thread_delete w)) else None
      | RunStep tid \<Rightarrow> Some (thread_run tid w)
      | CallbackSetName name \<Rightarrow> if tw_runner w = InCallback then Some (SetName name w) else None)"

end
