(* ===== verification/Thread_Spec.thy ===== *)
theory Thread_Spec
  imports Thread
begin

text \<open>
  What the guards and the thread object promise: a lock is held by exactly the guards whose flag is set, so that
  readers and writers exclude each other and no lock is given back twice; and the constructor of a thread returns
  only when the thread is on its own.
\<close>

section \<open>Guards\<close>

text \<open>Counting the guards of one kind that hold the lock, in a list with one entry for each guard.\<close>

definition count_guards :: "mode \<Rightarrow> (nat \<times> mode \<times> bool) list \<Rightarrow> nat" where
  "count_guards md gs = length (filter (\<lambda>(g, x). x = (md, True)) gs)"

lemma count_update:
  "distinct (map fst gs) \<Longrightarrow>
   count_guards md (AList.update g x gs) + (if map_of gs g = Some (md, True) then 1 else 0) =
   count_guards md gs + (if x = (md, True) then 1 else 0)"
proof (induction gs)
  case (Cons p gs)
  obtain h y where p: "p = (h, y)" by (cases p)
  show ?case
  proof (cases "h = g")
    case True
    then show ?thesis using Cons.prems p by (auto simp: count_guards_def)
  next
    case False
    then show ?thesis using Cons p by (auto simp: count_guards_def)
  qed
qed (auto simp: count_guards_def)

lemma count_delete:
  "distinct (map fst gs) \<Longrightarrow>
   count_guards md (AList.delete g gs) + (if map_of gs g = Some (md, True) then 1 else 0) = count_guards md gs"
proof (induction gs)
  case (Cons p gs)
  obtain h y where p: "p = (h, y)" by (cases p)
  have "AList.delete g gs = gs" if "g \<notin> fst ` set gs" using that by (simp add: delete_id)
  then show ?case using Cons p by (cases "h = g") (auto simp: count_guards_def)
qed (auto simp: count_guards_def)

lemma count_positive: "(g, md, True) \<in> set gs \<Longrightarrow> 0 < count_guards md gs"
  by (induction gs) (auto simp: count_guards_def)

text \<open>The lock is held by exactly the guards that say so.\<close>

definition guards_ok :: "('m \<Rightarrow> nat) \<Rightarrow> ('m \<Rightarrow> nat) \<Rightarrow> 'm guarded \<Rightarrow> bool" where
  "guards_ok readers writers s \<longleftrightarrow> distinct (map fst (gd_guards s)) \<and>
     readers (gd_lock s) = count_guards Shared (gd_guards s) \<and> writers (gd_lock s) = count_guards Exclusive (gd_guards s) \<and>
     (writers (gd_lock s) = 0 \<or> writers (gd_lock s) = 1 \<and> readers (gd_lock s) = 0)"

text \<open>A guard is made under a new name, and used while it exists: what scopes give in C++.\<close>

fun scoped :: "'m guarded \<Rightarrow> guard_op \<Rightarrow> bool" where
  "scoped s (NewGuard g md) \<longleftrightarrow> map_of (gd_guards s) g = None"
| "scoped s (LockGuard g) \<longleftrightarrow> map_of (gd_guards s) g \<noteq> None"
| "scoped s (UnlockGuard g) \<longleftrightarrow> map_of (gd_guards s) g \<noteq> None"
| "scoped s (DeleteGuard g) \<longleftrightarrow> map_of (gd_guards s) g \<noteq> None"

text \<open>
  What a class of locks owes its guards: \<open>readers\<close> and \<open>writers\<close> count the holders, taking the lock adds one and
  happens only when it may, and a holder can give it back.
\<close>

locale lock_class =
  fixes take_lock :: "mode \<Rightarrow> 'm \<Rightarrow> 'm option" and unlock :: "'m \<Rightarrow> lock_error + 'm"
    and readers :: "'m \<Rightarrow> nat" and writers :: "'m \<Rightarrow> nat"
  assumes shared: "take_lock Shared m = Some m' \<Longrightarrow> writers m = 0 \<and> readers m' = Suc (readers m) \<and> writers m' = 0"
    and exclusive: "take_lock Exclusive m = Some m' \<Longrightarrow> writers m = 0 \<and> readers m = 0 \<and> readers m' = 0 \<and> writers m' = 1"
    and unlock_writer: "writers m = 1 \<Longrightarrow> readers m = 0 \<Longrightarrow> \<exists>m'. unlock m = Inr m' \<and> readers m' = 0 \<and> writers m' = 0"
    and unlock_reader: "writers m = 0 \<Longrightarrow> readers m = Suc n \<Longrightarrow> \<exists>m'. unlock m = Inr m' \<and> readers m' = n \<and> writers m' = 0"
begin

lemma taken:
  assumes ok: "guards_ok readers writers s" and free: "\<forall>x. map_of (gd_guards s) g \<noteq> Some (x, True)"
    and t: "take_lock md (gd_lock s) = Some m"
  shows "guards_ok readers writers \<lparr>gd_lock = m, gd_guards = AList.update g (md, True) (gd_guards s)\<rparr>"
proof -
  have d: "distinct (map fst (gd_guards s))" using ok by (simp add: guards_ok_def)
  have c: "count_guards x (AList.update g (md, True) (gd_guards s)) = count_guards x (gd_guards s) + (if x = md then 1 else 0)" for x
    using count_update [OF d, of x g "(md, True)"] free by (auto split: if_splits)
  show ?thesis
  proof (cases md)
    case Shared
    then show ?thesis using ok c shared [of "gd_lock s" m] t d by (auto simp: guards_ok_def distinct_update)
  next
    case Exclusive
    then show ?thesis using ok c exclusive [of "gd_lock s" m] t d by (auto simp: guards_ok_def distinct_update)
  qed
qed

lemma given_back:
  assumes ok: "guards_ok readers writers s" and g: "map_of (gd_guards s) g = Some (md, True)"
  shows "\<exists>m. unlock (gd_lock s) = Inr m \<and> readers m = count_guards Shared (gd_guards s) - (if md = Shared then 1 else 0) \<and>
    writers m = count_guards Exclusive (gd_guards s) - (if md = Exclusive then 1 else 0) \<and> (writers m = 0)"
proof -
  have p: "0 < count_guards md (gd_guards s)" using count_positive [of g md] map_of_SomeD [OF g] by simp
  show ?thesis
  proof (cases md)
    case Shared
    then obtain n where n: "readers (gd_lock s) = Suc n" "writers (gd_lock s) = 0"
      using p ok by (cases "readers (gd_lock s)") (auto simp: guards_ok_def)
    then show ?thesis using unlock_reader [OF n(2,1)] Shared ok by (auto simp: guards_ok_def)
  next
    case Exclusive
    then have n: "writers (gd_lock s) = 1" "readers (gd_lock s) = 0" using p ok by (auto simp: guards_ok_def)
    then show ?thesis using unlock_writer [OF n] Exclusive ok by (auto simp: guards_ok_def)
  qed
qed

text \<open>No scoped step goes wrong, and each keeps the account.\<close>

lemma guard_step_ok:
  assumes ok: "guards_ok readers writers s" and sc: "scoped s e" and st: "guard_step take_lock unlock e s = Some r"
  shows "\<exists>s'. r = Inr s' \<and> guards_ok readers writers s'"
proof -
  have d: "distinct (map fst (gd_guards s))" using ok by (simp add: guards_ok_def)
  have flag: "guards_ok readers writers \<lparr>gd_lock = gd_lock s, gd_guards = AList.update g (md, False) (gd_guards s)\<rparr>"
    if "map_of (gd_guards s) g = Some (md, False)" for g md
    using ok count_update [OF d, of Shared g "(md, False)"] count_update [OF d, of Exclusive g "(md, False)"] that d
    by (auto simp: guards_ok_def distinct_update)
  have same: "AList.update g (md, b) (gd_guards s) = gd_guards s" if "map_of (gd_guards s) g = Some (md, b)" for g md b
    using that by (simp add: update_triv)
  show ?thesis
  proof (cases e)
    case (NewGuard g md)
    then show ?thesis using sc st taken [OF ok, of g md] by (auto simp: guard_new_def)
  next
    case (LockGuard g)
    then obtain md b where m: "map_of (gd_guards s) g = Some (md, b)" using sc by auto
    show ?thesis
    proof (cases b)
      case True
      then show ?thesis using LockGuard m st same [OF m] ok by (cases s) (auto simp: guard_lock_def)
    next
      case False
      then show ?thesis using LockGuard m st taken [OF ok, of g md] by (auto simp: guard_lock_def)
    qed
  next
    case (UnlockGuard g)
    then obtain md b where m: "map_of (gd_guards s) g = Some (md, b)" using sc by auto
    show ?thesis
    proof (cases b)
      case False
      then show ?thesis using UnlockGuard m st flag [of g md] by (auto simp: guard_unlock_def)
    next
      case True
      then obtain l where "unlock (gd_lock s) = Inr l" "readers l = count_guards Shared (gd_guards s) - (if md = Shared then 1 else 0)"
        "writers l = count_guards Exclusive (gd_guards s) - (if md = Exclusive then 1 else 0)" "writers l = 0"
        using given_back [OF ok, of g md] m by auto
      then show ?thesis
        using UnlockGuard True m st d count_update [OF d, of Shared g "(md, False)"] count_update [OF d, of Exclusive g "(md, False)"]
        by (cases md) (auto simp: guard_unlock_def guards_ok_def distinct_update)
    qed
  next
    case (DeleteGuard g)
    then obtain md b where m: "map_of (gd_guards s) g = Some (md, b)" using sc by auto
    show ?thesis
    proof (cases b)
      case False
      then show ?thesis using DeleteGuard m st ok d count_delete [OF d, of Shared g] count_delete [OF d, of Exclusive g]
        by (auto simp: guard_delete_def guard_unlock_def guards_ok_def distinct_delete)
    next
      case True
      then obtain l where "unlock (gd_lock s) = Inr l" "readers l = count_guards Shared (gd_guards s) - (if md = Shared then 1 else 0)"
        "writers l = count_guards Exclusive (gd_guards s) - (if md = Exclusive then 1 else 0)" "writers l = 0"
        using given_back [OF ok, of g md] m by auto
      then show ?thesis
        using DeleteGuard True m st d count_delete [OF d, of Shared g] count_delete [OF d, of Exclusive g]
        by (cases md) (auto simp: guard_delete_def guard_unlock_def guards_ok_def distinct_delete)
    qed
  qed
qed

end

interpretation mx: lock_class mutex_take mutex_unlock "\<lambda>_. 0" "\<lambda>m. if mx_held m then 1 else 0"
  by unfold_locales (auto simp: mutex_lock_def mutex_unlock_def split: if_splits)

interpretation rw: lock_class rw_take rw_unlock rw_readers "\<lambda>m. if rw_writer m then 1 else 0"
  by unfold_locales (auto simp: rdlock_def wrlock_def rw_unlock_def split: if_splits)

text \<open>What any threads can do with scoped guards on one lock.\<close>

inductive guards_reached :: "(mode \<Rightarrow> 'm \<Rightarrow> 'm option) \<Rightarrow> ('m \<Rightarrow> lock_error + 'm) \<Rightarrow> 'm \<Rightarrow> 'm guarded \<Rightarrow> bool"
  for take_lock :: "mode \<Rightarrow> 'm \<Rightarrow> 'm option" and unlock :: "'m \<Rightarrow> lock_error + 'm" and m :: 'm where
  gr_new: "guards_reached take_lock unlock m \<lparr>gd_lock = m, gd_guards = []\<rparr>"
| gr_step: "guards_reached take_lock unlock m s \<Longrightarrow> scoped s e \<Longrightarrow> guard_step take_lock unlock e s = Some (Inr s') \<Longrightarrow>
    guards_reached take_lock unlock m s'"

lemma rw_reached_ok: "guards_reached rw_take rw_unlock RWMutex_new s \<Longrightarrow> guards_ok rw_readers (\<lambda>m. if rw_writer m then 1 else 0) s"
proof (induction rule: guards_reached.induct)
  case gr_new
  show ?case by (simp add: guards_ok_def RWMutex_new_def count_guards_def)
next
  case (gr_step s e s')
  then show ?case using rw.guard_step_ok by blast
qed

lemma mutex_reached_ok: "guards_reached mutex_take mutex_unlock Mutex_new s \<Longrightarrow> guards_ok (\<lambda>_. 0) (\<lambda>m. if mx_held m then 1 else 0) s"
proof (induction rule: guards_reached.induct)
  case gr_new
  show ?case by (simp add: guards_ok_def Mutex_new_def count_guards_def)
next
  case (gr_step s e s')
  then show ?case using mx.guard_step_ok by blast
qed

lemma one_counted: "count_guards md gs \<le> 1 \<Longrightarrow> (g, md, True) \<in> set gs \<Longrightarrow> (h, md, True) \<in> set gs \<Longrightarrow> distinct (map fst gs) \<Longrightarrow> g = h"
proof (induction gs)
  case (Cons p gs)
  then show ?case using count_positive [of g md gs] count_positive [of h md gs] by (auto simp: count_guards_def split: if_splits)
qed simp

text \<open>
  C16: However threads make, use and leave scopes with \<open>ReadLock\<close>s and \<open>WriteLock\<close>s of one \<open>RWMutex\<close>: a writer
  that holds it is alone, the lock is free exactly when no guard holds it, and every operation of a guard either
  blocks or ends, never giving back a lock that is not held.
\<close>

theorem guards_exclude:
  assumes "guards_reached rw_take rw_unlock RWMutex_new s"
  shows "(\<forall>g h md. (g, Exclusive, True) \<in> set (gd_guards s) \<longrightarrow> (h, md, True) \<in> set (gd_guards s) \<longrightarrow> g = h) \<and>
    (gd_lock s = RWMutex_new \<longleftrightarrow> (\<forall>g md. (g, md, True) \<notin> set (gd_guards s))) \<and>
    (\<forall>e r. scoped s e \<longrightarrow> guard_step rw_take rw_unlock e s = Some r \<longrightarrow> (\<exists>s'. r = Inr s'))"
proof (intro conjI allI impI)
  have ok: "guards_ok rw_readers (\<lambda>m. if rw_writer m then 1 else 0) s" using assms by (rule rw_reached_ok)
  fix g h md assume gh: "(g, Exclusive, True) \<in> set (gd_guards s)" "(h, md, True) \<in> set (gd_guards s)"
  then have "count_guards Exclusive (gd_guards s) \<le> 1" "md = Exclusive"
    using ok count_positive [of g Exclusive "gd_guards s"] count_positive [of h md "gd_guards s"]
    by (cases md; auto simp: guards_ok_def split: if_splits)+
  then show "g = h" using one_counted [of Exclusive "gd_guards s" g h] gh ok by (simp add: guards_ok_def)
next
  have ok: "guards_ok rw_readers (\<lambda>m. if rw_writer m then 1 else 0) s" using assms by (rule rw_reached_ok)
  have none: "count_guards md gs = 0 \<longleftrightarrow> (\<forall>g. (g, md, True) \<notin> set gs)" for md and gs :: "(nat \<times> mode \<times> bool) list"
    by (auto simp: count_guards_def filter_empty_conv)
  have "gd_lock s = RWMutex_new \<longleftrightarrow> rw_readers (gd_lock s) = 0 \<and> \<not> rw_writer (gd_lock s)"
    by (cases "gd_lock s") (auto simp: RWMutex_new_def)
  also have "\<dots> \<longleftrightarrow> count_guards Shared (gd_guards s) = 0 \<and> count_guards Exclusive (gd_guards s) = 0"
    using ok by (auto simp: guards_ok_def split: if_splits)
  also have "\<dots> \<longleftrightarrow> (\<forall>g md. (g, md, True) \<notin> set (gd_guards s))" unfolding none by (metis mode.exhaust)
  finally show "gd_lock s = RWMutex_new \<longleftrightarrow> (\<forall>g md. (g, md, True) \<notin> set (gd_guards s))" .
next
  fix e r assume "scoped s e" "guard_step rw_take rw_unlock e s = Some r"
  then show "\<exists>s'. r = Inr s'" using rw.guard_step_ok [OF rw_reached_ok [OF assms]] by blast
qed

lemma two_readers: "guards_reached rw_take rw_unlock RWMutex_new
   \<lparr>gd_lock = \<lparr>rw_readers = 2, rw_writer = False\<rparr>, gd_guards = [(0, Shared, True), (1, Shared, True)]\<rparr>"
proof -
  have a: "guards_reached rw_take rw_unlock RWMutex_new \<lparr>gd_lock = \<lparr>rw_readers = 1, rw_writer = False\<rparr>, gd_guards = [(0, Shared, True)]\<rparr>"
    by (rule gr_step [OF gr_new, where e = "NewGuard 0 Shared"]) (simp_all add: guard_new_def rdlock_def RWMutex_new_def)
  show ?thesis
    by (rule gr_step [OF a, where e = "NewGuard 1 Shared"]) (simp_all add: guard_new_def rdlock_def)
qed

lemma guards_exclude_witness:
  "(2, Exclusive, True) \<notin> set (gd_guards \<lparr>gd_lock = \<lparr>rw_readers = 2, rw_writer = False\<rparr>, gd_guards = [(0, Shared, True), (1, Shared, True)]\<rparr>) \<and>
   \<lparr>rw_readers = 2, rw_writer = False\<rparr> \<noteq> RWMutex_new"
  using guards_exclude [OF two_readers] by auto

section \<open>The start of a thread\<close>

text \<open>Where the two programs can be together, and what each has done by then.\<close>

definition before_swap :: "runner \<Rightarrow> bool" where
  "before_swap r \<longleftrightarrow> r \<in> {NotRunning, SetsThis, SetsName, SetsId, SetsTitle, Swaps}"

definition on_its_own :: "runner \<Rightarrow> bool" where
  "on_its_own r \<longleftrightarrow> r \<in> {InCallback, Finished}"

definition owner_ok :: "'cb thread_world \<Rightarrow> bool" where
  "owner_ok w \<longleftrightarrow>
     (case tw_owner w of
        Creating \<Rightarrow> th_live (tw_object w) \<and> tw_runner w = NotRunning \<and> sm_count (th_semaphore (tw_object w)) = 0
      | Waiting \<Rightarrow> th_live (tw_object w) \<and> tw_runner w \<noteq> NotRunning \<and>
          sm_count (th_semaphore (tw_object w)) = (if on_its_own (tw_runner w) then 1 else 0)
      | Owning \<Rightarrow> th_live (tw_object w) \<and> on_its_own (tw_runner w)
      | Threw \<Rightarrow> \<not> th_live (tw_object w)
      | Deleted \<Rightarrow> on_its_own (tw_runner w))"

definition runner_ok :: "int \<Rightarrow> 'cb \<Rightarrow> 'cb thread_world \<Rightarrow> bool" where
  "runner_ok tid cb w \<longleftrightarrow>
     (if before_swap (tw_runner w) then th_cb (tw_object w) = Some cb else tw_local_cb w = Some cb \<and> th_cb (tw_object w) = None) \<and>
     (tw_runner w \<in> {SetsTitle, Swaps, Notifies, InCallback, Finished} \<longrightarrow> th_id (tw_object w) = tid) \<and>
     tw_calls w = (if tw_runner w = Finished then [cb] else []) \<and> (tw_joined w \<longrightarrow> tw_runner w = Finished)"

inductive thread_reached :: "int \<Rightarrow> 'cb \<Rightarrow> str \<Rightarrow> 'cb thread_world \<Rightarrow> bool" for tid cb name where
  tr_new: "thread_reached tid cb name (Thread_new cb name)"
| tr_step: "thread_reached tid cb name w \<Longrightarrow> (\<forall>i. e = RunStep i \<longrightarrow> i = tid) \<Longrightarrow> thread_step e w = Some (Inr w') \<Longrightarrow>
    thread_reached tid cb name w'"

lemmas thread_defs = owner_ok_def runner_ok_def before_swap_def on_its_own_def thread_step_def with_object_def
  thread_create_def thread_wait_def thread_join_def Thread_delete_def SetName_def sem_wait_def sem_notify_def Let_def

lemma run_step_ok:
  assumes "owner_ok w" "runner_ok tid cb w"
  shows "(\<exists>w'. thread_run tid w = Inr w' \<and> owner_ok w' \<and> runner_ok tid cb w') \<or>
    (thread_run tid w = Inl UseAfterFree \<and> tw_owner w = Threw \<and> tw_runner w \<noteq> NotRunning)"
  using assms by (cases "tw_runner w"; cases "tw_owner w") (simp_all add: thread_run_def thread_defs)

lemma thread_step_ok:
  assumes ok: "owner_ok w" "runner_ok tid cb w" and e: "\<forall>i. e = RunStep i \<longrightarrow> i = tid" and st: "thread_step e w = Some r"
  shows "(\<exists>w'. r = Inr w' \<and> owner_ok w' \<and> runner_ok tid cb w') \<or>
    (r = Inl UseAfterFree \<and> (\<exists>n. e = CallbackSetName n) \<and> tw_owner w = Deleted) \<or>
    (r = Inl UseAfterFree \<and> tw_owner w = Threw \<and> tw_runner w \<noteq> NotRunning) \<or>
    (r = Inl LogicError \<and> (\<exists>rt. e = JoinThread rt \<and> rt \<noteq> 0))"
proof (cases e)
  case (Create rt handle)
  then have "r = Inr (thread_create rt handle w)" "tw_owner w = Creating" using st by (auto simp: thread_step_def split: if_splits)
  moreover from this(2) have "owner_ok (thread_create rt handle w) \<and> runner_ok tid cb (thread_create rt handle w)"
    using ok by (simp add: thread_defs)
  ultimately show ?thesis by blast
next
  case (WaitStarted rt)
  then obtain w' where w': "r = Inr w'" "thread_wait rt w = Some w'" "tw_owner w = Waiting" using st by (auto simp: thread_step_def split: if_splits)
  let ?t = "tw_object w"
  have "w' = w\<lparr>tw_owner := Threw, tw_object := ?t\<lparr>th_live := False\<rparr>\<rparr> \<or> sm_count (th_semaphore ?t) \<noteq> 0 \<and>
      (\<exists>s. w' = w\<lparr>tw_owner := Owning, tw_object := ?t\<lparr>th_semaphore := s\<rparr>\<rparr>)"
    using w'(2) by (auto simp: thread_wait_def sem_wait_def split: if_splits)
  then have "owner_ok w' \<and> runner_ok tid cb w'"
  proof (elim disjE conjE exE)
    assume "w' = w\<lparr>tw_owner := Threw, tw_object := ?t\<lparr>th_live := False\<rparr>\<rparr>"
    then show ?thesis using ok by (simp add: owner_ok_def runner_ok_def)
  next
    fix s assume "sm_count (th_semaphore ?t) \<noteq> 0" "w' = w\<lparr>tw_owner := Owning, tw_object := ?t\<lparr>th_semaphore := s\<rparr>\<rparr>"
    then show ?thesis using ok w'(3) by (simp add: owner_ok_def runner_ok_def split: if_splits)
  qed
  then show ?thesis using w'(1) by blast
next
  case (JoinThread rt)
  then have j: "thread_join rt w = Some r" "tw_owner w = Owning" using st by (auto simp: thread_step_def split: if_splits)
  show ?thesis
  proof (cases r)
    case (Inl err)
    then show ?thesis using j(1) JoinThread by (auto simp: thread_join_def split: option.splits if_splits)
  next
    case (Inr w')
    then have "owner_ok w' \<and> runner_ok tid cb w'" using ok j by (auto simp: thread_defs split: if_splits option.splits)
    then show ?thesis using Inr by blast
  qed
next
  case DeleteThread
  then have "r = Inr (Thread_delete w)" "tw_owner w = Owning" using st by (auto simp: thread_step_def split: if_splits)
  moreover from this(2) have "owner_ok (Thread_delete w) \<and> runner_ok tid cb (Thread_delete w)" using ok by (simp add: thread_defs)
  ultimately show ?thesis by blast
next
  case (RunStep i)
  then show ?thesis using run_step_ok [OF ok] e st by (auto simp: thread_step_def)
next
  case (CallbackSetName n)
  then have r: "r = SetName n w" "tw_runner w = InCallback" using st by (auto simp: thread_step_def split: if_splits)
  show ?thesis
  proof (cases "\<exists>w'. SetName n w = Inr w'")
    case True
    then obtain w' where w': "SetName n w = Inr w'" by blast
    then have "owner_ok w' \<and> runner_ok tid cb w'" using ok r(2) by (cases "tw_owner w") (auto simp: thread_defs split: if_splits)
    then show ?thesis using w' r(1) by blast
  next
    case False
    then have "SetName n w = Inl UseAfterFree" "\<not> th_live (tw_object w)" by (auto simp: SetName_def with_object_def Let_def split: if_splits)
    moreover from this(2) have "tw_owner w = Deleted \<or> tw_owner w = Threw" using ok(1) r(2) by (cases "tw_owner w") (auto simp: owner_ok_def)
    ultimately show ?thesis using r CallbackSetName by auto
  qed
qed

lemma thread_reached_ok: "thread_reached tid cb name w \<Longrightarrow> owner_ok w \<and> runner_ok tid cb w"
proof (induction rule: thread_reached.induct)
  case tr_new
  show ?case by (simp add: thread_defs Thread_new_def Semaphore_new_def)
next
  case (tr_step w e w')
  then show ?case using thread_step_ok [of w tid cb e "Inr w'"] by auto
qed

text \<open>
  C17: In every interleaving of the constructor of a \<open>Thread\<close>, of what its owner does with it and of the new thread,
  system calls failing as they like: when the constructor has returned the object has the identifier of the thread and
  the thread has the callback; the callback runs once, and has run when \<open>join\<close> returns. Two things can go wrong with
  the memory: the object is destroyed and the callback then calls \<open>SetName\<close>, which writes to the object that is gone; or
  the constructor throws when the thread already runs, because \<open>sem_wait\<close> has failed, and the thread goes on with the
  object that is gone. Otherwise only a \<open>join\<close> whose \<open>pthread_join\<close> fails throws.
\<close>

theorem thread_handshake:
  assumes "thread_reached tid cb name w"
  shows "(tw_owner w = Owning \<longrightarrow> thread_getId w = tid \<and> th_cb (tw_object w) = None \<and> tw_local_cb w = Some cb) \<and>
    tw_calls w = (if tw_runner w = Finished then [cb] else []) \<and> (tw_joined w \<longrightarrow> tw_calls w = [cb]) \<and>
    (\<forall>e err. (\<forall>i. e = RunStep i \<longrightarrow> i = tid) \<longrightarrow> thread_step e w = Some (Inl err) \<longrightarrow>
      err = UseAfterFree \<and> tw_owner w = Deleted \<and> (\<exists>n. e = CallbackSetName n) \<or>
      err = UseAfterFree \<and> tw_owner w = Threw \<and> tw_runner w \<noteq> NotRunning \<or>
      err = LogicError \<and> (\<exists>rt. e = JoinThread rt \<and> rt \<noteq> 0))"
proof (intro conjI allI impI)
  have ok: "owner_ok w" "runner_ok tid cb w" using thread_reached_ok [OF assms] by auto
  show "thread_getId w = tid" "th_cb (tw_object w) = None" "tw_local_cb w = Some cb" if "tw_owner w = Owning"
    using ok that by (auto simp: thread_getId_def owner_ok_def runner_ok_def on_its_own_def before_swap_def)
  show "tw_calls w = (if tw_runner w = Finished then [cb] else [])" using ok(2) by (simp add: runner_ok_def)
  show "tw_calls w = [cb]" if "tw_joined w" using ok(2) that by (simp add: runner_ok_def)
  fix e err assume "\<forall>i. e = RunStep i \<longrightarrow> i = tid" "thread_step e w = Some (Inl err)"
  from thread_step_ok [OF ok this]
  show "err = UseAfterFree \<and> tw_owner w = Deleted \<and> (\<exists>n. e = CallbackSetName n) \<or>
      err = UseAfterFree \<and> tw_owner w = Threw \<and> tw_runner w \<noteq> NotRunning \<or>
      err = LogicError \<and> (\<exists>rt. e = JoinThread rt \<and> rt \<noteq> 0)" by auto
qed

text \<open>Runs that end there.\<close>

fun thread_run_all :: "thread_event list \<Rightarrow> 'cb thread_world \<Rightarrow> (thread_error + 'cb thread_world) option" where
  "thread_run_all [] w = Some (Inr w)"
| "thread_run_all (e # es) w = (case thread_step e w of Some (Inr w1) \<Rightarrow> thread_run_all es w1 | r \<Rightarrow> r)"

lemma run_all_reached:
  "thread_run_all es w = Some (Inr w') \<Longrightarrow> thread_reached tid cb name w \<Longrightarrow> \<forall>i. RunStep i \<in> set es \<longrightarrow> i = tid \<Longrightarrow>
   thread_reached tid cb name w'"
proof (induction es arbitrary: w)
  case (Cons e es)
  then obtain w1 where w1: "thread_step e w = Some (Inr w1)" "thread_run_all es w1 = Some (Inr w')"
    by (auto split: option.splits sum.splits)
  then show ?case using Cons.IH [OF w1(2)] tr_step [OF Cons.prems(2) _ w1(1)] Cons.prems(3) by auto
qed simp

definition handed_over :: "thread_event list" where
  "handed_over = [Create 0 9, RunStep 4, RunStep 4, RunStep 4, RunStep 4, RunStep 4, RunStep 4, WaitStarted 0]"

lemma thread_handshake_witness:
  "\<exists>w. thread_run_all handed_over (Thread_new (7::nat) (lit ''worker'')) = Some (Inr w) \<and> thread_getId w = 4 \<and>
     tw_local_cb w = Some 7 \<and> tw_calls w = [] \<and>
     thread_run_all [DeleteThread, CallbackSetName (lit ''x'')] w = Some (Inl UseAfterFree)"
proof -
  have "thread_run_all handed_over (Thread_new (7::nat) (lit ''worker'')) \<noteq> None \<and>
    (\<exists>w. thread_run_all handed_over (Thread_new (7::nat) (lit ''worker'')) = Some (Inr w) \<and> tw_owner w = Owning \<and>
       tw_runner w = InCallback \<and> tw_this w)"
    by (simp add: handed_over_def thread_step_def thread_create_def thread_run_def with_object_def thread_wait_def
        sem_wait_def sem_notify_def Thread_new_def Semaphore_new_def lit_def)
  then obtain w where w: "thread_run_all handed_over (Thread_new (7::nat) (lit ''worker'')) = Some (Inr w)" "tw_owner w = Owning"
    "tw_runner w = InCallback" "tw_this w" by blast
  have r: "thread_reached 4 7 (lit ''worker'') w"
    by (rule run_all_reached [OF w(1) tr_new]) (auto simp: handed_over_def)
  have "thread_run_all [DeleteThread, CallbackSetName (lit ''x'')] w = Some (Inl UseAfterFree)"
    using w(2-4) by (simp add: thread_step_def Thread_delete_def SetName_def with_object_def)
  then show ?thesis using w thread_handshake [OF r] by auto
qed

text \<open>A signal that interrupts the wait of the constructor: the thread reads the name of an object that is gone.\<close>

lemma failed_wait_frees:
  "thread_run_all [Create 0 9, RunStep 4, WaitStarted (- 1), RunStep 4] (Thread_new cb name) = Some (Inl UseAfterFree)"
  by (simp add: thread_step_def thread_create_def thread_run_def with_object_def thread_wait_def sem_wait_def Thread_new_def)

end
