(* ===== verification/Spec2Isabelle.thy ===== *)
theory Spec2Isabelle
  imports ByteArray_Spec Timer_Spec Fiber_Spec Scheduler_Spec IOManager_Spec Http11_Spec HttpClient_Spec Uri_Spec HttpServer_Spec
    Hook_Spec LogFormat_Spec LogConfig_Spec LogReload Config_Spec Address_Spec
    UriAddress TcpServer_Spec Thread_Spec
begin

text \<open>
  A verification development for co_lib, a C++ library of fibers, schedulers, asynchronous I/O and HTTP.

  \<^bold>\<open>The program.\<close> A \<open>Scheduler\<close> runs \<open>Fiber\<close>s on a pool of threads. An \<open>IOManager\<close> is a scheduler and a
  \<open>TimerManager\<close> around \<open>epoll\<close>: a fiber that waits for a descriptor is parked in the event table and scheduled
  again when the event or a timer comes. The hooks put this under the system calls, so that a \<open>Socket\<close> written with
  blocking calls yields instead; \<open>FdManager\<close> remembers what the hooks know of a descriptor. A \<open>TcpServer\<close> binds
  sockets to \<open>Address\<close>es and accepts in fibers; an \<open>HttpServer\<close> serves each connection with an \<open>HttpSession\<close>, the
  generated parsers and a \<open>ServletDispatch\<close>. \<open>ByteArray\<close> is a byte queue, \<open>Uri\<close> a parser of URIs. \<open>Config\<close> holds
  named variables that YAML documents are loaded into; \<open>Logger\<close>s write events to appenders and take their own
  definitions from the variable \<open>logs\<close>, through a listener.

  \<^bold>\<open>Theories and sources\<close> (below \<^verbatim>\<open>src/src\<close> and \<^verbatim>\<open>src/include\<close>). Theories with definitions keep the names of
  the code; the theories named \<open>X_Spec\<close> hold what is proved of \<open>X\<close>.
    \<^item> \<open>Prelude\<close>, \<open>CString\<close>, \<open>StdOrdered\<close>, \<open>StrOrder\<close>: machine integers, the C functions on strings, \<^verbatim>\<open>std::set\<close> and
      \<^verbatim>\<open>std::map\<close> as sorted lists with the locales \<open>strict_weak\<close> and \<open>strict_total\<close> for their orders, interpreted on
      the comparators of the code (timers, names, definitions of loggers).
    \<^item> \<open>ByteArray\<close>, with \<open>_Layout\<close>, \<open>_Write\<close>, \<open>_Read\<close>, \<open>_Buffers\<close>, \<open>_Spec\<close>: \<^verbatim>\<open>bytearray.cc\<close>. The blocks are a heap;
      the lemmas relate it to the list of unread bytes, which writes append to and reads take from.
    \<^item> \<open>Timer\<close>, \<open>Timer_Queue\<close>, \<open>Timer_Spec\<close>: \<^verbatim>\<open>timer.cc\<close>. The queue is ordered; expiry returns exactly the due timers.
      The first test of \<open>reset\<close> is made without the lock, so the part under it is a step of its own.
    \<^item> \<open>Fiber\<close>, \<open>Fiber_Spec\<close>: \<^verbatim>\<open>fiber.cc\<close>, the switches of one thread. \<open>Scheduler\<close>, \<open>_Inv\<close>, \<open>_Steps\<close>, \<open>_Spec\<close>:
      \<^verbatim>\<open>scheduler.cc\<close>, with the loops of all threads interleaved between their atomic sections.
    \<^item> \<open>IOManager\<close>, \<open>_Inv\<close>, \<open>_Spec\<close>: \<^verbatim>\<open>iomanager.cc\<close>. \<open>addEvent\<close> is three sections, which look, grow the table and add
      under three different locks; calls of other threads can come between them. \<open>FdManager\<close>: \<^verbatim>\<open>fd_manager.cc\<close>.
      \<open>Hook\<close>, \<open>Hook_Spec\<close>: \<^verbatim>\<open>hook.cc\<close>, a hooked call as a coroutine over the I/O manager, its timers and the table of
      descriptors; its timer is armed in one step and its event registered in the next.
    \<^item> \<open>Ragel\<close>, \<open>Http11_Table\<close>, \<open>Http11\<close>, \<open>HttpClient_Table\<close>, \<open>HttpClient\<close>, \<open>Uri_Table\<close>, \<open>Uri\<close>: the three generated
      state machines, block by block as tables of character ranges, and the code around them
      (\<^verbatim>\<open>http-parser/http11_parser.cc\<close>, \<^verbatim>\<open>http-parser/httpclient_parser.cc\<close>, \<^verbatim>\<open>uri.cc\<close>).
    \<^item> \<open>Http\<close> (\<^verbatim>\<open>http/http.cc\<close>), \<open>HttpParser\<close>, \<open>HttpParser_Run\<close> (\<^verbatim>\<open>http-parser/http_parser.cc\<close>), \<open>HttpSession\<close>
      (\<^verbatim>\<open>http/http_session.cc\<close>), \<open>HttpServer\<close> (\<^verbatim>\<open>http/servlet.cc\<close>, \<^verbatim>\<open>http/http_server.cc\<close>).
    \<^item> \<open>Address\<close> (\<^verbatim>\<open>address.cc\<close>), \<open>UriAddress\<close> (\<^verbatim>\<open>Uri::createAddress\<close>), \<open>Socket\<close> (\<^verbatim>\<open>socket.cc\<close>), \<open>TcpServer\<close>
      (\<^verbatim>\<open>tcp_server.cc\<close>): sockets in a store, the tasks of the two managers as queues, the test of an accept loop and
      the return of \<open>accept\<close> as steps. \<open>TcpServer_Spec\<close> has the invariant of the store (\<open>held\<close>) and its preservation.
    \<^item> \<open>Thread\<close>, \<open>Thread_Spec\<close>: \<^verbatim>\<open>thread.h\<close>, \<^verbatim>\<open>thread.cc\<close>. Guards on locks, with the locale \<open>lock_class\<close> interpreted on both
      kinds of locks; the constructor of a thread interleaved with the new thread.
    \<^item> \<open>Yaml\<close>: the interface to yaml-cpp, a record of functions with the laws that round trips need. \<open>Config\<close>
      (\<^verbatim>\<open>config.h\<close>, \<^verbatim>\<open>config.cc\<close>): variables in a store, listeners as functions on the state they change.
    \<^item> \<open>LogFormat\<close>, \<open>Log\<close>, \<open>LogConfig\<close>, \<open>LogReload\<close> (\<^verbatim>\<open>log.cc\<close>, \<^verbatim>\<open>log.h\<close>): the formatter; appenders, loggers and the
      manager; the definitions of loggers and their listener; the listener in the table of the configuration. The
      locale \<open>appender_contract\<close> is the contract of the virtual method of appenders, interpreted on both kinds.

  \<^bold>\<open>What is proved.\<close> Invariants that every operation keeps (byte array, timer queue, event table, scheduler threads,
  loggers, configuration, server sockets, locks); what each operation does on every branch; the byte queue as a FIFO and the
  formatter as its pieces (refinement); the buffers interface against plain writes and calls on a cut input against
  one call (equivalence); round trips of requests and URIs, and of configured values whose texts yaml-cpp reads back; that the parsers return within their
  buffer; that keep-alive clients whose requests arrive one by one are served and that a stop cancels, closes and lets go; and, as theorems of their own,
  where the code goes wrong. The properties below this header join the configuration with the loggers.

  \<^bold>\<open>Conventions.\<close> Errors, failed asserts, null pointers, accesses out of bounds and reads of unset memory are values
  (\<open>Inl\<close> or \<open>None\<close>). Integers are words where they can wrap; \<open>size_t\<close> is \<open>nat\<close> with the conversions written out where
  only those matter. A region under one lock is one step; threads and fibers are interleaved steps. Fuel appears in
  \<open>Logger_log\<close> only: it bounds the chain of root loggers, and 2 is proved enough, since the root has no root. The
  loops of \<open>ByteArray\<close> are partial functions whose end is proved; loops that need not end are steps (accept, idle,
  run).

  \<^bold>\<open>Parameters.\<close> What is not under \<^verbatim>\<open>src\<close>: the kernel (\<open>epoll_ctl\<close>, \<open>fstat\<close>, the results of system calls, what
  arrives on a stream), \<open>getaddrinfo\<close>, \<open>inet_pton\<close>, \<open>strftime\<close>, \<open>fnmatch\<close>, \<open>boost::lexical_cast\<close>, yaml-cpp, the hash
  containers, and the clock. Laws that a theorem needs of them are hypotheses, met by a concrete instance in its
  witness.

  \<^bold>\<open>Not modelled.\<close> Errors of \<open>pthread\<close> locks, whose results the code ignores, appear as blocking. Servlets of the user
  leave the session alone. Sizes of a \<open>ByteArray\<close> are natural numbers, without the wrap-around of \<open>size_t\<close>; that its
  construction ends is proved for capacities that do not wrap. \<^verbatim>\<open>http/http_connection.cc\<close> is inside \<^verbatim>\<open>#if 0\<close>. \<^verbatim>\<open>util.cc\<close> and the macros give thread ids,
  clocks and asserts. The log lines that components write about themselves are left out, as are stack memory, the
  lookup of the real system calls, and the Ragel sources behind the generated code.
\<close>

section \<open>A document reaches the loggers\<close>

text \<open>The table holds the variable \<open>logs\<close> with a value, and the listener is its only one.\<close>

definition logs_installed :: "log_env \<Rightarrow> log_event \<Rightarrow> LogDefine list \<Rightarrow> (base_val, log_error + log_state) config \<Rightarrow> bool" where
  "logs_installed env ev v cf \<longleftrightarrow> (\<exists>a var key. LookupBase (lit ''logs'') cf = Some a \<and> cf_vars cf a = Some var \<and>
     cv_type var = LOGS \<and> cv_val var = VBase (BLogs v) \<and> cv_cbs var = [(key, LogIniter_cb env ev)])"

lemma LogIniter_installs: "\<exists>cf. LogIniter_new env ev config_new = Some cf \<and> logs_installed env ev [] cf"
  by (simp add: LogIniter_new_def Lookup_def config_new_def addListener_def logs_installed_def LookupBase_def ConfigVar_new_def
      put_var_def cv_addListener_def Let_def only_of_def LOOKUP_CHARS_def lit_def incomp_def lex_less_irrefl)

text \<open>A document that has only the loggers.\<close>

definition logs_document :: "yaml list \<Rightarrow> yaml" where
  "logs_document ns = YMap [(YScalar (lit ''logs''), YSeq ns)]"

lemma logs_members: "ListAllMember [] (logs_document ns) = [([], logs_document ns), (lit ''logs'', YSeq ns)]"
  by (simp add: ListAllMember.simps [of _ "YMap _"] ListAllMember.simps [of _ "YSeq _"] logs_document_def only_of_def
      MEMBER_CHARS_def lit_def y_scalar_def)

lemma load_logs:
  assumes "logs_installed env ev old_logs cf" "logs_from_string lib (y_emit lib (YSeq ns)) = Some new_logs"
  shows "\<exists>cf'. LoadFromYaml lib (base_casts lib c) (logs_document ns) (cf, w) =
      Some (cf', if new_logs = old_logs then w else bindE w (conf_changed env ev old_logs new_logs)) \<and>
    logs_installed env ev new_logs cf'"
proof -
  obtain a var key where v: "LookupBase (lit ''logs'') cf = Some a" "cf_vars cf a = Some var" "cv_type var = LOGS"
    "cv_val var = VBase (BLogs old_logs)" "cv_cbs var = [(key, LogIniter_cb env ev)]"
    using assms(1) by (auto simp: logs_installed_def)
  have lower: "map tolower (lit ''logs'') = lit ''logs''" by (simp add: lit_def tolower_def)
  have "LookupBase (lit ''logs'') (put_var a (var\<lparr>cv_val := VBase (BLogs new_logs)\<rparr>) cf) = Some a"
    using v(1) by (simp add: LookupBase_def)
  then have "logs_installed env ev new_logs (put_var a (var\<lparr>cv_val := VBase (BLogs new_logs)\<rparr>) cf)"
    using v by (simp add: logs_installed_def)
  moreover have same: "var\<lparr>cv_val := VBase (BLogs old_logs)\<rparr> = var" using v(4) by (cases var) simp
  ultimately show ?thesis using v(1-4) assms(2) lower
    by (cases "new_logs = old_logs")
       (simp_all add: same LoadFromYaml_def logs_members load_member_def fromString_def cv_fromString_def cv_setValue_def base_casts_def
        LogIniter_cb_def Let_def lit_def v(5))
qed


text \<open>
  C21: Loading a document whose definitions of loggers are all new reaches the loggers. The variable takes the
  definitions that the document has; the logger of each has its level and exactly its appenders, each with its
  kind, level and own formatter; and a logger that is no longer defined is switched off. The listener logs a line
  first: the dates in it are to fit into the buffer, in the formats of the formatters in use.
\<close>

theorem reload_applies:
  assumes "logs_installed env ev old_logs cf" "logs_ok old_logs" "log_ok st" "all_fit env ev st"
    and new: "logs_from_string lib (y_emit lib (YSeq ns)) = Some new_logs" and apart: "set old_logs \<inter> set new_logs = {}"
  shows "\<exists>cf' st'. LoadFromYaml lib (base_casts lib c) (logs_document ns) (cf, Inr st) = Some (cf', Inr st') \<and>
    logs_installed env ev new_logs cf' \<and> log_ok st' \<and> (\<forall>i \<in> set new_logs. holds (logger_matches i) (ld_name i) st') \<and>
    (\<forall>i \<in> set old_logs. ld_name i \<notin> ld_name ` set new_logs \<longrightarrow> holds switched_off (ld_name i) st')"
proof (cases "new_logs = old_logs")
  case True
  then have "new_logs = []" using apart by simp
  then show ?thesis using load_logs [OF assms(1) new, of c "Inr st"] True assms(3) by auto
next
  case False
  obtain st' where "conf_changed env ev old_logs new_logs st = Inr st'" "log_ok st'"
    "\<forall>i \<in> set new_logs. holds (logger_matches i) (ld_name i) st'"
    "\<forall>i \<in> set old_logs. ld_name i \<notin> ld_name ` set new_logs \<longrightarrow> holds switched_off (ld_name i) st'"
    using conf_applied [OF assms(3,4,2) logs_from_string_ok [OF new] apart] by blast
  then show ?thesis using load_logs [OF assms(1) new, of c "Inr st"] False by auto
qed

text \<open>The event of the listener's own line, and the base types of a table of which only \<open>logs\<close> is used.\<close>

abbreviation test_event :: log_event where
  "test_event \<equiv> LogEvent_new 0 INFO [] 1 0 0 0 0 []"

definition no_casts :: "base_val casts" where
  "no_casts = \<lparr>c_from = \<lambda>_ _. None, c_to = \<lambda>_ _. None, c_type = \<lambda>v. (case v of BLogs _ \<Rightarrow> 0 | BInt _ \<Rightarrow> 1 | BUint _ \<Rightarrow> 2),
     c_less = \<lambda>_ _. False, c_uinsert = \<lambda>_ xs. xs, c_uput = \<lambda>_ _ m. m\<rparr>"

definition named :: "string \<Rightarrow> yaml" where
  "named n = YMap [(YScalar (lit ''name''), YScalar (lit n)), (YScalar (lit ''level''), YScalar (lit ''WARN''))]"

definition named_define :: "string \<Rightarrow> LogDefine" where
  "named_define n = \<lparr>ld_name = lit n, ld_level = WARN, ld_formatter = [], ld_appenders = []\<rparr>"

lemma read_named: "read_define (loaded_lib d) (named n) = Some (Some (named_define n))"
  by (simp add: read_define_def get_string_def named_def named_define_def loaded_lib_def small_lib_def LogLevel_FromString_def lit_def)

lemma logs_named:
  "logs_from_string (loaded_lib (YSeq [named ''a''])) s = Some [named_define ''a'']"
  "logs_from_string (loaded_lib (YSeq [named ''a'', named ''b''])) s = Some [named_define ''a'', named_define ''b'']"
proof -
  have "y_load (loaded_lib d) s = Some d" "y_elems (loaded_lib d) (YSeq ns) = ns" for d s ns by (simp_all add: loaded_lib_def small_lib_def)
  then show "logs_from_string (loaded_lib (YSeq [named ''a''])) s = Some [named_define ''a'']"
    "logs_from_string (loaded_lib (YSeq [named ''a'', named ''b''])) s = Some [named_define ''a'', named_define ''b'']"
    by (simp_all add: logs_from_string_def read_named ld_less_def named_define_def lit_def)
qed

lemma reload_applies_witness:
  "\<exists>cf cf' st'. LogIniter_new test_env test_event config_new = Some cf \<and>
     LoadFromYaml (loaded_lib (YSeq [named ''a''])) (base_casts (loaded_lib (YSeq [named ''a''])) no_casts)
       (logs_document [named ''a'']) (cf, Inr first_state) = Some (cf', Inr st') \<and>
     holds (logger_matches (named_define ''a'')) (lit ''a'') st'"
proof -
  obtain cf where cf: "LogIniter_new test_env test_event config_new = Some cf" "logs_installed test_env test_event [] cf"
    using LogIniter_installs by blast
  from reload_applies [OF cf(2) _ first_state_ok _ logs_named(1), where ns = "[named ''a'']" and c = no_casts]
  obtain cf' st' where "LoadFromYaml (loaded_lib (YSeq [named ''a''])) (base_casts (loaded_lib (YSeq [named ''a''])) no_casts)
       (logs_document [named ''a'']) (cf, Inr first_state) = Some (cf', Inr st')"
     "holds (logger_matches (named_define ''a'')) (ld_name (named_define ''a'')) st'"
    by (auto simp: logs_ok_def all_fit_def fits_def)
  then show ?thesis using cf(1) by (auto simp: named_define_def)
qed

text \<open>
  C23: Loading a changed document that leaves the definition of one logger as it was ends the program: the
  listener that the change calls follows a null pointer, whatever else the document changes (when the dates of the line
  that it logs first fit, as above).
\<close>

theorem reload_crashes:
  assumes "logs_installed env ev old_logs cf" "logs_ok old_logs" "log_ok st" "all_fit env ev st"
    and new: "logs_from_string lib (y_emit lib (YSeq ns)) = Some new_logs" "new_logs \<noteq> old_logs"
    and same: "i \<in> set old_logs" "i \<in> set new_logs"
  shows "\<exists>cf'. LoadFromYaml lib (base_casts lib c) (logs_document ns) (cf, Inr st) = Some (cf', Inl NullLogger)"
  using load_logs [OF assms(1) new(1), of c "Inr st"] new(2)
    unchanged_logger_crashes [OF assms(3,4,2) logs_from_string_ok [OF new(1)] same] by auto

lemma reload_crashes_witness:
  "\<exists>cf cf' st' cf''. LogIniter_new test_env test_event config_new = Some cf \<and>
     LoadFromYaml (loaded_lib (YSeq [named ''a''])) (base_casts (loaded_lib (YSeq [named ''a''])) no_casts)
       (logs_document [named ''a'']) (cf, Inr first_state) = Some (cf', Inr st') \<and>
     LoadFromYaml (loaded_lib (YSeq [named ''a'', named ''b''])) (base_casts (loaded_lib (YSeq [named ''a'', named ''b''])) no_casts)
       (logs_document [named ''a'', named ''b'']) (cf', Inr st') = Some (cf'', Inl NullLogger)"
proof -
  obtain cf where cf: "LogIniter_new test_env test_event config_new = Some cf" "logs_installed test_env test_event [] cf"
    using LogIniter_installs by blast
  have fit: "all_fit test_env ev st" for ev st by (simp add: all_fit_def fits_def)
  obtain st' where st': "conf_changed test_env test_event [] [named_define ''a''] first_state = Inr st'" "log_ok st'"
    using conf_applied [OF first_state_ok fit, of "[]" "[named_define ''a'']" test_event] by (auto simp: logs_ok_def types_ok_def named_define_def)
  obtain cf' where cf': "LoadFromYaml (loaded_lib (YSeq [named ''a''])) (base_casts (loaded_lib (YSeq [named ''a''])) no_casts)
       (logs_document [named ''a'']) (cf, Inr first_state) = Some (cf', Inr st')" "logs_installed test_env test_event [named_define ''a''] cf'"
    using load_logs [OF cf(2) logs_named(1), where ns = "[named ''a'']" and c = no_casts and w = "Inr first_state"] st'(1) by auto
  have "logs_ok [named_define ''a'']" using logs_from_string_ok [OF logs_named(1)] .
  from reload_crashes [OF cf'(2) this st'(2) fit logs_named(2), where i = "named_define ''a''" and ns = "[named ''a'', named ''b'']" and c = no_casts]
  show ?thesis using cf(1) cf'(1) by auto
qed

end
